(* ===== verification/Prelude.thy ===== *)
theory Prelude
  imports Main "HOL-Library.Char_ord" "HOL-Library.List_Lexorder" "HOL-Library.AList"
    "HOL-Library.Sublist"
begin

text \<open>
  The generic layer of the development: the parts of Go's standard library the controller
  uses on strings, slices and maps, written as executable HOL functions, and the lemmas the
  component theories share about them.

  \<^item> A Go string is a \<^typ>\<open>string\<close>, one \<^typ>\<open>char\<close> per byte; \<open>len\<close> is \<^const>\<open>length\<close>.
    The byte order of \<open>slices.Sort\<close> is the lexicographic order of
    \<^verbatim>\<open>List_Lexorder\<close> over \<^verbatim>\<open>Char_ord\<close>.
  \<^item> A Go map is an association list, so that \<open>range\<close>, \<open>len\<close> and \<open>maps.Equal\<close> compute;
    \<open>AList.update\<close> and \<open>AList.delete\<close> are assignment and \<open>delete\<close>.
  \<^item> A nil-able pointer is an \<open>option\<close>.
\<close>

named_theorems go_string \<open>facts on the string functions\<close>
named_theorems go_slice \<open>facts on the slice functions\<close>
named_theorems go_map \<open>facts on the map functions\<close>

section \<open>Strings\<close>

text \<open>\<open>strings.Split\<close> for a one-character separator: never the empty list.\<close>

fun Split :: "char \<Rightarrow> string \<Rightarrow> string list" where
  "Split c [] = [[]]"
| "Split c (x # xs) =
     (if x = c then [] # Split c xs
      else (case Split c xs of [] \<Rightarrow> [[x]] | y # ys \<Rightarrow> (x # y) # ys))"

text \<open>\<open>strings.Join\<close>.\<close>

fun Join :: "string \<Rightarrow> string list \<Rightarrow> string" where
  "Join sep [] = []"
| "Join sep [x] = x"
| "Join sep (x # y # ys) = x @ sep @ Join sep (y # ys)"

definition HasPrefix :: "string \<Rightarrow> string \<Rightarrow> bool" where
  "HasPrefix s p \<longleftrightarrow> take (length p) s = p"

definition HasSuffix :: "string \<Rightarrow> string \<Rightarrow> bool" where
  "HasSuffix s p \<longleftrightarrow> HasPrefix (rev s) (rev p)"

text \<open>\<open>strings.Contains\<close>.\<close>

fun Contains :: "string \<Rightarrow> string \<Rightarrow> bool" where
  "Contains [] p = (p = [])"
| "Contains (x # xs) p = (HasPrefix (x # xs) p \<or> Contains xs p)"

text \<open>ASCII case mapping; \<open>strings.EqualFold\<close> on ASCII text.\<close>

definition to_lower_char :: "char \<Rightarrow> char" where
  "to_lower_char c =
     (if 65 \<le> (of_char c :: nat) \<and> (of_char c :: nat) \<le> 90 then char_of ((of_char c :: nat) + 32) else c)"

definition to_upper_char :: "char \<Rightarrow> char" where
  "to_upper_char c =
     (if 97 \<le> (of_char c :: nat) \<and> (of_char c :: nat) \<le> 122 then char_of ((of_char c :: nat) - 32) else c)"

definition ToUpper :: "string \<Rightarrow> string" where
  "ToUpper s = map to_upper_char s"

definition EqualFold :: "string \<Rightarrow> string \<Rightarrow> bool" where
  "EqualFold a b \<longleftrightarrow> map to_lower_char a = map to_lower_char b"

text \<open>\<open>strings.TrimSpace\<close> on ASCII text: the bytes \<open>\t \n \v \f \r\<close> and the blank.\<close>

definition is_space :: "char \<Rightarrow> bool" where
  "is_space c \<longleftrightarrow> (of_char c :: nat) \<in> {9, 10, 11, 12, 13, 32}"

definition TrimSpace :: "string \<Rightarrow> string" where
  "TrimSpace s = rev (dropWhile is_space (rev (dropWhile is_space s)))"

text \<open>\<open>strconv.Itoa\<close> and the \<open>%d\<close> verb.\<close>

fun digits_of :: "nat \<Rightarrow> string" where
  "digits_of n = (if n < 10 then [char_of (48 + n)] else digits_of (n div 10) @ [char_of (48 + n mod 10)])"

declare digits_of.simps [simp del]

definition Itoa :: "int \<Rightarrow> string" where
  "Itoa i = (if i < 0 then CHR ''-'' # digits_of (nat (- i)) else digits_of (nat i))"

subsection \<open>Facts\<close>

lemma Split_not_Nil [simp]: "Split c s \<noteq> []"
  by (induction s) (auto split: list.splits)

lemma Split_no_sep: "p \<in> set (Split c s) \<Longrightarrow> c \<notin> set p"
proof (induction s arbitrary: p)
  case (Cons x xs)
  then show ?case by (cases "Split c xs") (auto split: if_splits)
qed simp

lemma Split_single [go_string]: "c \<notin> set s \<Longrightarrow> Split c s = [s]"
  by (induction s) auto

lemma Split_append_sep [go_string]: "c \<notin> set x \<Longrightarrow> Split c (x @ c # s) = x # Split c s"
  by (induction x) auto

text \<open>Splitting undoes joining when no part holds the separator.\<close>

lemma Split_Join [go_string]:
  "xs \<noteq> [] \<Longrightarrow> \<forall>p \<in> set xs. c \<notin> set p \<Longrightarrow> Split c (Join [c] xs) = xs"
  by (induction "[c]" xs rule: Join.induct) (auto simp: Split_single Split_append_sep)

lemma Join_eq_Nil_iff: "[] \<notin> set xs \<Longrightarrow> Join sep xs = [] \<longleftrightarrow> xs = []"
  by (induction sep xs rule: Join.induct) auto

text \<open>The non-empty parts of a joined list are its non-empty members, the empty list included.\<close>

lemma set_Split_Join:
  assumes "\<forall>p \<in> set xs. c \<notin> set p"
  shows "set (Split c (Join [c] xs)) - {[]} = set xs - {[]}"
proof (cases xs)
  case Nil
  then show ?thesis by simp
next
  case (Cons y ys)
  with assms show ?thesis by (simp add: Split_Join del: Join.simps)
qed

lemma HasPrefix_append [simp]: "HasPrefix (p @ s) p"
  by (simp add: HasPrefix_def)

lemma HasSuffix_append [simp]: "HasSuffix (s @ p) p"
  by (simp add: HasSuffix_def)

lemma EqualFold_refl [simp]: "EqualFold s s"
  by (simp add: EqualFold_def)

lemma EqualFold_sym: "EqualFold a b \<Longrightarrow> EqualFold b a"
  by (simp add: EqualFold_def)

lemma EqualFold_trans: "EqualFold a b \<Longrightarrow> EqualFold b c \<Longrightarrow> EqualFold a c"
  by (simp add: EqualFold_def)

lemma EqualFold_length: "EqualFold a b \<Longrightarrow> length a = length b"
  unfolding EqualFold_def by (metis length_map)

lemma EqualFold_Nil_iff [simp]: "EqualFold [] b \<longleftrightarrow> b = []" "EqualFold a [] \<longleftrightarrow> a = []"
  by (auto simp: EqualFold_def)

section \<open>Slices\<close>

text \<open>\<open>slices.Compact\<close> is \<^const>\<open>remdups_adj\<close>; \<open>slices.ContainsFunc\<close> is \<^const>\<open>list_ex\<close>.\<close>

lemma distinct_remdups_adj_sorted: "sorted xs \<Longrightarrow> distinct (remdups_adj xs)"
proof (induction xs rule: remdups_adj.induct)
  case (3 x y xs)
  then show ?case by (cases "x = y") fastforce+
qed simp_all

lemma remdups_adj_sort_eq [go_slice]:
  fixes xs :: "'a :: linorder list"
  shows "remdups_adj (sort xs) = sorted_list_of_set (set xs)"
  by (rule sorted_distinct_set_unique) (simp_all add: distinct_remdups_adj_sorted)

section \<open>Maps\<close>

type_synonym gomap = "(string \<times> string) list"

text \<open>Reading a missing key gives the empty string.\<close>

definition map_get :: "gomap \<Rightarrow> string \<Rightarrow> string" where
  "map_get m k = (case map_of m k of None \<Rightarrow> [] | Some v \<Rightarrow> v)"

definition has_key :: "('k \<times> 'v) list \<Rightarrow> 'k \<Rightarrow> bool" where
  "has_key m k \<longleftrightarrow> map_of m k \<noteq> None"

text \<open>\<open>maps.Equal\<close>: the same number of entries, and each key of one maps to the same value in the other.\<close>

definition maps_Equal :: "gomap \<Rightarrow> gomap \<Rightarrow> bool" where
  "maps_Equal a b \<longleftrightarrow> length a = length b \<and> list_all (\<lambda>(k, v). map_of b k = Some v) a"

text \<open>Copying a map entry by entry, as the source's \<open>for k, v := range m { out[k] = v }\<close>.\<close>

definition map_copy :: "gomap \<Rightarrow> gomap" where
  "map_copy m = fold (\<lambda>(k, v) acc. AList.update k v acc) m []"

text \<open>\<open>for k := range ks { delete(m, k) }\<close>.\<close>

definition delete_keys :: "('k \<times> 'b) list \<Rightarrow> ('k \<times> 'v) list \<Rightarrow> ('k \<times> 'v) list" where
  "delete_keys ks m = fold (\<lambda>(k, _) acc. AList.delete k acc) ks m"

lemma distinct_fold_update:
  "distinct (map fst acc) \<Longrightarrow> distinct (map fst (fold (\<lambda>(k, v) a. AList.update k v a) m acc))"
  by (induction m arbitrary: acc) (auto simp: distinct_update)

lemma map_of_fold_update:
  "distinct (map fst m) \<Longrightarrow>
   map_of (fold (\<lambda>(k, v) a. AList.update k v a) m acc) = map_of acc ++ map_of m"
proof (induction m arbitrary: acc)
  case (Cons kv m)
  obtain k v where kv: "kv = (k, v)" by (cases kv)
  from Cons.prems kv have "map_of m k = None"
    by (simp add: map_of_eq_None_iff)
  with Cons kv show ?case
    by (simp add: update_conv' fun_eq_iff map_add_def split: option.splits)
qed simp

lemma map_of_delete_keys [go_map]:
  "map_of (delete_keys ks m) k = (if k \<in> fst ` set ks then None else map_of m k)"
  unfolding delete_keys_def
  by (induction ks arbitrary: m) (auto simp: delete_conv')

lemma distinct_delete_keys: "distinct (map fst m) \<Longrightarrow> distinct (map fst (delete_keys ks m))"
  unfolding delete_keys_def
  by (induction ks arbitrary: m) (auto simp: distinct_delete)

lemma map_of_map_copy [go_map]: "distinct (map fst m) \<Longrightarrow> map_of (map_copy m) = map_of m"
  by (simp add: map_copy_def map_of_fold_update)

lemma distinct_map_copy [simp]: "distinct (map fst (map_copy m))"
  by (simp add: map_copy_def distinct_fold_update)

lemma maps_Equal_map_of:
  assumes "maps_Equal a b" and "distinct (map fst a)" and "distinct (map fst b)"
  shows "map_of a = map_of b"
proof -
  have sub: "set a \<subseteq> set b"
    using assms(1) by (auto simp: maps_Equal_def list_all_iff dest: map_of_SomeD)
  have "card (set a) = card (set b)"
    using assms by (metis distinct_card distinct_map maps_Equal_def)
  with sub have "set a = set b" by (simp add: card_subset_eq)
  with assms(2,3) show ?thesis by (metis map_of_inject_set)
qed

section \<open>Options\<close>

text \<open>\<open>p != nil && *p != ""\<close>, the guard the source writes on every optional id.\<close>

definition nonempty :: "string option \<Rightarrow> bool" where
  "nonempty p \<longleftrightarrow> (case p of None \<Rightarrow> False | Some v \<Rightarrow> v \<noteq> [])"

definition deref :: "string option \<Rightarrow> string" where
  "deref p = (case p of None \<Rightarrow> [] | Some v \<Rightarrow> v)"

lemma nonempty_simps [simp]:
  "\<not> nonempty None" "nonempty (Some v) \<longleftrightarrow> v \<noteq> []"
  by (auto simp: nonempty_def)

lemma deref_simps [simp]: "deref None = []" "deref (Some v) = v"
  by (auto simp: deref_def)

end
