(* ===== verification/Go_Errors.thy ===== *)
theory Go_Errors
  imports Prelude
begin

text \<open>
  Errors and their classification: \<^verbatim>\<open>internal/domain/error.go\<close>,
  \<^verbatim>\<open>internal/domain/ratelimit.go\<close>, \<^verbatim>\<open>internal/domain/warning.go\<close> and \<^verbatim>\<open>pkg/errs\<close>.

  A Go error is a tree: a leaf carries a text, a wrapper carries its own text and the errors
  it unwraps to. The text decides what the \<open>Is...\<close> predicates answer (they look at prefixes and
  suffixes), the tree decides what \<open>errors.As\<close> finds, so both are kept. Durations are \<^typ>\<open>int\<close>
  nanoseconds, as \<open>time.Duration\<close>.
\<close>

datatype go_error =
    ErrorString string
  | ErrorLoadBalancerStatusError
  | RateLimitError int string string go_error
  | RequeueNeeded string
  | RequeueNeededAfter string int
  | ReconcileWarning "string list"
  | Wraps string "go_error list"

section \<open>time.Duration\<close>

definition Nanosecond :: int where "Nanosecond = 1"
definition Second :: int where "Second = 1000000000"
definition Minute :: int where "Minute = 60 * Second"

text \<open>The fractional digits of a duration: \<open>prec\<close> digits, trailing zeros dropped.\<close>

definition frac_digits :: "nat \<Rightarrow> nat \<Rightarrow> string" where
  "frac_digits prec n =
     (let ds = digits_of n;
          padded = replicate (prec - length ds) CHR ''0'' @ ds;
          kept = rev (dropWhile (\<lambda>c. c = CHR ''0'') (rev padded))
      in if n = 0 \<or> prec = 0 then [] else CHR ''.'' # kept)"

text \<open>\<open>Duration.String\<close>, the \<open>%v\<close> and \<open>%s\<close> form of a duration.\<close>

definition duration_string :: "int \<Rightarrow> string" where
  "duration_string d =
     (let u = nat \<bar>d\<bar>; sign = (if d < 0 then ''-'' else [])
      in if u = 0 then ''0s''
         else if u < 1000 then sign @ digits_of u @ ''ns''
         else if u < 1000000 then sign @ digits_of (u div 1000) @ frac_digits 3 (u mod 1000) @ [CHR 0xC2, CHR 0xB5] @ ''s''
         else if u < 1000000000 then sign @ digits_of (u div 1000000) @ frac_digits 6 (u mod 1000000) @ ''ms''
         else let w = u div 1000000000; m = w div 60; h = m div 60
              in sign @ (if h > 0 then digits_of h @ ''h'' else [])
                   @ (if m > 0 then digits_of (m mod 60) @ ''m'' else [])
                   @ digits_of (w mod 60) @ frac_digits 9 (u mod 1000000000) @ ''s'')"

section \<open>Texts and trees\<close>

fun Error :: "go_error \<Rightarrow> string" where
  "Error (ErrorString m) = m"
| "Error ErrorLoadBalancerStatusError = ''load balancer status is error''"
| "Error (RateLimitError after url meth cause) =
     ''vngcloud rate limit exceeded (retry after '' @ duration_string after @ '') on '' @ meth @ '' '' @ url"
| "Error (RequeueNeeded reason) = ''requeue needed: '' @ reason"
| "Error (RequeueNeededAfter reason d) = ''requeue needed after '' @ duration_string d @ '': '' @ reason"
| "Error (ReconcileWarning ms) = Join ''; '' ms"
| "Error (Wraps m es) = m"

fun Unwrap :: "go_error \<Rightarrow> go_error list" where
  "Unwrap (RateLimitError _ _ _ cause) = [cause]"
| "Unwrap (Wraps _ es) = es"
| "Unwrap _ = []"

text \<open>\<open>errors.As\<close>: depth-first, the node itself before what it unwraps to.\<close>

fun errors_As :: "(go_error \<Rightarrow> 'a option) \<Rightarrow> go_error \<Rightarrow> 'a option"
  and errors_As_list :: "(go_error \<Rightarrow> 'a option) \<Rightarrow> go_error list \<Rightarrow> 'a option" where
  "errors_As f (ErrorString m) = f (ErrorString m)"
| "errors_As f ErrorLoadBalancerStatusError = f ErrorLoadBalancerStatusError"
| "errors_As f (RateLimitError a u m c) =
     (case f (RateLimitError a u m c) of Some x \<Rightarrow> Some x | None \<Rightarrow> errors_As f c)"
| "errors_As f (RequeueNeeded r) = f (RequeueNeeded r)"
| "errors_As f (RequeueNeededAfter r d) = f (RequeueNeededAfter r d)"
| "errors_As f (ReconcileWarning ms) = f (ReconcileWarning ms)"
| "errors_As f (Wraps m es) = (case f (Wraps m es) of Some x \<Rightarrow> Some x | None \<Rightarrow> errors_As_list f es)"
| "errors_As_list f [] = None"
| "errors_As_list f (e # es) = (case errors_As f e of Some x \<Rightarrow> Some x | None \<Rightarrow> errors_As_list f es)"

fun is_RateLimit :: "go_error \<Rightarrow> (int \<times> string \<times> string) option" where
  "is_RateLimit (RateLimitError a u m c) = Some (a, u, m)"
| "is_RateLimit _ = None"

fun is_RequeueAfter :: "go_error \<Rightarrow> int option" where
  "is_RequeueAfter (RequeueNeededAfter r d) = Some d"
| "is_RequeueAfter _ = None"

fun is_Requeue :: "go_error \<Rightarrow> unit option" where
  "is_Requeue (RequeueNeeded r) = Some ()"
| "is_Requeue _ = None"

fun is_Warning :: "go_error \<Rightarrow> string list option" where
  "is_Warning (ReconcileWarning ms) = Some ms"
| "is_Warning _ = None"

text \<open>
  \<open>fmt.Errorf("...: %w", err)\<close> and \<open>errors.Wrapf\<close>: the text in front, the error kept for unwrapping;
  \<open>errors.Join\<close> with its newline-separated text; \<open>fmt.Errorf("%w: %w", a, b)\<close>, which unwraps to both.
\<close>

definition errorf :: "string \<Rightarrow> go_error \<Rightarrow> go_error" where
  "errorf pre e = Wraps (pre @ '': '' @ Error e) [e]"

definition errors_Join :: "go_error list \<Rightarrow> go_error" where
  "errors_Join es = Wraps (Join [CHR 0x0A] (map Error es)) es"

definition errorf2 :: "go_error \<Rightarrow> go_error \<Rightarrow> go_error" where
  "errorf2 a b = Wraps (Error a @ '': '' @ Error b) [a, b]"

section \<open>internal/domain/error.go\<close>

definition IsLoadBalancerNotFound :: "go_error \<Rightarrow> bool" where
  "IsLoadBalancerNotFound err \<longleftrightarrow> HasPrefix (Error err) ''Cannot get load balancer with id''"

definition IsLoadBalancerNotReady :: "go_error \<Rightarrow> bool" where
  "IsLoadBalancerNotReady err \<longleftrightarrow>
     HasPrefix (Error err) ''The load balancer id'' \<and> HasSuffix (Error err) ''is not ready''"

definition IsExceededSecurityGroupPerServerQuota :: "go_error \<Rightarrow> bool" where
  "IsExceededSecurityGroupPerServerQuota err \<longleftrightarrow> Contains (Error err) ''Exceeded SEC_GROUP_PER_SERVER quota.''"

definition IsGlobalLoadBalancerNotFound :: "go_error \<Rightarrow> bool" where
  "IsGlobalLoadBalancerNotFound err \<longleftrightarrow> EqualFold (Error err) ''global_load_balancer_not_found''"

definition IsSecurityGroupRuleExists :: "go_error \<Rightarrow> bool" where
  "IsSecurityGroupRuleExists err \<longleftrightarrow> Contains (Error err) ''SecurityGroupRuleExists''"

definition IsSecurityGroupNotFound :: "go_error \<Rightarrow> bool" where
  "IsSecurityGroupNotFound err \<longleftrightarrow> HasPrefix (Error err) ''Cannot get security group with id secg-''"

definition IsServerNotFound :: "go_error \<Rightarrow> bool" where
  "IsServerNotFound err \<longleftrightarrow> HasPrefix (Error err) ''Cannot get server with id''"

definition IsRateLimitExceeded :: "go_error \<Rightarrow> bool" where
  "IsRateLimitExceeded err \<longleftrightarrow> errors_As is_RateLimit err \<noteq> None"

text \<open>\<open>IgnoreErrors\<close>: nil (\<open>None\<close>) stays nil, an error some predicate recognises becomes nil.\<close>

fun IgnoreErrors :: "go_error option \<Rightarrow> (go_error \<Rightarrow> bool) list \<Rightarrow> go_error option" where
  "IgnoreErrors None fs = None"
| "IgnoreErrors (Some e) [] = Some e"
| "IgnoreErrors (Some e) (f # fs) = (if f e then None else IgnoreErrors (Some e) fs)"

section \<open>internal/domain/ratelimit.go\<close>

text \<open>\<open>rnd n\<close> is \<open>rand.Int63n(n)\<close>, documented to be in \<open>[0, n)\<close> for positive \<open>n\<close>.\<close>

definition RateLimitRequeueAfter :: "(int \<Rightarrow> int) \<Rightarrow> int \<Rightarrow> int" where
  "RateLimitRequeueAfter rnd d =
     (let minWait = 2 * Second; maxWait = 5 * Minute;
          d1 = (if d < minWait then minWait else d);
          d2 = (if d1 > maxWait then maxWait else d1)
      in d2 + rnd (d2 div 2))"

section \<open>pkg/errs\<close>

definition NewNoNeedRequeue :: "string \<Rightarrow> go_error" where
  "NewNoNeedRequeue reason = RequeueNeededAfter reason (3 * Minute)"

text \<open>
  \<open>NewErrorWithMetrics\<close>: a wrapper with the same text, and whether the error counter is bumped
  (not for the two requeue requests).
\<close>

definition NewErrorWithMetrics :: "go_error \<Rightarrow> go_error \<times> bool" where
  "NewErrorWithMetrics err =
     (Wraps (Error err) [err],
      errors_As is_RequeueAfter err = None \<and> errors_As is_Requeue err = None)"

record ctrl_result =
  Requeue :: bool
  RequeueAfter :: int

definition HandleReconcileError :: "(int \<Rightarrow> int) \<Rightarrow> go_error option \<Rightarrow> ctrl_result \<times> go_error option" where
  "HandleReconcileError rnd err =
     (case err of
        None \<Rightarrow> (\<lparr>Requeue = False, RequeueAfter = 0\<rparr>, None)
      | Some e \<Rightarrow>
        (case errors_As is_RateLimit e of
           Some (after, url, meth) \<Rightarrow>
             (\<lparr>Requeue = False, RequeueAfter = RateLimitRequeueAfter rnd after\<rparr>, None)
         | None \<Rightarrow>
           (case errors_As is_RequeueAfter e of
              Some d \<Rightarrow> (\<lparr>Requeue = False, RequeueAfter = d\<rparr>, None)
            | None \<Rightarrow>
              (case errors_As is_Requeue e of
                 Some _ \<Rightarrow> (\<lparr>Requeue = True, RequeueAfter = 0\<rparr>, None)
               | None \<Rightarrow> (\<lparr>Requeue = False, RequeueAfter = 0\<rparr>, Some e)))))"

section \<open>Facts\<close>

text \<open>Wrapping hides no typed cause: \<open>errors.As\<close> looks through \<open>errorf\<close> and the joined failures.\<close>

lemma errors_As_errorf [simp]:
  assumes "\<And>m es. f (Wraps m es) = None"
  shows "errors_As f (errorf pre e) = errors_As f e"
  using assms by (simp add: errorf_def split: option.splits)

lemma errors_As_Wraps1 [simp]:
  assumes "\<And>m es. f (Wraps m es) = None"
  shows "errors_As f (Wraps m [e]) = errors_As f e"
  using assms by (simp split: option.splits)

lemma errors_As_list_mem:
  "errors_As_list f es = None \<longleftrightarrow> (\<forall>e \<in> set es. errors_As f e = None)"
  by (induction es) (auto split: option.splits)

lemma RateLimitRequeueAfter_bounds:
  assumes rnd: "\<And>n. 0 < n \<Longrightarrow> 0 \<le> rnd n \<and> rnd n < n"
  shows "2 * Second \<le> RateLimitRequeueAfter rnd d \<and> 2 * RateLimitRequeueAfter rnd d < 15 * Minute
    \<and> (d \<le> 5 * Minute \<longrightarrow> d \<le> RateLimitRequeueAfter rnd d)"
proof -
  define d2 where "d2 = min (max d (2 * Second)) (5 * Minute)"
  have eq: "RateLimitRequeueAfter rnd d = d2 + rnd (d2 div 2)"
    by (simp add: RateLimitRequeueAfter_def d2_def Let_def Second_def Minute_def min_def max_def)
  have lo: "2 * Second \<le> d2" and hi: "d2 \<le> 5 * Minute" and "d \<le> 5 * Minute \<Longrightarrow> d \<le> d2"
    by (auto simp: d2_def Second_def Minute_def)
  moreover from lo have "0 < d2 div 2" by (simp add: Second_def)
  from rnd[OF this] have "0 \<le> rnd (d2 div 2)" "2 * rnd (d2 div 2) < d2" by linarith+
  ultimately show ?thesis unfolding eq by (auto simp: Second_def Minute_def)
qed

text \<open>
  C40. A throttled reconcile is always requeued with a bounded wait and never reported as a
  failure: whatever wraps the 429, the answer is a requeue after at least two seconds and less
  than seven and a half minutes, no error, and a server hint inside the bounds is honoured.
  \<open>rnd\<close> is \<open>rand.Int63n\<close>.
\<close>

theorem HandleReconcileError_rate_limit:
  assumes "\<And>n. 0 < n \<Longrightarrow> 0 \<le> rnd n \<and> rnd n < n"
    and "errors_As is_RateLimit e = Some (after, url, meth)"
  shows "snd (HandleReconcileError rnd (Some e)) = None
    \<and> 2 * Second \<le> RequeueAfter (fst (HandleReconcileError rnd (Some e)))
    \<and> 2 * RequeueAfter (fst (HandleReconcileError rnd (Some e))) < 15 * Minute
    \<and> (after \<le> 5 * Minute \<longrightarrow> after \<le> RequeueAfter (fst (HandleReconcileError rnd (Some e))))"
  using RateLimitRequeueAfter_bounds[OF assms(1), of after] assms(2)
  by (simp add: HandleReconcileError_def)

theorem HandleReconcileError_rate_limit_witness:
  "let e = errorf ''update pool'' (RateLimitError (7 * Second) ''u'' ''GET'' (ErrorString ''x''))
   in snd (HandleReconcileError (\<lambda>n. 0) (Some e)) = None
    \<and> RequeueAfter (fst (HandleReconcileError (\<lambda>n. 0) (Some e))) \<ge> 7 * Second"
proof -
  let ?e = "errorf ''update pool'' (RateLimitError (7 * Second) ''u'' ''GET'' (ErrorString ''x''))"
  have "errors_As is_RateLimit ?e = Some (7 * Second, ''u'', ''GET'')" by (simp add: errorf_def)
  then have "snd (HandleReconcileError (\<lambda>n. 0) (Some ?e)) = None
    \<and> (7 * Second \<le> 5 * Minute \<longrightarrow> 7 * Second \<le> RequeueAfter (fst (HandleReconcileError (\<lambda>n. 0) (Some ?e))))"
    using HandleReconcileError_rate_limit[of "\<lambda>n. 0" ?e "7 * Second" "''u''" "''GET''"] by simp
  then show ?thesis by (simp add: Let_def Second_def Minute_def)
qed

end
