(* ===== verification/LBC_Types.thy ===== *)
theory LBC_Types
  imports Go_Errors
begin

text \<open>
  The data of the LoadBalancerConfig controller: the CRD types of
  \<^verbatim>\<open>api/v1alpha1/loadbalancerconfig_types.go\<close> with their \<open>Equal\<close> methods, the parts of
  \<^verbatim>\<open>pkg/config\<close> and \<^verbatim>\<open>internal/domain/domain.go\<close> they are used with, and the entities and
  requests of the VNGCloud SDK, restricted to the fields the controller reads or writes.

  A pointer field is an \<open>option\<close>. String-typed enums stay strings; the constants the source takes
  from the SDK and from the Kubernetes API are fields of \<open>sdk_consts\<close>, a parameter of the model.
\<close>

section \<open>Spec\<close>

record InsertHeader =
  ih_HeaderName :: string
  ih_HeaderValue :: string

record L7Rule =
  r7_CompareType :: string
  r7_RuleValue :: string
  r7_RuleType :: string

record Policy =
  pol_Name :: string
  pol_Description :: "string option"
  pol_RedirectPoolName :: "string option"
  pol_Action :: string
  pol_RedirectUrl :: "string option"
  pol_RedirectHttpCode :: "int option"
  pol_KeepQueryString :: "bool option"
  pol_Position :: "int option"
  pol_L7Rules :: "L7Rule list"

record PoolHealthMonitor =
  phm_Protocol :: string
  phm_HealthyThreshold :: "int option"
  phm_UnhealthyThreshold :: "int option"
  phm_Interval :: "int option"
  phm_Timeout :: "int option"
  phm_HealthCheckMethod :: "string option"
  phm_HttpVersion :: "string option"
  phm_HealthCheckPath :: "string option"
  phm_DomainName :: "string option"
  phm_SuccessCode :: "string option"

record PoolMember =
  pm_IP :: string
  pm_Port :: int
  pm_MonitorPort :: int
  pm_Name :: string
  pm_Weight :: "int option"
  pm_Backup :: "bool option"

record Pool =
  pool_Name :: string
  pool_Protocol :: string
  pool_Description :: "string option"
  pool_Algorithm :: "string option"
  pool_Stickiness :: "bool option"
  pool_TLSEncryption :: "bool option"
  pool_HealthMonitor :: PoolHealthMonitor
  pool_Members :: "PoolMember list"

record ListenerCertificate =
  lc_Id :: "string option"
  lc_Name :: "string option"
  lc_SecretName :: "string option"

record Listener =
  lis_Name :: string
  lis_Description :: "string option"
  lis_Protocol :: string
  lis_ProtocolPort :: int
  lis_DefaultPoolName :: "string option"
  lis_TimeoutClient :: "int option"
  lis_TimeoutMember :: "int option"
  lis_TimeoutConnection :: "int option"
  lis_AllowedCidrs :: "string option"
  lis_BlockedCidrs :: "string option"
  lis_DefaultAction :: "string option"
  lis_InsertHeaders :: "InsertHeader list option"
  lis_Policies :: "Policy list"
  lis_CertificateDefault :: "ListenerCertificate option"
  lis_CertificateAuthorities :: "ListenerCertificate list"
  lis_ClientCertificateId :: "string option"

record CreateCertificate =
  cc_SecretName :: string

record LoadBalancerConfigSpec =
  sp_Type :: string
  sp_ClusterId :: "string option"
  sp_LoadBalancerName :: string
  sp_SubnetId :: string
  sp_VpcId :: string
  sp_BackendSubnetId :: "string option"
  sp_PrivateSubnetId :: "string option"
  sp_PrivateZoneId :: "string option"
  sp_ZoneId :: string
  sp_PackageId :: "string option"
  sp_Scheme :: "string option"
  sp_LoadBalancerId :: "string option"
  sp_EnableAutoscale :: "bool option"
  sp_Tags :: gomap
  sp_IsPoc :: "bool option"
  sp_Listeners :: "Listener list"
  sp_Pools :: "Pool list"
  sp_CreateCertificates :: "CreateCertificate list"

section \<open>Status\<close>

record CreatedPolicy =
  cpol_Id :: string

record CreatedPool =
  cp_Id :: string
  cp_Name :: string
  cp_CreatedMembers :: "PoolMember list"

record ListenerAcl =
  acl_AllowedCidrs :: "string option"
  acl_BlockedCidrs :: "string option"
  acl_DefaultAction :: "string option"

record CreatedListener =
  cl_Id :: string
  cl_Port :: int
  cl_CreatedPolicies :: "CreatedPolicy list"
  cl_Adopted :: bool
  cl_OriginalDefaultPoolId :: "string option"
  cl_OriginalAcl :: "ListenerAcl option"

record CreatedCertificate =
  ccert_SecretName :: string
  ccert_ResourceVersion :: string
  ccert_Id :: string
  ccert_CertificateName :: "string option"

record RetiringLoadBalancer =
  rt_Id :: string
  rt_CreatedListeners :: "CreatedListener list"
  rt_CreatedPools :: "CreatedPool list"
  rt_CreatedTags :: gomap

record Condition =
  cond_Type :: string
  cond_Status :: bool
  cond_ObservedGeneration :: int
  cond_LastTransitionTime :: int
  cond_Reason :: string
  cond_Message :: string

record LoadBalancerConfigStatus =
  ss_ObservedGeneration :: "int option"
  ss_LastReconcileTime :: "int option"
  ss_LastReconcileMessage :: string
  ss_Address :: "string option"
  ss_LoadBalancerId :: "string option"
  ss_AdoptedLoadBalancerId :: "string option"
  ss_RetiringLoadBalancer :: "RetiringLoadBalancer option"
  ss_CreatedLoadBalancerId :: "string option"
  ss_LoadBalancerName :: "string option"
  ss_Type :: "string option"
  ss_SubnetId :: "string option"
  ss_ZoneId :: "string option"
  ss_CreatedTags :: gomap
  ss_CreatedPools :: "CreatedPool list"
  ss_CreatedListeners :: "CreatedListener list"
  ss_CreatedCertificates :: "CreatedCertificate list"
  ss_Conditions :: "Condition list"

record ObjectMeta =
  om_Namespace :: string
  om_Name :: string
  om_UID :: string
  om_Generation :: int
  om_DeletionTimestamp :: "int option"
  om_Finalizers :: "string list"
  om_GenerateName :: string
  om_Labels :: gomap
  om_Annotations :: gomap

record LoadBalancerConfig =
  lbc_Meta :: ObjectMeta
  lbc_Spec :: LoadBalancerConfigSpec
  lbc_Status :: LoadBalancerConfigStatus

section \<open>Equal methods\<close>

definition PoolMember_Equal :: "PoolMember \<Rightarrow> PoolMember \<Rightarrow> bool" where
  "PoolMember_Equal a b \<longleftrightarrow>
     pm_IP a = pm_IP b \<and> pm_Port a = pm_Port b \<and> pm_MonitorPort a = pm_MonitorPort b \<and> pm_Name a = pm_Name b"

text \<open>
  The shape the order-independent comparisons share: equal length, and every element of the first
  slice has an equal one in the second.
\<close>

definition covers :: "('a \<Rightarrow> 'a \<Rightarrow> bool) \<Rightarrow> 'a list \<Rightarrow> 'a list \<Rightarrow> bool" where
  "covers eq a b \<longleftrightarrow> length a = length b \<and> list_all (\<lambda>x. list_ex (eq x) b) a"

definition CreatedPool_Equal :: "CreatedPool \<Rightarrow> CreatedPool \<Rightarrow> bool" where
  "CreatedPool_Equal a b \<longleftrightarrow>
     cp_Id a = cp_Id b \<and> cp_Name a = cp_Name b
     \<and> covers PoolMember_Equal (cp_CreatedMembers a) (cp_CreatedMembers b)"

definition ListenerAcl_IsEmpty :: "ListenerAcl option \<Rightarrow> bool" where
  "ListenerAcl_IsEmpty a \<longleftrightarrow>
     (case a of None \<Rightarrow> True
      | Some r \<Rightarrow> acl_AllowedCidrs r = None \<and> acl_BlockedCidrs r = None \<and> acl_DefaultAction r = None)"

text \<open>\<open>ptrStrEqual\<close> compares pointees, which on options is equality.\<close>

definition ListenerAcl_Equal :: "ListenerAcl option \<Rightarrow> ListenerAcl option \<Rightarrow> bool" where
  "ListenerAcl_Equal a b \<longleftrightarrow>
     (if ListenerAcl_IsEmpty a \<or> ListenerAcl_IsEmpty b then ListenerAcl_IsEmpty a = ListenerAcl_IsEmpty b
      else case (a, b) of
             (Some x, Some y) \<Rightarrow> acl_AllowedCidrs x = acl_AllowedCidrs y
               \<and> acl_BlockedCidrs x = acl_BlockedCidrs y \<and> acl_DefaultAction x = acl_DefaultAction y
           | _ \<Rightarrow> False)"

definition CreatedPolicy_Equal :: "CreatedPolicy \<Rightarrow> CreatedPolicy \<Rightarrow> bool" where
  "CreatedPolicy_Equal a b \<longleftrightarrow> cpol_Id a = cpol_Id b"

definition CreatedListener_Equal :: "CreatedListener \<Rightarrow> CreatedListener \<Rightarrow> bool" where
  "CreatedListener_Equal a b \<longleftrightarrow>
     cl_Id a = cl_Id b \<and> cl_Port a = cl_Port b \<and> cl_Adopted a = cl_Adopted b
     \<and> cl_OriginalDefaultPoolId a = cl_OriginalDefaultPoolId b
     \<and> ListenerAcl_Equal (cl_OriginalAcl a) (cl_OriginalAcl b)
     \<and> covers CreatedPolicy_Equal (cl_CreatedPolicies a) (cl_CreatedPolicies b)"

definition CreatedCertificate_Equal :: "CreatedCertificate \<Rightarrow> CreatedCertificate \<Rightarrow> bool" where
  "CreatedCertificate_Equal a b \<longleftrightarrow>
     ccert_Id a = ccert_Id b \<and> ccert_SecretName a = ccert_SecretName b
     \<and> ccert_ResourceVersion a = ccert_ResourceVersion b
     \<and> ccert_CertificateName a = ccert_CertificateName b"

section \<open>Configuration and constants\<close>

record LoadBalancerOpts =
  DefaultL4PackageName :: string
  DefaultL7PackageName :: string
  DefaultScheme :: string
  DefaultPoolAlgorithm :: string
  DefaultHealthyThreshold :: int
  DefaultUnhealthyThreshold :: int
  DefaultInterval :: int
  DefaultTimeout :: int
  DefaultTimeoutClient :: int
  DefaultTimeoutMember :: int
  DefaultTimeoutConnection :: int
  DefaultAllowedCidrs :: string

record Config =
  cfg_LoadBalancerOpts :: LoadBalancerOpts
  cfg_UserID :: int

definition DEFAULT_LB_PREFIX_NAME :: string where "DEFAULT_LB_PREFIX_NAME = ''vks''"
definition DEFAULT_PORTAL_NAME_LENGTH :: nat where "DEFAULT_PORTAL_NAME_LENGTH = 50"
definition DEFAULT_HASH_NAME_LENGTH :: nat where "DEFAULT_HASH_NAME_LENGTH = 5"
definition DEFAULT_NAME_DEFAULT_POOL :: string where "DEFAULT_NAME_DEFAULT_POOL = ''vks_default_pool''"
definition VKS_CLUSTER_ID_PREFIX :: string where "VKS_CLUSTER_ID_PREFIX = ''k8s-''"
definition VKS_CLUSTER_ID_LENGTH :: nat where "VKS_CLUSTER_ID_LENGTH = 40"
definition VpcTagKey :: string where "VpcTagKey = ''vng.vpc.id''"
definition BillingTagKey :: string where "BillingTagKey = ''vng.billing.product''"
definition BillingTagValue :: string where "BillingTagValue = ''vks''"
definition ClusterTagKey :: string where "ClusterTagKey = ''vng.vks.cluster.ids''"
definition CreatedByClusterTagKey :: string where "CreatedByClusterTagKey = ''vng.vks.created-by-cluster''"
definition ClusterTagValueSeparator :: char where "ClusterTagValueSeparator = CHR ''/''"
definition LbcFinalizer :: string where "LbcFinalizer = ''lbc.vngcloud.vn/resources''"

record sdk_consts =
  LoadBalancerTypeLayer4 :: string
  LoadBalancerTypeLayer7 :: string
  InterVpcLoadBalancerScheme :: string
  ListenerProtocolHTTPS :: string
  PolicyActionREDIRECTTOPOOL :: string
  PolicyActionREDIRECTTOURL :: string
  HealthCheckProtocolHTTP :: string
  HealthCheckProtocolHTTPs :: string
  HealthCheckProtocolTCP :: string
  ImportOptsTypeOptTLS :: string
  SecretTypeTLS :: string
  TLSCertKey :: string
  TLSPrivateKeyKey :: string

section \<open>SDK entities\<close>

record entity_LoadBalancer =
  elb_UUID :: string
  elb_Name :: string
  elb_Address :: string
  elb_Type :: string
  elb_PrivateSubnetID :: string
  elb_BackendSubnetID :: string
  elb_ZoneID :: string
  elb_PackageID :: string
  elb_AutoScalable :: bool
  elb_DisplayStatus :: string
  elb_ProgressStatus :: string

record entity_Listener =
  el_UUID :: string
  el_Name :: string
  el_Protocol :: string
  el_ProtocolPort :: int
  el_DefaultPoolId :: string
  el_AllowedCidrs :: string
  el_BlockedCidrs :: string
  el_DefaultAction :: string
  el_TimeoutClient :: int
  el_TimeoutMember :: int
  el_TimeoutConnection :: int
  el_InsertHeaders :: "InsertHeader list option"
  el_DefaultCertificateAuthority :: "string option"
  el_CertificateAuthorities :: "string list"
  el_ClientCertificateAuthentication :: "string option"

record entity_HealthMonitor =
  ehm_HealthyThreshold :: int
  ehm_UnhealthyThreshold :: int
  ehm_Interval :: int
  ehm_Timeout :: int
  ehm_HealthCheckProtocol :: string
  ehm_HealthCheckPath :: "string option"
  ehm_DomainName :: "string option"
  ehm_SuccessCode :: "string option"
  ehm_HealthCheckMethod :: "string option"
  ehm_HttpVersion :: "string option"

record entity_Pool =
  ep_UUID :: string
  ep_Name :: string
  ep_LoadBalanceMethod :: string
  ep_Stickiness :: bool
  ep_TLSEncryption :: bool

record entity_Member =
  em_Name :: string
  em_Address :: string
  em_ProtocolPort :: int
  em_Backup :: bool
  em_Weight :: int
  em_MonitorPort :: int

record entity_Policy =
  epol_UUID :: string
  epol_Name :: string
  epol_Action :: string
  epol_KeepQueryString :: bool
  epol_RedirectPoolID :: string
  epol_RedirectURL :: string
  epol_RedirectHTTPCode :: int
  epol_L7Rules :: "L7Rule list"
  epol_Position :: int

record entity_Tag =
  tag_Key :: string
  tag_Value :: string
  tag_SystemTag :: bool

record entity_Certificate =
  ec_UUID :: string
  ec_Name :: string
  ec_InUse :: bool

record entity_Package =
  pkg_UUID :: string
  pkg_Name :: string

record Secret =
  sec_ResourceVersion :: string
  sec_Type :: string
  sec_Data :: gomap

section \<open>SDK requests\<close>

text \<open>
  A request built by a chain of \<open>With...\<close> calls is the record of the values set; a field no call
  sets is \<open>None\<close>.
\<close>

record MemberRequest =
  mr_Name :: string
  mr_IP :: string
  mr_Port :: int
  mr_MonitorPort :: int

record HealthMonitorRequest =
  rhm_HealthCheckProtocol :: string
  rhm_HealthyThreshold :: int
  rhm_UnhealthyThreshold :: int
  rhm_Interval :: int
  rhm_Timeout :: int
  rhm_HealthCheckMethod :: "string option"
  rhm_HealthCheckPath :: "string option"
  rhm_SuccessCode :: "string option"
  rhm_HttpVersion :: "string option"
  rhm_DomainName :: "string option"

record CreatePoolRequest =
  cpr_LoadBalancerId :: string
  cpr_Algorithm :: string
  cpr_PoolName :: string
  cpr_PoolProtocol :: string
  cpr_Stickiness :: "bool option"
  cpr_TLSEncryption :: "bool option"
  cpr_HealthMonitor :: HealthMonitorRequest
  cpr_Members :: "MemberRequest list"

record UpdatePoolRequest =
  upr_PoolId :: string
  upr_LoadBalancerId :: string
  upr_Algorithm :: string
  upr_Stickiness :: "bool option"
  upr_TLSEncryption :: "bool option"
  upr_HealthMonitor :: HealthMonitorRequest

record CreateListenerRequest =
  clr_Name :: string
  clr_Protocol :: string
  clr_ProtocolPort :: int
  clr_AllowedCidrs :: string
  clr_BlockedCidrs :: "string option"
  clr_DefaultAction :: "string option"
  clr_TimeoutClient :: int
  clr_TimeoutMember :: int
  clr_TimeoutConnection :: int
  clr_LoadBalancerId :: string
  clr_DefaultPoolId :: "string option"
  clr_InsertHeaders :: "string list option"
  clr_DefaultCertificateAuthority :: "string option"
  clr_CertificateAuthorities :: "string list option"
  clr_ClientCertificate :: "string option"

record UpdateListenerRequest =
  ulr_LoadBalancerId :: string
  ulr_ListenerId :: string
  ulr_AllowedCidrs :: string
  ulr_BlockedCidrs :: "string option"
  ulr_DefaultAction :: "string option"
  ulr_TimeoutClient :: int
  ulr_TimeoutMember :: int
  ulr_TimeoutConnection :: int
  ulr_DefaultPoolId :: string
  ulr_InsertHeaders :: "InsertHeader list option"
  ulr_DefaultCertificateAuthority :: "string option"
  ulr_CertificateAuthorities :: "string list option"
  ulr_ClientCertificate :: "string option"

record CreatePolicyRequest =
  cpo_LoadBalancerId :: string
  cpo_ListenerId :: string
  cpo_Action :: string
  cpo_Name :: string
  cpo_Rules :: "L7Rule list"
  cpo_RedirectPoolId :: "string option"
  cpo_RedirectURL :: "string option"
  cpo_RedirectHTTPCode :: "int option"
  cpo_KeepQueryString :: "bool option"

record UpdatePolicyRequest =
  upo_LoadBalancerId :: string
  upo_ListenerId :: string
  upo_PolicyId :: string
  upo_Action :: string
  upo_KeepQueryString :: bool
  upo_RedirectPoolID :: string
  upo_RedirectURL :: string
  upo_RedirectHTTPCode :: int
  upo_Rules :: "L7Rule list"

record CreateLoadBalancerRequest =
  clb_Name :: string
  clb_PackageId :: string
  clb_SubnetId :: string
  clb_ZoneId :: string
  clb_Scheme :: string
  clb_AutoScalable :: "bool option"
  clb_Type :: "string option"
  clb_Poc :: "bool option"
  clb_Listener :: "CreateListenerRequest option"
  clb_Pool :: "CreatePoolRequest option"
  clb_Tags :: "string list option"

record CreateInterLoadBalancerRequest =
  cil_UserId :: string
  cil_Name :: string
  cil_PackageId :: string
  cil_SubnetId :: string
  cil_PrivateSubnetId :: string
  cil_ZoneId :: string
  cil_Tags :: "string list option"

record CreateCertificateRequest =
  ccr_Name :: string
  ccr_Type :: string
  ccr_Certificate :: string
  ccr_PrivateKey :: "string option"

section \<open>The contract of an Equal method\<close>

text \<open>
  What the order-independent slice comparisons rely on: the element comparison is a preorder.
  Then the slice comparison is reflexive and transitive, insensitive to reordering, and a true
  answer means every recorded element is still there in an equal form. Where the element
  comparison is also symmetric, so is the slice comparison on slices without repeated elements.
\<close>

locale go_covered =
  fixes eq :: "'a \<Rightarrow> 'a \<Rightarrow> bool"
  assumes eq_refl: "eq x x"
    and eq_trans: "eq x y \<Longrightarrow> eq y z \<Longrightarrow> eq x z"
begin

lemma covers_refl: "covers eq xs xs"
  by (auto simp: covers_def list_all_iff list_ex_iff intro: eq_refl)

lemma covers_reorder: "set xs = set ys \<Longrightarrow> length xs = length ys \<Longrightarrow> covers eq xs ys"
  by (auto simp: covers_def list_all_iff list_ex_iff intro: eq_refl)

lemma covers_mem: "covers eq xs ys \<Longrightarrow> x \<in> set xs \<Longrightarrow> \<exists>y \<in> set ys. eq x y"
  by (auto simp: covers_def list_all_iff list_ex_iff)

lemma covers_trans: "covers eq xs ys \<Longrightarrow> covers eq ys zs \<Longrightarrow> covers eq xs zs"
  unfolding covers_def list_all_iff list_ex_iff by (metis eq_trans)

end

locale go_equal = go_covered +
  assumes eq_sym: "eq x y \<Longrightarrow> eq y x"
begin

lemma covers_sym:
  assumes cov: "covers eq xs ys" and inj: "\<And>x y. x \<in> set xs \<Longrightarrow> y \<in> set xs \<Longrightarrow> eq x y \<Longrightarrow> x = y"
    and dist: "distinct xs"
  shows "covers eq ys xs"
proof -
  define f where "f x = (SOME y. y \<in> set ys \<and> eq x y)" for x
  have f: "f x \<in> set ys \<and> eq x (f x)" if "x \<in> set xs" for x
    unfolding f_def using covers_mem[OF cov that] by (metis (mono_tags, lifting) someI_ex)
  have "inj_on f (set xs)"
    by (rule inj_onI) (metis f eq_sym eq_trans inj)
  then have "card (f ` set xs) = length ys"
    using dist cov by (simp add: card_image distinct_card covers_def)
  moreover have "f ` set xs \<subseteq> set ys" using f by blast
  moreover have "card (set ys) \<le> length ys" by (rule card_length)
  ultimately have "f ` set xs = set ys"
    by (metis List.finite_set card_seteq)
  then have "\<exists>x \<in> set xs. eq y x" if "y \<in> set ys" for y
    using that f eq_sym by (metis imageE)
  with cov show ?thesis by (auto simp: covers_def list_all_iff list_ex_iff)
qed

end

interpretation member_eq: go_equal PoolMember_Equal
  by unfold_locales (auto simp: PoolMember_Equal_def)

interpretation policy_eq: go_equal CreatedPolicy_Equal
  by unfold_locales (auto simp: CreatedPolicy_Equal_def)

interpretation cert_eq: go_equal CreatedCertificate_Equal
  by unfold_locales (auto simp: CreatedCertificate_Equal_def)

interpretation acl_eq: go_equal ListenerAcl_Equal
  by unfold_locales
    (auto simp: ListenerAcl_Equal_def ListenerAcl_IsEmpty_def split: option.splits if_splits)

interpretation pool_eq: go_covered CreatedPool_Equal
  by unfold_locales
    (auto simp: CreatedPool_Equal_def intro: member_eq.covers_refl member_eq.covers_trans)

interpretation listener_eq: go_covered CreatedListener_Equal
  by unfold_locales
    (auto simp: CreatedListener_Equal_def
      intro: policy_eq.covers_refl policy_eq.covers_trans acl_eq.eq_refl acl_eq.eq_trans)

end
