(* ===== verification/Names.thy ===== *)
theory Names
  imports LBC_Types "HOL-Library.Word"
begin

text \<open>
  The names the controller gives to cloud resources: \<^verbatim>\<open>pkg/utils/utils.go\<close> and
  \<^verbatim>\<open>pkg/utils/name_helper.go\<close>, with SHA-256 as \<open>crypto/sha256\<close> computes it.

  Names are made of Kubernetes names, ids, digits and hex digits, so the model is exact on ASCII
  text (\<open>unicode.IsLetter\<close> and \<open>unicode.IsDigit\<close> are the ASCII classes there).
\<close>

unbundle bit_operations_syntax

section \<open>SHA-256\<close>

definition rotr :: "nat \<Rightarrow> 32 word \<Rightarrow> 32 word" where
  "rotr n x = (drop_bit n x OR push_bit (32 - n) x)"

definition sha_ch :: "32 word \<Rightarrow> 32 word \<Rightarrow> 32 word \<Rightarrow> 32 word" where
  "sha_ch x y z = ((x AND y) XOR (NOT x AND z))"

definition sha_maj :: "32 word \<Rightarrow> 32 word \<Rightarrow> 32 word \<Rightarrow> 32 word" where
  "sha_maj x y z = ((x AND y) XOR (x AND z) XOR (y AND z))"

definition sha_S0 :: "32 word \<Rightarrow> 32 word" where "sha_S0 x = (rotr 2 x XOR rotr 13 x XOR rotr 22 x)"
definition sha_S1 :: "32 word \<Rightarrow> 32 word" where "sha_S1 x = (rotr 6 x XOR rotr 11 x XOR rotr 25 x)"
definition sha_s0 :: "32 word \<Rightarrow> 32 word" where "sha_s0 x = (rotr 7 x XOR rotr 18 x XOR drop_bit 3 x)"
definition sha_s1 :: "32 word \<Rightarrow> 32 word" where "sha_s1 x = (rotr 17 x XOR rotr 19 x XOR drop_bit 10 x)"

text \<open>
  The round constants and the initial state are the first 32 fractional bits of the cube roots of
  the first 64 primes and of the square roots of the first 8. \<open>rootBits\<close> finds the largest integer
  below \<open>2 ^ k\<close> whose power does not exceed \<open>n\<close>, bit by bit.
\<close>

primrec rootBits :: "nat \<Rightarrow> nat \<Rightarrow> int \<Rightarrow> int \<Rightarrow> int" where
  "rootBits 0 e n r = r"
| "rootBits (Suc k) e n r = rootBits k e n (if (r + 2 ^ k) ^ e \<le> n then r + 2 ^ k else r)"

definition sha_primes :: "int list" where
  "sha_primes = filter (\<lambda>p. list_all (\<lambda>d. p mod d \<noteq> 0 \<or> p \<le> d) [2..17]) [2..311]"

definition rootFraction :: "nat \<Rightarrow> int \<Rightarrow> 32 word" where
  "rootFraction e p = word_of_int (rootBits 35 e (p * 2 ^ (32 * e)) 0)"

definition sha_K :: "32 word list" where
  "sha_K = map (rootFraction 3) sha_primes"

record sha_state =
  sha_a :: "32 word"
  sha_b :: "32 word"
  sha_c :: "32 word"
  sha_d :: "32 word"
  sha_e :: "32 word"
  sha_f :: "32 word"
  sha_g :: "32 word"
  sha_h :: "32 word"

definition sha_init :: sha_state where
  "sha_init =
     \<lparr>sha_a = rootFraction 2 2, sha_b = rootFraction 2 3, sha_c = rootFraction 2 5, sha_d = rootFraction 2 7,
      sha_e = rootFraction 2 11, sha_f = rootFraction 2 13, sha_g = rootFraction 2 17, sha_h = rootFraction 2 19\<rparr>"

text \<open>Published values of the standard, as a check of the computation.\<close>

lemma sha_constants:
  "length sha_primes = 64" "rootFraction 2 2 = 0x6a09e667" "rootFraction 2 19 = 0x5be0cd19"
  "rootFraction 3 2 = 0x428a2f98" "rootFraction 3 311 = 0xc67178f2"
  by code_simp+

text \<open>The message schedule, newest word first.\<close>

primrec sha_extend :: "nat \<Rightarrow> 32 word list \<Rightarrow> 32 word list" where
  "sha_extend 0 ws = ws"
| "sha_extend (Suc n) ws = sha_extend n ((sha_s1 (ws ! 1) + ws ! 6 + sha_s0 (ws ! 14) + ws ! 15) # ws)"

definition sha_round :: "32 word \<times> 32 word \<Rightarrow> sha_state \<Rightarrow> sha_state" where
  "sha_round kw s =
     (let t1 = sha_h s + sha_S1 (sha_e s) + sha_ch (sha_e s) (sha_f s) (sha_g s) + fst kw + snd kw;
          t2 = sha_S0 (sha_a s) + sha_maj (sha_a s) (sha_b s) (sha_c s)
      in \<lparr>sha_a = t1 + t2, sha_b = sha_a s, sha_c = sha_b s, sha_d = sha_c s,
          sha_e = sha_d s + t1, sha_f = sha_e s, sha_g = sha_f s, sha_h = sha_g s\<rparr>)"

definition sha_add :: "sha_state \<Rightarrow> sha_state \<Rightarrow> sha_state" where
  "sha_add x y =
     \<lparr>sha_a = sha_a x + sha_a y, sha_b = sha_b x + sha_b y, sha_c = sha_c x + sha_c y, sha_d = sha_d x + sha_d y,
      sha_e = sha_e x + sha_e y, sha_f = sha_f x + sha_f y, sha_g = sha_g x + sha_g y, sha_h = sha_h x + sha_h y\<rparr>"

text \<open>Big-endian words of four bytes; the rest of a list that is not a multiple of four is dropped.\<close>

fun sha_words :: "int list \<Rightarrow> 32 word list" where
  "sha_words (a # b # c # d # xs) = word_of_int (((a * 256 + b) * 256 + c) * 256 + d) # sha_words xs"
| "sha_words _ = []"

definition sha_block :: "int list \<Rightarrow> sha_state \<Rightarrow> sha_state" where
  "sha_block bytes s = sha_add s (fold sha_round (zip sha_K (rev (sha_extend 48 (rev (sha_words bytes))))) s)"

text \<open>The padding: a one bit, zeros up to 56 modulo 64, and the length in bits as eight bytes.\<close>

definition sha_pad :: "int list \<Rightarrow> int list" where
  "sha_pad m =
     m @ [128] @ replicate ((119 - length m mod 64) mod 64) 0
       @ map (\<lambda>i. (8 * int (length m)) div 256 ^ i mod 256) [7, 6, 5, 4, 3, 2, 1, 0]"

fun sha_blocks :: "nat \<Rightarrow> int list \<Rightarrow> sha_state \<Rightarrow> sha_state" where
  "sha_blocks 0 bytes s = s"
| "sha_blocks (Suc n) bytes s = sha_blocks n (drop 64 bytes) (sha_block (take 64 bytes) s)"

definition hexDigit :: "int \<Rightarrow> char" where
  "hexDigit n = (if n < 10 then char_of (48 + n) else char_of (87 + n))"

text \<open>The \<open>%x\<close> of a word's four bytes.\<close>

definition hexWord :: "32 word \<Rightarrow> string" where
  "hexWord w = map (\<lambda>i. hexDigit (uint w div 16 ^ i mod 16)) [7, 6, 5, 4, 3, 2, 1, 0]"

text \<open>\<open>sha256.Sum256\<close> with \<open>%x\<close>.\<close>

definition HashString :: "string \<Rightarrow> string" where
  "HashString str =
     (let bytes = sha_pad (map of_char str);
          s = sha_blocks (length bytes div 64) bytes sha_init
      in concat (map hexWord [sha_a s, sha_b s, sha_c s, sha_d s, sha_e s, sha_f s, sha_g s, sha_h s]))"

section \<open>Utilities\<close>

definition MinInt :: "int \<Rightarrow> int \<Rightarrow> int" where
  "MinInt a b = (if a < b then a else b)"

definition TrimString :: "string \<Rightarrow> int \<Rightarrow> string" where
  "TrimString str n = take (nat (MinInt (int (length str)) n)) str"

text \<open>\<open>strings.ReplaceAll\<close> of one character by another.\<close>

definition ReplaceAll :: "string \<Rightarrow> char \<Rightarrow> char \<Rightarrow> string" where
  "ReplaceAll s old new = map (\<lambda>c. if c = old then new else c) s"

definition IsLetter :: "char \<Rightarrow> bool" where
  "IsLetter c \<longleftrightarrow> (let n = (of_char c :: nat) in 65 \<le> n \<and> n \<le> 90 \<or> 97 \<le> n \<and> n \<le> 122)"

definition IsDigit :: "char \<Rightarrow> bool" where
  "IsDigit c \<longleftrightarrow> (let n = (of_char c :: nat) in 48 \<le> n \<and> n \<le> 57)"

definition nameChar :: "char \<Rightarrow> bool" where
  "nameChar c \<longleftrightarrow> \<not> (\<not> IsLetter c \<and> \<not> IsDigit c \<and> c \<noteq> CHR ''-'' \<and> c \<noteq> CHR ''.'')"

text \<open>The loop runs over the name as it was given and rewrites the variable.\<close>

definition ValidateName :: "string \<Rightarrow> string" where
  "ValidateName newName =
     TrimString (fold (\<lambda>ch name. if \<not> nameChar ch then ReplaceAll name ch (CHR ''-'') else name) newName newName)
       (int DEFAULT_PORTAL_NAME_LENGTH)"

section \<open>NameHelper\<close>

record nameHelper =
  nh_clusterID :: string
  nh_resourceType :: string
  nh_resourceName :: string
  nh_resourceNamespace :: string

definition NewNameHelper :: "string \<Rightarrow> string \<Rightarrow> string \<Rightarrow> string \<Rightarrow> nameHelper" where
  "NewNameHelper clusterID resourceType resourceNamespace resourceName =
     \<lparr>nh_clusterID = clusterID, nh_resourceType = resourceType, nh_resourceName = resourceName,
      nh_resourceNamespace = resourceNamespace\<rparr>"

text \<open>The fields of a \<open>corev1.ServicePort\<close> the controller reads.\<close>

record ServicePort =
  svcp_Name :: string
  svcp_Protocol :: string
  svcp_Port :: int
  svcp_NodePort :: int

definition GenerateHash :: "nameHelper \<Rightarrow> string" where
  "GenerateHash l =
     TrimString (HashString (nh_clusterID l @ ''_'' @ nh_resourceNamespace l @ ''_'' @ nh_resourceName l @ ''_'' @ nh_resourceType l))
       (int DEFAULT_HASH_NAME_LENGTH)"

definition GetLoadBalancerDefaultName :: "nameHelper \<Rightarrow> string" where
  "GetLoadBalancerDefaultName l =
     ValidateName (DEFAULT_LB_PREFIX_NAME @ ''_'' @ TrimString (nh_clusterID l) 10 @ ''_''
       @ TrimString (nh_resourceNamespace l) 10 @ ''_'' @ TrimString (nh_resourceName l) 10 @ ''_'' @ GenerateHash l)"

definition GenL4PoolName :: "nameHelper \<Rightarrow> ServicePort \<Rightarrow> string \<Rightarrow> string" where
  "GenL4PoolName t pPort realProtocol =
     ValidateName (DEFAULT_LB_PREFIX_NAME @ ''_'' @ TrimString (nh_clusterID t) 10 @ ''_''
       @ TrimString (nh_resourceNamespace t) 9 @ ''_'' @ TrimString (nh_resourceName t) 9 @ ''_'' @ GenerateHash t
       @ ''_'' @ TrimString realProtocol 3 @ ''_'' @ Itoa (svcp_Port pPort))"

definition GenL4ListenerName :: "nameHelper \<Rightarrow> ServicePort \<Rightarrow> string" where
  "GenL4ListenerName t pPort =
     ValidateName (DEFAULT_LB_PREFIX_NAME @ ''_'' @ TrimString (nh_clusterID t) 10 @ ''_''
       @ TrimString (nh_resourceNamespace t) 9 @ ''_'' @ TrimString (nh_resourceName t) 9 @ ''_'' @ GenerateHash t
       @ ''_'' @ TrimString (svcp_Protocol pPort) 3 @ ''_'' @ Itoa (svcp_Port pPort))"

definition GenL7PoolName :: "nameHelper \<Rightarrow> string \<Rightarrow> int \<Rightarrow> string" where
  "GenL7PoolName t serviceName port =
     ValidateName (DEFAULT_LB_PREFIX_NAME @ ''_'' @ GenerateHash t @ ''_''
       @ TrimString (nh_resourceNamespace t @ ''-'' @ serviceName) 35 @ ''_'' @ Itoa port)"

definition GenL7PolicyName :: "nameHelper \<Rightarrow> bool \<Rightarrow> int \<Rightarrow> int \<Rightarrow> string" where
  "GenL7PolicyName t mode ruleIndex pathIndex =
     ValidateName (DEFAULT_LB_PREFIX_NAME @ ''_'' @ GenerateHash t @ ''_'' @ (if mode then ''true'' else ''false'')
       @ ''_r'' @ Itoa ruleIndex @ ''_p'' @ Itoa pathIndex)"

section \<open>Facts\<close>

lemma length_TrimString: "0 \<le> n \<Longrightarrow> int (length (TrimString s n)) = min (int (length s)) n"
  by (auto simp: TrimString_def MinInt_def min_def)

lemma length_hexWord: "length (hexWord w) = 8"
  by (simp add: hexWord_def)

lemma length_HashString [simp]: "length (HashString s) = 64"
  by (simp add: HashString_def Let_def length_hexWord)

lemma length_GenerateHash [simp]: "length (GenerateHash l) = 5"
  using length_TrimString[of 5 "HashString (nh_clusterID l @ ''_'' @ nh_resourceNamespace l @ ''_'' @ nh_resourceName l @ ''_'' @ nh_resourceType l)"]
  by (simp add: GenerateHash_def DEFAULT_HASH_NAME_LENGTH_def)

text \<open>The loop of \<open>ValidateName\<close> replaces every character outside the class once.\<close>

definition cleanChar :: "char \<Rightarrow> char" where
  "cleanChar c = (if nameChar c then c else CHR ''-'')"

lemma nameChar_dash [simp]: "nameChar (CHR ''-'')"
  by (simp add: nameChar_def)

lemma validate_loop:
  "fold (\<lambda>ch name. if \<not> nameChar ch then ReplaceAll name ch (CHR ''-'') else name) cs s
   = map (\<lambda>c. if c \<in> set cs then cleanChar c else c) s"
proof (induction cs arbitrary: s)
  case (Cons c cs)
  then show ?case by (auto simp: ReplaceAll_def cleanChar_def)
qed simp

lemma ValidateName_eq: "ValidateName s = take 50 (map cleanChar s)"
  by (simp add: ValidateName_def validate_loop TrimString_def MinInt_def DEFAULT_PORTAL_NAME_LENGTH_def take_map cong: map_cong)

lemma ValidateName_class: "length (ValidateName s) \<le> 50 \<and> list_all nameChar (ValidateName s)"
  by (auto simp: ValidateName_eq list_all_iff cleanChar_def dest!: in_set_takeD)

text \<open>Decimal digits.\<close>

lemma digit_char [simp]:
  assumes "n < 10"
  shows "cleanChar (char_of (48 + n)) = char_of (48 + n)" and "char_of (48 + n) \<noteq> CHR ''-''"
    and "(of_char (char_of (48 + n) :: char) :: nat) = 48 + n"
proof -
  show 3: "(of_char (char_of (48 + n) :: char) :: nat) = 48 + n"
    using assms by (simp add: of_char_of)
  then show "cleanChar (char_of (48 + n)) = char_of (48 + n)"
    using assms by (simp add: cleanChar_def nameChar_def IsDigit_def Let_def)
  show "char_of (48 + n) \<noteq> CHR ''-''"
    using assms by (auto dest!: arg_cong[of _ _ "of_char :: char \<Rightarrow> nat"] simp: of_char_of)
qed

lemma digits_of_class: "map cleanChar (digits_of n) = digits_of n \<and> CHR ''-'' \<notin> set (digits_of n)"
proof (induction n rule: digits_of.induct)
  case (1 n)
  have "n mod 10 < 10" by simp
  from digit_char[OF this] 1 show ?case
    by (subst (1 2 3) digits_of.simps) (auto dest: sym)
qed

lemma length_digits_of: "n < 10 ^ Suc k \<Longrightarrow> length (digits_of n) \<le> Suc k"
proof (induction k arbitrary: n)
  case 0
  then show ?case by (subst digits_of.simps) simp
next
  case (Suc k)
  then have "n div 10 < 10 ^ Suc k" by (simp add: less_mult_imp_div_less)
  from Suc.IH[OF this] show ?case by (subst digits_of.simps) simp
qed

definition digitsVal :: "string \<Rightarrow> nat" where
  "digitsVal s = foldl (\<lambda>acc c. acc * 10 + (of_char c - 48)) 0 s"

lemma digitsVal_of: "digitsVal (digits_of n) = n"
proof (induction n rule: digits_of.induct)
  case (1 n)
  then show ?case
    by (subst digits_of.simps) (auto simp: digitsVal_def digit_char(3))
qed

lemma Itoa_port:
  assumes "0 \<le> p" and "p \<le> 65535"
  shows "map cleanChar (Itoa p) = Itoa p" "CHR ''-'' \<notin> set (Itoa p)" "length (Itoa p) \<le> 5"
    "digitsVal (Itoa p) = nat p"
proof -
  from assms have "nat p < 10 ^ Suc 4" by simp
  from length_digits_of[OF this] show "length (Itoa p) \<le> 5" using assms by (simp add: Itoa_def)
qed (use assms digits_of_class in \<open>auto simp: Itoa_def digitsVal_of\<close>)

text \<open>The text after the last separator.\<close>

lemma last_field_eq:
  assumes "x @ c # d = y @ c # d'" and "c \<notin> set d" and "c \<notin> set d'"
  shows "x = y \<and> d = d'"
  using assms by (auto simp: append_eq_append_conv2 Cons_eq_append_conv append_eq_Cons_conv)

section \<open>What the names guarantee\<close>

text \<open>
  Every generated name is acceptable to the portal: at most 50 characters, all of them letters,
  digits, dashes or dots.
\<close>

theorem names_acceptable:
  "list_all (\<lambda>n. length n \<le> 50 \<and> list_all nameChar n)
     [GetLoadBalancerDefaultName l, GenL4PoolName l p proto, GenL4ListenerName l p,
      GenL7PoolName l svc port, GenL7PolicyName l mode ri pi]"
  using ValidateName_class
  by (auto simp: GetLoadBalancerDefaultName_def GenL4PoolName_def GenL4ListenerName_def GenL7PoolName_def GenL7PolicyName_def)

lemma length_Trim_le: "length (TrimString s (int n)) \<le> n"
  by (simp add: TrimString_def MinInt_def)

lemma Trim_class: "list_all nameChar s \<Longrightarrow> map cleanChar (TrimString s n) = TrimString s n"
  by (auto simp: TrimString_def list_all_iff cleanChar_def take_map[symmetric] map_idI dest: in_set_takeD)

lemma cleanChar_sep [simp]: "cleanChar (CHR ''_'') = CHR ''-''"
  by (simp add: cleanChar_def nameChar_def IsLetter_def IsDigit_def)

text \<open>The layer-4 names have room for the protocol and the port.\<close>

lemma l4_name_eq:
  assumes "0 \<le> port" and "port \<le> 65535"
  shows "ValidateName (DEFAULT_LB_PREFIX_NAME @ ''_'' @ TrimString c 10 @ ''_''
       @ TrimString ns 9 @ ''_'' @ TrimString n 9 @ ''_'' @ GenerateHash t @ ''_'' @ TrimString proto 3 @ ''_'' @ Itoa port)
     = (map cleanChar (DEFAULT_LB_PREFIX_NAME @ ''_'' @ TrimString c 10 @ ''_''
       @ TrimString ns 9 @ ''_'' @ TrimString n 9 @ ''_'' @ GenerateHash t @ ''_'')
       @ map cleanChar (TrimString proto 3)) @ CHR ''-'' # Itoa port"
proof -
  have "length (TrimString c 10) \<le> 10" "length (TrimString ns 9) \<le> 9" "length (TrimString n 9) \<le> 9"
    "length (TrimString proto 3) \<le> 3"
    using length_Trim_le[of c 10] length_Trim_le[of ns 9] length_Trim_le[of n 9] length_Trim_le[of proto 3] by simp_all
  with Itoa_port(3)[OF assms] show ?thesis
    unfolding ValidateName_eq by (subst take_all) (simp_all add: DEFAULT_LB_PREFIX_NAME_def Itoa_port(1)[OF assms])
qed

text \<open>
  The listeners, and the pools, of one Service never share a name: two ports whose layer-4 names
  agree have the same number and the same protocol (its first three letters, which tell TCP, UDP and
  SCTP apart). No truncation cuts the port off.
\<close>

theorem l4_names_distinct:
  assumes "0 \<le> svcp_Port p" and "svcp_Port p \<le> 65535" and "0 \<le> svcp_Port q" and "svcp_Port q \<le> 65535"
    and "list_all nameChar (svcp_Protocol p)" and "list_all nameChar (svcp_Protocol q)"
    and "list_all nameChar proto" and "list_all nameChar proto'"
  shows "(GenL4ListenerName l p = GenL4ListenerName l q \<longrightarrow>
       svcp_Port p = svcp_Port q \<and> TrimString (svcp_Protocol p) 3 = TrimString (svcp_Protocol q) 3)
    \<and> (GenL4PoolName l p proto = GenL4PoolName l q proto' \<longrightarrow>
       svcp_Port p = svcp_Port q \<and> TrimString proto 3 = TrimString proto' 3)"
proof -
  have port: "svcp_Port p = svcp_Port q" if "Itoa (svcp_Port p) = Itoa (svcp_Port q)"
    using arg_cong[OF that, of digitsVal] assms(1-4) by (simp add: Itoa_port(4))
  note sep = last_field_eq[OF _ Itoa_port(2)[OF assms(1,2)] Itoa_port(2)[OF assms(3,4)]]
  show ?thesis
    unfolding GenL4ListenerName_def GenL4PoolName_def l4_name_eq[OF assms(1,2)] l4_name_eq[OF assms(3,4)]
    by (auto dest!: sep intro: port simp: Trim_class assms(5-8))
qed

theorem l4_names_distinct_witness:
  "GenL4ListenerName (NewNameHelper ''k8s-1'' ''service'' ''default'' ''web'') \<lparr>svcp_Name = [], svcp_Protocol = ''TCP'', svcp_Port = 80, svcp_NodePort = 0\<rparr>
   \<noteq> GenL4ListenerName (NewNameHelper ''k8s-1'' ''service'' ''default'' ''web'') \<lparr>svcp_Name = [], svcp_Protocol = ''UDP'', svcp_Port = 80, svcp_NodePort = 0\<rparr>"
  using l4_names_distinct[of "\<lparr>svcp_Name = [], svcp_Protocol = ''TCP'', svcp_Port = 80, svcp_NodePort = 0\<rparr>" "\<lparr>svcp_Name = [], svcp_Protocol = ''UDP'', svcp_Port = 80, svcp_NodePort = 0\<rparr>" "[]" "[]"
      "NewNameHelper ''k8s-1'' ''service'' ''default'' ''web''"]
  by (auto simp: nameChar_def IsLetter_def IsDigit_def TrimString_def MinInt_def)

text \<open>
  The layer-7 pool name has no such room: with a namespace and service name of 35 characters or more
  the last digit of a five-digit port is cut off, so two ports of one service get the same pool name.
\<close>

theorem GenL7PoolName_collides:
  assumes "35 \<le> length (nh_resourceNamespace t @ ''-'' @ svc)"
  shows "GenL7PoolName t svc 30001 = GenL7PoolName t svc 30002"
proof -
  have "length (TrimString (nh_resourceNamespace t @ ''-'' @ svc) 35) = 35"
    using length_TrimString[of 35 "nh_resourceNamespace t @ ''-'' @ svc"] assms by simp
  moreover have "Itoa 30001 = ''30001''" "Itoa 30002 = ''30002''"
    by (simp_all add: Itoa_def digits_of.simps char_of_def bit_0)
  ultimately show ?thesis
    by (simp add: GenL7PoolName_def ValidateName_eq DEFAULT_LB_PREFIX_NAME_def)
qed

end
