(* ===== verification/Runs.thy ===== *)
theory Runs
  imports Go_Errors
begin

text \<open>
  Go methods as functions. A method returning \<open>(T, error)\<close> that reads and changes a state is a
  \<open>('s, T) run\<close>. The sequencing operators are the patterns the source is written in. A property of a run
  is a relation between the state before and the state after; \<open>safe R m s\<close> says the run of \<open>m\<close> from
  \<open>s\<close> is in the relation. The locale \<open>step_rel\<close> asks of the relation what makes it survive sequencing -
  reflexivity and transitivity - and gives one rule per construct (sequencing, error handling, loops,
  branches). \<open>addsR\<close> is the relation of the development: every entry a run adds to a log satisfies a
  predicate at the point where it is made.
\<close>

type_synonym 'a result = "go_error + 'a"

type_synonym ('s, 'a) run = "'s \<Rightarrow> 'a result \<times> 's"

section \<open>Sequencing\<close>

definition returnM :: "'a \<Rightarrow> ('s, 'a) run" where
  "returnM x = (\<lambda>s. (Inr x, s))"

definition failM :: "go_error \<Rightarrow> ('s, 'a) run" where
  "failM e = (\<lambda>s. (Inl e, s))"

text \<open>\<open>x, err := m(); if err != nil { return err }; k(x)\<close>\<close>

definition andThen :: "('s, 'a) run \<Rightarrow> ('a \<Rightarrow> ('s, 'b) run) \<Rightarrow> ('s, 'b) run" where
  "andThen m k = (\<lambda>s. case m s of (Inl e, s') \<Rightarrow> (Inl e, s') | (Inr x, s') \<Rightarrow> k x s')"

text \<open>\<open>x, err := m()\<close> with the error looked at instead of returned.\<close>

definition attempt :: "('s, 'a) run \<Rightarrow> ('s, 'a result) run" where
  "attempt m = (\<lambda>s. case m s of (r, s') \<Rightarrow> (Inr r, s'))"

text \<open>\<open>return fmt.Errorf("...: %w", err)\<close> on the error path.\<close>

definition wrapErr :: "(go_error \<Rightarrow> go_error) \<Rightarrow> ('s, 'a) run \<Rightarrow> ('s, 'a) run" where
  "wrapErr f m = (\<lambda>s. case m s of (Inl e, s') \<Rightarrow> (Inl (f e), s') | (Inr x, s') \<Rightarrow> (Inr x, s'))"

definition getS :: "('s \<Rightarrow> 'a) \<Rightarrow> ('s, 'a) run" where
  "getS f = (\<lambda>s. (Inr (f s), s))"

text \<open>\<open>for _, x := range xs { y, err := f(x); if err != nil { return err }; out = append(out, y) }\<close>\<close>

primrec mapM :: "('a \<Rightarrow> ('s, 'b) run) \<Rightarrow> 'a list \<Rightarrow> ('s, 'b list) run" where
  "mapM f [] = returnM []"
| "mapM f (x # xs) = andThen (f x) (\<lambda>y. andThen (mapM f xs) (\<lambda>ys. returnM (y # ys)))"

text \<open>\<open>for _, x := range xs { st, err = f(x, st); if err != nil { return err } }\<close>\<close>

primrec foldM :: "('a \<Rightarrow> 'b \<Rightarrow> ('s, 'b) run) \<Rightarrow> 'a list \<Rightarrow> 'b \<Rightarrow> ('s, 'b) run" where
  "foldM f [] st = returnM st"
| "foldM f (x # xs) st = andThen (f x st) (foldM f xs)"

text \<open>
  \<open>for _, x := range xs { if err := f(x); err != nil { failures = append(failures, err); continue } }\<close>:
  every element is visited, the failures are collected.
\<close>

primrec collectFailures :: "('a \<Rightarrow> ('s, 'b) run) \<Rightarrow> 'a list \<Rightarrow> ('s, 'b list \<times> go_error list) run" where
  "collectFailures f [] = returnM ([], [])"
| "collectFailures f (x # xs) =
     andThen (attempt (f x)) (\<lambda>r. andThen (collectFailures f xs) (\<lambda>(ys, es).
       returnM (case r of Inl e \<Rightarrow> (ys, e # es) | Inr y \<Rightarrow> (y # ys, es))))"

text \<open>client-go's \<open>retry.RetryOnConflict\<close>, with its number of retries.\<close>

primrec RetryOnConflict :: "(go_error \<Rightarrow> bool) \<Rightarrow> nat \<Rightarrow> ('s, 'a) run \<Rightarrow> ('s, 'a) run" where
  "RetryOnConflict c 0 m = m"
| "RetryOnConflict c (Suc n) m =
     andThen (attempt m) (\<lambda>r. case r of
       Inr x \<Rightarrow> returnM x
     | Inl e \<Rightarrow> if c e then RetryOnConflict c n m else failM e)"

named_theorems safe_intro \<open>one rule per construct\<close>

definition safe :: "('s \<Rightarrow> 's \<Rightarrow> bool) \<Rightarrow> ('s, 'a) run \<Rightarrow> 's \<Rightarrow> bool" where
  "safe R m s \<longleftrightarrow> R s (snd (m s))"

section \<open>Results of the sequencing operators\<close>

lemma returnM_eq [simp]: "returnM x s = (Inr x, s)"
  by (simp add: returnM_def)

lemma failM_eq [simp]: "failM e s = (Inl e, s)"
  by (simp add: failM_def)

lemma getS_eq [simp]: "getS f s = (Inr (f s), s)"
  by (simp add: getS_def)

lemma attempt_eq: "attempt m s = (Inr (fst (m s)), snd (m s))"
  by (simp add: attempt_def split: prod.splits)

lemma attempt_iff [simp]: "attempt m s = (r, s') \<longleftrightarrow> (\<exists>x. r = Inr x \<and> m s = (x, s'))"
  by (auto simp: attempt_def split: prod.splits)

lemma andThen_Inr_iff:
  "andThen m k s = (Inr y, s') \<longleftrightarrow> (\<exists>x s1. m s = (Inr x, s1) \<and> k x s1 = (Inr y, s'))"
  by (auto simp: andThen_def split: prod.splits sum.splits)

lemma andThen_Inl_iff:
  "andThen m k s = (Inl e, s') \<longleftrightarrow>
     m s = (Inl e, s') \<or> (\<exists>x s1. m s = (Inr x, s1) \<and> k x s1 = (Inl e, s'))"
  by (auto simp: andThen_def split: prod.splits sum.splits)

lemma wrapErr_Inr_iff [simp]: "wrapErr f m s = (Inr x, s') \<longleftrightarrow> m s = (Inr x, s')"
  by (auto simp: wrapErr_def split: prod.splits sum.splits)

lemma snd_wrapErr [simp]: "snd (wrapErr f m s) = snd (m s)"
  by (auto simp: wrapErr_def split: prod.splits sum.splits)

lemma andThen_simps:
  "m s = (Inr x, s1) \<Longrightarrow> andThen m k s = k x s1"
  "m s = (Inl e, s1) \<Longrightarrow> andThen m k s = (Inl e, s1)"
  by (simp_all add: andThen_def)

section \<open>The contract\<close>

locale step_rel =
  fixes R :: "'s \<Rightarrow> 's \<Rightarrow> bool"
  assumes R_refl: "R s s"
    and R_trans: "R s s' \<Longrightarrow> R s' s'' \<Longrightarrow> R s s''"
begin

lemma safe_returnM [safe_intro]: "safe R (returnM x) s"
  by (simp add: safe_def R_refl)

lemma safe_failM [safe_intro]: "safe R (failM e) s"
  by (simp add: safe_def R_refl)

lemma safe_getS [safe_intro]: "safe R (getS f) s"
  by (simp add: safe_def R_refl)

lemma safe_andThen [safe_intro]:
  assumes "safe R m s" and "\<And>x s'. m s = (Inr x, s') \<Longrightarrow> R s s' \<Longrightarrow> safe R (k x) s'"
  shows "safe R (andThen m k) s"
proof (cases "m s")
  case (Pair r s')
  with assms show ?thesis
    by (cases r) (auto simp: safe_def andThen_def intro: R_trans)
qed

lemma safe_attempt [safe_intro]: "safe R m s \<Longrightarrow> safe R (attempt m) s"
  by (simp add: safe_def attempt_eq)

lemma safe_wrapErr [safe_intro]: "safe R m s \<Longrightarrow> safe R (wrapErr f m) s"
  by (simp add: safe_def)

lemma safe_if [safe_intro]:
  "(b \<Longrightarrow> safe R m s) \<Longrightarrow> (\<not> b \<Longrightarrow> safe R m' s) \<Longrightarrow> safe R (if b then m else m') s"
  by simp

lemma safe_case_option [safe_intro]:
  "(p = None \<Longrightarrow> safe R m s) \<Longrightarrow> (\<And>x. p = Some x \<Longrightarrow> safe R (f x) s) \<Longrightarrow> safe R (case p of None \<Rightarrow> m | Some x \<Rightarrow> f x) s"
  by (cases p) simp_all

lemma safe_case_list [safe_intro]:
  "(xs = [] \<Longrightarrow> safe R m s) \<Longrightarrow> (\<And>y ys. xs = y # ys \<Longrightarrow> safe R (f y ys) s)
   \<Longrightarrow> safe R (case xs of [] \<Rightarrow> m | y # ys \<Rightarrow> f y ys) s"
  by (cases xs) simp_all

lemma safe_case_sum [safe_intro]:
  "(\<And>e. r = Inl e \<Longrightarrow> safe R (f e) s) \<Longrightarrow> (\<And>x. r = Inr x \<Longrightarrow> safe R (g x) s)
   \<Longrightarrow> safe R (case r of Inl e \<Rightarrow> f e | Inr x \<Rightarrow> g x) s"
  by (cases r) simp_all

lemma safe_case_prod [safe_intro]:
  "(\<And>a b. p = (a, b) \<Longrightarrow> safe R (f a b) s) \<Longrightarrow> safe R (case p of (a, b) \<Rightarrow> f a b) s"
  by (cases p) simp_all

lemma safe_Let [safe_intro]: "(\<And>y. y = x \<Longrightarrow> safe R (f y) s) \<Longrightarrow> safe R (let y = x in f y) s"
  by simp

text \<open>Loops: it is enough that every element's step is safe from wherever the loop has got to.\<close>

lemma safe_mapM [safe_intro]:
  "(\<And>x s'. x \<in> set xs \<Longrightarrow> R s s' \<Longrightarrow> safe R (f x) s') \<Longrightarrow> safe R (mapM f xs) s"
proof (induction xs arbitrary: s)
  case (Cons x xs)
  have "safe R (mapM f xs) s1" if "R s s1" for s1
    using Cons.prems that by (intro Cons.IH) (auto intro: R_trans)
  with Cons.prems show ?case
    by (auto intro!: safe_andThen safe_returnM simp: R_refl)
qed (simp add: safe_returnM)

lemma safe_foldM [safe_intro]:
  "(\<And>x st' s'. x \<in> set xs \<Longrightarrow> R s s' \<Longrightarrow> safe R (f x st') s') \<Longrightarrow> safe R (foldM f xs st) s"
proof (induction xs arbitrary: s st)
  case (Cons x xs)
  have "safe R (foldM f xs st1) s1" if "R s s1" for s1 st1
    using Cons.prems that by (intro Cons.IH) (auto intro: R_trans)
  with Cons.prems show ?case
    by (auto intro!: safe_andThen simp: R_refl)
qed (simp add: safe_returnM)

lemma safe_collectFailures [safe_intro]:
  "(\<And>x s'. x \<in> set xs \<Longrightarrow> R s s' \<Longrightarrow> safe R (f x) s') \<Longrightarrow> safe R (collectFailures f xs) s"
proof (induction xs arbitrary: s)
  case (Cons x xs)
  have "safe R (collectFailures f xs) s1" if "R s s1" for s1
    using Cons.prems that by (intro Cons.IH) (auto intro: R_trans)
  with Cons.prems show ?case
    by (auto intro!: safe_andThen safe_returnM safe_attempt simp: R_refl)
qed (simp add: safe_returnM)

lemma safe_RetryOnConflict [safe_intro]:
  "(\<And>s'. R s s' \<Longrightarrow> safe R m s') \<Longrightarrow> safe R (RetryOnConflict c n m) s"
proof (induction n arbitrary: s)
  case (Suc n)
  then have "safe R (RetryOnConflict c n m) s1" if "R s s1" for s1
    using that by (blast intro: R_trans)
  with Suc.prems show ?case
    by (auto intro!: safe_andThen safe_returnM safe_attempt safe_case_sum safe_if safe_failM simp: R_refl)
qed (simp add: R_refl)

text \<open>A safe run that ends somewhere has its end state in the relation.\<close>

lemma safeD: "safe R m s \<Longrightarrow> m s = (r, s') \<Longrightarrow> R s s'"
  by (simp add: safe_def)

end

text \<open>A loop that collects its failures always gets to its end, and has visited every element.\<close>

lemma collectFailures_total:
  "\<exists>ys es. fst (collectFailures f xs s) = Inr (ys, es) \<and> length ys + length es = length xs"
proof (induction xs arbitrary: s)
  case (Cons x xs)
  obtain r s1 where 1: "f x s = (r, s1)" by (cases "f x s")
  obtain ys es s2 where "collectFailures f xs s1 = (Inr (ys, es), s2)" "length ys + length es = length xs"
    using Cons.IH[of s1] by (metis prod.collapse)
  with 1 show ?case by (cases r) (simp_all add: andThen_def attempt_def)
qed simp

section \<open>What is added to a log\<close>

definition addsR :: "('s \<Rightarrow> 'e list) \<Rightarrow> ('e list \<Rightarrow> 'e \<Rightarrow> bool) \<Rightarrow> 's \<Rightarrow> 's \<Rightarrow> bool" where
  "addsR log P s s' \<longleftrightarrow>
     (\<exists>es. log s' = log s @ es \<and> (\<forall>pre e post. es = pre @ e # post \<longrightarrow> P (log s @ pre) e))"

lemma addsR_trans: "addsR log P s s' \<Longrightarrow> addsR log P s' s'' \<Longrightarrow> addsR log P s s''"
proof -
  assume "addsR log P s s'" "addsR log P s' s''"
  then obtain es es' where h: "log s' = log s @ es" "log s'' = log s @ es @ es'"
    and P: "\<And>pre e post. es = pre @ e # post \<Longrightarrow> P (log s @ pre) e"
    and P': "\<And>pre e post. es' = pre @ e # post \<Longrightarrow> P (log s @ es @ pre) e"
    by (auto simp: addsR_def)
  have "P (log s @ pre) e" if eq: "es @ es' = pre @ e # post" for pre e post
  proof -
    from eq obtain us where "es = pre @ us \<and> us @ es' = e # post \<or> es @ us = pre \<and> es' = us @ e # post"
      by (auto simp: append_eq_append_conv2)
    then consider "es @ us = pre" "es' = us @ e # post"
      | "es = pre @ us" "us @ es' = e # post" "us \<noteq> []"
      by (cases "us = []") auto
    then show ?thesis
    proof cases
      case 1 then show ?thesis using P'[of us e post] by auto
    next
      case 2 then show ?thesis using P[of pre e "tl us"] by (cases us) auto
    qed
  qed
  with h show ?thesis by (auto simp: addsR_def)
qed

interpretation adds: step_rel "addsR log P" for log P
  by unfold_locales (simp add: addsR_def, erule (1) addsR_trans)

lemma addsR_mono: "addsR log P s s' \<Longrightarrow> (\<And>h e. P h e \<Longrightarrow> Q h e) \<Longrightarrow> addsR log Q s s'"
  by (auto simp: addsR_def)

lemma safe_adds_mono: "safe (addsR log P) m s \<Longrightarrow> (\<And>h e. P h e \<Longrightarrow> Q h e) \<Longrightarrow> safe (addsR log Q) m s"
  by (auto simp: safe_def intro: addsR_mono)

lemma safe_adds_from:
  assumes "safe (addsR log Q) m s" and "\<And>es e. Q (log s @ es) e \<Longrightarrow> P (log s @ es) e"
  shows "safe (addsR log P) m s"
  using assms unfolding safe_def addsR_def by blast

text \<open>Calls of a run are those after the first \<open>n\<close> of the log.\<close>

definition ofRun :: "nat \<Rightarrow> ('e list \<Rightarrow> 'e \<Rightarrow> bool) \<Rightarrow> 'e list \<Rightarrow> 'e \<Rightarrow> bool" where
  "ofRun n P h e \<longleftrightarrow> P (drop n h) e"

lemma addsR_keeps: "addsR log P s s' \<Longrightarrow> n \<le> length (log s) \<Longrightarrow> e \<in> set (drop n (log s)) \<Longrightarrow> e \<in> set (drop n (log s'))"
  by (auto simp: addsR_def)

lemma addsR_longer: "addsR log P s s' \<Longrightarrow> length (log s) \<le> length (log s')"
  by (auto simp: addsR_def)

section \<open>A log as the whole state\<close>

text \<open>A call to an environment that answers from the history of all calls so far.\<close>

definition askLog :: "('a result \<Rightarrow> 'e) \<Rightarrow> ('e list \<Rightarrow> 'a result) \<Rightarrow> ('e list, 'a) run" where
  "askLog ev f = (\<lambda>h. (f h, h @ [ev (f h)]))"

lemma askLog_eq [simp]: "askLog ev f h = (f h, h @ [ev (f h)])"
  by (simp add: askLog_def)

lemma safe_adds_askLog [safe_intro]: "P h (ev (f h)) \<Longrightarrow> safe (addsR id P) (askLog ev f) h"
  by (auto simp: safe_def addsR_def Cons_eq_append_conv)

end
