(* ===== verification/Cloud.thy ===== *)
theory Cloud
  imports LBC_Types Runs
begin

text \<open>
  The boundary of the controller: the repositories it calls
  (\<^verbatim>\<open>internal/repository/contracts.go\<close>), the trace of those calls, and the state a deploy
  task threads through them.

  The VNGCloud API and the Kubernetes API server are not part of the program: they are the
  function fields of \<open>VngCloudRepository\<close> and \<open>K8sRepository\<close>, parameters of every
  definition. Each answers from the whole history of calls so far, so an arbitrary environment -
  other clusters writing to the same load balancer, the portal, a failing API - is an instance, and
  what is proved holds for all of them. Every call is recorded in the history with its arguments and
  its answer; statements about what the controller does to the cloud are statements about that
  trace. \<open>'a M\<close> is a Go function returning \<open>('a, error)\<close> with access to that state.
\<close>

section \<open>Calls\<close>

datatype aclField = aclAllowed | aclBlocked | aclDefaultAction

record aclDeclaration =
  ad_lbcName :: string
  ad_value :: string

datatype (plugins only: code size) event =
    EvGetLBC string string "LoadBalancerConfig result"
  | EvPatchStatus LoadBalancerConfig LoadBalancerConfig "unit result"
  | EvPatchMeta LoadBalancerConfig LoadBalancerConfig "unit result"
  | EvRecord string string string string string
  | EvListLBC "LoadBalancerConfig list result"
  | EvGetSecret string string "Secret result"
  | EvGetLoadBalancerByID string "entity_LoadBalancer result"
  | EvGetLoadBalancerByName string "entity_LoadBalancer option result"
  | EvCreateLoadBalancer CreateLoadBalancerRequest "entity_LoadBalancer option result"
  | EvCreateInterLoadBalancer CreateInterLoadBalancerRequest "entity_LoadBalancer option result"
  | EvDeleteLoadBalancer string "unit result"
  | EvResizeLoadBalancer string string "unit result"
  | EvWaitForLBActive string "entity_LoadBalancer result"
  | EvListLoadBalancerPackageByZone string "entity_Package list result"
  | EvListTags string "entity_Tag option list result"
  | EvInvalidateTagsCache string
  | EvCreateTags string gomap "unit result"
  | EvCreatePool string CreatePoolRequest "entity_Pool result"
  | EvListPool string "entity_Pool list result"
  | EvUpdatePoolMembers string string "MemberRequest list" "unit result"
  | EvGetPoolMembers string string "entity_Member list result"
  | EvDeletePool string string "unit result"
  | EvUpdatePool string string UpdatePoolRequest "unit result"
  | EvGetPoolHealthMonitorById string string "entity_HealthMonitor result"
  | EvCreateListener string CreateListenerRequest "entity_Listener result"
  | EvListListenerOfLB string "entity_Listener list result"
  | EvGetListenerById string string "entity_Listener result"
  | EvDeleteListener string string "unit result"
  | EvUpdateListener string string UpdateListenerRequest "unit result"
  | EvCreatePolicy string string CreatePolicyRequest "entity_Policy result"
  | EvListPolicyOfListener string string "entity_Policy list result"
  | EvUpdatePolicy string string string UpdatePolicyRequest "unit result"
  | EvDeletePolicy string string string "unit result"
  | EvReorderPolicies string string "string list" "unit result"
  | EvListCertificates "entity_Certificate list result"
  | EvImportCertificate CreateCertificateRequest "entity_Certificate result"
  | EvDeleteCertificate string "unit result"

type_synonym history = "event list"

record VngCloudRepository =
  api_GetLoadBalancerByID :: "history \<Rightarrow> string \<Rightarrow> entity_LoadBalancer result"
  api_GetLoadBalancerByName :: "history \<Rightarrow> string \<Rightarrow> entity_LoadBalancer option result"
  api_CreateLoadBalancer :: "history \<Rightarrow> CreateLoadBalancerRequest \<Rightarrow> entity_LoadBalancer option result"
  api_CreateInterLoadBalancer :: "history \<Rightarrow> CreateInterLoadBalancerRequest \<Rightarrow> entity_LoadBalancer option result"
  api_DeleteLoadBalancer :: "history \<Rightarrow> string \<Rightarrow> unit result"
  api_ResizeLoadBalancer :: "history \<Rightarrow> string \<Rightarrow> string \<Rightarrow> unit result"
  api_WaitForLBActive :: "history \<Rightarrow> string \<Rightarrow> entity_LoadBalancer result"
  api_ListLoadBalancerPackageByZone :: "history \<Rightarrow> string \<Rightarrow> entity_Package list result"
  api_GetUserId :: "history \<Rightarrow> int"
  api_ListTags :: "history \<Rightarrow> string \<Rightarrow> entity_Tag option list result"
  api_CreateTags :: "history \<Rightarrow> string \<Rightarrow> gomap \<Rightarrow> unit result"
  api_CreatePool :: "history \<Rightarrow> string \<Rightarrow> CreatePoolRequest \<Rightarrow> entity_Pool result"
  api_ListPool :: "history \<Rightarrow> string \<Rightarrow> entity_Pool list result"
  api_UpdatePoolMembers :: "history \<Rightarrow> string \<Rightarrow> string \<Rightarrow> MemberRequest list \<Rightarrow> unit result"
  api_GetPoolMembers :: "history \<Rightarrow> string \<Rightarrow> string \<Rightarrow> entity_Member list result"
  api_DeletePool :: "history \<Rightarrow> string \<Rightarrow> string \<Rightarrow> unit result"
  api_UpdatePool :: "history \<Rightarrow> string \<Rightarrow> string \<Rightarrow> UpdatePoolRequest \<Rightarrow> unit result"
  api_GetPoolHealthMonitorById :: "history \<Rightarrow> string \<Rightarrow> string \<Rightarrow> entity_HealthMonitor result"
  api_CreateListener :: "history \<Rightarrow> string \<Rightarrow> CreateListenerRequest \<Rightarrow> entity_Listener result"
  api_ListListenerOfLB :: "history \<Rightarrow> string \<Rightarrow> entity_Listener list result"
  api_GetListenerById :: "history \<Rightarrow> string \<Rightarrow> string \<Rightarrow> entity_Listener result"
  api_DeleteListener :: "history \<Rightarrow> string \<Rightarrow> string \<Rightarrow> unit result"
  api_UpdateListener :: "history \<Rightarrow> string \<Rightarrow> string \<Rightarrow> UpdateListenerRequest \<Rightarrow> unit result"
  api_CreatePolicy :: "history \<Rightarrow> string \<Rightarrow> string \<Rightarrow> CreatePolicyRequest \<Rightarrow> entity_Policy result"
  api_ListPolicyOfListener :: "history \<Rightarrow> string \<Rightarrow> string \<Rightarrow> entity_Policy list result"
  api_UpdatePolicy :: "history \<Rightarrow> string \<Rightarrow> string \<Rightarrow> string \<Rightarrow> UpdatePolicyRequest \<Rightarrow> unit result"
  api_DeletePolicy :: "history \<Rightarrow> string \<Rightarrow> string \<Rightarrow> string \<Rightarrow> unit result"
  api_ReorderPolicies :: "history \<Rightarrow> string \<Rightarrow> string \<Rightarrow> string list \<Rightarrow> unit result"
  api_ListCertificates :: "history \<Rightarrow> entity_Certificate list result"
  api_ImportCertificate :: "history \<Rightarrow> CreateCertificateRequest \<Rightarrow> entity_Certificate result"
  api_DeleteCertificate :: "history \<Rightarrow> string \<Rightarrow> unit result"

text \<open>
  The Kubernetes client under \<open>k8sRepository\<close>. \<open>k8s_IsConflict\<close> and \<open>k8s_conflict_retries\<close> are what
  client-go's \<open>retry.RetryOnConflict(retry.DefaultBackoff, fn)\<close> takes its decision from: it runs
  \<open>fn\<close> again while \<open>fn\<close> returns a conflict, a fixed number of times at most, and returns the last
  error. \<open>k8s_SetStatusCondition\<close> is apimachinery's helper, \<open>k8s_Now\<close> the clock, \<open>k8s_IsNotFound\<close>
  the test inside \<open>client.IgnoreNotFound\<close>, \<open>k8s_AddFinalizer\<close> and \<open>k8s_RemoveFinalizer\<close> are
  controller-runtime's helpers on the list of finalizers. \<open>k8s_finalizer_ticks\<close> is the number of ticks
  a wait for a finalizer sees before its timer fires.
\<close>

record K8sRepository =
  k8s_GetLoadBalancerConfig :: "history \<Rightarrow> string \<Rightarrow> string \<Rightarrow> LoadBalancerConfig result"
  k8s_StatusPatch :: "history \<Rightarrow> LoadBalancerConfig \<Rightarrow> LoadBalancerConfig \<Rightarrow> unit result"
  k8s_ListLoadBalancerConfig :: "history \<Rightarrow> LoadBalancerConfig list result"
  k8s_GetSecret :: "history \<Rightarrow> string \<Rightarrow> string \<Rightarrow> Secret result"
  k8s_IsConflict :: "go_error \<Rightarrow> bool"
  k8s_conflict_retries :: nat
  k8s_IsNotFound :: "go_error \<Rightarrow> bool"
  k8s_SetStatusCondition :: "Condition list \<Rightarrow> Condition \<Rightarrow> bool \<times> Condition list"
  k8s_Now :: "history \<Rightarrow> int"
  k8s_PatchMeta :: "history \<Rightarrow> LoadBalancerConfig \<Rightarrow> LoadBalancerConfig \<Rightarrow> unit result"
  k8s_AddFinalizer :: "string list \<Rightarrow> string \<Rightarrow> string list"
  k8s_RemoveFinalizer :: "string list \<Rightarrow> string \<Rightarrow> string list"
  k8s_finalizer_ticks :: "history \<Rightarrow> nat"

text \<open>
  The IPv6 half of \<open>net.ParseCIDR\<close> and \<open>net.ParseIP\<close>: the text of the network of an IPv6 CIDR, and
  the dotted form of an IPv4-mapped IPv6 address.
\<close>

record net6 =
  net_ParseCIDR6 :: "string \<Rightarrow> string option"
  net_ParseMapped4 :: "string \<Rightarrow> string option"

text \<open>
  \<open>defaultModelDeployTask\<close>: the part that never changes during a reconcile is \<open>task\<close> (no code writes
  the metadata or the spec of \<open>t.lbConfig\<close>), the part that does is \<open>st\<close>.
\<close>

record task =
  t_cfg :: Config
  t_vng :: VngCloudRepository
  t_k8s :: K8sRepository
  t_sdk :: sdk_consts
  t_net :: net6
  t_Meta :: ObjectMeta
  t_Spec :: LoadBalancerConfigSpec

record st =
  hist :: history
  lbStatus :: LoadBalancerConfigStatus
  aclPeers :: "((int \<times> aclField) \<times> aclDeclaration) list"
  warnings :: "string list"

type_synonym 'a M = "(st, 'a) run"

section \<open>State and calls\<close>

definition modStatus :: "(LoadBalancerConfigStatus \<Rightarrow> LoadBalancerConfigStatus) \<Rightarrow> unit M" where
  "modStatus f = (\<lambda>s. (Inr (), s\<lparr>lbStatus := f (lbStatus s)\<rparr>))"

text \<open>One call: the environment answers from the history, and the call joins the history.\<close>

definition call :: "('a result \<Rightarrow> event) \<Rightarrow> (history \<Rightarrow> 'a result) \<Rightarrow> 'a M" where
  "call ev f = (\<lambda>s. (f (hist s), s\<lparr>hist := hist s @ [ev (f (hist s))]\<rparr>))"

section \<open>The repository methods\<close>

definition GetLoadBalancerByID where
  "GetLoadBalancerByID t l = call (EvGetLoadBalancerByID l) (\<lambda>h. api_GetLoadBalancerByID (t_vng t) h l)"
definition GetLoadBalancerByName where
  "GetLoadBalancerByName t n = call (EvGetLoadBalancerByName n) (\<lambda>h. api_GetLoadBalancerByName (t_vng t) h n)"
definition CreateLoadBalancer where
  "CreateLoadBalancer t r = call (EvCreateLoadBalancer r) (\<lambda>h. api_CreateLoadBalancer (t_vng t) h r)"
definition CreateInterLoadBalancer where
  "CreateInterLoadBalancer t r = call (EvCreateInterLoadBalancer r) (\<lambda>h. api_CreateInterLoadBalancer (t_vng t) h r)"
definition DeleteLoadBalancer where
  "DeleteLoadBalancer t l = call (EvDeleteLoadBalancer l) (\<lambda>h. api_DeleteLoadBalancer (t_vng t) h l)"
definition ResizeLoadBalancer where
  "ResizeLoadBalancer t l p = call (EvResizeLoadBalancer l p) (\<lambda>h. api_ResizeLoadBalancer (t_vng t) h l p)"
definition WaitForLBActive where
  "WaitForLBActive t l = call (EvWaitForLBActive l) (\<lambda>h. api_WaitForLBActive (t_vng t) h l)"
definition ListLoadBalancerPackageByZone where
  "ListLoadBalancerPackageByZone t z =
     call (EvListLoadBalancerPackageByZone z) (\<lambda>h. api_ListLoadBalancerPackageByZone (t_vng t) h z)"
definition GetUserId where
  "GetUserId t = getS (\<lambda>s. api_GetUserId (t_vng t) (hist s))"
definition ListTags where
  "ListTags t l = call (EvListTags l) (\<lambda>h. api_ListTags (t_vng t) h l)"
definition InvalidateTagsCache :: "task \<Rightarrow> string \<Rightarrow> unit M" where
  "InvalidateTagsCache t l = call (\<lambda>_. EvInvalidateTagsCache l) (\<lambda>h. Inr ())"
definition CreateTags where
  "CreateTags t l m = call (EvCreateTags l m) (\<lambda>h. api_CreateTags (t_vng t) h l m)"
definition CreatePool where
  "CreatePool t l r = call (EvCreatePool l r) (\<lambda>h. api_CreatePool (t_vng t) h l r)"
definition ListPool where
  "ListPool t l = call (EvListPool l) (\<lambda>h. api_ListPool (t_vng t) h l)"
definition UpdatePoolMembers where
  "UpdatePoolMembers t l p ms = call (EvUpdatePoolMembers l p ms) (\<lambda>h. api_UpdatePoolMembers (t_vng t) h l p ms)"
definition GetPoolMembers where
  "GetPoolMembers t l p = call (EvGetPoolMembers l p) (\<lambda>h. api_GetPoolMembers (t_vng t) h l p)"
definition DeletePool where
  "DeletePool t l p = call (EvDeletePool l p) (\<lambda>h. api_DeletePool (t_vng t) h l p)"
definition UpdatePool where
  "UpdatePool t l p r = call (EvUpdatePool l p r) (\<lambda>h. api_UpdatePool (t_vng t) h l p r)"
definition GetPoolHealthMonitorById where
  "GetPoolHealthMonitorById t l p =
     call (EvGetPoolHealthMonitorById l p) (\<lambda>h. api_GetPoolHealthMonitorById (t_vng t) h l p)"
definition CreateListener where
  "CreateListener t l r = call (EvCreateListener l r) (\<lambda>h. api_CreateListener (t_vng t) h l r)"
definition ListListenerOfLB where
  "ListListenerOfLB t l = call (EvListListenerOfLB l) (\<lambda>h. api_ListListenerOfLB (t_vng t) h l)"
definition GetListenerById where
  "GetListenerById t l i = call (EvGetListenerById l i) (\<lambda>h. api_GetListenerById (t_vng t) h l i)"
definition DeleteListener where
  "DeleteListener t l i = call (EvDeleteListener l i) (\<lambda>h. api_DeleteListener (t_vng t) h l i)"
definition UpdateListener where
  "UpdateListener t l i r = call (EvUpdateListener l i r) (\<lambda>h. api_UpdateListener (t_vng t) h l i r)"
definition CreatePolicy where
  "CreatePolicy t l i r = call (EvCreatePolicy l i r) (\<lambda>h. api_CreatePolicy (t_vng t) h l i r)"
definition ListPolicyOfListener where
  "ListPolicyOfListener t l i = call (EvListPolicyOfListener l i) (\<lambda>h. api_ListPolicyOfListener (t_vng t) h l i)"
definition UpdatePolicy where
  "UpdatePolicy t l i p r = call (EvUpdatePolicy l i p r) (\<lambda>h. api_UpdatePolicy (t_vng t) h l i p r)"
definition DeletePolicy where
  "DeletePolicy t l i p = call (EvDeletePolicy l i p) (\<lambda>h. api_DeletePolicy (t_vng t) h l i p)"
definition ReorderPolicies where
  "ReorderPolicies t l i ps = call (EvReorderPolicies l i ps) (\<lambda>h. api_ReorderPolicies (t_vng t) h l i ps)"
definition ListCertificates where
  "ListCertificates t = call EvListCertificates (\<lambda>h. api_ListCertificates (t_vng t) h)"
definition ImportCertificate where
  "ImportCertificate t r = call (EvImportCertificate r) (\<lambda>h. api_ImportCertificate (t_vng t) h r)"
definition DeleteCertificate where
  "DeleteCertificate t i = call (EvDeleteCertificate i) (\<lambda>h. api_DeleteCertificate (t_vng t) h i)"
definition GetLoadBalancerConfig where
  "GetLoadBalancerConfig t ns n = call (EvGetLBC ns n) (\<lambda>h. k8s_GetLoadBalancerConfig (t_k8s t) h ns n)"
definition ListLoadBalancerConfig where
  "ListLoadBalancerConfig t = call EvListLBC (\<lambda>h. k8s_ListLoadBalancerConfig (t_k8s t) h)"
definition GetSecret where
  "GetSecret t ns n = call (EvGetSecret ns n) (\<lambda>h. k8s_GetSecret (t_k8s t) h ns n)"
definition StatusPatch where
  "StatusPatch t old new = call (EvPatchStatus old new) (\<lambda>h. k8s_StatusPatch (t_k8s t) h old new)"

lemmas repo_defs =
  GetLoadBalancerByID_def GetLoadBalancerByName_def CreateLoadBalancer_def CreateInterLoadBalancer_def
  DeleteLoadBalancer_def ResizeLoadBalancer_def WaitForLBActive_def ListLoadBalancerPackageByZone_def
  GetUserId_def ListTags_def InvalidateTagsCache_def CreateTags_def CreatePool_def ListPool_def
  UpdatePoolMembers_def GetPoolMembers_def DeletePool_def UpdatePool_def GetPoolHealthMonitorById_def
  CreateListener_def ListListenerOfLB_def GetListenerById_def DeleteListener_def UpdateListener_def
  CreatePolicy_def ListPolicyOfListener_def UpdatePolicy_def DeletePolicy_def ReorderPolicies_def
  ListCertificates_def ImportCertificate_def DeleteCertificate_def GetLoadBalancerConfig_def
  ListLoadBalancerConfig_def GetSecret_def StatusPatch_def

section \<open>Patching status\<close>

text \<open>
  \<open>patchMutateStatusObject\<close> of \<^verbatim>\<open>internal/repository/k8s_repo/k8s_repo.go\<close>: read a fresh copy, let
  the closure mutate it, patch the status unless the closure reports no change; all of it again on a
  conflict. The closure also returns what it left in the variables it captured; the last run counts.
\<close>

type_synonym 'd mutation = "LoadBalancerConfig \<Rightarrow> bool \<times> LoadBalancerConfig \<times> 'd"

definition patchMutateStatusObject :: "task \<Rightarrow> string \<Rightarrow> string \<Rightarrow> 'd mutation \<Rightarrow> 'd M" where
  "patchMutateStatusObject t ns n mutate =
     RetryOnConflict (k8s_IsConflict (t_k8s t)) (k8s_conflict_retries (t_k8s t))
       (andThen (GetLoadBalancerConfig t ns n) (\<lambda>objGet.
          case mutate objGet of (changed, obj, d) \<Rightarrow>
            if \<not> changed then returnM d
            else andThen (StatusPatch t objGet obj) (\<lambda>_. returnM d)))"

text \<open>\<open>PatchMutateStatusLoadBalancerConfig(ctx, t.lbConfig, ...)\<close>, on the object of the task.\<close>

definition PatchMutateStatus :: "task \<Rightarrow> 'd mutation \<Rightarrow> 'd M" where
  "PatchMutateStatus t mutate =
     patchMutateStatusObject t (om_Namespace (t_Meta t)) (om_Name (t_Meta t)) mutate"

text \<open>A closure that only touches the status and captures nothing.\<close>

definition statusMut :: "(LoadBalancerConfigStatus \<Rightarrow> bool \<times> LoadBalancerConfigStatus) \<Rightarrow> unit mutation" where
  "statusMut f = (\<lambda>obj. case f (lbc_Status obj) of (changed, s') \<Rightarrow> (changed, obj\<lparr>lbc_Status := s'\<rparr>, ()))"

end
