(* ===== verification/Effects.thy ===== *)
theory Effects
  imports Cloud
begin

text \<open>
  The program logic of a deploy task, on top of \<^verbatim>\<open>Runs\<close>. The contract \<open>step_rel\<close> is interpreted for
  \<open>emitsR P\<close>, every call added to the trace satisfies \<open>P\<close> at the point where it is made (\<open>P\<close> sees the
  trace so far), for \<open>keepsR f\<close>, the component \<open>f\<close> of the state is not changed, and for \<open>steadyR P\<close>, the
  first with the in-memory status unchanged.
\<close>

section \<open>Results\<close>

lemma modStatus_eq [simp]: "modStatus f s = (Inr (), s\<lparr>lbStatus := f (lbStatus s)\<rparr>)"
  by (simp add: modStatus_def)

lemma call_eq [simp]: "call ev f s = (f (hist s), s\<lparr>hist := hist s @ [ev (f (hist s))]\<rparr>)"
  by (simp add: call_def)

lemma call_result: "call ev f s = (r, s') \<Longrightarrow> hist s' = hist s @ [ev r] \<and> lbStatus s' = lbStatus s"
  by auto

section \<open>What is emitted\<close>

definition emitsR :: "(history \<Rightarrow> event \<Rightarrow> bool) \<Rightarrow> st \<Rightarrow> st \<Rightarrow> bool" where
  "emitsR P s s' \<longleftrightarrow>
     (\<exists>es. hist s' = hist s @ es \<and> (\<forall>pre e post. es = pre @ e # post \<longrightarrow> P (hist s @ pre) e))"

lemma emitsR_adds: "emitsR P = addsR hist P"
  by (intro ext) (simp add: emitsR_def addsR_def)

lemma emitsR_trans: "emitsR P s s' \<Longrightarrow> emitsR P s' s'' \<Longrightarrow> emitsR P s s''"
  unfolding emitsR_adds by (rule addsR_trans)

interpretation emits: step_rel "emitsR P" for P
  by unfold_locales (simp add: emitsR_def, erule (1) emitsR_trans)

lemma emitsR_hist: "emitsR P s s' \<Longrightarrow> \<exists>es. hist s' = hist s @ es"
  by (auto simp: emitsR_def)

lemma emitsR_mem: "emitsR P s s' \<Longrightarrow> e \<in> set (hist s) \<Longrightarrow> e \<in> set (hist s')"
  by (auto simp: emitsR_def)

lemma emitsR_split:
  "emitsR P s s' \<Longrightarrow> hist s' = hist s @ pre @ e # post \<Longrightarrow> P (hist s @ pre) e"
  by (auto simp: emitsR_def)

lemma emitsR_all:
  assumes "emitsR P s s'" and "hist s' = hist s @ es" and "e \<in> set es"
  shows "\<exists>pre. P (hist s @ pre) e"
  using assms unfolding emitsR_def by (metis same_append_eq split_list)

lemma emitsR_mono: "emitsR P s s' \<Longrightarrow> (\<And>h e. P h e \<Longrightarrow> Q h e) \<Longrightarrow> emitsR Q s s'"
  by (auto simp: emitsR_def)

lemma safe_emits_call [safe_intro]:
  "P (hist s) (ev (f (hist s))) \<Longrightarrow> safe (emitsR P) (call ev f) s"
  by (auto simp: safe_def emitsR_def Cons_eq_append_conv)

lemma safe_emits_modStatus [safe_intro]: "safe (emitsR P) (modStatus f) s"
  by (simp add: safe_def emitsR_def)

lemmas emits_struct =
  emits.safe_returnM emits.safe_failM emits.safe_getS emits.safe_andThen emits.safe_attempt emits.safe_wrapErr
  emits.safe_if emits.safe_case_option emits.safe_case_list emits.safe_case_sum emits.safe_case_prod
  emits.safe_Let emits.safe_mapM emits.safe_collectFailures safe_emits_modStatus

lemma safe_emits_mono: "safe (emitsR P) m s \<Longrightarrow> (\<And>h e. P h e \<Longrightarrow> Q h e) \<Longrightarrow> safe (emitsR Q) m s"
  by (auto simp: safe_def intro: emitsR_mono)

lemma safe_emits_from:
  assumes "safe (emitsR Q) m s" and "\<And>es e. Q (hist s @ es) e \<Longrightarrow> P (hist s @ es) e"
  shows "safe (emitsR P) m s"
  using assms unfolding safe_def emitsR_def by blast

text \<open>The calls that change the cloud; reads, waits, the cache and the Kubernetes API are not among them.\<close>

definition isCloudWrite :: "event \<Rightarrow> bool" where
  "isCloudWrite e =
     (case e of
        EvCreateLoadBalancer _ _ \<Rightarrow> True | EvCreateInterLoadBalancer _ _ \<Rightarrow> True
      | EvDeleteLoadBalancer _ _ \<Rightarrow> True | EvResizeLoadBalancer _ _ _ \<Rightarrow> True | EvCreateTags _ _ _ \<Rightarrow> True
      | EvCreatePool _ _ _ \<Rightarrow> True | EvUpdatePoolMembers _ _ _ _ \<Rightarrow> True | EvDeletePool _ _ _ \<Rightarrow> True
      | EvUpdatePool _ _ _ _ \<Rightarrow> True | EvCreateListener _ _ _ \<Rightarrow> True | EvDeleteListener _ _ _ \<Rightarrow> True
      | EvUpdateListener _ _ _ _ \<Rightarrow> True | EvCreatePolicy _ _ _ _ \<Rightarrow> True | EvUpdatePolicy _ _ _ _ _ \<Rightarrow> True
      | EvDeletePolicy _ _ _ _ \<Rightarrow> True | EvReorderPolicies _ _ _ _ \<Rightarrow> True | EvImportCertificate _ _ \<Rightarrow> True
      | EvDeleteCertificate _ _ \<Rightarrow> True | _ \<Rightarrow> False)"

section \<open>What is kept\<close>

definition keepsR :: "(st \<Rightarrow> 'b) \<Rightarrow> st \<Rightarrow> st \<Rightarrow> bool" where
  "keepsR f s s' \<longleftrightarrow> f s' = f s"

interpretation keeps: step_rel "keepsR f" for f
  by unfold_locales (simp_all add: keepsR_def)

lemmas keeps_struct =
  keeps.safe_returnM keeps.safe_failM keeps.safe_getS keeps.safe_andThen keeps.safe_attempt keeps.safe_wrapErr
  keeps.safe_if keeps.safe_case_option keeps.safe_case_list keeps.safe_case_sum keeps.safe_case_prod
  keeps.safe_Let keeps.safe_mapM keeps.safe_collectFailures

lemma safe_keeps_call_status [safe_intro]: "safe (keepsR lbStatus) (call ev f) s"
  by (simp add: safe_def keepsR_def)

text \<open>Both at once: what a run that only talks to the cloud does.\<close>

definition steadyR :: "(history \<Rightarrow> event \<Rightarrow> bool) \<Rightarrow> st \<Rightarrow> st \<Rightarrow> bool" where
  "steadyR P s s' \<longleftrightarrow> emitsR P s s' \<and> lbStatus s' = lbStatus s"

interpretation steady: step_rel "steadyR P" for P
  by unfold_locales (auto simp: steadyR_def emits.R_refl intro: emitsR_trans)

lemma safe_steadyI:
  "safe (emitsR P) m s \<Longrightarrow> safe (keepsR lbStatus) m s \<Longrightarrow> safe (steadyR P) m s"
  by (simp add: safe_def steadyR_def keepsR_def)

lemma safe_steadyD: "safe (steadyR P) m s \<Longrightarrow> safe (emitsR P) m s"
  by (simp add: safe_def steadyR_def)

section \<open>The repositories\<close>

text \<open>Every patch is preceded by a read of the same object, whose mutation it writes.\<close>

lemma safe_emits_patchMutateStatusObject:
  assumes "\<And>h r. P h (EvGetLBC ns n r)"
    and "\<And>h obj obj' d r. mutate obj = (True, obj', d)
           \<Longrightarrow> P (h @ [EvGetLBC ns n (Inr obj)]) (EvPatchStatus obj obj' r)"
  shows "safe (emitsR P) (patchMutateStatusObject t ns n mutate) s"
  unfolding patchMutateStatusObject_def GetLoadBalancerConfig_def StatusPatch_def
  by (intro safe_intro) (auto simp: assms split: if_splits)

lemma safe_emits_PatchMutateStatus [safe_intro]:
  assumes "\<And>h r. P h (EvGetLBC (om_Namespace (t_Meta t)) (om_Name (t_Meta t)) r)"
    and "\<And>h obj obj' r. P h (EvPatchStatus obj obj' r)"
  shows "safe (emitsR P) (PatchMutateStatus t mutate) s"
  unfolding PatchMutateStatus_def
  by (rule safe_emits_patchMutateStatusObject) (simp_all add: assms)

text \<open>A predicate that allows the two calls from here on.\<close>

lemma safe_emits_PatchMutateStatus_from:
  assumes "\<And>es r. P (hist s @ es) (EvGetLBC (om_Namespace (t_Meta t)) (om_Name (t_Meta t)) r)"
    and "\<And>es obj obj' r. P (hist s @ es) (EvPatchStatus obj obj' r)"
  shows "safe (emitsR P) (PatchMutateStatus t mutate) s"
proof -
  have "P (hist s') (EvGetLBC (om_Namespace (t_Meta t)) (om_Name (t_Meta t)) r)"
    "P (hist s') (EvPatchStatus obj obj' r')" if "emitsR P s s'" for s' r obj obj' r'
    using emitsR_hist[OF that] assms by auto
  then show ?thesis
    unfolding PatchMutateStatus_def patchMutateStatusObject_def GetLoadBalancerConfig_def StatusPatch_def
    by (intro safe_intro) (blast intro: emitsR_trans)+
qed

lemma safe_keeps_PatchMutateStatus [safe_intro]:
  "safe (keepsR lbStatus) (PatchMutateStatus t mutate) s"
  unfolding PatchMutateStatus_def patchMutateStatusObject_def GetLoadBalancerConfig_def StatusPatch_def
  by (intro safe_intro)

lemma RetryOnConflict_success:
  fixes m :: "'a M"
  assumes "RetryOnConflict c n m s = (Inr x, s')" and "\<And>s0. \<exists>es. hist (snd (m s0)) = hist s0 @ es"
  shows "\<exists>s0 es. hist s0 = hist s @ es \<and> m s0 = (Inr x, s')"
  using assms(1)
proof (induction n arbitrary: s)
  case 0
  then show ?case by (auto intro: exI[of _ s])
next
  case (Suc n)
  obtain r s1 where 1: "m s = (r, s1)" by (cases "m s")
  with assms(2)[of s] obtain e where e: "hist s1 = hist s @ e" by auto
  show ?case
  proof (cases r)
    case (Inr y)
    with Suc.prems 1 show ?thesis by (auto simp: andThen_def attempt_def intro: exI[of _ s])
  next
    case (Inl err)
    with Suc.prems 1 have "RetryOnConflict c n m s1 = (Inr x, s')"
      by (auto simp: andThen_def attempt_def split: if_splits)
    from Suc.IH[OF this] e show ?thesis by (metis append_assoc)
  qed
qed

text \<open>A patch that succeeded read an object, mutated it, and patched it if the mutation changed it.\<close>

lemma PatchMutateStatus_success:
  assumes "PatchMutateStatus t mutate s = (Inr d, s')"
  shows "\<exists>es obj changed obj'. hist s' = hist s @ es \<and> lbStatus s' = lbStatus s
    \<and> EvGetLBC (om_Namespace (t_Meta t)) (om_Name (t_Meta t)) (Inr obj) \<in> set es
    \<and> mutate obj = (changed, obj', d) \<and> (changed \<longrightarrow> EvPatchStatus obj obj' (Inr ()) \<in> set es)"
proof -
  let ?m = "andThen (GetLoadBalancerConfig t (om_Namespace (t_Meta t)) (om_Name (t_Meta t))) (\<lambda>objGet.
          case mutate objGet of (changed, obj, d) \<Rightarrow>
            if \<not> changed then returnM d
            else andThen (StatusPatch t objGet obj) (\<lambda>_. returnM d))"
  have ext: "\<exists>es. hist (snd (?m s0)) = hist s0 @ es" for s0
    by (auto simp: GetLoadBalancerConfig_def StatusPatch_def andThen_def split: sum.splits prod.splits)
  have st: "lbStatus s' = lbStatus s"
    using keeps.safeD[OF safe_keeps_PatchMutateStatus assms] by (simp add: keepsR_def)
  from assms obtain s0 es where s0: "hist s0 = hist s @ es" "?m s0 = (Inr d, s')"
    unfolding PatchMutateStatus_def patchMutateStatusObject_def
    using RetryOnConflict_success[OF _ ext] by blast
  from s0(2) obtain obj s1 where
    1: "GetLoadBalancerConfig t (om_Namespace (t_Meta t)) (om_Name (t_Meta t)) s0 = (Inr obj, s1)"
    and r: "(case mutate obj of (changed, obj', d) \<Rightarrow> if \<not> changed then returnM d
              else andThen (StatusPatch t obj obj') (\<lambda>_. returnM d)) s1 = (Inr d, s')"
    unfolding andThen_Inr_iff by blast
  obtain changed obj' d' where mut: "mutate obj = (changed, obj', d')" by (cases "mutate obj")
  from r mut have 2: "(if \<not> changed then returnM d' else andThen (StatusPatch t obj obj') (\<lambda>_. returnM d')) s1 = (Inr d, s')"
    by simp
  from 1 have h1: "hist s1 = hist s0 @ [EvGetLBC (om_Namespace (t_Meta t)) (om_Name (t_Meta t)) (Inr obj)]"
    unfolding GetLoadBalancerConfig_def by (auto dest!: call_result simp del: call_eq)
  have "d' = d \<and> (\<exists>e. hist s' = hist s1 @ e \<and> (changed \<longrightarrow> EvPatchStatus obj obj' (Inr ()) \<in> set e))"
  proof (cases changed)
    case True
    with 2 obtain u where u: "StatusPatch t obj obj' s1 = (Inr u, s')" "d' = d" by (auto simp: andThen_Inr_iff)
    then show ?thesis unfolding StatusPatch_def by (auto dest!: call_result simp del: call_eq)
  qed (use 2 in simp)
  then obtain e where e: "d' = d" "hist s' = hist s1 @ e" "changed \<longrightarrow> EvPatchStatus obj obj' (Inr ()) \<in> set e" by auto
  show ?thesis
    by (rule exI[of _ "es @ [EvGetLBC (om_Namespace (t_Meta t)) (om_Name (t_Meta t)) (Inr obj)] @ e"], rule exI[of _ obj],
        rule exI[of _ changed], rule exI[of _ obj']) (use h1 s0(1) mut st e in auto)
qed

section \<open>Loops and the trace\<close>

text \<open>A loop that stops at the first error and got to its end has done every step.\<close>

lemma mapM_trace:
  fixes f :: "'a \<Rightarrow> 'b M"
  assumes "\<And>x s y s'. x \<in> set xs \<Longrightarrow> f x s = (Inr y, s') \<Longrightarrow> \<exists>es. hist s' = hist s @ es \<and> Q x y es"
    and "mapM f xs s = (Inr ys, s')"
  shows "\<exists>es. hist s' = hist s @ es \<and> list_all2 (\<lambda>x y. \<exists>es'. set es' \<subseteq> set es \<and> Q x y es') xs ys"
  using assms
proof (induction xs arbitrary: s ys)
  case (Cons x xs)
  from Cons.prems(2) obtain y ys' s1 where
    1: "f x s = (Inr y, s1)" and 2: "mapM f xs s1 = (Inr ys', s')" and ys: "ys = y # ys'"
    by (auto simp: andThen_Inr_iff)
  from Cons.prems(1)[OF _ 1] obtain e1 where e1: "hist s1 = hist s @ e1" "Q x y e1" by auto
  from Cons.IH[OF _ 2] Cons.prems(1) obtain e2 where
    e2: "hist s' = hist s1 @ e2" "list_all2 (\<lambda>x y. \<exists>es'. set es' \<subseteq> set e2 \<and> Q x y es') xs ys'" by auto
  from e2(2) have "list_all2 (\<lambda>x y. \<exists>es'. set es' \<subseteq> set (e1 @ e2) \<and> Q x y es') xs ys'"
    by (rule list.rel_mono_strong) auto
  with e1 e2(1) ys show ?case by (intro exI[of _ "e1 @ e2"]) auto
qed simp

lemma list_all2_mem: "list_all2 R xs ys \<Longrightarrow> x \<in> set xs \<Longrightarrow> \<exists>y \<in> set ys. R x y"
  by (induction xs ys rule: list_all2_induct) auto

lemma collectFailures_visits:
  fixes f :: "'a \<Rightarrow> 'b M"
  assumes "\<And>x s. x \<in> set xs \<Longrightarrow> \<exists>es. hist (snd (f x s)) = hist s @ es" and "x \<in> set xs"
    and "collectFailures f xs s = (Inr (ys, fs), s')"
  shows "\<exists>es1 s1 es2. hist s1 = hist s @ es1 \<and> hist s' = hist (snd (f x s1)) @ es2
    \<and> (case fst (f x s1) of Inl e \<Rightarrow> e \<in> set fs | Inr y \<Rightarrow> y \<in> set ys)"
  using assms
proof (induction xs arbitrary: s ys fs)
  case (Cons a xs)
  obtain r s1 where 1: "f a s = (r, s1)" by (cases "f a s")
  obtain ys' fs' where 2: "collectFailures f xs s1 = (Inr (ys', fs'), s')"
    and eq: "(ys, fs) = (case r of Inl e \<Rightarrow> (ys', e # fs') | Inr y \<Rightarrow> (y # ys', fs'))"
    using Cons.prems(3) 1 by (cases r) (auto simp: andThen_Inr_iff)
  have ext: "\<exists>es. hist s' = hist s1 @ es"
  proof -
    have "safe (emitsR (\<lambda>_ _. True)) (collectFailures f xs) s1"
      using Cons.prems(1) by (intro emits.safe_collectFailures) (auto simp: safe_def emitsR_def)
    from emits.safeD[OF this 2] show ?thesis by (rule emitsR_hist)
  qed
  show ?case
  proof (cases "x = a")
    case True
    from ext obtain e where "hist s' = hist s1 @ e" ..
    with True 1 eq show ?thesis
      by (intro exI[of _ "[]"] exI[of _ s] exI[of _ e]) (auto split: sum.splits)
  next
    case False
    with Cons.prems(2) have "x \<in> set xs" by simp
    from Cons.IH[OF Cons.prems(1) this 2] obtain e1 s2 e2 where v: "hist s2 = hist s1 @ e1"
      "hist s' = hist (snd (f x s2)) @ e2" "case fst (f x s2) of Inl e \<Rightarrow> e \<in> set fs' | Inr y \<Rightarrow> y \<in> set ys'" by auto
    from Cons.prems(1)[of a s] 1 obtain e0 where "hist s1 = hist s @ e0" by auto
    with v eq show ?thesis
      by (intro exI[of _ "e0 @ e1"] exI[of _ s2] exI[of _ e2]) (auto split: sum.splits)
  qed
qed simp

end
