(* ===== verification/Example_Env.thy ===== *)
theory Example_Env
  imports Cloud
begin

text \<open>
  A small concrete environment, in which the witnesses of the component theories are evaluated: a
  cloud and an API server whose every call fails, from which an example overrides the calls it
  needs, and an empty spec and status.
\<close>

definition unavailable :: "'a result" where
  "unavailable = Inl (ErrorString ''unavailable'')"

definition ex_vng :: VngCloudRepository where
  "ex_vng =
     \<lparr>api_GetLoadBalancerByID = (\<lambda>_ _. unavailable), api_GetLoadBalancerByName = (\<lambda>_ _. unavailable),
      api_CreateLoadBalancer = (\<lambda>_ _. unavailable), api_CreateInterLoadBalancer = (\<lambda>_ _. unavailable),
      api_DeleteLoadBalancer = (\<lambda>_ _. unavailable), api_ResizeLoadBalancer = (\<lambda>_ _ _. unavailable),
      api_WaitForLBActive = (\<lambda>_ _. unavailable), api_ListLoadBalancerPackageByZone = (\<lambda>_ _. unavailable),
      api_GetUserId = (\<lambda>_. 0), api_ListTags = (\<lambda>_ _. unavailable), api_CreateTags = (\<lambda>_ _ _. unavailable),
      api_CreatePool = (\<lambda>_ _ _. unavailable), api_ListPool = (\<lambda>_ _. unavailable),
      api_UpdatePoolMembers = (\<lambda>_ _ _ _. unavailable), api_GetPoolMembers = (\<lambda>_ _ _. unavailable),
      api_DeletePool = (\<lambda>_ _ _. unavailable), api_UpdatePool = (\<lambda>_ _ _ _. unavailable),
      api_GetPoolHealthMonitorById = (\<lambda>_ _ _. unavailable), api_CreateListener = (\<lambda>_ _ _. unavailable),
      api_ListListenerOfLB = (\<lambda>_ _. unavailable), api_GetListenerById = (\<lambda>_ _ _. unavailable),
      api_DeleteListener = (\<lambda>_ _ _. unavailable), api_UpdateListener = (\<lambda>_ _ _ _. unavailable),
      api_CreatePolicy = (\<lambda>_ _ _ _. unavailable), api_ListPolicyOfListener = (\<lambda>_ _ _. unavailable),
      api_UpdatePolicy = (\<lambda>_ _ _ _ _. unavailable), api_DeletePolicy = (\<lambda>_ _ _ _. unavailable),
      api_ReorderPolicies = (\<lambda>_ _ _ _. unavailable), api_ListCertificates = (\<lambda>_. unavailable),
      api_ImportCertificate = (\<lambda>_ _. unavailable), api_DeleteCertificate = (\<lambda>_ _. unavailable)\<rparr>"

definition ex_k8s :: K8sRepository where
  "ex_k8s =
     \<lparr>k8s_GetLoadBalancerConfig = (\<lambda>_ _ _. unavailable), k8s_StatusPatch = (\<lambda>_ _ _. unavailable),
      k8s_ListLoadBalancerConfig = (\<lambda>_. unavailable), k8s_GetSecret = (\<lambda>_ _ _. unavailable),
      k8s_IsConflict = (\<lambda>_. False), k8s_conflict_retries = 4, k8s_IsNotFound = (\<lambda>_. False),
      k8s_SetStatusCondition = (\<lambda>cs c. (find (\<lambda>x. cond_Type x = cond_Type c) cs \<noteq> Some c,
                                    filter (\<lambda>x. cond_Type x \<noteq> cond_Type c) cs @ [c])),
      k8s_Now = (\<lambda>h. int (length h)), k8s_PatchMeta = (\<lambda>_ _ _. unavailable),
      k8s_AddFinalizer = (\<lambda>fs f. if f \<in> set fs then fs else fs @ [f]),
      k8s_RemoveFinalizer = (\<lambda>fs f. filter (\<lambda>x. x \<noteq> f) fs),
      k8s_finalizer_ticks = (\<lambda>_. 6)\<rparr>"

definition ex_sdk :: sdk_consts where
  "ex_sdk =
     \<lparr>LoadBalancerTypeLayer4 = ''Layer 4'', LoadBalancerTypeLayer7 = ''Layer 7'',
      InterVpcLoadBalancerScheme = ''InterVPC'', ListenerProtocolHTTPS = ''HTTPS'',
      PolicyActionREDIRECTTOPOOL = ''REDIRECT_TO_POOL'', PolicyActionREDIRECTTOURL = ''REDIRECT_TO_URL'',
      HealthCheckProtocolHTTP = ''HTTP'', HealthCheckProtocolHTTPs = ''HTTPS'', HealthCheckProtocolTCP = ''TCP'',
      ImportOptsTypeOptTLS = ''TLS/SSL'', SecretTypeTLS = ''kubernetes.io/tls'',
      TLSCertKey = ''tls.crt'', TLSPrivateKeyKey = ''tls.key''\<rparr>"

definition ex_opts :: LoadBalancerOpts where
  "ex_opts =
     \<lparr>DefaultL4PackageName = ''NLB_Small'', DefaultL7PackageName = ''ALB_Small'', DefaultScheme = ''Internet'',
      DefaultPoolAlgorithm = ''ROUND_ROBIN'', DefaultHealthyThreshold = 3, DefaultUnhealthyThreshold = 3,
      DefaultInterval = 30, DefaultTimeout = 5, DefaultTimeoutClient = 50, DefaultTimeoutMember = 50,
      DefaultTimeoutConnection = 5, DefaultAllowedCidrs = ''0.0.0.0/0''\<rparr>"

definition ex_meta :: ObjectMeta where
  "ex_meta =
     \<lparr>om_Namespace = ''default'', om_Name = ''lbc'', om_UID = ''uid-1'', om_Generation = 1,
      om_DeletionTimestamp = None, om_Finalizers = [],
      om_GenerateName = [], om_Labels = [], om_Annotations = []\<rparr>"

definition ex_spec :: LoadBalancerConfigSpec where
  "ex_spec =
     \<lparr>sp_Type = ''Layer 4'', sp_ClusterId = None, sp_LoadBalancerName = ''lb'', sp_SubnetId = ''sub-1'',
      sp_VpcId = ''vpc-1'', sp_BackendSubnetId = None, sp_PrivateSubnetId = None, sp_PrivateZoneId = None,
      sp_ZoneId = ''zone-1'', sp_PackageId = None, sp_Scheme = None, sp_LoadBalancerId = None,
      sp_EnableAutoscale = None, sp_Tags = [], sp_IsPoc = None, sp_Listeners = [], sp_Pools = [],
      sp_CreateCertificates = []\<rparr>"

definition ex_status :: LoadBalancerConfigStatus where
  "ex_status =
     \<lparr>ss_ObservedGeneration = None, ss_LastReconcileTime = None, ss_LastReconcileMessage = [],
      ss_Address = None, ss_LoadBalancerId = None, ss_AdoptedLoadBalancerId = None,
      ss_RetiringLoadBalancer = None, ss_CreatedLoadBalancerId = None, ss_LoadBalancerName = None,
      ss_Type = None, ss_SubnetId = None, ss_ZoneId = None, ss_CreatedTags = [], ss_CreatedPools = [],
      ss_CreatedListeners = [], ss_CreatedCertificates = [], ss_Conditions = []\<rparr>"

definition ex_task :: task where
  "ex_task =
     \<lparr>t_cfg = \<lparr>cfg_LoadBalancerOpts = ex_opts, cfg_UserID = 1\<rparr>, t_vng = ex_vng, t_k8s = ex_k8s, t_sdk = ex_sdk,
      t_net = \<lparr>net_ParseCIDR6 = (\<lambda>_. None), net_ParseMapped4 = (\<lambda>_. None)\<rparr>,
      t_Meta = ex_meta, t_Spec = ex_spec\<rparr>"

definition ex_st :: st where
  "ex_st = \<lparr>hist = [], lbStatus = ex_status, aclPeers = [], warnings = []\<rparr>"

lemmas ex_defs = unavailable_def ex_vng_def ex_k8s_def ex_sdk_def ex_opts_def ex_meta_def ex_spec_def
  ex_status_def ex_task_def ex_st_def

end
