(* ===== verification/Pool_Members.thy ===== *)
theory Pool_Members
  imports Effects Example_Env
begin

text \<open>
  The member lists of a pool (the second half of \<^verbatim>\<open>internal/usecase/lbc_uc/deploy_pool.go\<close> and
  \<open>canDeleteWholePool\<close> of \<^verbatim>\<open>delete_pool.go\<close>): which members a pool should hold, given the ones it
  holds, the ones this cluster recorded as its own and the ones the spec asks for.

  Members are identified by address, port and monitor port (\<open>memberKey\<close>). The merge is described on
  keys, where it is a set expression; the comparison that decides whether to push is shown to be
  exact on what it is applied to. What the merge needs of the identity of a member is the locale
  \<open>member_identity\<close>, which is interpreted here and for the members of global pools in \<open>Glb_Members\<close>.
\<close>

section \<open>Operations\<close>

definition checkIfPoolMemberExist :: "PoolMember list \<Rightarrow> PoolMember \<Rightarrow> bool" where
  "checkIfPoolMemberExist list member \<longleftrightarrow>
     list_ex (\<lambda>r. pm_IP r = pm_IP member \<and> pm_Port r = pm_Port member
                \<and> pm_MonitorPort r = pm_MonitorPort member) list"

definition comparePoolMembers :: "PoolMember list \<Rightarrow> PoolMember list \<Rightarrow> bool" where
  "comparePoolMembers poolMembers current \<longleftrightarrow>
     length poolMembers = length current \<and> list_all (checkIfPoolMemberExist current) poolMembers"

definition keepMember :: "PoolMember list \<Rightarrow> PoolMember list \<Rightarrow> PoolMember \<Rightarrow> bool" where
  "keepMember createdMembers poolMemberSpec member \<longleftrightarrow>
     checkIfPoolMemberExist poolMemberSpec member \<or> \<not> checkIfPoolMemberExist createdMembers member"

definition addMember :: "PoolMember \<Rightarrow> PoolMember list \<Rightarrow> PoolMember list" where
  "addMember member merged = (if checkIfPoolMemberExist merged member then merged else merged @ [member])"

definition mergePoolMembers :: "PoolMember list \<Rightarrow> PoolMember list \<Rightarrow> PoolMember list \<Rightarrow> PoolMember list" where
  "mergePoolMembers createdMembers currentMembers poolMemberSpec =
     fold addMember poolMemberSpec (filter (keepMember createdMembers poolMemberSpec) currentMembers)"

definition convertMember :: "entity_Member \<Rightarrow> PoolMember" where
  "convertMember member =
     \<lparr>pm_IP = em_Address member, pm_Port = em_ProtocolPort member, pm_MonitorPort = em_MonitorPort member,
      pm_Name = em_Name member, pm_Weight = Some (em_Weight member), pm_Backup = Some (em_Backup member)\<rparr>"

definition convertMemberList :: "entity_Member list \<Rightarrow> PoolMember list" where
  "convertMemberList members = map convertMember members"

definition NewMember :: "PoolMember \<Rightarrow> MemberRequest" where
  "NewMember member =
     \<lparr>mr_Name = pm_Name member, mr_IP = pm_IP member, mr_Port = pm_Port member, mr_MonitorPort = pm_MonitorPort member\<rparr>"

text \<open>\<open>canDeleteWholePool\<close>: the second component is the members to write, if any.\<close>

definition canDeleteWholePool ::
  "entity_Member list \<Rightarrow> PoolMember list \<Rightarrow> PoolMember list \<Rightarrow> bool \<times> MemberRequest list option" where
  "canDeleteWholePool currentListMembers createdMembers newCreatedMembers =
     (let updateMembers = mergePoolMembers createdMembers (convertMemberList currentListMembers) newCreatedMembers
      in if updateMembers = [] then (True, None)
         else if \<not> comparePoolMembers updateMembers (convertMemberList currentListMembers)
              then (False, Some (map NewMember updateMembers))
              else (False, None))"

section \<open>Merging by key\<close>

text \<open>
  What the merges of members have in common, here and in the global load balancer: a member is kept when
  the spec has it or we did not create it, then every member of the spec that is not there is appended.
  What a merge asks of the test \<open>ex\<close> is that it compares members by some key; the locale
  \<open>member_identity\<close> says so, and the merge is then a set expression on keys.
\<close>

definition keepBy :: "('m list \<Rightarrow> 'm \<Rightarrow> bool) \<Rightarrow> 'm list \<Rightarrow> 'm list \<Rightarrow> 'm \<Rightarrow> bool" where
  "keepBy ex created spec m \<longleftrightarrow> ex spec m \<or> \<not> ex created m"

definition addBy :: "('m list \<Rightarrow> 'm \<Rightarrow> bool) \<Rightarrow> 'm \<Rightarrow> 'm list \<Rightarrow> 'm list" where
  "addBy ex m merged = (if ex merged m then merged else merged @ [m])"

definition mergeBy :: "('m list \<Rightarrow> 'm \<Rightarrow> bool) \<Rightarrow> 'm list \<Rightarrow> 'm list \<Rightarrow> 'm list \<Rightarrow> 'm list" where
  "mergeBy ex created current spec = fold (addBy ex) spec (filter (keepBy ex created spec) current)"

locale member_identity =
  fixes key :: "'m \<Rightarrow> 'k" and ex :: "'m list \<Rightarrow> 'm \<Rightarrow> bool"
  assumes ex_iff: "ex xs m \<longleftrightarrow> key m \<in> key ` set xs"
begin

lemma keys_add: "key ` set (addBy ex m xs) = insert (key m) (key ` set xs)"
  by (auto simp: addBy_def ex_iff)

lemma keys_fold_add: "key ` set (fold (addBy ex) ms xs) = key ` set xs \<union> key ` set ms"
  by (induction ms arbitrary: xs) (auto simp: keys_add)

text \<open>Adding only appends, what it appends comes from the list, and no key is appended twice.\<close>

lemma fold_add_append:
  "\<exists>new. fold (addBy ex) ms xs = xs @ new \<and> set new \<subseteq> set ms \<and> distinct (map key new)
     \<and> key ` set new \<inter> key ` set xs = {}"
proof (induction ms arbitrary: xs)
  case (Cons m ms)
  show ?case
  proof (cases "key m \<in> key ` set xs")
    case True
    then have "addBy ex m xs = xs" by (simp add: addBy_def ex_iff)
    with Cons.IH[of xs] show ?thesis by auto
  next
    case False
    then have "addBy ex m xs = xs @ [m]" by (simp add: addBy_def ex_iff)
    with Cons.IH[of "xs @ [m]"] obtain new where
      "fold (addBy ex) (m # ms) xs = xs @ m # new" "set new \<subseteq> set ms" "distinct (map key new)"
      "key ` set new \<inter> key ` set (xs @ [m]) = {}" by auto
    with False show ?thesis by (intro exI[of _ "m # new"]) auto
  qed
qed simp

lemma fold_add_absorbed: "key ` set ms \<subseteq> key ` set xs \<Longrightarrow> fold (addBy ex) ms xs = xs"
  by (induction ms) (auto simp: addBy_def ex_iff)

lemma append_of_merge:
  obtains new where
    "mergeBy ex created current spec = filter (keepBy ex created spec) current @ new"
    "set new \<subseteq> set spec" "distinct (map key new)"
    "key ` set new \<inter> key ` set (filter (keepBy ex created spec) current) = {}"
  unfolding mergeBy_def using fold_add_append by blast

text \<open>The keys after a merge: those not ours, and those of the spec.\<close>

lemma keys_of_merge:
  "key ` set (mergeBy ex created current spec) = (key ` set current - key ` set created) \<union> key ` set spec"
proof -
  have "key ` {m \<in> set current. key m \<in> S \<or> key m \<notin> C} = key ` set current \<inter> (S \<union> - C)" for C S
    by auto
  then show ?thesis unfolding mergeBy_def keys_fold_add set_filter keepBy_def ex_iff by auto
qed

text \<open>Members that are not ours stay as they are, at their place.\<close>

lemma foreign_of_merge:
  "filter (\<lambda>m. key m \<notin> key ` set created) current
     = filter (\<lambda>m. key m \<notin> key ` set created)
         (take (length (filter (keepBy ex created spec) current)) (mergeBy ex created current spec))"
proof -
  obtain new where "mergeBy ex created current spec = filter (keepBy ex created spec) current @ new"
    by (rule append_of_merge)
  then show ?thesis by (auto simp: keepBy_def ex_iff intro!: filter_cong)
qed

text \<open>A merged list that is no longer than the current one, with all its keys in it, is the current one.\<close>

lemma exact_merge:
  assumes "length (mergeBy ex created current spec) = length current"
    and "key ` set (mergeBy ex created current spec) \<subseteq> key ` set current"
  shows "mergeBy ex created current spec = current"
proof -
  obtain new where merged: "mergeBy ex created current spec = filter (keepBy ex created spec) current @ new"
    and new: "set new \<subseteq> set spec" "key ` set new \<inter> key ` set (filter (keepBy ex created spec) current) = {}"
    by (rule append_of_merge)
  have "new = []"
  proof (rule ccontr)
    assume "new \<noteq> []"
    then obtain m where m: "m \<in> set new" by (cases new) auto
    with assms(2) merged obtain c where c: "c \<in> set current" "key c = key m" by auto
    moreover have "keepBy ex created spec c"
      using m new(1) c(2) by (force simp: keepBy_def ex_iff)
    ultimately show False using m new(2) by force
  qed
  with assms(1) merged have "length (filter (keepBy ex created spec) current) = length current" by simp
  then have "filter (keepBy ex created spec) current = current"
    by (metis filter_True length_filter_less less_irrefl)
  with merged \<open>new = []\<close> show ?thesis by simp
qed

text \<open>With the spec recorded as ours, the next merge changes nothing.\<close>

lemma merge_settled: "mergeBy ex spec (mergeBy ex created current spec) spec = mergeBy ex created current spec"
proof -
  let ?m = "mergeBy ex created current spec"
  have "filter (keepBy ex spec spec) ?m = ?m" by (simp add: keepBy_def)
  moreover have "key ` set spec \<subseteq> key ` set ?m" using keys_of_merge by blast
  ultimately show ?thesis unfolding mergeBy_def[of ex spec ?m spec] by (simp add: fold_add_absorbed)
qed

end

section \<open>Keys\<close>

definition memberKey :: "PoolMember \<Rightarrow> string \<times> int \<times> int" where
  "memberKey m = (pm_IP m, pm_Port m, pm_MonitorPort m)"

lemma exist_iff [simp]: "checkIfPoolMemberExist xs m \<longleftrightarrow> memberKey m \<in> memberKey ` set xs"
  unfolding checkIfPoolMemberExist_def list_ex_iff memberKey_def image_iff by (simp only: prod.inject) metis

interpretation pool_member: member_identity memberKey checkIfPoolMemberExist
  by unfold_locales (rule exist_iff)

lemma mergePoolMembers_mergeBy: "mergePoolMembers = mergeBy checkIfPoolMemberExist"
proof -
  have "keepMember = keepBy checkIfPoolMemberExist" and "addMember = addBy checkIfPoolMemberExist"
    by (intro ext, simp add: keepMember_def keepBy_def addMember_def addBy_def)+
  then show ?thesis by (intro ext) (simp only: mergePoolMembers_def mergeBy_def)
qed

lemmas keys_merge = pool_member.keys_of_merge[folded mergePoolMembers_mergeBy]

section \<open>The merge\<close>

text \<open>
  What a pool is set to: exactly the members it holds that are not ours, and the members of the
  spec. A member this cluster did not record as its own survives every merge as it is, at its place;
  one it did record survives only when the spec still asks for it; every member of the spec is in.
\<close>

theorem mergePoolMembers_keys:
  "memberKey ` set (mergePoolMembers created current spec)
     = (memberKey ` set current - memberKey ` set created) \<union> memberKey ` set spec
   \<and> filter (\<lambda>m. memberKey m \<notin> memberKey ` set created) current
     = filter (\<lambda>m. memberKey m \<notin> memberKey ` set created)
         (take (length (filter (keepBy checkIfPoolMemberExist created spec) current)) (mergePoolMembers created current spec))"
  unfolding mergePoolMembers_mergeBy using pool_member.keys_of_merge pool_member.foreign_of_merge by blast

lemma merge_exact:
  "comparePoolMembers (mergePoolMembers created current spec) current
     \<longleftrightarrow> mergePoolMembers created current spec = current"
proof
  assume "comparePoolMembers (mergePoolMembers created current spec) current"
  then show "mergePoolMembers created current spec = current"
    unfolding mergePoolMembers_mergeBy
    by (intro pool_member.exact_merge) (auto simp: comparePoolMembers_def list_all_iff)
qed (simp add: comparePoolMembers_def list_all_iff)

text \<open>
  The push decision is exact: the comparison \<open>deployPool\<close> makes between the merged list and the
  pool's list says "equal" only when they are the same list, although it compares lengths and
  membership only. So a needed update is never skipped and an unneeded one never sent. After the
  push, with the new members recorded, the next merge asks for nothing.
\<close>

theorem comparePoolMembers_merge_exact:
  "(comparePoolMembers (mergePoolMembers created current spec) current
      \<longleftrightarrow> mergePoolMembers created current spec = current)
   \<and> mergePoolMembers spec (mergePoolMembers created current spec) spec = mergePoolMembers created current spec"
  unfolding mergePoolMembers_mergeBy
  using merge_exact[unfolded mergePoolMembers_mergeBy] pool_member.merge_settled by blast

text \<open>A pool may go as a whole exactly when nothing is to stay on it: no member of the new spec, and
  every member it holds is recorded as ours.\<close>

lemma canDeleteWholePool_iff:
  "fst (canDeleteWholePool current created newCreated) \<longleftrightarrow>
     newCreated = [] \<and> (\<forall>m \<in> set current. memberKey (convertMember m) \<in> memberKey ` set created)"
proof -
  have "mergePoolMembers created cs sp = [] \<longleftrightarrow>
    (memberKey ` set cs - memberKey ` set created) \<union> memberKey ` set sp = {}" for cs sp
    using keys_merge[of created cs sp] by (metis image_is_empty set_empty2)
  then show ?thesis by (auto simp: canDeleteWholePool_def convertMemberList_def Let_def)
qed

lemma canDeleteWholePool_members:
  "snd (canDeleteWholePool current created newCreated) = Some ms \<Longrightarrow>
     ms = map NewMember (mergePoolMembers created (convertMemberList current) newCreated)"
  by (auto simp: canDeleteWholePool_def Let_def split: if_splits)

text \<open>Member identity is what \<open>go_equal\<close> asks of a comparison, and \<open>comparePoolMembers\<close> is its \<open>covers\<close>.\<close>

interpretation member_key: go_equal "\<lambda>a b. memberKey a = memberKey b"
  by unfold_locales simp_all

lemma comparePoolMembers_covers: "comparePoolMembers a b = covers (\<lambda>x y. memberKey x = memberKey y) a b"
  by (auto simp: comparePoolMembers_def covers_def list_all_iff list_ex_iff)

end
