(* ===== verification/Net.thy ===== *)
theory Net
  imports Effects "HOL-Library.Word"
begin

unbundle bit_operations_syntax

text \<open>
  The part of Go's \<open>net\<close> package the ACL comparison uses: IPv4 addresses and CIDRs as 32-bit words.
  The IPv6 forms are the fields of \<open>net6\<close>.
\<close>

type_synonym ipv4 = "32 word"

definition is_digit :: "char \<Rightarrow> bool" where
  "is_digit c \<longleftrightarrow> 48 \<le> (of_char c :: nat) \<and> (of_char c :: nat) \<le> 57"

definition digits_value :: "string \<Rightarrow> nat" where
  "digits_value s = foldl (\<lambda>v c. 10 * v + ((of_char c :: nat) - 48)) 0 s"

text \<open>One field of a dotted address: decimal digits, no leading zero, at most 255.\<close>

definition parse_octet :: "string \<Rightarrow> nat option" where
  "parse_octet s =
     (if s \<noteq> [] \<and> list_all is_digit s \<and> (length s = 1 \<or> hd s \<noteq> CHR ''0'') \<and> digits_value s \<le> 255
      then Some (digits_value s) else None)"

definition ipv4_of :: "nat \<Rightarrow> nat \<Rightarrow> nat \<Rightarrow> nat \<Rightarrow> ipv4" where
  "ipv4_of a b c d =
     push_bit 24 (of_nat a) OR push_bit 16 (of_nat b) OR push_bit 8 (of_nat c) OR of_nat d"

text \<open>\<open>netip.ParseAddr\<close> on the dotted form.\<close>

definition ParseAddr4 :: "string \<Rightarrow> ipv4 option" where
  "ParseAddr4 s =
     (case map parse_octet (Split CHR ''.'' s) of
        [Some a, Some b, Some c, Some d] \<Rightarrow> Some (ipv4_of a b c d)
      | _ \<Rightarrow> None)"

definition octet :: "nat \<Rightarrow> ipv4 \<Rightarrow> nat" where
  "octet i w = unat (take_bit 8 (drop_bit (8 * i) w))"

definition ipv4_string :: "ipv4 \<Rightarrow> string" where
  "ipv4_string w = Join ''.'' (map (\<lambda>i. digits_of (octet i w)) [3, 2, 1, 0])"

text \<open>\<open>dtoi\<close> of the prefix length: digits only, below \<open>0xFFFFFF\<close>; leading zeros are accepted.\<close>

definition parse_prefix_len :: "string \<Rightarrow> nat option" where
  "parse_prefix_len s =
     (if s \<noteq> [] \<and> list_all is_digit s \<and> digits_value s \<le> 32 then Some (digits_value s) else None)"

text \<open>\<open>net.CIDRMask\<close> and \<open>IP.Mask\<close>.\<close>

definition CIDRMask :: "nat \<Rightarrow> ipv4" where
  "CIDRMask n = push_bit (32 - n) (- 1)"

definition network_of :: "nat \<Rightarrow> ipv4 \<Rightarrow> ipv4" where
  "network_of n w = w AND CIDRMask n"

definition cidr_string :: "ipv4 \<Rightarrow> nat \<Rightarrow> string" where
  "cidr_string w n = ipv4_string w @ CHR ''/'' # digits_of n"

text \<open>\<open>net.ParseCIDR\<close>: the text of the network, or \<open>None\<close> for an error.\<close>

definition ParseCIDR :: "net6 \<Rightarrow> string \<Rightarrow> string option" where
  "ParseCIDR n6 s =
     (let addr = takeWhile (\<lambda>c. c \<noteq> CHR ''/'') s; rest = dropWhile (\<lambda>c. c \<noteq> CHR ''/'') s
      in if rest = [] then None
         else case ParseAddr4 addr of
                Some w \<Rightarrow> (case parse_prefix_len (tl rest) of
                            Some n \<Rightarrow> Some (cidr_string (network_of n w) n)
                          | None \<Rightarrow> None)
              | None \<Rightarrow> net_ParseCIDR6 n6 s)"

text \<open>\<open>net.ParseIP\<close> restricted by \<open>To4\<close>: the dotted text.\<close>

definition ParseIP_To4 :: "net6 \<Rightarrow> string \<Rightarrow> string option" where
  "ParseIP_To4 n6 s =
     (case ParseAddr4 s of Some w \<Rightarrow> Some (ipv4_string w) | None \<Rightarrow> net_ParseMapped4 n6 s)"

section \<open>Facts\<close>

lemma digits_of_digits: "list_all is_digit (digits_of n)"
proof (induction n rule: digits_of.induct)
  case (1 n)
  have "is_digit (char_of (48 + m))" if "m < 10" for m :: nat
    using that by (simp add: is_digit_def)
  with 1 show ?case by (subst digits_of.simps) auto
qed

lemma digits_value_digits_of [simp]: "digits_value (digits_of n) = n"
proof (induction n rule: digits_of.induct)
  case (1 n)
  then show ?case
    by (subst digits_of.simps) (auto simp: digits_value_def)
qed

lemma digits_of_not_Nil [simp]: "digits_of n \<noteq> []"
  by (subst digits_of.simps) simp

lemma hd_digits_of: "0 < n \<Longrightarrow> hd (digits_of n) \<noteq> CHR ''0''"
proof (induction n rule: digits_of.induct)
  case (1 n)
  show ?case
  proof (cases "n < 10")
    case True
    have "n < 10 \<longrightarrow> 0 < n \<longrightarrow> char_of (48 + n) \<noteq> CHR ''0''"
      by (simp add: char_of_eq_iff take_bit_eq_mod)
    with True \<open>0 < n\<close> show ?thesis by (subst digits_of.simps) simp
  next
    case False
    with 1 show ?thesis by (subst digits_of.simps) (simp add: hd_append)
  qed
qed

lemma parse_octet_digits_of: "n \<le> 255 \<Longrightarrow> parse_octet (digits_of n) = Some n"
proof -
  assume n: "n \<le> 255"
  have "length (digits_of n) = 1 \<or> hd (digits_of n) \<noteq> CHR ''0''"
  proof (cases "n = 0")
    case True then show ?thesis by (subst digits_of.simps) simp
  next
    case False then show ?thesis using hd_digits_of by simp
  qed
  with n show ?thesis by (simp add: parse_octet_def digits_of_digits)
qed

lemma digit_not_sep: "is_digit c \<Longrightarrow> c \<noteq> CHR ''.'' \<and> c \<noteq> CHR ''/''"
  by (auto simp: is_digit_def)

lemma digits_of_no_sep: "CHR ''.'' \<notin> set (digits_of n)" "CHR ''/'' \<notin> set (digits_of n)"
  using digits_of_digits[of n] digit_not_sep by (auto simp: list_all_iff)

lemma octet_le: "octet i w \<le> 255"
proof -
  have "unat (take_bit 8 (drop_bit (8 * i) w)) < 256"
    by (simp only: unsigned_take_bit_eq) (simp add: take_bit_eq_mod)
  then show ?thesis by (simp add: octet_def)
qed

lemma ipv4_of_octets: "ipv4_of (octet 3 w) (octet 2 w) (octet 1 w) (octet 0 w) = w"
proof (rule bit_word_eqI)
  fix n assume "n < LENGTH(32)"
  have o: "(of_nat (octet i w) :: ipv4) = take_bit 8 (drop_bit (8 * i) w)" for i
    by (simp add: octet_def)
  from \<open>n < LENGTH(32)\<close> have "n < 32" by simp
  then consider "n < 8" | "8 \<le> n" "n < 16" | "16 \<le> n" "n < 24" | "24 \<le> n" "n < 32" by linarith
  then show "bit (ipv4_of (octet 3 w) (octet 2 w) (octet 1 w) (octet 0 w)) n = bit w n"
    unfolding ipv4_of_def o by cases (auto simp: bit_simps)
qed

text \<open>Printing an address and parsing it again gives it back.\<close>

lemma ParseAddr4_ipv4_string: "ParseAddr4 (ipv4_string w) = Some w"
proof -
  have "Split CHR ''.'' (ipv4_string w) = map (\<lambda>i. digits_of (octet i w)) [3, 2, 1, 0]"
    unfolding ipv4_string_def by (rule Split_Join) (auto simp: digits_of_no_sep)
  then show ?thesis
    by (simp add: ParseAddr4_def parse_octet_digits_of octet_le ipv4_of_octets[simplified])
qed

lemma ipv4_string_no_slash: "CHR ''/'' \<notin> set (ipv4_string w)"
  by (simp add: ipv4_string_def digits_of_no_sep)

lemma network_of_idem [simp]: "network_of n (network_of n w) = network_of n w"
  by (simp add: network_of_def and.assoc)

lemma network_of_bit: "n \<le> 32 \<Longrightarrow> bit (network_of n w) i \<longleftrightarrow> 32 - n \<le> i \<and> bit w i"
  by (auto simp: network_of_def CIDRMask_def bit_simps dest: bit_imp_le_length)

lemma network_32 [simp]: "network_of 32 w = w"
  by (simp add: network_of_def CIDRMask_def)

lemma takeWhile_no_slash:
  "CHR ''/'' \<notin> set a \<Longrightarrow> takeWhile (\<lambda>c. c \<noteq> CHR ''/'') (a @ CHR ''/'' # b) = a"
  "CHR ''/'' \<notin> set a \<Longrightarrow> dropWhile (\<lambda>c. c \<noteq> CHR ''/'') (a @ CHR ''/'' # b) = CHR ''/'' # b"
  by (induction a) auto

text \<open>
  Parsing the text of a CIDR gives its network, whatever the host bits of the text.
\<close>

lemma ParseCIDR_cidr_string:
  assumes "n \<le> 32"
  shows "ParseCIDR n6 (cidr_string w n) = Some (cidr_string (network_of n w) n)"
proof -
  have "parse_prefix_len (digits_of n) = Some n"
    using assms by (simp add: parse_prefix_len_def digits_of_digits)
  then show ?thesis
    by (simp add: ParseCIDR_def cidr_string_def takeWhile_no_slash ipv4_string_no_slash
        ParseAddr4_ipv4_string)
qed

lemma cidr_string_inject: "cidr_string w n = cidr_string v m \<longleftrightarrow> w = v \<and> n = m"
proof
  assume eq: "cidr_string w n = cidr_string v m"
  have "takeWhile (\<lambda>c. c \<noteq> CHR ''/'') (cidr_string w n) = ipv4_string w"
    "takeWhile (\<lambda>c. c \<noteq> CHR ''/'') (cidr_string v m) = ipv4_string v"
    by (simp_all add: cidr_string_def takeWhile_no_slash ipv4_string_no_slash)
  with eq have s: "ipv4_string w = ipv4_string v" by simp
  then have "w = v" using ParseAddr4_ipv4_string by (metis option.inject)
  moreover from eq s have "digits_of n = digits_of m" by (simp add: cidr_string_def)
  then have "n = m" by (metis digits_value_digits_of)
  ultimately show "w = v \<and> n = m" ..
qed simp

end
