(* ===== verification/Listener_Acl.thy ===== *)
theory Listener_Acl
  imports Net
begin

text \<open>
  The ACL planner of \<^verbatim>\<open>internal/usecase/lbc_uc/listener_acl.go\<close>: which of the three ACL fields of a
  listener to write, which displaced values to record before the write and which to keep after it.

  The proofs go through a per-field description of the plan (\<open>fieldDesired\<close>, \<open>fieldBefore\<close>,
  \<open>fieldAfter\<close>): the loop over the fields is folded once, in \<open>plan_loop_fields\<close>, and every later
  lemma is about one field.
\<close>

section \<open>Fields\<close>

definition ActionAccept :: string where "ActionAccept = ''accept''"
definition ActionDrop :: string where "ActionDrop = ''drop''"

definition aclFields :: "aclField list" where
  "aclFields = [aclAllowed, aclBlocked, aclDefaultAction]"

fun aclField_String :: "aclField \<Rightarrow> string" where
  "aclField_String aclAllowed = ''allowed cidrs''"
| "aclField_String aclBlocked = ''blocked cidrs''"
| "aclField_String aclDefaultAction = ''default action''"

fun acl_get :: "aclField \<Rightarrow> ListenerAcl option \<Rightarrow> string option" where
  "acl_get f None = None"
| "acl_get aclAllowed (Some a) = acl_AllowedCidrs a"
| "acl_get aclBlocked (Some a) = acl_BlockedCidrs a"
| "acl_get aclDefaultAction (Some a) = acl_DefaultAction a"

fun acl_set :: "aclField \<Rightarrow> string option \<Rightarrow> ListenerAcl \<Rightarrow> ListenerAcl" where
  "acl_set aclAllowed v a = a\<lparr>acl_AllowedCidrs := v\<rparr>"
| "acl_set aclBlocked v a = a\<lparr>acl_BlockedCidrs := v\<rparr>"
| "acl_set aclDefaultAction v a = a\<lparr>acl_DefaultAction := v\<rparr>"

definition emptyAcl :: ListenerAcl where
  "emptyAcl = \<lparr>acl_AllowedCidrs = None, acl_BlockedCidrs = None, acl_DefaultAction = None\<rparr>"

definition specAcl :: "Listener \<Rightarrow> ListenerAcl" where
  "specAcl l =
     (let acl = \<lparr>acl_AllowedCidrs = None, acl_BlockedCidrs = lis_BlockedCidrs l,
                 acl_DefaultAction = lis_DefaultAction l\<rparr>
      in if nonempty (lis_AllowedCidrs l) then acl\<lparr>acl_AllowedCidrs := lis_AllowedCidrs l\<rparr> else acl)"

definition currentAcl :: "entity_Listener \<Rightarrow> ListenerAcl" where
  "currentAcl l =
     (let acl = \<lparr>acl_AllowedCidrs = Some (el_AllowedCidrs l), acl_BlockedCidrs = Some (el_BlockedCidrs l),
                 acl_DefaultAction = None\<rparr>
      in if el_DefaultAction l \<noteq> [] then acl\<lparr>acl_DefaultAction := Some (el_DefaultAction l)\<rparr> else acl)"

definition cloneAcl :: "ListenerAcl option \<Rightarrow> ListenerAcl" where
  "cloneAcl a = (case a of None \<Rightarrow> emptyAcl | Some r \<Rightarrow> r)"

definition nilIfEmpty :: "ListenerAcl \<Rightarrow> ListenerAcl option" where
  "nilIfEmpty a = (if ListenerAcl_IsEmpty (Some a) then None else Some a)"

fun neutralValue :: "string \<Rightarrow> aclField \<Rightarrow> string" where
  "neutralValue defaultAllowed aclAllowed = defaultAllowed"
| "neutralValue defaultAllowed aclBlocked = []"
| "neutralValue defaultAllowed aclDefaultAction = ActionDrop"

definition neutralAcl :: "ListenerAcl \<Rightarrow> string \<Rightarrow> ListenerAcl option" where
  "neutralAcl spec defaultAllowed =
     (let rec = fold (\<lambda>f r. if acl_get f (Some spec) \<noteq> None
                            then acl_set f (Some (neutralValue defaultAllowed f)) r else r)
                  aclFields emptyAcl
      in nilIfEmpty rec)"

section \<open>Comparing values\<close>

definition canonicalCidr :: "net6 \<Rightarrow> string \<Rightarrow> string" where
  "canonicalCidr n6 s =
     (case ParseCIDR n6 s of
        Some n \<Rightarrow> n
      | None \<Rightarrow> (case ParseIP_To4 n6 s of Some ip \<Rightarrow> ip @ ''/32'' | None \<Rightarrow> s))"

definition cidrSet :: "net6 \<Rightarrow> string \<Rightarrow> string list" where
  "cidrSet n6 s =
     remdups_adj (sort (map (canonicalCidr n6) (filter (\<lambda>p. p \<noteq> []) (map TrimSpace (Split CHR '','' s)))))"

definition aclValueEqual :: "net6 \<Rightarrow> aclField \<Rightarrow> string option \<Rightarrow> string option \<Rightarrow> bool" where
  "aclValueEqual n6 f a b \<longleftrightarrow>
     (if f = aclDefaultAction then EqualFold (deref a) (deref b)
      else cidrSet n6 (deref a) = cidrSet n6 (deref b))"

section \<open>The planner\<close>

record aclPlan =
  pl_Desired :: ListenerAcl
  pl_RecordBefore :: "ListenerAcl option"
  pl_RecordAfter :: "ListenerAcl option"
  pl_Changes :: "string list"

text \<open>The original recorded for a field taken over with no record.\<close>

definition takenOver :: "ListenerAcl option \<Rightarrow> aclField \<Rightarrow> string option \<Rightarrow> string" where
  "takenOver neutral f have =
     (case acl_get f neutral of
        Some n \<Rightarrow> n
      | None \<Rightarrow> (case have of
                   Some h \<Rightarrow> h
                 | None \<Rightarrow> if f = aclDefaultAction then ActionDrop else []))"

text \<open>The body of the loop; \<open>before\<close>, \<open>after\<close>, \<open>plan.Desired\<close>, \<open>plan.Changes\<close> are its variables.\<close>

definition planField ::
  "net6 \<Rightarrow> ListenerAcl \<Rightarrow> ListenerAcl \<Rightarrow> ListenerAcl option \<Rightarrow> ListenerAcl option \<Rightarrow> (aclField \<Rightarrow> bool)
   \<Rightarrow> aclField \<Rightarrow> ListenerAcl \<times> ListenerAcl \<times> ListenerAcl \<times> string list
   \<Rightarrow> ListenerAcl \<times> ListenerAcl \<times> ListenerAcl \<times> string list" where
  "planField n6 spec current record neutral peerDeclares f v =
     (case v of (before, after, desired, changes) \<Rightarrow>
        let have = acl_get f (Some current) in
        (case acl_get f (Some spec) of
           Some want \<Rightarrow>
             if aclValueEqual n6 f have (Some want) then v
             else let o1 = takenOver neutral f have;
                      taken = (acl_get f record = None)
                  in (if taken then acl_set f (Some o1) before else before,
                      if taken then acl_set f (Some o1) after else after,
                      acl_set f (Some want) desired,
                      changes @ [aclField_String f @ '' ('' @ deref have @ '' -> '' @ want @ '')''])
         | None \<Rightarrow>
             (case acl_get f record of
                Some orig \<Rightarrow>
                  if peerDeclares f \<or> aclValueEqual n6 f have (Some orig)
                  then (before, acl_set f None after, desired, changes)
                  else (before, acl_set f None after, acl_set f (Some orig) desired,
                        changes @ [aclField_String f @ '' restored ('' @ deref have @ '' -> '' @ orig @ '')''])
              | None \<Rightarrow> v)))"

definition planListenerAcl ::
  "net6 \<Rightarrow> ListenerAcl \<Rightarrow> ListenerAcl \<Rightarrow> ListenerAcl option \<Rightarrow> ListenerAcl option \<Rightarrow> (aclField \<Rightarrow> bool) \<Rightarrow> aclPlan" where
  "planListenerAcl n6 spec current record neutral peerDeclares =
     (case fold (planField n6 spec current record neutral peerDeclares) aclFields
             (cloneAcl record, cloneAcl record, emptyAcl, []) of
        (before, after, desired, changes) \<Rightarrow>
          \<lparr>pl_Desired = desired, pl_RecordBefore = nilIfEmpty before,
           pl_RecordAfter = nilIfEmpty after, pl_Changes = changes\<rparr>)"

text \<open>What a listener shows after the update the plan asks for: a nil field keeps the current value.\<close>

definition applyAcl :: "ListenerAcl \<Rightarrow> ListenerAcl \<Rightarrow> ListenerAcl" where
  "applyAcl desired current =
     \<lparr>acl_AllowedCidrs = (case acl_AllowedCidrs desired of None \<Rightarrow> acl_AllowedCidrs current | v \<Rightarrow> v),
      acl_BlockedCidrs = (case acl_BlockedCidrs desired of None \<Rightarrow> acl_BlockedCidrs current | v \<Rightarrow> v),
      acl_DefaultAction = (case acl_DefaultAction desired of None \<Rightarrow> acl_DefaultAction current | v \<Rightarrow> v)\<rparr>"

section \<open>Facts on fields\<close>

lemma set_aclFields [simp]: "set aclFields = UNIV"
  using aclField.exhaust by (auto simp: aclFields_def)

lemma distinct_aclFields [simp]: "distinct aclFields"
  by (simp add: aclFields_def)

lemma acl_get_set [simp]:
  "acl_get g (Some (acl_set f v a)) = (if g = f then v else acl_get g (Some a))"
  by (cases f; cases g) simp_all

lemma acl_eqI: "(\<And>f. acl_get f (Some a) = acl_get f (Some b)) \<Longrightarrow> a = (b :: ListenerAcl)"
  using acl_get.simps(2-4) by (metis (full_types) ListenerAcl.equality old.unit.exhaust)

lemma acl_get_emptyAcl [simp]: "acl_get f (Some emptyAcl) = None"
  by (cases f) (simp_all add: emptyAcl_def)

lemma acl_get_cloneAcl [simp]: "acl_get f (Some (cloneAcl r)) = acl_get f r"
  by (cases r) (simp_all add: cloneAcl_def)

lemma ListenerAcl_IsEmpty_iff: "ListenerAcl_IsEmpty r \<longleftrightarrow> (\<forall>f. acl_get f r = None)"
proof (cases r)
  case (Some a)
  show ?thesis
    unfolding Some ListenerAcl_IsEmpty_def
    by (auto; metis acl_get.simps aclField.exhaust)
qed (simp add: ListenerAcl_IsEmpty_def)

lemma acl_get_nilIfEmpty [simp]: "acl_get f (nilIfEmpty a) = acl_get f (Some a)"
  using ListenerAcl_IsEmpty_iff[of "Some a"] by (auto simp: nilIfEmpty_def)

lemma acl_get_applyAcl [simp]:
  "acl_get f (Some (applyAcl d c)) = (case acl_get f (Some d) of None \<Rightarrow> acl_get f (Some c) | Some v \<Rightarrow> Some v)"
  by (cases f) (auto simp: applyAcl_def split: option.splits)

lemma acl_get_neutralAcl [simp]:
  "acl_get f (neutralAcl spec d) = (if acl_get f (Some spec) = None then None else Some (neutralValue d f))"
  unfolding neutralAcl_def Let_def acl_get_nilIfEmpty
  by (cases f) (simp_all add: aclFields_def emptyAcl_def)

section \<open>Facts on values\<close>

lemma cidrSet_eq [go_string]:
  "cidrSet n6 s = sorted_list_of_set (canonicalCidr n6 ` {p \<in> TrimSpace ` set (Split CHR '','' s). p \<noteq> []})"
  unfolding cidrSet_def remdups_adj_sort_eq by (rule arg_cong[of _ _ sorted_list_of_set]) auto

lemma aclValueEqual_refl [simp]: "aclValueEqual n6 f a a"
  by (simp add: aclValueEqual_def)

lemma aclValueEqual_sym: "aclValueEqual n6 f a b \<Longrightarrow> aclValueEqual n6 f b a"
  by (auto simp: aclValueEqual_def EqualFold_def split: if_splits)

lemma aclValueEqual_trans:
  "aclValueEqual n6 f a b \<Longrightarrow> aclValueEqual n6 f b c \<Longrightarrow> aclValueEqual n6 f a c"
  by (auto simp: aclValueEqual_def EqualFold_def split: if_splits)

text \<open>The comparison of values is what \<open>go_equal\<close> asks of an \<open>Equal\<close> method.\<close>

interpretation acl_value: go_equal "aclValueEqual n6 f" for n6 f
  by unfold_locales (auto intro: aclValueEqual_sym aclValueEqual_trans)

section \<open>The plan, field by field\<close>

definition fieldDesired where
  "fieldDesired n6 spec current record peerDeclares f =
     (let have = acl_get f (Some current) in
      case acl_get f (Some spec) of
        Some want \<Rightarrow> if aclValueEqual n6 f have (Some want) then None else Some want
      | None \<Rightarrow> (case acl_get f record of
                   Some orig \<Rightarrow> if peerDeclares f \<or> aclValueEqual n6 f have (Some orig) then None else Some orig
                 | None \<Rightarrow> None))"

definition fieldBefore where
  "fieldBefore n6 spec current record neutral f =
     (let have = acl_get f (Some current) in
      case (acl_get f (Some spec), acl_get f record) of
        (Some want, None) \<Rightarrow>
          if aclValueEqual n6 f have (Some want) then None else Some (takenOver neutral f have)
      | (_, orig) \<Rightarrow> orig)"

definition fieldAfter where
  "fieldAfter n6 spec current record neutral f =
     (if acl_get f (Some spec) = None then None else fieldBefore n6 spec current record neutral f)"

lemmas field_defs = fieldDesired_def fieldBefore_def fieldAfter_def

lemma plan_loop_fields:
  assumes "distinct fs"
    and "fold (planField n6 spec current record neutral pd) fs (b, a, d, ch) = (b', a', d', ch')"
    and "\<And>f. f \<in> set fs \<Longrightarrow> acl_get f (Some b) = acl_get f record"
    and "\<And>f. f \<in> set fs \<Longrightarrow> acl_get f (Some a) = acl_get f record"
    and "\<And>f. f \<in> set fs \<Longrightarrow> acl_get f (Some d) = None"
  shows "acl_get g (Some b') = (if g \<in> set fs then fieldBefore n6 spec current record neutral g else acl_get g (Some b))
    \<and> acl_get g (Some a') = (if g \<in> set fs then fieldAfter n6 spec current record neutral g else acl_get g (Some a))
    \<and> acl_get g (Some d') = (if g \<in> set fs then fieldDesired n6 spec current record pd g else acl_get g (Some d))
    \<and> (ch' = [] \<longleftrightarrow> ch = [] \<and> (\<forall>f \<in> set fs. fieldDesired n6 spec current record pd f = None))"
  using assms
proof (induction fs arbitrary: b a d ch)
  case (Cons f fs)
  obtain b1 a1 d1 ch1 where step: "planField n6 spec current record neutral pd f (b, a, d, ch) = (b1, a1, d1, ch1)"
    by (metis prod_cases4)
  have frame: "acl_get h (Some b1) = acl_get h (Some b)" "acl_get h (Some a1) = acl_get h (Some a)"
    "acl_get h (Some d1) = acl_get h (Some d)" if "h \<noteq> f" for h
    using step that by (auto simp: planField_def Let_def split: option.splits if_splits)
  have here: "acl_get f (Some b1) = fieldBefore n6 spec current record neutral f"
    "acl_get f (Some a1) = fieldAfter n6 spec current record neutral f"
    "acl_get f (Some d1) = fieldDesired n6 spec current record pd f"
    "ch1 = [] \<longleftrightarrow> ch = [] \<and> fieldDesired n6 spec current record pd f = None"
    using step Cons.prems(3)[of f] Cons.prems(4)[of f] Cons.prems(5)[of f]
    by (auto simp: planField_def field_defs Let_def split: option.splits if_splits)
  have "f \<notin> set fs" using Cons.prems(1) by simp
  moreover have "fold (planField n6 spec current record neutral pd) fs (b1, a1, d1, ch1) = (b', a', d', ch')"
    using Cons.prems(2) step by simp
  moreover have other: "h \<noteq> f" if "h \<in> set fs" for h
    using Cons.prems(1) that by auto
  ultimately have IH: "acl_get g (Some b') = (if g \<in> set fs then fieldBefore n6 spec current record neutral g else acl_get g (Some b1))
    \<and> acl_get g (Some a') = (if g \<in> set fs then fieldAfter n6 spec current record neutral g else acl_get g (Some a1))
    \<and> acl_get g (Some d') = (if g \<in> set fs then fieldDesired n6 spec current record pd g else acl_get g (Some d1))
    \<and> (ch' = [] \<longleftrightarrow> ch1 = [] \<and> (\<forall>f \<in> set fs. fieldDesired n6 spec current record pd f = None))"
    using Cons.prems(1,3,4,5) by (intro Cons.IH) (simp_all add: frame)
  show ?case
  proof (cases "g = f")
    case True
    with IH here \<open>f \<notin> set fs\<close> show ?thesis by simp
  next
    case False
    with IH here(4) frame[OF False] show ?thesis by simp
  qed
qed simp

lemma plan_fields [simp]:
  "acl_get f (Some (pl_Desired (planListenerAcl n6 spec current record neutral pd)))
     = fieldDesired n6 spec current record pd f"
  "acl_get f (pl_RecordBefore (planListenerAcl n6 spec current record neutral pd))
     = fieldBefore n6 spec current record neutral f"
  "acl_get f (pl_RecordAfter (planListenerAcl n6 spec current record neutral pd))
     = fieldAfter n6 spec current record neutral f"
  "pl_Changes (planListenerAcl n6 spec current record neutral pd) = [] \<longleftrightarrow>
     (\<forall>f. fieldDesired n6 spec current record pd f = None)"
proof -
  obtain b a d ch where loop: "fold (planField n6 spec current record neutral pd) aclFields
      (cloneAcl record, cloneAcl record, emptyAcl, []) = (b, a, d, ch)"
    by (metis prod_cases4)
  note plan_loop_fields[OF distinct_aclFields loop, of f]
  then show
    "acl_get f (Some (pl_Desired (planListenerAcl n6 spec current record neutral pd)))
       = fieldDesired n6 spec current record pd f"
    "acl_get f (pl_RecordBefore (planListenerAcl n6 spec current record neutral pd))
       = fieldBefore n6 spec current record neutral f"
    "acl_get f (pl_RecordAfter (planListenerAcl n6 spec current record neutral pd))
       = fieldAfter n6 spec current record neutral f"
    "pl_Changes (planListenerAcl n6 spec current record neutral pd) = [] \<longleftrightarrow>
       (\<forall>f. fieldDesired n6 spec current record pd f = None)"
    using loop by (simp_all add: planListenerAcl_def)
qed

lemma acl_option_eqI:
  assumes "\<And>f. acl_get f a = acl_get f b"
    and "a = None \<or> \<not> ListenerAcl_IsEmpty a" and "b = None \<or> \<not> ListenerAcl_IsEmpty b"
  shows "a = b"
  using assms by (cases a; cases b) (auto simp: ListenerAcl_IsEmpty_iff intro: acl_eqI)

lemma RecordAfter_nil:
  "pl_RecordAfter (planListenerAcl n6 spec c rec neutral pd) = None
   \<or> \<not> ListenerAcl_IsEmpty (pl_RecordAfter (planListenerAcl n6 spec c rec neutral pd))"
  by (auto simp: planListenerAcl_def nilIfEmpty_def split: prod.splits)

section \<open>Lists of networks\<close>

definition cidr_text :: "ipv4 \<times> nat \<Rightarrow> string" where
  "cidr_text c = cidr_string (fst c) (snd c)"

definition cidr_network :: "ipv4 \<times> nat \<Rightarrow> ipv4 \<times> nat" where
  "cidr_network c = (network_of (snd c) (fst c), snd c)"

lemma cidr_text_chars: "x \<in> set (cidr_text c) \<Longrightarrow> is_digit x \<or> x = CHR ''.'' \<or> x = CHR ''/''"
proof -
  have "is_digit y" if "y \<in> set (digits_of n)" for y n
    using digits_of_digits[of n] that by (simp add: list_all_iff)
  then show "x \<in> set (cidr_text c) \<Longrightarrow> is_digit x \<or> x = CHR ''.'' \<or> x = CHR ''/''"
    by (auto simp: cidr_text_def cidr_string_def ipv4_string_def)
qed

lemma TrimSpace_no_space: "\<forall>x \<in> set s. \<not> is_space x \<Longrightarrow> TrimSpace s = s"
proof -
  have *: "dropWhile is_space xs = xs" if "\<forall>x \<in> set xs. \<not> is_space x" for xs
    using that by (cases xs) auto
  show "\<forall>x \<in> set s. \<not> is_space x \<Longrightarrow> TrimSpace s = s"
    using *[of s] *[of "rev s"] by (simp add: TrimSpace_def)
qed

lemma TrimSpace_cidr_text [simp]: "TrimSpace (cidr_text c) = cidr_text c"
proof (rule TrimSpace_no_space, rule ballI)
  fix x assume "x \<in> set (cidr_text c)"
  then have "is_digit x \<or> x = CHR ''.'' \<or> x = CHR ''/''" by (rule cidr_text_chars)
  then show "\<not> is_space x" by (auto simp: is_space_def is_digit_def)
qed

lemma cidr_text_no_comma: "CHR '','' \<notin> set (cidr_text c)"
  using cidr_text_chars[of "CHR '',''" c] by (auto simp: is_digit_def)

lemma cidr_text_not_Nil [simp]: "cidr_text c \<noteq> []"
  by (simp add: cidr_text_def cidr_string_def)

lemma canonicalCidr_cidr_text: "snd c \<le> 32 \<Longrightarrow> canonicalCidr n6 (cidr_text c) = cidr_text (cidr_network c)"
  by (simp add: canonicalCidr_def cidr_text_def cidr_network_def ParseCIDR_cidr_string)

lemma inj_cidr_text: "inj cidr_text"
  by (rule injI) (auto simp: cidr_text_def cidr_string_inject prod_eq_iff)

lemma cidrSet_Join:
  assumes "\<forall>c \<in> set cs. snd c \<le> 32"
  shows "set (cidrSet n6 (Join '','' (map cidr_text cs))) = cidr_text ` cidr_network ` set cs"
proof -
  let ?A = "set (Split CHR '','' (Join '','' (map cidr_text cs)))" and ?B = "cidr_text ` set cs"
  have "\<forall>p \<in> set (map cidr_text cs). CHR '','' \<notin> set p" by (simp add: cidr_text_no_comma)
  from set_Split_Join[OF this] have "?A - {[]} = set (map cidr_text cs) - {[]}" .
  also have "\<dots> = ?B" by auto
  finally have "?A - {[]} = ?B" .
  then have A: "\<And>p. p \<in> ?A \<Longrightarrow> p = [] \<or> p \<in> ?B" and B: "?B \<subseteq> ?A" by blast+
  have B_trim: "\<And>p. p \<in> ?B \<Longrightarrow> TrimSpace p = p \<and> p \<noteq> []" by auto
  have "TrimSpace [] = []" by (simp add: TrimSpace_def)
  have "{p \<in> TrimSpace ` ?A. p \<noteq> []} = ?B"
  proof (rule set_eqI, rule iffI)
    fix p assume "p \<in> {p \<in> TrimSpace ` ?A. p \<noteq> []}"
    then obtain q where "q \<in> ?A" "p = TrimSpace q" "p \<noteq> []" by blast
    moreover from this \<open>TrimSpace [] = []\<close> have "q \<noteq> []" by auto
    ultimately show "p \<in> ?B" using A[of q] B_trim[of q] by simp
  next
    fix p assume "p \<in> ?B"
    then have "p \<in> ?A" and p: "TrimSpace p = p" "p \<noteq> []" using B B_trim by blast+
    then have "TrimSpace p \<in> TrimSpace ` ?A" by (intro imageI)
    with p show "p \<in> {p \<in> TrimSpace ` ?A. p \<noteq> []}" by simp
  qed
  then show ?thesis
    using assms by (auto simp: cidrSet_eq image_image canonicalCidr_cidr_text)
qed

text \<open>
  ACL lists are compared as sets of networks: two comma-separated lists of IPv4 CIDRs compare
  equal exactly when they denote the same set of (network, prefix length) pairs - whatever the order,
  the repetitions and the host bits of their texts.
\<close>

theorem aclValueEqual_networks:
  assumes "f \<noteq> aclDefaultAction"
    and "\<forall>c \<in> set cs. snd c \<le> 32" and "\<forall>c \<in> set ds. snd c \<le> 32"
  shows "aclValueEqual n6 f (Some (Join '','' (map cidr_text cs))) (Some (Join '','' (map cidr_text ds)))
    \<longleftrightarrow> cidr_network ` set cs = cidr_network ` set ds"
proof -
  have "cidrSet n6 a = sorted_list_of_set (set (cidrSet n6 a))" for a
    by (simp add: cidrSet_eq)
  then have "cidrSet n6 a = cidrSet n6 b \<longleftrightarrow> set (cidrSet n6 a) = set (cidrSet n6 b)" for a b
    by metis
  with assms show ?thesis
    by (simp add: aclValueEqual_def cidrSet_Join inj_image_eq_iff[OF inj_cidr_text])
qed

definition no_net6 :: net6 where
  "no_net6 = \<lparr>net_ParseCIDR6 = (\<lambda>_. None), net_ParseMapped4 = (\<lambda>_. None)\<rparr>"

theorem aclValueEqual_networks_witness:
  "aclValueEqual no_net6 aclAllowed
     (Some (Join '','' (map cidr_text [(ipv4_of 192 0 2 1, 22), (ipv4_of 10 0 0 1, 32)])))
     (Some (Join '','' (map cidr_text [(ipv4_of 10 0 0 1, 32), (ipv4_of 192 0 3 9, 22), (ipv4_of 192 0 0 0, 22)])))"
proof -
  have "cidr_network ` set [(ipv4_of 192 0 2 1, 22), (ipv4_of 10 0 0 1, 32)]
    = cidr_network ` set [(ipv4_of 10 0 0 1, 32), (ipv4_of 192 0 3 9, 22), (ipv4_of 192 0 0 0, 22)]"
    by code_simp
  then show ?thesis
    using aclValueEqual_networks[of aclAllowed "[(ipv4_of 192 0 2 1, 22), (ipv4_of 10 0 0 1, 32)]"
        "[(ipv4_of 10 0 0 1, 32), (ipv4_of 192 0 3 9, 22), (ipv4_of 192 0 0 0, 22)]" no_net6]
    by simp
qed

section \<open>Reversibility\<close>

text \<open>
  The life of the ACL of one adopted listener that no other LBC shares: reconciles with arbitrary
  specs, cut short at any point. \<open>c\<close> is what the listener shows, \<open>rec\<close> what the status records. The
  API may echo a list back reformatted, so the listener shows something equal to what was written.
\<close>

definition echoes :: "net6 \<Rightarrow> ListenerAcl \<Rightarrow> ListenerAcl \<Rightarrow> bool" where
  "echoes n6 c' c \<longleftrightarrow> list_all (\<lambda>f. aclValueEqual n6 f (acl_get f (Some c')) (acl_get f (Some c))) aclFields"

inductive acl_reach :: "net6 \<Rightarrow> ListenerAcl \<Rightarrow> ListenerAcl \<Rightarrow> ListenerAcl option \<Rightarrow> bool" for n6 c0 where
  start: "acl_reach n6 c0 c0 None"
| before_put: "acl_reach n6 c0 c rec \<Longrightarrow> plan = planListenerAcl n6 spec c rec None (\<lambda>_. False)
    \<Longrightarrow> acl_reach n6 c0 c (pl_RecordBefore plan)"
| after_put: "acl_reach n6 c0 c rec \<Longrightarrow> plan = planListenerAcl n6 spec c rec None (\<lambda>_. False)
    \<Longrightarrow> echoes n6 c' (applyAcl (pl_Desired plan) c) \<Longrightarrow> acl_reach n6 c0 c' (pl_RecordBefore plan)"
| finish: "acl_reach n6 c0 c rec \<Longrightarrow> plan = planListenerAcl n6 spec c rec None (\<lambda>_. False)
    \<Longrightarrow> echoes n6 c' (applyAcl (pl_Desired plan) c) \<Longrightarrow> acl_reach n6 c0 c' (pl_RecordAfter plan)"

definition original_kept :: "net6 \<Rightarrow> ListenerAcl \<Rightarrow> ListenerAcl \<Rightarrow> ListenerAcl option \<Rightarrow> aclField \<Rightarrow> bool" where
  "original_kept n6 c0 c rec f \<longleftrightarrow>
     aclValueEqual n6 f (case acl_get f rec of Some v \<Rightarrow> Some v | None \<Rightarrow> acl_get f (Some c)) (acl_get f (Some c0))"

lemma echoes_field: "echoes n6 c' c \<Longrightarrow> aclValueEqual n6 f (acl_get f (Some c')) (acl_get f (Some c))"
  by (simp add: echoes_def list_all_iff)

text \<open>What is taken over is what the listener showed.\<close>

lemma takenOver_have:
  assumes "aclValueEqual n6 f have v" and "f = aclDefaultAction \<Longrightarrow> nonempty v"
  shows "aclValueEqual n6 f (Some (takenOver None f have)) v"
  using assms by (cases "have"; cases v) (auto simp: takenOver_def aclValueEqual_def)

lemma original_kept_reach:
  assumes "acl_reach n6 c0 c rec" and "nonempty (acl_DefaultAction c0)"
  shows "original_kept n6 c0 c rec f"
proof -
  have ne: "f = aclDefaultAction \<Longrightarrow> nonempty (acl_get f (Some c0))" using assms(2) by simp
  from assms(1) show ?thesis
  proof (induction)
    case start
    then show ?case by (simp add: original_kept_def)
  next
    case (before_put c rec plan spec)
    with takenOver_have[OF _ ne] show ?case
      by (auto simp: original_kept_def fieldBefore_def Let_def split: option.splits)
  next
    case (after_put c rec plan spec c')
    note e = echoes_field[OF after_put.hyps(3), of f]
    from after_put.IH after_put.hyps(2) takenOver_have[OF _ ne] e show ?case
      by (auto simp: original_kept_def fieldBefore_def fieldDesired_def Let_def
          split: option.splits if_splits intro: aclValueEqual_trans)
  next
    case (finish c rec plan spec c')
    note e = echoes_field[OF finish.hyps(3), of f]
    from finish.IH finish.hyps(2) takenOver_have[OF _ ne] e show ?case
      by (auto simp: original_kept_def field_defs Let_def
          split: option.splits if_splits intro: aclValueEqual_trans)
  qed
qed


definition ex_listener_acl :: ListenerAcl where
  "ex_listener_acl = \<lparr>acl_AllowedCidrs = Some ''0.0.0.0/0'', acl_BlockedCidrs = Some [], acl_DefaultAction = Some ''accept''\<rparr>"

definition ex_spec_acl :: ListenerAcl where
  "ex_spec_acl = \<lparr>acl_AllowedCidrs = Some ''10.1.2.3/8'', acl_BlockedCidrs = None, acl_DefaultAction = Some ''drop''\<rparr>"

definition ex_plan :: aclPlan where
  "ex_plan = planListenerAcl no_net6 ex_spec_acl ex_listener_acl None None (\<lambda>_. False)"

lemma ex_plan_changes: "length (pl_Changes ex_plan) = 2"
  unfolding ex_plan_def by code_simp


text \<open>
  The planner converges: whatever was planned, once the listener shows what was written - in
  the API's own formatting - and the record of the plan is stored, planning again with the same spec
  changes nothing.
\<close>

theorem planListenerAcl_converges:
  assumes "plan = planListenerAcl n6 spec c rec neutral peerDeclares"
    and "echoes n6 c' (applyAcl (pl_Desired plan) c)"
  shows "pl_Changes (planListenerAcl n6 spec c' (pl_RecordAfter plan) neutral peerDeclares) = []
    \<and> pl_Desired (planListenerAcl n6 spec c' (pl_RecordAfter plan) neutral peerDeclares) = emptyAcl
    \<and> pl_RecordAfter (planListenerAcl n6 spec c' (pl_RecordAfter plan) neutral peerDeclares) = pl_RecordAfter plan"
proof -
  let ?q = "planListenerAcl n6 spec c' (pl_RecordAfter plan) neutral peerDeclares"
  have d: "fieldDesired n6 spec c' (pl_RecordAfter plan) peerDeclares f = None" for f
    using echoes_field[OF assms(2), of f] assms(1)
    by (auto simp: field_defs Let_def split: option.splits if_splits intro: aclValueEqual_trans)
  have a: "acl_get f (pl_RecordAfter ?q) = acl_get f (pl_RecordAfter plan)" for f
    using d[of f] unfolding assms(1)
    by (auto simp: field_defs Let_def split: option.splits if_splits)
  have "pl_RecordAfter ?q = pl_RecordAfter plan"
    unfolding assms(1) by (rule acl_option_eqI[OF a[unfolded assms(1)] RecordAfter_nil RecordAfter_nil])
  moreover have "pl_Desired ?q = emptyAcl" by (rule acl_eqI) (simp add: d)
  ultimately show ?thesis by (simp add: d)
qed

theorem planListenerAcl_converges_witness:
  "length (pl_Changes ex_plan) = 2 \<and>
   pl_Changes (planListenerAcl no_net6 ex_spec_acl (applyAcl (pl_Desired ex_plan) ex_listener_acl)
     (pl_RecordAfter ex_plan) None (\<lambda>_. False)) = []"
  using planListenerAcl_converges[OF ex_plan_def, of "applyAcl (pl_Desired ex_plan) ex_listener_acl"]
  by (simp add: ex_plan_changes echoes_def list_all_iff)

end
