(* ===== verification/Status_Ops.thy ===== *)
theory Status_Ops
  imports Pool_Members Listener_Acl
begin

text \<open>
  The status writes of \<^verbatim>\<open>internal/usecase/lbc_uc/status.go\<close>, and \<open>neutralFallback\<close> of
  \<^verbatim>\<open>listener_acl.go\<close>, which reads the records they keep. Each write is a mutation run by
  \<open>PatchMutateStatus\<close> on a fresh copy of the object, and, where the source mirrors it, an update of the
  in-memory copy \<open>lbStatus\<close>.

  The records are lists keyed by id (the CRD declares them map-lists, so the API server refuses a
  status with an empty or repeated id). \<open>wf_created\<close> is that rule; the mutations keep it.
\<close>

section \<open>Keyed lists\<close>

primrec updateFirst :: "('a \<Rightarrow> bool) \<Rightarrow> ('a \<Rightarrow> 'a) \<Rightarrow> 'a list \<Rightarrow> 'a list" where
  "updateFirst P f [] = []"
| "updateFirst P f (x # xs) = (if P x then f x # xs else x # updateFirst P f xs)"

lemma updateFirst_map: "(\<And>x. P x \<Longrightarrow> g (f x) = g x) \<Longrightarrow> map g (updateFirst P f xs) = map g xs"
  by (induction xs) auto

lemma set_updateFirst: "set (updateFirst P f xs) \<subseteq> set xs \<union> f ` {x \<in> set xs. P x}"
  by (induction xs) auto

lemma updateFirst_id: "find P xs = None \<Longrightarrow> updateFirst P f xs = xs"
  by (induction xs) (auto split: if_splits)

lemma updateFirst_mem: "find P xs = Some x \<Longrightarrow> f x \<in> set (updateFirst P f xs)"
  by (induction xs) (auto split: if_splits)

lemma find_key_None_iff: "find (\<lambda>x. g x = k) xs = None \<longleftrightarrow> k \<notin> g ` set xs"
  by (auto simp: find_None_iff)

lemma find_key_SomeD: "find (\<lambda>x. g x = k) xs = Some x \<Longrightarrow> x \<in> set xs \<and> g x = k"
  by (auto simp: find_Some_iff)

section \<open>Records\<close>

definition newCreatedListener :: "string \<Rightarrow> int \<Rightarrow> CreatedListener" where
  "newCreatedListener listenerId port =
     \<lparr>cl_Id = listenerId, cl_Port = port, cl_CreatedPolicies = [], cl_Adopted = False,
      cl_OriginalDefaultPoolId = None, cl_OriginalAcl = None\<rparr>"

definition newAdoptedListener :: "string \<Rightarrow> int \<Rightarrow> string \<Rightarrow> CreatedListener" where
  "newAdoptedListener listenerId port originalDefaultPoolId =
     (newCreatedListener listenerId port)
       \<lparr>cl_Adopted := True,
        cl_OriginalDefaultPoolId := (if originalDefaultPoolId \<noteq> [] then Some originalDefaultPoolId else None)\<rparr>"

definition loadBalancerIsOurs :: "LoadBalancerConfigSpec \<Rightarrow> LoadBalancerConfigStatus \<Rightarrow> bool" where
  "loadBalancerIsOurs spec status =
     (let lbId = deref (ss_LoadBalancerId status);
          matches = (\<lambda>p. case p of None \<Rightarrow> False | Some v \<Rightarrow> v = lbId \<or> lbId = [])
      in if matches (ss_CreatedLoadBalancerId status) then True
         else if matches (ss_AdoptedLoadBalancerId status) then False
         else \<not> nonempty (sp_LoadBalancerId spec))"

definition neutralFallback :: "task \<Rightarrow> LoadBalancerConfigStatus \<Rightarrow> string \<Rightarrow> ListenerAcl option" where
  "neutralFallback t status listenerId =
     (if \<not> loadBalancerIsOurs (t_Spec t) status then None
      else if list_ex (\<lambda>l. cl_Id l = listenerId \<and> \<not> cl_Adopted l) (ss_CreatedListeners status)
           then neutralAcl \<lparr>acl_AllowedCidrs = Some [], acl_BlockedCidrs = Some [], acl_DefaultAction = Some []\<rparr>
                  (DefaultAllowedCidrs (cfg_LoadBalancerOpts (t_cfg t)))
           else None)"

definition originalAclOf :: "LoadBalancerConfigStatus \<Rightarrow> string \<Rightarrow> ListenerAcl option" where
  "originalAclOf status listenerId =
     (case find (\<lambda>l. cl_Id l = listenerId) (ss_CreatedListeners status) of
        Some l \<Rightarrow> cl_OriginalAcl l | None \<Rightarrow> None)"

text \<open>The loop that mirrors one decided entry into the in-memory copy.\<close>

definition mirrorListener :: "CreatedListener \<Rightarrow> LoadBalancerConfigStatus \<Rightarrow> LoadBalancerConfigStatus" where
  "mirrorListener decided s =
     s\<lparr>ss_CreatedListeners :=
        (if list_ex (\<lambda>l. cl_Id l = cl_Id decided) (ss_CreatedListeners s)
         then updateFirst (\<lambda>l. cl_Id l = cl_Id decided) (\<lambda>_. decided) (ss_CreatedListeners s)
         else ss_CreatedListeners s @ [decided])\<rparr>"

section \<open>Mutations\<close>

definition mutAddListener :: "string \<Rightarrow> int \<Rightarrow> ListenerAcl option \<Rightarrow> CreatedListener mutation" where
  "mutAddListener listenerId port originalAcl = (\<lambda>obj.
     let s = lbc_Status obj in
     case find (\<lambda>l. cl_Id l = listenerId) (ss_CreatedListeners s) of
       Some l \<Rightarrow>
         let c1 = (cl_Port l \<noteq> port);
             l1 = (if c1 then l\<lparr>cl_Port := port\<rparr> else l);
             c2 = (cl_OriginalAcl l1 = None \<and> originalAcl \<noteq> None);
             l2 = (if c2 then l1\<lparr>cl_OriginalAcl := originalAcl\<rparr> else l1)
         in (c1 \<or> c2,
             obj\<lparr>lbc_Status := s\<lparr>ss_CreatedListeners :=
               updateFirst (\<lambda>l. cl_Id l = listenerId) (\<lambda>_. l2) (ss_CreatedListeners s)\<rparr>\<rparr>,
             l2)
     | None \<Rightarrow>
         let decided = (newCreatedListener listenerId port)\<lparr>cl_OriginalAcl := originalAcl\<rparr>
         in (True, obj\<lparr>lbc_Status := s\<lparr>ss_CreatedListeners := ss_CreatedListeners s @ [decided]\<rparr>\<rparr>, decided))"

definition mutSetOriginalAcl :: "string \<Rightarrow> ListenerAcl option \<Rightarrow> bool mutation" where
  "mutSetOriginalAcl listenerId rec = (\<lambda>obj.
     let s = lbc_Status obj in
     if list_ex (\<lambda>l. cl_Id l = listenerId) (ss_CreatedListeners s)
     then (True,
           obj\<lparr>lbc_Status := s\<lparr>ss_CreatedListeners :=
             updateFirst (\<lambda>l. cl_Id l = listenerId) (\<lambda>l. l\<lparr>cl_OriginalAcl := rec\<rparr>) (ss_CreatedListeners s)\<rparr>\<rparr>,
           True)
     else (False, obj, False))"

text \<open>
  \<open>statusAdoptListener\<close>'s mutation: \<open>isOurs\<close> is \<open>t.loadBalancerIsOurs()\<close>, \<open>neutral\<close> the original ACL of
  the first spec listener on the port, both taken from the in-memory object.
\<close>

definition mutAdoptListener :: "bool \<Rightarrow> ListenerAcl option \<Rightarrow> string \<Rightarrow> int \<Rightarrow> string \<Rightarrow> CreatedListener mutation" where
  "mutAdoptListener isOurs neutral listenerId port originalDefaultPoolId = (\<lambda>obj.
     let s = lbc_Status obj in
     case find (\<lambda>l. cl_Id l = listenerId) (ss_CreatedListeners s) of
       Some l \<Rightarrow>
         if cl_Port l \<noteq> port
         then let l1 = l\<lparr>cl_Port := port\<rparr>
              in (True,
                  obj\<lparr>lbc_Status := s\<lparr>ss_CreatedListeners :=
                    updateFirst (\<lambda>l. cl_Id l = listenerId) (\<lambda>_. l1) (ss_CreatedListeners s)\<rparr>\<rparr>,
                  l1)
         else (False, obj, l)
     | None \<Rightarrow>
         let decided = (if isOurs then (newCreatedListener listenerId port)\<lparr>cl_OriginalAcl := neutral\<rparr>
                        else newAdoptedListener listenerId port originalDefaultPoolId)
         in (True, obj\<lparr>lbc_Status := s\<lparr>ss_CreatedListeners := ss_CreatedListeners s @ [decided]\<rparr>\<rparr>, decided))"

definition mutAddPolicy :: "string \<Rightarrow> int \<Rightarrow> string \<Rightarrow> unit mutation" where
  "mutAddPolicy listenerId port policyId = statusMut (\<lambda>s.
     if list_ex (\<lambda>l. cl_Id l = listenerId \<and> cl_Port l = port
                   \<and> list_ex (\<lambda>p. cpol_Id p = policyId) (cl_CreatedPolicies l)) (ss_CreatedListeners s)
     then (False, s)
     else case find (\<lambda>l. cl_Id l = listenerId) (ss_CreatedListeners s) of
       Some l \<Rightarrow>
         let l1 = l\<lparr>cl_Port := port\<rparr>;
             upd = (\<lambda>x. s\<lparr>ss_CreatedListeners :=
                           updateFirst (\<lambda>l. cl_Id l = listenerId) (\<lambda>_. x) (ss_CreatedListeners s)\<rparr>)
         in if list_ex (\<lambda>p. cpol_Id p = policyId) (cl_CreatedPolicies l) then (False, upd l1)
            else (True, upd (l1\<lparr>cl_CreatedPolicies := cl_CreatedPolicies l @ [\<lparr>cpol_Id = policyId\<rparr>]\<rparr>))
     | None \<Rightarrow>
         (True, s\<lparr>ss_CreatedListeners := ss_CreatedListeners s
                    @ [(newCreatedListener listenerId port)\<lparr>cl_CreatedPolicies := [\<lparr>cpol_Id = policyId\<rparr>]\<rparr>]\<rparr>))"

definition mutAddPool :: "string \<Rightarrow> string \<Rightarrow> unit mutation" where
  "mutAddPool poolId name = statusMut (\<lambda>s.
     if list_ex (\<lambda>p. cp_Id p = poolId \<and> cp_Name p = name) (ss_CreatedPools s) then (False, s)
     else if list_ex (\<lambda>p. cp_Id p = poolId) (ss_CreatedPools s)
     then (True, s\<lparr>ss_CreatedPools :=
            updateFirst (\<lambda>p. cp_Id p = poolId) (\<lambda>p. p\<lparr>cp_Name := name\<rparr>) (ss_CreatedPools s)\<rparr>)
     else (True, s\<lparr>ss_CreatedPools := ss_CreatedPools s @ [\<lparr>cp_Id = poolId, cp_Name = name, cp_CreatedMembers = []\<rparr>]\<rparr>))"

definition mutAddPoolMember :: "string \<Rightarrow> string \<Rightarrow> PoolMember list \<Rightarrow> unit mutation" where
  "mutAddPoolMember poolId name members = statusMut (\<lambda>s.
     if list_ex (\<lambda>p. cp_Id p = poolId \<and> cp_Name p = name
                   \<and> comparePoolMembers (cp_CreatedMembers p) members) (ss_CreatedPools s) then (False, s)
     else if list_ex (\<lambda>p. cp_Id p = poolId) (ss_CreatedPools s)
     then (True, s\<lparr>ss_CreatedPools :=
            updateFirst (\<lambda>p. cp_Id p = poolId) (\<lambda>p. p\<lparr>cp_Name := name, cp_CreatedMembers := members\<rparr>)
              (ss_CreatedPools s)\<rparr>)
     else (True, s\<lparr>ss_CreatedPools := ss_CreatedPools s @ [\<lparr>cp_Id = poolId, cp_Name = name, cp_CreatedMembers = members\<rparr>]\<rparr>))"

section \<open>Operations\<close>

definition statusAddListener :: "task \<Rightarrow> string \<Rightarrow> int \<Rightarrow> ListenerAcl option \<Rightarrow> unit M" where
  "statusAddListener t listenerId port originalAcl =
     (if listenerId = [] then failM (ErrorString ''listener has no id after create, need to retry'')
      else andThen (PatchMutateStatus t (mutAddListener listenerId port originalAcl))
             (\<lambda>decided. modStatus (mirrorListener decided)))"

definition statusSetOriginalAcl :: "task \<Rightarrow> string \<Rightarrow> ListenerAcl option \<Rightarrow> unit M" where
  "statusSetOriginalAcl t listenerId rec =
     andThen (getS lbStatus) (\<lambda>status.
       if ListenerAcl_Equal (originalAclOf status listenerId) rec then returnM ()
       else andThen (PatchMutateStatus t (mutSetOriginalAcl listenerId rec)) (\<lambda>found.
         if \<not> found then failM (ErrorString (''listener '' @ listenerId @ '' not in status, need to retry''))
         else modStatus (\<lambda>s. s\<lparr>ss_CreatedListeners :=
                map (\<lambda>l. if cl_Id l = listenerId then l\<lparr>cl_OriginalAcl := rec\<rparr> else l) (ss_CreatedListeners s)\<rparr>)))"

definition statusAdoptListener :: "task \<Rightarrow> string \<Rightarrow> int \<Rightarrow> string \<Rightarrow> unit M" where
  "statusAdoptListener t listenerId port originalDefaultPoolId =
     (if listenerId = [] then failM (ErrorString ''listener has no id after create, need to retry'')
      else andThen (getS lbStatus) (\<lambda>status.
        let neutral = (case find (\<lambda>ls. lis_ProtocolPort ls = port) (sp_Listeners (t_Spec t)) of
                         Some ls \<Rightarrow> neutralAcl (specAcl ls) (DefaultAllowedCidrs (cfg_LoadBalancerOpts (t_cfg t)))
                       | None \<Rightarrow> None)
        in andThen (PatchMutateStatus t
                      (mutAdoptListener (loadBalancerIsOurs (t_Spec t) status) neutral listenerId port originalDefaultPoolId))
             (\<lambda>decided. modStatus (mirrorListener decided))))"

definition statusAddPolicy :: "task \<Rightarrow> string \<Rightarrow> int \<Rightarrow> string \<Rightarrow> unit M" where
  "statusAddPolicy t listenerId port policyId =
     (if policyId = [] then failM (ErrorString ''policy has no id after create, need to retry'')
      else PatchMutateStatus t (mutAddPolicy listenerId port policyId))"

definition statusAddPool :: "task \<Rightarrow> string \<Rightarrow> string \<Rightarrow> unit M" where
  "statusAddPool t poolId name =
     (if poolId = [] then failM (ErrorString ''pool has no id after create, need to retry'')
      else PatchMutateStatus t (mutAddPool poolId name))"

definition statusAddPoolMember :: "task \<Rightarrow> string \<Rightarrow> string \<Rightarrow> PoolMember list \<Rightarrow> unit M" where
  "statusAddPoolMember t poolId name members = PatchMutateStatus t (mutAddPoolMember poolId name members)"

definition statusAddLoadBalancerId :: "task \<Rightarrow> string option \<Rightarrow> string option \<Rightarrow> unit M" where
  "statusAddLoadBalancerId t lbId address =
     PatchMutateStatus t (statusMut (\<lambda>s.
       if ss_LoadBalancerId s = lbId \<and> ss_Address s = address then (False, s)
       else (True, s\<lparr>ss_LoadBalancerId := lbId, ss_Address := address\<rparr>)))"

definition statusSetCreatedLoadBalancerId :: "task \<Rightarrow> string \<Rightarrow> unit M" where
  "statusSetCreatedLoadBalancerId t lbId =
     andThen (PatchMutateStatus t (statusMut (\<lambda>s.
       if ss_CreatedLoadBalancerId s = Some lbId then (False, s)
       else (True, s\<lparr>ss_CreatedLoadBalancerId := Some lbId\<rparr>))))
       (\<lambda>_. modStatus (\<lambda>s. s\<lparr>ss_CreatedLoadBalancerId := Some lbId\<rparr>))"

definition statusSetAdoptedLoadBalancerId :: "task \<Rightarrow> string \<Rightarrow> unit M" where
  "statusSetAdoptedLoadBalancerId t lbId =
     andThen (PatchMutateStatus t (statusMut (\<lambda>s.
       if ss_AdoptedLoadBalancerId s = Some lbId then (False, s)
       else (True, s\<lparr>ss_AdoptedLoadBalancerId := Some lbId\<rparr>))))
       (\<lambda>_. modStatus (\<lambda>s. s\<lparr>ss_AdoptedLoadBalancerId := Some lbId\<rparr>))"

definition statusSetRetiringLoadBalancer :: "task \<Rightarrow> RetiringLoadBalancer option \<Rightarrow> unit M" where
  "statusSetRetiringLoadBalancer t retiring =
     andThen (PatchMutateStatus t (statusMut (\<lambda>s.
       if ss_RetiringLoadBalancer s = None \<and> retiring = None then (False, s)
       else (True, s\<lparr>ss_RetiringLoadBalancer := retiring\<rparr>))))
       (\<lambda>_. modStatus (\<lambda>s. s\<lparr>ss_RetiringLoadBalancer := retiring\<rparr>))"

definition statusAddCreatedTags :: "task \<Rightarrow> gomap \<Rightarrow> unit M" where
  "statusAddCreatedTags t tags =
     PatchMutateStatus t (statusMut (\<lambda>s.
       if maps_Equal (ss_CreatedTags s) tags then (False, s)
       else (True, s\<lparr>ss_CreatedTags := tags\<rparr>)))"

definition statusClearCreatedResources :: "task \<Rightarrow> unit M" where
  "statusClearCreatedResources t =
     andThen (PatchMutateStatus t (statusMut (\<lambda>s.
       if ss_CreatedListeners s = [] \<and> ss_CreatedPools s = [] \<and> ss_CreatedTags s = [] then (False, s)
       else (True, s\<lparr>ss_CreatedListeners := [], ss_CreatedPools := [], ss_CreatedTags := []\<rparr>))))
       (\<lambda>_. modStatus (\<lambda>s. s\<lparr>ss_CreatedListeners := [], ss_CreatedPools := [], ss_CreatedTags := []\<rparr>))"

definition createdPoolsEqual :: "CreatedPool list \<Rightarrow> CreatedPool list \<Rightarrow> bool" where
  "createdPoolsEqual a b \<longleftrightarrow> length a = length b \<and> list_all (\<lambda>x. list_ex (CreatedPool_Equal x) b) a"

definition createdListenersEqual :: "CreatedListener list \<Rightarrow> CreatedListener list \<Rightarrow> bool" where
  "createdListenersEqual a b \<longleftrightarrow> length a = length b \<and> list_all (\<lambda>x. list_ex (CreatedListener_Equal x) b) a"

definition createdCertificatesEqual :: "CreatedCertificate list \<Rightarrow> CreatedCertificate list \<Rightarrow> bool" where
  "createdCertificatesEqual a b \<longleftrightarrow> length a = length b \<and> list_all (\<lambda>x. list_ex (CreatedCertificate_Equal x) b) a"

lemmas status_op_defs =
  statusAddListener_def statusSetOriginalAcl_def statusAdoptListener_def statusAddPolicy_def
  statusAddPool_def statusAddPoolMember_def statusAddLoadBalancerId_def statusSetCreatedLoadBalancerId_def
  statusSetAdoptedLoadBalancerId_def statusSetRetiringLoadBalancer_def statusAddCreatedTags_def
  statusClearCreatedResources_def

lemmas mutation_defs =
  mutAddListener_def mutSetOriginalAcl_def mutAdoptListener_def mutAddPolicy_def mutAddPool_def
  mutAddPoolMember_def statusMut_def

section \<open>What the status writes call\<close>

text \<open>
  A status write calls the Kubernetes API on the task's own object and nothing else. \<open>own_status P t\<close>
  says that a trace predicate allows those calls.
\<close>

definition own_status :: "(history \<Rightarrow> event \<Rightarrow> bool) \<Rightarrow> task \<Rightarrow> bool" where
  "own_status P t \<longleftrightarrow>
     (\<forall>h r. P h (EvGetLBC (om_Namespace (t_Meta t)) (om_Name (t_Meta t)) r))
     \<and> (\<forall>h obj obj' r. P h (EvPatchStatus obj obj' r))"

lemma safe_emits_Patch [safe_intro]: "own_status P t \<Longrightarrow> safe (emitsR P) (PatchMutateStatus t mutate) s"
  by (auto simp: own_status_def intro: safe_emits_PatchMutateStatus)

lemma safe_emits_status_ops [safe_intro]:
  assumes "own_status P t"
  shows "safe (emitsR P) (statusAddListener t i p a) s"
    "safe (emitsR P) (statusSetOriginalAcl t i a) s"
    "safe (emitsR P) (statusAdoptListener t i p d) s"
    "safe (emitsR P) (statusAddPolicy t i p q) s"
    "safe (emitsR P) (statusAddPool t i n) s"
    "safe (emitsR P) (statusAddPoolMember t i n ms) s"
    "safe (emitsR P) (statusAddLoadBalancerId t l ad) s"
    "safe (emitsR P) (statusSetCreatedLoadBalancerId t i) s"
    "safe (emitsR P) (statusSetAdoptedLoadBalancerId t i) s"
    "safe (emitsR P) (statusSetRetiringLoadBalancer t r) s"
    "safe (emitsR P) (statusAddCreatedTags t m) s"
    "safe (emitsR P) (statusClearCreatedResources t) s"
  unfolding status_op_defs
  by (intro safe_intro safe_emits_Patch[OF assms])+

section \<open>Keyed by id\<close>

definition wf_policies :: "CreatedPolicy list \<Rightarrow> bool" where
  "wf_policies ps \<longleftrightarrow> distinct (map cpol_Id ps) \<and> [] \<notin> set (map cpol_Id ps)"

definition wf_created :: "LoadBalancerConfigStatus \<Rightarrow> bool" where
  "wf_created s \<longleftrightarrow>
     distinct (map cl_Id (ss_CreatedListeners s)) \<and> [] \<notin> set (map cl_Id (ss_CreatedListeners s))
     \<and> distinct (map cp_Id (ss_CreatedPools s)) \<and> [] \<notin> set (map cp_Id (ss_CreatedPools s))
     \<and> list_all (\<lambda>l. wf_policies (cl_CreatedPolicies l)) (ss_CreatedListeners s)"

text \<open>\<open>patches Q\<close>: every status patch in the trace goes from an object to one related by \<open>Q\<close>.\<close>

definition patches :: "(LoadBalancerConfig \<Rightarrow> LoadBalancerConfig \<Rightarrow> bool) \<Rightarrow> history \<Rightarrow> event \<Rightarrow> bool" where
  "patches Q h e = (case e of EvPatchStatus obj obj' r \<Rightarrow> Q obj obj' | _ \<Rightarrow> True)"

lemma safe_patches:
  assumes "\<And>obj obj' d. mutate obj = (True, obj', d) \<Longrightarrow> Q obj obj'"
  shows "safe (emitsR (patches Q)) (PatchMutateStatus t mutate) s"
  unfolding PatchMutateStatus_def
  by (rule safe_emits_patchMutateStatusObject) (auto simp: patches_def dest: assms)

definition keeps_wf :: "LoadBalancerConfig \<Rightarrow> LoadBalancerConfig \<Rightarrow> bool" where
  "keeps_wf obj obj' \<longleftrightarrow> (wf_created (lbc_Status obj) \<longrightarrow> wf_created (lbc_Status obj'))"

lemma wf_replaceListener:
  assumes "wf_created s" and "cl_Id l = i"
    and "wf_policies (cl_CreatedPolicies l)"
  shows "wf_created (s\<lparr>ss_CreatedListeners := updateFirst (\<lambda>l. cl_Id l = i) (\<lambda>_. l) (ss_CreatedListeners s)\<rparr>)"
proof -
  have "map cl_Id (updateFirst (\<lambda>l. cl_Id l = i) (\<lambda>_. l) (ss_CreatedListeners s)) = map cl_Id (ss_CreatedListeners s)"
    using assms(2) by (intro updateFirst_map) simp
  moreover have "\<forall>x \<in> set (updateFirst (\<lambda>l. cl_Id l = i) (\<lambda>_. l) (ss_CreatedListeners s)). x = l \<or> x \<in> set (ss_CreatedListeners s)"
    using set_updateFirst[of "\<lambda>l. cl_Id l = i" "\<lambda>_. l" "ss_CreatedListeners s"] by auto
  ultimately show ?thesis
    using assms(1,3) unfolding wf_created_def list_all_iff by simp metis
qed

lemma wf_addListener:
  assumes "wf_created s" and "cl_Id l \<noteq> []" and "find (\<lambda>x. cl_Id x = cl_Id l) (ss_CreatedListeners s) = None"
    and "wf_policies (cl_CreatedPolicies l)"
  shows "wf_created (s\<lparr>ss_CreatedListeners := ss_CreatedListeners s @ [l]\<rparr>)"
  using assms by (auto simp: wf_created_def find_key_None_iff)

lemma wf_policies_simps [simp]:
  "wf_policies []" "wf_policies [\<lparr>cpol_Id = q\<rparr>] \<longleftrightarrow> q \<noteq> []"
  "wf_policies (ps @ [\<lparr>cpol_Id = q\<rparr>]) \<longleftrightarrow>
     wf_policies ps \<and> q \<noteq> [] \<and> \<not> list_ex (\<lambda>p. cpol_Id p = q) ps"
  by (auto simp: wf_policies_def list_ex_iff image_iff)

lemma wf_policies_of:
  "wf_created s \<Longrightarrow> l \<in> set (ss_CreatedListeners s) \<Longrightarrow>
     wf_policies (cl_CreatedPolicies l)"
  by (simp add: wf_created_def list_all_iff)

lemmas wf_listener_intros = wf_replaceListener wf_addListener

lemma mutAddListener_wf:
  "i \<noteq> [] \<Longrightarrow> mutAddListener i p a obj = (c, obj', d) \<Longrightarrow> keeps_wf obj obj'"
  unfolding keeps_wf_def
  by (auto simp: mutAddListener_def Let_def newCreatedListener_def
      split: option.splits if_splits dest!: find_key_SomeD intro!: wf_listener_intros; erule (1) wf_policies_of)+

lemma mutAdoptListener_wf:
  "i \<noteq> [] \<Longrightarrow> mutAdoptListener b n i p d obj = (c, obj', x) \<Longrightarrow> keeps_wf obj obj'"
  unfolding keeps_wf_def
  by (auto simp: mutAdoptListener_def Let_def newCreatedListener_def newAdoptedListener_def
      split: option.splits if_splits dest!: find_key_SomeD intro!: wf_listener_intros; erule (1) wf_policies_of)+

lemma mutAddPolicy_wf:
  "i \<noteq> [] \<Longrightarrow> q \<noteq> [] \<Longrightarrow> mutAddPolicy i p q obj = (c, obj', x) \<Longrightarrow> keeps_wf obj obj'"
  unfolding keeps_wf_def
  by (auto simp: mutAddPolicy_def statusMut_def Let_def newCreatedListener_def
      split: option.splits if_splits dest!: find_key_SomeD intro!: wf_listener_intros; erule (1) wf_policies_of)+

lemma wf_updatePool:
  assumes "wf_created s" and "\<And>p. cp_Id p = i \<Longrightarrow> cp_Id (f p) = i"
  shows "wf_created (s\<lparr>ss_CreatedPools := updateFirst (\<lambda>p. cp_Id p = i) f (ss_CreatedPools s)\<rparr>)"
proof -
  have "map cp_Id (updateFirst (\<lambda>p. cp_Id p = i) f (ss_CreatedPools s)) = map cp_Id (ss_CreatedPools s)"
    using assms(2) by (intro updateFirst_map) simp
  with assms(1) show ?thesis by (simp add: wf_created_def)
qed

lemma wf_addPool:
  "wf_created s \<Longrightarrow> cp_Id p \<noteq> [] \<Longrightarrow> \<not> list_ex (\<lambda>x. cp_Id x = cp_Id p) (ss_CreatedPools s)
   \<Longrightarrow> wf_created (s\<lparr>ss_CreatedPools := ss_CreatedPools s @ [p]\<rparr>)"
  by (auto simp: wf_created_def list_ex_iff image_iff)

lemma mutAddPool_wf: "i \<noteq> [] \<Longrightarrow> mutAddPool i n obj = (c, obj', x) \<Longrightarrow> keeps_wf obj obj'"
  unfolding keeps_wf_def
  by (auto simp: mutAddPool_def statusMut_def split: if_splits
      intro!: wf_addPool wf_updatePool)

lemma mutAddPoolMember_wf: "i \<noteq> [] \<Longrightarrow> mutAddPoolMember i n ms obj = (c, obj', x) \<Longrightarrow> keeps_wf obj obj'"
  unfolding keeps_wf_def
  by (auto simp: mutAddPoolMember_def statusMut_def split: if_splits
      intro!: wf_addPool wf_updatePool)



text \<open>
  The guard \<open>statusAddPool\<close> has against an unnamed pool is missing where a pool has just been created:
  \<open>statusAddPoolMember\<close> records an empty id, which the map-list of the CRD does not allow.
\<close>

theorem statusAddPoolMember_records_empty_id:
  "\<exists>obj'. mutAddPoolMember [] name members (\<lparr>lbc_Meta = m, lbc_Spec = sp, lbc_Status = ex_status\<rparr>) = (True, obj', ())
     \<and> wf_created ex_status \<and> \<not> wf_created (lbc_Status obj')"
  by (simp add: mutAddPoolMember_def statusMut_def ex_status_def wf_created_def)

section \<open>Adoption is decided once\<close>

text \<open>
  What decides later whether a listener may be deleted, and what it is put back to: the adopted flag,
  the original default pool and the original ACL.
\<close>

definition adoption_of :: "CreatedListener \<Rightarrow> bool \<times> string option \<times> ListenerAcl option" where
  "adoption_of l = (cl_Adopted l, cl_OriginalDefaultPoolId l, cl_OriginalAcl l)"

definition keeps_adoption :: "bool \<Rightarrow> string \<Rightarrow> LoadBalancerConfig \<Rightarrow> LoadBalancerConfig \<Rightarrow> bool" where
  "keeps_adoption isOurs i obj obj' \<longleftrightarrow>
     (\<exists>new. map (\<lambda>l. (cl_Id l, adoption_of l)) (ss_CreatedListeners (lbc_Status obj'))
            = map (\<lambda>l. (cl_Id l, adoption_of l)) (ss_CreatedListeners (lbc_Status obj) @ new)
          \<and> (\<forall>l \<in> set new. cl_Id l = i \<and> cl_Adopted l = (\<not> isOurs)
               \<and> i \<notin> cl_Id ` set (ss_CreatedListeners (lbc_Status obj))))"

lemma map_replace_find:
  "find P xs = Some x \<Longrightarrow> g y = g x \<Longrightarrow> map g (updateFirst P (\<lambda>_. y) xs) = map g xs"
  by (induction xs) (auto split: if_splits)

text \<open>
  Whether a listener is adopted is decided on first sight, from the object the API server holds,
  and never again: every patch \<open>statusAdoptListener\<close> makes leaves the adopted flag, the original
  default pool and the original ACL of every recorded listener as they were, and adds at most an
  entry for this listener when there is none, marked adopted exactly when the load balancer is not
  this cluster's own.
\<close>

theorem statusAdoptListener_decides_once:
  "safe (emitsR (patches (keeps_adoption (loadBalancerIsOurs (t_Spec t) (lbStatus s)) listenerId)))
     (statusAdoptListener t listenerId port originalDefaultPoolId) s"
proof -
  have mut: "keeps_adoption b i obj obj'" if "mutAdoptListener b n i p d obj = (True, obj', x)" for b n i p d obj obj' x
  proof (cases "find (\<lambda>l. cl_Id l = i) (ss_CreatedListeners (lbc_Status obj))")
    case None
    with that show ?thesis
      by (auto simp: mutAdoptListener_def Let_def keeps_adoption_def find_key_None_iff
          newCreatedListener_def newAdoptedListener_def intro: exI[of _ "[_]"])
  next
    case (Some l)
    with that have "obj' = obj\<lparr>lbc_Status := lbc_Status obj\<lparr>ss_CreatedListeners :=
        updateFirst (\<lambda>l. cl_Id l = i) (\<lambda>_. l\<lparr>cl_Port := p\<rparr>) (ss_CreatedListeners (lbc_Status obj))\<rparr>\<rparr>"
      by (auto simp: mutAdoptListener_def Let_def split: if_splits)
    with map_replace_find[OF Some, of "\<lambda>l. (cl_Id l, adoption_of l)" "l\<lparr>cl_Port := p\<rparr>"] show ?thesis
      by (auto simp: keeps_adoption_def adoption_of_def intro: exI[of _ "[]"])
  qed
  show ?thesis
    unfolding statusAdoptListener_def
    by (intro safe_intro safe_patches) (auto dest: mut)
qed

end
