(* ===== verification/Tags.thy ===== *)
theory Tags
  imports Status_Ops
begin

text \<open>
  Load balancer tags: \<^verbatim>\<open>internal/usecase/lbc_uc/deploy_tag.go\<close> and \<^verbatim>\<open>delete_tag.go\<close>.

  The tag API replaces the whole tag set of a load balancer that other clusters and the portal also
  tag, so the theorems are about what a write must carry over, and about the read it is computed
  from. \<open>ensureTags\<close> takes the source's closure \<open>computeTags\<close> as an argument; the variables such a
  closure captures and updates (the memo of \<open>deleteRedundantTagsFrom\<close>) are passed through it as \<open>'m\<close>.
\<close>

section \<open>Values\<close>

definition isValidVksId :: "string \<Rightarrow> bool" where
  "isValidVksId i \<longleftrightarrow> length i = VKS_CLUSTER_ID_LENGTH \<and> HasPrefix i VKS_CLUSTER_ID_PREFIX"

definition joinTagValue :: "string \<Rightarrow> string \<Rightarrow> char \<Rightarrow> string" where
  "joinTagValue current value separator =
     (let values = remdups (filter (\<lambda>v. v \<noteq> []) (Split separator current) @ (if value \<noteq> [] then [value] else []))
      in Join [separator] (sort values))"

definition removeTagValue :: "string \<Rightarrow> string \<Rightarrow> char \<Rightarrow> string" where
  "removeTagValue current value separator =
     Join [separator] (sort (filter (\<lambda>v. v \<noteq> [] \<and> v \<noteq> value) (Split separator current)))"

definition tagsToMap :: "entity_Tag option list \<Rightarrow> gomap" where
  "tagsToMap listTags =
     fold (\<lambda>tag m. case tag of
              None \<Rightarrow> m
            | Some tg \<Rightarrow> if tag_SystemTag tg then m else AList.update (tag_Key tg) (tag_Value tg) m)
       listTags []"

text \<open>The length rule for keys and values.\<close>

definition tagLenOk :: "string \<Rightarrow> bool" where
  "tagLenOk x \<longleftrightarrow> 3 \<le> length x \<and> length x \<le> 255"

definition mergeTag :: "string \<times> string \<Rightarrow> gomap \<Rightarrow> gomap" where
  "mergeTag kv m = (if tagLenOk (fst kv) \<and> tagLenOk (snd kv) then AList.update (fst kv) (snd kv) m else m)"

definition mergedTags :: "gomap \<Rightarrow> gomap \<Rightarrow> gomap \<Rightarrow> gomap" where
  "mergedTags currentTags oldTags newTags =
     fold mergeTag newTags (delete_keys oldTags (fold mergeTag currentTags []))"

definition buildTag :: "gomap \<Rightarrow> gomap \<Rightarrow> gomap \<Rightarrow> bool \<times> gomap" where
  "buildTag currentTags oldTags newTags =
     (let mergeTags = mergedTags currentTags oldTags newTags;
          differ = list_ex (\<lambda>(k, v). \<not> EqualFold (map_get currentTags k) v) mergeTags;
          isNeedUpdate = (differ \<or> \<not> has_key mergeTags ClusterTagKey \<and> has_key currentTags ClusterTagKey)
      in if \<not> isNeedUpdate then (False, [])
         else if mergeTags = [] then (False, [])
         else (True, mergeTags))"

section \<open>Who created a load balancer\<close>

definition createdByThisCluster ::
  "LoadBalancerConfigSpec \<Rightarrow> LoadBalancerConfigStatus \<Rightarrow> string \<Rightarrow> gomap \<Rightarrow> bool" where
  "createdByThisCluster spec status lbId currentTags =
     (case map_of currentTags CreatedByClusterTagKey of
        Some createdBy \<Rightarrow> sp_ClusterId spec = Some createdBy
      | None \<Rightarrow>
        if ss_CreatedLoadBalancerId status = Some lbId then True
        else if ss_AdoptedLoadBalancerId status = Some lbId then False
        else \<not> nonempty (sp_LoadBalancerId spec))"

text \<open>The loop of \<open>loadBalancerHasOtherLBC\<close>.\<close>

definition usedByOther :: "task \<Rightarrow> string \<Rightarrow> LoadBalancerConfig list \<Rightarrow> bool" where
  "usedByOther t lbId allLBCs =
     list_ex (\<lambda>other.
       \<not> (om_UID (lbc_Meta other) = om_UID (t_Meta t) \<or> om_DeletionTimestamp (lbc_Meta other) \<noteq> None)
       \<and> (ss_LoadBalancerId (lbc_Status other) = Some lbId \<or> sp_LoadBalancerId (lbc_Spec other) = Some lbId))
       allLBCs"

definition loadBalancerHasOtherLBC :: "task \<Rightarrow> string \<Rightarrow> bool M" where
  "loadBalancerHasOtherLBC t lbId =
     andThen (wrapErr (errorf ''failed to list LoadBalancerConfigs to see who else uses the load balancer'')
                (ListLoadBalancerConfig t))
       (\<lambda>allLBCs. returnM (usedByOther t lbId allLBCs))"

section \<open>ensureTags\<close>

record tagDiff =
  td_needUpdate :: bool
  td_write :: gomap
  td_authored :: gomap

type_synonym 'm computeTagsFunc = "'m \<Rightarrow> gomap \<Rightarrow> ((gomap \<times> gomap) \<times> 'm) M"

definition diffTags :: "task \<Rightarrow> string \<Rightarrow> 'm computeTagsFunc \<Rightarrow> 'm \<Rightarrow> (tagDiff result \<times> 'm) M" where
  "diffTags t lbId computeTags m =
     andThen (attempt (ListTags t lbId)) (\<lambda>r. case r of
       Inl err \<Rightarrow> returnM (Inl err, m)
     | Inr listTags \<Rightarrow>
         let currentTags = tagsToMap listTags in
         andThen (computeTags m currentTags) (\<lambda>x. case x of ((ensuredTags, createdTags), m') \<Rightarrow>
           case buildTag currentTags createdTags ensuredTags of (needUpdate, merged) \<Rightarrow>
             returnM (Inr \<lparr>td_needUpdate = needUpdate, td_write = merged, td_authored = ensuredTags\<rparr>, m')))"

definition ensureTags :: "task \<Rightarrow> string \<Rightarrow> 'm computeTagsFunc \<Rightarrow> 'm \<Rightarrow> (unit result \<times> 'm) M" where
  "ensureTags t lbId computeTags m =
     andThen (diffTags t lbId computeTags m) (\<lambda>x. case x of (r1, m1) \<Rightarrow>
       (case r1 of
          Inl err \<Rightarrow> returnM (Inl err, m1)
        | Inr diff1 \<Rightarrow>
          if \<not> td_needUpdate diff1 then returnM (Inr (), m1)
          else andThen (InvalidateTagsCache t lbId) (\<lambda>_.
            andThen (diffTags t lbId computeTags m1) (\<lambda>y. case y of (r2, m2) \<Rightarrow>
              (case r2 of
                 Inl err \<Rightarrow> returnM (Inl err, m2)
               | Inr diff \<Rightarrow>
                 if \<not> td_needUpdate diff then returnM (Inr (), m2)
                 else andThen (attempt (CreateTags t lbId (td_write diff))) (\<lambda>w. case w of
                   Inl err \<Rightarrow> returnM (Inl err, m2)
                 | Inr _ \<Rightarrow> andThen (attempt (statusAddCreatedTags t (td_authored diff)))
                              (\<lambda>r. returnM (r, m2))))))))"

definition fromResult :: "'a result \<Rightarrow> 'a M" where
  "fromResult r = (case r of Inl e \<Rightarrow> failM e | Inr x \<Rightarrow> returnM x)"

section \<open>deployTags\<close>

definition deployTagsFor ::
  "LoadBalancerConfigSpec \<Rightarrow> LoadBalancerConfigStatus \<Rightarrow> string \<Rightarrow> gomap \<Rightarrow> gomap \<times> gomap" where
  "deployTagsFor spec status lbId currentTags =
     (let ensured0 = map_copy (sp_Tags spec);
          createdTags = map_copy (ss_CreatedTags status);
          validId = (case sp_ClusterId spec of None \<Rightarrow> False | Some c \<Rightarrow> isValidVksId c);
          cid = deref (sp_ClusterId spec);
          ensured1 = (if validId
                      then AList.update ClusterTagKey
                             (joinTagValue (map_get currentTags ClusterTagKey) cid ClusterTagValueSeparator) ensured0
                      else ensured0);
          ensured2 = (if sp_VpcId spec \<noteq> [] then AList.update VpcTagKey (sp_VpcId spec) ensured1 else ensured1);
          ensured3 = AList.update BillingTagKey BillingTagValue ensured2;
          ensured4 = (if validId \<and> ss_CreatedLoadBalancerId status = Some lbId
                      then AList.update CreatedByClusterTagKey cid ensured3 else ensured3)
      in (ensured4, createdTags))"

definition deployTagsClosure :: "task \<Rightarrow> LoadBalancerConfigStatus \<Rightarrow> string \<Rightarrow> unit computeTagsFunc" where
  "deployTagsClosure t status lbId m currentTags = returnM (deployTagsFor (t_Spec t) status lbId currentTags, m)"

definition deployTags :: "task \<Rightarrow> string \<Rightarrow> unit M" where
  "deployTags t lbId =
     andThen (getS lbStatus) (\<lambda>status.
       andThen (ensureTags t lbId (deployTagsClosure t status lbId) ())
         (\<lambda>x. fromResult (fst x)))"

section \<open>deleteRedundantTags\<close>

text \<open>The captured variables: not looked up yet, or the lookup error with the answer.\<close>

type_synonym shared_memo = "(go_error option \<times> bool) option"

definition stillShared :: "task \<Rightarrow> string \<Rightarrow> shared_memo \<Rightarrow> (bool \<times> shared_memo) M" where
  "stillShared t lbId memo =
     (case memo of
        Some (err, shared) \<Rightarrow> returnM (shared, memo)
      | None \<Rightarrow>
        andThen (attempt (loadBalancerHasOtherLBC t lbId)) (\<lambda>r. case r of
          Inl e \<Rightarrow> returnM (True, Some (Some e, False))
        | Inr b \<Rightarrow> returnM (b, Some (None, b))))"

definition deleteTagsFor :: "LoadBalancerConfigSpec \<Rightarrow> gomap \<Rightarrow> bool \<Rightarrow> gomap \<Rightarrow> gomap \<times> gomap" where
  "deleteTagsFor spec recordedTags keep currentTags =
     (let created0 = map_copy recordedTags;
          current = map_get currentTags ClusterTagKey;
          (ensured, created1) =
            (if keep then ([], AList.delete ClusterTagKey created0)
             else case sp_ClusterId spec of
                    Some cid \<Rightarrow>
                      let v = removeTagValue current cid ClusterTagValueSeparator
                      in (if v \<noteq> [] then [(ClusterTagKey, v)] else [],
                          if has_key currentTags ClusterTagKey then AList.update ClusterTagKey current created0
                          else created0)
                  | None \<Rightarrow> ([], created0))
      in (ensured,
          AList.delete CreatedByClusterTagKey (AList.delete BillingTagKey (AList.delete VpcTagKey created1))))"

text \<open>The closure handed to \<open>ensureTags\<close>.\<close>

definition deleteTagsClosure :: "task \<Rightarrow> string \<Rightarrow> gomap \<Rightarrow> shared_memo computeTagsFunc" where
  "deleteTagsClosure t lbId recordedTags memo currentTags =
     (if has_key currentTags ClusterTagKey
      then andThen (stillShared t lbId memo) (\<lambda>x. case x of (keep, memo') \<Rightarrow>
             returnM (deleteTagsFor (t_Spec t) recordedTags keep currentTags, memo'))
      else returnM (deleteTagsFor (t_Spec t) recordedTags False currentTags, memo))"

definition deleteRedundantTagsFrom :: "task \<Rightarrow> string \<Rightarrow> gomap \<Rightarrow> unit M" where
  "deleteRedundantTagsFrom t lbId recordedTags =
     andThen
       (ensureTags t lbId (deleteTagsClosure t lbId recordedTags) None)
       (\<lambda>x. case x of (err, memo) \<Rightarrow>
          (case memo of Some (Some lookupErr, _) \<Rightarrow> failM lookupErr | _ \<Rightarrow> fromResult err))"

definition deleteRedundantTags :: "task \<Rightarrow> string \<Rightarrow> unit M" where
  "deleteRedundantTags t lbId =
     andThen (getS lbStatus) (\<lambda>status. deleteRedundantTagsFrom t lbId (ss_CreatedTags status))"

section \<open>Facts on values\<close>

definition tagIds :: "string \<Rightarrow> string set" where
  "tagIds v = set (Split ClusterTagValueSeparator v) - {[]}"

lemma joinTagValue_ids:
  assumes "ClusterTagValueSeparator \<notin> set c"
  shows "tagIds (joinTagValue v c ClusterTagValueSeparator) = tagIds v \<union> ({c} - {[]})"
proof -
  let ?vs = "remdups (filter (\<lambda>v. v \<noteq> []) (Split ClusterTagValueSeparator v) @ (if c \<noteq> [] then [c] else []))"
  have "\<forall>p \<in> set (sort ?vs). ClusterTagValueSeparator \<notin> set p"
    using assms by (auto dest: Split_no_sep)
  from set_Split_Join[OF this] show ?thesis
    by (auto simp: tagIds_def joinTagValue_def Let_def)
qed

lemma removeTagValue_ids:
  "tagIds (removeTagValue v c ClusterTagValueSeparator) = tagIds v - {c}"
proof -
  let ?vs = "filter (\<lambda>x. x \<noteq> [] \<and> x \<noteq> c) (Split ClusterTagValueSeparator v)"
  have "\<forall>p \<in> set (sort ?vs). ClusterTagValueSeparator \<notin> set p"
    by (auto dest: Split_no_sep)
  from set_Split_Join[OF this] show ?thesis
    by (auto simp: tagIds_def removeTagValue_def)
qed

lemma removeTagValue_Nil_iff: "removeTagValue v c ClusterTagValueSeparator = [] \<longleftrightarrow> tagIds v \<subseteq> {c}"
proof -
  let ?vs = "filter (\<lambda>x. x \<noteq> [] \<and> x \<noteq> c) (Split ClusterTagValueSeparator v)"
  have "removeTagValue v c ClusterTagValueSeparator = [] \<longleftrightarrow> sort ?vs = []"
    unfolding removeTagValue_def by (rule Join_eq_Nil_iff) auto
  also have "\<dots> \<longleftrightarrow> set ?vs = {}"
    by (simp only: set_empty[symmetric] set_sort)
  also have "\<dots> \<longleftrightarrow> tagIds v \<subseteq> {c}"
    unfolding tagIds_def set_filter by blast
  finally show ?thesis .
qed

section \<open>Facts on merging\<close>

lemma distinct_fold_mergeTag:
  "distinct (map fst acc) \<Longrightarrow> distinct (map fst (fold mergeTag kvs acc))"
  by (induction kvs arbitrary: acc) (auto simp: mergeTag_def distinct_update)

lemma map_of_fold_mergeTag:
  "distinct (map fst kvs) \<Longrightarrow>
   map_of (fold mergeTag kvs acc) k =
     (case map_of kvs k of
        Some v \<Rightarrow> if tagLenOk k \<and> tagLenOk v then Some v else map_of acc k
      | None \<Rightarrow> map_of acc k)"
proof (induction kvs arbitrary: acc)
  case (Cons kv kvs)
  obtain k' v' where kv: "kv = (k', v')" by (cases kv)
  have "map_of kvs k' = None" using Cons.prems kv by (simp add: map_of_eq_None_iff)
  with Cons kv show ?case
    by (auto simp: mergeTag_def update_conv' split: option.splits)
qed simp

lemma map_of_mergedTags:
  assumes "distinct (map fst cur)" and "distinct (map fst new)"
  shows "map_of (mergedTags cur old new) k =
     (case map_of new k of
        Some v \<Rightarrow> if tagLenOk k \<and> tagLenOk v then Some v
                  else if k \<in> fst ` set old then None else map_of (fold mergeTag cur []) k
      | None \<Rightarrow> if k \<in> fst ` set old then None else map_of (fold mergeTag cur []) k)"
  using assms by (simp add: mergedTags_def map_of_fold_mergeTag map_of_delete_keys split: option.splits)

lemma map_of_fold_mergeTag_current:
  assumes "distinct (map fst cur)"
  shows "map_of (fold mergeTag cur []) k =
     (case map_of cur k of Some v \<Rightarrow> if tagLenOk k \<and> tagLenOk v then Some v else None | None \<Rightarrow> None)"
  using assms by (simp add: map_of_fold_mergeTag split: option.splits)

lemma distinct_tagsToMap [simp]: "distinct (map fst (tagsToMap tags))"
proof -
  have "distinct (map fst acc) \<Longrightarrow> distinct (map fst (fold (\<lambda>tag m. case tag of None \<Rightarrow> m
      | Some tg \<Rightarrow> if tag_SystemTag tg then m else AList.update (tag_Key tg) (tag_Value tg) m) tags acc))" for acc
    by (induction tags arbitrary: acc) (auto simp: distinct_update split: option.splits)
  then show ?thesis by (simp add: tagsToMap_def)
qed

lemma buildTag_write:
  "buildTag cur old new = (True, w) \<Longrightarrow> w = mergedTags cur old new \<and> w \<noteq> []"
  by (auto simp: buildTag_def Let_def split: if_splits)

lemma distinct_deployTagsFor [simp]: "distinct (map fst (fst (deployTagsFor spec status lbId cur)))"
  by (simp add: deployTagsFor_def Let_def distinct_update)

lemma map_of_map_copy_dom: "fst ` set (map_copy m) = fst ` set m"
proof -
  have "fst ` set (fold (\<lambda>(k, v) a. AList.update k v a) m acc) = fst ` set acc \<union> fst ` set m" for acc
    by (induction m arbitrary: acc) (simp_all only: fold_simps list.set image_empty image_insert
        case_prod_beta dom_update Un_empty_right Un_insert_right Un_insert_left Un_empty_left comp_def)
  then show ?thesis by (simp add: map_copy_def)
qed

section \<open>A write is computed from a fresh read\<close>

lemma diffTags_result:
  assumes "diffTags t l f m s = (Inr (Inr d, m'), s')"
  obtains tags ens cre where
    "f m (tagsToMap tags) (s\<lparr>hist := hist s @ [EvListTags l (Inr tags)]\<rparr>) = (Inr ((ens, cre), m'), s')"
    "buildTag (tagsToMap tags) cre ens = (td_needUpdate d, td_write d)" "td_authored d = ens"
proof (cases "api_ListTags (t_vng t) (hist s) l")
  case (Inl e)
  with assms show ?thesis by (simp add: diffTags_def ListTags_def andThen_Inr_iff)
next
  case (Inr tags)
  with assms obtain ens cre where
    "f m (tagsToMap tags) (s\<lparr>hist := hist s @ [EvListTags l (Inr tags)]\<rparr>) = (Inr ((ens, cre), m'), s')"
    "d = \<lparr>td_needUpdate = fst (buildTag (tagsToMap tags) cre ens),
          td_write = snd (buildTag (tagsToMap tags) cre ens), td_authored = ens\<rparr>"
    by (auto simp: diffTags_def ListTags_def Let_def andThen_Inr_iff case_prod_beta)
  with that[of tags ens cre] show ?thesis by simp
qed

text \<open>The calls of \<open>ensureTags\<close> and of the closures it is given.\<close>

lemma safe_emits_diffTags [safe_intro]:
  assumes "\<And>h r. P h (EvListTags l r)" and "\<And>m cur s'. safe (emitsR P) (f m cur) s'"
  shows "safe (emitsR P) (diffTags t l f m) s"
  unfolding diffTags_def ListTags_def by (intro safe_intro assms)

lemma safe_emits_loadBalancerHasOtherLBC [safe_intro]:
  "(\<And>h r. P h (EvListLBC r)) \<Longrightarrow> safe (emitsR P) (loadBalancerHasOtherLBC t l) s"
  unfolding loadBalancerHasOtherLBC_def ListLoadBalancerConfig_def by (intro safe_intro)

lemma safe_emits_stillShared [safe_intro]:
  "(\<And>h r. P h (EvListLBC r)) \<Longrightarrow> safe (emitsR P) (stillShared t l m) s"
  unfolding stillShared_def by (intro safe_intro)

lemma safe_emits_deleteTagsClosure [safe_intro]:
  "(\<And>h r. P h (EvListLBC r)) \<Longrightarrow> safe (emitsR P) (deleteTagsClosure t l rec m cur) s"
  unfolding deleteTagsClosure_def by (intro safe_intro)

lemma safe_emits_deployTagsClosure [safe_intro]: "safe (emitsR P) (deployTagsClosure t st l m cur) s"
  unfolding deployTagsClosure_def by (intro safe_intro)

lemma safe_emits_fromResult [safe_intro]: "safe (emitsR P) (fromResult r) s"
  unfolding fromResult_def by (intro safe_intro)

text \<open>
  \<open>ensureTags\<close> writes only in a state reached by invalidating the cache, reading the tags and running
  the closure on that read; the two runs of the closure are described so that what it captured can
  be followed.
\<close>

definition wroteFrom ::
  "task \<Rightarrow> string \<Rightarrow> 'm computeTagsFunc \<Rightarrow> 'm \<Rightarrow> st \<Rightarrow> gomap \<Rightarrow> history \<Rightarrow> bool" where
  "wroteFrom t l f m s w h \<longleftrightarrow>
     (\<exists>tags1 ens1 cre1 m1 s1 tags ens cre m2 s2.
        f m (tagsToMap tags1) (s\<lparr>hist := hist s @ [EvListTags l (Inr tags1)]\<rparr>) = (Inr ((ens1, cre1), m1), s1)
      \<and> fst (buildTag (tagsToMap tags1) cre1 ens1)
      \<and> f m1 (tagsToMap tags) (s1\<lparr>hist := hist s1 @ [EvInvalidateTagsCache l, EvListTags l (Inr tags)]\<rparr>)
          = (Inr ((ens, cre), m2), s2)
      \<and> buildTag (tagsToMap tags) cre ens = (True, w)
      \<and> h = hist s2)"

lemma safe_emits_ensureTags:
  assumes "\<And>h r. P h (EvListTags l r)" and "\<And>h. P h (EvInvalidateTagsCache l)"
    and "\<And>m cur s'. safe (emitsR P) (f m cur) s'" and "own_status P t"
    and "\<And>w h r. wroteFrom t l f m s w h \<Longrightarrow> P h (EvCreateTags l w r)"
  shows "safe (emitsR P) (ensureTags t l f m) s"
proof -
  have leaf: "P (hist s2) (EvCreateTags l (td_write d2) r)"
    if d1: "diffTags t l f m s = (Inr (Inr d1, m1), s1)" "td_needUpdate d1"
      and i: "InvalidateTagsCache t l s1 = (Inr u, s1')"
      and d2: "diffTags t l f m1 s1' = (Inr (Inr d2, m2), s2)" "td_needUpdate d2"
    for d1 m1 s1 u s1' d2 m2 s2 r
  proof -
    obtain tags1 ens1 cre1 where 1:
      "f m (tagsToMap tags1) (s\<lparr>hist := hist s @ [EvListTags l (Inr tags1)]\<rparr>) = (Inr ((ens1, cre1), m1), s1)"
      "buildTag (tagsToMap tags1) cre1 ens1 = (td_needUpdate d1, td_write d1)"
      by (rule diffTags_result[OF d1(1)])
    obtain tags2 ens2 cre2 where 2:
      "f m1 (tagsToMap tags2) (s1'\<lparr>hist := hist s1' @ [EvListTags l (Inr tags2)]\<rparr>) = (Inr ((ens2, cre2), m2), s2)"
      "buildTag (tagsToMap tags2) cre2 ens2 = (td_needUpdate d2, td_write d2)"
      by (rule diffTags_result[OF d2(1)])
    have "s1' = s1\<lparr>hist := hist s1 @ [EvInvalidateTagsCache l]\<rparr>"
      using i by (simp add: InvalidateTagsCache_def)
    with 1 2 d1(2) d2(2) have "wroteFrom t l f m s (td_write d2) (hist s2)"
      unfolding wroteFrom_def
      by (intro exI[of _ tags1] exI[of _ ens1] exI[of _ cre1] exI[of _ m1] exI[of _ s1]
          exI[of _ tags2] exI[of _ ens2] exI[of _ cre2] exI[of _ m2] exI[of _ s2]) simp
    then show ?thesis by (rule assms(5))
  qed
  have inv: "safe (emitsR P) (InvalidateTagsCache t l) s'" for s'
    unfolding InvalidateTagsCache_def by (intro safe_intro assms)
  show ?thesis
    unfolding ensureTags_def CreateTags_def
    by (intro safe_intro inv assms(1,3) safe_emits_status_ops(11)[OF assms(4)])
      (auto dest: leaf)
qed

lemma safe_emits_deployTags:
  assumes "\<And>h r. P h (EvListTags l r)" and "\<And>h. P h (EvInvalidateTagsCache l)" and "own_status P t"
    and "\<And>h w r. P h (EvCreateTags l w r)"
  shows "safe (emitsR P) (deployTags t l) s"
  unfolding deployTags_def
  by (intro safe_intro safe_emits_ensureTags safe_emits_deployTagsClosure safe_emits_fromResult assms)

section \<open>What deployTags writes\<close>

text \<open>The tags \<open>h\<close> ends with, read from the API and not from the cache.\<close>

definition justRead :: "string \<Rightarrow> entity_Tag option list \<Rightarrow> history \<Rightarrow> bool" where
  "justRead lbId tags h \<longleftrightarrow> (\<exists>h1. h = h1 @ [EvInvalidateTagsCache lbId, EvListTags lbId (Inr tags)])"

definition deployCarriesOver ::
  "LoadBalancerConfigSpec \<Rightarrow> LoadBalancerConfigStatus \<Rightarrow> string \<Rightarrow> gomap \<Rightarrow> gomap \<Rightarrow> bool" where
  "deployCarriesOver spec status lbId cur w \<longleftrightarrow>
     w \<noteq> []
     \<and> (\<forall>k v. map_of cur k = Some v \<longrightarrow> tagLenOk k \<longrightarrow> tagLenOk v \<longrightarrow> k \<notin> fst ` set (ss_CreatedTags status)
          \<longrightarrow> k \<notin> fst ` set (fst (deployTagsFor spec status lbId cur)) \<longrightarrow> map_of w k = Some v)
     \<and> (\<forall>cid. sp_ClusterId spec = Some cid \<longrightarrow> isValidVksId cid \<longrightarrow> ClusterTagValueSeparator \<notin> set cid
          \<longrightarrow> tagLenOk (joinTagValue (map_get cur ClusterTagKey) cid ClusterTagValueSeparator)
          \<longrightarrow> tagIds (map_get w ClusterTagKey) = insert cid (tagIds (map_get cur ClusterTagKey)))"

lemma deploy_cluster_tag:
  assumes "sp_ClusterId spec = Some cid" and "isValidVksId cid"
  shows "map_of (fst (deployTagsFor spec status lbId cur)) ClusterTagKey
    = Some (joinTagValue (map_get cur ClusterTagKey) cid ClusterTagValueSeparator)"
  using assms
  by (simp add: deployTagsFor_def Let_def update_conv' ClusterTagKey_def VpcTagKey_def BillingTagKey_def
      CreatedByClusterTagKey_def)

lemma deployCarriesOver_build:
  assumes "buildTag cur (snd (deployTagsFor spec status lbId cur)) (fst (deployTagsFor spec status lbId cur)) = (True, w)"
    and "distinct (map fst cur)"
  shows "deployCarriesOver spec status lbId cur w"
proof -
  let ?ens = "fst (deployTagsFor spec status lbId cur)" and ?cre = "snd (deployTagsFor spec status lbId cur)"
  have w: "w = mergedTags cur ?cre ?ens" "w \<noteq> []" using buildTag_write[OF assms(1)] by auto
  have cre: "fst ` set ?cre = fst ` set (ss_CreatedTags status)"
    by (simp add: deployTagsFor_def Let_def map_of_map_copy_dom)
  note look = map_of_mergedTags[OF assms(2) distinct_deployTagsFor, where old = ?cre]
  have "map_of w k = Some v"
    if "map_of cur k = Some v" "tagLenOk k" "tagLenOk v" "k \<notin> fst ` set (ss_CreatedTags status)" "k \<notin> fst ` set ?ens" for k v
    using that by (simp add: w(1) look cre map_of_fold_mergeTag_current[OF assms(2)] map_of_eq_None_iff[symmetric] del: map_of_eq_None_iff)
  moreover have "tagIds (map_get w ClusterTagKey) = insert cid (tagIds (map_get cur ClusterTagKey))"
    if "sp_ClusterId spec = Some cid" "isValidVksId cid" "ClusterTagValueSeparator \<notin> set cid"
      "tagLenOk (joinTagValue (map_get cur ClusterTagKey) cid ClusterTagValueSeparator)" for cid
  proof -
    have "tagLenOk ClusterTagKey" by (simp add: tagLenOk_def ClusterTagKey_def)
    then have "map_of w ClusterTagKey = Some (joinTagValue (map_get cur ClusterTagKey) cid ClusterTagValueSeparator)"
      using that by (simp add: w(1) look deploy_cluster_tag)
    moreover have "cid \<noteq> []" using that(2) by (auto simp: isValidVksId_def VKS_CLUSTER_ID_LENGTH_def)
    ultimately show ?thesis using joinTagValue_ids[OF that(3)] by (simp add: map_get_def)
  qed
  ultimately show ?thesis using w(2) by (auto simp: deployCarriesOver_def)
qed


text \<open>
  Only the creator claims provenance: when a tag write of \<open>deployTags\<close> puts a value into the
  created-by tag that the load balancer did not carry, then this LBC's status records that it
  created this very load balancer and the value is its cluster id - unless the user asks for the key
  in \<open>spec.tags\<close>.
\<close>

theorem deployTags_provenance:
  "safe (emitsR (\<lambda>h e. case e of
      EvCreateTags l w r \<Rightarrow>
        \<exists>tags. justRead lbId tags h \<and>
          (map_of w CreatedByClusterTagKey = map_of (tagsToMap tags) CreatedByClusterTagKey
           \<or> map_of w CreatedByClusterTagKey = None
           \<or> has_key (sp_Tags (t_Spec t)) CreatedByClusterTagKey
           \<or> ss_CreatedLoadBalancerId (lbStatus s) = Some lbId
              \<and> map_of w CreatedByClusterTagKey = sp_ClusterId (t_Spec t))
    | _ \<Rightarrow> True)) (deployTags t lbId) s"
proof -
  let ?P = "\<lambda>h e. case e of
      EvCreateTags l w r \<Rightarrow>
        \<exists>tags. justRead lbId tags h \<and>
          (map_of w CreatedByClusterTagKey = map_of (tagsToMap tags) CreatedByClusterTagKey
           \<or> map_of w CreatedByClusterTagKey = None
           \<or> has_key (sp_Tags (t_Spec t)) CreatedByClusterTagKey
           \<or> ss_CreatedLoadBalancerId (lbStatus s) = Some lbId
              \<and> map_of w CreatedByClusterTagKey = sp_ClusterId (t_Spec t))
    | _ \<Rightarrow> True"
  let ?ens = "\<lambda>cur. fst (deployTagsFor (t_Spec t) (lbStatus s) lbId cur)"
  have ens: "map_of (?ens cur) CreatedByClusterTagKey =
      (if (\<exists>c. sp_ClusterId (t_Spec t) = Some c \<and> isValidVksId c) \<and> ss_CreatedLoadBalancerId (lbStatus s) = Some lbId
       then sp_ClusterId (t_Spec t) else map_of (map_copy (sp_Tags (t_Spec t))) CreatedByClusterTagKey)" for cur
    by (auto simp: deployTagsFor_def Let_def update_conv' ClusterTagKey_def VpcTagKey_def BillingTagKey_def
        CreatedByClusterTagKey_def split: option.splits)
  have copy: "map_of (map_copy m) k = None" if "\<not> has_key m k" for m k
    using that map_of_map_copy_dom[of m] by (simp add: has_key_def map_of_eq_None_iff)
  have build: "map_of w CreatedByClusterTagKey = map_of (tagsToMap tags) CreatedByClusterTagKey
           \<or> map_of w CreatedByClusterTagKey = None
           \<or> has_key (sp_Tags (t_Spec t)) CreatedByClusterTagKey
           \<or> ss_CreatedLoadBalancerId (lbStatus s) = Some lbId
              \<and> map_of w CreatedByClusterTagKey = sp_ClusterId (t_Spec t)"
    if "buildTag (tagsToMap tags) cre (?ens (tagsToMap tags)) = (True, w)" for tags cre w
  proof (cases "has_key (sp_Tags (t_Spec t)) CreatedByClusterTagKey")
    case False
    have w: "w = mergedTags (tagsToMap tags) cre (?ens (tagsToMap tags))" using buildTag_write[OF that] ..
    show ?thesis
      unfolding w map_of_mergedTags[OF distinct_tagsToMap distinct_deployTagsFor]
        map_of_fold_mergeTag_current[OF distinct_tagsToMap] ens copy[OF False]
      by (simp split: option.split)
  qed simp
  have wrote: "?P h (EvCreateTags lbId w r)"
    if "wroteFrom t lbId (deployTagsClosure t (lbStatus s) lbId) () s' w h" for s' w h r
  proof -
    from that obtain tags where "justRead lbId tags h"
      "buildTag (tagsToMap tags) (snd (deployTagsFor (t_Spec t) (lbStatus s) lbId (tagsToMap tags))) (?ens (tagsToMap tags)) = (True, w)"
      by (auto simp: wroteFrom_def deployTagsClosure_def justRead_def)
    with build show ?thesis by auto
  qed
  have own: "own_status ?P t" by (simp add: own_status_def)
  have "safe (emitsR ?P) (ensureTags t lbId (deployTagsClosure t (lbStatus s) lbId) ()) s"
    by (rule safe_emits_ensureTags[OF _ _ safe_emits_deployTagsClosure own wrote]) simp_all
  then show ?thesis
    unfolding deployTags_def by (intro safe_intro) (simp add: safe_emits_fromResult)+
qed

text \<open>
  The limit of the theorem above is reached by the code: once the joined list of cluster ids is too
  long and the cluster tag is on this LBC's record (it is recorded as authored even when it was too
  long to be sent), the write drops the cluster tag altogether - every other cluster's id with it.
\<close>

theorem deployTags_overflow_drops_clusters:
  assumes "sp_ClusterId spec = Some cid" and "isValidVksId cid"
    and "\<not> tagLenOk (joinTagValue (map_get cur ClusterTagKey) cid ClusterTagValueSeparator)"
    and "ClusterTagKey \<in> fst ` set (ss_CreatedTags status)" and "has_key cur ClusterTagKey"
    and "distinct (map fst cur)"
  shows "\<exists>w. buildTag cur (snd (deployTagsFor spec status lbId cur)) (fst (deployTagsFor spec status lbId cur)) = (True, w)
    \<and> \<not> has_key w ClusterTagKey"
proof -
  let ?ens = "fst (deployTagsFor spec status lbId cur)" and ?cre = "snd (deployTagsFor spec status lbId cur)"
  have cre: "fst ` set ?cre = fst ` set (ss_CreatedTags status)"
    by (simp add: deployTagsFor_def Let_def map_of_map_copy_dom)
  note look = map_of_mergedTags[OF assms(6) distinct_deployTagsFor, where old = ?cre]
  have gone: "\<not> has_key (mergedTags cur ?cre ?ens) ClusterTagKey"
    using assms(3,4) by (simp add: has_key_def look cre deploy_cluster_tag[OF assms(1,2)])
  have "map_of ?ens BillingTagKey = Some BillingTagValue"
    by (simp add: deployTagsFor_def Let_def update_conv' BillingTagKey_def CreatedByClusterTagKey_def)
  then have "map_of (mergedTags cur ?cre ?ens) BillingTagKey = Some BillingTagValue"
    by (simp add: look tagLenOk_def BillingTagKey_def BillingTagValue_def)
  then have "mergedTags cur ?cre ?ens \<noteq> []" by auto
  with gone assms(5) show ?thesis by (simp add: buildTag_def Let_def)
qed

section \<open>What deleteRedundantTags writes\<close>

lemma stillShared_result:
  assumes "stillShared t l None s = (Inr (keep, m'), s')"
  obtains r where "hist s' = hist s @ [EvListLBC r]"
    "case r of Inl e \<Rightarrow> keep \<and> (\<exists>e'. m' = Some (Some e', False))
     | Inr all \<Rightarrow> keep = usedByOther t l all \<and> m' = Some (None, keep)"
  using assms
  by (cases "k8s_ListLoadBalancerConfig (t_k8s t) (hist s)")
    (auto simp: stillShared_def loadBalancerHasOtherLBC_def ListLoadBalancerConfig_def andThen_def attempt_def wrapErr_def)

text \<open>What one run of the closure tells: the decision to keep the cluster tag and where it came from.\<close>

definition lookedUp :: "task \<Rightarrow> string \<Rightarrow> shared_memo \<Rightarrow> event list \<Rightarrow> bool" where
  "lookedUp t l memo es \<longleftrightarrow>
     (case memo of
        None \<Rightarrow> True
      | Some (None, shared) \<Rightarrow> (\<exists>all. EvListLBC (Inr all) \<in> set es \<and> shared = usedByOther t l all)
      | Some (Some e, shared) \<Rightarrow> \<not> shared \<and> (\<exists>e'. EvListLBC (Inl e') \<in> set es))"

lemma lookedUp_None [simp]: "lookedUp t l None es"
  by (simp add: lookedUp_def)

lemma lookedUp_mono: "lookedUp t l m es \<Longrightarrow> set es \<subseteq> set es' \<Longrightarrow> lookedUp t l m es'"
  by (auto simp: lookedUp_def split: option.splits prod.splits)

definition keepFrom :: "shared_memo \<Rightarrow> shared_memo \<Rightarrow> bool \<Rightarrow> bool" where
  "keepFrom m m' keep \<longleftrightarrow>
     (case m' of
        None \<Rightarrow> False
      | Some (None, shared) \<Rightarrow> keep = shared
      | Some (Some e, shared) \<Rightarrow> keep = (m = None))"

lemma deleteTagsClosure_result:
  assumes "deleteTagsClosure t l rec m cur s = (Inr ((ens, cre), m'), s')"
    and "hist s = hist s0 @ es" and "lookedUp t l m es"
  shows "\<exists>keep es'. hist s' = hist s0 @ es @ es' \<and> lookedUp t l m' (es @ es')
    \<and> (ens, cre) = deleteTagsFor (t_Spec t) rec keep cur
    \<and> (\<not> has_key cur ClusterTagKey \<longrightarrow> \<not> keep \<and> m' = m)
    \<and> (has_key cur ClusterTagKey \<longrightarrow> keepFrom m m' keep)"
proof (cases "has_key cur ClusterTagKey")
  case False
  with assms show ?thesis
    by (intro exI[of _ False] exI[of _ "[]"]) (simp add: deleteTagsClosure_def)
next
  case True
  with assms(1) obtain keep where k: "stillShared t l m s = (Inr (keep, m'), s')"
    "(ens, cre) = deleteTagsFor (t_Spec t) rec keep cur"
    by (auto simp: deleteTagsClosure_def andThen_Inr_iff)
  show ?thesis
  proof (cases m)
    case None
    with k(1) obtain r where r: "hist s' = hist s @ [EvListLBC r]"
      "case r of Inl e \<Rightarrow> keep \<and> (\<exists>e'. m' = Some (Some e', False))
       | Inr all \<Rightarrow> keep = usedByOther t l all \<and> m' = Some (None, keep)"
      using stillShared_result by blast
    show ?thesis
      by (intro exI[of _ keep] exI[of _ "[EvListLBC r]"])
        (use r k(2) True None assms(2) in \<open>auto simp: lookedUp_def keepFrom_def split: sum.splits\<close>)
  next
    case (Some es1)
    with k(1) have "s' = s" "m' = m" "keep = snd es1"
      by (auto simp: stillShared_def split: prod.splits)
    with Some k(2) assms(2,3) True show ?thesis
      by (intro exI[of _ keep] exI[of _ "[]"])
        (auto simp: lookedUp_def keepFrom_def split: prod.splits option.splits)
  qed
qed

lemma tag_keys_distinct:
  "ClusterTagKey \<noteq> VpcTagKey" "ClusterTagKey \<noteq> BillingTagKey" "ClusterTagKey \<noteq> CreatedByClusterTagKey"
  by (simp_all add: ClusterTagKey_def VpcTagKey_def BillingTagKey_def CreatedByClusterTagKey_def)

lemma tagLenOk_ClusterTagKey [simp]: "tagLenOk ClusterTagKey"
  by (simp add: tagLenOk_def ClusterTagKey_def)

lemma keys_delete: "fst ` set (AList.delete k m) = fst ` set m - {k}"
  by (auto simp: AList.delete_eq image_iff)

definition keptKeys :: "string set" where
  "keptKeys = {VpcTagKey, BillingTagKey, CreatedByClusterTagKey}"

lemma deleteTagsFor_keys:
  "fst ` set (snd (deleteTagsFor spec rec keep cur)) =
     (if keep then fst ` set rec - {ClusterTagKey}
      else if sp_ClusterId spec \<noteq> None \<and> has_key cur ClusterTagKey then insert ClusterTagKey (fst ` set rec)
      else fst ` set rec) - keptKeys"
  by (auto simp: deleteTagsFor_def Let_def keys_delete map_of_map_copy_dom dom_update keptKeys_def
      split: option.splits)

lemma deleteTagsFor_ensured:
  "fst (deleteTagsFor spec rec keep cur) =
     (if keep then []
      else case sp_ClusterId spec of
             None \<Rightarrow> []
           | Some cid \<Rightarrow> (let v = removeTagValue (map_get cur ClusterTagKey) cid ClusterTagValueSeparator
                         in if v \<noteq> [] then [(ClusterTagKey, v)] else []))"
  by (simp add: deleteTagsFor_def Let_def split: option.splits)

lemma distinct_deleteTagsFor: "distinct (map fst (fst (deleteTagsFor spec rec keep cur)))"
  by (auto simp: deleteTagsFor_ensured Let_def split: option.splits)

lemma deleteTagsFor_lookup:
  assumes "distinct (map fst cur)"
    and "(ens, cre) = deleteTagsFor spec rec keep cur" and "buildTag cur cre ens = (True, w)"
  shows "k \<noteq> ClusterTagKey \<Longrightarrow> map_of w k =
      (if k \<in> fst ` set rec - keptKeys then None
       else case map_of cur k of Some v \<Rightarrow> if tagLenOk k \<and> tagLenOk v then Some v else None | None \<Rightarrow> None)"
    and "keep \<Longrightarrow> map_of cur ClusterTagKey = Some v \<Longrightarrow> tagLenOk v \<Longrightarrow> map_of w ClusterTagKey = Some v"
    and "\<not> keep \<Longrightarrow> sp_ClusterId spec = Some cid \<Longrightarrow> map_of cur ClusterTagKey = Some v
      \<Longrightarrow> tagLenOk (removeTagValue v cid ClusterTagValueSeparator)
      \<Longrightarrow> map_of w ClusterTagKey = Some (removeTagValue v cid ClusterTagValueSeparator)"
proof -
  have e: "ens = fst (deleteTagsFor spec rec keep cur)" "cre = snd (deleteTagsFor spec rec keep cur)"
    using assms(2) by (metis fst_conv snd_conv)+
  have w: "w = mergedTags cur cre ens" using buildTag_write[OF assms(3)] ..
  have look: "map_of w k = (case map_of ens k of
        Some v \<Rightarrow> if tagLenOk k \<and> tagLenOk v then Some v
                  else if k \<in> fst ` set cre then None else map_of (fold mergeTag cur []) k
      | None \<Rightarrow> if k \<in> fst ` set cre then None else map_of (fold mergeTag cur []) k)" for k
    unfolding w e(1) by (rule map_of_mergedTags[OF assms(1) distinct_deleteTagsFor])
  note cur = map_of_fold_mergeTag_current[OF assms(1)]
  show "k \<noteq> ClusterTagKey \<Longrightarrow> map_of w k =
      (if k \<in> fst ` set rec - keptKeys then None
       else case map_of cur k of Some v \<Rightarrow> if tagLenOk k \<and> tagLenOk v then Some v else None | None \<Rightarrow> None)"
    unfolding look cur e deleteTagsFor_keys deleteTagsFor_ensured
    by (auto simp: Let_def simp del: map_of_eq_Some_iff split: option.splits)
  show "keep \<Longrightarrow> map_of cur ClusterTagKey = Some v \<Longrightarrow> tagLenOk v \<Longrightarrow> map_of w ClusterTagKey = Some v"
    unfolding look cur e deleteTagsFor_keys deleteTagsFor_ensured by simp
  assume a: "\<not> keep" "sp_ClusterId spec = Some cid" "map_of cur ClusterTagKey = Some v"
    "tagLenOk (removeTagValue v cid ClusterTagValueSeparator)"
  then have "removeTagValue v cid ClusterTagValueSeparator \<noteq> []" by (auto simp: tagLenOk_def)
  with a show "map_of w ClusterTagKey = Some (removeTagValue v cid ClusterTagValueSeparator)"
    unfolding look e(1) deleteTagsFor_ensured by (simp add: Let_def map_get_def del: map_of_eq_Some_iff)
qed

text \<open>Keeping the cluster tag asks for no write unless the tag could not be written back.\<close>

lemma keep_needs_no_update:
  assumes "distinct (map fst cur)" and "has_key cur ClusterTagKey"
    and "(ens, cre) = deleteTagsFor spec rec True cur" and "fst (buildTag cur cre ens)"
  shows "\<not> tagLenOk (map_get cur ClusterTagKey)"
proof
  assume ok: "tagLenOk (map_get cur ClusterTagKey)"
  from assms(4) have b: "buildTag cur cre ens = (True, mergedTags cur cre ens)"
    by (auto simp: buildTag_def Let_def split: if_splits)
  note look = deleteTagsFor_lookup[OF assms(1,3) b]
  from assms(2) ok have cl: "map_of (mergedTags cur cre ens) ClusterTagKey = map_of cur ClusterTagKey"
    using look(2) by (auto simp: has_key_def map_get_def simp del: map_of_eq_Some_iff)
  have "map_of cur k = Some v" if "(k, v) \<in> set (mergedTags cur cre ens)" for k v
  proof -
    have "distinct (map fst (mergedTags cur cre ens))"
      unfolding mergedTags_def by (intro distinct_fold_mergeTag distinct_delete_keys) simp
    with that have "map_of (mergedTags cur cre ens) k = Some v" by simp
    then show ?thesis
      using look(1)[of k] cl by (cases "k = ClusterTagKey")
        (auto simp del: map_of_eq_Some_iff split: option.splits if_splits)
  qed
  then have "\<not> list_ex (\<lambda>(k, v). \<not> EqualFold (map_get cur k) v) (mergedTags cur cre ens)"
    by (fastforce simp: list_ex_iff map_get_def simp del: map_of_eq_Some_iff)
  moreover have "has_key (mergedTags cur cre ens) ClusterTagKey"
    using cl assms(2) by (simp add: has_key_def)
  ultimately show False using assms(4) by (simp add: buildTag_def Let_def)
qed

text \<open>The tags the run last read past the cache; only the list of LBCs was read since.\<close>

definition lastRead :: "string \<Rightarrow> entity_Tag option list \<Rightarrow> event list \<Rightarrow> bool" where
  "lastRead lbId tags es \<longleftrightarrow>
     (\<exists>es1 es2. es = es1 @ [EvInvalidateTagsCache lbId, EvListTags lbId (Inr tags)] @ es2
       \<and> (\<forall>e \<in> set es2. \<exists>r. e = EvListLBC r))"

text \<open>The run learned that no other LBC of the cluster uses the load balancer - or (see the note at
  \<open>keep_needs_no_update\<close>) the lookup failed and the cluster tag it first read has an unusable length.\<close>

definition released :: "task \<Rightarrow> string \<Rightarrow> event list \<Rightarrow> bool" where
  "released t lbId es \<longleftrightarrow>
     (\<exists>all. EvListLBC (Inr all) \<in> set es \<and> \<not> usedByOther t lbId all)
     \<or> (\<exists>e tags. EvListLBC (Inl e) \<in> set es \<and> EvListTags lbId (Inr tags) \<in> set es
          \<and> \<not> tagLenOk (map_get (tagsToMap tags) ClusterTagKey))"

definition deleteCarriesOver :: "task \<Rightarrow> string \<Rightarrow> gomap \<Rightarrow> event list \<Rightarrow> gomap \<Rightarrow> gomap \<Rightarrow> bool" where
  "deleteCarriesOver t lbId rec es cur w \<longleftrightarrow>
     w \<noteq> []
     \<and> (\<forall>k v. map_of cur k = Some v \<longrightarrow> tagLenOk k \<longrightarrow> tagLenOk v \<longrightarrow> k \<noteq> ClusterTagKey
          \<longrightarrow> k \<in> keptKeys \<or> k \<notin> fst ` set rec \<longrightarrow> map_of w k = Some v)
     \<and> (\<forall>cid v. sp_ClusterId (t_Spec t) = Some cid \<longrightarrow> map_of cur ClusterTagKey = Some v \<longrightarrow> tagLenOk v
          \<longrightarrow> (tagIds v \<subseteq> {cid} \<or> tagLenOk (removeTagValue v cid ClusterTagValueSeparator)
                \<longrightarrow> tagIds v - {cid} \<subseteq> tagIds (map_get w ClusterTagKey))
            \<and> (cid \<in> tagIds v \<longrightarrow> cid \<notin> tagIds (map_get w ClusterTagKey) \<longrightarrow> released t lbId es))"

lemma deleteTags_wrote:
  assumes "wroteFrom t l (deleteTagsClosure t l rec) None s w h"
  shows "\<exists>es tags. h = hist s @ es \<and> lastRead l tags es \<and> deleteCarriesOver t l rec es (tagsToMap tags) w"
proof -
  from assms obtain tags1 ens1 cre1 m1 s1 tags ens cre m2 s2 where
    1: "deleteTagsClosure t l rec None (tagsToMap tags1) (s\<lparr>hist := hist s @ [EvListTags l (Inr tags1)]\<rparr>)
         = (Inr ((ens1, cre1), m1), s1)" and need: "fst (buildTag (tagsToMap tags1) cre1 ens1)"
    and 2: "deleteTagsClosure t l rec m1 (tagsToMap tags)
         (s1\<lparr>hist := hist s1 @ [EvInvalidateTagsCache l, EvListTags l (Inr tags)]\<rparr>) = (Inr ((ens, cre), m2), s2)"
    and b: "buildTag (tagsToMap tags) cre ens = (True, w)" and h: "h = hist s2"
    unfolding wroteFrom_def by blast
  obtain keep1 es1 where k1: "hist s1 = hist s @ [EvListTags l (Inr tags1)] @ es1"
      "lookedUp t l m1 ([EvListTags l (Inr tags1)] @ es1)"
      "(ens1, cre1) = deleteTagsFor (t_Spec t) rec keep1 (tagsToMap tags1)"
      "\<not> has_key (tagsToMap tags1) ClusterTagKey \<longrightarrow> \<not> keep1 \<and> m1 = None"
      "has_key (tagsToMap tags1) ClusterTagKey \<longrightarrow> keepFrom None m1 keep1"
    using deleteTagsClosure_result[OF 1, of s "[EvListTags l (Inr tags1)]"] by auto
  let ?es1 = "EvListTags l (Inr tags1) # es1 @ [EvInvalidateTagsCache l, EvListTags l (Inr tags)]"
  have "lookedUp t l m1 ?es1" by (rule lookedUp_mono[OF k1(2)]) auto
  moreover have "hist (s1\<lparr>hist := hist s1 @ [EvInvalidateTagsCache l, EvListTags l (Inr tags)]\<rparr>) = hist s @ ?es1"
    using k1(1) by simp
  ultimately obtain keep es2 where k2: "hist s2 = hist s @ ?es1 @ es2" "lookedUp t l m2 (?es1 @ es2)"
      "(ens, cre) = deleteTagsFor (t_Spec t) rec keep (tagsToMap tags)"
      "has_key (tagsToMap tags) ClusterTagKey \<longrightarrow> keepFrom m1 m2 keep"
    using deleteTagsClosure_result[OF 2] by blast
  let ?es = "?es1 @ es2"
  have es2: "\<forall>e \<in> set es2. \<exists>r. e = EvListLBC r"
  proof -
    have "safe (emitsR (\<lambda>_ e. \<exists>r. e = EvListLBC r)) (deleteTagsClosure t l rec m1 (tagsToMap tags))
        (s1\<lparr>hist := hist s1 @ [EvInvalidateTagsCache l, EvListTags l (Inr tags)]\<rparr>)"
      by (rule safe_emits_deleteTagsClosure) blast
    from emits.safeD[OF this 2] k1(1) k2(1) show ?thesis
      by (auto dest: emitsR_all)
  qed
  note look = deleteTagsFor_lookup[OF distinct_tagsToMap k2(3) b]
  have rel: "released t l ?es" if drop: "\<not> keep" and has: "has_key (tagsToMap tags) ClusterTagKey"
  proof -
    from k2(4) has have kf: "keepFrom m1 m2 keep" by simp
    show ?thesis
    proof (cases "\<exists>shared. m2 = Some (None, shared)")
      case True
      with kf k2(2) drop show ?thesis by (auto simp: keepFrom_def lookedUp_def released_def)
    next
      case False
      with kf drop have m: "m1 \<noteq> None" "\<exists>e shared. m2 = Some (Some e, shared)"
        by (auto simp: keepFrom_def split: option.splits)
      with k1(4,5) have has1: "has_key (tagsToMap tags1) ClusterTagKey" and kf1: "keepFrom None m1 keep1" by auto
      show ?thesis
      proof (cases keep1)
        case True
        with k1(3) have "(ens1, cre1) = deleteTagsFor (t_Spec t) rec True (tagsToMap tags1)" by simp
        from keep_needs_no_update[OF distinct_tagsToMap has1 this need]
        have "\<not> tagLenOk (map_get (tagsToMap tags1) ClusterTagKey)" .
        moreover from m(2) k2(2) have "\<exists>e. EvListLBC (Inl e) \<in> set ?es" by (auto simp: lookedUp_def)
        ultimately show ?thesis unfolding released_def by (metis append_Cons list.set_intros(1))
      next
        case False
        with kf1 obtain shared where "m1 = Some (None, shared)" "\<not> shared"
          by (auto simp: keepFrom_def split: option.splits prod.splits)
        with k1(2) show ?thesis by (auto simp: lookedUp_def released_def)
      qed
    qed
  qed
  have "deleteCarriesOver t l rec ?es (tagsToMap tags) w"
    unfolding deleteCarriesOver_def
  proof (intro conjI allI impI)
    show "w \<noteq> []" using buildTag_write[OF b] ..
  next
    fix k v assume "map_of (tagsToMap tags) k = Some v" "tagLenOk k" "tagLenOk v" "k \<noteq> ClusterTagKey"
      "k \<in> keptKeys \<or> k \<notin> fst ` set rec"
    then show "map_of w k = Some v" using look(1)[of k] by (auto simp del: map_of_eq_Some_iff)
  next
    fix cid v assume a: "sp_ClusterId (t_Spec t) = Some cid" "map_of (tagsToMap tags) ClusterTagKey = Some v" "tagLenOk v"
      "tagIds v \<subseteq> {cid} \<or> tagLenOk (removeTagValue v cid ClusterTagValueSeparator)"
    show "tagIds v - {cid} \<subseteq> tagIds (map_get w ClusterTagKey)"
    proof (cases keep)
      case True
      with look(2)[OF _ a(2,3)] show ?thesis by (simp add: map_get_def Diff_subset del: map_of_eq_Some_iff)
    next
      case False
      show ?thesis
      proof (cases "tagIds v \<subseteq> {cid}")
        case False
        with a(4) have "map_get w ClusterTagKey = removeTagValue v cid ClusterTagValueSeparator"
          using look(3)[OF \<open>\<not> keep\<close> a(1,2)] by (simp add: map_get_def del: map_of_eq_Some_iff)
        then show ?thesis by (simp add: removeTagValue_ids)
      qed blast
    qed
  next
    fix cid v assume a: "sp_ClusterId (t_Spec t) = Some cid" "map_of (tagsToMap tags) ClusterTagKey = Some v" "tagLenOk v"
      "cid \<in> tagIds v" "cid \<notin> tagIds (map_get w ClusterTagKey)"
    have "has_key (tagsToMap tags) ClusterTagKey" using a(2) by (simp add: has_key_def del: map_of_eq_Some_iff)
    moreover have "\<not> keep" using a look(2)[OF _ a(2,3)] by (auto simp: map_get_def simp del: map_of_eq_Some_iff)
    ultimately show "released t l ?es" by (rule rel[rotated])
  qed
  moreover have "lastRead l tags ?es"
    unfolding lastRead_def using es2 by (intro exI[of _ "EvListTags l (Inr tags1) # es1"] exI[of _ es2]) simp
  ultimately show ?thesis using h k2(1) by auto
qed

text \<open>What \<open>deleteRedundantTagsFrom\<close> calls, for a record \<open>rec\<close> of tags.\<close>

definition tagCleanup :: "task \<Rightarrow> string \<Rightarrow> gomap \<Rightarrow> history \<Rightarrow> history \<Rightarrow> event \<Rightarrow> bool" where
  "tagCleanup t lbId rec h0 h e =
     (case e of
        EvCreateTags l w r \<Rightarrow> l = lbId \<and>
          (\<exists>es tags. h = h0 @ es \<and> lastRead lbId tags es \<and> deleteCarriesOver t lbId rec es (tagsToMap tags) w)
      | EvPatchMeta _ _ _ \<Rightarrow> False
      | _ \<Rightarrow> \<not> isCloudWrite e)"

lemma safe_deleteRedundantTagsFrom:
  "safe (emitsR (tagCleanup t lbId rec (hist s))) (deleteRedundantTagsFrom t lbId rec) s"
proof -
  let ?P = "tagCleanup t lbId rec (hist s)"
  have wrote: "?P h (EvCreateTags lbId w r)"
    if "wroteFrom t lbId (deleteTagsClosure t lbId rec) None s w h" for w h r
    using deleteTags_wrote[OF that] by (simp add: tagCleanup_def)
  have own: "own_status ?P t" by (simp add: own_status_def tagCleanup_def isCloudWrite_def)
  have "safe (emitsR ?P) (ensureTags t lbId (deleteTagsClosure t lbId rec) None) s"
    by (rule safe_emits_ensureTags[OF _ _ safe_emits_deleteTagsClosure own wrote])
      (simp_all add: tagCleanup_def isCloudWrite_def)
  then show ?thesis
    unfolding deleteRedundantTagsFrom_def
    by (intro safe_intro) (simp add: safe_emits_fromResult)+
qed

text \<open>
  C29. A cluster leaving a load balancer takes only its own id with it. Each tag write of
  \<open>deleteRedundantTags\<close> goes to this load balancer, after a read made past the cache with nothing
  written since, and - compared with that read - keeps the provenance, VPC and billing tags and every
  tag this LBC did not record, and every other cluster listed on the cluster tag; this cluster's own
  id comes off only if the run learned that no other LBC of the cluster uses the load balancer. It
  makes no other change to the cloud.
\<close>

theorem deleteRedundantTags_keeps_others:
  "safe (emitsR (tagCleanup t lbId (ss_CreatedTags (lbStatus s)) (hist s))) (deleteRedundantTags t lbId) s"
  unfolding deleteRedundantTags_def
  using safe_deleteRedundantTagsFrom[of t lbId _ s] by (simp add: safe_def andThen_def)

text \<open>
  C37. The cluster list behaves as a set: adding an id adds exactly that id, taking one off takes
  exactly that id, and taking it off right after adding it to a list it was not on restores the set.
\<close>

theorem cluster_tag_roundtrip:
  assumes "ClusterTagValueSeparator \<notin> set cid" and "cid \<noteq> []"
  shows "tagIds (joinTagValue v cid ClusterTagValueSeparator) = insert cid (tagIds v)
    \<and> tagIds (removeTagValue v cid ClusterTagValueSeparator) = tagIds v - {cid}
    \<and> tagIds (removeTagValue (joinTagValue v cid ClusterTagValueSeparator) cid ClusterTagValueSeparator) = tagIds v - {cid}
    \<and> joinTagValue (joinTagValue v cid ClusterTagValueSeparator) cid ClusterTagValueSeparator
       = joinTagValue v cid ClusterTagValueSeparator"
proof -
  have join: "tagIds (joinTagValue x cid ClusterTagValueSeparator) = insert cid (tagIds x)" for x
    using joinTagValue_ids[OF assms(1)] assms(2) by simp
  have canon: "joinTagValue x cid ClusterTagValueSeparator
      = Join [ClusterTagValueSeparator] (sorted_list_of_set (insert cid (tagIds x)))" for x
  proof -
    have "sort (remdups (filter (\<lambda>v. v \<noteq> []) (Split ClusterTagValueSeparator x) @ [cid]))
      = sorted_list_of_set (insert cid (tagIds x))"
      by (rule sorted_distinct_set_unique)
        (auto simp: tagIds_def simp del: sorted_list_of_set_insert_remove)
    with assms(2) show ?thesis by (simp add: joinTagValue_def Let_def)
  qed
  have "joinTagValue (joinTagValue v cid ClusterTagValueSeparator) cid ClusterTagValueSeparator
      = joinTagValue v cid ClusterTagValueSeparator"
    by (simp only: canon[of "joinTagValue v cid ClusterTagValueSeparator"] join insert_absorb2) (rule canon[symmetric])
  then show ?thesis by (simp add: join removeTagValue_ids)
qed

theorem cluster_tag_roundtrip_witness:
  "tagIds (removeTagValue (joinTagValue ''k8s-b/k8s-a'' ''k8s-c'' ClusterTagValueSeparator) ''k8s-c'' ClusterTagValueSeparator)
   = {''k8s-a'', ''k8s-b''}"
proof -
  have "ClusterTagValueSeparator \<notin> set ''k8s-c''" by (simp add: ClusterTagValueSeparator_def)
  moreover have "tagIds ''k8s-b/k8s-a'' - {''k8s-c''} = {''k8s-a'', ''k8s-b''}"
    by (simp add: tagIds_def ClusterTagValueSeparator_def) auto
  ultimately show ?thesis using cluster_tag_roundtrip[of "''k8s-c''" "''k8s-b/k8s-a''"] by simp
qed

end
