(* ===== verification/Pools.thy ===== *)
theory Pools
  imports Tags
begin

text \<open>
  Pools: \<^verbatim>\<open>internal/usecase/lbc_uc/retry_not_ready.go\<close>, \<^verbatim>\<open>deploy_pool.go\<close> and \<^verbatim>\<open>delete_pool.go\<close>.

  The messages \<open>buildPoolUpdateRequest\<close> collects are only logged and are left out; whether it asks for
  an update, and the request, are kept.
\<close>

section \<open>Waiting out a busy load balancer\<close>

definition maxLoadBalancerBusyRetries :: nat where "maxLoadBalancerBusyRetries = 3"

text \<open>The loop; the first argument counts the attempts left after this one.\<close>

primrec busyRetry :: "nat \<Rightarrow> task \<Rightarrow> string \<Rightarrow> 'a M \<Rightarrow> 'a M" where
  "busyRetry 0 t lbId write = write"
| "busyRetry (Suc n) t lbId write =
     andThen (attempt write) (\<lambda>r. case r of
       Inr x \<Rightarrow> returnM x
     | Inl err \<Rightarrow>
         if \<not> IsLoadBalancerNotReady err then failM err
         else andThen (WaitForLBActive t lbId) (\<lambda>_. busyRetry n t lbId write))"

definition retryOnLoadBalancerNotReady :: "task \<Rightarrow> string \<Rightarrow> 'a M \<Rightarrow> 'a M" where
  "retryOnLoadBalancerNotReady t lbId write = busyRetry (maxLoadBalancerBusyRetries - 1) t lbId write"

section \<open>Requests\<close>

definition buildCreatePoolRequest :: "task \<Rightarrow> string \<Rightarrow> Pool \<Rightarrow> CreatePoolRequest" where
  "buildCreatePoolRequest t lbId pool =
     (let opts = cfg_LoadBalancerOpts (t_cfg t); hm = pool_HealthMonitor pool;
          or_default = (\<lambda>p d. case p of None \<Rightarrow> d | Some v \<Rightarrow> v);
          layer7 = (sp_Type (t_Spec t) = LoadBalancerTypeLayer7 (t_sdk t));
          flag = (\<lambda>p. if layer7 then Some (case p of None \<Rightarrow> False | Some b \<Rightarrow> b) else None)
      in \<lparr>cpr_LoadBalancerId = lbId,
          cpr_Algorithm = (if nonempty (pool_Algorithm pool) then deref (pool_Algorithm pool) else DefaultPoolAlgorithm opts),
          cpr_PoolName = pool_Name pool,
          cpr_PoolProtocol = pool_Protocol pool,
          cpr_Stickiness = flag (pool_Stickiness pool),
          cpr_TLSEncryption = flag (pool_TLSEncryption pool),
          cpr_HealthMonitor =
            \<lparr>rhm_HealthCheckProtocol = phm_Protocol hm,
             rhm_HealthyThreshold = or_default (phm_HealthyThreshold hm) (DefaultHealthyThreshold opts),
             rhm_UnhealthyThreshold = or_default (phm_UnhealthyThreshold hm) (DefaultUnhealthyThreshold opts),
             rhm_Interval = or_default (phm_Interval hm) (DefaultInterval opts),
             rhm_Timeout = or_default (phm_Timeout hm) (DefaultTimeout opts),
             rhm_HealthCheckMethod = phm_HealthCheckMethod hm,
             rhm_HealthCheckPath = phm_HealthCheckPath hm,
             rhm_SuccessCode = phm_SuccessCode hm,
             rhm_HttpVersion = phm_HttpVersion hm,
             rhm_DomainName = phm_DomainName hm\<rparr>,
          cpr_Members = map NewMember (pool_Members pool)\<rparr>)"

text \<open>\<open>if cond { updateOptions....; isNeedUpdate = true }\<close>\<close>

definition change :: "bool \<Rightarrow> ('r \<Rightarrow> 'r) \<Rightarrow> bool \<times> 'r \<Rightarrow> bool \<times> 'r" where
  "change c f x = (if c then (True, f (snd x)) else x)"

definition differs :: "'a option \<Rightarrow> 'a \<Rightarrow> bool" where
  "differs p cur \<longleftrightarrow> (case p of None \<Rightarrow> False | Some v \<Rightarrow> v \<noteq> cur)"

text \<open>\<open>p != nil && (cur == nil || *p != *cur)\<close>\<close>

definition differsPtr :: "'a option \<Rightarrow> 'a option \<Rightarrow> bool" where
  "differsPtr p cur \<longleftrightarrow> p \<noteq> None \<and> p \<noteq> cur"

definition updHM :: "(HealthMonitorRequest \<Rightarrow> HealthMonitorRequest) \<Rightarrow> UpdatePoolRequest \<Rightarrow> UpdatePoolRequest" where
  "updHM f r = r\<lparr>upr_HealthMonitor := f (upr_HealthMonitor r)\<rparr>"

definition currentPoolRequest :: "task \<Rightarrow> string \<Rightarrow> entity_Pool \<Rightarrow> entity_HealthMonitor \<Rightarrow> UpdatePoolRequest" where
  "currentPoolRequest t lbID current hm =
     \<lparr>upr_PoolId = ep_UUID current, upr_LoadBalancerId = lbID, upr_Algorithm = ep_LoadBalanceMethod current,
      upr_Stickiness = (if sp_Type (t_Spec t) = LoadBalancerTypeLayer7 (t_sdk t) then Some (ep_Stickiness current) else None),
      upr_TLSEncryption = (if sp_Type (t_Spec t) = LoadBalancerTypeLayer7 (t_sdk t) then Some (ep_TLSEncryption current) else None),
      upr_HealthMonitor =
        \<lparr>rhm_HealthCheckProtocol = ehm_HealthCheckProtocol hm,
         rhm_HealthyThreshold = ehm_HealthyThreshold hm,
         rhm_UnhealthyThreshold = ehm_UnhealthyThreshold hm,
         rhm_Interval = ehm_Interval hm,
         rhm_Timeout = ehm_Timeout hm,
         rhm_HealthCheckMethod = ehm_HealthCheckMethod hm,
         rhm_HealthCheckPath = ehm_HealthCheckPath hm,
         rhm_SuccessCode = ehm_SuccessCode hm,
         rhm_HttpVersion = ehm_HttpVersion hm,
         rhm_DomainName = ehm_DomainName hm\<rparr>\<rparr>"

definition isHttp :: "task \<Rightarrow> string \<Rightarrow> bool" where
  "isHttp t p \<longleftrightarrow> p = HealthCheckProtocolHTTP (t_sdk t) \<or> p = HealthCheckProtocolHTTPs (t_sdk t)"

text \<open>\<open>isNeedUpdate\<close> and \<open>updateOptions\<close> at the end of \<open>buildPoolUpdateRequest\<close>.\<close>

definition poolUpdate :: "task \<Rightarrow> string \<Rightarrow> Pool \<Rightarrow> entity_Pool \<Rightarrow> entity_HealthMonitor \<Rightarrow> bool \<times> UpdatePoolRequest" where
  "poolUpdate t lbID pool current hm =
     (let sp = pool_HealthMonitor pool;
          layer7 = (sp_Type (t_Spec t) = LoadBalancerTypeLayer7 (t_sdk t));
          curHttp = isHttp t (ehm_HealthCheckProtocol hm);
          spHttp = isHttp t (phm_Protocol sp);
          x0 = (False, currentPoolRequest t lbID current hm);
          x1 = change (layer7 \<and> differs (pool_Stickiness pool) (ep_Stickiness current))
                 (\<lambda>r. r\<lparr>upr_Stickiness := pool_Stickiness pool\<rparr>) x0;
          x2 = change (layer7 \<and> differs (pool_TLSEncryption pool) (ep_TLSEncryption current))
                 (\<lambda>r. r\<lparr>upr_TLSEncryption := pool_TLSEncryption pool\<rparr>) x1;
          x3 = change (nonempty (pool_Algorithm pool) \<and> differs (pool_Algorithm pool) (ep_LoadBalanceMethod current))
                 (\<lambda>r. r\<lparr>upr_Algorithm := deref (pool_Algorithm pool)\<rparr>) x2;
          x4 = change (differs (phm_HealthyThreshold sp) (ehm_HealthyThreshold hm))
                 (updHM (\<lambda>h. h\<lparr>rhm_HealthyThreshold := the (phm_HealthyThreshold sp)\<rparr>)) x3;
          x5 = change (differs (phm_UnhealthyThreshold sp) (ehm_UnhealthyThreshold hm))
                 (updHM (\<lambda>h. h\<lparr>rhm_UnhealthyThreshold := the (phm_UnhealthyThreshold sp)\<rparr>)) x4;
          x6 = change (differs (phm_Interval sp) (ehm_Interval hm))
                 (updHM (\<lambda>h. h\<lparr>rhm_Interval := the (phm_Interval sp)\<rparr>)) x5;
          x7 = change (differs (phm_Timeout sp) (ehm_Timeout hm))
                 (updHM (\<lambda>h. h\<lparr>rhm_Timeout := the (phm_Timeout sp)\<rparr>)) x6;
          x8 = change (phm_Protocol sp \<noteq> ehm_HealthCheckProtocol hm)
                 (updHM (\<lambda>h. h\<lparr>rhm_HealthCheckProtocol := phm_Protocol sp\<rparr>)) x7
      in (if curHttp \<and> spHttp then
                  let y1 = change (differsPtr (phm_HealthCheckMethod sp) (ehm_HealthCheckMethod hm))
                             (updHM (\<lambda>h. h\<lparr>rhm_HealthCheckMethod := phm_HealthCheckMethod sp\<rparr>)) x8;
                      y2 = change (differsPtr (phm_HealthCheckPath sp) (ehm_HealthCheckPath hm))
                             (updHM (\<lambda>h. h\<lparr>rhm_HealthCheckPath := phm_HealthCheckPath sp\<rparr>)) y1;
                      y3 = change (differsPtr (phm_SuccessCode sp) (ehm_SuccessCode hm))
                             (updHM (\<lambda>h. h\<lparr>rhm_SuccessCode := phm_SuccessCode sp\<rparr>)) y2;
                      y4 = change (differsPtr (phm_HttpVersion sp) (ehm_HttpVersion hm))
                             (updHM (\<lambda>h. h\<lparr>rhm_HttpVersion := phm_HttpVersion sp\<rparr>)) y3
                  in change (differsPtr (phm_DomainName sp) (ehm_DomainName hm))
                       (updHM (\<lambda>h. h\<lparr>rhm_DomainName := phm_DomainName sp\<rparr>)) y4
                else if curHttp \<and> phm_Protocol sp = HealthCheckProtocolTCP (t_sdk t) then
                  change True (updHM (\<lambda>h. h\<lparr>rhm_HealthCheckMethod := None, rhm_HealthCheckPath := None,
                                           rhm_SuccessCode := None, rhm_HttpVersion := None, rhm_DomainName := None\<rparr>)) x8
                else if ehm_HealthCheckProtocol hm = HealthCheckProtocolTCP (t_sdk t) \<and> spHttp then
                  change True (updHM (\<lambda>h. h\<lparr>rhm_HealthCheckMethod := phm_HealthCheckMethod sp,
                                           rhm_HealthCheckPath := phm_HealthCheckPath sp,
                                           rhm_SuccessCode := phm_SuccessCode sp,
                                           rhm_HttpVersion := phm_HttpVersion sp,
                                           rhm_DomainName := phm_DomainName sp\<rparr>)) x8
                else x8))"

definition buildPoolUpdateRequest ::
  "task \<Rightarrow> string \<Rightarrow> Pool \<Rightarrow> entity_Pool \<Rightarrow> entity_HealthMonitor \<Rightarrow> UpdatePoolRequest option" where
  "buildPoolUpdateRequest t lbID pool current hm =
     (case poolUpdate t lbID pool current hm of (isNeedUpdate, updateOptions) \<Rightarrow>
        if \<not> isNeedUpdate then None else Some updateOptions)"

section \<open>Deploying\<close>

definition errPartialDeploy :: go_error where
  "errPartialDeploy = ErrorString ''some pools could not be deployed''"

definition deployPool :: "task \<Rightarrow> string \<Rightarrow> Pool \<Rightarrow> entity_Pool list \<Rightarrow> CreatedPool M" where
  "deployPool t lbId pool currentPools =
     (case find (\<lambda>p. ep_Name p = pool_Name pool) currentPools of
        None \<Rightarrow>
          andThen (retryOnLoadBalancerNotReady t lbId (CreatePool t lbId (buildCreatePoolRequest t lbId pool))) (\<lambda>p.
          andThen (statusAddPoolMember t (ep_UUID p) (pool_Name pool) (pool_Members pool)) (\<lambda>_.
          andThen (WaitForLBActive t lbId) (\<lambda>_.
            returnM \<lparr>cp_Id = ep_UUID p, cp_Name = pool_Name pool, cp_CreatedMembers = pool_Members pool\<rparr>)))
      | Some currentPool \<Rightarrow>
          let uuid = ep_UUID currentPool in
          andThen (statusAddPool t uuid (ep_Name currentPool)) (\<lambda>_.
          andThen (wrapErr (\<lambda>e. ErrorString (''failed to get health monitor for pool '' @ uuid @ '': '' @ Error e))
                     (GetPoolHealthMonitorById t lbId uuid)) (\<lambda>healthMonitor.
          andThen
            (case buildPoolUpdateRequest t lbId pool currentPool healthMonitor of
               None \<Rightarrow> returnM ()
             | Some updateOptions \<Rightarrow>
                 andThen (wrapErr (errorf (''update pool '' @ uuid @ '' on LB '' @ lbId))
                            (retryOnLoadBalancerNotReady t lbId (UpdatePool t lbId uuid updateOptions))) (\<lambda>_.
                 andThen (wrapErr (errorf (''wait LB '' @ lbId @ '' active after updating pool '' @ uuid))
                            (WaitForLBActive t lbId)) (\<lambda>_. returnM ()))) (\<lambda>_.
          andThen (wrapErr (errorf (''get members of pool '' @ uuid @ '' on LB '' @ lbId))
                     (GetPoolMembers t lbId uuid)) (\<lambda>currentPoolMembers.
          andThen (getS lbStatus) (\<lambda>status.
          let createdMemberStatus = (case find (\<lambda>p. cp_Name p = pool_Name pool) (ss_CreatedPools status) of
                                       Some p \<Rightarrow> cp_CreatedMembers p | None \<Rightarrow> []);
              updateMembers = mergePoolMembers createdMemberStatus (convertMemberList currentPoolMembers) (pool_Members pool)
          in andThen
               (if comparePoolMembers updateMembers (convertMemberList currentPoolMembers) then returnM ()
                else andThen (wrapErr (errorf (''update members of pool '' @ uuid @ '' on LB '' @ lbId))
                                (retryOnLoadBalancerNotReady t lbId
                                   (UpdatePoolMembers t lbId uuid (map NewMember updateMembers)))) (\<lambda>_.
                     andThen (wrapErr (errorf (''wait LB '' @ lbId @ '' active after updating members of pool '' @ uuid))
                                (WaitForLBActive t lbId)) (\<lambda>_. returnM ()))) (\<lambda>_.
             andThen (statusAddPoolMember t uuid (ep_Name currentPool) (pool_Members pool)) (\<lambda>_.
               returnM \<lparr>cp_Id = uuid, cp_Name = ep_Name currentPool, cp_CreatedMembers = pool_Members pool\<rparr>))))))))"

definition deployPools :: "task \<Rightarrow> string \<Rightarrow> CreatedPool list M" where
  "deployPools t lbId =
     andThen (ListPool t lbId) (\<lambda>currentPools.
     andThen (collectFailures (\<lambda>pool. wrapErr (errorf (''pool '' @ pool_Name pool)) (deployPool t lbId pool currentPools))
                (sp_Pools (t_Spec t))) (\<lambda>x. case x of (createdPools, failures) \<Rightarrow>
       if failures \<noteq> [] then failM (errorf2 errPartialDeploy (errors_Join failures))
       else returnM createdPools))"

section \<open>Deleting\<close>

definition errPartialDelete :: go_error where
  "errPartialDelete = ErrorString ''some pools could not be cleaned up''"

text \<open>The keys of \<open>mapPoolInUse\<close>.\<close>

definition poolsInUse :: "task \<Rightarrow> string \<Rightarrow> string list M" where
  "poolsInUse t lbId =
     andThen (wrapErr (errorf (''list listeners of LB '' @ lbId)) (ListListenerOfLB t lbId)) (\<lambda>listeners.
     andThen (mapM (\<lambda>l.
         if sp_Type (t_Spec t) = LoadBalancerTypeLayer7 (t_sdk t)
         then andThen (wrapErr (errorf (''list policies of listener '' @ el_UUID l @ '' on LB '' @ lbId))
                         (ListPolicyOfListener t lbId (el_UUID l))) (\<lambda>policies.
                returnM (el_DefaultPoolId l # filter (\<lambda>p. p \<noteq> []) (map epol_RedirectPoolID policies)))
         else returnM [el_DefaultPoolId l]) listeners) (\<lambda>used. returnM (concat used)))"

definition recordedMembers :: "CreatedPool list \<Rightarrow> string \<Rightarrow> PoolMember list" where
  "recordedMembers pools candidateId =
     (case find (\<lambda>m. cp_Id m = candidateId \<and> cp_CreatedMembers m \<noteq> []) pools of
        Some m \<Rightarrow> cp_CreatedMembers m | None \<Rightarrow> [])"

text \<open>The body of the loop over the candidates.\<close>

definition cleanupPool ::
  "task \<Rightarrow> string \<Rightarrow> CreatedPool list \<Rightarrow> CreatedPool list \<Rightarrow> entity_Pool list \<Rightarrow> string list \<Rightarrow> string \<Rightarrow> unit M" where
  "cleanupPool t lbId createdPools newCreatedPools currentPools inUse candidateId =
     (if \<not> list_ex (\<lambda>p. ep_UUID p = candidateId) currentPools then returnM ()
      else
        andThen (wrapErr (errorf (''pool '' @ candidateId @ '': get members'')) (GetPoolMembers t lbId candidateId)) (\<lambda>members.
        case canDeleteWholePool members (recordedMembers createdPools candidateId)
               (recordedMembers newCreatedPools candidateId) of (canDeleteWhole, updateMemberOption) \<Rightarrow>
          if candidateId \<notin> set inUse \<and> canDeleteWhole
          then andThen (wrapErr (errorf (''pool '' @ candidateId @ '': delete''))
                          (retryOnLoadBalancerNotReady t lbId (DeletePool t lbId candidateId))) (\<lambda>_.
               andThen (wrapErr (errorf (''pool '' @ candidateId @ '': wait after delete'')) (WaitForLBActive t lbId))
                 (\<lambda>_. returnM ()))
          else case updateMemberOption of
                 None \<Rightarrow> returnM ()
               | Some ms \<Rightarrow>
                   andThen (wrapErr (errorf (''pool '' @ candidateId @ '': update members''))
                              (retryOnLoadBalancerNotReady t lbId (UpdatePoolMembers t lbId candidateId ms))) (\<lambda>_.
                   andThen (wrapErr (errorf (''pool '' @ candidateId @ '': wait after update'')) (WaitForLBActive t lbId))
                     (\<lambda>_. returnM ()))))"

definition deleteRedundantPoolsFrom :: "task \<Rightarrow> string \<Rightarrow> CreatedPool list \<Rightarrow> CreatedPool list \<Rightarrow> unit M" where
  "deleteRedundantPoolsFrom t lbId createdPools newCreatedPools =
     andThen (wrapErr (errorf (''list pools of LB '' @ lbId)) (ListPool t lbId)) (\<lambda>currentPools.
     andThen (poolsInUse t lbId) (\<lambda>inUse.
     andThen (collectFailures (cleanupPool t lbId createdPools newCreatedPools currentPools inUse)
                (map cp_Id createdPools)) (\<lambda>x.
       if snd x \<noteq> [] then failM (errorf2 errPartialDelete (errors_Join (snd x))) else returnM ())))"

definition deleteRedundantPools :: "task \<Rightarrow> string \<Rightarrow> CreatedPool list \<Rightarrow> unit M" where
  "deleteRedundantPools t lbId newCreatedPools =
     andThen (getS lbStatus) (\<lambda>status. deleteRedundantPoolsFrom t lbId (ss_CreatedPools status) newCreatedPools)"

section \<open>Facts on retrying\<close>

lemma safe_emits_busyRetry:
  "(\<And>s'. emitsR P s s' \<Longrightarrow> safe (emitsR P) write s') \<Longrightarrow> (\<And>h r. P h (EvWaitForLBActive lbId r))
   \<Longrightarrow> safe (emitsR P) (busyRetry n t lbId write) s"
proof (induction n arbitrary: s)
  case (Suc n)
  have wait: "safe (emitsR P) (WaitForLBActive t lbId) s'" for s'
    unfolding WaitForLBActive_def by (intro safe_intro Suc.prems(2))
  have IH: "safe (emitsR P) (busyRetry n t lbId write) s'" if "emitsR P s s'" for s'
    using that by (intro Suc.IH Suc.prems) (blast intro: emitsR_trans)
  have "safe (emitsR P) write s" by (rule Suc.prems(1)) (rule emits.R_refl)
  then show ?case
    by (auto intro!: safe_intro wait IH intro: emitsR_trans)
qed (simp add: emits.R_refl)

lemma safe_emits_retry [safe_intro]:
  "(\<And>s'. emitsR P s s' \<Longrightarrow> safe (emitsR P) write s') \<Longrightarrow> (\<And>h r. P h (EvWaitForLBActive lbId r))
   \<Longrightarrow> safe (emitsR P) (retryOnLoadBalancerNotReady t lbId write) s"
  unfolding retryOnLoadBalancerNotReady_def by (rule safe_emits_busyRetry)

lemma safe_keeps_busyRetry:
  "(\<And>s'. safe (keepsR lbStatus) write s') \<Longrightarrow> safe (keepsR lbStatus) (busyRetry n t lbId write) s"
  by (induction n arbitrary: s) (auto simp: WaitForLBActive_def intro!: safe_intro)

lemma safe_keeps_retry [safe_intro]:
  "(\<And>s'. safe (keepsR lbStatus) write s') \<Longrightarrow> safe (keepsR lbStatus) (retryOnLoadBalancerNotReady t lbId write) s"
  unfolding retryOnLoadBalancerNotReady_def by (rule safe_keeps_busyRetry)

text \<open>
  The outcome of a retried call: \<open>n + 1\<close> attempts at most, a wait between two attempts, and what is
  returned is what the last attempt returned, or the error of the wait that failed.
\<close>

lemma busyRetry_outcome:
  assumes "\<And>r r'. ev r \<noteq> EvWaitForLBActive lbId r'"
  shows "\<exists>es. hist (snd (busyRetry n t lbId (call ev f) s)) = hist s @ es
    \<and> length (filter (\<lambda>e. e \<in> range ev) es) \<le> Suc n
    \<and> ((\<exists>h. last es = ev (f h) \<and> fst (busyRetry n t lbId (call ev f) s) = f h
          \<and> ((\<exists>e. f h = Inl e \<and> IsLoadBalancerNotReady e) \<longrightarrow> length (filter (\<lambda>e. e \<in> range ev) es) = Suc n))
       \<or> (\<exists>e. last es = EvWaitForLBActive lbId (Inl e) \<and> fst (busyRetry n t lbId (call ev f) s) = Inl e))
    \<and> es \<noteq> []"
proof (induction n arbitrary: s)
  case 0
  show ?case by (intro exI[of _ "[ev (f (hist s))]"]) auto
next
  case (Suc n)
  let ?s1 = "s\<lparr>hist := hist s @ [ev (f (hist s))]\<rparr>"
  show ?case
  proof (cases "\<exists>e. f (hist s) = Inl e \<and> IsLoadBalancerNotReady e")
    case False
    then have eq: "busyRetry (Suc n) t lbId (call ev f) s = (f (hist s), ?s1)"
      by (cases "f (hist s)") (auto simp: andThen_def attempt_def)
    show ?thesis
      unfolding eq using False by (intro exI[of _ "[ev (f (hist s))]"]) auto
  next
    case True
    then obtain e where e: "f (hist s) = Inl e" "IsLoadBalancerNotReady e" by blast
    let ?w = "api_WaitForLBActive (t_vng t) (hist ?s1) lbId"
    let ?s2 = "s\<lparr>hist := hist s @ [ev (f (hist s)), EvWaitForLBActive lbId ?w]\<rparr>"
    have step: "busyRetry (Suc n) t lbId (call ev f) s =
        (case ?w of Inl e' \<Rightarrow> (Inl e', ?s2) | Inr _ \<Rightarrow> busyRetry n t lbId (call ev f) ?s2)"
      using e by (simp add: andThen_def attempt_def WaitForLBActive_def split: sum.splits)
    have notw: "EvWaitForLBActive lbId r \<notin> range ev" for r using assms by (metis imageE)
    show ?thesis
    proof (cases ?w)
      case (Inl e')
      with step have eq: "busyRetry (Suc n) t lbId (call ev f) s = (Inl e', ?s2)" by simp
      show ?thesis
        unfolding eq using notw Inl by (intro exI[of _ "[ev (f (hist s)), EvWaitForLBActive lbId ?w]"]) auto
    next
      case (Inr u)
      with step have eq: "busyRetry (Suc n) t lbId (call ev f) s = busyRetry n t lbId (call ev f) ?s2" by simp
      from Suc.IH[of ?s2] obtain es where "hist (snd (busyRetry n t lbId (call ev f) ?s2)) = hist ?s2 @ es"
        "length (filter (\<lambda>e. e \<in> range ev) es) \<le> Suc n" "es \<noteq> []"
        "(\<exists>h. last es = ev (f h) \<and> fst (busyRetry n t lbId (call ev f) ?s2) = f h
          \<and> ((\<exists>e. f h = Inl e \<and> IsLoadBalancerNotReady e) \<longrightarrow> length (filter (\<lambda>e. e \<in> range ev) es) = Suc n))
         \<or> (\<exists>e. last es = EvWaitForLBActive lbId (Inl e) \<and> fst (busyRetry n t lbId (call ev f) ?s2) = Inl e)"
        by blast
      with notw show ?thesis
        unfolding eq
        by (intro exI[of _ "ev (f (hist s)) # EvWaitForLBActive lbId ?w # es"]) (simp del: busyRetry.simps)
    qed
  qed
qed

text \<open>
  C39. A write to a busy load balancer is tried three times at most, and the answer of the last
  attempt is what the caller gets: success, an error other than "not ready" (which is never retried),
  "not ready" only after all three attempts, or the error of the wait in between.
\<close>

theorem retryOnLoadBalancerNotReady_bounded:
  assumes "\<And>r r'. ev r \<noteq> EvWaitForLBActive lbId r'"
  shows "\<exists>es. hist (snd (retryOnLoadBalancerNotReady t lbId (call ev f) s)) = hist s @ es
    \<and> length (filter (\<lambda>e. e \<in> range ev) es) \<le> 3
    \<and> ((\<exists>h. last es = ev (f h) \<and> fst (retryOnLoadBalancerNotReady t lbId (call ev f) s) = f h
          \<and> ((\<exists>e. f h = Inl e \<and> IsLoadBalancerNotReady e) \<longrightarrow> length (filter (\<lambda>e. e \<in> range ev) es) = 3))
       \<or> (\<exists>e. last es = EvWaitForLBActive lbId (Inl e)
             \<and> fst (retryOnLoadBalancerNotReady t lbId (call ev f) s) = Inl e))"
proof -
  have three: "Suc (3 - 1) = (3::nat)" by simp
  from busyRetry_outcome[of ev lbId "3 - 1" t f s, OF assms] show ?thesis
    unfolding retryOnLoadBalancerNotReady_def maxLoadBalancerBusyRetries_def three by blast
qed

definition ex_busy :: go_error where
  "ex_busy = ErrorString ''The load balancer id lb-1 is not ready''"

theorem retryOnLoadBalancerNotReady_bounded_witness:
  "\<exists>es. hist (snd (retryOnLoadBalancerNotReady ex_task ''lb-1''
         (call (EvDeletePool ''lb-1'' ''pool-1'') (\<lambda>h. if length h < 4 then Inl ex_busy else Inr ())) ex_st)) = [] @ es
    \<and> length (filter (\<lambda>e. e \<in> range (EvDeletePool ''lb-1'' ''pool-1'')) es) \<le> 3"
  using retryOnLoadBalancerNotReady_bounded[of "EvDeletePool ''lb-1'' ''pool-1''" "''lb-1''" ex_task
      "\<lambda>h. if length h < 4 then Inl ex_busy else Inr ()" ex_st]
  by (auto simp: ex_st_def)

section \<open>What is deleted\<close>

definition poolUnused :: "task \<Rightarrow> string \<Rightarrow> string \<Rightarrow> event list \<Rightarrow> bool" where
  "poolUnused t lbId p es \<longleftrightarrow>
     (\<exists>lis. EvListListenerOfLB lbId (Inr lis) \<in> set es \<and> (\<forall>l \<in> set lis. el_DefaultPoolId l \<noteq> p)
        \<and> (sp_Type (t_Spec t) = LoadBalancerTypeLayer7 (t_sdk t) \<longrightarrow>
             (\<forall>l \<in> set lis. \<exists>pols. EvListPolicyOfListener lbId (el_UUID l) (Inr pols) \<in> set es
                \<and> (p \<noteq> [] \<longrightarrow> (\<forall>q \<in> set pols. epol_RedirectPoolID q \<noteq> p)))))"

definition poolDeletable ::
  "task \<Rightarrow> string \<Rightarrow> CreatedPool list \<Rightarrow> CreatedPool list \<Rightarrow> event list \<Rightarrow> string \<Rightarrow> bool" where
  "poolDeletable t lbId created newCreated es p \<longleftrightarrow>
     p \<in> cp_Id ` set created \<and> recordedMembers newCreated p = []
     \<and> (\<exists>ps. EvListPool lbId (Inr ps) \<in> set es \<and> p \<in> ep_UUID ` set ps)
     \<and> poolUnused t lbId p es
     \<and> (\<exists>ms. EvGetPoolMembers lbId p (Inr ms) \<in> set es
          \<and> (\<forall>m \<in> set ms. memberKey (convertMember m) \<in> memberKey ` set (recordedMembers created p)))"

definition poolCleanup ::
  "task \<Rightarrow> string \<Rightarrow> CreatedPool list \<Rightarrow> CreatedPool list \<Rightarrow> history \<Rightarrow> history \<Rightarrow> event \<Rightarrow> bool" where
  "poolCleanup t lbId created newCreated h0 h e =
     (case e of
        EvDeletePool l p r \<Rightarrow> l = lbId \<and> (\<exists>es. h = h0 @ es \<and> poolDeletable t lbId created newCreated es p)
      | EvUpdatePoolMembers l p ms r \<Rightarrow> l = lbId \<and> p \<in> cp_Id ` set created
          \<and> (\<exists>es cur. h = h0 @ es \<and> EvGetPoolMembers lbId p (Inr cur) \<in> set es
               \<and> ms = map NewMember (mergePoolMembers (recordedMembers created p) (convertMemberList cur)
                                        (recordedMembers newCreated p)))
      | EvPatchMeta _ _ _ \<Rightarrow> False
      | _ \<Rightarrow> \<not> isCloudWrite e)"

lemma poolsInUse_trace:
  assumes "poolsInUse t lbId s = (Inr inUse, s')"
  shows "\<exists>es. hist s' = hist s @ es \<and> (\<forall>p. p \<notin> set inUse \<longrightarrow> poolUnused t lbId p es)"
proof -
  let ?L7 = "sp_Type (t_Spec t) = LoadBalancerTypeLayer7 (t_sdk t)"
  let ?f = "\<lambda>l. if ?L7
      then andThen (wrapErr (errorf (''list policies of listener '' @ el_UUID l @ '' on LB '' @ lbId))
             (ListPolicyOfListener t lbId (el_UUID l))) (\<lambda>policies.
             returnM (el_DefaultPoolId l # filter (\<lambda>p. p \<noteq> []) (map epol_RedirectPoolID policies)))
      else returnM [el_DefaultPoolId l]"
  let ?Q = "\<lambda>l used es. el_DefaultPoolId l \<in> set used \<and>
      (?L7 \<longrightarrow> (\<exists>pols. EvListPolicyOfListener lbId (el_UUID l) (Inr pols) \<in> set es
         \<and> (\<forall>q \<in> set pols. epol_RedirectPoolID q \<noteq> [] \<longrightarrow> epol_RedirectPoolID q \<in> set used)))"
  from assms obtain lis used s1 where
    lis: "api_ListListenerOfLB (t_vng t) (hist s) lbId = Inr lis"
    and s1: "s1 = s\<lparr>hist := hist s @ [EvListListenerOfLB lbId (Inr lis)]\<rparr>"
    and loop: "mapM ?f lis s1 = (Inr used, s')" and use: "inUse = concat used"
    unfolding poolsInUse_def ListListenerOfLB_def by (auto simp: andThen_Inr_iff)
  have step: "\<exists>es. hist s2 = hist s0 @ es \<and> ?Q l u es" if "l \<in> set lis" "?f l s0 = (Inr u, s2)" for l s0 u s2
    using that
    by (cases "?L7") (auto simp: andThen_Inr_iff ListPolicyOfListener_def)
  from mapM_trace[where Q = ?Q, OF step loop] obtain es where es: "hist s' = hist s1 @ es"
    "list_all2 (\<lambda>l u. \<exists>es'. set es' \<subseteq> set es \<and> ?Q l u es') lis used" by blast
  have each: "\<exists>u \<in> set used. \<exists>es'. set es' \<subseteq> set es \<and> ?Q l u es'" if "l \<in> set lis" for l
    using list_all2_mem[OF es(2) that] .
  have "poolUnused t lbId p (EvListListenerOfLB lbId (Inr lis) # es)" if p: "p \<notin> set inUse" for p
    unfolding poolUnused_def
  proof (intro exI[of _ lis] conjI impI ballI)
    show "EvListListenerOfLB lbId (Inr lis) \<in> set (EvListListenerOfLB lbId (Inr lis) # es)" by simp
  next
    fix l assume "l \<in> set lis"
    from each[OF this] p use show "el_DefaultPoolId l \<noteq> p" by auto
  next
    fix l assume L7: "?L7" and "l \<in> set lis"
    from each[OF this(2)] obtain u es' pols where "u \<in> set used" "set es' \<subseteq> set es"
      "EvListPolicyOfListener lbId (el_UUID l) (Inr pols) \<in> set es'"
      "\<forall>q \<in> set pols. epol_RedirectPoolID q \<noteq> [] \<longrightarrow> epol_RedirectPoolID q \<in> set u"
      using L7 by blast
    with p use show "\<exists>pols. EvListPolicyOfListener lbId (el_UUID l) (Inr pols) \<in> set (EvListListenerOfLB lbId (Inr lis) # es)
      \<and> (p \<noteq> [] \<longrightarrow> (\<forall>q \<in> set pols. epol_RedirectPoolID q \<noteq> p))"
      by (intro exI[of _ pols]) auto
  qed
  with es(1) s1 show ?thesis by auto
qed

lemma poolUnused_mono: "poolUnused t lbId p es \<Longrightarrow> set es \<subseteq> set es' \<Longrightarrow> poolUnused t lbId p es'"
  unfolding poolUnused_def by (meson subsetD)

lemma poolDeletable_mono:
  "poolDeletable t lbId c n es p \<Longrightarrow> set es \<subseteq> set es' \<Longrightarrow> poolDeletable t lbId c n es' p"
  unfolding poolDeletable_def by (meson poolUnused_mono subsetD)

lemma poolCleanup_reads [simp]:
  "poolCleanup t lbId c n h0 h (EvWaitForLBActive l w)"
  "poolCleanup t lbId c n h0 h (EvGetPoolMembers l p ms)"
  "poolCleanup t lbId c n h0 h (EvListPool l ps)"
  "poolCleanup t lbId c n h0 h (EvListListenerOfLB l ls)"
  "poolCleanup t lbId c n h0 h (EvListPolicyOfListener l i pols)"
  by (simp_all add: poolCleanup_def isCloudWrite_def)

lemma safe_cleanupPool:
  assumes h: "hist s = h0 @ es" and "candidateId \<in> cp_Id ` set created"
    and "EvListPool lbId (Inr pools) \<in> set es"
    and "\<And>p. p \<notin> set inUse \<Longrightarrow> poolUnused t lbId p es"
  shows "safe (emitsR (poolCleanup t lbId created newCreated h0))
    (cleanupPool t lbId created newCreated pools inUse candidateId) s"
proof -
  let ?P = "poolCleanup t lbId created newCreated h0"
  have wait: "safe (emitsR ?P) (WaitForLBActive t lbId) s'" for s'
    unfolding WaitForLBActive_def by (intro safe_intro poolCleanup_reads)
  have get: "safe (emitsR ?P) (GetPoolMembers t lbId candidateId) s'" for s'
    unfolding GetPoolMembers_def by (intro safe_intro poolCleanup_reads)
  have del: "safe (emitsR ?P) (DeletePool t lbId candidateId) s2"
    if read: "GetPoolMembers t lbId candidateId s = (Inr ms, s1)" and ext: "emitsR ?P s1 s2"
      and ex: "list_ex (\<lambda>p. ep_UUID p = candidateId) pools" and unused: "candidateId \<notin> set inUse"
      and whole: "canDeleteWholePool ms (recordedMembers created candidateId) (recordedMembers newCreated candidateId) = (True, u)"
    for ms s1 s2 u
  proof -
    from read h have "hist s1 = h0 @ es @ [EvGetPoolMembers lbId candidateId (Inr ms)]"
      unfolding GetPoolMembers_def by (simp add: call_result del: call_eq)
    with ext obtain es' where h2: "hist s2 = h0 @ es @ [EvGetPoolMembers lbId candidateId (Inr ms)] @ es'"
      by (auto dest!: emitsR_hist)
    have "poolUnused t lbId candidateId (es @ [EvGetPoolMembers lbId candidateId (Inr ms)] @ es')"
      using assms(4)[OF unused] by (rule poolUnused_mono) auto
    moreover have "recordedMembers newCreated candidateId = []"
      "\<forall>m \<in> set ms. memberKey (convertMember m) \<in> memberKey ` set (recordedMembers created candidateId)"
      using canDeleteWholePool_iff[of ms "recordedMembers created candidateId" "recordedMembers newCreated candidateId"] whole
      by auto
    moreover have "candidateId \<in> ep_UUID ` set pools" using ex by (auto simp: list_ex_iff)
    ultimately have "poolDeletable t lbId created newCreated (es @ [EvGetPoolMembers lbId candidateId (Inr ms)] @ es') candidateId"
      unfolding poolDeletable_def using assms(2,3) by (intro conjI) auto
    with h2 show ?thesis
      unfolding DeletePool_def by (intro safe_intro) (auto simp: poolCleanup_def)
  qed
  have upd: "safe (emitsR ?P) (UpdatePoolMembers t lbId candidateId w) s2"
    if read: "GetPoolMembers t lbId candidateId s = (Inr ms, s1)" and ext: "emitsR ?P s1 s2"
      and w: "canDeleteWholePool ms (recordedMembers created candidateId) (recordedMembers newCreated candidateId) = (b, Some w)"
    for ms s1 s2 w b
  proof -
    from read h ext obtain es' where h2: "hist s2 = h0 @ es @ [EvGetPoolMembers lbId candidateId (Inr ms)] @ es'"
      by (auto simp: GetPoolMembers_def dest!: emitsR_hist)
    have "w = map NewMember (mergePoolMembers (recordedMembers created candidateId) (convertMemberList ms)
        (recordedMembers newCreated candidateId))"
      using canDeleteWholePool_members w by (metis snd_conv)
    then have "?P (hist s2) (EvUpdatePoolMembers lbId candidateId w r)" for r
      unfolding h2 poolCleanup_def using assms(2)
      by (auto intro!: exI[of _ "es @ EvGetPoolMembers lbId candidateId (Inr ms) # es'"] exI[of _ ms])
    then show ?thesis unfolding UpdatePoolMembers_def by (intro safe_intro)
  qed
  show ?thesis
    unfolding cleanupPool_def
    by (intro safe_intro get wait poolCleanup_reads) (auto intro: del upd)
qed

lemma safe_deleteRedundantPoolsFrom:
  "safe (emitsR (poolCleanup t lbId created newCreated (hist s)))
     (deleteRedundantPoolsFrom t lbId created newCreated) s"
proof -
  let ?P = "poolCleanup t lbId created newCreated (hist s)"
  have use: "safe (emitsR ?P) (poolsInUse t lbId) s'" for s'
    unfolding poolsInUse_def ListListenerOfLB_def ListPolicyOfListener_def by (intro safe_intro poolCleanup_reads)
  have loop: "safe (emitsR ?P) (cleanupPool t lbId created newCreated pools inUse c) s3"
    if "ListPool t lbId s = (Inr pools, s1)" "poolsInUse t lbId s1 = (Inr inUse, s2)" "emitsR ?P s2 s3"
      "c \<in> set (map cp_Id created)" for pools s1 inUse s2 s3 c
  proof -
    from that(1) have h1: "hist s1 = hist s @ [EvListPool lbId (Inr pools)]"
      unfolding ListPool_def by (simp only: call_result)
    from poolsInUse_trace[OF that(2)] obtain es where es: "hist s2 = hist s1 @ es"
      "\<And>p. p \<notin> set inUse \<Longrightarrow> poolUnused t lbId p es" by blast
    from that(3) obtain es' where "hist s3 = hist s2 @ es'" by (auto dest: emitsR_hist)
    with h1 es(1) have h3: "hist s3 = hist s @ EvListPool lbId (Inr pools) # es @ es'" by simp
    show ?thesis
    proof (rule safe_cleanupPool[OF h3])
      show "poolUnused t lbId p (EvListPool lbId (Inr pools) # es @ es')" if "p \<notin> set inUse" for p
        by (rule poolUnused_mono[OF es(2)[OF that]]) auto
    qed (use that(4) in auto)
  qed
  show ?thesis
    unfolding deleteRedundantPoolsFrom_def
    by (intro safe_intro use) (auto simp: ListPool_def intro!: safe_intro intro: loop[unfolded ListPool_def])
qed

text \<open>
  C27. Pools are deleted only when they are ours and idle. Whatever the cloud answers, every
  \<open>DeletePool\<close> that \<open>deleteRedundantPoolsFrom\<close> makes is for a pool on the record it was given, and by
  what this same run read: the pool exists on the load balancer, no listener has it as its default
  pool, on a layer-7 load balancer no policy redirects to it, every member it holds is on the record,
  and none is wanted any more. Every member update it makes writes the merge that keeps the members
  of others. It makes no other change to the cloud.
\<close>

theorem deleteRedundantPoolsFrom_safe:
  "safe (emitsR (poolCleanup t lbId created newCreated (hist s)))
     (deleteRedundantPoolsFrom t lbId created newCreated) s"
  by (rule safe_deleteRedundantPoolsFrom)

section \<open>What is deployed\<close>

text \<open>The calls of \<open>deployPools\<close>: everything happens on this load balancer, and nothing is deleted.\<close>

definition deployPoolCalls :: "string \<Rightarrow> event \<Rightarrow> bool" where
  "deployPoolCalls lbId e =
     (case e of
        EvListPool l _ \<Rightarrow> l = lbId | EvCreatePool l _ _ \<Rightarrow> l = lbId | EvUpdatePool l _ _ _ \<Rightarrow> l = lbId
      | EvUpdatePoolMembers l _ _ _ \<Rightarrow> l = lbId | EvGetPoolMembers l _ _ \<Rightarrow> l = lbId
      | EvGetPoolHealthMonitorById l _ _ \<Rightarrow> l = lbId | EvWaitForLBActive l _ \<Rightarrow> l = lbId
      | EvGetLBC _ _ _ \<Rightarrow> True | EvPatchStatus _ _ _ \<Rightarrow> True | _ \<Rightarrow> False)"

lemma own_status_deployPoolCalls [simp]: "own_status (\<lambda>_. deployPoolCalls lbId) t"
  by (simp add: own_status_def deployPoolCalls_def)

lemma safe_deployPool:
  "safe (emitsR (\<lambda>_. deployPoolCalls lbId)) (deployPool t lbId pool currentPools) s"
  unfolding deployPool_def WaitForLBActive_def GetPoolHealthMonitorById_def UpdatePool_def GetPoolMembers_def
    UpdatePoolMembers_def CreatePool_def
  by (intro safe_intro own_status_deployPoolCalls) (simp_all add: deployPoolCalls_def)

lemma safe_deployPools: "safe (emitsR (\<lambda>_. deployPoolCalls lbId)) (deployPools t lbId) s"
  unfolding deployPools_def ListPool_def
  by (intro safe_intro safe_deployPool) (simp_all add: deployPoolCalls_def)

lemma errors_As_errorf2:
  assumes "\<And>m es. f (Wraps m es) = None"
  shows "errors_As f (errorf2 a b) = (case errors_As f a of Some x \<Rightarrow> Some x | None \<Rightarrow> errors_As f b)"
  using assms by (simp add: errorf2_def split: option.splits)

lemma errors_As_errors_Join:
  assumes "\<And>m es. f (Wraps m es) = None" and "e \<in> set es" and "errors_As f e \<noteq> None"
  shows "errors_As f (errors_Join es) \<noteq> None"
  using assms errors_As_list_mem[of f es] by (auto simp: errors_Join_def split: option.splits)

text \<open>
  One failing pool does not hold back the others. Once the pools of the load balancer are
  listed, every pool of the spec is deployed in the same pass, whatever happens to the others; the
  pass succeeds only if every one of them did, with one entry each; and when one was turned away by
  the rate limiter, the joined error still says so to \<open>errors.As\<close>.
\<close>

theorem deployPools_independent:
  assumes "api_ListPool (t_vng t) (hist s) lbId = Inr pools" and "deployPools t lbId s = (r, s')"
    and "pool \<in> set (sp_Pools (t_Spec t))"
  shows "\<exists>es1 s1 es2. hist s1 = hist s @ es1 \<and> hist s' = hist (snd (deployPool t lbId pool pools s1)) @ es2
    \<and> (case fst (deployPool t lbId pool pools s1) of
         Inl e \<Rightarrow> (\<exists>err. r = Inl err \<and> (errors_As is_RateLimit e \<noteq> None \<longrightarrow> errors_As is_RateLimit err \<noteq> None))
       | Inr c \<Rightarrow> (\<exists>err. r = Inl err) \<or> (\<exists>cs. r = Inr cs \<and> c \<in> set cs \<and> length cs = length (sp_Pools (t_Spec t))))"
proof -
  let ?f = "\<lambda>pool. wrapErr (errorf (''pool '' @ pool_Name pool)) (deployPool t lbId pool pools)"
  let ?s0 = "s\<lparr>hist := hist s @ [EvListPool lbId (Inr pools)]\<rparr>"
  obtain cs fs s2 where loop: "collectFailures ?f (sp_Pools (t_Spec t)) ?s0 = (Inr (cs, fs), s2)"
    and len: "length cs + length fs = length (sp_Pools (t_Spec t))"
    using collectFailures_total[of ?f "sp_Pools (t_Spec t)" ?s0]
    by (cases "collectFailures ?f (sp_Pools (t_Spec t)) ?s0") auto
  have r: "r = (if fs \<noteq> [] then Inl (errorf2 errPartialDeploy (errors_Join fs)) else Inr cs)" "s' = s2"
    using assms(1,2) loop by (auto simp: deployPools_def ListPool_def andThen_def split: if_splits)
  have "\<exists>es. hist (snd (?f x s0)) = hist s0 @ es" for x s0
    using safe_deployPool[of lbId t x pools s0] by (auto simp: safe_def dest: emitsR_hist)
  from collectFailures_visits[OF this assms(3) loop] obtain es1 s1 es2 where v: "hist s1 = hist ?s0 @ es1"
    "hist s2 = hist (snd (?f pool s1)) @ es2" "case fst (?f pool s1) of Inl e \<Rightarrow> e \<in> set fs | Inr y \<Rightarrow> y \<in> set cs"
    by blast
  have "case fst (deployPool t lbId pool pools s1) of
         Inl e \<Rightarrow> (\<exists>err. r = Inl err \<and> (errors_As is_RateLimit e \<noteq> None \<longrightarrow> errors_As is_RateLimit err \<noteq> None))
       | Inr c \<Rightarrow> (\<exists>err. r = Inl err) \<or> (\<exists>cs. r = Inr cs \<and> c \<in> set cs \<and> length cs = length (sp_Pools (t_Spec t)))"
  proof (cases "deployPool t lbId pool pools s1")
    case (Pair d s3)
    show ?thesis
    proof (cases d)
      case (Inl e)
      with v(3) Pair have "errorf (''pool '' @ pool_Name pool) e \<in> set fs" by (simp add: wrapErr_def)
      moreover from this have "r = Inl (errorf2 errPartialDeploy (errors_Join fs))" using r(1) by auto
      ultimately show ?thesis
        using Pair Inl errors_As_errors_Join[of is_RateLimit _ fs]
        by (auto simp: errors_As_errorf2 split: option.splits)
    next
      case (Inr c)
      with v(3) Pair have "c \<in> set cs" by (simp add: wrapErr_def)
      with r(1) len Pair Inr show ?thesis by auto
    qed
  qed
  with v(1,2) r(2) show ?thesis
    by (intro exI[of _ "EvListPool lbId (Inr pools) # es1"] exI[of _ s1] exI[of _ es2]) simp
qed

definition ex_pool :: Pool where
  "ex_pool =
     \<lparr>pool_Name = ''p'', pool_Protocol = ''TCP'', pool_Description = None, pool_Algorithm = None,
      pool_Stickiness = None, pool_TLSEncryption = None,
      pool_HealthMonitor =
        \<lparr>phm_Protocol = ''TCP'', phm_HealthyThreshold = None, phm_UnhealthyThreshold = None, phm_Interval = None,
         phm_Timeout = None, phm_HealthCheckMethod = None, phm_HttpVersion = None, phm_HealthCheckPath = None,
         phm_DomainName = None, phm_SuccessCode = None\<rparr>,
      pool_Members = []\<rparr>"

definition ex_pool_task :: task where
  "ex_pool_task = ex_task\<lparr>t_vng := ex_vng\<lparr>api_ListPool := (\<lambda>_ _. Inr [])\<rparr>,
     t_Spec := ex_spec\<lparr>sp_Pools := [ex_pool]\<rparr>\<rparr>"

theorem deployPools_independent_witness:
  "\<exists>es1 s1 es2. hist s1 = hist ex_st @ es1
     \<and> hist (snd (deployPools ex_pool_task ''lb-1'' ex_st)) = hist (snd (deployPool ex_pool_task ''lb-1'' ex_pool [] s1)) @ es2"
proof -
  have "api_ListPool (t_vng ex_pool_task) (hist ex_st) ''lb-1'' = Inr []" by (simp add: ex_pool_task_def)
  moreover have "ex_pool \<in> set (sp_Pools (t_Spec ex_pool_task))" by (simp add: ex_pool_task_def)
  ultimately show ?thesis
    using deployPools_independent[of ex_pool_task ex_st "''lb-1''" "[]"
        "fst (deployPools ex_pool_task ''lb-1'' ex_st)" "snd (deployPools ex_pool_task ''lb-1'' ex_st)" ex_pool]
    by auto
qed

section \<open>Members are recorded once they are there\<close>

text \<open>The members the status has on record, pool by pool; a pool without any is the same as none.\<close>

definition memberTable :: "LoadBalancerConfig \<Rightarrow> (string \<times> PoolMember list) list" where
  "memberTable obj = filter (\<lambda>x. snd x \<noteq> []) (map (\<lambda>c. (cp_Id c, cp_CreatedMembers c)) (ss_CreatedPools (lbc_Status obj)))"

text \<open>The pool holds the wanted members: it was created with them, or it was read and either held the
  merged list already or was successfully set to it.\<close>

definition membersPushed :: "string \<Rightarrow> PoolMember list \<Rightarrow> event list \<Rightarrow> bool" where
  "membersPushed lbId members es \<longleftrightarrow>
     (\<exists>req p. EvCreatePool lbId req (Inr p) \<in> set es \<and> cpr_Members req = map NewMember members)
     \<or> (\<exists>uuid cur created. EvGetPoolMembers lbId uuid (Inr cur) \<in> set es
          \<and> (mergePoolMembers created (convertMemberList cur) members = convertMemberList cur
             \<or> EvUpdatePoolMembers lbId uuid
                  (map NewMember (mergePoolMembers created (convertMemberList cur) members)) (Inr ()) \<in> set es))"

definition recordsAfterPush :: "string \<Rightarrow> PoolMember list \<Rightarrow> history \<Rightarrow> history \<Rightarrow> event \<Rightarrow> bool" where
  "recordsAfterPush lbId members h0 h e =
     (case e of
        EvPatchStatus obj obj' r \<Rightarrow>
          memberTable obj' = memberTable obj \<or> (\<exists>es. h = h0 @ es \<and> membersPushed lbId members es)
      | _ \<Rightarrow> True)"

lemma busyRetry_success:
  "busyRetry n t lbId (call ev f) s = (Inr x, s') \<Longrightarrow> \<exists>es. hist s' = hist s @ es \<and> ev (Inr x) \<in> set es"
proof (induction n arbitrary: s)
  case 0
  then show ?case by (auto dest!: call_result simp del: call_eq)
next
  case (Suc n)
  from Suc.prems obtain r s1 where 1: "call ev f s = (r, s1)"
    "(case r of Inr x \<Rightarrow> returnM x | Inl err \<Rightarrow> if \<not> IsLoadBalancerNotReady err then failM err
         else andThen (WaitForLBActive t lbId) (\<lambda>_. busyRetry n t lbId (call ev f))) s1 = (Inr x, s')"
    by (auto simp: andThen_Inr_iff simp del: call_eq)
  show ?case
  proof (cases r)
    case (Inr y)
    with 1 show ?thesis by (auto dest!: call_result simp del: call_eq)
  next
    case (Inl e)
    with 1(2) obtain u s2 where "WaitForLBActive t lbId s1 = (Inr u, s2)" "busyRetry n t lbId (call ev f) s2 = (Inr x, s')"
      by (auto simp: andThen_Inr_iff split: if_splits)
    with Suc.IH[of s2] 1(1) show ?thesis
      by (auto simp: WaitForLBActive_def dest!: call_result simp del: call_eq)
  qed
qed

lemma retry_success:
  "retryOnLoadBalancerNotReady t lbId (call ev f) s = (Inr x, s') \<Longrightarrow> \<exists>es. hist s' = hist s @ es \<and> ev (Inr x) \<in> set es"
  unfolding retryOnLoadBalancerNotReady_def by (rule busyRetry_success)

lemma filter_map_updateFirst:
  "(\<And>x. P x \<Longrightarrow> g (f x) = g x) \<Longrightarrow> filter Q (map g (updateFirst P f xs)) = filter Q (map g xs)"
  by (simp only: updateFirst_map)

lemma mutAddPool_memberTable:
  "mutAddPool i n obj = (c, obj', d) \<Longrightarrow> memberTable obj' = memberTable obj"
  by (auto simp: mutAddPool_def statusMut_def memberTable_def updateFirst_map split: if_splits)

lemma membersPushed_mono:
  "membersPushed lbId members es \<Longrightarrow> set es \<subseteq> set es' \<Longrightarrow> membersPushed lbId members es'"
  unfolding membersPushed_def by (meson subsetD)

lemma membersPushed_held:
  "EvGetPoolMembers lbId uuid (Inr cur) \<in> set es
   \<Longrightarrow> mergePoolMembers created (convertMemberList cur) members = convertMemberList cur \<Longrightarrow> membersPushed lbId members es"
  unfolding membersPushed_def by blast

lemma membersPushed_set:
  "EvGetPoolMembers lbId uuid (Inr cur) \<in> set es
   \<Longrightarrow> EvUpdatePoolMembers lbId uuid (map NewMember (mergePoolMembers created (convertMemberList cur) members)) (Inr ()) \<in> set es
   \<Longrightarrow> membersPushed lbId members es"
  unfolding membersPushed_def by blast

lemma safe_recordsAfterPush_member:
  assumes "hist s = h0 @ es" and "membersPushed lbId members es"
  shows "safe (emitsR (recordsAfterPush lbId members h0)) (statusAddPoolMember t i n ms) s"
proof -
  have "membersPushed lbId members (es @ es')" for es'
    using assms(2) by (rule membersPushed_mono) simp
  then show ?thesis
    unfolding statusAddPoolMember_def
    by (intro safe_emits_PatchMutateStatus_from) (auto simp: recordsAfterPush_def assms(1))
qed

lemma recordsAfterPush_other:
  "(\<And>obj obj' r. e \<noteq> EvPatchStatus obj obj' r) \<Longrightarrow> recordsAfterPush lbId members h0 h e"
  by (cases e) (auto simp: recordsAfterPush_def)

lemma safe_record_created:
  assumes "retryOnLoadBalancerNotReady t lbId (CreatePool t lbId (buildCreatePoolRequest t lbId pool)) s = (Inr p, s1)"
  shows "safe (emitsR (recordsAfterPush lbId (pool_Members pool) (hist s))) (statusAddPoolMember t i n ms) s1"
proof -
  from retry_success[OF assms[unfolded CreatePool_def]] obtain es where
    "hist s1 = hist s @ es" "EvCreatePool lbId (buildCreatePoolRequest t lbId pool) (Inr p) \<in> set es" by blast
  moreover have "cpr_Members (buildCreatePoolRequest t lbId pool) = map NewMember (pool_Members pool)"
    by (simp add: buildCreatePoolRequest_def Let_def)
  ultimately show ?thesis
    by (intro safe_recordsAfterPush_member[of _ _ es]) (auto simp: membersPushed_def)
qed

lemma safe_record_existing:
  assumes read: "GetPoolMembers t lbId uuid s0 = (Inr cms, s1)" and h0: "hist s0 = h0 @ es0"
    and push: "(if comparePoolMembers (mergePoolMembers created (convertMemberList cms) members) (convertMemberList cms)
       then returnM ()
       else andThen (wrapErr f (retryOnLoadBalancerNotReady t lbId
              (UpdatePoolMembers t lbId uuid (map NewMember (mergePoolMembers created (convertMemberList cms) members))))) (\<lambda>_.
            andThen (wrapErr g (WaitForLBActive t lbId)) (\<lambda>_. returnM ()))) s1 = (Inr u, s3)"
  shows "safe (emitsR (recordsAfterPush lbId members h0)) (statusAddPoolMember t i n ms) s3"
proof -
  let ?m = "mergePoolMembers created (convertMemberList cms) members"
  from read h0 have h1: "hist s1 = h0 @ es0 @ [EvGetPoolMembers lbId uuid (Inr cms)]"
    unfolding GetPoolMembers_def by (auto dest!: call_result simp del: call_eq)
  show ?thesis
  proof (cases "comparePoolMembers ?m (convertMemberList cms)")
    case True
    then have "?m = convertMemberList cms" using merge_exact by blast
    then have "membersPushed lbId members (es0 @ [EvGetPoolMembers lbId uuid (Inr cms)])"
      by (intro membersPushed_held[of _ uuid cms]) simp_all
    with True push h1 show ?thesis
      by (intro safe_recordsAfterPush_member[of _ _ "es0 @ [EvGetPoolMembers lbId uuid (Inr cms)]"]) auto
  next
    case False
    with push obtain s2 w where r: "retryOnLoadBalancerNotReady t lbId
        (UpdatePoolMembers t lbId uuid (map NewMember ?m)) s1 = (Inr (), s2)" "WaitForLBActive t lbId s2 = (Inr w, s3)"
      by (auto simp: andThen_Inr_iff)
    from retry_success[OF r(1)[unfolded UpdatePoolMembers_def]] r(2) obtain es1 where
      "hist s3 = hist s1 @ es1" "EvUpdatePoolMembers lbId uuid (map NewMember ?m) (Inr ()) \<in> set es1"
      unfolding WaitForLBActive_def by (auto dest!: call_result simp del: call_eq)
    moreover from this have "membersPushed lbId members (es0 @ EvGetPoolMembers lbId uuid (Inr cms) # es1)"
      by (intro membersPushed_set[of _ uuid cms _ created]) simp_all
    ultimately show ?thesis
      using h1 by (intro safe_recordsAfterPush_member[of _ _ "es0 @ EvGetPoolMembers lbId uuid (Inr cms) # es1"]) auto
  qed
qed

lemma safe_recordsAfterPush_calls:
  "safe (emitsR (recordsAfterPush l ms h0)) (WaitForLBActive t lbId) s"
  "safe (emitsR (recordsAfterPush l ms h0)) (GetPoolHealthMonitorById t lbId uuid) s"
  "safe (emitsR (recordsAfterPush l ms h0)) (GetPoolMembers t lbId uuid) s"
  "safe (emitsR (recordsAfterPush l ms h0)) (retryOnLoadBalancerNotReady t lbId (CreatePool t lbId req)) s"
  "safe (emitsR (recordsAfterPush l ms h0)) (retryOnLoadBalancerNotReady t lbId (UpdatePool t lbId uuid ureq)) s"
  "safe (emitsR (recordsAfterPush l ms h0)) (retryOnLoadBalancerNotReady t lbId (UpdatePoolMembers t lbId uuid mreq)) s"
  unfolding WaitForLBActive_def GetPoolHealthMonitorById_def UpdatePool_def GetPoolMembers_def
    UpdatePoolMembers_def CreatePool_def
  by (intro safe_intro recordsAfterPush_other; simp)+

lemma safe_recordsAfterPush_statusAddPool:
  "safe (emitsR (recordsAfterPush l ms h0)) (statusAddPool t uuid n) s"
  unfolding statusAddPool_def PatchMutateStatus_def
  by (intro safe_intro safe_emits_patchMutateStatusObject)
    (auto simp: recordsAfterPush_def dest: mutAddPool_memberTable)

text \<open>
  \<open>deployPool\<close> records members only once the pool holds them: in every run, a status patch that
  changes any member on record comes after the pool was successfully created with the members of the
  spec, or was read and either held the merged list or was successfully set to it. So a failed push
  never leaves the record ahead of the load balancer.
\<close>

theorem deployPool_records_after_push:
  "safe (emitsR (recordsAfterPush lbId (pool_Members pool) (hist s))) (deployPool t lbId pool currentPools) s"
proof (cases "find (\<lambda>p. ep_Name p = pool_Name pool) currentPools")
  case None
  then show ?thesis
    unfolding deployPool_def
    by (simp, intro emits_struct safe_recordsAfterPush_calls) (auto intro: safe_record_created)
next
  case (Some cur)
  have existing: "safe (emitsR (recordsAfterPush lbId (pool_Members pool) (hist s))) (statusAddPoolMember t i n ms) s3"
    if "GetPoolMembers t lbId uuid s0 = (Inr cms, s1)" "emitsR (recordsAfterPush lbId (pool_Members pool) (hist s)) s s0"
      "(if comparePoolMembers (mergePoolMembers created (convertMemberList cms) (pool_Members pool)) (convertMemberList cms)
       then returnM ()
       else andThen (wrapErr f (retryOnLoadBalancerNotReady t lbId
              (UpdatePoolMembers t lbId uuid (map NewMember (mergePoolMembers created (convertMemberList cms) (pool_Members pool)))))) (\<lambda>_.
            andThen (wrapErr g (WaitForLBActive t lbId)) (\<lambda>_. returnM ()))) s1 = (Inr u, s3)"
    for uuid s0 cms s1 created f g u s3 i n ms
    using safe_record_existing[OF that(1) _ that(3)] emitsR_hist[OF that(2)] by blast
  from Some show ?thesis
    unfolding deployPool_def
    by (simp add: Let_def, intro emits_struct safe_recordsAfterPush_calls safe_recordsAfterPush_statusAddPool)
      (auto intro!: existing intro: emitsR_trans)
qed

section \<open>The update request\<close>

text \<open>What the pool and its health monitor are after the update is applied.\<close>

definition appliedPool :: "UpdatePoolRequest \<Rightarrow> entity_Pool \<Rightarrow> entity_Pool" where
  "appliedPool r current =
     current\<lparr>ep_LoadBalanceMethod := upr_Algorithm r,
       ep_Stickiness := (case upr_Stickiness r of Some b \<Rightarrow> b | None \<Rightarrow> ep_Stickiness current),
       ep_TLSEncryption := (case upr_TLSEncryption r of Some b \<Rightarrow> b | None \<Rightarrow> ep_TLSEncryption current)\<rparr>"

definition appliedHM :: "UpdatePoolRequest \<Rightarrow> entity_HealthMonitor" where
  "appliedHM r =
     (let h = upr_HealthMonitor r in
      \<lparr>ehm_HealthyThreshold = rhm_HealthyThreshold h, ehm_UnhealthyThreshold = rhm_UnhealthyThreshold h,
       ehm_Interval = rhm_Interval h, ehm_Timeout = rhm_Timeout h,
       ehm_HealthCheckProtocol = rhm_HealthCheckProtocol h, ehm_HealthCheckPath = rhm_HealthCheckPath h,
       ehm_DomainName = rhm_DomainName h, ehm_SuccessCode = rhm_SuccessCode h,
       ehm_HealthCheckMethod = rhm_HealthCheckMethod h, ehm_HttpVersion = rhm_HttpVersion h\<rparr>)"

lemma change_simps [simp]:
  "fst (change c f x) \<longleftrightarrow> c \<or> fst x"
  "snd (change c f x) = (if c then f (snd x) else snd x)"
  by (simp_all add: change_def)

lemma updHM_simps [simp]:
  "upr_HealthMonitor (updHM f r) = f (upr_HealthMonitor r)"
  "upr_Algorithm (updHM f r) = upr_Algorithm r"
  "upr_Stickiness (updHM f r) = upr_Stickiness r"
  "upr_TLSEncryption (updHM f r) = upr_TLSEncryption r"
  by (simp_all add: updHM_def)

text \<open>No request exactly when every setting the spec gives agrees with the pool.\<close>

definition poolInSync :: "task \<Rightarrow> Pool \<Rightarrow> entity_Pool \<Rightarrow> entity_HealthMonitor \<Rightarrow> bool" where
  "poolInSync t pool current hm \<longleftrightarrow>
     (let sp = pool_HealthMonitor pool; http = isHttp t (phm_Protocol sp)
      in (sp_Type (t_Spec t) = LoadBalancerTypeLayer7 (t_sdk t) \<longrightarrow>
            \<not> differs (pool_Stickiness pool) (ep_Stickiness current)
            \<and> \<not> differs (pool_TLSEncryption pool) (ep_TLSEncryption current))
         \<and> (nonempty (pool_Algorithm pool) \<longrightarrow> pool_Algorithm pool = Some (ep_LoadBalanceMethod current))
         \<and> \<not> differs (phm_HealthyThreshold sp) (ehm_HealthyThreshold hm)
         \<and> \<not> differs (phm_UnhealthyThreshold sp) (ehm_UnhealthyThreshold hm)
         \<and> \<not> differs (phm_Interval sp) (ehm_Interval hm)
         \<and> \<not> differs (phm_Timeout sp) (ehm_Timeout hm)
         \<and> phm_Protocol sp = ehm_HealthCheckProtocol hm
         \<and> (http \<longrightarrow> \<not> differsPtr (phm_HealthCheckMethod sp) (ehm_HealthCheckMethod hm)
              \<and> \<not> differsPtr (phm_HealthCheckPath sp) (ehm_HealthCheckPath hm)
              \<and> \<not> differsPtr (phm_SuccessCode sp) (ehm_SuccessCode hm)
              \<and> \<not> differsPtr (phm_HttpVersion sp) (ehm_HttpVersion hm)
              \<and> \<not> differsPtr (phm_DomainName sp) (ehm_DomainName hm)))"

lemma build_None_iff: "buildPoolUpdateRequest t lbId pool current hm = None \<longleftrightarrow> poolInSync t pool current hm"
proof -
  have alg: "(nonempty p \<and> differs p c) \<longleftrightarrow> \<not> (nonempty p \<longrightarrow> p = Some c)" for p c
    by (cases p) (auto simp: differs_def)
  have "fst (poolUpdate t lbId pool current hm) \<longleftrightarrow> \<not> poolInSync t pool current hm"
  proof (cases "phm_Protocol (pool_HealthMonitor pool) = ehm_HealthCheckProtocol hm")
    case same: True
    show ?thesis
    proof (cases "isHttp t (ehm_HealthCheckProtocol hm)")
      case True
      with same show ?thesis
        unfolding poolUpdate_def poolInSync_def Let_def alg by (simp only: change_simps fst_conv) (simp add: conj_disj_distribL disj_ac)
    next
      case False
      with same show ?thesis
        unfolding poolUpdate_def poolInSync_def Let_def alg by (simp only: change_simps fst_conv) (simp add: conj_disj_distribL disj_ac)
    qed
  qed (simp add: poolUpdate_def poolInSync_def Let_def)
  then show ?thesis by (cases "poolUpdate t lbId pool current hm") (simp add: buildPoolUpdateRequest_def)
qed

text \<open>The fields of the request: the wanted value where one is given and differs, else the current one.\<close>

definition orElse :: "'a option \<Rightarrow> 'a \<Rightarrow> 'a" where
  "orElse p c = (case p of Some v \<Rightarrow> v | None \<Rightarrow> c)"

lemma if_differs [simp]: "(if differs p c then the p else c) = orElse p c"
  by (cases p) (simp_all add: differs_def orElse_def)

lemma not_differs_orElse [simp]: "\<not> differs p (orElse p c)"
  by (cases p) (simp_all add: differs_def orElse_def)

lemma change_frame: "(\<And>r. F (g r) = F r) \<Longrightarrow> F (snd (change c g x)) = F (snd x)"
  by (simp add: change_def)

lemmas pool_frames =
  change_frame[of upr_Stickiness] change_frame[of upr_TLSEncryption] change_frame[of upr_Algorithm]
  change_frame[of "\<lambda>r. rhm_HealthyThreshold (upr_HealthMonitor r)"]
  change_frame[of "\<lambda>r. rhm_UnhealthyThreshold (upr_HealthMonitor r)"]
  change_frame[of "\<lambda>r. rhm_Interval (upr_HealthMonitor r)"]
  change_frame[of "\<lambda>r. rhm_Timeout (upr_HealthMonitor r)"]
  change_frame[of "\<lambda>r. rhm_HealthCheckProtocol (upr_HealthMonitor r)"]
  change_frame[of "\<lambda>r. rhm_HealthCheckMethod (upr_HealthMonitor r)"]
  change_frame[of "\<lambda>r. rhm_HealthCheckPath (upr_HealthMonitor r)"]
  change_frame[of "\<lambda>r. rhm_SuccessCode (upr_HealthMonitor r)"]
  change_frame[of "\<lambda>r. rhm_HttpVersion (upr_HealthMonitor r)"]
  change_frame[of "\<lambda>r. rhm_DomainName (upr_HealthMonitor r)"]

lemma poolUpdate_flags:
  assumes "sp_Type (t_Spec t) = LoadBalancerTypeLayer7 (t_sdk t)"
  shows "upr_Stickiness (snd (poolUpdate t lbId pool current hm)) = Some (orElse (pool_Stickiness pool) (ep_Stickiness current))"
    "upr_TLSEncryption (snd (poolUpdate t lbId pool current hm)) = Some (orElse (pool_TLSEncryption pool) (ep_TLSEncryption current))"
proof -
  show "upr_Stickiness (snd (poolUpdate t lbId pool current hm)) = Some (orElse (pool_Stickiness pool) (ep_Stickiness current))"
    using assms unfolding poolUpdate_def Let_def
    by (simp add: pool_frames if_distrib[of snd] if_distrib[of upr_Stickiness] del: change_simps(2) cong: if_cong)
      (cases "pool_Stickiness pool"; simp add: currentPoolRequest_def differs_def orElse_def)
  show "upr_TLSEncryption (snd (poolUpdate t lbId pool current hm)) = Some (orElse (pool_TLSEncryption pool) (ep_TLSEncryption current))"
    using assms unfolding poolUpdate_def Let_def
    by (simp add: pool_frames if_distrib[of snd] if_distrib[of upr_TLSEncryption] del: change_simps(2) cong: if_cong)
      (cases "pool_TLSEncryption pool"; simp add: pool_frames currentPoolRequest_def differs_def orElse_def)
qed

lemma poolUpdate_basic:
  shows "upr_Algorithm (snd (poolUpdate t lbId pool current hm)) =
      (if nonempty (pool_Algorithm pool) then deref (pool_Algorithm pool) else ep_LoadBalanceMethod current)"
    "rhm_HealthCheckProtocol (upr_HealthMonitor (snd (poolUpdate t lbId pool current hm))) = phm_Protocol (pool_HealthMonitor pool)"
    "rhm_HealthyThreshold (upr_HealthMonitor (snd (poolUpdate t lbId pool current hm))) = orElse (phm_HealthyThreshold (pool_HealthMonitor pool)) (ehm_HealthyThreshold hm)"
    "rhm_UnhealthyThreshold (upr_HealthMonitor (snd (poolUpdate t lbId pool current hm))) = orElse (phm_UnhealthyThreshold (pool_HealthMonitor pool)) (ehm_UnhealthyThreshold hm)"
    "rhm_Interval (upr_HealthMonitor (snd (poolUpdate t lbId pool current hm))) = orElse (phm_Interval (pool_HealthMonitor pool)) (ehm_Interval hm)"
    "rhm_Timeout (upr_HealthMonitor (snd (poolUpdate t lbId pool current hm))) = orElse (phm_Timeout (pool_HealthMonitor pool)) (ehm_Timeout hm)"
proof -
  show "upr_Algorithm (snd (poolUpdate t lbId pool current hm)) =
      (if nonempty (pool_Algorithm pool) then deref (pool_Algorithm pool) else ep_LoadBalanceMethod current)"
    unfolding poolUpdate_def Let_def
    by (simp add: pool_frames if_distrib[of snd] if_distrib[of upr_Algorithm] del: change_simps(2) cong: if_cong)
      (cases "pool_Algorithm pool"; simp add: pool_frames currentPoolRequest_def differs_def)
  show "rhm_HealthCheckProtocol (upr_HealthMonitor (snd (poolUpdate t lbId pool current hm))) = phm_Protocol (pool_HealthMonitor pool)"
    unfolding poolUpdate_def Let_def
    by (simp add: pool_frames if_distrib[of snd] if_distrib[of "\<lambda>r. rhm_HealthCheckProtocol (upr_HealthMonitor r)"] del: change_simps(2) cong: if_cong)
      (simp add: pool_frames currentPoolRequest_def)
  show "rhm_HealthyThreshold (upr_HealthMonitor (snd (poolUpdate t lbId pool current hm))) = orElse (phm_HealthyThreshold (pool_HealthMonitor pool)) (ehm_HealthyThreshold hm)"
    unfolding poolUpdate_def Let_def
    by (simp add: pool_frames if_distrib[of snd] if_distrib[of "\<lambda>r. rhm_HealthyThreshold (upr_HealthMonitor r)"] del: change_simps(2) cong: if_cong)
      (cases "phm_HealthyThreshold (pool_HealthMonitor pool)"; simp add: pool_frames currentPoolRequest_def differs_def orElse_def)
  show "rhm_UnhealthyThreshold (upr_HealthMonitor (snd (poolUpdate t lbId pool current hm))) = orElse (phm_UnhealthyThreshold (pool_HealthMonitor pool)) (ehm_UnhealthyThreshold hm)"
    unfolding poolUpdate_def Let_def
    by (simp add: pool_frames if_distrib[of snd] if_distrib[of "\<lambda>r. rhm_UnhealthyThreshold (upr_HealthMonitor r)"] del: change_simps(2) cong: if_cong)
      (cases "phm_UnhealthyThreshold (pool_HealthMonitor pool)"; simp add: pool_frames currentPoolRequest_def differs_def orElse_def)
  show "rhm_Interval (upr_HealthMonitor (snd (poolUpdate t lbId pool current hm))) = orElse (phm_Interval (pool_HealthMonitor pool)) (ehm_Interval hm)"
    unfolding poolUpdate_def Let_def
    by (simp add: pool_frames if_distrib[of snd] if_distrib[of "\<lambda>r. rhm_Interval (upr_HealthMonitor r)"] del: change_simps(2) cong: if_cong)
      (cases "phm_Interval (pool_HealthMonitor pool)"; simp add: pool_frames currentPoolRequest_def differs_def orElse_def)
  show "rhm_Timeout (upr_HealthMonitor (snd (poolUpdate t lbId pool current hm))) = orElse (phm_Timeout (pool_HealthMonitor pool)) (ehm_Timeout hm)"
    unfolding poolUpdate_def Let_def
    by (simp add: pool_frames if_distrib[of snd] if_distrib[of "\<lambda>r. rhm_Timeout (upr_HealthMonitor r)"] del: change_simps(2) cong: if_cong)
      (cases "phm_Timeout (pool_HealthMonitor pool)"; simp add: pool_frames currentPoolRequest_def differs_def orElse_def)
qed

text \<open>The HTTP options, when the health check was TCP or HTTP before.\<close>

lemma poolUpdate_http:
  assumes "isHttp t (phm_Protocol (pool_HealthMonitor pool))"
    and "isHttp t (ehm_HealthCheckProtocol hm) \<or> ehm_HealthCheckProtocol hm = HealthCheckProtocolTCP (t_sdk t)"
  shows
    "\<not> differsPtr (phm_HealthCheckMethod (pool_HealthMonitor pool)) (rhm_HealthCheckMethod (upr_HealthMonitor (snd (poolUpdate t lbId pool current hm))))"
    "\<not> differsPtr (phm_HealthCheckPath (pool_HealthMonitor pool)) (rhm_HealthCheckPath (upr_HealthMonitor (snd (poolUpdate t lbId pool current hm))))"
    "\<not> differsPtr (phm_SuccessCode (pool_HealthMonitor pool)) (rhm_SuccessCode (upr_HealthMonitor (snd (poolUpdate t lbId pool current hm))))"
    "\<not> differsPtr (phm_HttpVersion (pool_HealthMonitor pool)) (rhm_HttpVersion (upr_HealthMonitor (snd (poolUpdate t lbId pool current hm))))"
    "\<not> differsPtr (phm_DomainName (pool_HealthMonitor pool)) (rhm_DomainName (upr_HealthMonitor (snd (poolUpdate t lbId pool current hm))))"
proof -
  show "\<not> differsPtr (phm_HealthCheckMethod (pool_HealthMonitor pool)) (rhm_HealthCheckMethod (upr_HealthMonitor (snd (poolUpdate t lbId pool current hm))))"
    using assms unfolding poolUpdate_def Let_def
    by (cases "isHttp t (ehm_HealthCheckProtocol hm)"; simp add: pool_frames del: change_simps(2);
        simp add: pool_frames differsPtr_def currentPoolRequest_def)
  show "\<not> differsPtr (phm_HealthCheckPath (pool_HealthMonitor pool)) (rhm_HealthCheckPath (upr_HealthMonitor (snd (poolUpdate t lbId pool current hm))))"
    using assms unfolding poolUpdate_def Let_def
    by (cases "isHttp t (ehm_HealthCheckProtocol hm)"; simp add: pool_frames del: change_simps(2);
        simp add: pool_frames differsPtr_def currentPoolRequest_def)
  show "\<not> differsPtr (phm_SuccessCode (pool_HealthMonitor pool)) (rhm_SuccessCode (upr_HealthMonitor (snd (poolUpdate t lbId pool current hm))))"
    using assms unfolding poolUpdate_def Let_def
    by (cases "isHttp t (ehm_HealthCheckProtocol hm)"; simp add: pool_frames del: change_simps(2);
        simp add: pool_frames differsPtr_def currentPoolRequest_def)
  show "\<not> differsPtr (phm_HttpVersion (pool_HealthMonitor pool)) (rhm_HttpVersion (upr_HealthMonitor (snd (poolUpdate t lbId pool current hm))))"
    using assms unfolding poolUpdate_def Let_def
    by (cases "isHttp t (ehm_HealthCheckProtocol hm)"; simp add: pool_frames del: change_simps(2);
        simp add: pool_frames differsPtr_def currentPoolRequest_def)
  show "\<not> differsPtr (phm_DomainName (pool_HealthMonitor pool)) (rhm_DomainName (upr_HealthMonitor (snd (poolUpdate t lbId pool current hm))))"
    using assms unfolding poolUpdate_def Let_def
    by (cases "isHttp t (ehm_HealthCheckProtocol hm)"; simp add: pool_frames del: change_simps(2);
        simp add: pool_frames differsPtr_def currentPoolRequest_def)
qed

text \<open>
  Updating a pool converges in one step: when the health check on the load balancer is TCP, HTTP
  or HTTPS, then once the request \<open>buildPoolUpdateRequest\<close> asks for is applied, it asks for nothing
  more; and it asks for nothing exactly when every setting the spec gives is what the pool has.
\<close>

theorem buildPoolUpdateRequest_converges:
  assumes "isHttp t (ehm_HealthCheckProtocol hm) \<or> ehm_HealthCheckProtocol hm = HealthCheckProtocolTCP (t_sdk t)"
  shows "(buildPoolUpdateRequest t lbId pool current hm = None \<longleftrightarrow> poolInSync t pool current hm)
    \<and> (\<forall>r. buildPoolUpdateRequest t lbId pool current hm = Some r \<longrightarrow>
         buildPoolUpdateRequest t lbId pool (appliedPool r current) (appliedHM r) = None)"
proof (intro conjI allI impI)
  show "buildPoolUpdateRequest t lbId pool current hm = None \<longleftrightarrow> poolInSync t pool current hm"
    by (rule build_None_iff)
  fix r assume "buildPoolUpdateRequest t lbId pool current hm = Some r"
  then have r: "r = snd (poolUpdate t lbId pool current hm)"
    by (cases "poolUpdate t lbId pool current hm") (auto simp: buildPoolUpdateRequest_def split: if_splits)
  have alg: "nonempty p \<Longrightarrow> Some (deref p) = p" for p by (cases p) auto
  have "poolInSync t pool (appliedPool r current) (appliedHM r)"
    using poolUpdate_http[OF _ assms]
    unfolding r poolInSync_def Let_def appliedPool_def appliedHM_def
    by (simp add: poolUpdate_flags poolUpdate_basic alg)
  then show "buildPoolUpdateRequest t lbId pool (appliedPool r current) (appliedHM r) = None"
    by (simp add: build_None_iff)
qed

definition ex_epool :: entity_Pool where
  "ex_epool = \<lparr>ep_UUID = ''pool-1'', ep_Name = ''p'', ep_LoadBalanceMethod = ''ROUND_ROBIN'',
     ep_Stickiness = False, ep_TLSEncryption = False\<rparr>"

definition ex_hm :: entity_HealthMonitor where
  "ex_hm = \<lparr>ehm_HealthyThreshold = 3, ehm_UnhealthyThreshold = 3, ehm_Interval = 30, ehm_Timeout = 5,
     ehm_HealthCheckProtocol = ''HTTP'', ehm_HealthCheckPath = Some ''/'', ehm_DomainName = None,
     ehm_SuccessCode = Some ''200'', ehm_HealthCheckMethod = Some ''GET'', ehm_HttpVersion = None\<rparr>"

theorem buildPoolUpdateRequest_converges_witness:
  "\<exists>r. buildPoolUpdateRequest ex_task ''lb-1'' ex_pool ex_epool ex_hm = Some r
     \<and> buildPoolUpdateRequest ex_task ''lb-1'' ex_pool (appliedPool r ex_epool) (appliedHM r) = None"
proof -
  have hm: "isHttp ex_task (ehm_HealthCheckProtocol ex_hm)"
    by (simp add: isHttp_def ex_hm_def ex_task_def ex_sdk_def)
  have "\<not> poolInSync ex_task ex_pool ex_epool ex_hm"
    by (simp add: poolInSync_def ex_pool_def ex_hm_def Let_def)
  with buildPoolUpdateRequest_converges[of ex_task ex_hm "''lb-1''" ex_pool ex_epool] hm show ?thesis
    by (cases "buildPoolUpdateRequest ex_task ''lb-1'' ex_pool ex_epool ex_hm") auto
qed

section \<open>Cleaning up visits every candidate\<close>

lemma safe_cleanupPool_any:
  "safe (emitsR (\<lambda>_ _. True)) (cleanupPool t lbId created newCreated pools inUse x) s"
  unfolding cleanupPool_def GetPoolMembers_def DeletePool_def UpdatePoolMembers_def WaitForLBActive_def
  by (intro safe_intro) simp_all

lemma cleanupPool_reads_members:
  assumes "list_ex (\<lambda>p. ep_UUID p = x) pools"
  shows "EvGetPoolMembers lbId x (api_GetPoolMembers (t_vng t) (hist s) lbId x)
    \<in> set (hist (snd (cleanupPool t lbId created newCreated pools inUse x s)))"
proof -
  obtain k where k: "cleanupPool t lbId created newCreated pools inUse x
      = andThen (wrapErr (errorf (''pool '' @ x @ '': get members'')) (GetPoolMembers t lbId x)) k"
    and safe: "\<And>m s0. safe (emitsR (\<lambda>_ _. True)) (k m) s0"
    using assms
    by (intro that) (auto simp: cleanupPool_def GetPoolMembers_def DeletePool_def UpdatePoolMembers_def
        WaitForLBActive_def intro!: safe_intro)
  let ?g = "EvGetPoolMembers lbId x (api_GetPoolMembers (t_vng t) (hist s) lbId x)"
  show ?thesis
  proof (cases "api_GetPoolMembers (t_vng t) (hist s) lbId x")
    case (Inr m)
    with k safe[of m "s\<lparr>hist := hist s @ [?g]\<rparr>"] show ?thesis
      by (auto simp: safe_def andThen_def wrapErr_def GetPoolMembers_def dest!: emitsR_hist)
  qed (auto simp: k andThen_def wrapErr_def GetPoolMembers_def)
qed

text \<open>
  One stubborn pool does not shield the others: once pools, listeners and policies are listed,
  every recorded pool that still exists has its members read in the same pass - the first step of its
  cleanup - and the pass reports success only when the cleanup of every one of them succeeded.
\<close>

theorem deleteRedundantPoolsFrom_independent:
  assumes "api_ListPool (t_vng t) (hist s) lbId = Inr pools"
    and "poolsInUse t lbId (s\<lparr>hist := hist s @ [EvListPool lbId (Inr pools)]\<rparr>) = (Inr inUse, s2)"
    and "deleteRedundantPoolsFrom t lbId created newCreated s = (r, s')"
    and "c \<in> set created" and "cp_Id c \<in> ep_UUID ` set pools"
  shows "\<exists>es1 s1 es2. hist s1 = hist s @ es1
    \<and> EvGetPoolMembers lbId (cp_Id c) (api_GetPoolMembers (t_vng t) (hist s1) lbId (cp_Id c)) \<in> set (hist s')
    \<and> hist s' = hist (snd (cleanupPool t lbId created newCreated pools inUse (cp_Id c) s1)) @ es2
    \<and> (r = Inr () \<longrightarrow> fst (cleanupPool t lbId created newCreated pools inUse (cp_Id c) s1) = Inr ())"
proof -
  let ?f = "cleanupPool t lbId created newCreated pools inUse"
  obtain cs fs s3 where loop: "collectFailures ?f (map cp_Id created) s2 = (Inr (cs, fs), s3)"
    using collectFailures_total[of ?f "map cp_Id created" s2]
    by (cases "collectFailures ?f (map cp_Id created) s2") auto
  have r: "r = (if fs \<noteq> [] then Inl (errorf2 errPartialDelete (errors_Join fs)) else Inr ())" "s' = s3"
    using assms(1,2,3) loop
    by (auto simp: deleteRedundantPoolsFrom_def ListPool_def andThen_def wrapErr_def split: if_splits)
  have ext: "\<exists>es. hist (snd (?f x s0)) = hist s0 @ es" for x s0
    using safe_cleanupPool_any unfolding safe_def by (rule emitsR_hist)
  have "cp_Id c \<in> set (map cp_Id created)" using assms(4) by simp
  from collectFailures_visits[OF ext this loop] obtain es1 s1 es2 where v: "hist s1 = hist s2 @ es1"
    "hist s3 = hist (snd (?f (cp_Id c) s1)) @ es2" "case fst (?f (cp_Id c) s1) of Inl e \<Rightarrow> e \<in> set fs | Inr y \<Rightarrow> y \<in> set cs"
    by blast
  obtain es0 where h2: "hist s2 = hist s @ EvListPool lbId (Inr pools) # es0"
    using poolsInUse_trace[OF assms(2)] by auto
  have "EvGetPoolMembers lbId (cp_Id c) (api_GetPoolMembers (t_vng t) (hist s1) lbId (cp_Id c))
      \<in> set (hist (snd (?f (cp_Id c) s1)))"
    using assms(5) by (intro cleanupPool_reads_members) (auto simp: list_ex_iff)
  moreover have "r = Inr () \<longrightarrow> fst (?f (cp_Id c) s1) = Inr ()"
    using v(3) r(1) by (auto split: sum.splits if_splits)
  ultimately show ?thesis
    using v(1,2) h2 r(2) by (intro exI[of _ "EvListPool lbId (Inr pools) # es0 @ es1"] exI[of _ s1] exI[of _ es2]) auto
qed

definition ex_cleanup_task :: task where
  "ex_cleanup_task = ex_task\<lparr>t_vng := ex_vng\<lparr>api_ListPool := (\<lambda>_ _. Inr [ex_epool]), api_ListListenerOfLB := (\<lambda>_ _. Inr [])\<rparr>\<rparr>"

definition ex_created_pool :: CreatedPool where
  "ex_created_pool = \<lparr>cp_Id = ''pool-1'', cp_Name = ''p'', cp_CreatedMembers = []\<rparr>"

theorem deleteRedundantPoolsFrom_independent_witness:
  "\<exists>r. EvGetPoolMembers ''lb-1'' ''pool-1'' r
    \<in> set (hist (snd (deleteRedundantPoolsFrom ex_cleanup_task ''lb-1'' [ex_created_pool] [] ex_st)))"
proof -
  let ?s1 = "ex_st\<lparr>hist := hist ex_st @ [EvListPool ''lb-1'' (Inr [ex_epool])]\<rparr>"
  let ?s2 = "?s1\<lparr>hist := hist ?s1 @ [EvListListenerOfLB ''lb-1'' (Inr [])]\<rparr>"
  have 1: "api_ListPool (t_vng ex_cleanup_task) (hist ex_st) ''lb-1'' = Inr [ex_epool]"
    by (simp add: ex_cleanup_task_def)
  have 2: "poolsInUse ex_cleanup_task ''lb-1'' ?s1 = (Inr [], ?s2)"
    by (simp add: poolsInUse_def ListListenerOfLB_def ex_cleanup_task_def andThen_def wrapErr_def)
  have 3: "ex_created_pool \<in> set [ex_created_pool]" "cp_Id ex_created_pool \<in> ep_UUID ` set [ex_epool]"
    by (simp_all add: ex_created_pool_def ex_epool_def)
  have "cp_Id ex_created_pool = ''pool-1''" by (simp add: ex_created_pool_def)
  with deleteRedundantPoolsFrom_independent[OF 1 2 prod.collapse[symmetric] 3, where newCreated = "[]"]
  show ?thesis by auto
qed

end
