(* ===== verification/Certs.thy ===== *)
theory Certs
  imports Names Pools
begin

text \<open>
  Certificates imported from Kubernetes secrets: \<^verbatim>\<open>internal/usecase/lbc_uc/deploy_cert.go\<close>.
\<close>

section \<open>Deploying\<close>

definition generateCertName :: "task \<Rightarrow> string \<Rightarrow> string \<Rightarrow> string" where
  "generateCertName t secretName resourceVersion =
     (let clusterId = deref (sp_ClusterId (t_Spec t));
          fullName = clusterId @ ''_'' @ om_Namespace (t_Meta t) @ ''_'' @ ''ingress'';
          hash = TrimString (HashString fullName) (int DEFAULT_HASH_NAME_LENGTH);
          hashSecret = TrimString (HashString secretName) (int DEFAULT_HASH_NAME_LENGTH)
      in ValidateName (DEFAULT_LB_PREFIX_NAME @ ''-'' @ hash @ ''-'' @ hashSecret @ ''-'' @ resourceVersion))"

text \<open>\<open>strings.ReplaceAll(s, "\r", "")\<close>.\<close>

definition formatString :: "string \<Rightarrow> string" where
  "formatString s = filter (\<lambda>c. c \<noteq> CHR 0x0D) s"

definition deployCert :: "task \<Rightarrow> entity_Certificate list \<Rightarrow> CreateCertificate \<Rightarrow> CreatedCertificate M" where
  "deployCert t currentCerts reqCreateCert =
     andThen (GetSecret t (om_Namespace (t_Meta t)) (cc_SecretName reqCreateCert)) (\<lambda>secret.
       let certName = generateCertName t (cc_SecretName reqCreateCert) (sec_ResourceVersion secret) in
       case find (\<lambda>cert. ec_Name cert = certName) currentCerts of
         Some cert \<Rightarrow>
           returnM \<lparr>ccert_SecretName = cc_SecretName reqCreateCert, ccert_ResourceVersion = sec_ResourceVersion secret,
                    ccert_Id = ec_UUID cert, ccert_CertificateName = Some (ec_Name cert)\<rparr>
       | None \<Rightarrow>
           if sec_Type secret \<noteq> SecretTypeTLS (t_sdk t) then failM (NewNoNeedRequeue ''secret type must be tls'')
           else if map_get (sec_Data secret) (TLSCertKey (t_sdk t)) = []
                \<or> map_get (sec_Data secret) (TLSPrivateKeyKey (t_sdk t)) = []
           then failM (NewNoNeedRequeue ''secret must have tls.crt and tls.key'')
           else
             andThen (ImportCertificate t
                \<lparr>ccr_Name = certName, ccr_Type = ImportOptsTypeOptTLS (t_sdk t),
                 ccr_Certificate = formatString (map_get (sec_Data secret) (TLSCertKey (t_sdk t))),
                 ccr_PrivateKey = Some (formatString (map_get (sec_Data secret) (TLSPrivateKeyKey (t_sdk t))))\<rparr>)
               (\<lambda>createdCert. returnM
                 \<lparr>ccert_SecretName = cc_SecretName reqCreateCert, ccert_ResourceVersion = sec_ResourceVersion secret,
                  ccert_Id = ec_UUID createdCert, ccert_CertificateName = Some (ec_Name createdCert)\<rparr>))"

definition deployCerts :: "task \<Rightarrow> CreatedCertificate list M" where
  "deployCerts t =
     andThen (ListCertificates t) (\<lambda>currentCerts. mapM (deployCert t currentCerts) (sp_CreateCertificates (t_Spec t)))"

section \<open>Cleaning up\<close>

text \<open>The map \<open>onCloud\<close> keeps the last entry of an id.\<close>

definition cleanupCert :: "task \<Rightarrow> entity_Certificate list \<Rightarrow> string \<Rightarrow> unit M" where
  "cleanupCert t certList candidateId =
     (case find (\<lambda>c. ec_UUID c = candidateId) (rev certList) of
        None \<Rightarrow> returnM ()
      | Some cert \<Rightarrow>
          if ec_InUse cert then returnM ()
          else wrapErr (errorf (''certificate '' @ candidateId @ '': delete'')) (DeleteCertificate t candidateId))"

definition deleteRedundantCerts :: "task \<Rightarrow> CreatedCertificate list \<Rightarrow> unit M" where
  "deleteRedundantCerts t keep =
     andThen (getS lbStatus) (\<lambda>status.
       let wanted = map ccert_Id keep;
           candidates = filter (\<lambda>i. i \<notin> set wanted) (map ccert_Id (ss_CreatedCertificates status))
       in if candidates = [] then returnM ()
          else andThen (ListCertificates t) (\<lambda>certList.
               andThen (collectFailures (cleanupCert t certList) candidates) (\<lambda>x.
                 if snd x \<noteq> [] then failM (errorf2 errPartialDelete (errors_Join (snd x))) else returnM ())))"

section \<open>What cleaning up calls\<close>

definition certDeletable :: "LoadBalancerConfigStatus \<Rightarrow> CreatedCertificate list \<Rightarrow> event list \<Rightarrow> string \<Rightarrow> bool" where
  "certDeletable status keep es i \<longleftrightarrow>
     i \<in> ccert_Id ` set (ss_CreatedCertificates status) \<and> i \<notin> ccert_Id ` set keep
     \<and> (\<exists>cs. EvListCertificates (Inr cs) \<in> set es
          \<and> (\<exists>c. find (\<lambda>c. ec_UUID c = i) (rev cs) = Some c \<and> \<not> ec_InUse c))"

definition certCleanup ::
  "LoadBalancerConfigStatus \<Rightarrow> CreatedCertificate list \<Rightarrow> history \<Rightarrow> history \<Rightarrow> event \<Rightarrow> bool" where
  "certCleanup status keep h0 h e =
     (case e of
        EvDeleteCertificate i r \<Rightarrow> (\<exists>es. h = h0 @ es \<and> certDeletable status keep es i)
      | EvPatchMeta _ _ _ \<Rightarrow> False
      | _ \<Rightarrow> \<not> isCloudWrite e)"

lemma safe_deleteRedundantCerts:
  "safe (emitsR (certCleanup (lbStatus s) keep (hist s))) (deleteRedundantCerts t keep) s"
proof -
  let ?P = "certCleanup (lbStatus s) keep (hist s)"
  have list: "safe (emitsR ?P) (ListCertificates t) s'" for s'
    unfolding ListCertificates_def by (intro safe_intro) (simp add: certCleanup_def isCloudWrite_def)
  have step: "safe (emitsR ?P) (cleanupCert t cs i) s2"
    if run: "ListCertificates t s = (Inr cs, s1)" and s2: "emitsR ?P s1 s2"
      and i: "i \<in> ccert_Id ` set (ss_CreatedCertificates (lbStatus s))" "i \<notin> ccert_Id ` set keep" for cs s1 s2 i
  proof -
    from run have "hist s1 = hist s @ [EvListCertificates (Inr cs)]"
      unfolding ListCertificates_def by (auto dest!: call_result simp del: call_eq)
    with emitsR_hist[OF s2] obtain es where "hist s2 = hist s @ EvListCertificates (Inr cs) # es" by auto
    with i show ?thesis
      unfolding cleanupCert_def DeleteCertificate_def
      by (intro safe_intro) (auto simp: certCleanup_def certDeletable_def)
  qed
  show ?thesis
    unfolding deleteRedundantCerts_def Let_def
    by (intro safe_intro list) (auto intro: step)
qed

text \<open>
  A certificate in service is never deleted. Every \<open>DeleteCertificate\<close> of \<open>deleteRedundantCerts\<close> is
  for a certificate on this LBC's record that this reconcile did not resolve, and that the cloud's own
  list, read in this run, holds and does not report in use. It makes no other change to the cloud.
\<close>

theorem deleteRedundantCerts_safe:
  "safe (emitsR (certCleanup (lbStatus s) keep (hist s))) (deleteRedundantCerts t keep) s"
  by (rule safe_deleteRedundantCerts)

section \<open>What deploying returns\<close>

text \<open>Where a deployed certificate comes from: the secret was read, and the cloud has it under its name.\<close>

definition certResolved :: "task \<Rightarrow> entity_Certificate list \<Rightarrow> CreateCertificate \<Rightarrow> CreatedCertificate \<Rightarrow> event list \<Rightarrow> bool" where
  "certResolved t cs req c es \<longleftrightarrow>
     ccert_SecretName c = cc_SecretName req
     \<and> (\<exists>secret. EvGetSecret (om_Namespace (t_Meta t)) (cc_SecretName req) (Inr secret) \<in> set es
          \<and> ccert_ResourceVersion c = sec_ResourceVersion secret
          \<and> (let name = generateCertName t (cc_SecretName req) (sec_ResourceVersion secret) in
             (\<exists>ec \<in> set cs. ec_Name ec = name \<and> ec_UUID ec = ccert_Id c)
             \<or> name \<notin> ec_Name ` set cs
               \<and> (\<exists>r ec. EvImportCertificate r (Inr ec) \<in> set es \<and> ccr_Name r = name \<and> ec_UUID ec = ccert_Id c)))"

lemma deployCert_resolved:
  assumes "deployCert t cs req s = (Inr c, s')"
  shows "\<exists>es. hist s' = hist s @ es \<and> certResolved t cs req c es"
proof -
  let ?ns = "om_Namespace (t_Meta t)" and ?sn = "cc_SecretName req"
  from assms obtain secret where sec: "k8s_GetSecret (t_k8s t) (hist s) ?ns ?sn = Inr secret"
    unfolding deployCert_def GetSecret_def by (auto simp: andThen_Inr_iff)
  let ?name = "generateCertName t ?sn (sec_ResourceVersion secret)"
  show ?thesis
  proof (cases "find (\<lambda>cert. ec_Name cert = ?name) cs")
    case (Some ec)
    with assms sec find_key_SomeD[OF Some] show ?thesis
      unfolding deployCert_def GetSecret_def
      by (auto simp: andThen_Inr_iff certResolved_def Let_def)
  next
    case None
    with assms sec show ?thesis
      unfolding deployCert_def GetSecret_def ImportCertificate_def
      by (auto simp: andThen_Inr_iff certResolved_def Let_def find_key_None_iff split: if_splits)
  qed
qed

lemma certResolved_mono: "certResolved t cs req c es \<Longrightarrow> set es \<subseteq> set es' \<Longrightarrow> certResolved t cs req c es'"
  unfolding certResolved_def Let_def by (elim conjE exE) (intro conjI exI; blast)

text \<open>
  \<open>deployCerts\<close> resolves every secret the spec asks for, in order: a run that returns has read each
  secret, and the id it returns for it is the one of a certificate the cloud already listed under the
  name made of cluster, namespace, secret and resource version, or - only when the cloud listed none -
  of the certificate it imported under that name.
\<close>

theorem deployCerts_resolves:
  assumes "deployCerts t s = (Inr certs, s')"
  shows "\<exists>cs es. hist s' = hist s @ EvListCertificates (Inr cs) # es
    \<and> list_all2 (\<lambda>req c. certResolved t cs req c es) (sp_CreateCertificates (t_Spec t)) certs"
proof -
  from assms obtain cs s1 where 1: "ListCertificates t s = (Inr cs, s1)"
    and 2: "mapM (deployCert t cs) (sp_CreateCertificates (t_Spec t)) s1 = (Inr certs, s')"
    unfolding deployCerts_def andThen_Inr_iff by blast
  from 1 have h: "hist s1 = hist s @ [EvListCertificates (Inr cs)]"
    unfolding ListCertificates_def by (auto dest!: call_result simp del: call_eq)
  from mapM_trace[OF _ 2, of "certResolved t cs"] deployCert_resolved obtain es where
    es: "hist s' = hist s1 @ es"
    and all: "list_all2 (\<lambda>x y. \<exists>es'. set es' \<subseteq> set es \<and> certResolved t cs x y es') (sp_CreateCertificates (t_Spec t)) certs"
    by blast
  from all have "list_all2 (\<lambda>req c. certResolved t cs req c es) (sp_CreateCertificates (t_Spec t)) certs"
    by (rule list.rel_mono_strong) (auto intro: certResolved_mono)
  with es h show ?thesis by auto
qed

definition ex_cert_task :: task where
  "ex_cert_task = ex_task
     \<lparr>t_Spec := ex_spec\<lparr>sp_CreateCertificates := [\<lparr>cc_SecretName = ''tls''\<rparr>]\<rparr>,
      t_vng := ex_vng\<lparr>api_ListCertificates := \<lambda>_. Inr [],
        api_ImportCertificate := \<lambda>_ r. Inr \<lparr>ec_UUID = ''cert-1'', ec_Name = ccr_Name r, ec_InUse = False\<rparr>\<rparr>,
      t_k8s := ex_k8s\<lparr>k8s_GetSecret := \<lambda>_ _ _. Inr \<lparr>sec_ResourceVersion = ''1041'', sec_Type = ''kubernetes.io/tls'',
        sec_Data = [(''tls.crt'', ''c''), (''tls.key'', ''k'')]\<rparr>\<rparr>\<rparr>"

theorem deployCerts_resolves_witness:
  "\<exists>certs s' cs es. deployCerts ex_cert_task ex_st = (Inr certs, s') \<and> map ccert_Id certs = [''cert-1'']
     \<and> hist s' = hist ex_st @ EvListCertificates (Inr cs) # es
     \<and> list_all2 (\<lambda>req c. certResolved ex_cert_task cs req c es) [\<lparr>cc_SecretName = ''tls''\<rparr>] certs"
proof -
  obtain certs s' where run: "deployCerts ex_cert_task ex_st = (Inr certs, s')" "map ccert_Id certs = [''cert-1'']"
    by (simp add: deployCerts_def deployCert_def ex_cert_task_def ex_task_def ex_spec_def ex_sdk_def ex_k8s_def ex_vng_def
        ListCertificates_def GetSecret_def ImportCertificate_def andThen_def map_get_def Let_def)
  with deployCerts_resolves[OF run(1)] show ?thesis
    by (auto simp: ex_cert_task_def ex_task_def ex_spec_def)
qed

section \<open>Names\<close>

lemma cert_name_eq:
  assumes "length rv \<le> 34" and "list_all nameChar rv"
  shows "generateCertName t secret rv =
    map cleanChar (DEFAULT_LB_PREFIX_NAME @ ''-''
      @ TrimString (HashString (deref (sp_ClusterId (t_Spec t)) @ ''_'' @ om_Namespace (t_Meta t) @ ''_'' @ ''ingress'')) 5
      @ ''-'' @ TrimString (HashString secret) 5 @ ''-'') @ rv"
proof -
  have len: "length (TrimString (HashString x) 5) = 5" for x
    using length_TrimString[of 5 "HashString x"] by simp
  have "map cleanChar rv = rv" using assms(2) by (intro map_idI) (auto simp: list_all_iff cleanChar_def)
  with assms(1) show ?thesis
    by (simp add: generateCertName_def Let_def ValidateName_eq DEFAULT_HASH_NAME_LENGTH_def DEFAULT_LB_PREFIX_NAME_def len)
qed

text \<open>
  A changed secret gets a new certificate name, and sharing a secret shares the name: the name
  depends on the cluster, namespace, secret name and resource version only, and for one secret two
  resource versions (up to 34 name characters; the API server's have at most 20 digits) never give
  the same name.
\<close>

theorem generateCertName_tracks_secret:
  assumes "length rv \<le> 34" and "list_all nameChar rv" and "length rv' \<le> 34" and "list_all nameChar rv'"
    and "sp_ClusterId (t_Spec t) = sp_ClusterId (t_Spec t')" and "om_Namespace (t_Meta t) = om_Namespace (t_Meta t')"
  shows "generateCertName t secret rv = generateCertName t' secret rv' \<longleftrightarrow> rv = rv'"
  unfolding cert_name_eq[OF assms(1,2)] cert_name_eq[OF assms(3,4)] assms(5,6) by simp

theorem generateCertName_tracks_secret_witness:
  "generateCertName ex_task ''tls'' ''1041'' \<noteq> generateCertName ex_task ''tls'' ''1042''"
  using generateCertName_tracks_secret[of "''1041''" "''1042''" ex_task ex_task "''tls''"]
  by (simp add: nameChar_def IsDigit_def)

end
