(* ===== verification/Policies.thy ===== *)
theory Policies
  imports Pools "HOL-Library.Product_Lexorder" "HOL-Library.Multiset"
begin

text \<open>
  Layer-7 policies of a listener: \<^verbatim>\<open>internal/usecase/lbc_uc/deploy_policy.go\<close> and
  \<^verbatim>\<open>delete_policy.go\<close>. Messages that are only logged are left out. \<open>sort.Slice\<close> is modelled by a sort
  on the pair the comparison looks at.
\<close>

section \<open>Requests\<close>

definition findCreatedPoolByName :: "CreatedPool list \<Rightarrow> string \<Rightarrow> CreatedPool option" where
  "findCreatedPoolByName pools name = find (\<lambda>p. cp_Name p = name) pools"

definition buildPolicyCreateRequest ::
  "task \<Rightarrow> string \<Rightarrow> string \<Rightarrow> Policy \<Rightarrow> CreatedPool list \<Rightarrow> CreatePolicyRequest" where
  "buildPolicyCreateRequest t lbId listenerId policySpec newCreatedPools =
     (let toPool = (pol_Action policySpec = PolicyActionREDIRECTTOPOOL (t_sdk t));
          toUrl = (pol_Action policySpec = PolicyActionREDIRECTTOURL (t_sdk t))
      in \<lparr>cpo_LoadBalancerId = lbId, cpo_ListenerId = listenerId, cpo_Action = pol_Action policySpec,
          cpo_Name = pol_Name policySpec, cpo_Rules = pol_L7Rules policySpec,
          cpo_RedirectPoolId =
            (if toPool
             then case pol_RedirectPoolName policySpec of
                    Some name \<Rightarrow> map_option cp_Id (findCreatedPoolByName newCreatedPools name)
                  | None \<Rightarrow> None
             else None),
          cpo_RedirectURL = (if toUrl then pol_RedirectUrl policySpec else None),
          cpo_RedirectHTTPCode = (if toUrl then pol_RedirectHttpCode policySpec else None),
          cpo_KeepQueryString = (if toUrl then pol_KeepQueryString policySpec else None)\<rparr>)"

text \<open>\<open>compareL7Rules\<close>: nil (\<open>None\<close>) when the rules agree, else the rules to send.\<close>

definition compareL7Rules :: "L7Rule list \<Rightarrow> L7Rule list \<Rightarrow> L7Rule list option" where
  "compareL7Rules rulesSpec currentRules =
     (if length rulesSpec \<noteq> length currentRules then Some rulesSpec
      else if list_all (\<lambda>r. list_ex (\<lambda>cr. r7_CompareType r = r7_CompareType cr \<and> r7_RuleValue r = r7_RuleValue cr
                                     \<and> r7_RuleType r = r7_RuleType cr) currentRules) rulesSpec
           then None else Some rulesSpec)"

definition redirectPoolId :: "CreatedPool list \<Rightarrow> Policy \<Rightarrow> string" where
  "redirectPoolId newCreatedPools policySpec =
     (case pol_RedirectPoolName policySpec of
        Some name \<Rightarrow> (case findCreatedPoolByName newCreatedPools name of Some p \<Rightarrow> cp_Id p | None \<Rightarrow> [])
      | None \<Rightarrow> [])"

definition policyUpdate ::
  "task \<Rightarrow> string \<Rightarrow> string \<Rightarrow> Policy \<Rightarrow> CreatedPool list \<Rightarrow> entity_Policy \<Rightarrow> bool \<times> UpdatePolicyRequest" where
  "policyUpdate t lbId listenerId policySpec newCreatedPools current =
     (let toPool = (pol_Action policySpec = PolicyActionREDIRECTTOPOOL (t_sdk t));
          toUrl = (pol_Action policySpec = PolicyActionREDIRECTTOURL (t_sdk t));
          poolId = redirectPoolId newCreatedPools policySpec;
          url = deref (pol_RedirectUrl policySpec);
          code = (case pol_RedirectHttpCode policySpec of Some c \<Rightarrow> c | None \<Rightarrow> 0);
          keepq = (case pol_KeepQueryString policySpec of Some b \<Rightarrow> b | None \<Rightarrow> False);
          rules = compareL7Rules (pol_L7Rules policySpec) (epol_L7Rules current);
          x0 = (False, \<lparr>upo_LoadBalancerId = lbId, upo_ListenerId = listenerId, upo_PolicyId = epol_UUID current,
                        upo_Action = epol_Action current, upo_KeepQueryString = epol_KeepQueryString current,
                        upo_RedirectPoolID = epol_RedirectPoolID current, upo_RedirectURL = epol_RedirectURL current,
                        upo_RedirectHTTPCode = epol_RedirectHTTPCode current, upo_Rules = epol_L7Rules current\<rparr>);
          x1 = change (pol_Action policySpec \<noteq> [] \<and> pol_Action policySpec \<noteq> epol_Action current)
                 (\<lambda>r. r\<lparr>upo_Action := pol_Action policySpec\<rparr>) x0;
          x2 = change (toPool \<and> epol_RedirectPoolID current \<noteq> poolId) (\<lambda>r. r\<lparr>upo_RedirectPoolID := poolId\<rparr>) x1;
          x3 = change (toUrl \<and> epol_RedirectURL current \<noteq> url) (\<lambda>r. r\<lparr>upo_RedirectURL := url\<rparr>) x2;
          x4 = change (toUrl \<and> epol_RedirectHTTPCode current \<noteq> code) (\<lambda>r. r\<lparr>upo_RedirectHTTPCode := code\<rparr>) x3;
          x5 = change (toUrl \<and> epol_KeepQueryString current \<noteq> keepq) (\<lambda>r. r\<lparr>upo_KeepQueryString := keepq\<rparr>) x4
      in change (rules \<noteq> None) (\<lambda>r. r\<lparr>upo_Rules := pol_L7Rules policySpec\<rparr>) x5)"

definition buildPolicyUpdateRequest ::
  "task \<Rightarrow> string \<Rightarrow> string \<Rightarrow> Policy \<Rightarrow> CreatedPool list \<Rightarrow> entity_Policy \<Rightarrow> UpdatePolicyRequest option" where
  "buildPolicyUpdateRequest t lbId listenerId policySpec newCreatedPools current =
     (case policyUpdate t lbId listenerId policySpec newCreatedPools current of (isNeedUpdate, updateOptions) \<Rightarrow>
        if \<not> isNeedUpdate then None else Some updateOptions)"

section \<open>Deploying\<close>

definition deployPolicy ::
  "task \<Rightarrow> string \<Rightarrow> string \<Rightarrow> int \<Rightarrow> CreatedPool list \<Rightarrow> entity_Policy list \<Rightarrow> Policy \<Rightarrow> CreatedPolicy M" where
  "deployPolicy t lbId listenerId listenerPort newCreatedPools currentPolicies policySpec =
     (case find (\<lambda>p. epol_Name p = pol_Name policySpec) currentPolicies of
        None \<Rightarrow>
          andThen (CreatePolicy t lbId listenerId (buildPolicyCreateRequest t lbId listenerId policySpec newCreatedPools))
            (\<lambda>newPolicy.
          andThen (statusAddPolicy t listenerId listenerPort (epol_UUID newPolicy)) (\<lambda>_.
          andThen (wrapErr (errorf (''wait LB '' @ lbId @ '' active after creating policy '' @ epol_UUID newPolicy))
                     (WaitForLBActive t lbId)) (\<lambda>_.
            returnM \<lparr>cpol_Id = epol_UUID newPolicy\<rparr>)))
      | Some currentPolicy \<Rightarrow>
          andThen
            (case buildPolicyUpdateRequest t lbId listenerId policySpec newCreatedPools currentPolicy of
               None \<Rightarrow> returnM ()
             | Some updateRequest \<Rightarrow>
                 andThen (UpdatePolicy t lbId listenerId (epol_UUID currentPolicy) updateRequest) (\<lambda>_.
                 andThen (statusAddPolicy t listenerId listenerPort (epol_UUID currentPolicy)) (\<lambda>_.
                 andThen (wrapErr (errorf (''wait LB '' @ lbId @ '' active after updating policy '' @ epol_UUID currentPolicy))
                            (WaitForLBActive t lbId)) (\<lambda>_. returnM ()))))
            (\<lambda>_. returnM \<lparr>cpol_Id = epol_UUID currentPolicy\<rparr>))"

definition deployPolicies ::
  "task \<Rightarrow> string \<Rightarrow> string \<Rightarrow> int \<Rightarrow> Policy list \<Rightarrow> CreatedPool list \<Rightarrow> CreatedPolicy list M" where
  "deployPolicies t lbId listenerId listenerPort policiesSpec newCreatedPools =
     andThen (ListPolicyOfListener t lbId listenerId) (\<lambda>currentPolicies.
       mapM (deployPolicy t lbId listenerId listenerPort newCreatedPools currentPolicies) policiesSpec)"

section \<open>Reordering\<close>

record policy_kv =
  kv_policyId :: string
  kv_currentPosition :: int
  kv_expectPosition :: int

definition policyKv :: "entity_Policy list \<Rightarrow> Policy \<Rightarrow> policy_kv" where
  "policyKv currentPolicies policySpec =
     (case find (\<lambda>p. epol_Name p = pol_Name policySpec) currentPolicies of
        Some p \<Rightarrow> \<lparr>kv_policyId = epol_UUID p, kv_currentPosition = epol_Position p,
                   kv_expectPosition = (case pol_Position policySpec of Some i \<Rightarrow> i | None \<Rightarrow> -1)\<rparr>
      | None \<Rightarrow> \<lparr>kv_policyId = [], kv_currentPosition = -1,
                 kv_expectPosition = (case pol_Position policySpec of Some i \<Rightarrow> i | None \<Rightarrow> -1)\<rparr>)"

definition kvKey :: "policy_kv \<Rightarrow> int \<times> int" where
  "kvKey x = (kv_expectPosition x, kv_currentPosition x)"

fun outOfOrder :: "policy_kv list \<Rightarrow> bool" where
  "outOfOrder (a # b # xs) =
     (kv_expectPosition a < kv_expectPosition b \<and> kv_currentPosition a > kv_currentPosition b \<or> outOfOrder (b # xs))"
| "outOfOrder _ = False"

definition sortedPolicies :: "Policy list \<Rightarrow> entity_Policy list \<Rightarrow> policy_kv list" where
  "sortedPolicies policiesSpec currentPolicies = sort_key kvKey (map (policyKv currentPolicies) policiesSpec)"

definition deployReorderPolicies :: "task \<Rightarrow> string \<Rightarrow> string \<Rightarrow> Policy list \<Rightarrow> unit M" where
  "deployReorderPolicies t lbId listenerId policiesSpec =
     (if \<not> list_ex (\<lambda>p. pol_Position p \<noteq> None) policiesSpec then returnM ()
      else andThen (ListPolicyOfListener t lbId listenerId) (\<lambda>currentPolicies.
        let ss = sortedPolicies policiesSpec currentPolicies
        in if \<not> outOfOrder ss then returnM ()
           else andThen (ReorderPolicies t lbId listenerId (map kv_policyId ss)) (\<lambda>_.
                andThen (WaitForLBActive t lbId) (\<lambda>_. returnM ()))))"

section \<open>Deleting\<close>

definition recordedPolicies :: "CreatedListener list \<Rightarrow> string \<Rightarrow> CreatedPolicy list" where
  "recordedPolicies listeners listenerId =
     (case find (\<lambda>l. cl_Id l = listenerId) listeners of Some l \<Rightarrow> cl_CreatedPolicies l | None \<Rightarrow> [])"

definition deployDeleteRedundantPoliciesFrom ::
  "task \<Rightarrow> string \<Rightarrow> CreatedListener list \<Rightarrow> string \<Rightarrow> CreatedPolicy list \<Rightarrow> unit M" where
  "deployDeleteRedundantPoliciesFrom t lbId createdListeners listenerId newCreatedPolicies =
     (if sp_Type (t_Spec t) = LoadBalancerTypeLayer4 (t_sdk t) then returnM ()
      else let createdPolicies = recordedPolicies createdListeners listenerId in
        if createdPolicies = [] then returnM ()
        else andThen (ListPolicyOfListener t lbId listenerId) (\<lambda>currentPolicies.
          andThen (mapM (\<lambda>candidateId.
              if list_ex (\<lambda>p. cpol_Id p = candidateId) newCreatedPolicies then returnM ()
              else if \<not> list_ex (\<lambda>p. epol_UUID p = candidateId) currentPolicies then returnM ()
              else andThen (wrapErr (errorf (''delete policy '' @ candidateId @ '' of listener '' @ listenerId @ '' on LB '' @ lbId))
                              (DeletePolicy t lbId listenerId candidateId)) (\<lambda>_.
                   andThen (wrapErr (errorf (''wait LB '' @ lbId @ '' active after deleting policy '' @ candidateId))
                              (WaitForLBActive t lbId)) (\<lambda>_. returnM ())))
            (map cpol_Id createdPolicies)) (\<lambda>_. returnM ())))"

section \<open>What is called\<close>

definition policyCalls :: "string \<Rightarrow> string \<Rightarrow> event \<Rightarrow> bool" where
  "policyCalls lbId listenerId e =
     (case e of
        EvListPolicyOfListener l i _ \<Rightarrow> l = lbId \<and> i = listenerId
      | EvCreatePolicy l i _ _ \<Rightarrow> l = lbId \<and> i = listenerId
      | EvUpdatePolicy l i _ _ _ \<Rightarrow> l = lbId \<and> i = listenerId
      | EvReorderPolicies l i _ _ \<Rightarrow> l = lbId \<and> i = listenerId
      | EvWaitForLBActive l _ \<Rightarrow> l = lbId
      | EvGetLBC _ _ _ \<Rightarrow> True | EvPatchStatus _ _ _ \<Rightarrow> True | _ \<Rightarrow> False)"

lemma own_status_policyCalls [simp]: "own_status (\<lambda>_. policyCalls lbId i) t"
  by (simp add: own_status_def policyCalls_def)

lemma safe_deployPolicies: "safe (emitsR (\<lambda>_. policyCalls lbId i)) (deployPolicies t lbId i port ps pools) s"
  unfolding deployPolicies_def deployPolicy_def ListPolicyOfListener_def CreatePolicy_def UpdatePolicy_def WaitForLBActive_def
  by (intro safe_intro own_status_policyCalls) (simp_all add: policyCalls_def)

lemma safe_deployReorderPolicies: "safe (emitsR (\<lambda>_. policyCalls lbId i)) (deployReorderPolicies t lbId i ps) s"
  unfolding deployReorderPolicies_def ListPolicyOfListener_def ReorderPolicies_def WaitForLBActive_def
  by (intro safe_intro) (simp_all add: policyCalls_def)

text \<open>
  What a cleanup of policies may call: reads, and deletions of policies that are on the listener's
  record, were read as existing and are not wanted any more.
\<close>

definition policyCleanup ::
  "string \<Rightarrow> CreatedListener list \<Rightarrow> string \<Rightarrow> CreatedPolicy list \<Rightarrow> history \<Rightarrow> event \<Rightarrow> bool" where
  "policyCleanup lbId createdListeners listenerId newCreatedPolicies h e =
     (case e of
        EvDeletePolicy l i p r \<Rightarrow> l = lbId \<and> i = listenerId
          \<and> p \<in> cpol_Id ` set (recordedPolicies createdListeners listenerId)
          \<and> p \<notin> cpol_Id ` set newCreatedPolicies
          \<and> (\<exists>cur. EvListPolicyOfListener lbId listenerId (Inr cur) \<in> set h \<and> p \<in> epol_UUID ` set cur)
      | EvPatchMeta _ _ _ \<Rightarrow> False
      | _ \<Rightarrow> \<not> isCloudWrite e)"

lemma safe_deployDeleteRedundantPoliciesFrom:
  "safe (emitsR (policyCleanup lbId created listenerId new))
     (deployDeleteRedundantPoliciesFrom t lbId created listenerId new) s"
proof -
  let ?P = "policyCleanup lbId created listenerId new"
  have del: "safe (emitsR ?P) (DeletePolicy t lbId listenerId c) s2"
    if "ListPolicyOfListener t lbId listenerId s = (Inr cur, s1)" "emitsR ?P s1 s2"
      "c \<in> cpol_Id ` set (recordedPolicies created listenerId)" "\<not> list_ex (\<lambda>p. cpol_Id p = c) new"
      "list_ex (\<lambda>p. epol_UUID p = c) cur" for cur s1 s2 c
  proof -
    from that(1) have "EvListPolicyOfListener lbId listenerId (Inr cur) \<in> set (hist s1)"
      unfolding ListPolicyOfListener_def by (auto dest!: call_result simp del: call_eq)
    with that(2) have "EvListPolicyOfListener lbId listenerId (Inr cur) \<in> set (hist s2)" by (rule emitsR_mem)
    moreover have "c \<in> epol_UUID ` set cur" "c \<notin> cpol_Id ` set new" using that(4,5) by (auto simp: list_ex_iff)
    ultimately have "?P (hist s2) (EvDeletePolicy lbId listenerId c r)" for r
      unfolding policyCleanup_def using that(3) by auto
    then show ?thesis unfolding DeletePolicy_def by (intro safe_intro)
  qed
  have reads: "safe (emitsR ?P) (ListPolicyOfListener t lbId listenerId) s'"
    "safe (emitsR ?P) (WaitForLBActive t lbId) s'" for s'
    unfolding ListPolicyOfListener_def WaitForLBActive_def
    by (intro safe_intro; simp add: policyCleanup_def isCloudWrite_def)+
  show ?thesis
    unfolding deployDeleteRedundantPoliciesFrom_def
    by (intro safe_intro reads) (auto intro!: del)
qed

section \<open>Reordering is needed and converges\<close>

lemma outOfOrder_pair:
  "outOfOrder xs \<Longrightarrow> \<exists>a \<in> set xs. \<exists>b \<in> set xs.
     kv_expectPosition a < kv_expectPosition b \<and> kv_currentPosition a > kv_currentPosition b"
  by (induction xs rule: outOfOrder.induct) auto

lemma sorted_expect: "sorted (map kv_expectPosition (sort_key kvKey xs))"
proof -
  have "sorted (map kvKey (sort_key kvKey xs))" by simp
  then show ?thesis
    unfolding sorted_map by (rule sorted_wrt_mono_rel[rotated]) (auto simp: kvKey_def less_eq_prod_def)
qed

text \<open>
  Policies are reordered only when two of them are in the wrong order, and into the right one.
  Every \<open>ReorderPolicies\<close> that \<open>deployReorderPolicies\<close> makes follows a read of the listener's policies
  in which some two policies of the spec stand against their wanted positions; the ids it sends are
  those of the policies of the spec, each as often as the spec has it, in ascending order of wanted
  position.
\<close>

theorem deployReorderPolicies_sorts:
  "safe (emitsR (\<lambda>h e. case e of
      EvReorderPolicies l i ids r \<Rightarrow> l = lbId \<and> i = listenerId \<and>
        (\<exists>h1 cur ss. h = h1 @ [EvListPolicyOfListener lbId listenerId (Inr cur)]
           \<and> mset ss = mset (map (policyKv cur) policiesSpec) \<and> sorted (map kv_expectPosition ss)
           \<and> ids = map kv_policyId ss
           \<and> (\<exists>p \<in> set policiesSpec. \<exists>q \<in> set policiesSpec.
                kv_expectPosition (policyKv cur p) < kv_expectPosition (policyKv cur q)
                \<and> kv_currentPosition (policyKv cur p) > kv_currentPosition (policyKv cur q)))
    | _ \<Rightarrow> \<not> isCloudWrite e)) (deployReorderPolicies t lbId listenerId policiesSpec) s"
    (is "safe (emitsR ?P) _ _")
proof -
  have reads: "safe (emitsR ?P) (ListPolicyOfListener t lbId listenerId) s'"
    "safe (emitsR ?P) (WaitForLBActive t lbId) s'" for s'
    unfolding ListPolicyOfListener_def WaitForLBActive_def by (intro safe_intro; simp add: isCloudWrite_def)+
  have reorder: "safe (emitsR ?P) (ReorderPolicies t lbId listenerId (map kv_policyId (sortedPolicies policiesSpec cur))) s1"
    if "ListPolicyOfListener t lbId listenerId s = (Inr cur, s1)" "outOfOrder (sortedPolicies policiesSpec cur)" for cur s1
  proof -
    let ?ss = "sortedPolicies policiesSpec cur"
    from that(1) have h: "hist s1 = hist s @ [EvListPolicyOfListener lbId listenerId (Inr cur)]"
      unfolding ListPolicyOfListener_def by (auto dest!: call_result simp del: call_eq)
    have "mset ?ss = mset (map (policyKv cur) policiesSpec)" "sorted (map kv_expectPosition ?ss)"
      unfolding sortedPolicies_def by (simp_all add: sorted_expect)
    moreover from outOfOrder_pair[OF that(2)] have "\<exists>p \<in> set policiesSpec. \<exists>q \<in> set policiesSpec.
        kv_expectPosition (policyKv cur p) < kv_expectPosition (policyKv cur q)
        \<and> kv_currentPosition (policyKv cur p) > kv_currentPosition (policyKv cur q)"
      by (auto simp: sortedPolicies_def)
    ultimately have "?P (hist s1) (EvReorderPolicies lbId listenerId (map kv_policyId ?ss) r)" for r
      unfolding h by (simp only: event.case) blast
    then show ?thesis unfolding ReorderPolicies_def by (intro safe_intro)
  qed
  show ?thesis
    unfolding deployReorderPolicies_def by (intro safe_intro reads) (auto intro!: reorder)
qed

section \<open>The update request\<close>

definition appliedPolicy :: "UpdatePolicyRequest \<Rightarrow> entity_Policy \<Rightarrow> entity_Policy" where
  "appliedPolicy r current =
     current\<lparr>epol_Action := upo_Action r, epol_KeepQueryString := upo_KeepQueryString r,
       epol_RedirectPoolID := upo_RedirectPoolID r, epol_RedirectURL := upo_RedirectURL r,
       epol_RedirectHTTPCode := upo_RedirectHTTPCode r, epol_L7Rules := upo_Rules r\<rparr>"

lemma compareL7Rules_refl [simp]: "compareL7Rules rs rs = None"
  by (auto simp: compareL7Rules_def list_all_iff list_ex_iff)

lemmas policy_frames =
  change_frame[of upo_Action] change_frame[of upo_KeepQueryString] change_frame[of upo_RedirectPoolID]
  change_frame[of upo_RedirectURL] change_frame[of upo_RedirectHTTPCode] change_frame[of upo_Rules]

text \<open>
  Updating a policy converges in one step: once the request \<open>buildPolicyUpdateRequest\<close> asks for is
  applied, it asks for nothing more.
\<close>

theorem buildPolicyUpdateRequest_converges:
  assumes "buildPolicyUpdateRequest t lbId listenerId policySpec pools current = Some r"
  shows "buildPolicyUpdateRequest t lbId listenerId policySpec pools (appliedPolicy r current) = None"
proof -
  let ?u = "policyUpdate t lbId listenerId policySpec pools"
  have r: "r = snd (?u current)"
    using assms by (cases "?u current") (auto simp: buildPolicyUpdateRequest_def split: if_splits)
  have fields: "upo_Action r = (if pol_Action policySpec \<noteq> [] then pol_Action policySpec else epol_Action current)"
    "pol_Action policySpec = PolicyActionREDIRECTTOPOOL (t_sdk t) \<Longrightarrow> upo_RedirectPoolID r = redirectPoolId pools policySpec"
    "pol_Action policySpec = PolicyActionREDIRECTTOURL (t_sdk t) \<Longrightarrow> upo_RedirectURL r = deref (pol_RedirectUrl policySpec)"
    "pol_Action policySpec = PolicyActionREDIRECTTOURL (t_sdk t) \<Longrightarrow>
       upo_RedirectHTTPCode r = (case pol_RedirectHttpCode policySpec of Some c \<Rightarrow> c | None \<Rightarrow> 0)"
    "pol_Action policySpec = PolicyActionREDIRECTTOURL (t_sdk t) \<Longrightarrow>
       upo_KeepQueryString r = (case pol_KeepQueryString policySpec of Some b \<Rightarrow> b | None \<Rightarrow> False)"
    "compareL7Rules (pol_L7Rules policySpec) (upo_Rules r) = None"
    unfolding r policyUpdate_def Let_def
    by (simp_all add: policy_frames del: change_simps(2)) (auto simp: policy_frames)
  have "\<not> fst (?u (appliedPolicy r current))"
    using fields unfolding policyUpdate_def Let_def appliedPolicy_def by (simp only: change_simps fst_conv) simp
  then show ?thesis
    by (cases "?u (appliedPolicy r current)") (simp add: buildPolicyUpdateRequest_def)
qed

definition ex_epolicy :: entity_Policy where
  "ex_epolicy = \<lparr>epol_UUID = ''pol-1'', epol_Name = ''a'', epol_Action = ''REJECT'', epol_KeepQueryString = False,
     epol_RedirectPoolID = [], epol_RedirectURL = [], epol_RedirectHTTPCode = 0, epol_L7Rules = [], epol_Position = 1\<rparr>"

definition ex_policy :: Policy where
  "ex_policy = \<lparr>pol_Name = ''a'', pol_Description = None, pol_RedirectPoolName = None, pol_Action = ''REDIRECT_TO_URL'',
     pol_RedirectUrl = Some ''http://x'', pol_RedirectHttpCode = Some 301, pol_KeepQueryString = Some True,
     pol_Position = None, pol_L7Rules = [\<lparr>r7_CompareType = ''EQUAL_TO'', r7_RuleValue = ''/'', r7_RuleType = ''PATH''\<rparr>]\<rparr>"

theorem buildPolicyUpdateRequest_converges_witness:
  "\<exists>r. buildPolicyUpdateRequest ex_task ''lb-1'' ''lis-1'' ex_policy [] ex_epolicy = Some r
     \<and> buildPolicyUpdateRequest ex_task ''lb-1'' ''lis-1'' ex_policy [] (appliedPolicy r ex_epolicy) = None"
proof -
  have "buildPolicyUpdateRequest ex_task ''lb-1'' ''lis-1'' ex_policy [] ex_epolicy \<noteq> None"
    by (simp add: buildPolicyUpdateRequest_def policyUpdate_def Let_def ex_policy_def ex_epolicy_def change_def)
  then show ?thesis
    using buildPolicyUpdateRequest_converges[of ex_task "''lb-1''" "''lis-1''" ex_policy "[]" ex_epolicy] by blast
qed

end
