(* ===== verification/Validate.thy ===== *)
theory Validate
  imports Tags
begin

text \<open>
  Validation: \<^verbatim>\<open>internal/usecase/lbc_uc/validate.go\<close>. A port carries one protocol, one default pool and
  one ACL on a load balancer, whichever LBCs share it.

  A Go map from ports is the association list of its entries in insertion order. Go iterates over
  such a map in an unspecified order, which decides only which of several offending ports an error
  names: whether there is an error does not depend on it.
\<close>

section \<open>State\<close>

definition addWarning :: "string \<Rightarrow> unit M" where
  "addWarning w = (\<lambda>s. (Inr (), s\<lparr>warnings := warnings s @ [w]\<rparr>))"

definition setAclPeer :: "int \<Rightarrow> aclField \<Rightarrow> aclDeclaration \<Rightarrow> unit M" where
  "setAclPeer port f peer = (\<lambda>s. (Inr (), s\<lparr>aclPeers := AList.update (port, f) peer (aclPeers s)\<rparr>))"

lemma addWarning_eq [simp]: "addWarning w s = (Inr (), s\<lparr>warnings := warnings s @ [w]\<rparr>)"
  by (simp add: addWarning_def)

lemma setAclPeer_eq [simp]: "setAclPeer port f peer s = (Inr (), s\<lparr>aclPeers := AList.update (port, f) peer (aclPeers s)\<rparr>)"
  by (simp add: setAclPeer_def)

lemma safe_emits_addWarning [safe_intro]: "safe (emitsR P) (addWarning w) s"
  by (simp add: safe_def emitsR_def)

lemma safe_emits_setAclPeer [safe_intro]: "safe (emitsR P) (setAclPeer port f peer) s"
  by (simp add: safe_def emitsR_def)

section \<open>The spec itself\<close>

fun dupPort :: "(int \<times> string) list \<Rightarrow> Listener list \<Rightarrow> (int \<times> string \<times> string) option" where
  "dupPort seen [] = None"
| "dupPort seen (l # ls) =
     (case map_of seen (lis_ProtocolPort l) of
        Some existing \<Rightarrow> Some (lis_ProtocolPort l, existing, lis_Protocol l)
      | None \<Rightarrow> dupPort (AList.update (lis_ProtocolPort l) (lis_Protocol l) seen) ls)"

definition validateSelfListenerPorts :: "task \<Rightarrow> unit result" where
  "validateSelfListenerPorts t =
     (case dupPort [] (sp_Listeners (t_Spec t)) of
        None \<Rightarrow> Inr ()
      | Some (port, existing, protocol) \<Rightarrow>
          Inl (NewNoNeedRequeue (''duplicate listener port '' @ Itoa port @ '' in LoadBalancerConfig ''
            @ om_Namespace (t_Meta t) @ ''/'' @ om_Name (t_Meta t) @ '': cannot have both '' @ existing @ '' and ''
            @ protocol @ '' listeners on the same port (VNGCloud limitation)'')))"

definition validateSelf :: "task \<Rightarrow> unit result" where
  "validateSelf t = validateSelfListenerPorts t"

section \<open>LBCs sharing a load balancer\<close>

definition lbcName :: "ObjectMeta \<Rightarrow> string" where
  "lbcName m = om_Namespace m @ ''/'' @ om_Name m"

text \<open>Which load balancer an LBC references.\<close>

definition lbcTarget :: "LoadBalancerConfig \<Rightarrow> string" where
  "lbcTarget lbc =
     (if nonempty (sp_LoadBalancerId (lbc_Spec lbc)) then deref (sp_LoadBalancerId (lbc_Spec lbc))
      else if nonempty (ss_LoadBalancerId (lbc_Status lbc)) then deref (ss_LoadBalancerId (lbc_Status lbc))
      else [])"

definition targets :: "string \<Rightarrow> LoadBalancerConfig \<Rightarrow> bool" where
  "targets lbId lbc \<longleftrightarrow> \<not> (lbcTarget lbc = [] \<or> lbcTarget lbc \<noteq> lbId)"

text \<open>What the LBCs on the load balancer say per port: \<open>portToProtocolMap\<close> and \<open>portToPoolMap\<close>.\<close>

definition portMap :: "(Listener \<Rightarrow> string) \<Rightarrow> string \<Rightarrow> LoadBalancerConfig list \<Rightarrow> (int \<times> (string \<times> string) list) list" where
  "portMap val lbId allLBCs =
     fold (\<lambda>lbc m.
        if \<not> targets lbId lbc then m
        else fold (\<lambda>l m'. AList.update (lis_ProtocolPort l)
                     ((case map_of m' (lis_ProtocolPort l) of Some xs \<Rightarrow> xs | None \<Rightarrow> []) @ [(val l, lbcName (lbc_Meta lbc))]) m')
               (sp_Listeners (lbc_Spec lbc)) m)
       allLBCs []"

text \<open>The first pair of entries of one port that disagree.\<close>

fun portConflict :: "(int \<times> (string \<times> string) list) list \<Rightarrow> (int \<times> (string \<times> string) \<times> (string \<times> string)) option" where
  "portConflict [] = None"
| "portConflict ((port, infos) # rest) =
     (case infos of
        [] \<Rightarrow> portConflict rest
      | first # others \<Rightarrow>
          (case find (\<lambda>info. fst info \<noteq> fst first) others of
             Some info \<Rightarrow> Some (port, first, info)
           | None \<Rightarrow> portConflict rest))"

definition validateCrossListenerPorts :: "string \<Rightarrow> LoadBalancerConfig list \<Rightarrow> unit result" where
  "validateCrossListenerPorts lbId allLBCs =
     (case portConflict (portMap lis_Protocol lbId allLBCs) of
        None \<Rightarrow> Inr ()
      | Some (port, (p1, n1), (p2, n2)) \<Rightarrow>
          Inl (NewNoNeedRequeue (''port '' @ Itoa port @ '' has multiple protocols on load balancer '' @ lbId @ '': '' @ n1
            @ '' uses '' @ p1 @ '', '' @ n2 @ '' uses '' @ p2 @ ''. VNGCloud does not support multiple protocols on the same port'')))"

definition poolDisplay :: "string \<Rightarrow> string" where
  "poolDisplay p = (if p = [] then ''<no default pool>'' else p)"

definition validateCrossListenerDefaultPools :: "string \<Rightarrow> LoadBalancerConfig list \<Rightarrow> unit result" where
  "validateCrossListenerDefaultPools lbId allLBCs =
     (case portConflict (portMap (\<lambda>l. deref (lis_DefaultPoolName l)) lbId allLBCs) of
        None \<Rightarrow> Inr ()
      | Some (port, (p1, n1), (p2, n2)) \<Rightarrow>
          Inl (NewNoNeedRequeue (''port '' @ Itoa port @ '' has different default pools on load balancer '' @ lbId @ '': '' @ n1
            @ '' uses '' @ [CHR 0x27] @ poolDisplay p1 @ [CHR 0x27] @ '', '' @ n2 @ '' uses '' @ [CHR 0x27] @ poolDisplay p2 @ [CHR 0x27]
            @ ''. All listeners on the same port must have the same default pool when sharing a load balancer'')))"

section \<open>ACL declarations\<close>

text \<open>\<open>collect\<close>: what one LBC declares for one port and field.\<close>

definition declarationsOf :: "string \<Rightarrow> Listener list \<Rightarrow> int \<Rightarrow> aclField \<Rightarrow> aclDeclaration list" where
  "declarationsOf name listeners port f =
     List.map_filter (\<lambda>l. if lis_ProtocolPort l = port
                          then map_option (\<lambda>v. \<lparr>ad_lbcName = name, ad_value = v\<rparr>) (acl_get f (Some (specAcl l)))
                          else None) listeners"

text \<open>The LBCs that are collected: this one first, then the others on the load balancer.\<close>

definition declarers :: "string \<Rightarrow> Listener list \<Rightarrow> string \<Rightarrow> LoadBalancerConfig list \<Rightarrow> (string \<times> Listener list) list" where
  "declarers selfName selfListeners lbId allLBCs =
     (selfName, selfListeners)
     # map (\<lambda>lbc. (lbcName (lbc_Meta lbc), sp_Listeners (lbc_Spec lbc)))
         (filter (\<lambda>lbc. lbcName (lbc_Meta lbc) \<noteq> selfName \<and> targets lbId lbc) allLBCs)"

text \<open>\<open>collectAclDeclarations\<close>: \<open>declared[port][f]\<close>.\<close>

definition collectAclDeclarations ::
  "string \<Rightarrow> Listener list \<Rightarrow> string \<Rightarrow> LoadBalancerConfig list \<Rightarrow> int \<Rightarrow> aclField \<Rightarrow> aclDeclaration list" where
  "collectAclDeclarations selfName selfListeners lbId allLBCs port f =
     concat (map (\<lambda>(name, ls). declarationsOf name ls port f) (declarers selfName selfListeners lbId allLBCs))"

text \<open>The keys of \<open>declared\<close>, sorted.\<close>

definition declaredPorts :: "string \<Rightarrow> Listener list \<Rightarrow> string \<Rightarrow> LoadBalancerConfig list \<Rightarrow> int list" where
  "declaredPorts selfName selfListeners lbId allLBCs =
     sort (remdups (filter (\<lambda>port. list_ex (\<lambda>f. collectAclDeclarations selfName selfListeners lbId allLBCs port f \<noteq> []) aclFields)
       (concat (map (\<lambda>(name, ls). map lis_ProtocolPort ls) (declarers selfName selfListeners lbId allLBCs)))))"

text \<open>The comparison of the declarations of one port and field with the first of them.\<close>

fun compareDecls :: "task \<Rightarrow> string \<Rightarrow> int \<Rightarrow> aclField \<Rightarrow> aclDeclaration \<Rightarrow> aclDeclaration list \<Rightarrow> unit M" where
  "compareDecls t lbId port f a [] = returnM ()"
| "compareDecls t lbId port f a (b # bs) =
     (if aclValueEqual (t_net t) f (Some (ad_value a)) (Some (ad_value b)) then compareDecls t lbId port f a bs
      else if f = aclAllowed
      then andThen (if ad_lbcName a = lbcName (t_Meta t)
                    then addWarning (''port '' @ Itoa port @ '': '' @ aclField_String f @ '' on load balancer '' @ lbId
                           @ '' differ: this resource uses '' @ [CHR 0x27] @ ad_value a @ [CHR 0x27] @ '', '' @ ad_lbcName b @ '' uses '' @ [CHR 0x27] @ ad_value b
                           @ [CHR 0x27] @ ''; the listener is shared, so it follows whichever applied last'')
                    else returnM ())
             (\<lambda>_. compareDecls t lbId port f a bs)
      else failM (NewNoNeedRequeue (''port '' @ Itoa port @ '' has different '' @ aclField_String f @ '' on load balancer '' @ lbId
             @ '': '' @ ad_lbcName a @ '' uses '' @ [CHR 0x27] @ ad_value a @ [CHR 0x27] @ '', '' @ ad_lbcName b @ '' uses '' @ [CHR 0x27] @ ad_value b
             @ [CHR 0x27] @ ''. Listeners on the same port share one ACL; declare it on one Ingress/Service or make them equal'')))"

definition validateAclField :: "task \<Rightarrow> string \<Rightarrow> LoadBalancerConfig list \<Rightarrow> int \<times> aclField \<Rightarrow> unit M" where
  "validateAclField t lbId allLBCs pf =
     (let port = fst pf; f = snd pf; selfName = lbcName (t_Meta t);
          decls = collectAclDeclarations selfName (sp_Listeners (t_Spec t)) lbId allLBCs port f
      in case decls of
           [] \<Rightarrow> returnM ()
         | a # rest \<Rightarrow>
             andThen (compareDecls t lbId port f a rest) (\<lambda>_.
               case find (\<lambda>d. ad_lbcName d \<noteq> selfName) decls of
                 None \<Rightarrow> returnM ()
               | Some peer \<Rightarrow>
                   andThen (setAclPeer port f peer) (\<lambda>_.
                     case find (\<lambda>l. lis_ProtocolPort l = port) (rev (sp_Listeners (t_Spec t))) of
                       Some own \<Rightarrow>
                         if acl_get f (Some (specAcl own)) = None
                         then addWarning (''port '' @ Itoa port @ '': '' @ aclField_String f @ '' is set to '' @ [CHR 0x27] @ ad_value peer @ [CHR 0x27] @ '' by ''
                                @ ad_lbcName peer @ ''; the listener is shared, so it also filters traffic for this resource'')
                         else returnM ()
                     | None \<Rightarrow> returnM ())))"

definition validateCrossListenerAcl :: "task \<Rightarrow> string \<Rightarrow> LoadBalancerConfig list \<Rightarrow> unit M" where
  "validateCrossListenerAcl t lbId allLBCs =
     andThen (mapM (validateAclField t lbId allLBCs)
       (concat (map (\<lambda>port. map (Pair port) aclFields)
          (declaredPorts (lbcName (t_Meta t)) (sp_Listeners (t_Spec t)) lbId allLBCs))))
       (\<lambda>_. returnM ())"

definition validateCrossLBCs :: "task \<Rightarrow> string \<Rightarrow> unit M" where
  "validateCrossLBCs t lbId =
     andThen (wrapErr (errorf ''failed to list LoadBalancerConfigs for cross-validation'') (ListLoadBalancerConfig t)) (\<lambda>allLBCs.
     andThen (fromResult (validateCrossListenerPorts lbId allLBCs)) (\<lambda>_.
     andThen (fromResult (validateCrossListenerDefaultPools lbId allLBCs)) (\<lambda>_.
       validateCrossListenerAcl t lbId allLBCs)))"

text \<open>\<open>collectAclPeers\<close>: the entry for a port and field, if any.\<close>

definition collectAclPeers :: "task \<Rightarrow> string \<Rightarrow> LoadBalancerConfig list \<Rightarrow> int \<Rightarrow> aclField \<Rightarrow> aclDeclaration option" where
  "collectAclPeers t lbId allLBCs port f =
     (case collectAclDeclarations (lbcName (t_Meta t)) [] lbId allLBCs port f of [] \<Rightarrow> None | d # _ \<Rightarrow> Some d)"

definition peerDeclaresAcl :: "st \<Rightarrow> int \<Rightarrow> aclField \<Rightarrow> bool" where
  "peerDeclaresAcl s port f \<longleftrightarrow> map_of (aclPeers s) (port, f) \<noteq> None"

section \<open>When validation succeeds\<close>

lemma dupPort_None_iff:
  "dupPort seen ls = None \<longleftrightarrow> distinct (map lis_ProtocolPort ls) \<and> (\<forall>l \<in> set ls. map_of seen (lis_ProtocolPort l) = None)"
proof (induction ls arbitrary: seen)
  case (Cons l ls)
  then show ?case by (auto simp: update_conv' image_iff split: option.splits)
qed simp

text \<open>
  A spec passes its own validation exactly when no two of its listeners share a port.
\<close>

theorem validateSelf_iff:
  "validateSelf t = Inr () \<longleftrightarrow> distinct (map lis_ProtocolPort (sp_Listeners (t_Spec t)))"
  using dupPort_None_iff[of "[]" "sp_Listeners (t_Spec t)"]
  by (auto simp: validateSelf_def validateSelfListenerPorts_def split: option.splits)

text \<open>What is said of each port, one entry after the other.\<close>

definition portEntries :: "(Listener \<Rightarrow> string) \<Rightarrow> string \<Rightarrow> LoadBalancerConfig list \<Rightarrow> (int \<times> string \<times> string) list" where
  "portEntries val lbId allLBCs =
     concat (map (\<lambda>lbc. map (\<lambda>l. (lis_ProtocolPort l, val l, lbcName (lbc_Meta lbc))) (sp_Listeners (lbc_Spec lbc)))
       (filter (targets lbId) allLBCs))"

definition addEntry :: "int \<times> string \<times> string \<Rightarrow> (int \<times> (string \<times> string) list) list \<Rightarrow> (int \<times> (string \<times> string) list) list" where
  "addEntry e m = AList.update (fst e) ((case map_of m (fst e) of Some xs \<Rightarrow> xs | None \<Rightarrow> []) @ [snd e]) m"

lemma fold_map_comp: "fold f (map g xs) m = fold (\<lambda>x. f (g x)) xs m"
  by (induction xs arbitrary: m) simp_all

lemma portMap_entries: "portMap val lbId allLBCs = fold addEntry (portEntries val lbId allLBCs) []"
proof -
  have "fold (\<lambda>lbc m. if \<not> targets lbId lbc then m
        else fold (\<lambda>l m'. AList.update (lis_ProtocolPort l)
                     ((case map_of m' (lis_ProtocolPort l) of Some xs \<Rightarrow> xs | None \<Rightarrow> []) @ [(val l, lbcName (lbc_Meta lbc))]) m')
               (sp_Listeners (lbc_Spec lbc)) m) allLBCs m
      = fold addEntry (portEntries val lbId allLBCs) m" for m
    by (induction allLBCs arbitrary: m) (simp_all add: portEntries_def fold_map_comp addEntry_def[abs_def])
  then show ?thesis by (simp add: portMap_def)
qed

lemma fold_addEntry:
  "map_of (fold addEntry es m) p =
     (case filter (\<lambda>e. fst e = p) es of [] \<Rightarrow> map_of m p
      | xs \<Rightarrow> Some ((case map_of m p of Some ys \<Rightarrow> ys | None \<Rightarrow> []) @ map snd xs))"
proof (induction es arbitrary: m)
  case (Cons e es)
  then show ?case
    by (cases "fst e = p") (auto simp: addEntry_def update_conv' split: list.splits option.splits)
qed simp

lemma distinct_fold_addEntry: "distinct (map fst m) \<Longrightarrow> distinct (map fst (fold addEntry es m))"
  by (induction es arbitrary: m) (simp_all add: addEntry_def distinct_update)

definition oneValue :: "(string \<times> string) list \<Rightarrow> bool" where
  "oneValue infos \<longleftrightarrow> (\<forall>x \<in> set infos. \<forall>y \<in> set infos. fst x = fst y)"

lemma oneValue_simps [simp]:
  "oneValue []" "oneValue (x # xs) \<longleftrightarrow> find (\<lambda>info. fst info \<noteq> fst x) xs = None"
  unfolding oneValue_def find_None_iff list.set by (metis insert_iff empty_iff)+

lemma portConflict_None_iff: "portConflict m = None \<longleftrightarrow> (\<forall>e \<in> set m. oneValue (snd e))"
  by (induction m rule: portConflict.induct) (auto split: list.splits option.splits)

lemma portMap_agree_iff:
  "portConflict (portMap val lbId allLBCs) = None \<longleftrightarrow>
     (\<forall>lbc1 \<in> set allLBCs. \<forall>lbc2 \<in> set allLBCs. targets lbId lbc1 \<longrightarrow> targets lbId lbc2 \<longrightarrow>
        (\<forall>l1 \<in> set (sp_Listeners (lbc_Spec lbc1)). \<forall>l2 \<in> set (sp_Listeners (lbc_Spec lbc2)).
           lis_ProtocolPort l1 = lis_ProtocolPort l2 \<longrightarrow> val l1 = val l2))"
    (is "_ \<longleftrightarrow> ?agree")
proof -
  let ?es = "portEntries val lbId allLBCs"
  let ?m = "fold addEntry ?es []"
  have mem: "(p, infos) \<in> set ?m \<longleftrightarrow> infos \<noteq> [] \<and> infos = map snd (filter (\<lambda>e. fst e = p) ?es)" for p infos
  proof -
    have "(p, infos) \<in> set ?m \<longleftrightarrow> map_of ?m p = Some infos"
      using distinct_fold_addEntry[of "[]" ?es] by simp
    also have "\<dots> \<longleftrightarrow> infos \<noteq> [] \<and> infos = map snd (filter (\<lambda>e. fst e = p) ?es)"
      unfolding fold_addEntry by (auto split: list.splits)
    finally show ?thesis .
  qed
  have "portConflict ?m = None \<longleftrightarrow> (\<forall>e \<in> set ?es. \<forall>e' \<in> set ?es. fst e = fst e' \<longrightarrow> fst (snd e) = fst (snd e'))"
  proof -
    have "portConflict ?m = None \<longleftrightarrow> (\<forall>p. oneValue (map snd (filter (\<lambda>e. fst e = p) ?es)))"
      unfolding portConflict_None_iff Ball_def split_paired_All snd_conv mem by (metis oneValue_simps(1))
    also have "\<dots> \<longleftrightarrow> (\<forall>e \<in> set ?es. \<forall>e' \<in> set ?es. fst e = fst e' \<longrightarrow> fst (snd e) = fst (snd e'))"
      unfolding oneValue_def set_map set_filter by blast
    finally show ?thesis .
  qed
  also have "\<dots> \<longleftrightarrow> ?agree"
    by (auto simp: portEntries_def)
  finally show ?thesis by (simp add: portMap_entries)
qed

text \<open>
  The LBCs on one load balancer agree, port by port: the cross-LBC port check succeeds exactly
  when any two listeners of LBCs targeting the load balancer that use one port use one protocol, and
  the default-pool check exactly when they name one default pool.
\<close>

theorem validateCross_iff:
  "(validateCrossListenerPorts lbId allLBCs = Inr () \<longleftrightarrow>
     (\<forall>lbc1 \<in> set allLBCs. \<forall>lbc2 \<in> set allLBCs. targets lbId lbc1 \<longrightarrow> targets lbId lbc2 \<longrightarrow>
        (\<forall>l1 \<in> set (sp_Listeners (lbc_Spec lbc1)). \<forall>l2 \<in> set (sp_Listeners (lbc_Spec lbc2)).
           lis_ProtocolPort l1 = lis_ProtocolPort l2 \<longrightarrow> lis_Protocol l1 = lis_Protocol l2)))
   \<and> (validateCrossListenerDefaultPools lbId allLBCs = Inr () \<longleftrightarrow>
     (\<forall>lbc1 \<in> set allLBCs. \<forall>lbc2 \<in> set allLBCs. targets lbId lbc1 \<longrightarrow> targets lbId lbc2 \<longrightarrow>
        (\<forall>l1 \<in> set (sp_Listeners (lbc_Spec lbc1)). \<forall>l2 \<in> set (sp_Listeners (lbc_Spec lbc2)).
           lis_ProtocolPort l1 = lis_ProtocolPort l2
           \<longrightarrow> deref (lis_DefaultPoolName l1) = deref (lis_DefaultPoolName l2))))"
  unfolding portMap_agree_iff[symmetric]
  by (auto simp: validateCrossListenerPorts_def validateCrossListenerDefaultPools_def split: option.splits)

definition ex_port_lbc :: "string \<Rightarrow> string \<Rightarrow> LoadBalancerConfig" where
  "ex_port_lbc name protocol =
     \<lparr>lbc_Meta = ex_meta\<lparr>om_Name := name\<rparr>,
      lbc_Spec = ex_spec\<lparr>sp_LoadBalancerId := Some ''lb-1'',
        sp_Listeners := [\<lparr>lis_Name = ''l'', lis_Description = None, lis_Protocol = protocol, lis_ProtocolPort = 80,
          lis_DefaultPoolName = None, lis_TimeoutClient = None, lis_TimeoutMember = None, lis_TimeoutConnection = None,
          lis_AllowedCidrs = None, lis_BlockedCidrs = None, lis_DefaultAction = None, lis_InsertHeaders = None,
          lis_Policies = [], lis_CertificateDefault = None, lis_CertificateAuthorities = [],
          lis_ClientCertificateId = None\<rparr>]\<rparr>,
      lbc_Status = ex_status\<rparr>"

theorem validateCross_iff_witness:
  "validateCrossListenerPorts ''lb-1'' [ex_port_lbc ''a'' ''TCP'', ex_port_lbc ''b'' ''UDP''] \<noteq> Inr ()
   \<and> validateCrossListenerDefaultPools ''lb-1'' [ex_port_lbc ''a'' ''TCP'', ex_port_lbc ''b'' ''UDP''] = Inr ()"
  using validateCross_iff[of "''lb-1''" "[ex_port_lbc ''a'' ''TCP'', ex_port_lbc ''b'' ''UDP'']"]
  by (simp add: ex_port_lbc_def targets_def lbcTarget_def)

section \<open>The ACL check\<close>

text \<open>The declarations of one port and field as the check sees them, this LBC's first.\<close>

abbreviation declsFor :: "task \<Rightarrow> string \<Rightarrow> LoadBalancerConfig list \<Rightarrow> int \<Rightarrow> aclField \<Rightarrow> aclDeclaration list" where
  "declsFor t lbId allLBCs \<equiv> collectAclDeclarations (lbcName (t_Meta t)) (sp_Listeners (t_Spec t)) lbId allLBCs"

lemma declarationsOf_name: "d \<in> set (declarationsOf name ls port f) \<Longrightarrow> ad_lbcName d = name"
  by (auto simp: declarationsOf_def map_filter_def split: if_splits)

lemma declsFor_split:
  "declsFor t lbId all port f =
     declarationsOf (lbcName (t_Meta t)) (sp_Listeners (t_Spec t)) port f
     @ collectAclDeclarations (lbcName (t_Meta t)) [] lbId all port f"
  by (simp add: collectAclDeclarations_def declarers_def declarationsOf_def map_filter_def)

lemma peers_name: "d \<in> set (collectAclDeclarations self [] lbId all port f) \<Longrightarrow> ad_lbcName d \<noteq> self"
  by (auto simp: collectAclDeclarations_def declarers_def declarationsOf_def map_filter_def split: if_splits)

lemma find_peer:
  "find (\<lambda>d. ad_lbcName d \<noteq> lbcName (t_Meta t)) (declsFor t lbId all port f) = collectAclPeers t lbId all port f"
proof -
  have skip: "find P (xs @ ys) = find P ys" if "\<forall>x \<in> set xs. \<not> P x" for P :: "aclDeclaration \<Rightarrow> bool" and xs ys
    using that by (induction xs) auto
  have "find (\<lambda>d. ad_lbcName d \<noteq> lbcName (t_Meta t)) (declsFor t lbId all port f)
      = find (\<lambda>d. ad_lbcName d \<noteq> lbcName (t_Meta t)) (collectAclDeclarations (lbcName (t_Meta t)) [] lbId all port f)"
    unfolding declsFor_split by (rule skip) (simp add: declarationsOf_name)
  also have "\<dots> = collectAclPeers t lbId all port f"
    using peers_name[of _ "lbcName (t_Meta t)" lbId all port f]
    by (simp add: collectAclPeers_def split: list.splits)
  finally show ?thesis .
qed

text \<open>Comparing warns or fails, and nothing else.\<close>

lemma compareDecls_state: "aclPeers (snd (compareDecls t lbId port f a bs s)) = aclPeers s"
  by (cases f; induction bs arbitrary: s; simp add: andThen_def)

lemma compareDecls_ok_iff:
  "fst (compareDecls t lbId port f a bs s) = Inr () \<longleftrightarrow>
     f = aclAllowed \<or> list_all (\<lambda>b. aclValueEqual (t_net t) f (Some (ad_value a)) (Some (ad_value b))) bs"
proof (cases "f = aclAllowed")
  case True
  then have "fst (compareDecls t lbId port f a bs s) = Inr ()"
    by (induction bs arbitrary: s) (simp_all add: andThen_def)
  with True show ?thesis by simp
next
  case False
  then show ?thesis by (induction bs arbitrary: s) simp_all
qed

definition declsAgree :: "task \<Rightarrow> aclField \<Rightarrow> aclDeclaration list \<Rightarrow> bool" where
  "declsAgree t f ds \<longleftrightarrow>
     f = aclAllowed \<or> (\<forall>a \<in> set ds. \<forall>b \<in> set ds. aclValueEqual (t_net t) f (Some (ad_value a)) (Some (ad_value b)))"

lemma declsAgree_Cons:
  "declsAgree t f (a # bs) \<longleftrightarrow>
     f = aclAllowed \<or> list_all (\<lambda>b. aclValueEqual (t_net t) f (Some (ad_value a)) (Some (ad_value b))) bs"
proof -
  let ?eq = "\<lambda>a b. aclValueEqual (t_net t) f (Some (ad_value a)) (Some (ad_value b))"
  have "?eq x y" if first: "\<forall>b \<in> set bs. ?eq a b" and "x \<in> set (a # bs)" "y \<in> set (a # bs)" for x y
  proof -
    have "?eq a x" "?eq a y" using that by auto
    then show ?thesis by (blast intro: aclValueEqual_sym aclValueEqual_trans)
  qed
  then show ?thesis unfolding declsAgree_def list_all_iff by (metis list.set_intros)
qed

lemma validateAclField_run:
  "fst (validateAclField t lbId all (port, f) s) = Inr () \<longleftrightarrow> declsAgree t f (declsFor t lbId all port f)"
  "fst (validateAclField t lbId all (port, f) s) = Inr () \<Longrightarrow>
     map_of (aclPeers (snd (validateAclField t lbId all (port, f) s))) pf =
       (if pf = (port, f) \<and> collectAclPeers t lbId all port f \<noteq> None then collectAclPeers t lbId all port f
        else map_of (aclPeers s) pf)"
proof -
  let ?ds = "declsFor t lbId all port f"
  consider "?ds = []" | a bs where "?ds = a # bs" by (cases ?ds) auto
  then have "(fst (validateAclField t lbId all (port, f) s) = Inr () \<longleftrightarrow> declsAgree t f ?ds)
    \<and> (fst (validateAclField t lbId all (port, f) s) = Inr () \<longrightarrow>
         map_of (aclPeers (snd (validateAclField t lbId all (port, f) s))) pf =
           (if pf = (port, f) \<and> collectAclPeers t lbId all port f \<noteq> None then collectAclPeers t lbId all port f
            else map_of (aclPeers s) pf))"
  proof cases
    case 1
    then have "collectAclPeers t lbId all port f = None" using find_peer[of t lbId all port f] by simp
    with 1 show ?thesis by (simp add: validateAclField_def declsAgree_def)
  next
    case 2
    obtain r s1 where run: "compareDecls t lbId port f a bs s = (r, s1)" by (cases "compareDecls t lbId port f a bs s")
    from compareDecls_state[of t lbId port f a bs s] run have p: "aclPeers s1 = aclPeers s" by simp
    from compareDecls_ok_iff[of t lbId port f a bs s] run have ok: "r = Inr () \<longleftrightarrow> declsAgree t f ?ds"
      by (simp add: 2 declsAgree_Cons)
    show ?thesis
      using find_peer[of t lbId all port f] run p ok unfolding validateAclField_def
      by (cases r) (auto simp: 2 Let_def andThen_def update_conv' split: option.splits)
  qed
  then show "fst (validateAclField t lbId all (port, f) s) = Inr () \<longleftrightarrow> declsAgree t f ?ds"
    and "fst (validateAclField t lbId all (port, f) s) = Inr () \<Longrightarrow>
     map_of (aclPeers (snd (validateAclField t lbId all (port, f) s))) pf =
       (if pf = (port, f) \<and> collectAclPeers t lbId all port f \<noteq> None then collectAclPeers t lbId all port f
        else map_of (aclPeers s) pf)" by blast+
qed

lemma validateAclFields_run:
  "((\<exists>ys. fst (mapM (validateAclField t lbId all) pfs s) = Inr ys)
     \<longleftrightarrow> (\<forall>(port, f) \<in> set pfs. declsAgree t f (declsFor t lbId all port f)))
   \<and> ((\<exists>ys. fst (mapM (validateAclField t lbId all) pfs s) = Inr ys) \<longrightarrow>
     map_of (aclPeers (snd (mapM (validateAclField t lbId all) pfs s))) (port, f) =
       (if (port, f) \<in> set pfs \<and> collectAclPeers t lbId all port f \<noteq> None then collectAclPeers t lbId all port f
        else map_of (aclPeers s) (port, f)))"
proof (induction pfs arbitrary: s)
  case (Cons pf pfs)
  obtain p g where pf: "pf = (p, g)" by (cases pf)
  obtain r s1 where 1: "validateAclField t lbId all pf s = (r, s1)" by (cases "validateAclField t lbId all pf s")
  obtain r2 s2 where 2: "mapM (validateAclField t lbId all) pfs s1 = (r2, s2)"
    by (cases "mapM (validateAclField t lbId all) pfs s1")
  note field = validateAclField_run[of t lbId all p g s, folded pf, unfolded 1 fst_conv snd_conv]
  note rest = Cons.IH[of s1, unfolded 2 fst_conv snd_conv]
  show ?case
  proof (cases r)
    case (Inr u)
    then have r: "r = Inr ()" by simp
    with 1 2 have run: "mapM (validateAclField t lbId all) (pf # pfs) s
        = (case r2 of Inl e \<Rightarrow> (Inl e, s2) | Inr ys \<Rightarrow> (Inr (() # ys), s2))"
      by (simp add: andThen_def split: sum.splits)
    show ?thesis
      unfolding run using rest field(1) field(2)[OF r, of "(port, f)"] r by (cases r2) (auto simp: pf)
  qed (use 1 field(1) pf in \<open>auto simp: andThen_def\<close>)
qed simp

lemma declared_mem:
  assumes "declsFor t lbId all port f \<noteq> []"
  shows "port \<in> set (declaredPorts (lbcName (t_Meta t)) (sp_Listeners (t_Spec t)) lbId all)"
proof -
  let ?ds = "declarers (lbcName (t_Meta t)) (sp_Listeners (t_Spec t)) lbId all"
  from assms obtain name ls where "(name, ls) \<in> set ?ds" "declarationsOf name ls port f \<noteq> []"
    by (auto simp: collectAclDeclarations_def)
  moreover from this(2) have "port \<in> lis_ProtocolPort ` set ls"
    by (auto simp: declarationsOf_def map_filter_def filter_empty_conv split: if_splits)
  moreover have "f \<in> set aclFields" by (cases f) (simp_all add: aclFields_def)
  ultimately show ?thesis using assms
    unfolding declaredPorts_def by (auto simp: list_ex_iff intro!: bexI[of _ "(name, ls)"])
qed

lemma aclPairs_mem:
  "(port, f) \<in> set (concat (map (\<lambda>port. map (Pair port) aclFields) ports)) \<longleftrightarrow> port \<in> set ports"
  by (cases f) (auto simp: aclFields_def)

text \<open>
  A shared listener has one blocked list and one default action: the cross-LBC ACL check fails
  exactly when two declarations of one port - by this LBC or by others on the load balancer - give
  different values for one of the two fields; differing allowed lists only warn. And after a check
  that succeeds, the peers the task works with are exactly those \<open>collectAclPeers\<close> computes for the
  paths that do not validate.
\<close>

theorem validateCrossListenerAcl_spec:
  assumes "aclPeers s = []"
  shows "(fst (validateCrossListenerAcl t lbId all s) = Inr () \<longleftrightarrow>
      (\<forall>port f. declsAgree t f (declsFor t lbId all port f)))
    \<and> (fst (validateCrossListenerAcl t lbId all s) = Inr () \<longrightarrow>
        (\<forall>port f. map_of (aclPeers (snd (validateCrossListenerAcl t lbId all s))) (port, f)
                    = collectAclPeers t lbId all port f))"
proof -
  let ?ports = "declaredPorts (lbcName (t_Meta t)) (sp_Listeners (t_Spec t)) lbId all"
  let ?pfs = "concat (map (\<lambda>port. map (Pair port) aclFields) ?ports)"
  obtain r s1 where run: "mapM (validateAclField t lbId all) ?pfs s = (r, s1)"
    by (cases "mapM (validateAclField t lbId all) ?pfs s")
  have undeclared: "declsFor t lbId all port f = []" if "port \<notin> set ?ports" for port f
    using declared_mem[of t lbId all port f] that by blast
  have none: "collectAclPeers t lbId all port f = None" if "port \<notin> set ?ports" for port f
    using find_peer[of t lbId all port f] undeclared[OF that, of f] by simp
  have "(\<exists>ys. r = Inr ys) \<longleftrightarrow> (\<forall>port \<in> set ?ports. \<forall>f. declsAgree t f (declsFor t lbId all port f))"
    using conjunct1[OF validateAclFields_run[of t lbId all ?pfs s]] run
    unfolding Ball_def split_paired_All case_prod_conv aclPairs_mem by auto
  also have "\<dots> \<longleftrightarrow> (\<forall>port f. declsAgree t f (declsFor t lbId all port f))"
    using undeclared by (metis declsAgree_def empty_iff list.set(1))
  finally have ok: "(\<exists>ys. r = Inr ys) \<longleftrightarrow> (\<forall>port f. declsAgree t f (declsFor t lbId all port f))" .
  have peers: "map_of (aclPeers s1) (port, f) = collectAclPeers t lbId all port f" if "r = Inr ys" for ys port f
    using validateAclFields_run[of t lbId all ?pfs s port f, unfolded aclPairs_mem] run that none[of port f] assms
    by (auto split: if_splits)
  show ?thesis
    using ok peers run unfolding validateCrossListenerAcl_def by (cases r) (auto simp: andThen_def)
qed

theorem validateCrossListenerAcl_spec_witness:
  "fst (validateCrossListenerAcl ex_task ''lb-1'' [] ex_st) = Inr ()
   \<and> map_of (aclPeers (snd (validateCrossListenerAcl ex_task ''lb-1'' [] ex_st))) (80, aclBlocked) = None"
proof -
  have "declsFor ex_task ''lb-1'' [] port f = []" for port f
    by (simp add: collectAclDeclarations_def declarers_def declarationsOf_def ex_task_def ex_spec_def map_filter_def)
  moreover have "collectAclPeers ex_task ''lb-1'' [] 80 aclBlocked = None"
    by (simp add: collectAclPeers_def collectAclDeclarations_def declarers_def declarationsOf_def map_filter_def)
  ultimately show ?thesis
    using validateCrossListenerAcl_spec[of ex_st ex_task "''lb-1''" "[]"] by (simp add: declsAgree_def ex_st_def)
qed

section \<open>What validation calls\<close>

lemma safe_emits_compareDecls: "safe (emitsR P) (compareDecls t lbId port f a bs) s"
  by (induction bs arbitrary: s) (auto intro!: emits_struct safe_emits_addWarning)

lemma safe_emits_validateCrossLBCs [safe_intro]:
  assumes "\<And>h r. P h (EvListLBC r)"
  shows "safe (emitsR P) (validateCrossLBCs t lbId) s"
  unfolding validateCrossLBCs_def validateCrossListenerAcl_def validateAclField_def ListLoadBalancerConfig_def Let_def
  by (intro emits_struct safe_emits_call safe_emits_compareDecls safe_emits_addWarning safe_emits_setAclPeer
      safe_emits_fromResult assms)

lemma safe_keeps_compareDecls: "safe (keepsR lbStatus) (compareDecls t lbId port f a bs) s"
  by (cases f; induction bs arbitrary: s; simp add: safe_def keepsR_def andThen_def)

end
