(* ===== verification/Listeners.thy ===== *)
theory Listeners
  imports Policies Validate
begin

text \<open>
  Listeners: \<^verbatim>\<open>internal/usecase/lbc_uc/deploy_listener.go\<close> and \<^verbatim>\<open>delete_listener.go\<close>.

  The messages \<open>buildListenerUpdateRequest\<close> collects are only logged and are left out, and so is the
  dump of the certificate (a struct of pointers) in the text of the errors of
  \<open>buildCreateListenerRequest\<close>. The memo of \<open>adoptedAclPeers\<close> is threaded through the loop: \<open>None\<close>
  while \<open>listed\<close> is false, then the outcome of the one list call.
\<close>

section \<open>Certificates of a listener\<close>

definition findListenerCertificateId :: "task \<Rightarrow> CreatedCertificate list \<Rightarrow> ListenerCertificate \<Rightarrow> string M" where
  "findListenerCertificateId t createdCerts cert =
     (case lc_Id cert of
        Some i \<Rightarrow> returnM i
      | None \<Rightarrow>
        (case lc_SecretName cert of
           Some sn \<Rightarrow>
             (case find (\<lambda>c. ccert_SecretName c = sn) createdCerts of
                Some c \<Rightarrow> returnM (ccert_Id c)
              | None \<Rightarrow> failM (ErrorString (''certificate with secret name '' @ sn @ '' not found in created certificates'')))
         | None \<Rightarrow>
           (case lc_Name cert of
              Some n \<Rightarrow>
                andThen (ListCertificates t) (\<lambda>certs.
                  case find (\<lambda>c. ec_Name c = n) certs of
                    Some c \<Rightarrow> returnM (ec_UUID c)
                  | None \<Rightarrow> failM (ErrorString (''certificate with name '' @ n @ '' not found in vngcloud'')))
            | None \<Rightarrow> failM (ErrorString ''listener certificate must have id, secretName or name''))))"

section \<open>Requests\<close>

definition buildCreateListenerRequest ::
  "task \<Rightarrow> string \<Rightarrow> Listener \<Rightarrow> CreatedPool list \<Rightarrow> CreatedCertificate list \<Rightarrow> CreateListenerRequest M" where
  "buildCreateListenerRequest t lbId listenerSpec newCreatedPools createdCerts =
     (let opts = cfg_LoadBalancerOpts (t_cfg t);
          or_default = (\<lambda>p d. case p of None \<Rightarrow> d | Some v \<Rightarrow> v);
          req = \<lparr>clr_Name = lis_Name listenerSpec, clr_Protocol = lis_Protocol listenerSpec,
                 clr_ProtocolPort = lis_ProtocolPort listenerSpec,
                 clr_AllowedCidrs = (if nonempty (lis_AllowedCidrs listenerSpec) then deref (lis_AllowedCidrs listenerSpec)
                                     else DefaultAllowedCidrs opts),
                 clr_BlockedCidrs = lis_BlockedCidrs listenerSpec,
                 clr_DefaultAction = lis_DefaultAction listenerSpec,
                 clr_TimeoutClient = or_default (lis_TimeoutClient listenerSpec) (DefaultTimeoutClient opts),
                 clr_TimeoutMember = or_default (lis_TimeoutMember listenerSpec) (DefaultTimeoutMember opts),
                 clr_TimeoutConnection = or_default (lis_TimeoutConnection listenerSpec) (DefaultTimeoutConnection opts),
                 clr_LoadBalancerId = lbId,
                 clr_DefaultPoolId =
                   (case lis_DefaultPoolName listenerSpec of
                      Some name \<Rightarrow> map_option cp_Id (findCreatedPoolByName newCreatedPools name)
                    | None \<Rightarrow> None),
                 clr_InsertHeaders =
                   (case lis_InsertHeaders listenerSpec of
                      Some (h # hs) \<Rightarrow> Some (concat (map (\<lambda>h. [ih_HeaderName h, ih_HeaderValue h]) (h # hs)))
                    | _ \<Rightarrow> None),
                 clr_DefaultCertificateAuthority = None, clr_CertificateAuthorities = None,
                 clr_ClientCertificate = None\<rparr>
      in andThen (case lis_CertificateDefault listenerSpec of
                    None \<Rightarrow> returnM req
                  | Some cert \<Rightarrow>
                      andThen (wrapErr (errorf ''find default certificate'') (findListenerCertificateId t createdCerts cert))
                        (\<lambda>certId. returnM (req\<lparr>clr_DefaultCertificateAuthority := Some certId\<rparr>))) (\<lambda>req1.
         andThen (if lis_CertificateAuthorities listenerSpec = [] then returnM req1
                  else andThen (mapM (\<lambda>ca. wrapErr (errorf ''find certificate authority'') (findListenerCertificateId t createdCerts ca))
                                  (lis_CertificateAuthorities listenerSpec))
                         (\<lambda>cas. returnM (req1\<lparr>clr_CertificateAuthorities := Some cas\<rparr>))) (\<lambda>req2.
           returnM (if lis_ClientCertificateId listenerSpec \<noteq> None
                    then req2\<lparr>clr_ClientCertificate := lis_ClientCertificateId listenerSpec\<rparr> else req2))))"

definition compareHeader :: "InsertHeader list option \<Rightarrow> InsertHeader list option \<Rightarrow> bool" where
  "compareHeader current newHeaders =
     (case (current, newHeaders) of
        (None, None) \<Rightarrow> True
      | (Some cur, Some new) \<Rightarrow>
          length cur = length new
          \<and> (let mapHeader = fold (\<lambda>h m. AList.update (ih_HeaderName h) (ih_HeaderValue h) m) new []
             in list_all (\<lambda>h. map_of mapHeader (ih_HeaderName h) = Some (ih_HeaderValue h)) cur)
      | _ \<Rightarrow> False)"

text \<open>The request that keeps everything as it is, but for the ACL fields the plan sets.\<close>

definition currentListenerRequest :: "string \<Rightarrow> bool \<Rightarrow> entity_Listener \<Rightarrow> ListenerAcl \<Rightarrow> UpdateListenerRequest" where
  "currentListenerRequest lbId https current desired =
     \<lparr>ulr_LoadBalancerId = lbId, ulr_ListenerId = el_UUID current,
      ulr_AllowedCidrs = (case acl_AllowedCidrs desired of Some v \<Rightarrow> v | None \<Rightarrow> el_AllowedCidrs current),
      ulr_BlockedCidrs = acl_BlockedCidrs desired,
      ulr_DefaultAction = acl_DefaultAction desired,
      ulr_TimeoutClient = el_TimeoutClient current, ulr_TimeoutMember = el_TimeoutMember current,
      ulr_TimeoutConnection = el_TimeoutConnection current,
      ulr_DefaultPoolId = el_DefaultPoolId current,
      ulr_InsertHeaders = el_InsertHeaders current,
      ulr_DefaultCertificateAuthority = (if https then el_DefaultCertificateAuthority current else None),
      ulr_CertificateAuthorities = (if https then Some (el_CertificateAuthorities current) else None),
      ulr_ClientCertificate = (if https then el_ClientCertificateAuthentication current else None)\<rparr>"

definition wantedDefaultPool :: "CreatedPool list \<Rightarrow> Listener \<Rightarrow> string" where
  "wantedDefaultPool newCreatedPools listenerSpec =
     (if nonempty (lis_DefaultPoolName listenerSpec)
      then case findCreatedPoolByName newCreatedPools (deref (lis_DefaultPoolName listenerSpec)) of
             Some p \<Rightarrow> cp_Id p | None \<Rightarrow> []
      else [])"

text \<open>The part of \<open>buildListenerUpdateRequest\<close> before the certificates: \<open>isNeedUpdate\<close> and \<open>updateOptions\<close>.\<close>

definition listenerUpdate ::
  "task \<Rightarrow> string \<Rightarrow> Listener \<Rightarrow> entity_Listener \<Rightarrow> CreatedPool list \<Rightarrow> aclPlan \<Rightarrow> bool \<times> UpdateListenerRequest" where
  "listenerUpdate t lbId listenerSpec current newCreatedPools acl =
     (let layer7 = (sp_Type (t_Spec t) = LoadBalancerTypeLayer7 (t_sdk t));
          https = (lis_Protocol listenerSpec = ListenerProtocolHTTPS (t_sdk t));
          poolId = wantedDefaultPool newCreatedPools listenerSpec;
          x0 = (False, currentListenerRequest lbId https current (pl_Desired acl));
          x1 = change (pl_Changes acl \<noteq> []) (\<lambda>r. r) x0;
          x2 = change (differs (lis_TimeoutClient listenerSpec) (el_TimeoutClient current))
                 (\<lambda>r. r\<lparr>ulr_TimeoutClient := the (lis_TimeoutClient listenerSpec)\<rparr>) x1;
          x3 = change (differs (lis_TimeoutMember listenerSpec) (el_TimeoutMember current))
                 (\<lambda>r. r\<lparr>ulr_TimeoutMember := the (lis_TimeoutMember listenerSpec)\<rparr>) x2;
          x4 = change (differs (lis_TimeoutConnection listenerSpec) (el_TimeoutConnection current))
                 (\<lambda>r. r\<lparr>ulr_TimeoutConnection := the (lis_TimeoutConnection listenerSpec)\<rparr>) x3;
          x5 = change (poolId \<noteq> el_DefaultPoolId current) (\<lambda>r. r\<lparr>ulr_DefaultPoolId := poolId\<rparr>) x4
      in change (layer7 \<and> \<not> compareHeader (el_InsertHeaders current) (lis_InsertHeaders listenerSpec))
           (\<lambda>r. r\<lparr>ulr_InsertHeaders := Some (case lis_InsertHeaders listenerSpec of Some hs \<Rightarrow> hs | None \<Rightarrow> [])\<rparr>) x5)"

text \<open>The certificates of an HTTPS listener of a layer-7 load balancer.\<close>

definition certificateUpdate ::
  "task \<Rightarrow> Listener \<Rightarrow> entity_Listener \<Rightarrow> CreatedCertificate list \<Rightarrow> bool \<times> UpdateListenerRequest
   \<Rightarrow> (bool \<times> UpdateListenerRequest) M" where
  "certificateUpdate t listenerSpec current createdCerts x =
     (let x1 = change (el_ClientCertificateAuthentication current \<noteq> lis_ClientCertificateId listenerSpec)
                 (\<lambda>r. r\<lparr>ulr_ClientCertificate := lis_ClientCertificateId listenerSpec\<rparr>) x
      in andThen
           (case lis_CertificateDefault listenerSpec of
              None \<Rightarrow> returnM (change (el_DefaultCertificateAuthority current \<noteq> None)
                                (\<lambda>r. r\<lparr>ulr_DefaultCertificateAuthority := None\<rparr>) x1)
            | Some cert \<Rightarrow>
                andThen (findListenerCertificateId t createdCerts cert) (\<lambda>certId.
                  returnM (change (el_DefaultCertificateAuthority current \<noteq> Some certId)
                             (\<lambda>r. r\<lparr>ulr_DefaultCertificateAuthority := Some certId\<rparr>) x1))) (\<lambda>x2.
         if lis_CertificateAuthorities listenerSpec = []
         then returnM (change (el_CertificateAuthorities current \<noteq> []) (\<lambda>r. r\<lparr>ulr_CertificateAuthorities := None\<rparr>) x2)
         else andThen (mapM (findListenerCertificateId t createdCerts) (lis_CertificateAuthorities listenerSpec)) (\<lambda>newCAs.
                returnM (change (set newCAs \<noteq> set (el_CertificateAuthorities current))
                           (\<lambda>r. r\<lparr>ulr_CertificateAuthorities := Some newCAs\<rparr>) x2))))"

definition buildListenerUpdateRequest ::
  "task \<Rightarrow> string \<Rightarrow> Listener \<Rightarrow> entity_Listener \<Rightarrow> CreatedPool list \<Rightarrow> CreatedCertificate list \<Rightarrow> aclPlan
   \<Rightarrow> UpdateListenerRequest option M" where
  "buildListenerUpdateRequest t lbId listenerSpec current newCreatedPools createdCerts acl =
     andThen
       (if sp_Type (t_Spec t) = LoadBalancerTypeLayer7 (t_sdk t) \<and> lis_Protocol listenerSpec = ListenerProtocolHTTPS (t_sdk t)
        then certificateUpdate t listenerSpec current createdCerts (listenerUpdate t lbId listenerSpec current newCreatedPools acl)
        else returnM (listenerUpdate t lbId listenerSpec current newCreatedPools acl)) (\<lambda>x.
       case x of (isNeedUpdate, updateOptions) \<Rightarrow> returnM (if \<not> isNeedUpdate then None else Some updateOptions))"

section \<open>Deploying\<close>

text \<open>\<open>carryAdoption\<close>, on the value \<open>deployListener\<close> returns.\<close>

definition carryAdoption :: "LoadBalancerConfigStatus \<Rightarrow> CreatedListener \<Rightarrow> CreatedListener" where
  "carryAdoption status created =
     (case find (\<lambda>rec. cl_Id rec = cl_Id created) (ss_CreatedListeners status) of
        None \<Rightarrow> created
      | Some rec \<Rightarrow>
          let c1 = created\<lparr>cl_OriginalAcl := cl_OriginalAcl rec\<rparr>
          in if cl_Adopted rec
             then c1\<lparr>cl_Adopted := True, cl_OriginalDefaultPoolId := cl_OriginalDefaultPoolId rec\<rparr>
             else c1)"

text \<open>The listener the rest of \<open>deployListener\<close> works on: created, or found by its port and put on record.\<close>

definition obtainListener ::
  "task \<Rightarrow> string \<Rightarrow> Listener \<Rightarrow> entity_Listener list \<Rightarrow> CreatedPool list \<Rightarrow> CreatedCertificate list \<Rightarrow> entity_Listener M" where
  "obtainListener t lbId listenerSpec currentListeners newCreatedPools createdCerts =
     (case find (\<lambda>l. el_ProtocolPort l = lis_ProtocolPort listenerSpec) currentListeners of
        None \<Rightarrow>
          andThen (buildCreateListenerRequest t lbId listenerSpec newCreatedPools createdCerts) (\<lambda>createRequest.
          andThen (wrapErr (errorf (''create listener port '' @ Itoa (lis_ProtocolPort listenerSpec) @ '' on LB '' @ lbId))
                     (CreateListener t lbId createRequest)) (\<lambda>lis.
          andThen (statusAddListener t (el_UUID lis) (lis_ProtocolPort listenerSpec)
                     (neutralAcl (specAcl listenerSpec) (DefaultAllowedCidrs (cfg_LoadBalancerOpts (t_cfg t))))) (\<lambda>_.
          andThen (wrapErr (errorf (''wait LB '' @ lbId @ '' active after creating listener '' @ el_UUID lis))
                     (WaitForLBActive t lbId)) (\<lambda>_.
            GetListenerById t lbId (el_UUID lis)))))
      | Some currentListener \<Rightarrow>
          andThen (statusAdoptListener t (el_UUID currentListener) (el_ProtocolPort currentListener)
                     (el_DefaultPoolId currentListener)) (\<lambda>_.
            returnM currentListener))"

text \<open>From the plan of the ACL to the record after the update.\<close>

definition updateListenerStep ::
  "task \<Rightarrow> string \<Rightarrow> Listener \<Rightarrow> entity_Listener \<Rightarrow> CreatedPool list \<Rightarrow> CreatedCertificate list \<Rightarrow> unit M" where
  "updateListenerStep t lbId listenerSpec currentListener newCreatedPools createdCerts =
     (let uuid = el_UUID currentListener in
      andThen (getS (\<lambda>s. planListenerAcl (t_net t) (specAcl listenerSpec) (currentAcl currentListener)
                          (originalAclOf (lbStatus s) uuid) (neutralFallback t (lbStatus s) uuid)
                          (peerDeclaresAcl s (lis_ProtocolPort listenerSpec)))) (\<lambda>acl.
      andThen (statusSetOriginalAcl t uuid (pl_RecordBefore acl)) (\<lambda>_.
      andThen (buildListenerUpdateRequest t lbId listenerSpec currentListener newCreatedPools createdCerts acl) (\<lambda>updateOptions.
      andThen (case updateOptions of
                 None \<Rightarrow> returnM ()
               | Some opts \<Rightarrow>
                   andThen (wrapErr (errorf (''update listener '' @ uuid @ '' on LB '' @ lbId)) (UpdateListener t lbId uuid opts)) (\<lambda>_.
                   andThen (wrapErr (errorf (''wait LB '' @ lbId @ '' active after updating listener '' @ uuid))
                              (WaitForLBActive t lbId)) (\<lambda>_. returnM ()))) (\<lambda>_.
        statusSetOriginalAcl t uuid (pl_RecordAfter acl))))))"

definition deployListener ::
  "task \<Rightarrow> string \<Rightarrow> entity_Listener list \<Rightarrow> CreatedPool list \<Rightarrow> CreatedCertificate list \<Rightarrow> Listener \<Rightarrow> CreatedListener M" where
  "deployListener t lbId currentListeners newCreatedPools createdCerts listenerSpec =
     andThen (obtainListener t lbId listenerSpec currentListeners newCreatedPools createdCerts) (\<lambda>currentListener.
     let uuid = el_UUID currentListener in
     if el_Protocol currentListener \<noteq> lis_Protocol listenerSpec
     then failM (ErrorString (''listener '' @ uuid @ '' port '' @ Itoa (lis_ProtocolPort listenerSpec)
            @ '' protocol mismatch (current '' @ el_Protocol currentListener @ '', want '' @ lis_Protocol listenerSpec
            @ ''), please delete listener first in portal''))
     else
       andThen (updateListenerStep t lbId listenerSpec currentListener newCreatedPools createdCerts) (\<lambda>_.
       if sp_Type (t_Spec t) = LoadBalancerTypeLayer4 (t_sdk t)
       then getS (\<lambda>s. carryAdoption (lbStatus s) (newCreatedListener uuid (el_ProtocolPort currentListener)))
       else
         andThen (deployPolicies t lbId uuid (lis_ProtocolPort listenerSpec) (lis_Policies listenerSpec) newCreatedPools)
           (\<lambda>createdPolicies.
         andThen (deployReorderPolicies t lbId uuid (lis_Policies listenerSpec)) (\<lambda>_.
           getS (\<lambda>s. carryAdoption (lbStatus s)
             ((newCreatedListener uuid (el_ProtocolPort currentListener))\<lparr>cl_CreatedPolicies := createdPolicies\<rparr>))))))"

definition deployListeners ::
  "task \<Rightarrow> string \<Rightarrow> CreatedPool list \<Rightarrow> CreatedCertificate list \<Rightarrow> CreatedListener list M" where
  "deployListeners t lbId newCreatedPools createdCerts =
     andThen (ListListenerOfLB t lbId) (\<lambda>currentListeners.
       mapM (deployListener t lbId currentListeners newCreatedPools createdCerts) (sp_Listeners (t_Spec t)))"

section \<open>Deleting\<close>

definition canDeleteWholeListener ::
  "task \<Rightarrow> string \<Rightarrow> CreatedListener list \<Rightarrow> CreatedPool list \<Rightarrow> entity_Listener \<Rightarrow> bool M" where
  "canDeleteWholeListener t lbId createdListeners newCreatedPools listener =
     (if sp_Type (t_Spec t) = LoadBalancerTypeLayer4 (t_sdk t) then returnM True
      else
        andThen (wrapErr (errorf (''list policies of listener '' @ el_UUID listener @ '' on LB '' @ lbId))
                   (ListPolicyOfListener t lbId (el_UUID listener))) (\<lambda>currentPolicies.
        let createdPolicies = recordedPolicies createdListeners (el_UUID listener) in
        if \<not> list_all (\<lambda>p. list_ex (\<lambda>c. cpol_Id c = epol_UUID p) createdPolicies) currentPolicies then returnM False
        else if el_DefaultPoolId listener = [] then returnM True
        else if list_ex (\<lambda>p. cp_Id p = el_DefaultPoolId listener) newCreatedPools then returnM False
        else andThen (getS lbStatus) (\<lambda>status.
          case find (\<lambda>p. cp_Id p = el_DefaultPoolId listener) (ss_CreatedPools status) of
            None \<Rightarrow> returnM False
          | Some createdPool \<Rightarrow>
              andThen (wrapErr (errorf (''get members of pool '' @ el_DefaultPoolId listener @ '' on LB '' @ lbId))
                         (GetPoolMembers t lbId (el_DefaultPoolId listener))) (\<lambda>currentListMembers.
                returnM (fst (canDeleteWholePool currentListMembers (cp_CreatedMembers createdPool) []))))))"

definition restoreAdoptedListener ::
  "task \<Rightarrow> string \<Rightarrow> entity_Listener \<Rightarrow> string option \<Rightarrow> ListenerAcl option \<Rightarrow> (aclField \<Rightarrow> bool) \<Rightarrow> bool M" where
  "restoreAdoptedListener t lbId listener originalDefaultPoolId originalAcl peerDeclares =
     (let original = deref originalDefaultPoolId;
          restore = planListenerAcl (t_net t) emptyAcl (currentAcl listener) originalAcl None peerDeclares
      in if el_DefaultPoolId listener = original \<and> pl_Changes restore = [] then returnM False
         else
           let opt = (currentListenerRequest lbId (el_Protocol listener = ListenerProtocolHTTPS (t_sdk t)) listener (pl_Desired restore))
                       \<lparr>ulr_DefaultPoolId := original\<rparr>
           in andThen (retryOnLoadBalancerNotReady t lbId (UpdateListener t lbId (el_UUID listener) opt)) (\<lambda>_. returnM True))"

type_synonym peers_memo = "LoadBalancerConfig list result option"

definition declaresOn ::
  "task \<Rightarrow> string \<Rightarrow> peers_memo \<Rightarrow> CreatedListener \<Rightarrow> entity_Listener \<Rightarrow> ((aclField \<Rightarrow> bool) result \<times> peers_memo) M" where
  "declaresOn t lbId memo adopted listener =
     (if ListenerAcl_IsEmpty (cl_OriginalAcl adopted) then returnM (Inr (\<lambda>_. False), memo)
      else
        andThen (case memo of
                   Some listed \<Rightarrow> returnM listed
                 | None \<Rightarrow> attempt (wrapErr (errorf (''list LoadBalancerConfigs sharing load balancer '' @ lbId))
                                     (ListLoadBalancerConfig t))) (\<lambda>listed.
          returnM (case listed of
                     Inl e \<Rightarrow> Inl e
                   | Inr allLBCs \<Rightarrow> Inr (\<lambda>f. collectAclPeers t lbId allLBCs (el_ProtocolPort listener) f \<noteq> None),
                   Some listed)))"

definition deleteWholeListener :: "task \<Rightarrow> string \<Rightarrow> string \<Rightarrow> unit M" where
  "deleteWholeListener t lbId candidateId =
     andThen (wrapErr (errorf (''listener '' @ candidateId @ '': delete''))
                (retryOnLoadBalancerNotReady t lbId (DeleteListener t lbId candidateId))) (\<lambda>_.
     andThen (wrapErr (errorf (''listener '' @ candidateId @ '': wait after delete'')) (WaitForLBActive t lbId))
       (\<lambda>_. returnM ()))"

text \<open>Restoring the listener and waiting for the restore to land.\<close>

definition handBack :: "task \<Rightarrow> string \<Rightarrow> CreatedListener \<Rightarrow> entity_Listener \<Rightarrow> (aclField \<Rightarrow> bool) \<Rightarrow> unit M" where
  "handBack t lbId adopted listener peerDeclares =
     andThen (wrapErr (errorf (''listener '' @ el_UUID listener @ '': restore default pool and ACL''))
                (restoreAdoptedListener t lbId listener (cl_OriginalDefaultPoolId adopted) (cl_OriginalAcl adopted) peerDeclares))
       (\<lambda>restored.
         if restored
         then andThen (wrapErr (errorf (''listener '' @ el_UUID listener @ '': wait after restoring default pool''))
                         (WaitForLBActive t lbId)) (\<lambda>_. returnM ())
         else returnM ())"

text \<open>An adopted listener that is not wanted any more.\<close>

definition returnAdopted ::
  "task \<Rightarrow> string \<Rightarrow> peers_memo \<Rightarrow> CreatedListener \<Rightarrow> entity_Listener \<Rightarrow> (unit result \<times> peers_memo) M" where
  "returnAdopted t lbId memo adopted listener =
     andThen (declaresOn t lbId memo adopted listener) (\<lambda>x. case x of (d, memo') \<Rightarrow>
       (case d of
          Inl e \<Rightarrow> returnM (Inl (errorf (''listener '' @ el_UUID listener @ '': restore ACL'') e), memo')
        | Inr peerDeclares \<Rightarrow>
            andThen (attempt (handBack t lbId adopted listener peerDeclares)) (\<lambda>r. returnM (r, memo'))))"

text \<open>
  The body of the loop over the candidates: how the candidate ended (\<open>Inl\<close> what is appended to
  \<open>failures\<close>) and the memo.
\<close>

definition cleanupListener ::
  "task \<Rightarrow> string \<Rightarrow> CreatedListener list \<Rightarrow> CreatedListener list \<Rightarrow> CreatedPool list \<Rightarrow> entity_Listener list
   \<Rightarrow> peers_memo \<Rightarrow> string \<Rightarrow> (unit result \<times> peers_memo) M" where
  "cleanupListener t lbId createdListeners newCreatedListeners newCreatedPools currentListeners memo candidateId =
     (case find (\<lambda>l. el_UUID l = candidateId) currentListeners of
        None \<Rightarrow> returnM (Inr (), memo)
      | Some listener \<Rightarrow>
          andThen (attempt (wrapErr (errorf (''listener '' @ candidateId))
                     (canDeleteWholeListener t lbId createdListeners newCreatedPools listener))) (\<lambda>r.
          case r of
            Inl e \<Rightarrow> returnM (Inl e, memo)
          | Inr canDeleteWhole \<Rightarrow>
              let adopted = find (\<lambda>l. cl_Id l = candidateId \<and> cl_Adopted l) createdListeners;
                  inUse = list_ex (\<lambda>l. cl_Id l = candidateId) newCreatedListeners
              in if \<not> inUse \<and> canDeleteWhole \<and> adopted = None
                 then andThen (attempt (deleteWholeListener t lbId candidateId)) (\<lambda>r. returnM (r, memo))
                 else
                   andThen (attempt (wrapErr (errorf (''listener '' @ candidateId @ '': policies''))
                              (deployDeleteRedundantPoliciesFrom t lbId createdListeners candidateId
                                 (recordedPolicies newCreatedListeners candidateId)))) (\<lambda>r.
                   case r of
                     Inl e \<Rightarrow> returnM (Inl e, memo)
                   | Inr _ \<Rightarrow>
                       (case adopted of
                          None \<Rightarrow> returnM (Inr (), memo)
                        | Some rec \<Rightarrow>
                            if inUse then returnM (Inr (), memo)
                            else returnAdopted t lbId memo rec listener))))"

primrec cleanupListeners ::
  "task \<Rightarrow> string \<Rightarrow> CreatedListener list \<Rightarrow> CreatedListener list \<Rightarrow> CreatedPool list \<Rightarrow> entity_Listener list
   \<Rightarrow> string list \<Rightarrow> peers_memo \<Rightarrow> go_error list M" where
  "cleanupListeners t lbId createdListeners newCreatedListeners newCreatedPools currentListeners [] memo = returnM []"
| "cleanupListeners t lbId createdListeners newCreatedListeners newCreatedPools currentListeners (c # cs) memo =
     andThen (cleanupListener t lbId createdListeners newCreatedListeners newCreatedPools currentListeners memo c) (\<lambda>x.
       case x of (r, memo') \<Rightarrow>
         andThen (cleanupListeners t lbId createdListeners newCreatedListeners newCreatedPools currentListeners cs memo') (\<lambda>es.
           returnM (case r of Inl e \<Rightarrow> e # es | Inr _ \<Rightarrow> es)))"

definition deleteRedundantListenersFrom ::
  "task \<Rightarrow> string \<Rightarrow> CreatedListener list \<Rightarrow> CreatedListener list \<Rightarrow> CreatedPool list \<Rightarrow> unit M" where
  "deleteRedundantListenersFrom t lbId createdListeners newCreatedListeners newCreatedPools =
     andThen (ListListenerOfLB t lbId) (\<lambda>currentListeners.
     andThen (cleanupListeners t lbId createdListeners newCreatedListeners newCreatedPools currentListeners
                (map cl_Id createdListeners) None) (\<lambda>failures.
       if failures \<noteq> [] then failM (errorf2 errPartialDelete (errors_Join failures)) else returnM ()))"

definition deleteRedundantListeners :: "task \<Rightarrow> string \<Rightarrow> CreatedListener list \<Rightarrow> CreatedPool list \<Rightarrow> unit M" where
  "deleteRedundantListeners t lbId newCreatedListeners newCreatedPools =
     andThen (getS lbStatus) (\<lambda>status.
       deleteRedundantListenersFrom t lbId (ss_CreatedListeners status) newCreatedListeners newCreatedPools)"

section \<open>What cleaning up calls\<close>

text \<open>
  A listener may go: it is on the record and no record of it is adopted, it is not wanted any more,
  and by what this run read it exists and, unless the load balancer is layer 4, holds only recorded
  policies and points at no default pool or at a recorded one that is not wanted any more and whose
  members are all recorded.
\<close>

definition listenerDeletable ::
  "task \<Rightarrow> string \<Rightarrow> LoadBalancerConfigStatus \<Rightarrow> CreatedListener list \<Rightarrow> CreatedListener list \<Rightarrow> CreatedPool list
   \<Rightarrow> event list \<Rightarrow> string \<Rightarrow> bool" where
  "listenerDeletable t lbId status created newListeners newPools es i \<longleftrightarrow>
     i \<in> cl_Id ` set created \<and> (\<forall>l \<in> set created. cl_Id l = i \<longrightarrow> \<not> cl_Adopted l)
     \<and> i \<notin> cl_Id ` set newListeners
     \<and> (\<exists>ls. EvListListenerOfLB lbId (Inr ls) \<in> set es \<and> (\<exists>lis \<in> set ls. el_UUID lis = i
          \<and> (sp_Type (t_Spec t) \<noteq> LoadBalancerTypeLayer4 (t_sdk t) \<longrightarrow>
               (\<exists>pols. EvListPolicyOfListener lbId i (Inr pols) \<in> set es
                  \<and> epol_UUID ` set pols \<subseteq> cpol_Id ` set (recordedPolicies created i))
               \<and> (el_DefaultPoolId lis \<noteq> [] \<longrightarrow>
                    el_DefaultPoolId lis \<notin> cp_Id ` set newPools
                    \<and> (\<exists>cp \<in> set (ss_CreatedPools status). cp_Id cp = el_DefaultPoolId lis
                         \<and> (\<exists>ms. EvGetPoolMembers lbId (cp_Id cp) (Inr ms) \<in> set es
                              \<and> (\<forall>m \<in> set ms. memberKey (convertMember m) \<in> memberKey ` set (cp_CreatedMembers cp))))))))"

text \<open>
  An update of a listener hands back an adopted one that is not wanted any more: as this run read it,
  but for the recorded default pool, and for ACL fields put back to their recorded originals where no
  other LBC on the load balancer declares them.
\<close>

definition listenerRestored ::
  "task \<Rightarrow> string \<Rightarrow> CreatedListener list \<Rightarrow> CreatedListener list \<Rightarrow> event list \<Rightarrow> string \<Rightarrow> UpdateListenerRequest \<Rightarrow> bool" where
  "listenerRestored t lbId created newListeners es i req \<longleftrightarrow>
     i \<notin> cl_Id ` set newListeners
     \<and> (\<exists>rec \<in> set created. cl_Id rec = i \<and> cl_Adopted rec
          \<and> (\<exists>ls. EvListListenerOfLB lbId (Inr ls) \<in> set es \<and> (\<exists>lis \<in> set ls. el_UUID lis = i \<and>
               (\<exists>d. req = (currentListenerRequest lbId (el_Protocol lis = ListenerProtocolHTTPS (t_sdk t)) lis d)
                            \<lparr>ulr_DefaultPoolId := deref (cl_OriginalDefaultPoolId rec)\<rparr>
                  \<and> (\<forall>f v. acl_get f (Some d) = Some v \<longrightarrow>
                       acl_get f (cl_OriginalAcl rec) = Some v
                       \<and> (\<exists>allLBCs. EvListLBC (Inr allLBCs) \<in> set es
                            \<and> collectAclPeers t lbId allLBCs (el_ProtocolPort lis) f = None))))))"

definition listenerCleanup ::
  "task \<Rightarrow> string \<Rightarrow> LoadBalancerConfigStatus \<Rightarrow> CreatedListener list \<Rightarrow> CreatedListener list \<Rightarrow> CreatedPool list
   \<Rightarrow> history \<Rightarrow> history \<Rightarrow> event \<Rightarrow> bool" where
  "listenerCleanup t lbId status created newListeners newPools h0 h e =
     (case e of
        EvDeleteListener l i r \<Rightarrow> l = lbId
          \<and> (\<exists>es. h = h0 @ es \<and> listenerDeletable t lbId status created newListeners newPools es i)
      | EvUpdateListener l i req r \<Rightarrow> l = lbId \<and> (\<exists>es. h = h0 @ es \<and> listenerRestored t lbId created newListeners es i req)
      | EvDeletePolicy l i p r \<Rightarrow> l = lbId \<and> i \<in> cl_Id ` set created
          \<and> p \<in> cpol_Id ` set (recordedPolicies created i) \<and> p \<notin> cpol_Id ` set (recordedPolicies newListeners i)
      | EvPatchMeta _ _ _ \<Rightarrow> False
      | _ \<Rightarrow> \<not> isCloudWrite e)"

lemma listenerCleanup_reads [simp]:
  "listenerCleanup t lbId st c nl np h0 h (EvWaitForLBActive l w)"
  "listenerCleanup t lbId st c nl np h0 h (EvListListenerOfLB l ls)"
  "listenerCleanup t lbId st c nl np h0 h (EvListPolicyOfListener l i pols)"
  "listenerCleanup t lbId st c nl np h0 h (EvGetPoolMembers l p ms)"
  "listenerCleanup t lbId st c nl np h0 h (EvListLBC lbcs)"
  by (simp_all add: listenerCleanup_def isCloudWrite_def)

lemma safe_listenerCleanup_reads:
  "safe (emitsR (listenerCleanup t lbId st c nl np h0)) (WaitForLBActive t l) s"
  "safe (emitsR (listenerCleanup t lbId st c nl np h0)) (ListListenerOfLB t l) s"
  "safe (emitsR (listenerCleanup t lbId st c nl np h0)) (ListPolicyOfListener t l i) s"
  "safe (emitsR (listenerCleanup t lbId st c nl np h0)) (GetPoolMembers t l p) s"
  "safe (emitsR (listenerCleanup t lbId st c nl np h0)) (ListLoadBalancerConfig t) s"
  unfolding WaitForLBActive_def ListListenerOfLB_def ListPolicyOfListener_def GetPoolMembers_def ListLoadBalancerConfig_def
  by (intro safe_intro listenerCleanup_reads)+

text \<open>What a positive answer of \<open>canDeleteWholeListener\<close> rests on.\<close>

lemma canDeleteWholeListener_True:
  assumes "canDeleteWholeListener t lbId created newPools lis s = (Inr True, s')"
    and "sp_Type (t_Spec t) \<noteq> LoadBalancerTypeLayer4 (t_sdk t)"
  shows "\<exists>es. hist s' = hist s @ es
    \<and> (\<exists>pols. EvListPolicyOfListener lbId (el_UUID lis) (Inr pols) \<in> set es
         \<and> epol_UUID ` set pols \<subseteq> cpol_Id ` set (recordedPolicies created (el_UUID lis)))
    \<and> (el_DefaultPoolId lis \<noteq> [] \<longrightarrow>
         el_DefaultPoolId lis \<notin> cp_Id ` set newPools
         \<and> (\<exists>cp \<in> set (ss_CreatedPools (lbStatus s)). cp_Id cp = el_DefaultPoolId lis
              \<and> (\<exists>ms. EvGetPoolMembers lbId (cp_Id cp) (Inr ms) \<in> set es
                   \<and> (\<forall>m \<in> set ms. memberKey (convertMember m) \<in> memberKey ` set (cp_CreatedMembers cp)))))"
proof -
  from assms obtain pols s1 where
    1: "ListPolicyOfListener t lbId (el_UUID lis) s = (Inr pols, s1)"
    and ours: "list_all (\<lambda>p. list_ex (\<lambda>c. cpol_Id c = epol_UUID p) (recordedPolicies created (el_UUID lis))) pols"
    and rest: "el_DefaultPoolId lis = [] \<and> s' = s1 \<or>
      el_DefaultPoolId lis \<noteq> [] \<and> \<not> list_ex (\<lambda>p. cp_Id p = el_DefaultPoolId lis) newPools \<and>
      (\<exists>cp ms. find (\<lambda>p. cp_Id p = el_DefaultPoolId lis) (ss_CreatedPools (lbStatus s1)) = Some cp
         \<and> GetPoolMembers t lbId (el_DefaultPoolId lis) s1 = (Inr ms, s')
         \<and> fst (canDeleteWholePool ms (cp_CreatedMembers cp) []))"
    by (auto simp: canDeleteWholeListener_def Let_def andThen_Inr_iff split: if_splits option.splits)
  from 1 have h1: "hist s1 = hist s @ [EvListPolicyOfListener lbId (el_UUID lis) (Inr pols)]" "lbStatus s1 = lbStatus s"
    unfolding ListPolicyOfListener_def by (auto dest!: call_result simp del: call_eq)
  have sub: "epol_UUID ` set pols \<subseteq> cpol_Id ` set (recordedPolicies created (el_UUID lis))"
    using ours by (force simp: list_all_iff list_ex_iff)
  from rest show ?thesis
  proof (elim disjE conjE exE)
    assume "el_DefaultPoolId lis = []" "s' = s1"
    with h1 sub show ?thesis by auto
  next
    fix cp ms assume "el_DefaultPoolId lis \<noteq> []" "\<not> list_ex (\<lambda>p. cp_Id p = el_DefaultPoolId lis) newPools"
      and find: "find (\<lambda>p. cp_Id p = el_DefaultPoolId lis) (ss_CreatedPools (lbStatus s1)) = Some cp"
      and get: "GetPoolMembers t lbId (el_DefaultPoolId lis) s1 = (Inr ms, s')"
      and whole: "fst (canDeleteWholePool ms (cp_CreatedMembers cp) [])"
    moreover from get have "hist s' = hist s1 @ [EvGetPoolMembers lbId (el_DefaultPoolId lis) (Inr ms)]"
      unfolding GetPoolMembers_def by (auto dest!: call_result simp del: call_eq)
    ultimately show ?thesis
      using h1 sub find_key_SomeD[OF find]
      by (intro exI[of _ "[EvListPolicyOfListener lbId (el_UUID lis) (Inr pols),
                          EvGetPoolMembers lbId (el_DefaultPoolId lis) (Inr ms)]"])
        (auto simp: list_ex_iff canDeleteWholePool_iff intro!: bexI[of _ cp])
  qed
qed

lemma safe_canDeleteWholeListener:
  "safe (emitsR (listenerCleanup t lbId st c nl np h0)) (canDeleteWholeListener t lbId created newPools lis) s"
  unfolding canDeleteWholeListener_def by (intro emits_struct safe_listenerCleanup_reads)

lemma safe_keeps_canDeleteWholeListener:
  "safe (keepsR lbStatus) (canDeleteWholeListener t lbId created newPools lis) s"
  unfolding canDeleteWholeListener_def ListPolicyOfListener_def GetPoolMembers_def by (intro safe_intro)

lemma safe_deleteWholeListener:
  assumes "hist s = h0 @ es" and "listenerDeletable t lbId status created nl np es i"
  shows "safe (emitsR (listenerCleanup t lbId status created nl np h0)) (deleteWholeListener t lbId i) s"
proof -
  let ?P = "listenerCleanup t lbId status created nl np h0"
  have "listenerDeletable t lbId status created nl np (es @ es') i" for es'
    using assms(2) unfolding listenerDeletable_def set_append by blast
  then have "safe (emitsR ?P) (DeleteListener t lbId i) s'" if "emitsR ?P s s'" for s'
    using emitsR_hist[OF that] assms(1) unfolding DeleteListener_def
    by (intro safe_intro) (auto simp: listenerCleanup_def)
  then show ?thesis
    unfolding deleteWholeListener_def by (intro emits_struct safe_emits_retry safe_listenerCleanup_reads) auto
qed

lemma safe_handBack:
  assumes h: "hist s = h0 @ es" and rec: "rec \<in> set created" "cl_Adopted rec" "cl_Id rec = el_UUID lis"
    and lis: "EvListListenerOfLB lbId (Inr ls) \<in> set es" "lis \<in> set ls" and new: "el_UUID lis \<notin> cl_Id ` set nl"
    and pd: "ListenerAcl_IsEmpty (cl_OriginalAcl rec) \<or>
      (\<exists>allLBCs. EvListLBC (Inr allLBCs) \<in> set es
         \<and> pd = (\<lambda>f. collectAclPeers t lbId allLBCs (el_ProtocolPort lis) f \<noteq> None))"
  shows "safe (emitsR (listenerCleanup t lbId status created nl np h0)) (handBack t lbId rec lis pd) s"
proof -
  let ?P = "listenerCleanup t lbId status created nl np h0"
  let ?d = "pl_Desired (planListenerAcl (t_net t) emptyAcl (currentAcl lis) (cl_OriginalAcl rec) None pd)"
  let ?req = "(currentListenerRequest lbId (el_Protocol lis = ListenerProtocolHTTPS (t_sdk t)) lis ?d)
    \<lparr>ulr_DefaultPoolId := deref (cl_OriginalDefaultPoolId rec)\<rparr>"
  have d: "acl_get f (cl_OriginalAcl rec) = Some v \<and> (\<exists>allLBCs. EvListLBC (Inr allLBCs) \<in> set es
      \<and> collectAclPeers t lbId allLBCs (el_ProtocolPort lis) f = None)" if "acl_get f (Some ?d) = Some v" for f v
  proof -
    from that have orig: "acl_get f (cl_OriginalAcl rec) = Some v" "\<not> pd f"
      by (auto simp: fieldDesired_def Let_def split: option.splits if_splits)
    then have "\<not> ListenerAcl_IsEmpty (cl_OriginalAcl rec)" by (auto simp: ListenerAcl_IsEmpty_iff)
    with pd orig show ?thesis by auto
  qed
  have "listenerRestored t lbId created nl (es @ es') (el_UUID lis) ?req" for es'
    unfolding listenerRestored_def
  proof (intro conjI bexI[of _ rec] exI[of _ ls] bexI[of _ lis] exI[of _ ?d] allI impI)
    fix f v assume "acl_get f (Some ?d) = Some v"
    from d[OF this] show "acl_get f (cl_OriginalAcl rec) = Some v"
      "\<exists>allLBCs. EvListLBC (Inr allLBCs) \<in> set (es @ es') \<and> collectAclPeers t lbId allLBCs (el_ProtocolPort lis) f = None"
      unfolding set_append by blast+
  qed (use rec lis new in auto)
  then have "safe (emitsR ?P) (UpdateListener t lbId (el_UUID lis) ?req) s'" if "emitsR ?P s s'" for s'
    using emitsR_hist[OF that] h unfolding UpdateListener_def
    by (intro safe_intro) (auto simp: listenerCleanup_def)
  then show ?thesis
    unfolding handBack_def restoreAdoptedListener_def Let_def
    by (intro emits_struct safe_emits_retry safe_listenerCleanup_reads) auto
qed

text \<open>The memo holds a list this run has read, and the answer rests on it.\<close>

definition memoOk :: "peers_memo \<Rightarrow> event list \<Rightarrow> bool" where
  "memoOk memo es \<longleftrightarrow> (\<forall>allLBCs. memo = Some (Inr allLBCs) \<longrightarrow> EvListLBC (Inr allLBCs) \<in> set es)"

lemma memoOk_None [simp]: "memoOk None es"
  by (simp add: memoOk_def)

lemma memoOk_append: "memoOk memo es \<Longrightarrow> memoOk memo (es @ es')"
  by (auto simp: memoOk_def)

lemma declaresOn_result:
  assumes "declaresOn t lbId memo rec lis s = (Inr (d, memo'), s')" and "hist s = h0 @ es" and "memoOk memo es"
  shows "\<exists>es'. hist s' = h0 @ es @ es' \<and> memoOk memo' (es @ es')
    \<and> (\<forall>pd. d = Inr pd \<longrightarrow> ListenerAcl_IsEmpty (cl_OriginalAcl rec) \<or>
         (\<exists>allLBCs. EvListLBC (Inr allLBCs) \<in> set (es @ es')
            \<and> pd = (\<lambda>f. collectAclPeers t lbId allLBCs (el_ProtocolPort lis) f \<noteq> None)))"
proof (cases "ListenerAcl_IsEmpty (cl_OriginalAcl rec) \<or> memo \<noteq> None")
  case True
  then have "s' = s" "memo' = memo" "\<not> ListenerAcl_IsEmpty (cl_OriginalAcl rec) \<Longrightarrow>
      \<forall>pd. d = Inr pd \<longrightarrow> (\<exists>allLBCs. memo = Some (Inr allLBCs)
         \<and> pd = (\<lambda>f. collectAclPeers t lbId allLBCs (el_ProtocolPort lis) f \<noteq> None))"
    using assms(1) by (auto simp: declaresOn_def andThen_Inr_iff split: if_splits option.splits sum.splits)
  with assms(2,3) show ?thesis
    by (intro exI[of _ "[]"]) (auto simp: memoOk_def)
next
  case False
  then obtain r where "memo' = Some r" "hist s' = hist s @ [EvListLBC (api)]"
      "\<forall>x. r = Inr x \<longrightarrow> api = Inr x"
      "d = (case r of Inl e \<Rightarrow> Inl e
        | Inr allLBCs \<Rightarrow> Inr (\<lambda>f. collectAclPeers t lbId allLBCs (el_ProtocolPort lis) f \<noteq> None))"
    if "api = k8s_ListLoadBalancerConfig (t_k8s t) (hist s)" for api
    using assms(1)
    by (auto simp: declaresOn_def andThen_Inr_iff ListLoadBalancerConfig_def wrapErr_def split: sum.splits)
  with assms(2) show ?thesis
    by (intro exI[of _ "[EvListLBC (k8s_ListLoadBalancerConfig (t_k8s t) (hist s))]"])
      (auto simp: memoOk_def split: sum.splits)
qed

lemma safe_declaresOn: "safe (emitsR (listenerCleanup t lbId st c nl np h0)) (declaresOn t l memo rec lis) s"
  unfolding declaresOn_def by (intro emits_struct safe_listenerCleanup_reads)

lemma safe_cleanup_policies:
  assumes "i \<in> cl_Id ` set created"
  shows "safe (emitsR (listenerCleanup t lbId status created nl np h0))
    (deployDeleteRedundantPoliciesFrom t lbId created i (recordedPolicies nl i)) s"
  by (rule safe_emits_mono[OF safe_deployDeleteRedundantPoliciesFrom])
    (use assms in \<open>auto simp: policyCleanup_def listenerCleanup_def isCloudWrite_def split: event.splits\<close>)

lemma safe_cleanupListener:
  assumes h: "hist s = h0 @ es" and st: "lbStatus s = status" and memo: "memoOk memo es"
    and ls: "EvListListenerOfLB lbId (Inr ls) \<in> set es" and c: "c \<in> cl_Id ` set created"
  shows "safe (emitsR (listenerCleanup t lbId status created nl np h0)) (cleanupListener t lbId created nl np ls memo c) s"
proof -
  let ?P = "listenerCleanup t lbId status created nl np h0"
  have del: "safe (emitsR ?P) (deleteWholeListener t lbId c) s1"
    if f: "find (\<lambda>l. el_UUID l = c) ls = Some lis"
      and can: "canDeleteWholeListener t lbId created np lis s = (Inr True, s1)"
      and new: "\<not> list_ex (\<lambda>l. cl_Id l = c) nl" and own: "find (\<lambda>l. cl_Id l = c \<and> cl_Adopted l) created = None" for lis s1
  proof -
    have lis: "lis \<in> set ls" "el_UUID lis = c" using find_key_SomeD[OF f] by auto
    have own': "\<forall>l \<in> set created. cl_Id l = c \<longrightarrow> \<not> cl_Adopted l" "c \<notin> cl_Id ` set nl"
      using own new by (auto simp: find_None_iff list_ex_iff)
    obtain es' where h1: "hist s1 = h0 @ es @ es'"
      using emitsR_hist[OF emits.safeD[OF safe_canDeleteWholeListener can]] h by auto
    have "listenerDeletable t lbId status created nl np (es @ es') c"
    proof (cases "sp_Type (t_Spec t) = LoadBalancerTypeLayer4 (t_sdk t)")
      case True
      with own' c ls lis show ?thesis unfolding listenerDeletable_def set_append by blast
    next
      case False
      from canDeleteWholeListener_True[OF can False, unfolded lis st] h1 h obtain pols where
        "EvListPolicyOfListener lbId c (Inr pols) \<in> set es'"
        "epol_UUID ` set pols \<subseteq> cpol_Id ` set (recordedPolicies created c)"
        "el_DefaultPoolId lis \<noteq> [] \<longrightarrow> el_DefaultPoolId lis \<notin> cp_Id ` set np
         \<and> (\<exists>cp \<in> set (ss_CreatedPools status). cp_Id cp = el_DefaultPoolId lis
              \<and> (\<exists>ms. EvGetPoolMembers lbId (cp_Id cp) (Inr ms) \<in> set es'
                   \<and> (\<forall>m \<in> set ms. memberKey (convertMember m) \<in> memberKey ` set (cp_CreatedMembers cp))))" by auto
      with own' c ls lis show ?thesis unfolding listenerDeletable_def set_append by blast
    qed
    from safe_deleteWholeListener[OF h1 this] show ?thesis .
  qed
  have hand: "safe (emitsR ?P) (handBack t lbId rec lis pd) s3"
    if f: "find (\<lambda>l. el_UUID l = c) ls = Some lis" and rec: "find (\<lambda>l. cl_Id l = c \<and> cl_Adopted l) created = Some rec"
      and new: "\<not> list_ex (\<lambda>l. cl_Id l = c) nl" and d: "declaresOn t lbId memo rec lis s2 = (Inr (Inr pd, m), s3)"
      and s2: "hist s2 = h0 @ es @ es'" for lis rec pd m s2 s3 es'
  proof -
    from declaresOn_result[OF d s2 memoOk_append[OF memo]] obtain es'' where
      "hist s3 = h0 @ es @ es' @ es''" "ListenerAcl_IsEmpty (cl_OriginalAcl rec) \<or>
        (\<exists>allLBCs. EvListLBC (Inr allLBCs) \<in> set (es @ es' @ es'')
           \<and> pd = (\<lambda>f. collectAclPeers t lbId allLBCs (el_ProtocolPort lis) f \<noteq> None))" by auto
    then show ?thesis
      using rec find_key_SomeD[OF f] new ls
      by (intro safe_handBack[where es = "es @ es' @ es''" and ls = ls]) (auto simp: find_Some_iff list_ex_iff)
  qed
  have ext: "\<exists>es'. hist s' = h0 @ es @ es'" if "emitsR ?P s s1" "emitsR ?P s1 s2" "s' = s2" for s1 s2 s'
    using emitsR_hist[OF emitsR_trans[OF that(1,2)]] that(3) h by auto
  show ?thesis
    unfolding cleanupListener_def returnAdopted_def Let_def
    by (intro emits_struct safe_canDeleteWholeListener safe_cleanup_policies[OF c] safe_declaresOn)
      (auto intro: del dest!: ext intro: hand)
qed

lemma safe_keeps_cleanupListener: "safe (keepsR lbStatus) (cleanupListener t lbId created nl np ls memo c) s"
  unfolding cleanupListener_def returnAdopted_def deleteWholeListener_def handBack_def restoreAdoptedListener_def declaresOn_def
    deployDeleteRedundantPoliciesFrom_def canDeleteWholeListener_def Let_def ListPolicyOfListener_def GetPoolMembers_def
    DeletePolicy_def WaitForLBActive_def DeleteListener_def UpdateListener_def ListLoadBalancerConfig_def
  by (intro safe_intro)

lemma cleanup_calls_extend:
  "\<exists>es. hist (snd (canDeleteWholeListener t lbId created np lis s)) = hist s @ es"
  "\<exists>es. hist (snd (deployDeleteRedundantPoliciesFrom t lbId created c ps s)) = hist s @ es"
  "\<exists>es. hist (snd (handBack t lbId rec lis pd s)) = hist s @ es"
  "\<exists>es. hist (snd (deleteWholeListener t lbId c s)) = hist s @ es"
proof -
  have any: "safe (emitsR (\<lambda>_ _. True)) (canDeleteWholeListener t lbId created np lis) s"
    "safe (emitsR (\<lambda>_ _. True)) (deployDeleteRedundantPoliciesFrom t lbId created c ps) s"
    "safe (emitsR (\<lambda>_ _. True)) (handBack t lbId rec lis pd) s" "safe (emitsR (\<lambda>_ _. True)) (deleteWholeListener t lbId c) s"
    unfolding handBack_def restoreAdoptedListener_def deleteWholeListener_def Let_def UpdateListener_def canDeleteWholeListener_def
      deployDeleteRedundantPoliciesFrom_def ListPolicyOfListener_def GetPoolMembers_def DeletePolicy_def
      DeleteListener_def WaitForLBActive_def
    by (intro safe_intro; simp)+
  show "\<exists>es. hist (snd (canDeleteWholeListener t lbId created np lis s)) = hist s @ es"
    "\<exists>es. hist (snd (deployDeleteRedundantPoliciesFrom t lbId created c ps s)) = hist s @ es"
    "\<exists>es. hist (snd (handBack t lbId rec lis pd s)) = hist s @ es"
    "\<exists>es. hist (snd (deleteWholeListener t lbId c s)) = hist s @ es"
    using any unfolding safe_def by (auto dest: emitsR_hist)
qed

lemma returnAdopted_memo:
  assumes run: "returnAdopted t lbId memo rec lis s = (Inr (r, memo'), s')"
    and h: "hist s = h0 @ es" and memo: "memoOk memo es"
  shows "\<exists>es'. hist s' = h0 @ es @ es' \<and> memoOk memo' (es @ es')"
proof -
  from run obtain d m s1 where d0: "declaresOn t lbId memo rec lis s = (Inr (d, m), s1)"
    by (auto simp: returnAdopted_def andThen_Inr_iff)
  with run have d: "declaresOn t lbId memo rec lis s = (Inr (d, memo'), s1)"
    and s': "s' = s1 \<or> (\<exists>pd. s' = snd (handBack t lbId rec lis pd s1))"
    by (cases d; auto simp: returnAdopted_def andThen_def attempt_eq)+
  from declaresOn_result[OF d h memo] obtain es' where 1: "hist s1 = h0 @ es @ es'" "memoOk memo' (es @ es')" by auto
  with s' cleanup_calls_extend(3)[of t lbId rec lis _ s1] obtain es'' where "hist s' = hist s1 @ es''" by (metis append_Nil2)
  with 1 show ?thesis by (auto dest: memoOk_append)
qed

lemma cleanupListener_memo:
  assumes run: "cleanupListener t lbId created nl np ls memo c s = (Inr (r, memo'), s')"
    and h: "hist s = h0 @ es" and memo: "memoOk memo es"
  shows "\<exists>es'. hist s' = h0 @ es @ es' \<and> memoOk memo' (es @ es')"
proof (cases "find (\<lambda>l. el_UUID l = c) ls")
  case None
  with run h memo show ?thesis by (auto simp: cleanupListener_def)
next
  case (Some lis)
  have grow: "\<exists>es'. hist s2 = h0 @ es @ es' \<and> memoOk memo (es @ es')" if "\<exists>e. hist s2 = hist s @ e" for s2
    using that h memo by (auto intro: memoOk_append)
  obtain r1 s1 where 1: "canDeleteWholeListener t lbId created np lis s = (r1, s1)" by (cases "canDeleteWholeListener t lbId created np lis s")
  obtain e1 where s1: "hist s1 = hist s @ e1" using cleanup_calls_extend(1)[of t lbId created np lis s] 1 by auto
  obtain r2 s2 where 2: "deployDeleteRedundantPoliciesFrom t lbId created c (recordedPolicies nl c) s1 = (r2, s2)"
    by (cases "deployDeleteRedundantPoliciesFrom t lbId created c (recordedPolicies nl c) s1")
  obtain e2 where s2: "hist s2 = hist s1 @ e2"
    using cleanup_calls_extend(2)[of t lbId created c "recordedPolicies nl c" s1] 2 by auto
  consider "memo' = memo" "s' \<in> {s1, s2, snd (deleteWholeListener t lbId c s1)}"
    | rec where "returnAdopted t lbId memo rec lis s2 = (Inr (r, memo'), s')"
    using run Some 1 2
    by (auto simp: cleanupListener_def Let_def andThen_def attempt_def wrapErr_def split: sum.splits if_splits option.splits prod.splits)
  then show ?thesis
  proof cases
    case 1
    with grow[of s'] s1 s2 cleanup_calls_extend(4)[of t lbId c s1] show ?thesis by auto
  next
    case 2
    from grow[of s2] s1 s2 obtain es' where "hist s2 = h0 @ es @ es'" "memoOk memo (es @ es')" by auto
    from returnAdopted_memo[OF 2 this] show ?thesis by auto
  qed
qed

lemma safe_cleanupListeners:
  assumes "hist s = h0 @ es" and "lbStatus s = status" and "memoOk memo es"
    and "EvListListenerOfLB lbId (Inr ls) \<in> set es" and "set cs \<subseteq> cl_Id ` set created"
  shows "safe (steadyR (listenerCleanup t lbId status created nl np h0)) (cleanupListeners t lbId created nl np ls cs memo) s"
  using assms
proof (induction cs arbitrary: s es memo)
  case Nil
  show ?case unfolding cleanupListeners.simps by (rule steady.safe_returnM)
next
  case (Cons c cs)
  let ?P = "listenerCleanup t lbId status created nl np h0"
  have head: "safe (steadyR ?P) (cleanupListener t lbId created nl np ls memo c) s"
    using Cons.prems by (intro safe_steadyI safe_cleanupListener[of s h0 es] safe_keeps_cleanupListener) auto
  have tail: "safe (steadyR ?P) (cleanupListeners t lbId created nl np ls cs memo') s'"
    if run: "cleanupListener t lbId created nl np ls memo c s = (Inr (r, memo'), s')" and s': "steadyR ?P s s'" for r memo' s'
  proof -
    from cleanupListener_memo[OF run Cons.prems(1,3)] obtain es' where
      "hist s' = h0 @ es @ es'" "memoOk memo' (es @ es')" by blast
    moreover have "lbStatus s' = status" using s' Cons.prems(2) by (simp add: steadyR_def)
    ultimately show ?thesis using Cons.prems(4,5) by (intro Cons.IH[of _ "es @ es'"]) auto
  qed
  show ?case
    by (auto intro!: steady.safe_andThen steady.safe_case_prod steady.safe_returnM head tail)
qed

lemma safe_deleteRedundantListenersFrom:
  "safe (emitsR (listenerCleanup t lbId (lbStatus s) created newListeners newPools (hist s)))
     (deleteRedundantListenersFrom t lbId created newListeners newPools) s"
proof -
  let ?P = "listenerCleanup t lbId (lbStatus s) created newListeners newPools (hist s)"
  have "safe (emitsR ?P) (cleanupListeners t lbId created newListeners newPools ls (map cl_Id created) None) s1"
    if "ListListenerOfLB t lbId s = (Inr ls, s1)" for ls s1
  proof -
    from that have "hist s1 = hist s @ [EvListListenerOfLB lbId (Inr ls)]" "lbStatus s1 = lbStatus s"
      unfolding ListListenerOfLB_def by (auto dest!: call_result simp del: call_eq)
    then show ?thesis
      by (intro safe_steadyD safe_cleanupListeners[where es = "[EvListListenerOfLB lbId (Inr ls)]"]) auto
  qed
  then show ?thesis
    unfolding deleteRedundantListenersFrom_def
    by (intro emits_struct safe_listenerCleanup_reads) auto
qed


section \<open>Handing back\<close>

text \<open>What a listener shows after an update: a nil field of the request keeps its value.\<close>

definition appliedListener :: "UpdateListenerRequest \<Rightarrow> entity_Listener \<Rightarrow> entity_Listener" where
  "appliedListener r lis =
     lis\<lparr>el_AllowedCidrs := ulr_AllowedCidrs r,
         el_BlockedCidrs := (case ulr_BlockedCidrs r of Some v \<Rightarrow> v | None \<Rightarrow> el_BlockedCidrs lis),
         el_DefaultAction := (case ulr_DefaultAction r of Some v \<Rightarrow> v | None \<Rightarrow> el_DefaultAction lis),
         el_TimeoutClient := ulr_TimeoutClient r, el_TimeoutMember := ulr_TimeoutMember r,
         el_TimeoutConnection := ulr_TimeoutConnection r, el_DefaultPoolId := ulr_DefaultPoolId r,
         el_InsertHeaders := ulr_InsertHeaders r\<rparr>"

lemma applied_acl:
  "deref (acl_get f (Some (currentAcl (appliedListener ((currentListenerRequest lbId https lis d)\<lparr>ulr_DefaultPoolId := p\<rparr>) lis))))
   = (case acl_get f (Some d) of Some v \<Rightarrow> v | None \<Rightarrow> deref (acl_get f (Some (currentAcl lis))))"
  by (cases f) (auto simp: appliedListener_def currentListenerRequest_def currentAcl_def Let_def split: option.splits)

lemma aclValueEqual_deref: "aclValueEqual n6 f a b = aclValueEqual n6 f (Some (deref a)) (Some (deref b))"
  by (simp add: aclValueEqual_def)

lemma restore_field:
  assumes "acl_get f rec = Some orig"
    and "d = pl_Desired (planListenerAcl n6 emptyAcl c rec None pd)" and "\<not> pd f"
  shows "aclValueEqual n6 f (Some (case acl_get f (Some d) of Some v \<Rightarrow> v | None \<Rightarrow> deref (acl_get f (Some c)))) (Some orig)"
  using assms aclValueEqual_deref[of n6 f "acl_get f (Some c)" "Some orig"]
  by (auto simp: fieldDesired_def Let_def split: option.splits if_splits)

text \<open>The listener is back in the state its owner left it in, as far as the record and the peers say.\<close>

definition ownersState :: "task \<Rightarrow> string option \<Rightarrow> ListenerAcl option \<Rightarrow> (aclField \<Rightarrow> bool) \<Rightarrow> entity_Listener \<Rightarrow> bool" where
  "ownersState t originalPool originalAcl peerDeclares lis \<longleftrightarrow>
     el_DefaultPoolId lis = deref originalPool
     \<and> (\<forall>f orig. acl_get f originalAcl = Some orig \<and> \<not> peerDeclares f \<longrightarrow>
          aclValueEqual (t_net t) f (acl_get f (Some (currentAcl lis))) (Some orig))"

text \<open>
  Handing an adopted listener back restores it exactly. If \<open>restoreAdoptedListener\<close> reports that it
  wrote nothing, it made no call and the listener already was in its owner's state: its recorded
  default pool, and every recorded ACL field no peer declares at its recorded original. If it reports a
  write, it made one successful update after which the listener is in that state, and everything else -
  ACL fields without a record or declared by a peer, timeouts and headers - is as it was.
\<close>

theorem restoreAdoptedListener_restores:
  assumes "restoreAdoptedListener t lbId lis originalPool originalAcl peerDeclares s = (Inr wrote, s')"
  shows "if \<not> wrote then s' = s \<and> ownersState t originalPool originalAcl peerDeclares lis
    else \<exists>es req. hist s' = hist s @ es \<and> EvUpdateListener lbId (el_UUID lis) req (Inr ()) \<in> set es
      \<and> ownersState t originalPool originalAcl peerDeclares (appliedListener req lis)
      \<and> (\<forall>f. acl_get f originalAcl = None \<or> peerDeclares f \<longrightarrow>
           deref (acl_get f (Some (currentAcl (appliedListener req lis)))) = deref (acl_get f (Some (currentAcl lis))))
      \<and> el_TimeoutClient (appliedListener req lis) = el_TimeoutClient lis
      \<and> el_TimeoutMember (appliedListener req lis) = el_TimeoutMember lis
      \<and> el_TimeoutConnection (appliedListener req lis) = el_TimeoutConnection lis
      \<and> el_InsertHeaders (appliedListener req lis) = el_InsertHeaders lis"
proof -
  define plan where "plan = planListenerAcl (t_net t) emptyAcl (currentAcl lis) originalAcl None peerDeclares"
  define req where "req = (currentListenerRequest lbId (el_Protocol lis = ListenerProtocolHTTPS (t_sdk t)) lis (pl_Desired plan))
    \<lparr>ulr_DefaultPoolId := deref originalPool\<rparr>"
  note field = restore_field[where d = "pl_Desired plan", OF _ plan_def[THEN arg_cong]]
  have kept: "acl_get f (Some (pl_Desired plan)) = None" if "acl_get f originalAcl = None \<or> peerDeclares f" for f
    using that unfolding plan_def by (auto simp: fieldDesired_def Let_def split: option.splits)
  have "ownersState t originalPool originalAcl peerDeclares (appliedListener req lis)"
    unfolding ownersState_def aclValueEqual_deref[of _ _ "acl_get _ _"] req_def applied_acl
    by (auto simp: appliedListener_def intro!: field)
  moreover have "ownersState t originalPool originalAcl peerDeclares lis" if "el_DefaultPoolId lis = deref originalPool" "pl_Changes plan = []"
    using that unfolding ownersState_def plan_def by (auto simp: fieldDesired_def Let_def split: option.splits if_splits)
  moreover have "if \<not> wrote then s' = s \<and> el_DefaultPoolId lis = deref originalPool \<and> pl_Changes plan = []
      else retryOnLoadBalancerNotReady t lbId (UpdateListener t lbId (el_UUID lis) req) s = (Inr (), s')"
    using assms unfolding restoreAdoptedListener_def Let_def plan_def[symmetric] req_def[symmetric]
    by (auto simp: andThen_Inr_iff split: if_splits)
  moreover have "deref (acl_get f (Some (currentAcl (appliedListener req lis)))) = deref (acl_get f (Some (currentAcl lis)))"
    if "acl_get f originalAcl = None \<or> peerDeclares f" for f
    using kept[OF that] unfolding req_def applied_acl by simp
  moreover have "el_TimeoutClient (appliedListener req lis) = el_TimeoutClient lis"
    "el_TimeoutMember (appliedListener req lis) = el_TimeoutMember lis"
    "el_TimeoutConnection (appliedListener req lis) = el_TimeoutConnection lis"
    "el_InsertHeaders (appliedListener req lis) = el_InsertHeaders lis"
    by (simp_all add: req_def appliedListener_def currentListenerRequest_def)
  moreover have "\<exists>es. hist s' = hist s @ es \<and> EvUpdateListener lbId (el_UUID lis) req (Inr ()) \<in> set es"
    if "retryOnLoadBalancerNotReady t lbId (UpdateListener t lbId (el_UUID lis) req) s = (Inr (), s')"
    using that unfolding UpdateListener_def by (rule retry_success)
  ultimately show ?thesis
    by (cases wrote; simp only: not_True_eq_False not_False_eq_True if_True if_False; blast)
qed

section \<open>What deploying calls\<close>

text \<open>Everything happens on this load balancer, and nothing is deleted.\<close>

definition deployListenerCalls :: "string \<Rightarrow> event \<Rightarrow> bool" where
  "deployListenerCalls lbId e =
     (case e of
        EvListListenerOfLB l _ \<Rightarrow> l = lbId | EvCreateListener l _ _ \<Rightarrow> l = lbId | EvUpdateListener l _ _ _ \<Rightarrow> l = lbId
      | EvGetListenerById l _ _ \<Rightarrow> l = lbId | EvWaitForLBActive l _ \<Rightarrow> l = lbId | EvListCertificates _ \<Rightarrow> True
      | EvListPolicyOfListener l _ _ \<Rightarrow> l = lbId | EvCreatePolicy l _ _ _ \<Rightarrow> l = lbId
      | EvUpdatePolicy l _ _ _ _ \<Rightarrow> l = lbId | EvReorderPolicies l _ _ _ \<Rightarrow> l = lbId
      | EvGetLBC _ _ _ \<Rightarrow> True | EvPatchStatus _ _ _ \<Rightarrow> True | _ \<Rightarrow> False)"

lemma own_status_deployListenerCalls [simp]: "own_status (\<lambda>_. deployListenerCalls lbId) t"
  by (simp add: own_status_def deployListenerCalls_def)

lemma safe_listener_policies:
  "safe (emitsR (\<lambda>_. deployListenerCalls lbId)) (deployPolicies t lbId i port ps pools) s"
  "safe (emitsR (\<lambda>_. deployListenerCalls lbId)) (deployReorderPolicies t lbId i ps) s"
  by (rule safe_emits_mono[OF safe_deployPolicies] safe_emits_mono[OF safe_deployReorderPolicies];
      auto simp: policyCalls_def deployListenerCalls_def split: event.splits)+

lemma safe_findListenerCertificateId:
  "(\<And>h r. P h (EvListCertificates r)) \<Longrightarrow> safe (emitsR P) (findListenerCertificateId t certs c) s"
  unfolding findListenerCertificateId_def ListCertificates_def by (intro safe_intro)

lemma safe_listener_requests:
  assumes "\<And>h r. P h (EvListCertificates r)"
  shows "safe (emitsR P) (buildCreateListenerRequest t lbId spec pools certs) s"
    "safe (emitsR P) (buildListenerUpdateRequest t lbId spec lis pools certs acl) s"
  unfolding buildCreateListenerRequest_def buildListenerUpdateRequest_def certificateUpdate_def Let_def
  by (intro emits_struct safe_findListenerCertificateId assms)+

lemma safe_deployListener:
  "safe (emitsR (\<lambda>_. deployListenerCalls lbId)) (deployListener t lbId cur pools certs spec) s"
  unfolding deployListener_def obtainListener_def updateListenerStep_def Let_def CreateListener_def WaitForLBActive_def
    GetListenerById_def UpdateListener_def
  by (intro emits_struct safe_emits_call safe_listener_policies safe_listener_requests safe_emits_status_ops
      own_status_deployListenerCalls) (simp_all add: deployListenerCalls_def)

lemma safe_deployListeners:
  "safe (emitsR (\<lambda>_. deployListenerCalls lbId)) (deployListeners t lbId pools certs) s"
  unfolding deployListeners_def ListListenerOfLB_def
  by (intro emits_struct safe_emits_call safe_deployListener) (simp add: deployListenerCalls_def)

section \<open>Adoption and the record of the ACL\<close>

lemma find_updateFirst:
  "find P xs = Some x \<Longrightarrow> P (f x) \<Longrightarrow> find P (updateFirst P f xs) = Some (f x)"
  by (induction xs) (auto split: if_splits)

lemma find_append: "find P (xs @ ys) = (case find P xs of Some x \<Rightarrow> Some x | None \<Rightarrow> find P ys)"
  by (induction xs) auto

lemma find_mirrorListener [simp]:
  "find (\<lambda>l. cl_Id l = cl_Id d) (ss_CreatedListeners (mirrorListener d s)) = Some d"
proof (cases "find (\<lambda>l. cl_Id l = cl_Id d) (ss_CreatedListeners s)")
  case None
  then have "\<not> list_ex (\<lambda>l. cl_Id l = cl_Id d) (ss_CreatedListeners s)" by (simp add: find_None_iff list_ex_iff)
  with None show ?thesis by (simp add: mirrorListener_def find_append)
next
  case (Some l)
  then have "list_ex (\<lambda>l. cl_Id l = cl_Id d) (ss_CreatedListeners s)" by (auto simp: find_Some_iff list_ex_iff)
  with find_updateFirst[OF Some, of "\<lambda>_. d"] show ?thesis by (simp add: mirrorListener_def)
qed

text \<open>What \<open>statusAdoptListener\<close> decides about a listener, from the object the API server holds.\<close>

definition adoptionDecision :: "bool \<Rightarrow> LoadBalancerConfig \<Rightarrow> string \<Rightarrow> string \<Rightarrow> bool \<times> string option" where
  "adoptionDecision isOurs obj i pool =
     (case find (\<lambda>l. cl_Id l = i) (ss_CreatedListeners (lbc_Status obj)) of
        Some l \<Rightarrow> (cl_Adopted l, if cl_Adopted l then cl_OriginalDefaultPoolId l else None)
      | None \<Rightarrow> (\<not> isOurs, if \<not> isOurs \<and> pool \<noteq> [] then Some pool else None))"

text \<open>The API server has shown, or accepted, an object with this ACL record for the listener.\<close>

definition recordHeld :: "event list \<Rightarrow> string \<Rightarrow> ListenerAcl option \<Rightarrow> bool" where
  "recordHeld es i acl \<longleftrightarrow>
     (\<exists>obj. ((\<exists>ns n. EvGetLBC ns n (Inr obj) \<in> set es) \<or> (\<exists>old. EvPatchStatus old obj (Inr ()) \<in> set es))
        \<and> originalAclOf (lbc_Status obj) i = acl)"

lemma recordHeld_mono: "recordHeld es i acl \<Longrightarrow> set es \<subseteq> set es' \<Longrightarrow> recordHeld es' i acl"
  unfolding recordHeld_def by blast

lemma mutAdoptListener_decided:
  assumes "mutAdoptListener isOurs neutral i p pool obj = (changed, obj', d)"
  shows "cl_Id d = i" "cl_Adopted d = fst (adoptionDecision isOurs obj i pool)"
    "cl_Adopted d \<Longrightarrow> cl_OriginalDefaultPoolId d = snd (adoptionDecision isOurs obj i pool)"
    "originalAclOf (lbc_Status obj') i = cl_OriginalAcl d" "\<not> changed \<Longrightarrow> obj' = obj"
proof -
  consider (rec) l where "find (\<lambda>l. cl_Id l = i) (ss_CreatedListeners (lbc_Status obj)) = Some l"
    | (new) "find (\<lambda>l. cl_Id l = i) (ss_CreatedListeners (lbc_Status obj)) = None" by (metis option.exhaust)
  then have "cl_Id d = i \<and> cl_Adopted d = fst (adoptionDecision isOurs obj i pool)
      \<and> (cl_Adopted d \<longrightarrow> cl_OriginalDefaultPoolId d = snd (adoptionDecision isOurs obj i pool))
      \<and> originalAclOf (lbc_Status obj') i = cl_OriginalAcl d \<and> (\<not> changed \<longrightarrow> obj' = obj)"
  proof cases
    case rec
    with assms find_updateFirst[OF rec, of "\<lambda>_. l\<lparr>cl_Port := p\<rparr>"] show ?thesis
      by (auto simp: mutAdoptListener_def adoptionDecision_def originalAclOf_def Let_def dest: find_key_SomeD split: if_splits)
  next
    case new
    with assms show ?thesis
      by (auto simp: mutAdoptListener_def adoptionDecision_def originalAclOf_def Let_def newCreatedListener_def
          newAdoptedListener_def find_append split: if_splits)
  qed
  then show "cl_Id d = i" "cl_Adopted d = fst (adoptionDecision isOurs obj i pool)"
    "cl_Adopted d \<Longrightarrow> cl_OriginalDefaultPoolId d = snd (adoptionDecision isOurs obj i pool)"
    "originalAclOf (lbc_Status obj') i = cl_OriginalAcl d" "\<not> changed \<Longrightarrow> obj' = obj" by auto
qed

lemma statusAdoptListener_success:
  assumes "statusAdoptListener t i p pool s = (Inr u, s')"
  shows "\<exists>es obj d. hist s' = hist s @ es \<and> (\<exists>ns n. EvGetLBC ns n (Inr obj) \<in> set es)
    \<and> find (\<lambda>l. cl_Id l = i) (ss_CreatedListeners (lbStatus s')) = Some d
    \<and> cl_Adopted d = fst (adoptionDecision (loadBalancerIsOurs (t_Spec t) (lbStatus s)) obj i pool)
    \<and> (cl_Adopted d \<longrightarrow> cl_OriginalDefaultPoolId d = snd (adoptionDecision (loadBalancerIsOurs (t_Spec t) (lbStatus s)) obj i pool))
    \<and> recordHeld es i (cl_OriginalAcl d)"
proof -
  let ?ours = "loadBalancerIsOurs (t_Spec t) (lbStatus s)"
  define neutral where "neutral = (case find (\<lambda>ls. lis_ProtocolPort ls = p) (sp_Listeners (t_Spec t)) of
      Some ls \<Rightarrow> neutralAcl (specAcl ls) (DefaultAllowedCidrs (cfg_LoadBalancerOpts (t_cfg t))) | None \<Rightarrow> None)"
  from assms obtain d s1 where run: "PatchMutateStatus t (mutAdoptListener ?ours neutral i p pool) s = (Inr d, s1)"
    and s': "s' = s1\<lparr>lbStatus := mirrorListener d (lbStatus s1)\<rparr>"
    unfolding statusAdoptListener_def Let_def neutral_def[symmetric]
    by (cases "i = []") (auto simp: andThen_Inr_iff)
  from PatchMutateStatus_success[OF run] obtain es obj changed obj' where
    es: "hist s1 = hist s @ es" "EvGetLBC (om_Namespace (t_Meta t)) (om_Name (t_Meta t)) (Inr obj) \<in> set es"
    and mut: "mutAdoptListener ?ours neutral i p pool obj = (changed, obj', d)"
    and patch: "changed \<longrightarrow> EvPatchStatus obj obj' (Inr ()) \<in> set es" by blast
  note dec = mutAdoptListener_decided[OF mut]
  have "recordHeld es i (cl_OriginalAcl d)"
    unfolding recordHeld_def using es(2) patch dec(4,5) by (cases changed) blast+
  moreover have "find (\<lambda>l. cl_Id l = i) (ss_CreatedListeners (lbStatus s')) = Some d"
    using find_mirrorListener[of d "lbStatus s1"] s' dec(1) by simp
  ultimately show ?thesis
    by (intro exI[of _ es] exI[of _ obj] exI[of _ d]) (use es s' dec(2,3) in auto)
qed

text \<open>Nothing after that touches the decision.\<close>

definition adoptionIn :: "string \<Rightarrow> st \<Rightarrow> (bool \<times> string option) option" where
  "adoptionIn i s = map_option (\<lambda>l. (cl_Adopted l, cl_OriginalDefaultPoolId l))
     (find (\<lambda>l. cl_Id l = i) (ss_CreatedListeners (lbStatus s)))"

lemma keeps_lbStatus_any:
  "safe (keepsR lbStatus) m s \<Longrightarrow> (\<And>s s'. lbStatus s = lbStatus s' \<Longrightarrow> g s = g s') \<Longrightarrow> safe (keepsR g) m s"
  unfolding safe_def keepsR_def by blast

lemma adoptionIn_cong: "lbStatus s = lbStatus s' \<Longrightarrow> adoptionIn i s = adoptionIn i s'"
  by (simp add: adoptionIn_def)

lemma find_map_same_key: "(\<And>x. cl_Id (f x) = cl_Id x) \<Longrightarrow>
    find (\<lambda>l. cl_Id l = i) (map f xs) = map_option f (find (\<lambda>l. cl_Id l = i) xs)"
  by (induction xs) auto

lemma adoptionIn_setAcl:
  "adoptionIn i (s\<lparr>lbStatus := lbStatus s\<lparr>ss_CreatedListeners :=
     map (\<lambda>l. if cl_Id l = j then l\<lparr>cl_OriginalAcl := rec\<rparr> else l) (ss_CreatedListeners (lbStatus s))\<rparr>\<rparr>) = adoptionIn i s"
proof -
  let ?f = "\<lambda>l. if cl_Id l = j then l\<lparr>cl_OriginalAcl := rec\<rparr> else l"
  have "find (\<lambda>l. cl_Id l = i) (map ?f (ss_CreatedListeners (lbStatus s)))
      = map_option ?f (find (\<lambda>l. cl_Id l = i) (ss_CreatedListeners (lbStatus s)))"
    by (rule find_map_same_key) simp
  then show ?thesis by (auto simp: adoptionIn_def option.map_comp intro!: option.map_cong)
qed

lemma safe_keeps_statusSetOriginalAcl: "safe (keepsR (adoptionIn i)) (statusSetOriginalAcl t j rec) s"
  unfolding statusSetOriginalAcl_def
  by (intro keeps.safe_andThen keeps.safe_getS keeps.safe_if keeps.safe_returnM keeps.safe_failM
      keeps_lbStatus_any[OF safe_keeps_PatchMutateStatus adoptionIn_cong])
    (simp_all add: safe_def keepsR_def adoptionIn_setAcl)

lemma safe_keeps_policies:
  "safe (keepsR lbStatus) (deployPolicies t lbId i port ps pools) s"
  "safe (keepsR lbStatus) (deployReorderPolicies t lbId i ps) s"
  unfolding deployPolicies_def deployPolicy_def deployReorderPolicies_def statusAddPolicy_def ListPolicyOfListener_def
    CreatePolicy_def UpdatePolicy_def ReorderPolicies_def WaitForLBActive_def
  by (intro safe_intro)+

lemma safe_keeps_buildListenerUpdateRequest:
  "safe (keepsR lbStatus) (buildListenerUpdateRequest t lbId spec lis pools certs acl) s"
  unfolding buildListenerUpdateRequest_def certificateUpdate_def findListenerCertificateId_def ListCertificates_def Let_def
  by (intro safe_intro)

lemma safe_keeps_updateListenerStep:
  "safe (keepsR (adoptionIn i)) (updateListenerStep t lbId spec lis pools certs) s"
  unfolding updateListenerStep_def Let_def UpdateListener_def WaitForLBActive_def
  by (intro keeps.safe_andThen keeps.safe_getS keeps.safe_case_option keeps.safe_wrapErr keeps.safe_returnM safe_keeps_statusSetOriginalAcl
      keeps_lbStatus_any[OF safe_keeps_buildListenerUpdateRequest adoptionIn_cong]
      keeps_lbStatus_any[OF safe_keeps_call_status adoptionIn_cong])

lemma deployListener_split:
  assumes "deployListener t lbId cur pools certs spec s = (Inr c, s')"
    and "find (\<lambda>l. el_ProtocolPort l = lis_ProtocolPort spec) cur = Some cl"
  shows "\<exists>s1 s2 created. statusAdoptListener t (el_UUID cl) (el_ProtocolPort cl) (el_DefaultPoolId cl) s = (Inr (), s1)
    \<and> updateListenerStep t lbId spec cl pools certs s1 = (Inr (), s2) \<and> lbStatus s' = lbStatus s2
    \<and> (\<exists>es. hist s' = hist s2 @ es)
    \<and> c = carryAdoption (lbStatus s') created \<and> cl_Id created = el_UUID cl
    \<and> \<not> cl_Adopted created \<and> cl_OriginalDefaultPoolId created = None"
proof -
  from assms obtain s1 s2 where a: "statusAdoptListener t (el_UUID cl) (el_ProtocolPort cl) (el_DefaultPoolId cl) s = (Inr (), s1)"
    and u: "updateListenerStep t lbId spec cl pools certs s1 = (Inr (), s2)"
    and rest: "(if sp_Type (t_Spec t) = LoadBalancerTypeLayer4 (t_sdk t)
       then getS (\<lambda>s. carryAdoption (lbStatus s) (newCreatedListener (el_UUID cl) (el_ProtocolPort cl)))
       else andThen (deployPolicies t lbId (el_UUID cl) (lis_ProtocolPort spec) (lis_Policies spec) pools)
           (\<lambda>createdPolicies.
         andThen (deployReorderPolicies t lbId (el_UUID cl) (lis_Policies spec)) (\<lambda>_.
           getS (\<lambda>s. carryAdoption (lbStatus s)
             ((newCreatedListener (el_UUID cl) (el_ProtocolPort cl))\<lparr>cl_CreatedPolicies := createdPolicies\<rparr>))))) s2 = (Inr c, s')"
    by (auto simp: deployListener_def obtainListener_def Let_def andThen_Inr_iff simp del: getS_eq split: if_splits)
  show ?thesis
  proof (cases "sp_Type (t_Spec t) = LoadBalancerTypeLayer4 (t_sdk t)")
    case True
    with rest have "s' = s2" "c = carryAdoption (lbStatus s') (newCreatedListener (el_UUID cl) (el_ProtocolPort cl))" by auto
    with a u show ?thesis by (metis newCreatedListener_def CreatedListener.select_convs(1,4,5) append_Nil2)
  next
    case False
    with rest obtain ps s3 x where
      p: "deployPolicies t lbId (el_UUID cl) (lis_ProtocolPort spec) (lis_Policies spec) pools s2 = (Inr ps, s3)"
      "deployReorderPolicies t lbId (el_UUID cl) (lis_Policies spec) s3 = (Inr x, s')"
      "c = carryAdoption (lbStatus s') ((newCreatedListener (el_UUID cl) (el_ProtocolPort cl))\<lparr>cl_CreatedPolicies := ps\<rparr>)"
      by (auto simp: andThen_Inr_iff)
    have "lbStatus s' = lbStatus s2"
      using keeps.safeD[OF safe_keeps_policies(1) p(1)] keeps.safeD[OF safe_keeps_policies(2) p(2)] by (simp add: keepsR_def)
    moreover have "cl_Id ((newCreatedListener i q)\<lparr>cl_CreatedPolicies := ps\<rparr>) = i"
      "\<not> cl_Adopted ((newCreatedListener i q)\<lparr>cl_CreatedPolicies := ps\<rparr>)"
      "cl_OriginalDefaultPoolId ((newCreatedListener i q)\<lparr>cl_CreatedPolicies := ps\<rparr>) = None" for i q
      by (simp_all add: newCreatedListener_def)
    moreover have "\<exists>es. hist s' = hist s2 @ es"
      using emitsR_hist[OF emits.safeD[OF safe_deployPolicies p(1)]] emitsR_hist[OF emits.safeD[OF safe_deployReorderPolicies p(2)]]
      by auto
    ultimately show ?thesis using p(3) a u by blast
  qed
qed

lemma updateListenerStep_extends: "updateListenerStep t lbId spec lis pools certs s = (r, s') \<Longrightarrow> \<exists>es. hist s' = hist s @ es"
proof (rule emitsR_hist[where P = "\<lambda>_ _. True"], erule emits.safeD[rotated])
  show "safe (emitsR (\<lambda>_ _. True)) (updateListenerStep t lbId spec lis pools certs) s"
    unfolding updateListenerStep_def Let_def UpdateListener_def WaitForLBActive_def
    by (intro emits_struct safe_emits_call safe_listener_requests safe_emits_status_ops) (auto simp: own_status_def)
qed

text \<open>
  A listener that was found, not created, keeps its adoption. When \<open>deployListener\<close> succeeds on a
  listener it found by its port, the entry it returns - which replaces the record at the end of the
  deploy - is for that listener and carries the decision taken from an object this run read: the
  adopted flag and the original default pool on record, or, when the object had no record of the
  listener, adopted exactly if the load balancer is not this cluster's own, with the default pool the
  listener was found with.
\<close>

theorem deployListener_adoption:
  assumes "find (\<lambda>l. el_ProtocolPort l = lis_ProtocolPort spec) cur = Some cl"
    and "deployListener t lbId cur pools certs spec s = (Inr c, s')"
  shows "\<exists>es obj ns n. hist s' = hist s @ es \<and> EvGetLBC ns n (Inr obj) \<in> set es \<and> cl_Id c = el_UUID cl
    \<and> (cl_Adopted c, cl_OriginalDefaultPoolId c)
        = adoptionDecision (loadBalancerIsOurs (t_Spec t) (lbStatus s)) obj (el_UUID cl) (el_DefaultPoolId cl)"
proof -
  let ?i = "el_UUID cl"
  let ?dec = "\<lambda>obj. adoptionDecision (loadBalancerIsOurs (t_Spec t) (lbStatus s)) obj ?i (el_DefaultPoolId cl)"
  from deployListener_split[OF assms(2,1)] obtain s1 s2 created where
    a: "statusAdoptListener t ?i (el_ProtocolPort cl) (el_DefaultPoolId cl) s = (Inr (), s1)"
    and u: "updateListenerStep t lbId spec cl pools certs s1 = (Inr (), s2)" and st: "lbStatus s' = lbStatus s2"
    and c: "c = carryAdoption (lbStatus s') created" "cl_Id created = ?i" "\<not> cl_Adopted created" "cl_OriginalDefaultPoolId created = None"
    and ext: "\<exists>es. hist s' = hist s2 @ es"
    by blast
  from statusAdoptListener_success[OF a] obtain es obj d ns n where
    es: "hist s1 = hist s @ es" "EvGetLBC ns n (Inr obj) \<in> set es"
    and d: "find (\<lambda>l. cl_Id l = ?i) (ss_CreatedListeners (lbStatus s1)) = Some d" "cl_Adopted d = fst (?dec obj)"
      "cl_Adopted d \<longrightarrow> cl_OriginalDefaultPoolId d = snd (?dec obj)" by blast
  have "adoptionIn ?i s' = adoptionIn ?i s1"
    using keeps.safeD[OF safe_keeps_updateListenerStep u] adoptionIn_cong[OF st] by (simp add: keepsR_def)
  with d(1) obtain r where r: "find (\<lambda>l. cl_Id l = ?i) (ss_CreatedListeners (lbStatus s')) = Some r"
    "cl_Adopted r = cl_Adopted d" "cl_OriginalDefaultPoolId r = cl_OriginalDefaultPoolId d"
    by (auto simp: adoptionIn_def)
  have none: "\<not> fst (?dec obj) \<Longrightarrow> snd (?dec obj) = None" by (auto simp: adoptionDecision_def split: option.splits)
  have "cl_Id c = ?i" "(cl_Adopted c, cl_OriginalDefaultPoolId c) = ?dec obj"
    using c r d(2,3) none by (auto simp: carryAdoption_def Let_def prod_eq_iff)
  moreover from updateListenerStep_extends[OF u] ext es(1) obtain e where "hist s' = hist s @ es @ e" by auto
  ultimately show ?thesis using es(2) by (intro exI[of _ "es @ e"]) auto
qed

text \<open>The fields of the ACL an update changes: an absent field keeps its value.\<close>

fun requestChangesAcl :: "entity_Listener \<Rightarrow> UpdateListenerRequest \<Rightarrow> aclField \<Rightarrow> bool" where
  "requestChangesAcl cl req aclAllowed \<longleftrightarrow> ulr_AllowedCidrs req \<noteq> el_AllowedCidrs cl"
| "requestChangesAcl cl req aclBlocked \<longleftrightarrow> ulr_BlockedCidrs req \<noteq> None"
| "requestChangesAcl cl req aclDefaultAction \<longleftrightarrow> ulr_DefaultAction req \<noteq> None"

lemmas listener_frames =
  change_frame[of ulr_AllowedCidrs] change_frame[of ulr_BlockedCidrs] change_frame[of ulr_DefaultAction]

lemma listenerUpdate_acl:
  "ulr_AllowedCidrs (snd (listenerUpdate t lbId spec cl pools acl)) =
     (case acl_AllowedCidrs (pl_Desired acl) of Some v \<Rightarrow> v | None \<Rightarrow> el_AllowedCidrs cl)"
  "ulr_BlockedCidrs (snd (listenerUpdate t lbId spec cl pools acl)) = acl_BlockedCidrs (pl_Desired acl)"
  "ulr_DefaultAction (snd (listenerUpdate t lbId spec cl pools acl)) = acl_DefaultAction (pl_Desired acl)"
  unfolding listenerUpdate_def Let_def by (simp_all add: listener_frames currentListenerRequest_def)

lemma certificateUpdate_frame:
  assumes run: "certificateUpdate t spec cl certs x s = (Inr y, s')"
    and g: "\<And>r v. g (r\<lparr>ulr_ClientCertificate := v\<rparr>) = g r" "\<And>r v. g (r\<lparr>ulr_DefaultCertificateAuthority := v\<rparr>) = g r"
      "\<And>r v. g (r\<lparr>ulr_CertificateAuthorities := v\<rparr>) = g r"
  shows "g (snd y) = g (snd x)"
proof -
  define x1 where "x1 = change (el_ClientCertificateAuthentication cl \<noteq> lis_ClientCertificateId spec)
                 (\<lambda>r. r\<lparr>ulr_ClientCertificate := lis_ClientCertificateId spec\<rparr>) x"
  have 1: "g (snd x1) = g (snd x)" unfolding x1_def by (rule change_frame) (rule g)
  from run obtain x2 s1 where
    d: "(case lis_CertificateDefault spec of
              None \<Rightarrow> returnM (change (el_DefaultCertificateAuthority cl \<noteq> None)
                                (\<lambda>r. r\<lparr>ulr_DefaultCertificateAuthority := None\<rparr>) x1)
            | Some cert \<Rightarrow>
                andThen (findListenerCertificateId t certs cert) (\<lambda>certId.
                  returnM (change (el_DefaultCertificateAuthority cl \<noteq> Some certId)
                             (\<lambda>r. r\<lparr>ulr_DefaultCertificateAuthority := Some certId\<rparr>) x1))) s = (Inr x2, s1)"
    and c: "(if lis_CertificateAuthorities spec = []
         then returnM (change (el_CertificateAuthorities cl \<noteq> []) (\<lambda>r. r\<lparr>ulr_CertificateAuthorities := None\<rparr>) x2)
         else andThen (mapM (findListenerCertificateId t certs) (lis_CertificateAuthorities spec)) (\<lambda>newCAs.
                returnM (change (set newCAs \<noteq> set (el_CertificateAuthorities cl))
                           (\<lambda>r. r\<lparr>ulr_CertificateAuthorities := Some newCAs\<rparr>) x2))) s1 = (Inr y, s')"
    unfolding certificateUpdate_def Let_def x1_def[symmetric] andThen_Inr_iff by blast
  from d have "\<exists>b v. x2 = change b (\<lambda>r. r\<lparr>ulr_DefaultCertificateAuthority := v\<rparr>) x1"
    by (auto simp: andThen_Inr_iff split: option.splits)
  moreover from c have "\<exists>b v. y = change b (\<lambda>r. r\<lparr>ulr_CertificateAuthorities := v\<rparr>) x2"
    by (auto simp: andThen_Inr_iff split: if_splits)
  ultimately have "g (snd x2) = g (snd x1)" "g (snd y) = g (snd x2)" by (auto intro!: change_frame g)
  with 1 show ?thesis by simp
qed

lemma buildListenerUpdateRequest_acl:
  assumes "buildListenerUpdateRequest t lbId spec cl pools certs acl s = (Inr (Some req), s')" and "requestChangesAcl cl req f"
  shows "acl_get f (Some (pl_Desired acl)) \<noteq> None"
proof -
  let ?u = "listenerUpdate t lbId spec cl pools acl"
  from assms(1) have y: "?u = (True, req) \<or> certificateUpdate t spec cl certs ?u s = (Inr (True, req), s')"
    by (auto simp: buildListenerUpdateRequest_def andThen_Inr_iff split: if_splits prod.splits)
  have "ulr_AllowedCidrs req = ulr_AllowedCidrs (snd ?u)" "ulr_BlockedCidrs req = ulr_BlockedCidrs (snd ?u)"
    "ulr_DefaultAction req = ulr_DefaultAction (snd ?u)"
    using y certificateUpdate_frame[of t spec cl certs ?u s "(True, req)" s' ulr_AllowedCidrs]
      certificateUpdate_frame[of t spec cl certs ?u s "(True, req)" s' ulr_BlockedCidrs]
      certificateUpdate_frame[of t spec cl certs ?u s "(True, req)" s' ulr_DefaultAction] by auto
  with assms(2) show ?thesis by (cases f) (auto simp: listenerUpdate_acl split: option.splits)
qed

lemma statusSetOriginalAcl_held:
  assumes "statusSetOriginalAcl t i rec s = (Inr u, s')" and "recordHeld es i (originalAclOf (lbStatus s) i)" and "hist s = h0 @ es"
  shows "\<exists>es' acl. hist s' = h0 @ es @ es' \<and> recordHeld (es @ es') i acl \<and> (\<forall>f. acl_get f acl = acl_get f rec)"
proof (cases "ListenerAcl_Equal (originalAclOf (lbStatus s) i) rec")
  case True
  then have "acl_get f (originalAclOf (lbStatus s) i) = acl_get f rec" for f
    by (cases f) (auto simp: ListenerAcl_Equal_def ListenerAcl_IsEmpty_def split: option.splits if_splits)
  with True assms show ?thesis
    by (intro exI[of _ "[]"] exI[of _ "originalAclOf (lbStatus s) i"]) (auto simp: statusSetOriginalAcl_def andThen_Inr_iff)
next
  case False
  with assms(1) obtain s1 where run: "PatchMutateStatus t (mutSetOriginalAcl i rec) s = (Inr True, s1)" and s': "hist s' = hist s1"
    by (auto simp: statusSetOriginalAcl_def andThen_Inr_iff split: if_splits)
  from PatchMutateStatus_success[OF run] obtain es' obj changed obj' where
    es': "hist s1 = hist s @ es'" and mut: "mutSetOriginalAcl i rec obj = (changed, obj', True)"
    and patch: "changed \<longrightarrow> EvPatchStatus obj obj' (Inr ()) \<in> set es'" by blast
  from mut have ex: "changed" "list_ex (\<lambda>l. cl_Id l = i) (ss_CreatedListeners (lbc_Status obj))"
    by (auto simp: mutSetOriginalAcl_def Let_def split: if_splits)
  then obtain l where l: "find (\<lambda>l. cl_Id l = i) (ss_CreatedListeners (lbc_Status obj)) = Some l"
    by (cases "find (\<lambda>l. cl_Id l = i) (ss_CreatedListeners (lbc_Status obj))") (auto simp: find_None_iff list_ex_iff)
  have "originalAclOf (lbc_Status obj') i = rec"
    using mut ex(2) find_updateFirst[OF l, of "\<lambda>l. l\<lparr>cl_OriginalAcl := rec\<rparr>"] find_key_SomeD[OF l]
    by (auto simp: mutSetOriginalAcl_def Let_def originalAclOf_def)
  then have "recordHeld (es @ es') i rec"
    unfolding recordHeld_def using patch ex(1) by (intro exI[of _ obj']) auto
  with es' s' assms(3) show ?thesis by auto
qed

lemma fieldDesired_recorded: "fieldDesired n6 spec c rec pd f \<noteq> None \<Longrightarrow> fieldBefore n6 spec c rec neutral f \<noteq> None"
  by (auto simp: field_defs Let_def split: option.splits if_splits)

definition recordsFirst :: "string \<Rightarrow> entity_Listener \<Rightarrow> history \<Rightarrow> history \<Rightarrow> event \<Rightarrow> bool" where
  "recordsFirst lbId cl h0 h e =
     (case e of
        EvUpdateListener l i req r \<Rightarrow> l = lbId \<and> i = el_UUID cl
          \<and> (\<exists>es acl. h = h0 @ es \<and> recordHeld es i acl \<and> (\<forall>f. requestChangesAcl cl req f \<longrightarrow> acl_get f acl \<noteq> None))
      | _ \<Rightarrow> True)"

text \<open>
  The record comes before the change. When \<open>deployListener\<close> works on a listener it found by its
  port, every \<open>UpdateListener\<close> it makes comes after the API server has shown or accepted, in this
  run, an object whose record for this listener has an original value for each ACL field the update
  changes: a crash between the two never loses what to put back.
\<close>

theorem deployListener_records_first:
  assumes "find (\<lambda>l. el_ProtocolPort l = lis_ProtocolPort spec) cur = Some cl"
  shows "safe (emitsR (recordsFirst lbId cl (hist s))) (deployListener t lbId cur pools certs spec) s"
proof -
  let ?i = "el_UUID cl" and ?P = "recordsFirst lbId cl (hist s)"
  have own: "own_status ?P t" by (simp add: own_status_def recordsFirst_def)
  have wait: "safe (emitsR ?P) (WaitForLBActive t lbId) s'" for s'
    unfolding WaitForLBActive_def by (intro safe_intro) (simp add: recordsFirst_def)
  have pols: "safe (emitsR ?P) (deployPolicies t lbId ?i q ps pools) s'" "safe (emitsR ?P) (deployReorderPolicies t lbId ?i ps) s'" for q ps s'
    by (rule safe_emits_mono[OF safe_deployPolicies] safe_emits_mono[OF safe_deployReorderPolicies];
        auto simp: policyCalls_def recordsFirst_def split: event.splits)+
  have upd: "safe (emitsR ?P) (updateListenerStep t lbId spec cl pools certs) s1"
    if a: "statusAdoptListener t ?i (el_ProtocolPort cl) (el_DefaultPoolId cl) s = (Inr u, s1)" for u s1
  proof -
    from statusAdoptListener_success[OF a] obtain es d where es: "hist s1 = hist s @ es"
      "find (\<lambda>l. cl_Id l = ?i) (ss_CreatedListeners (lbStatus s1)) = Some d" "recordHeld es ?i (cl_OriginalAcl d)" by blast
    then have held: "recordHeld es ?i (originalAclOf (lbStatus s1) ?i)" by (simp add: originalAclOf_def)
    have send: "safe (emitsR ?P) (UpdateListener t lbId ?i req) s3"
      if set: "statusSetOriginalAcl t ?i (pl_RecordBefore acl) s1 = (Inr v, s2)"
        and build: "buildListenerUpdateRequest t lbId spec cl pools certs acl s2 = (Inr (Some req), s3)"
        and acl: "acl = planListenerAcl n6 sp c rec neutral pd" for acl v s2 req s3 n6 sp c rec neutral pd
    proof -
      from statusSetOriginalAcl_held[OF set held es(1)] obtain e2 r where
        2: "hist s2 = hist s @ es @ e2" "recordHeld (es @ e2) ?i r" "\<forall>f. acl_get f r = acl_get f (pl_RecordBefore acl)" by blast
      have "safe (emitsR (\<lambda>_ _. True)) (buildListenerUpdateRequest t lbId spec cl pools certs acl) s2"
        by (rule safe_listener_requests) simp
      from emitsR_hist[OF emits.safeD[OF this build]] 2(1) obtain e3 where 3: "hist s3 = hist s @ es @ e2 @ e3" by auto
      have "recordHeld (es @ e2 @ e3) ?i r" using 2(2) by (rule recordHeld_mono) auto
      moreover have "acl_get f r \<noteq> None" if "requestChangesAcl cl req f" for f
        using buildListenerUpdateRequest_acl[OF build that] fieldDesired_recorded[of n6 sp c rec pd f neutral] 2(3) acl by auto
      ultimately have "?P (hist s3) (EvUpdateListener lbId ?i req w)" for w unfolding recordsFirst_def event.case using 3 by blast
      then show ?thesis unfolding UpdateListener_def by (intro safe_intro)
    qed
    show ?thesis
      unfolding updateListenerStep_def Let_def
      by (intro emits_struct safe_emits_status_ops[OF own] safe_listener_requests wait)
        (auto simp: recordsFirst_def intro: send)
  qed
  show ?thesis
    unfolding deployListener_def obtainListener_def assms option.case Let_def
    by (intro emits_struct safe_emits_status_ops[OF own] pols) (auto simp: andThen_Inr_iff intro: upd pols)
qed

section \<open>Example runs\<close>

definition ex_elistener :: entity_Listener where
  "ex_elistener =
     \<lparr>el_UUID = ''lis-1'', el_Name = ''l'', el_Protocol = ''TCP'', el_ProtocolPort = 80, el_DefaultPoolId = ''pool-9'',
      el_AllowedCidrs = ''0.0.0.0/0'', el_BlockedCidrs = [], el_DefaultAction = [], el_TimeoutClient = 50,
      el_TimeoutMember = 50, el_TimeoutConnection = 5, el_InsertHeaders = None,
      el_DefaultCertificateAuthority = None, el_CertificateAuthorities = [], el_ClientCertificateAuthentication = None\<rparr>"

definition ex_listener :: Listener where
  "ex_listener =
     \<lparr>lis_Name = ''l'', lis_Description = None, lis_Protocol = ''TCP'', lis_ProtocolPort = 80, lis_DefaultPoolName = None,
      lis_TimeoutClient = None, lis_TimeoutMember = None, lis_TimeoutConnection = None, lis_AllowedCidrs = None,
      lis_BlockedCidrs = None, lis_DefaultAction = None, lis_InsertHeaders = None, lis_Policies = [],
      lis_CertificateDefault = None, lis_CertificateAuthorities = [], lis_ClientCertificateId = None\<rparr>"

text \<open>A load balancer given by the user, on an API server and a cloud that accept everything.\<close>

definition ex_adopt_task :: task where
  "ex_adopt_task = ex_task
     \<lparr>t_vng := ex_vng\<lparr>api_UpdateListener := (\<lambda>_ _ _ _. Inr ()),
                      api_WaitForLBActive := (\<lambda>_ l. Inr \<lparr>elb_UUID = l, elb_Name = [], elb_Address = [], elb_Type = [],
                        elb_PrivateSubnetID = [], elb_BackendSubnetID = [], elb_ZoneID = [], elb_PackageID = [],
                        elb_AutoScalable = False, elb_DisplayStatus = [], elb_ProgressStatus = []\<rparr>)\<rparr>,
      t_k8s := ex_k8s\<lparr>k8s_GetLoadBalancerConfig := (\<lambda>_ _ _. Inr \<lparr>lbc_Meta = ex_meta, lbc_Spec = ex_spec, lbc_Status = ex_status\<rparr>),
                      k8s_StatusPatch := (\<lambda>_ _ _. Inr ()), k8s_conflict_retries := 0\<rparr>,
      t_Spec := ex_spec\<lparr>sp_LoadBalancerId := Some ''lb-1''\<rparr>\<rparr>"

theorem restoreAdoptedListener_restores_witness:
  "\<exists>es req. hist (snd (restoreAdoptedListener ex_adopt_task ''lb-1'' ex_elistener (Some ''pool-1'') None (\<lambda>_. False) ex_st)) = hist ex_st @ es
     \<and> EvUpdateListener ''lb-1'' ''lis-1'' req (Inr ()) \<in> set es
     \<and> el_DefaultPoolId (appliedListener req ex_elistener) = ''pool-1''"
proof -
  let ?r = "restoreAdoptedListener ex_adopt_task ''lb-1'' ex_elistener (Some ''pool-1'') None (\<lambda>_. False) ex_st"
  have "fst ?r = Inr True"
    by (simp add: restoreAdoptedListener_def Let_def ex_elistener_def ex_adopt_task_def retryOnLoadBalancerNotReady_def
        maxLoadBalancerBusyRetries_def numeral_2_eq_2 andThen_def attempt_def UpdateListener_def)
  then have "?r = (Inr True, snd ?r)" by (metis prod.collapse)
  from restoreAdoptedListener_restores[OF this] show ?thesis
    by (auto simp: ex_elistener_def ownersState_def)
qed

lemma PatchMutateStatus_ok:
  assumes "\<And>h ns n. k8s_GetLoadBalancerConfig (t_k8s t) h ns n = Inr obj" and "\<And>h o1 o2. k8s_StatusPatch (t_k8s t) h o1 o2 = Inr ()"
    and "mutate obj = (changed, obj', d)"
  shows "\<exists>es. PatchMutateStatus t mutate s = (Inr d, s\<lparr>hist := hist s @ es\<rparr>)"
proof (cases "k8s_conflict_retries (t_k8s t)")
  case 0
  with assms show ?thesis
    by (cases changed) (auto simp: PatchMutateStatus_def patchMutateStatusObject_def GetLoadBalancerConfig_def StatusPatch_def andThen_def)
next
  case (Suc n)
  with assms show ?thesis
    by (cases changed) (auto simp: PatchMutateStatus_def patchMutateStatusObject_def GetLoadBalancerConfig_def StatusPatch_def
        andThen_def attempt_def)
qed

theorem deployListener_adoption_witness:
  "\<exists>c. fst (deployListener ex_adopt_task ''lb-1'' [ex_elistener] [] [] ex_listener ex_st) = Inr c \<and> cl_Id c = ''lis-1''"
proof -
  let ?r = "deployListener ex_adopt_task ''lb-1'' [ex_elistener] [] [] ex_listener ex_st"
  let ?d = "newAdoptedListener ''lis-1'' 80 ''pool-9''"
  have 1: "find (\<lambda>l. el_ProtocolPort l = lis_ProtocolPort ex_listener) [ex_elistener] = Some ex_elistener"
    by (simp add: ex_elistener_def ex_listener_def)
  have task: "sp_Type (t_Spec ex_adopt_task) \<noteq> LoadBalancerTypeLayer7 (t_sdk ex_adopt_task)"
    "sp_Type (t_Spec ex_adopt_task) = LoadBalancerTypeLayer4 (t_sdk ex_adopt_task)" "sp_Listeners (t_Spec ex_adopt_task) = []"
    "\<And>h l i req. api_UpdateListener (t_vng ex_adopt_task) h l i req = Inr ()"
    "\<And>h l. \<exists>lb. api_WaitForLBActive (t_vng ex_adopt_task) h l = Inr lb"
    by (simp_all add: ex_adopt_task_def ex_task_def ex_spec_def ex_sdk_def)
  have ours: "\<not> loadBalancerIsOurs (t_Spec ex_adopt_task) (lbStatus ex_st)"
    by (simp add: loadBalancerIsOurs_def ex_adopt_task_def ex_st_def ex_status_def)
  have "\<exists>c obj'. mutAdoptListener False None ''lis-1'' 80 ''pool-9'' \<lparr>lbc_Meta = ex_meta, lbc_Spec = ex_spec, lbc_Status = ex_status\<rparr> = (c, obj', ?d)"
    by (auto simp: mutAdoptListener_def ex_status_def Let_def)
  moreover have "\<And>h ns n. k8s_GetLoadBalancerConfig (t_k8s ex_adopt_task) h ns n = Inr \<lparr>lbc_Meta = ex_meta, lbc_Spec = ex_spec, lbc_Status = ex_status\<rparr>"
    "\<And>h o1 o2. k8s_StatusPatch (t_k8s ex_adopt_task) h o1 o2 = Inr ()" by (simp_all add: ex_adopt_task_def)
  ultimately obtain es where "PatchMutateStatus ex_adopt_task (mutAdoptListener False None ''lis-1'' 80 ''pool-9'') ex_st
      = (Inr ?d, ex_st\<lparr>hist := hist ex_st @ es\<rparr>)"
    using PatchMutateStatus_ok by metis
  then have adopt: "statusAdoptListener ex_adopt_task ''lis-1'' 80 ''pool-9'' ex_st
      = (Inr (), ex_st\<lparr>hist := hist ex_st @ es, lbStatus := mirrorListener ?d (lbStatus ex_st)\<rparr>)"
    using ours task(3) by (simp add: statusAdoptListener_def andThen_def)
  define s1 where "s1 = ex_st\<lparr>hist := hist ex_st @ es, lbStatus := mirrorListener ?d (lbStatus ex_st)\<rparr>"
  have plan: "planListenerAcl n6 (specAcl ex_listener) (currentAcl ex_elistener) None x pd
      = \<lparr>pl_Desired = emptyAcl, pl_RecordBefore = None, pl_RecordAfter = None, pl_Changes = []\<rparr>" for n6 x pd
    by (simp add: planListenerAcl_def aclFields_def planField_def specAcl_def ex_listener_def cloneAcl_def nilIfEmpty_def
        ListenerAcl_IsEmpty_def emptyAcl_def Let_def)
  have none: "originalAclOf (lbStatus s1) ''lis-1'' = None"
    by (simp add: s1_def originalAclOf_def ex_st_def ex_status_def mirrorListener_def newAdoptedListener_def newCreatedListener_def)
  have build: "buildListenerUpdateRequest ex_adopt_task ''lb-1'' ex_listener ex_elistener [] [] plan s = (r, s') \<Longrightarrow> s' = s \<and> (\<exists>x. r = Inr x)"
    for plan s r s'
    using task(1) by (auto simp: buildListenerUpdateRequest_def andThen_def split: prod.splits)
  have keep: "statusSetOriginalAcl ex_adopt_task ''lis-1'' None s = (Inr (), s)" if "lbStatus s = lbStatus s1" for s
    using none that by (simp add: statusSetOriginalAcl_def andThen_def ListenerAcl_Equal_def ListenerAcl_IsEmpty_def)
  obtain u where u: "buildListenerUpdateRequest ex_adopt_task ''lb-1'' ex_listener ex_elistener [] []
      \<lparr>pl_Desired = emptyAcl, pl_RecordBefore = None, pl_RecordAfter = None, pl_Changes = []\<rparr> s1 = (Inr u, s1)"
    using build by (metis prod.collapse)
  have uuid: "el_UUID ex_elistener = ''lis-1''" "el_ProtocolPort ex_elistener = 80" "el_DefaultPoolId ex_elistener = ''pool-9''"
    "el_Protocol ex_elistener = lis_Protocol ex_listener" by (simp_all add: ex_elistener_def ex_listener_def)
  have "fst (updateListenerStep ex_adopt_task ''lb-1'' ex_listener ex_elistener [] [] s1) = Inr ()"
  proof (cases u)
    case None
    then show ?thesis
      unfolding updateListenerStep_def Let_def uuid by (simp add: andThen_def none plan keep u)
  next
    case (Some opts)
    obtain lb where "api_WaitForLBActive (t_vng ex_adopt_task) (hist s1 @ [EvUpdateListener ''lb-1'' ''lis-1'' opts (Inr ())]) ''lb-1'' = Inr lb"
      using task(5) by blast
    with Some show ?thesis
      unfolding updateListenerStep_def Let_def uuid
      by (simp add: andThen_def none plan keep u wrapErr_def UpdateListener_def WaitForLBActive_def task(4))
  qed
  with task(2) have "\<exists>c. fst ?r = Inr c"
    unfolding deployListener_def obtainListener_def 1 option.case Let_def
    by (auto simp: andThen_def uuid adopt s1_def[symmetric] split: prod.splits sum.splits)
  then obtain c where c: "?r = (Inr c, snd ?r)" by (metis prod.collapse)
  from deployListener_adoption[OF 1 c] uuid have "cl_Id c = ''lis-1''" by auto
  with c show ?thesis by (metis fst_conv)
qed

theorem deployListener_records_first_witness:
  "safe (emitsR (recordsFirst ''lb-1'' ex_elistener (hist ex_st)))
     (deployListener ex_adopt_task ''lb-1'' [ex_elistener] [] [] ex_listener) ex_st"
  by (rule deployListener_records_first) (simp add: ex_elistener_def ex_listener_def)

end
