(* ===== verification/LB_Deploy.thy ===== *)
theory LB_Deploy
  imports Certs Listeners
begin

text \<open>
  Deploying a load balancer: \<^verbatim>\<open>internal/usecase/lbc_uc/deploy_lb.go\<close>. \<open>deploy\<close> is the whole task:
  validation, certificates, the load balancer itself, pools, listeners, the cleanup of what is not
  wanted any more, the status, and the teardown of a load balancer the LBC has migrated away from.
\<close>

section \<open>Requests\<close>

text \<open>The first package of a name; the loop breaks at it.\<close>

definition packageByName :: "entity_Package list \<Rightarrow> string \<Rightarrow> string" where
  "packageByName pkgs name = (case find (\<lambda>p. pkg_Name p = name) pkgs of Some p \<Rightarrow> pkg_UUID p | None \<Rightarrow> [])"

definition noPackage :: "string \<Rightarrow> string \<Rightarrow> go_error" where
  "noPackage name zone =
     NewNoNeedRequeue (''cannot find default load balancer package '' @ name @ '' in zone '' @ zone)"

definition namedPackage :: "entity_Package list \<Rightarrow> string \<Rightarrow> string \<Rightarrow> string M" where
  "namedPackage pkgs name zone =
     (if packageByName pkgs name = [] then failM (noPackage name zone) else returnM (packageByName pkgs name))"

text \<open>The package of a new load balancer: the one of the spec, or the configured default of its type.\<close>

definition createPackageId :: "task \<Rightarrow> string M" where
  "createPackageId t =
     (let spec = t_Spec t; opts = cfg_LoadBalancerOpts (t_cfg t) in
      if nonempty (sp_PackageId spec) then returnM (deref (sp_PackageId spec))
      else andThen (ListLoadBalancerPackageByZone t (sp_ZoneId spec)) (\<lambda>pkgs.
        if sp_Type spec = LoadBalancerTypeLayer4 (t_sdk t) \<and> DefaultL4PackageName opts \<noteq> []
        then namedPackage pkgs (DefaultL4PackageName opts) (sp_ZoneId spec)
        else if sp_Type spec = LoadBalancerTypeLayer7 (t_sdk t) \<and> DefaultL7PackageName opts \<noteq> []
        then namedPackage pkgs (DefaultL7PackageName opts) (sp_ZoneId spec)
        else returnM []))"

text \<open>The pool and listener a load balancer is created with, both or none.\<close>

definition firstPool :: "task \<Rightarrow> Pool option" where
  "firstPool t =
     (case sp_Pools (t_Spec t) of
        [] \<Rightarrow> None
      | p # ps \<Rightarrow>
          if sp_Type (t_Spec t) = LoadBalancerTypeLayer7 (t_sdk t)
          then find (\<lambda>p. pool_Name p = DEFAULT_NAME_DEFAULT_POOL) (p # ps)
          else Some p)"

definition defaultPoolAndListener ::
  "task \<Rightarrow> CreatedCertificate list \<Rightarrow> (CreatePoolRequest \<times> CreateListenerRequest) option M" where
  "defaultPoolAndListener t createdCerts =
     (case firstPool t of
        None \<Rightarrow> returnM None
      | Some poolSpec \<Rightarrow>
          (case sp_Listeners (t_Spec t) of
             [] \<Rightarrow> returnM None
           | listenerSpec # _ \<Rightarrow>
               andThen (buildCreateListenerRequest t [] listenerSpec [] createdCerts) (\<lambda>listenerRequest.
                 returnM (Some (buildCreatePoolRequest t [] poolSpec, listenerRequest)))))"

text \<open>\<open>WithTags(k1, v1, k2, v2, ...)\<close>, where the map is not empty.\<close>

definition createTagList :: "task \<Rightarrow> string list option" where
  "createTagList t =
     (case snd (buildTag [] [] (sp_Tags (t_Spec t))) of
        [] \<Rightarrow> None
      | newTags \<Rightarrow> Some (concat (map (\<lambda>(k, v). [k, v]) newTags)))"

definition buildCreateLoadBalancerRequest ::
  "task \<Rightarrow> CreatedCertificate list \<Rightarrow> CreateLoadBalancerRequest M" where
  "buildCreateLoadBalancerRequest t createdCerts =
     (let spec = t_Spec t in
      andThen (createPackageId t) (\<lambda>packageId.
      andThen (defaultPoolAndListener t createdCerts) (\<lambda>defaults.
        returnM
          \<lparr>clb_Name = sp_LoadBalancerName spec, clb_PackageId = packageId, clb_SubnetId = sp_SubnetId spec,
           clb_ZoneId = sp_ZoneId spec,
           clb_Scheme = (case sp_Scheme spec of Some sc \<Rightarrow> sc | None \<Rightarrow> DefaultScheme (cfg_LoadBalancerOpts (t_cfg t))),
           clb_AutoScalable = sp_EnableAutoscale spec,
           clb_Type = (if sp_Type spec \<noteq> [] then Some (sp_Type spec) else None),
           clb_Poc = sp_IsPoc spec,
           clb_Listener = map_option snd defaults, clb_Pool = map_option fst defaults,
           clb_Tags = createTagList t\<rparr>)))"

definition interPackageId :: "task \<Rightarrow> string \<Rightarrow> string M" where
  "interPackageId t privateZoneId =
     (if nonempty (sp_PackageId (t_Spec t)) then returnM (deref (sp_PackageId (t_Spec t)))
      else andThen (ListLoadBalancerPackageByZone t privateZoneId) (\<lambda>pkgs.
        namedPackage pkgs (DefaultL4PackageName (cfg_LoadBalancerOpts (t_cfg t))) privateZoneId))"

definition buildCreateInterVpcLoadBalancerRequest :: "task \<Rightarrow> CreateInterLoadBalancerRequest M" where
  "buildCreateInterVpcLoadBalancerRequest t =
     (let spec = t_Spec t in
      andThen (if cfg_UserID (t_cfg t) = 0 then GetUserId t else returnM (cfg_UserID (t_cfg t))) (\<lambda>userId.
        if userId = 0
        then failM (NewNoNeedRequeue ''userId is required, cannot get from config or vngcloud repository'')
        else if \<not> nonempty (sp_PrivateSubnetId spec)
        then failM (NewNoNeedRequeue ''privateSubnetId is required for InterVpc load balancer'')
        else
          let privateZoneId = (if nonempty (sp_PrivateZoneId spec) then deref (sp_PrivateZoneId spec) else sp_ZoneId spec)
          in andThen (interPackageId t privateZoneId) (\<lambda>packageId.
               returnM
                 \<lparr>cil_UserId = Itoa userId, cil_Name = sp_LoadBalancerName spec, cil_PackageId = packageId,
                  cil_SubnetId = sp_SubnetId spec, cil_PrivateSubnetId = deref (sp_PrivateSubnetId spec),
                  cil_ZoneId = privateZoneId, cil_Tags = createTagList t\<rparr>)))"

section \<open>The load balancer\<close>

text \<open>The four fields the mutation of \<open>syncLBCStatusFromLoadBalancer\<close> compares and sets.\<close>

definition syncField ::
  "(LoadBalancerConfigStatus \<Rightarrow> string option) \<Rightarrow> (string option \<Rightarrow> LoadBalancerConfigStatus \<Rightarrow> LoadBalancerConfigStatus)
   \<Rightarrow> string \<Rightarrow> bool \<times> LoadBalancerConfigStatus \<Rightarrow> bool \<times> LoadBalancerConfigStatus" where
  "syncField get upd v cs =
     (if v \<noteq> [] \<and> get (snd cs) \<noteq> Some v then (True, upd (Some v) (snd cs)) else cs)"

definition syncMutation :: "entity_LoadBalancer \<Rightarrow> LoadBalancerConfigStatus \<Rightarrow> bool \<times> LoadBalancerConfigStatus" where
  "syncMutation lb s =
     (let subnetId = (if elb_BackendSubnetID lb \<noteq> [] then elb_BackendSubnetID lb else elb_PrivateSubnetID lb) in
      syncField ss_ZoneId (\<lambda>v. ss_ZoneId_update (\<lambda>_. v)) (elb_ZoneID lb)
        (syncField ss_Type (\<lambda>v. ss_Type_update (\<lambda>_. v)) (elb_Type lb)
          (syncField ss_SubnetId (\<lambda>v. ss_SubnetId_update (\<lambda>_. v)) subnetId
            (syncField ss_LoadBalancerName (\<lambda>v. ss_LoadBalancerName_update (\<lambda>_. v)) (elb_Name lb) (False, s)))))"

text \<open>The guard against a nil entity is not needed by its one caller, which has just read the entity.\<close>

definition syncLBCStatusFromLoadBalancer :: "task \<Rightarrow> entity_LoadBalancer \<Rightarrow> unit M" where
  "syncLBCStatusFromLoadBalancer t lbEntity = PatchMutateStatus t (statusMut (syncMutation lbEntity))"

definition deployPackageId :: "task \<Rightarrow> entity_LoadBalancer \<Rightarrow> unit M" where
  "deployPackageId t lbEntity =
     (let pkg = sp_PackageId (t_Spec t) in
      if \<not> nonempty pkg then returnM ()
      else if deref pkg = elb_PackageID lbEntity then returnM ()
      else if elb_AutoScalable lbEntity then returnM ()
      else andThen (ResizeLoadBalancer t (elb_UUID lbEntity) (deref pkg)) (\<lambda>_.
           andThen (wrapErr (errorf (''wait LB '' @ elb_UUID lbEntity @ '' active after resize''))
                      (WaitForLBActive t (elb_UUID lbEntity))) (\<lambda>_. returnM ())))"

definition ensureExistLoadBalancer :: "task \<Rightarrow> string \<Rightarrow> entity_LoadBalancer option \<Rightarrow> string M" where
  "ensureExistLoadBalancer t lbId lbEntity =
     (if lbId = [] then failM (ErrorString ''load balancer id is empty'')
      else andThen (case lbEntity of None \<Rightarrow> GetLoadBalancerByID t lbId | Some lb \<Rightarrow> returnM lb) (\<lambda>lb.
           andThen (syncLBCStatusFromLoadBalancer t lb) (\<lambda>_.
           andThen (WaitForLBActive t lbId) (\<lambda>active.
           andThen (statusAddLoadBalancerId t (Some lbId) (Some (elb_Address active))) (\<lambda>_.
           andThen (deployTags t lbId) (\<lambda>_.
           andThen (deployPackageId t active) (\<lambda>_. returnM lbId)))))))"

text \<open>The two branches that create, with the check of the id they share.\<close>

definition createdEntity :: "entity_LoadBalancer option \<Rightarrow> entity_LoadBalancer M" where
  "createdEntity r =
     (case r of
        None \<Rightarrow> failM (ErrorString ''load balancer not have UUID after create, need to retry'')
      | Some lb \<Rightarrow>
          if elb_UUID lb = [] then failM (ErrorString ''load balancer not have UUID after create, need to retry'')
          else returnM lb)"

definition requestLoadBalancer :: "task \<Rightarrow> CreatedCertificate list \<Rightarrow> entity_LoadBalancer M" where
  "requestLoadBalancer t createdCerts =
     (if sp_Scheme (t_Spec t) = Some (InterVpcLoadBalancerScheme (t_sdk t))
      then andThen (buildCreateInterVpcLoadBalancerRequest t) (\<lambda>req.
           andThen (CreateInterLoadBalancer t req) createdEntity)
      else andThen (buildCreateLoadBalancerRequest t createdCerts) (\<lambda>req.
           andThen (CreateLoadBalancer t req) createdEntity))"

text \<open>From the id on: the status, the wait, and the cleanup of a load balancer that came up in error.\<close>

definition awaitCreated :: "task \<Rightarrow> entity_LoadBalancer \<Rightarrow> string M" where
  "awaitCreated t lb =
     andThen (statusAddLoadBalancerId t (Some (elb_UUID lb)) (Some (elb_Address lb))) (\<lambda>_.
     andThen (attempt (WaitForLBActive t (elb_UUID lb))) (\<lambda>r.
       case r of
         Inl err \<Rightarrow>
           if err = ErrorLoadBalancerStatusError
           then andThen (statusAddLoadBalancerId t None None) (\<lambda>_.
                andThen (wrapErr (errorf (''delete load balancer '' @ elb_UUID lb @ '' after status error''))
                           (DeleteLoadBalancer t (elb_UUID lb))) (\<lambda>_.
                  failM (RequeueNeeded ''loadbalancer status is error, delete and recreate'')))
           else failM (errorf (''wait LB '' @ elb_UUID lb @ '' active after create'') err)
       | Inr _ \<Rightarrow> ensureExistLoadBalancer t (elb_UUID lb) None))"

definition createLoadBalancer :: "task \<Rightarrow> CreatedCertificate list \<Rightarrow> string M" where
  "createLoadBalancer t createdCerts =
     andThen (requestLoadBalancer t createdCerts) (\<lambda>lb.
     andThen (statusSetCreatedLoadBalancerId t (elb_UUID lb)) (\<lambda>_. awaitCreated t lb))"

definition migrateLoadBalancer :: "task \<Rightarrow> string \<Rightarrow> string \<Rightarrow> string M" where
  "migrateLoadBalancer t oldId newId =
     andThen (statusSetAdoptedLoadBalancerId t newId) (\<lambda>_.
     andThen (getS lbStatus) (\<lambda>status.
     andThen (statusSetRetiringLoadBalancer t (Some
       \<lparr>rt_Id = oldId, rt_CreatedListeners = ss_CreatedListeners status, rt_CreatedPools = ss_CreatedPools status,
        rt_CreatedTags = ss_CreatedTags status\<rparr>)) (\<lambda>_.
     andThen (statusClearCreatedResources t) (\<lambda>_.
       ensureExistLoadBalancer t newId None))))"

definition teardownRetiringLoadBalancer :: "task \<Rightarrow> RetiringLoadBalancer \<Rightarrow> unit M" where
  "teardownRetiringLoadBalancer t retiring =
     andThen (attempt (GetLoadBalancerByID t (rt_Id retiring))) (\<lambda>r.
       case r of
         Inl err \<Rightarrow> if IsLoadBalancerNotFound err then returnM () else failM err
       | Inr _ \<Rightarrow>
           andThen (deleteRedundantListenersFrom t (rt_Id retiring) (rt_CreatedListeners retiring) [] []) (\<lambda>_.
           andThen (deleteRedundantPoolsFrom t (rt_Id retiring) (rt_CreatedPools retiring) []) (\<lambda>_.
             deleteRedundantTagsFrom t (rt_Id retiring) (rt_CreatedTags retiring))))"

definition errorNewLbIdObtained :: go_error where
  "errorNewLbIdObtained = RequeueNeeded ''new load balancer ID obtained, requeue needed''"

text \<open>\<open>lbId, err := m(); if err != nil { return lbId, err }; return lbId, errorNewLbIdObtained\<close>\<close>

definition thenRequeue :: "string M \<Rightarrow> string M" where
  "thenRequeue m = andThen m (\<lambda>_. failM errorNewLbIdObtained)"

definition deployLoadBalancer :: "task \<Rightarrow> CreatedCertificate list \<Rightarrow> string M" where
  "deployLoadBalancer t createdCerts =
     andThen (getS lbStatus) (\<lambda>status.
       let specId = sp_LoadBalancerId (t_Spec t); statusId = ss_LoadBalancerId status in
       if nonempty statusId
       then if nonempty specId \<and> deref specId \<noteq> deref statusId
            then thenRequeue (migrateLoadBalancer t (deref statusId) (deref specId))
            else ensureExistLoadBalancer t (deref statusId) None
       else if nonempty specId
       then andThen (statusSetAdoptedLoadBalancerId t (deref specId)) (\<lambda>_.
              thenRequeue (ensureExistLoadBalancer t (deref specId) None))
       else if sp_LoadBalancerName (t_Spec t) \<noteq> []
       then andThen (GetLoadBalancerByName t (sp_LoadBalancerName (t_Spec t))) (\<lambda>found.
              case found of
                Some lb \<Rightarrow>
                  andThen (statusSetAdoptedLoadBalancerId t (elb_UUID lb)) (\<lambda>_.
                    thenRequeue (ensureExistLoadBalancer t (elb_UUID lb) (Some lb)))
              | None \<Rightarrow> createLoadBalancer t createdCerts)
       else createLoadBalancer t createdCerts)"

section \<open>The task\<close>

definition recordDeployed ::
  "CreatedListener list \<Rightarrow> CreatedPool list \<Rightarrow> CreatedCertificate list
   \<Rightarrow> LoadBalancerConfigStatus \<Rightarrow> bool \<times> LoadBalancerConfigStatus" where
  "recordDeployed newCreatedListeners newCreatedPools createdCerts s =
     (if createdListenersEqual (ss_CreatedListeners s) newCreatedListeners
         \<and> createdPoolsEqual (ss_CreatedPools s) newCreatedPools
         \<and> createdCertificatesEqual (ss_CreatedCertificates s) createdCerts
      then (False, s)
      else (True, s\<lparr>ss_CreatedListeners := newCreatedListeners, ss_CreatedPools := newCreatedPools,
                    ss_CreatedCertificates := createdCerts\<rparr>))"

text \<open>The teardown at the end, which \<open>delete\<close> starts with.\<close>

definition retireOld :: "task \<Rightarrow> unit M" where
  "retireOld t =
     andThen (getS lbStatus) (\<lambda>status.
       case ss_RetiringLoadBalancer status of
         None \<Rightarrow> returnM ()
       | Some retiring \<Rightarrow>
           andThen (teardownRetiringLoadBalancer t retiring) (\<lambda>_. statusSetRetiringLoadBalancer t None))"

definition deploy :: "task \<Rightarrow> unit M" where
  "deploy t =
     andThen (fromResult (validateSelf t)) (\<lambda>_.
     andThen (deployCerts t) (\<lambda>createdCerts.
     andThen (deployLoadBalancer t createdCerts) (\<lambda>lbId.
     andThen (validateCrossLBCs t lbId) (\<lambda>_.
     andThen (deployPools t lbId) (\<lambda>newCreatedPools.
     andThen (deployListeners t lbId newCreatedPools createdCerts) (\<lambda>newCreatedListeners.
     andThen (deleteRedundantListeners t lbId newCreatedListeners newCreatedPools) (\<lambda>_.
     andThen (deleteRedundantPools t lbId newCreatedPools) (\<lambda>_.
     andThen (deleteRedundantCerts t createdCerts) (\<lambda>_.
     andThen (PatchMutateStatus t (statusMut (recordDeployed newCreatedListeners newCreatedPools createdCerts))) (\<lambda>_.
       retireOld t))))))))))"

section \<open>What deploying the load balancer calls\<close>

text \<open>The run \<open>es\<close> created the load balancer \<open>l\<close>.\<close>

definition createdIn :: "event list \<Rightarrow> string \<Rightarrow> bool" where
  "createdIn es l \<longleftrightarrow>
     (\<exists>lb. elb_UUID lb = l \<and> ((\<exists>req. EvCreateLoadBalancer req (Inr (Some lb)) \<in> set es)
                              \<or> (\<exists>req. EvCreateInterLoadBalancer req (Inr (Some lb)) \<in> set es)))"

lemma createdInI:
  "EvCreateLoadBalancer req (Inr (Some lb)) \<in> set es \<Longrightarrow> createdIn es (elb_UUID lb)"
  "EvCreateInterLoadBalancer req' (Inr (Some lb)) \<in> set es \<Longrightarrow> createdIn es (elb_UUID lb)"
  unfolding createdIn_def by blast+

lemma createdIn_mono: "createdIn es l \<Longrightarrow> set es \<subseteq> set es' \<Longrightarrow> createdIn es' l"
  unfolding createdIn_def by blast

text \<open>No load balancer is known: none in the status or the spec, and none of the name in the cloud.\<close>

definition noneKnown :: "task \<Rightarrow> LoadBalancerConfigStatus \<Rightarrow> event list \<Rightarrow> bool" where
  "noneKnown t status es \<longleftrightarrow>
     \<not> nonempty (ss_LoadBalancerId status) \<and> \<not> nonempty (sp_LoadBalancerId (t_Spec t))
     \<and> (sp_LoadBalancerName (t_Spec t) = []
        \<or> EvGetLoadBalancerByName (sp_LoadBalancerName (t_Spec t)) (Inr None) \<in> set es)"

definition lbCalls :: "task \<Rightarrow> LoadBalancerConfigStatus \<Rightarrow> history \<Rightarrow> history \<Rightarrow> event \<Rightarrow> bool" where
  "lbCalls t status h0 h e =
     (case e of
        EvCreateLoadBalancer _ _ \<Rightarrow> (\<exists>es. h = h0 @ es \<and> noneKnown t status es)
      | EvCreateInterLoadBalancer _ _ \<Rightarrow> (\<exists>es. h = h0 @ es \<and> noneKnown t status es)
      | EvDeleteLoadBalancer l _ \<Rightarrow>
          (\<exists>es. h = h0 @ es \<and> createdIn es l \<and> EvWaitForLBActive l (Inl ErrorLoadBalancerStatusError) \<in> set es)
      | EvResizeLoadBalancer _ p _ \<Rightarrow> sp_PackageId (t_Spec t) = Some p
      | EvCreateTags _ _ _ \<Rightarrow> True
      | EvGetLoadBalancerByID _ _ \<Rightarrow> True | EvGetLoadBalancerByName _ _ \<Rightarrow> True
      | EvWaitForLBActive _ _ \<Rightarrow> True | EvListLoadBalancerPackageByZone _ _ \<Rightarrow> True | EvListTags _ _ \<Rightarrow> True
      | EvInvalidateTagsCache _ \<Rightarrow> True | EvListCertificates _ \<Rightarrow> True
      | EvGetLBC _ _ _ \<Rightarrow> True | EvPatchStatus _ _ _ \<Rightarrow> True | _ \<Rightarrow> False)"

lemma own_status_lbCalls [simp]: "own_status (lbCalls t status h0) t"
  by (simp add: own_status_def lbCalls_def)

lemma lbCalls_simps [simp]:
  "lbCalls t st h0 h (EvCreateTags l w ru)" "lbCalls t st h0 h (EvGetLoadBalancerByID l re)"
  "lbCalls t st h0 h (EvGetLoadBalancerByName n ro)" "lbCalls t st h0 h (EvWaitForLBActive l re)"
  "lbCalls t st h0 h (EvListLoadBalancerPackageByZone z rp)" "lbCalls t st h0 h (EvListTags l rt)"
  "lbCalls t st h0 h (EvInvalidateTagsCache l)" "lbCalls t st h0 h (EvListCertificates rc)"
  by (simp_all add: lbCalls_def)

text \<open>Ensuring an existing load balancer creates and deletes nothing.\<close>

definition ensureCalls :: "task \<Rightarrow> string \<Rightarrow> event \<Rightarrow> bool" where
  "ensureCalls t lbId e =
     (case e of
        EvResizeLoadBalancer _ p _ \<Rightarrow> sp_PackageId (t_Spec t) = Some p
      | EvCreateTags l _ _ \<Rightarrow> l = lbId | EvListTags l _ \<Rightarrow> l = lbId | EvInvalidateTagsCache l \<Rightarrow> l = lbId
      | EvGetLoadBalancerByID l _ \<Rightarrow> l = lbId | EvWaitForLBActive _ _ \<Rightarrow> True
      | EvGetLBC _ _ _ \<Rightarrow> True | EvPatchStatus _ _ _ \<Rightarrow> True | _ \<Rightarrow> False)"

lemma own_status_ensureCalls [simp]: "own_status (\<lambda>_. ensureCalls t lbId) t"
  by (simp add: own_status_def ensureCalls_def)

lemma safe_ensureCalls: "safe (emitsR (\<lambda>_. ensureCalls t lbId)) (ensureExistLoadBalancer t lbId lb) s"
  unfolding ensureExistLoadBalancer_def syncLBCStatusFromLoadBalancer_def deployPackageId_def Let_def
    GetLoadBalancerByID_def WaitForLBActive_def ResizeLoadBalancer_def
  by (intro emits_struct safe_emits_call safe_emits_status_ops safe_emits_Patch safe_emits_deployTags own_status_ensureCalls)
    (auto simp: ensureCalls_def nonempty_def split: option.splits)

lemma safe_ensureExistLoadBalancer:
  "safe (emitsR (lbCalls t st h0)) (ensureExistLoadBalancer t lbId lb) s"
  by (rule safe_emits_mono[OF safe_ensureCalls]) (auto simp: ensureCalls_def lbCalls_def split: event.splits)

lemma safe_createRequests:
  "safe (emitsR (lbCalls t st h0)) (buildCreateInterVpcLoadBalancerRequest t) s"
  "safe (emitsR (lbCalls t st h0)) (buildCreateLoadBalancerRequest t certs) s"
  unfolding buildCreateInterVpcLoadBalancerRequest_def buildCreateLoadBalancerRequest_def interPackageId_def
    createPackageId_def namedPackage_def defaultPoolAndListener_def Let_def GetUserId_def ListLoadBalancerPackageByZone_def
  by (intro emits_struct safe_emits_call safe_listener_requests lbCalls_simps)+

lemma safe_requestLoadBalancer:
  assumes "hist s = h0 @ es" and "noneKnown t st es"
  shows "safe (emitsR (lbCalls t st h0)) (requestLoadBalancer t certs) s"
proof -
  have "lbCalls t st h0 (hist s') (EvCreateLoadBalancer req r)" "lbCalls t st h0 (hist s') (EvCreateInterLoadBalancer req' r)"
    if "emitsR (lbCalls t st h0) s s'" for s' req req' r
    using emitsR_hist[OF that] assms by (auto simp: lbCalls_def noneKnown_def)
  then show ?thesis
    unfolding requestLoadBalancer_def createdEntity_def CreateInterLoadBalancer_def CreateLoadBalancer_def
    by (intro emits_struct safe_createRequests safe_emits_call) auto
qed

lemma requestLoadBalancer_created:
  assumes "requestLoadBalancer t certs s = (Inr lb, s')"
  shows "\<exists>es. hist s' = hist s @ es \<and> createdIn es (elb_UUID lb)"
proof -
  have ext: "\<exists>es. hist s1 = hist s @ es"
    if "buildCreateInterVpcLoadBalancerRequest t s = (r, s1) \<or> buildCreateLoadBalancerRequest t certs s = (r', s1)" for r r' s1
    using that emits.safeD[OF safe_createRequests(1)] emits.safeD[OF safe_createRequests(2)]
    by (meson emitsR_hist)
  from assms consider
      req s1 r where "buildCreateInterVpcLoadBalancerRequest t s = (Inr req, s1)"
        "CreateInterLoadBalancer t req s1 = (Inr r, s')" "r = Some lb"
    | req s1 r where "buildCreateLoadBalancerRequest t certs s = (Inr req, s1)"
        "CreateLoadBalancer t req s1 = (Inr r, s')" "r = Some lb"
    unfolding requestLoadBalancer_def createdEntity_def
    by (auto simp: andThen_Inr_iff split: if_splits option.splits)
  then show ?thesis
  proof cases
    case 1
    from ext[of "Inr req" s1] 1(1) obtain es where es: "hist s1 = hist s @ es" by blast
    from 1(2,3) es have "hist s' = hist s @ es @ [EvCreateInterLoadBalancer req (Inr (Some lb))]"
      unfolding CreateInterLoadBalancer_def by (auto dest!: call_result simp del: call_eq)
    moreover have "createdIn (es @ [EvCreateInterLoadBalancer req (Inr (Some lb))]) (elb_UUID lb)"
      by (rule createdInI(2)[of req]) simp
    ultimately show ?thesis by blast
  next
    case 2
    from ext[of _ s1 "Inr req"] 2(1) obtain es where es: "hist s1 = hist s @ es" by blast
    from 2(2,3) es have "hist s' = hist s @ es @ [EvCreateLoadBalancer req (Inr (Some lb))]"
      unfolding CreateLoadBalancer_def by (auto dest!: call_result simp del: call_eq)
    moreover have "createdIn (es @ [EvCreateLoadBalancer req (Inr (Some lb))]) (elb_UUID lb)"
      by (rule createdInI(1)[of req]) simp
    ultimately show ?thesis by blast
  qed
qed

lemma safe_createLoadBalancer:
  assumes "hist s = h0 @ es" and "noneKnown t st es"
  shows "safe (emitsR (lbCalls t st h0)) (createLoadBalancer t certs) s"
proof -
  let ?P = "lbCalls t st h0"
  have del: "?P (hist s5) (EvDeleteLoadBalancer (elb_UUID lb) r)"
    if req: "requestLoadBalancer t certs s = (Inr lb, s1)" and s2: "emitsR ?P s1 s2"
      and wait: "attempt (WaitForLBActive t (elb_UUID lb)) s2 = (Inr (Inl ErrorLoadBalancerStatusError), s3)"
      and s5: "emitsR ?P s3 s5" for lb s1 s2 s3 s5 r
  proof -
    from requestLoadBalancer_created[OF req] obtain es1 where
      1: "hist s1 = hist s @ es1" "createdIn es1 (elb_UUID lb)" by blast
    from emitsR_hist[OF s2] obtain es2 where 2: "hist s2 = hist s1 @ es2" ..
    from wait have 3: "hist s3 = hist s2 @ [EvWaitForLBActive (elb_UUID lb) (Inl ErrorLoadBalancerStatusError)]"
      unfolding WaitForLBActive_def attempt_iff by (auto dest!: call_result simp del: call_eq)
    from emitsR_hist[OF s5] obtain es3 where 4: "hist s5 = hist s3 @ es3" ..
    have "createdIn (es @ es1 @ es2 @ e # es3) (elb_UUID lb)" for e
      by (rule createdIn_mono[OF 1(2)]) auto
    with 1(1) 2 3 4 assms(1) show ?thesis by (auto simp: lbCalls_def)
  qed
  have wait: "safe (emitsR ?P) (attempt (WaitForLBActive t l)) s'" for l s'
    unfolding WaitForLBActive_def by (intro emits_struct safe_emits_call) simp
  show ?thesis
    unfolding createLoadBalancer_def awaitCreated_def DeleteLoadBalancer_def
    by (intro emits_struct safe_requestLoadBalancer[OF assms] safe_emits_status_ops own_status_lbCalls wait
        safe_ensureExistLoadBalancer safe_emits_call)
      (auto intro: del emitsR_trans)
qed

lemma safe_migrateLoadBalancer: "safe (emitsR (lbCalls t st h0)) (migrateLoadBalancer t old new) s"
  unfolding migrateLoadBalancer_def
  by (intro emits_struct safe_emits_status_ops own_status_lbCalls safe_ensureExistLoadBalancer)

lemma safe_deployLoadBalancer:
  "safe (emitsR (lbCalls t (lbStatus s) (hist s))) (deployLoadBalancer t certs) s"
proof -
  let ?P = "lbCalls t (lbStatus s) (hist s)"
  have create: "safe (emitsR ?P) (createLoadBalancer t certs) s"
    if "\<not> nonempty (ss_LoadBalancerId (lbStatus s))" "\<not> nonempty (sp_LoadBalancerId (t_Spec t))"
      "sp_LoadBalancerName (t_Spec t) = []"
    using that by (intro safe_createLoadBalancer[of s "hist s" "[]"]) (simp_all add: noneKnown_def)
  have named: "safe (emitsR ?P) (createLoadBalancer t certs) s1"
    if "GetLoadBalancerByName t (sp_LoadBalancerName (t_Spec t)) s = (Inr None, s1)"
      "\<not> nonempty (ss_LoadBalancerId (lbStatus s))" "\<not> nonempty (sp_LoadBalancerId (t_Spec t))" for s1
    using that unfolding GetLoadBalancerByName_def
    by (intro safe_createLoadBalancer[of s1 "hist s" "[EvGetLoadBalancerByName (sp_LoadBalancerName (t_Spec t)) (Inr None)]"])
      (auto dest!: call_result simp: noneKnown_def simp del: call_eq)
  have get: "safe (emitsR ?P) (GetLoadBalancerByName t n) s'" for n s'
    unfolding GetLoadBalancerByName_def by (intro safe_emits_call) simp
  show ?thesis
    unfolding deployLoadBalancer_def thenRequeue_def Let_def
    by (intro emits_struct safe_migrateLoadBalancer safe_ensureExistLoadBalancer safe_emits_status_ops own_status_lbCalls get)
      (auto intro: create named)
qed

section \<open>What deploying calls\<close>

lemma safe_emits_deployCerts:
  assumes "\<And>h r. P h (EvListCertificates r)" and "\<And>h ns n r. P h (EvGetSecret ns n r)" and "\<And>h req r. P h (EvImportCertificate req r)"
  shows "safe (emitsR P) (deployCerts t) s"
  unfolding deployCerts_def deployCert_def ListCertificates_def GetSecret_def ImportCertificate_def Let_def
  by (intro emits_struct safe_emits_call assms)

lemma safe_keeps_deployCerts: "safe (keepsR lbStatus) (deployCerts t) s"
  unfolding deployCerts_def deployCert_def ListCertificates_def GetSecret_def ImportCertificate_def Let_def
  by (intro keeps_struct safe_keeps_call_status)

text \<open>The calls that take something away from a load balancer, with the load balancer they take it from.\<close>

fun removalOn :: "event \<Rightarrow> string option" where
  "removalOn (EvDeleteListener l i r) = Some l"
| "removalOn (EvDeletePolicy l i p r) = Some l"
| "removalOn (EvDeletePool l p r) = Some l"
| "removalOn _ = None"

text \<open>The load balancer the LBC was retiring when the task started.\<close>

definition retiringOf :: "st \<Rightarrow> RetiringLoadBalancer option" where
  "retiringOf s = ss_RetiringLoadBalancer (lbStatus s)"

lemma safe_retiring_status: "safe (keepsR lbStatus) m s \<Longrightarrow> safe (keepsR retiringOf) m s"
  by (simp add: safe_def keepsR_def retiringOf_def)

lemmas retiring_patch = safe_retiring_status[OF safe_keeps_PatchMutateStatus]
lemmas retiring_call = safe_retiring_status[OF safe_keeps_call_status]

lemma safe_retiring_mod:
  "(\<And>x. ss_RetiringLoadBalancer (f x) = ss_RetiringLoadBalancer x) \<Longrightarrow> safe (keepsR retiringOf) (modStatus f) s"
  by (simp add: safe_def keepsR_def retiringOf_def)

lemma safe_retiring_ops:
  "safe (keepsR retiringOf) (statusAddListener t i p a) s"
  "safe (keepsR retiringOf) (statusSetOriginalAcl t i a) s"
  "safe (keepsR retiringOf) (statusAdoptListener t i p d) s"
  "safe (keepsR retiringOf) (statusAddLoadBalancerId t l ad) s"
  "safe (keepsR retiringOf) (statusSetCreatedLoadBalancerId t i) s"
  "safe (keepsR retiringOf) (statusSetAdoptedLoadBalancerId t i) s"
  unfolding status_op_defs
  by (intro keeps_struct retiring_patch safe_retiring_mod; simp add: mirrorListener_def)+

lemma safe_keeps_tags: "safe (keepsR lbStatus) (deployTags t l) s" "safe (keepsR lbStatus) (deleteRedundantTagsFrom t l rec) s"
  unfolding deployTags_def deleteRedundantTagsFrom_def ensureTags_def diffTags_def deployTagsClosure_def deleteTagsClosure_def
    stillShared_def loadBalancerHasOtherLBC_def fromResult_def statusAddCreatedTags_def Let_def
    ListTags_def InvalidateTagsCache_def CreateTags_def ListLoadBalancerConfig_def
  by (intro keeps_struct safe_keeps_call_status safe_keeps_PatchMutateStatus)+

lemma safe_retiring_ensure: "safe (keepsR retiringOf) (ensureExistLoadBalancer t lbId lb) s"
  unfolding ensureExistLoadBalancer_def syncLBCStatusFromLoadBalancer_def deployPackageId_def Let_def
    GetLoadBalancerByID_def WaitForLBActive_def ResizeLoadBalancer_def
  by (intro keeps_struct retiring_patch retiring_call safe_retiring_ops safe_retiring_status[OF safe_keeps_tags(1)])

lemma safe_keeps_createRequests:
  "safe (keepsR lbStatus) (buildCreateInterVpcLoadBalancerRequest t) s"
  "safe (keepsR lbStatus) (buildCreateLoadBalancerRequest t certs) s"
  unfolding buildCreateInterVpcLoadBalancerRequest_def buildCreateLoadBalancerRequest_def interPackageId_def
    createPackageId_def namedPackage_def defaultPoolAndListener_def buildCreateListenerRequest_def findListenerCertificateId_def
    Let_def GetUserId_def ListLoadBalancerPackageByZone_def ListCertificates_def
  by (intro keeps_struct safe_keeps_call_status)+

lemma safe_retiring_create: "safe (keepsR retiringOf) (createLoadBalancer t certs) s"
  unfolding createLoadBalancer_def awaitCreated_def requestLoadBalancer_def createdEntity_def CreateInterLoadBalancer_def CreateLoadBalancer_def
    WaitForLBActive_def DeleteLoadBalancer_def
  by (intro keeps_struct safe_retiring_status[OF safe_keeps_createRequests(1)]
      safe_retiring_status[OF safe_keeps_createRequests(2)] retiring_call safe_retiring_ops safe_retiring_ensure)

lemma deployLoadBalancer_retiring:
  assumes "deployLoadBalancer t certs s = (Inr l, s')"
  shows "retiringOf s' = retiringOf s"
proof -
  have req: "thenRequeue m s0 \<noteq> (Inr x, s1)" for m s0 x s1
    by (auto simp: thenRequeue_def andThen_Inr_iff)
  have get: "retiringOf s1 = retiringOf s" if "GetLoadBalancerByName t n s = (r, s1)" for n r s1
    using that unfolding GetLoadBalancerByName_def by (auto dest!: call_result simp: retiringOf_def simp del: call_eq)
  from assms show ?thesis
    unfolding deployLoadBalancer_def
    by (auto simp: andThen_Inr_iff req Let_def dest!: get split: if_splits option.splits
        dest: keeps.safeD[OF safe_retiring_ensure, unfolded keepsR_def] keeps.safeD[OF safe_retiring_create, unfolded keepsR_def])
qed

lemma safe_keeps_validateCross: "safe (keepsR lbStatus) (validateCrossLBCs t lbId) s"
proof -
  have "safe (keepsR lbStatus) (addWarning w) s" "safe (keepsR lbStatus) (setAclPeer port f peer) s" for w port f peer s
    by (simp_all add: safe_def keepsR_def)
  then show ?thesis
    unfolding validateCrossLBCs_def validateCrossListenerAcl_def validateAclField_def ListLoadBalancerConfig_def Let_def fromResult_def
    by (intro keeps_struct safe_keeps_call_status safe_keeps_compareDecls)
qed

lemma safe_keeps_deployPools: "safe (keepsR lbStatus) (deployPools t lbId) s"
  unfolding deployPools_def deployPool_def statusAddPoolMember_def statusAddPool_def ListPool_def WaitForLBActive_def
    GetPoolHealthMonitorById_def UpdatePool_def GetPoolMembers_def UpdatePoolMembers_def CreatePool_def Let_def
  by (intro keeps_struct safe_keeps_call_status safe_keeps_PatchMutateStatus safe_keeps_retry)

lemma safe_keeps_buildCreateListenerRequest:
  "safe (keepsR lbStatus) (buildCreateListenerRequest t lbId spec pools certs) s"
  unfolding buildCreateListenerRequest_def findListenerCertificateId_def ListCertificates_def Let_def
  by (intro keeps_struct safe_keeps_call_status)

lemma safe_retiring_deployListeners: "safe (keepsR retiringOf) (deployListeners t lbId pools certs) s"
  unfolding deployListeners_def deployListener_def obtainListener_def updateListenerStep_def Let_def
    ListListenerOfLB_def CreateListener_def WaitForLBActive_def GetListenerById_def UpdateListener_def
  by (intro keeps_struct retiring_call safe_retiring_ops safe_retiring_status[OF safe_keeps_policies(1)]
      safe_retiring_status[OF safe_keeps_policies(2)] safe_retiring_status[OF safe_keeps_buildListenerUpdateRequest]
      safe_retiring_status[OF safe_keeps_buildCreateListenerRequest])

lemma safe_keeps_cleanupListeners: "safe (keepsR lbStatus) (cleanupListeners t lbId created nl np ls cs memo) s"
proof (induction cs arbitrary: memo s)
  case (Cons c cs)
  then show ?case
    unfolding cleanupListeners.simps by (intro keeps_struct safe_keeps_cleanupListener)
qed (simp add: keeps.safe_returnM)

lemma safe_keeps_deletes:
  "safe (keepsR lbStatus) (deleteRedundantListenersFrom t lbId created nl np) s"
  "safe (keepsR lbStatus) (deleteRedundantPoolsFrom t lbId cp np) s"
  "safe (keepsR lbStatus) (deleteRedundantCerts t keep) s"
  unfolding deleteRedundantListenersFrom_def deleteRedundantPoolsFrom_def deleteRedundantCerts_def poolsInUse_def
    cleanupPool_def cleanupCert_def ListListenerOfLB_def ListPool_def ListPolicyOfListener_def GetPoolMembers_def
    DeletePool_def UpdatePoolMembers_def WaitForLBActive_def ListCertificates_def DeleteCertificate_def Let_def
  by (intro keeps_struct safe_keeps_call_status safe_keeps_cleanupListeners safe_keeps_retry)+

text \<open>Within the trace \<open>h\<close>, after \<open>h0\<close>: every pool and listener of the spec was deployed.\<close>

definition deployedBy ::
  "task \<Rightarrow> history \<Rightarrow> history \<Rightarrow> string \<Rightarrow> CreatedCertificate list \<Rightarrow> CreatedPool list \<Rightarrow> CreatedListener list \<Rightarrow> bool" where
  "deployedBy t h0 h lbId certs newPools newListeners \<longleftrightarrow>
     (\<exists>s1 s2 s3. prefix h0 (hist s1) \<and> deployPools t lbId s1 = (Inr newPools, s2)
        \<and> deployListeners t lbId newPools certs s2 = (Inr newListeners, s3) \<and> prefix (hist s3) h)"

text \<open>And the status has it.\<close>

definition recordedBy ::
  "task \<Rightarrow> history \<Rightarrow> history \<Rightarrow> CreatedCertificate list \<Rightarrow> CreatedPool list \<Rightarrow> CreatedListener list \<Rightarrow> bool" where
  "recordedBy t h0 h certs newPools newListeners \<longleftrightarrow>
     (\<exists>s4 s5. prefix h0 (hist s4)
        \<and> PatchMutateStatus t (statusMut (recordDeployed newListeners newPools certs)) s4 = (Inr (), s5)
        \<and> prefix (hist s5) h)"

definition unwanted :: "CreatedPool list \<Rightarrow> CreatedListener list \<Rightarrow> event \<Rightarrow> bool" where
  "unwanted newPools newListeners e =
     (case e of
        EvDeleteListener l i r \<Rightarrow> i \<notin> cl_Id ` set newListeners
      | EvDeletePolicy l i p r \<Rightarrow> p \<notin> cpol_Id ` set (recordedPolicies newListeners i)
      | EvDeletePool l p r \<Rightarrow> recordedMembers newPools p = []
      | _ \<Rightarrow> True)"

definition deployRemoves :: "task \<Rightarrow> RetiringLoadBalancer option \<Rightarrow> history \<Rightarrow> history \<Rightarrow> event \<Rightarrow> bool" where
  "deployRemoves t retiring h0 h e =
     (case removalOn e of
        None \<Rightarrow> True
      | Some l \<Rightarrow> \<exists>lbId certs newPools newListeners.
          deployedBy t h0 h lbId certs newPools newListeners
          \<and> (l = lbId \<and> unwanted newPools newListeners e
             \<or> map_option rt_Id retiring = Some l \<and> recordedBy t h0 h certs newPools newListeners))"

lemma deployedBy_extend: "deployedBy t h0 h lbId certs np nl \<Longrightarrow> deployedBy t h0 (h @ es) lbId certs np nl"
  unfolding deployedBy_def by (meson prefix_order.trans prefixI)

lemma recordedBy_extend: "recordedBy t h0 h certs np nl \<Longrightarrow> recordedBy t h0 (h @ es) certs np nl"
  unfolding recordedBy_def by (meson prefix_order.trans prefixI)

lemma deployRemoves_none: "removalOn e = None \<Longrightarrow> deployRemoves t rt h0 h e"
  by (simp add: deployRemoves_def)

lemma cleanup_removals:
  "listenerCleanup t l st c nl np h0 h e \<Longrightarrow> removalOn e = Some l' \<Longrightarrow> l' = l \<and> unwanted np' nl e"
  "poolCleanup t l cp np h0 h e \<Longrightarrow> removalOn e = Some l' \<Longrightarrow> l' = l \<and> unwanted np nl' e"
  "tagCleanup t l rec h0 h e \<Longrightarrow> removalOn e = None"
  "certCleanup st keep h0 h e \<Longrightarrow> removalOn e = None"
  by (cases e; auto simp: listenerCleanup_def poolCleanup_def poolDeletable_def listenerDeletable_def tagCleanup_def
      certCleanup_def isCloudWrite_def unwanted_def)+

lemma safe_teardown_retiring:
  assumes "retiringOf s = Some rt" and "deployedBy t h0 (hist s) lbId certs np nl" and "recordedBy t h0 (hist s) certs np nl"
  shows "safe (emitsR (deployRemoves t (Some rt) h0)) (teardownRetiringLoadBalancer t rt) s"
proof -
  let ?P = "deployRemoves t (Some rt) h0"
  have ok: "?P (hist s' @ es) e" if "emitsR ?P s s'" "removalOn e = None \<or> removalOn e = Some (rt_Id rt)" for s' es e
  proof (cases "removalOn e")
    case (Some l)
    from emitsR_hist[OF that(1)] obtain es' where "hist s' @ es = hist s @ es' @ es" by auto
    then have "deployedBy t h0 (hist s' @ es) lbId certs np nl" "recordedBy t h0 (hist s' @ es) certs np nl"
      using deployedBy_extend[OF assms(2), of "es' @ es"] recordedBy_extend[OF assms(3), of "es' @ es"] by simp_all
    with Some that(2) show ?thesis unfolding deployRemoves_def by auto
  qed (rule deployRemoves_none)
  have l: "safe (emitsR ?P) (deleteRedundantListenersFrom t (rt_Id rt) c [] []) s'" if "emitsR ?P s s'" for c s'
    by (rule safe_emits_from[OF safe_deleteRedundantListenersFrom], rule ok[OF that]) (metis cleanup_removals(1) option.exhaust)
  have p: "safe (emitsR ?P) (deleteRedundantPoolsFrom t (rt_Id rt) c []) s'" if "emitsR ?P s s'" for c s'
    by (rule safe_emits_from[OF safe_deleteRedundantPoolsFrom], rule ok[OF that]) (metis cleanup_removals(2) option.exhaust)
  have tg: "safe (emitsR ?P) (deleteRedundantTagsFrom t (rt_Id rt) rec) s'" if "emitsR ?P s s'" for rec s'
    by (rule safe_emits_from[OF safe_deleteRedundantTagsFrom], rule ok[OF that]) (metis cleanup_removals(3))
  show ?thesis
    unfolding teardownRetiringLoadBalancer_def GetLoadBalancerByID_def
    by (intro emits_struct safe_emits_call l p tg) (auto intro: deployRemoves_none emitsR_trans)
qed

lemma own_status_deployRemoves: "own_status (deployRemoves t rt h0) t'"
  by (simp add: own_status_def deployRemoves_none)

text \<open>The second half of \<open>deploy\<close>, from the load balancer on.\<close>

lemma safe_deploy_cleanup:
  assumes dep: "deployedBy t h0 (hist s) lbId certs np nl" and rt: "retiringOf s = rt"
    and h0: "prefix h0 (hist s)"
  shows "safe (emitsR (deployRemoves t rt h0))
    (andThen (deleteRedundantListeners t lbId nl np) (\<lambda>_.
     andThen (deleteRedundantPools t lbId np) (\<lambda>_.
     andThen (deleteRedundantCerts t certs) (\<lambda>_.
     andThen (PatchMutateStatus t (statusMut (recordDeployed nl np certs))) (\<lambda>_. retireOld t))))) s"
proof -
  let ?P = "deployRemoves t rt h0"
  have ok: "?P (hist s' @ es) e" if "emitsR ?P s s'" "removalOn e = None \<or> removalOn e = Some lbId \<and> unwanted np nl e" for s' es e
  proof (cases "removalOn e")
    case (Some l)
    from emitsR_hist[OF that(1)] obtain es' where "hist s' @ es = hist s @ es' @ es" by auto
    then have "deployedBy t h0 (hist s' @ es) lbId certs np nl"
      using deployedBy_extend[OF dep, of "es' @ es"] by simp
    with Some that(2) show ?thesis unfolding deployRemoves_def by auto
  qed (rule deployRemoves_none)
  have lis: "safe (emitsR ?P) (deleteRedundantListenersFrom t lbId c nl np) s'" if "emitsR ?P s s'" for c s'
    by (rule safe_emits_from[OF safe_deleteRedundantListenersFrom], rule ok[OF that]) (metis cleanup_removals(1) option.exhaust)
  have pool: "safe (emitsR ?P) (deleteRedundantPoolsFrom t lbId c np) s'" if "emitsR ?P s s'" for c s'
    by (rule safe_emits_from[OF safe_deleteRedundantPoolsFrom], rule ok[OF that]) (metis cleanup_removals(2) option.exhaust)
  have cert: "safe (emitsR ?P) (deleteRedundantCerts t certs) s'" if "emitsR ?P s s'" for s'
    by (rule safe_emits_from[OF safe_deleteRedundantCerts], rule ok[OF that]) (metis cleanup_removals(4))
  have retire: "safe (emitsR ?P) (teardownRetiringLoadBalancer t r) s6"
    if "deleteRedundantListeners t lbId nl np s = (Inr u1, s2)" "emitsR ?P s s2"
      "deleteRedundantPools t lbId np s2 = (Inr u2, s3)" "emitsR ?P s2 s3"
      "deleteRedundantCerts t certs s3 = (Inr u3, s4)" "emitsR ?P s3 s4"
      "PatchMutateStatus t (statusMut (recordDeployed nl np certs)) s4 = (Inr (), s5)" "emitsR ?P s4 s5"
      "getS lbStatus s5 = (Inr status, s6)" "ss_RetiringLoadBalancer status = Some r"
    for u1 s2 u2 s3 u3 s4 s5 status s6 r
  proof -
    have "lbStatus s2 = lbStatus s" "lbStatus s3 = lbStatus s2" "lbStatus s4 = lbStatus s3" "lbStatus s5 = lbStatus s4"
      using that(1,3,5,7) keeps.safeD[OF safe_keeps_deletes(1)] keeps.safeD[OF safe_keeps_deletes(2)]
        keeps.safeD[OF safe_keeps_deletes(3)] keeps.safeD[OF safe_keeps_PatchMutateStatus that(7)]
      by (auto simp: deleteRedundantListeners_def deleteRedundantPools_def keepsR_def andThen_Inr_iff)
    moreover from that(9) have s6: "s6 = s5" "status = lbStatus s5" by auto
    ultimately have r: "retiringOf s6 = Some r" "rt = Some r" using rt that(10) by (simp_all add: retiringOf_def)
    from that(2,4,6,8) have pre: "emitsR ?P s s4" "emitsR ?P s s5" by (blast intro: emitsR_trans)+
    from emitsR_hist[OF pre(2)] dep have "deployedBy t h0 (hist s5) lbId certs np nl" by (auto intro: deployedBy_extend)
    moreover have "recordedBy t h0 (hist s5) certs np nl"
    proof -
      from emitsR_hist[OF pre(1)] h0 have "prefix h0 (hist s4)" by auto
      with that(7) show ?thesis unfolding recordedBy_def by blast
    qed
    ultimately show ?thesis using safe_teardown_retiring[OF r(1)] r(2) s6(1) by simp
  qed
  show ?thesis
    unfolding deleteRedundantListeners_def deleteRedundantPools_def retireOld_def
    by (intro emits_struct lis pool cert safe_emits_Patch safe_emits_status_ops own_status_deployRemoves)
      (auto intro: emitsR_trans emits.R_refl retire[unfolded deleteRedundantListeners_def deleteRedundantPools_def] simp: andThen_def)
qed


lemma safe_deploy_lifecycle:
  "safe (emitsR (\<lambda>h e. case e of
      EvCreateLoadBalancer req r \<Rightarrow> \<exists>es. h = hist s @ es \<and> noneKnown t (lbStatus s) es
    | EvCreateInterLoadBalancer req r \<Rightarrow> \<exists>es. h = hist s @ es \<and> noneKnown t (lbStatus s) es
    | EvDeleteLoadBalancer l r \<Rightarrow>
        \<exists>es. h = hist s @ es \<and> createdIn es l \<and> EvWaitForLBActive l (Inl ErrorLoadBalancerStatusError) \<in> set es
    | EvResizeLoadBalancer l p r \<Rightarrow> sp_PackageId (t_Spec t) = Some p
    | EvPatchMeta _ _ _ \<Rightarrow> False
    | _ \<Rightarrow> True)) (deploy t) s"
proof -
  let ?P = "\<lambda>h e. case e of
      EvCreateLoadBalancer req r \<Rightarrow> \<exists>es. h = hist s @ es \<and> noneKnown t (lbStatus s) es
    | EvCreateInterLoadBalancer req r \<Rightarrow> \<exists>es. h = hist s @ es \<and> noneKnown t (lbStatus s) es
    | EvDeleteLoadBalancer l r \<Rightarrow>
        \<exists>es. h = hist s @ es \<and> createdIn es l \<and> EvWaitForLBActive l (Inl ErrorLoadBalancerStatusError) \<in> set es
    | EvResizeLoadBalancer l p r \<Rightarrow> sp_PackageId (t_Spec t) = Some p
    | EvPatchMeta _ _ _ \<Rightarrow> False
    | _ \<Rightarrow> True"
  have own: "own_status ?P t" by (simp add: own_status_def)
  have certs: "safe (emitsR ?P) (deployCerts t) s'" for s'
    by (intro safe_emits_deployCerts) simp_all
  have lb: "safe (emitsR ?P) (deployLoadBalancer t c) s2"
    if "fromResult (validateSelf t) s = (Inr u, s1)" "deployCerts t s1 = (Inr c, s2)" "emitsR ?P s1 s2" for u s1 c s2
  proof -
    from that(1) have "s1 = s" by (auto simp: fromResult_def split: sum.splits)
    with that(3) obtain es where es: "hist s2 = hist s @ es" using emitsR_hist by blast
    have st: "lbStatus s2 = lbStatus s"
      using \<open>s1 = s\<close> keeps.safeD[OF safe_keeps_deployCerts that(2)] by (simp add: keepsR_def)
    have mono: "noneKnown t (lbStatus s) es'' \<Longrightarrow> noneKnown t (lbStatus s) (es' @ es'')" for es' es''
      by (auto simp: noneKnown_def)
    have cmono: "createdIn es'' l \<Longrightarrow> createdIn (es' @ es'') l" for es' es'' l
      by (erule createdIn_mono) simp
    show ?thesis
      by (rule safe_emits_mono[OF safe_deployLoadBalancer])
        (auto simp: lbCalls_def es st intro: mono cmono split: event.splits)
  qed
  have val: "safe (emitsR ?P) (validateCrossLBCs t l) s'" for l s'
    by (intro safe_emits_validateCrossLBCs) simp
  have pools: "safe (emitsR ?P) (deployPools t l) s'" for l s'
    by (rule safe_emits_mono[OF safe_deployPools]) (auto simp: deployPoolCalls_def split: event.splits)
  have listeners: "safe (emitsR ?P) (deployListeners t l np c) s'" for l np c s'
    by (rule safe_emits_mono[OF safe_deployListeners]) (auto simp: deployListenerCalls_def split: event.splits)
  have dels: "safe (emitsR ?P) (deleteRedundantListenersFrom t l a b d) s'" "safe (emitsR ?P) (deleteRedundantPoolsFrom t l a' d) s'"
    "safe (emitsR ?P) (deleteRedundantTagsFrom t l rec) s'" "safe (emitsR ?P) (deleteRedundantCerts t c) s'" for l a b d a' rec c s'
    by (rule safe_emits_mono[OF safe_deleteRedundantListenersFrom] safe_emits_mono[OF safe_deleteRedundantPoolsFrom]
        safe_emits_mono[OF safe_deleteRedundantTagsFrom] safe_emits_mono[OF safe_deleteRedundantCerts];
        auto simp: listenerCleanup_def poolCleanup_def tagCleanup_def certCleanup_def isCloudWrite_def split: event.splits)+
  show ?thesis
    unfolding deploy_def retireOld_def teardownRetiringLoadBalancer_def deleteRedundantListeners_def deleteRedundantPools_def
      GetLoadBalancerByID_def
    by (intro emits_struct safe_emits_fromResult certs lb val pools listeners dels safe_emits_Patch safe_emits_status_ops own safe_emits_call)
      simp_all
qed

text \<open>
  C21. A load balancer is created only when none is known, and deleted by a deploy only when that same
  deploy created it and it came up in error: every creation follows an empty status, an unpinned spec
  and - when the spec has a name - a lookup that found nothing; every deletion is of a load balancer
  whose creation was answered in this run and whose wait reported the error status. Every resize is to
  the package of the spec.
\<close>

theorem deploy_load_balancer_lifecycle:
  "safe (emitsR (\<lambda>h e. case e of
      EvCreateLoadBalancer req r \<Rightarrow> \<exists>es. h = hist s @ es \<and> noneKnown t (lbStatus s) es
    | EvCreateInterLoadBalancer req r \<Rightarrow> \<exists>es. h = hist s @ es \<and> noneKnown t (lbStatus s) es
    | EvDeleteLoadBalancer l r \<Rightarrow>
        \<exists>es. h = hist s @ es \<and> createdIn es l \<and> EvWaitForLBActive l (Inl ErrorLoadBalancerStatusError) \<in> set es
    | EvResizeLoadBalancer l p r \<Rightarrow> sp_PackageId (t_Spec t) = Some p
    | _ \<Rightarrow> True)) (deploy t) s"
  by (rule safe_emits_mono[OF safe_deploy_lifecycle]) (auto split: event.splits)

section \<open>What is on record before anything else\<close>

text \<open>In the run \<open>es\<close>, the API server returned, or accepted, an object whose status satisfies \<open>Q\<close>.\<close>

definition statusHeld :: "(LoadBalancerConfigStatus \<Rightarrow> bool) \<Rightarrow> event list \<Rightarrow> bool" where
  "statusHeld Q es \<longleftrightarrow>
     (\<exists>ns n obj. EvGetLBC ns n (Inr obj) \<in> set es \<and> Q (lbc_Status obj))
     \<or> (\<exists>obj obj'. EvPatchStatus obj obj' (Inr ()) \<in> set es \<and> Q (lbc_Status obj'))"

lemma statusHeld_append: "statusHeld Q es \<Longrightarrow> statusHeld Q (es @ es')"
  unfolding statusHeld_def by auto

lemma PatchMutateStatus_held:
  assumes "PatchMutateStatus t (statusMut f) s = (Inr u, s')"
    and "\<And>x x' c. f x = (c, x') \<Longrightarrow> Q x'" and "\<And>x x'. f x = (False, x') \<Longrightarrow> x' = x"
  shows "\<exists>es. hist s' = hist s @ es \<and> statusHeld Q es"
proof -
  from PatchMutateStatus_success[OF assms(1)] obtain es obj changed obj' where 1: "hist s' = hist s @ es"
    "EvGetLBC (om_Namespace (t_Meta t)) (om_Name (t_Meta t)) (Inr obj) \<in> set es"
    "statusMut f obj = (changed, obj', u)" "changed \<longrightarrow> EvPatchStatus obj obj' (Inr ()) \<in> set es" by blast
  then obtain x' where x': "f (lbc_Status obj) = (changed, x')" "lbc_Status obj' = x'"
    by (auto simp: statusMut_def split: prod.splits)
  show ?thesis
  proof (cases changed)
    case True
    with 1 x' assms(2) show ?thesis unfolding statusHeld_def by blast
  next
    case False
    with x' assms(2,3) have "Q (lbc_Status obj)" by metis
    with 1 show ?thesis unfolding statusHeld_def by blast
  qed
qed

lemma safe_emits_any: "safe (emitsR (\<lambda>_ _. True)) m s \<Longrightarrow> (\<And>es e. P (hist s @ es) e) \<Longrightarrow> safe (emitsR P) m s"
  by (rule safe_emits_from)

fun isStatusCall :: "event \<Rightarrow> bool" where
  "isStatusCall (EvGetLBC ns n r) = True"
| "isStatusCall (EvPatchStatus obj obj' r) = True"
| "isStatusCall _ = False"

text \<open>
  A load balancer that was created is on record as ours before anything else can fail: once the
  cloud has answered a creation with an id, \<open>createLoadBalancer\<close> makes no call but those on the
  status until the API server holds that id as \<open>status.createdLoadBalancerId\<close> - whatever the rest of
  the run does and however it ends.
\<close>

theorem createLoadBalancer_records_first:
  assumes "requestLoadBalancer t certs s = (Inr lb, s1)"
  shows "\<exists>es. hist (snd (createLoadBalancer t certs s)) = hist s1 @ es
    \<and> (\<forall>pre e post. es = pre @ e # post \<longrightarrow>
         isStatusCall e \<or> statusHeld (\<lambda>st. ss_CreatedLoadBalancerId st = Some (elb_UUID lb)) pre)"
proof -
  let ?Q = "\<lambda>st. ss_CreatedLoadBalancerId st = Some (elb_UUID lb)"
  let ?P = "\<lambda>h e. isStatusCall e \<or> (\<exists>es. h = hist s1 @ es \<and> statusHeld ?Q es)"
  have own: "own_status ?P t" by (simp add: own_status_def)
  have rest: "safe (emitsR ?P) m s3"
    if "statusSetCreatedLoadBalancerId t (elb_UUID lb) s1 = (Inr u, s2)" "emitsR ?P s2 s3" "safe (emitsR (\<lambda>_ _. True)) m s3"
    for u s2 s3 and m :: "'b M"
  proof -
    from that(1) obtain u' s2' where p: "PatchMutateStatus t (statusMut (\<lambda>s.
       if ss_CreatedLoadBalancerId s = Some (elb_UUID lb) then (False, s)
       else (True, s\<lparr>ss_CreatedLoadBalancerId := Some (elb_UUID lb)\<rparr>))) s1 = (Inr u', s2')" "hist s2 = hist s2'"
      unfolding statusSetCreatedLoadBalancerId_def by (auto simp: andThen_Inr_iff)
    have "\<exists>es. hist s2' = hist s1 @ es \<and> statusHeld ?Q es"
      by (rule PatchMutateStatus_held[OF p(1)]) (auto split: if_splits)
    with p(2) obtain es where es: "hist s2 = hist s1 @ es" "statusHeld ?Q es" by auto
    from emitsR_hist[OF that(2)] es(1) obtain es' where "hist s3 = hist s1 @ es @ es'" by auto
    then show ?thesis
      using es(2) by (intro safe_emits_any[OF that(3)]) (auto intro: statusHeld_append)
  qed
  have true: "own_status (\<lambda>_ _. True) t" by (simp add: own_status_def)
  have ens: "safe (emitsR (\<lambda>_ _. True)) (ensureExistLoadBalancer t l x) s'" for l x s'
    by (rule safe_emits_mono[OF safe_ensureExistLoadBalancer]) simp
  have await: "safe (emitsR (\<lambda>_ _. True)) (awaitCreated t lb) s'" for s'
    unfolding awaitCreated_def WaitForLBActive_def DeleteLoadBalancer_def
    by (intro emits_struct safe_emits_status_ops true ens safe_emits_call) simp_all
  have "safe (emitsR ?P) (andThen (statusSetCreatedLoadBalancerId t (elb_UUID lb)) (\<lambda>_. awaitCreated t lb)) s1"
    by (rule emits.safe_andThen, rule safe_emits_status_ops(8)[OF own], rule rest[OF _ emits.R_refl await])
  moreover have "createLoadBalancer t certs s = andThen (statusSetCreatedLoadBalancerId t (elb_UUID lb)) (\<lambda>_. awaitCreated t lb) s1"
    using assms by (simp add: createLoadBalancer_def andThen_def)
  ultimately obtain es where "hist (snd (createLoadBalancer t certs s)) = hist s1 @ es"
    "\<forall>pre e post. es = pre @ e # post \<longrightarrow> ?P (hist s1 @ pre) e"
    unfolding safe_def emitsR_def by auto
  then show ?thesis by (intro exI[of _ es]) auto
qed

definition ex_lb :: entity_LoadBalancer where
  "ex_lb = \<lparr>elb_UUID = ''lb-9'', elb_Name = ''lb'', elb_Address = ''10.0.0.9'', elb_Type = ''Layer 4'',
     elb_PrivateSubnetID = ''sub-1'', elb_BackendSubnetID = [], elb_ZoneID = ''zone-1'', elb_PackageID = ''pkg-1'',
     elb_AutoScalable = False, elb_DisplayStatus = ''ACTIVE'', elb_ProgressStatus = []\<rparr>"

definition ex_create_task :: task where
  "ex_create_task = ex_task\<lparr>t_Spec := ex_spec\<lparr>sp_PackageId := Some ''pkg-1''\<rparr>,
     t_vng := ex_vng\<lparr>api_CreateLoadBalancer := \<lambda>_ _. Inr (Some ex_lb)\<rparr>\<rparr>"

theorem createLoadBalancer_records_first_witness:
  "\<exists>s1 es. requestLoadBalancer ex_create_task [] ex_st = (Inr ex_lb, s1)
    \<and> hist (snd (createLoadBalancer ex_create_task [] ex_st)) = hist s1 @ es
    \<and> (\<forall>pre e post. es = pre @ e # post \<longrightarrow>
         isStatusCall e \<or> statusHeld (\<lambda>st. ss_CreatedLoadBalancerId st = Some ''lb-9'') pre)"
proof -
  obtain s1 where run: "requestLoadBalancer ex_create_task [] ex_st = (Inr ex_lb, s1)"
    by (simp add: requestLoadBalancer_def buildCreateLoadBalancerRequest_def createPackageId_def defaultPoolAndListener_def
        firstPool_def createdEntity_def CreateLoadBalancer_def ex_create_task_def ex_task_def ex_spec_def ex_vng_def ex_sdk_def
        ex_lb_def andThen_def Let_def)
  from createLoadBalancer_records_first[OF run] run show ?thesis by (simp add: ex_lb_def)
qed

section \<open>Migration\<close>

text \<open>A patch that changes which listeners or pools are on record.\<close>

definition changesRecord :: "LoadBalancerConfig \<Rightarrow> LoadBalancerConfig \<Rightarrow> bool" where
  "changesRecord obj obj' \<longleftrightarrow>
     ss_CreatedListeners (lbc_Status obj') \<noteq> ss_CreatedListeners (lbc_Status obj)
     \<or> ss_CreatedPools (lbc_Status obj') \<noteq> ss_CreatedPools (lbc_Status obj)"

definition snapshotFirst :: "string \<Rightarrow> LoadBalancerConfigStatus \<Rightarrow> history \<Rightarrow> history \<Rightarrow> event \<Rightarrow> bool" where
  "snapshotFirst oldId status h0 h e =
     (case e of
        EvPatchStatus obj obj' r \<Rightarrow> changesRecord obj obj' \<longrightarrow>
          (\<exists>es. h = h0 @ es \<and> statusHeld (\<lambda>st. ss_RetiringLoadBalancer st = Some
             \<lparr>rt_Id = oldId, rt_CreatedListeners = ss_CreatedListeners status, rt_CreatedPools = ss_CreatedPools status,
              rt_CreatedTags = ss_CreatedTags status\<rparr>) es)
      | EvDeleteListener _ _ _ \<Rightarrow> False | EvDeletePool _ _ _ \<Rightarrow> False | EvDeletePolicy _ _ _ _ \<Rightarrow> False
      | EvUpdateListener _ _ _ _ \<Rightarrow> False | EvUpdatePoolMembers _ _ _ _ \<Rightarrow> False
      | EvDeleteLoadBalancer _ _ \<Rightarrow> False
      | _ \<Rightarrow> True)"

lemma safe_snapshot_patch:
  assumes "\<And>x c x'. f x = (c, x') \<Longrightarrow> ss_CreatedListeners x' = ss_CreatedListeners x \<and> ss_CreatedPools x' = ss_CreatedPools x"
  shows "safe (emitsR (snapshotFirst oldId status h0)) (PatchMutateStatus t (statusMut f)) s"
  unfolding PatchMutateStatus_def
  by (rule safe_emits_patchMutateStatusObject)
    (auto simp: snapshotFirst_def changesRecord_def statusMut_def dest: assms split: prod.splits)

text \<open>
  C25. A migration loses no record and takes nothing down: until the API server holds the snapshot of
  everything this LBC created on the old load balancer, \<open>migrateLoadBalancer\<close> patches no status that
  changes which listeners or pools are on record; and it deletes and updates nothing on the old load
  balancer, which keeps serving.
\<close>

theorem migrateLoadBalancer_snapshots:
  "safe (emitsR (snapshotFirst oldId (lbStatus s) (hist s))) (migrateLoadBalancer t oldId newId) s"
proof -
  let ?P = "snapshotFirst oldId (lbStatus s) (hist s)"
  let ?snap = "Some \<lparr>rt_Id = oldId, rt_CreatedListeners = ss_CreatedListeners (lbStatus s),
    rt_CreatedPools = ss_CreatedPools (lbStatus s), rt_CreatedTags = ss_CreatedTags (lbStatus s)\<rparr>"
  have adopt: "safe (emitsR ?P) (statusSetAdoptedLoadBalancerId t newId) s'" for s'
    unfolding statusSetAdoptedLoadBalancerId_def
    by (intro emits_struct safe_snapshot_patch) (auto split: if_splits)
  have retire: "safe (emitsR ?P) (statusSetRetiringLoadBalancer t x) s'" for x s'
    unfolding statusSetRetiringLoadBalancer_def
    by (intro emits_struct safe_snapshot_patch) (auto split: if_splits)
  have rest: "safe (emitsR ?P) (andThen (statusClearCreatedResources t) (\<lambda>_. ensureExistLoadBalancer t newId None)) s3"
    if a: "statusSetAdoptedLoadBalancerId t newId s = (Inr u, s1)" "emitsR ?P s s1"
      and g: "getS lbStatus s1 = (Inr status, s2)"
      and r: "statusSetRetiringLoadBalancer t (Some \<lparr>rt_Id = oldId, rt_CreatedListeners = ss_CreatedListeners status,
        rt_CreatedPools = ss_CreatedPools status, rt_CreatedTags = ss_CreatedTags status\<rparr>) s2 = (Inr u2, s3)"
    for u s1 status s2 u2 s3
  proof -
    obtain s1' where "PatchMutateStatus t (statusMut (\<lambda>s. if ss_AdoptedLoadBalancerId s = Some newId then (False, s)
        else (True, s\<lparr>ss_AdoptedLoadBalancerId := Some newId\<rparr>))) s = (Inr (), s1')"
      "lbStatus s1 = lbStatus s1'\<lparr>ss_AdoptedLoadBalancerId := Some newId\<rparr>"
      using a(1) unfolding statusSetAdoptedLoadBalancerId_def by (auto simp: andThen_Inr_iff)
    with keeps.safeD[OF safe_keeps_PatchMutateStatus this(1)] g
    have "status = lbStatus s\<lparr>ss_AdoptedLoadBalancerId := Some newId\<rparr>" "s2 = s1" by (auto simp: keepsR_def)
    then have st: "ss_CreatedListeners status = ss_CreatedListeners (lbStatus s)" "ss_CreatedPools status = ss_CreatedPools (lbStatus s)"
      "ss_CreatedTags status = ss_CreatedTags (lbStatus s)" "s2 = s1" by simp_all
    obtain s3' where p: "PatchMutateStatus t (statusMut (\<lambda>s.
       if ss_RetiringLoadBalancer s = None \<and> ?snap = None then (False, s)
       else (True, s\<lparr>ss_RetiringLoadBalancer := ?snap\<rparr>))) s1 = (Inr (), s3')" "hist s3 = hist s3'"
      using r unfolding statusSetRetiringLoadBalancer_def st by (auto simp: andThen_Inr_iff)
    have "\<exists>es. hist s3' = hist s1 @ es \<and> statusHeld (\<lambda>st. ss_RetiringLoadBalancer st = ?snap) es"
      by (rule PatchMutateStatus_held[OF p(1)]) (auto split: if_splits)
    with p(2) emitsR_hist[OF a(2)] obtain es es' where es: "hist s3 = hist s @ es @ es'"
      "statusHeld (\<lambda>st. ss_RetiringLoadBalancer st = ?snap) es'" by auto
    then have held: "statusHeld (\<lambda>st. ss_RetiringLoadBalancer st = ?snap) (es @ es' @ es'')" for es''
      unfolding statusHeld_def by auto
    have "safe (emitsR (\<lambda>_. ensureCalls t newId))
        (andThen (statusClearCreatedResources t) (\<lambda>_. ensureExistLoadBalancer t newId None)) s3"
      by (intro emits.safe_andThen safe_emits_status_ops own_status_ensureCalls safe_ensureCalls)
    then show ?thesis
      by (rule safe_emits_from)
        (use es(1) held in \<open>auto simp: snapshotFirst_def ensureCalls_def split: event.splits\<close>)
  qed
  show ?thesis
    unfolding migrateLoadBalancer_def
    by (rule emits.safe_andThen, rule adopt, rule emits.safe_andThen, rule emits.safe_getS, rule emits.safe_andThen, rule retire)
      (rule rest; assumption)
qed

end
