(* ===== verification/LB_Delete.thy ===== *)
theory LB_Delete
  imports LB_Deploy
begin

text \<open>
  Tearing down: \<^verbatim>\<open>internal/usecase/lbc_uc/delete_lb.go\<close>. What decides whether a load balancer lives is
  who created it and who still uses it, read past the tag cache, and whether anything is left on it.
\<close>

section \<open>Whose it is\<close>

definition looksLastOutOf :: "task \<Rightarrow> gomap \<Rightarrow> bool" where
  "looksLastOutOf t currentTags =
     (case map_of currentTags CreatedByClusterTagKey of
        None \<Rightarrow> False
      | Some createdBy \<Rightarrow>
          if \<not> isValidVksId createdBy then False
          else case sp_ClusterId (t_Spec t) of
                 None \<Rightarrow> False
               | Some cid \<Rightarrow>
                   if \<not> isValidVksId cid then False
                   else let users = map_get currentTags ClusterTagKey in
                        if cid \<notin> set (Split ClusterTagValueSeparator users) then False
                        else removeTagValue users cid ClusterTagValueSeparator = [])"

definition lastClusterOutOf :: "task \<Rightarrow> string \<Rightarrow> gomap \<Rightarrow> bool M" where
  "lastClusterOutOf t lbId currentTags =
     (if \<not> looksLastOutOf t currentTags then returnM False
      else andThen (loadBalancerHasOtherLBC t lbId) (\<lambda>hasOther. returnM (\<not> hasOther)))"

section \<open>What is on it\<close>

primrec canCover :: "'t list \<Rightarrow> 'u list \<Rightarrow> ('t list \<Rightarrow> 'u \<Rightarrow> bool M) \<Rightarrow> bool M" where
  "canCover bigOne [] isExist = returnM True"
| "canCover bigOne (b # smallOne) isExist =
     andThen (isExist bigOne b) (\<lambda>exist. if \<not> exist then returnM False else canCover bigOne smallOne isExist)"

text \<open>\<open>covered, _ := canCover(...)\<close>: an error counts as not covered.\<close>

definition ignoreErr :: "bool M \<Rightarrow> bool M" where
  "ignoreErr m = andThen (attempt m) (\<lambda>r. returnM (case r of Inl _ \<Rightarrow> False | Inr b \<Rightarrow> b))"

definition policyRecorded :: "CreatedPolicy list \<Rightarrow> entity_Policy \<Rightarrow> bool M" where
  "policyRecorded a b = returnM (list_ex (\<lambda>oldP. cpol_Id oldP = epol_UUID b) a)"

definition listenerRecorded :: "task \<Rightarrow> string \<Rightarrow> string \<Rightarrow> CreatedListener list \<Rightarrow> entity_Listener \<Rightarrow> bool M" where
  "listenerRecorded t lbId lbType a b =
     (case find (\<lambda>oldL. cl_Id oldL = el_UUID b) a of
        None \<Rightarrow> returnM False
      | Some createdListener \<Rightarrow>
          if lbType = LoadBalancerTypeLayer4 (t_sdk t) then returnM True
          else andThen (ListPolicyOfListener t lbId (cl_Id createdListener)) (\<lambda>currentPolicies.
                 ignoreErr (canCover (cl_CreatedPolicies createdListener) currentPolicies policyRecorded)))"

definition memberRecorded :: "PoolMember list \<Rightarrow> entity_Member \<Rightarrow> bool M" where
  "memberRecorded a b = returnM (checkIfPoolMemberExist a (convertMember b))"

definition poolRecorded :: "task \<Rightarrow> string \<Rightarrow> CreatedPool list \<Rightarrow> entity_Pool \<Rightarrow> bool M" where
  "poolRecorded t lbId a b =
     (case find (\<lambda>oldP. cp_Id oldP = ep_UUID b) a of
        None \<Rightarrow> returnM False
      | Some createPool \<Rightarrow>
          andThen (GetPoolMembers t lbId (ep_UUID b)) (\<lambda>currentMembers.
            ignoreErr (canCover (cp_CreatedMembers createPool) currentMembers memberRecorded)))"

definition canDeleteWholeLoadBalancer :: "task \<Rightarrow> string \<Rightarrow> string \<Rightarrow> bool M" where
  "canDeleteWholeLoadBalancer t lbId lbType =
     andThen (ListListenerOfLB t lbId) (\<lambda>listeners.
     andThen (getS lbStatus) (\<lambda>status.
     andThen (canCover (ss_CreatedListeners status) listeners (listenerRecorded t lbId lbType)) (\<lambda>canCoverListener.
       if \<not> canCoverListener then returnM False
       else andThen (ListPool t lbId) (\<lambda>pools.
            andThen (canCover (ss_CreatedPools status) pools (poolRecorded t lbId)) (\<lambda>canCoverPool.
              returnM canCoverPool)))))"

definition isLoadBalancerEmpty :: "task \<Rightarrow> string \<Rightarrow> bool M" where
  "isLoadBalancerEmpty t lbId =
     andThen (ListListenerOfLB t lbId) (\<lambda>listeners.
       if listeners \<noteq> [] then returnM False
       else andThen (ListPool t lbId) (\<lambda>pools. returnM (pools = [])))"

section \<open>The teardown\<close>

text \<open>The branch taken when the load balancer cannot go as a whole.\<close>

definition clearThenDecide :: "task \<Rightarrow> string \<Rightarrow> bool \<Rightarrow> bool \<Rightarrow> unit M" where
  "clearThenDecide t lbId createdHere ours =
     andThen (deleteRedundantListeners t lbId [] []) (\<lambda>_.
     andThen (deleteRedundantPools t lbId []) (\<lambda>_.
     andThen (isLoadBalancerEmpty t lbId) (\<lambda>isEmpty.
     andThen
       (if isEmpty \<and> \<not> createdHere
        then andThen (InvalidateTagsCache t lbId) (\<lambda>_.
             andThen (ListTags t lbId) (\<lambda>fresh. lastClusterOutOf t lbId (tagsToMap fresh)))
        else returnM ours) (\<lambda>ours.
       if isEmpty \<and> ours then DeleteLoadBalancer t lbId else deleteRedundantTags t lbId))))"

definition deleteLoadBalancer :: "task \<Rightarrow> string \<Rightarrow> unit M" where
  "deleteLoadBalancer t lbId =
     andThen (attempt (GetLoadBalancerByID t lbId)) (\<lambda>r.
       case r of
         Inl err \<Rightarrow> if IsLoadBalancerNotFound err then returnM () else failM err
       | Inr _ \<Rightarrow>
           andThen (InvalidateTagsCache t lbId) (\<lambda>_.
           andThen (ListTags t lbId) (\<lambda>tags.
           andThen (getS (\<lambda>s. createdByThisCluster (t_Spec t) (lbStatus s) lbId (tagsToMap tags))) (\<lambda>createdHere.
           andThen (if createdHere then returnM True else lastClusterOutOf t lbId (tagsToMap tags)) (\<lambda>ours.
           andThen (canDeleteWholeLoadBalancer t lbId (sp_Type (t_Spec t))) (\<lambda>canDelete.
             if canDelete \<and> ours then DeleteLoadBalancer t lbId
             else clearThenDecide t lbId createdHere ours))))))"

definition delete :: "task \<Rightarrow> unit M" where
  "delete t =
     andThen (retireOld t) (\<lambda>_.
     andThen (getS lbStatus) (\<lambda>status.
       if \<not> nonempty (ss_LoadBalancerId status) then returnM ()
       else deleteLoadBalancer t (deref (ss_LoadBalancerId status))))"

section \<open>Reads that decide\<close>

text \<open>
  The run read these tags past the cache and has changed nothing in the cloud since.
\<close>

definition readThrough :: "string \<Rightarrow> entity_Tag option list \<Rightarrow> event list \<Rightarrow> event list \<Rightarrow> bool" where
  "readThrough lbId tags es since \<longleftrightarrow>
     (\<exists>before. es = before @ [EvInvalidateTagsCache lbId, EvListTags lbId (Inr tags)] @ since)"

definition noWrites :: "event list \<Rightarrow> bool" where
  "noWrites es \<longleftrightarrow> (\<forall>e \<in> set es. \<not> isCloudWrite e)"

text \<open>
  The cluster may delete it: by tags read past the cache it created it, or - nothing having been
  changed since the read - it is the last cluster on a load balancer some cluster created, and no
  other LBC of this cluster uses it.
\<close>

definition mayDelete :: "task \<Rightarrow> LoadBalancerConfigStatus \<Rightarrow> string \<Rightarrow> event list \<Rightarrow> bool" where
  "mayDelete t status lbId es \<longleftrightarrow>
     (\<exists>tags since. readThrough lbId tags es since
        \<and> (createdByThisCluster (t_Spec t) status lbId (tagsToMap tags)
           \<or> noWrites since \<and> looksLastOutOf t (tagsToMap tags)
             \<and> (\<exists>all. EvListLBC (Inr all) \<in> set since \<and> \<not> usedByOther t lbId all)))"

definition listenersRecorded :: "task \<Rightarrow> LoadBalancerConfigStatus \<Rightarrow> string \<Rightarrow> event list \<Rightarrow> bool" where
  "listenersRecorded t status lbId es \<longleftrightarrow>
     (\<exists>ls. EvListListenerOfLB lbId (Inr ls) \<in> set es \<and>
        (\<forall>l \<in> set ls. \<exists>c \<in> set (ss_CreatedListeners status). cl_Id c = el_UUID l
           \<and> (sp_Type (t_Spec t) \<noteq> LoadBalancerTypeLayer4 (t_sdk t) \<longrightarrow>
               (\<exists>pols. EvListPolicyOfListener lbId (el_UUID l) (Inr pols) \<in> set es
                  \<and> epol_UUID ` set pols \<subseteq> cpol_Id ` set (cl_CreatedPolicies c)))))"

definition poolsRecorded :: "LoadBalancerConfigStatus \<Rightarrow> string \<Rightarrow> event list \<Rightarrow> bool" where
  "poolsRecorded status lbId es \<longleftrightarrow>
     (\<exists>ps. EvListPool lbId (Inr ps) \<in> set es \<and>
        (\<forall>p \<in> set ps. \<exists>c \<in> set (ss_CreatedPools status). cp_Id c = ep_UUID p
           \<and> (\<exists>ms. EvGetPoolMembers lbId (ep_UUID p) (Inr ms) \<in> set es
                \<and> (\<forall>m \<in> set ms. memberKey (convertMember m) \<in> memberKey ` set (cp_CreatedMembers c)))))"

definition readEmpty :: "string \<Rightarrow> event list \<Rightarrow> bool" where
  "readEmpty lbId es \<longleftrightarrow> EvListListenerOfLB lbId (Inr []) \<in> set es \<and> EvListPool lbId (Inr []) \<in> set es"

lemma canCover_True:
  assumes "canCover big small f s = (Inr True, s')"
    and "\<And>b s s'. b \<in> set small \<Longrightarrow> f big b s = (Inr True, s') \<Longrightarrow> \<exists>es. hist s' = hist s @ es \<and> Q b (set es)"
    and "\<And>b E E'. Q b E \<Longrightarrow> E \<subseteq> E' \<Longrightarrow> Q b E'"
  shows "\<exists>es. hist s' = hist s @ es \<and> (\<forall>b \<in> set small. Q b (set es))"
  using assms(1,2)
proof (induction small arbitrary: s)
  case (Cons b small)
  from Cons.prems(1) obtain s1 where 1: "f big b s = (Inr True, s1)" and 2: "canCover big small f s1 = (Inr True, s')"
    by (auto simp: andThen_Inr_iff split: if_splits)
  from Cons.prems(2)[OF _ 1] obtain e1 where e1: "hist s1 = hist s @ e1" "Q b (set e1)" by auto
  from Cons.IH[OF 2] Cons.prems(2) obtain e2 where e2: "hist s' = hist s1 @ e2" "\<forall>b \<in> set small. Q b (set e2)" by auto
  from e1 e2 assms(3) show ?case by (intro exI[of _ "e1 @ e2"]) (auto; blast)
qed simp

text \<open>A cover test that does not read anything.\<close>

lemma canCover_pure:
  "(\<And>b. f big b = returnM (P b)) \<Longrightarrow> canCover big small f = returnM (list_all P small)"
  by (induction small) (auto simp: fun_eq_iff andThen_def)

lemma ignoreErr_return [simp]: "ignoreErr (returnM b) = returnM b"
  by (simp add: ignoreErr_def fun_eq_iff andThen_def attempt_def)

lemma listenerRecorded_True:
  assumes "listenerRecorded t lbId ty a b s = (Inr True, s')"
  shows "\<exists>es. hist s' = hist s @ es \<and> (\<exists>c \<in> set a. cl_Id c = el_UUID b
     \<and> (ty \<noteq> LoadBalancerTypeLayer4 (t_sdk t) \<longrightarrow>
         (\<exists>pols. EvListPolicyOfListener lbId (el_UUID b) (Inr pols) \<in> set es
            \<and> epol_UUID ` set pols \<subseteq> cpol_Id ` set (cl_CreatedPolicies c))))"
proof -
  from assms obtain c where c: "find (\<lambda>oldL. cl_Id oldL = el_UUID b) a = Some c"
    unfolding listenerRecorded_def by (auto split: option.splits)
  note mem = find_key_SomeD[OF c]
  show ?thesis
  proof (cases "ty = LoadBalancerTypeLayer4 (t_sdk t)")
    case True
    with assms c mem show ?thesis unfolding listenerRecorded_def by (intro exI[of _ "[]"]) auto
  next
    case False
    with assms c mem obtain pols where p: "s' = s\<lparr>hist := hist s @ [EvListPolicyOfListener lbId (el_UUID b) (Inr pols)]\<rparr>"
      "list_all (\<lambda>p. list_ex (\<lambda>oldP. cpol_Id oldP = epol_UUID p) (cl_CreatedPolicies c)) pols"
      unfolding listenerRecorded_def ListPolicyOfListener_def
      by (auto simp: andThen_Inr_iff canCover_pure[of policyRecorded, OF policyRecorded_def])
    from p(2) have "epol_UUID ` set pols \<subseteq> cpol_Id ` set (cl_CreatedPolicies c)"
      unfolding list_all_iff list_ex_iff by (metis image_eqI image_subsetI)
    with mem p(1) show ?thesis
      by (intro exI[of _ "[EvListPolicyOfListener lbId (el_UUID b) (Inr pols)]"]) auto
  qed
qed

lemma poolRecorded_True:
  assumes "poolRecorded t lbId a b s = (Inr True, s')"
  shows "\<exists>es. hist s' = hist s @ es \<and> (\<exists>c \<in> set a. cp_Id c = ep_UUID b
     \<and> (\<exists>ms. EvGetPoolMembers lbId (ep_UUID b) (Inr ms) \<in> set es
          \<and> (\<forall>m \<in> set ms. memberKey (convertMember m) \<in> memberKey ` set (cp_CreatedMembers c))))"
proof -
  from assms obtain c where c: "find (\<lambda>oldP. cp_Id oldP = ep_UUID b) a = Some c"
    unfolding poolRecorded_def by (auto split: option.splits)
  with assms obtain ms where
    "s' = s\<lparr>hist := hist s @ [EvGetPoolMembers lbId (ep_UUID b) (Inr ms)]\<rparr>"
    "list_all (\<lambda>m. checkIfPoolMemberExist (cp_CreatedMembers c) (convertMember m)) ms"
    unfolding poolRecorded_def GetPoolMembers_def
    by (auto simp: andThen_Inr_iff canCover_pure[of memberRecorded, OF memberRecorded_def] simp del: exist_iff)
  with find_key_SomeD[OF c] show ?thesis
    by (intro exI[of _ "[EvGetPoolMembers lbId (ep_UUID b) (Inr ms)]"]) (auto simp: list_all_iff)
qed

section \<open>What a teardown calls\<close>

definition noWrite :: "history \<Rightarrow> event \<Rightarrow> bool" where
  "noWrite h e \<longleftrightarrow> (case e of EvPatchMeta _ _ _ \<Rightarrow> False | _ \<Rightarrow> \<not> isCloudWrite e)"

lemma noWriteD: "noWrite h e \<Longrightarrow> \<not> isCloudWrite e"
  by (simp add: noWrite_def split: event.splits)

lemma safe_reads:
  "safe (emitsR noWrite) (lastClusterOutOf t lbId tags) s"
  "safe (emitsR noWrite) (isLoadBalancerEmpty t lbId) s"
  "safe (emitsR noWrite) (canDeleteWholeLoadBalancer t lbId ty) s"
proof -
  have list: "safe (emitsR noWrite) (canCover big small f) s"
    if "\<And>b s. safe (emitsR noWrite) (f big b) s" for big :: "'x list" and small :: "'y list" and f s
    using that by (induction small arbitrary: s) (auto intro!: emits_struct)
  have pure: "canCover big small policyRecorded = returnM (list_all (\<lambda>b. list_ex (\<lambda>o'. cpol_Id o' = epol_UUID b) big) small)"
    "canCover big' small' memberRecorded = returnM (list_all (\<lambda>b. checkIfPoolMemberExist big' (convertMember b)) small')"
    for big small big' small'
    by (rule canCover_pure; simp add: policyRecorded_def memberRecorded_def del: exist_iff)+
  show "safe (emitsR noWrite) (lastClusterOutOf t lbId tags) s"
    unfolding lastClusterOutOf_def
    by (intro emits_struct safe_emits_loadBalancerHasOtherLBC) (simp add: noWrite_def isCloudWrite_def)
  show "safe (emitsR noWrite) (isLoadBalancerEmpty t lbId) s"
    unfolding isLoadBalancerEmpty_def ListListenerOfLB_def ListPool_def
    by (intro emits_struct safe_emits_call) (simp_all add: noWrite_def isCloudWrite_def)
  show "safe (emitsR noWrite) (canDeleteWholeLoadBalancer t lbId ty) s"
    unfolding canDeleteWholeLoadBalancer_def listenerRecorded_def poolRecorded_def pure ignoreErr_return
      ListListenerOfLB_def ListPool_def ListPolicyOfListener_def GetPoolMembers_def
    by (intro emits_struct safe_emits_call list) (simp_all add: noWrite_def isCloudWrite_def)
qed

lemma noWrites_trace: "safe (emitsR noWrite) m s \<Longrightarrow> m s = (r, s') \<Longrightarrow> \<exists>es. hist s' = hist s @ es \<and> noWrites es"
  unfolding safe_def emitsR_def noWrites_def by (metis noWriteD snd_conv split_list)

lemma canDeleteWholeLoadBalancer_True:
  assumes "canDeleteWholeLoadBalancer t lbId (sp_Type (t_Spec t)) s = (Inr True, s')"
  shows "\<exists>es. hist s' = hist s @ es \<and> noWrites es
    \<and> listenersRecorded t (lbStatus s) lbId es \<and> poolsRecorded (lbStatus s) lbId es"
proof -
  let ?ty = "sp_Type (t_Spec t)"
  from assms obtain ls ps s2 s3 where
    1: "canCover (ss_CreatedListeners (lbStatus s)) ls (listenerRecorded t lbId ?ty)
          (s\<lparr>hist := hist s @ [EvListListenerOfLB lbId (Inr ls)]\<rparr>) = (Inr True, s2)"
    and 2: "s3 = s2\<lparr>hist := hist s2 @ [EvListPool lbId (Inr ps)]\<rparr>"
    and 3: "canCover (ss_CreatedPools (lbStatus s)) ps (poolRecorded t lbId) s3 = (Inr True, s')"
    unfolding canDeleteWholeLoadBalancer_def ListListenerOfLB_def ListPool_def
    by (auto simp: andThen_Inr_iff split: if_splits)
  let ?QL = "\<lambda>b E. \<exists>c \<in> set (ss_CreatedListeners (lbStatus s)). cl_Id c = el_UUID b
     \<and> (?ty \<noteq> LoadBalancerTypeLayer4 (t_sdk t) \<longrightarrow>
         (\<exists>pols. EvListPolicyOfListener lbId (el_UUID b) (Inr pols) \<in> E
            \<and> epol_UUID ` set pols \<subseteq> cpol_Id ` set (cl_CreatedPolicies c)))"
  let ?QP = "\<lambda>b E. \<exists>c \<in> set (ss_CreatedPools (lbStatus s)). cp_Id c = ep_UUID b
     \<and> (\<exists>ms. EvGetPoolMembers lbId (ep_UUID b) (Inr ms) \<in> E
          \<and> (\<forall>m \<in> set ms. memberKey (convertMember m) \<in> memberKey ` set (cp_CreatedMembers c)))"
  have "\<exists>es. hist s2 = hist (s\<lparr>hist := hist s @ [EvListListenerOfLB lbId (Inr ls)]\<rparr>) @ es \<and> (\<forall>b \<in> set ls. ?QL b (set es))"
    by (rule canCover_True[OF 1], erule listenerRecorded_True, blast)
  then obtain e1 where
    e1: "hist s2 = hist s @ EvListListenerOfLB lbId (Inr ls) # e1" "\<forall>b \<in> set ls. ?QL b (set e1)" by auto
  have "\<exists>es. hist s' = hist s3 @ es \<and> (\<forall>b \<in> set ps. ?QP b (set es))"
    by (rule canCover_True[OF 3], erule poolRecorded_True, blast)
  then obtain e2 where
    e2: "hist s' = hist s2 @ EvListPool lbId (Inr ps) # e2" "\<forall>b \<in> set ps. ?QP b (set e2)" by (auto simp: 2)
  let ?es = "EvListListenerOfLB lbId (Inr ls) # e1 @ EvListPool lbId (Inr ps) # e2"
  have h: "hist s' = hist s @ ?es" using e1(1) e2(1) by simp
  have "listenersRecorded t (lbStatus s) lbId ?es"
    unfolding listenersRecorded_def
  proof (intro exI[of _ ls] conjI ballI)
    show "?QL b (set ?es)" if "b \<in> set ls" for b using bspec[OF e1(2) that] by (elim bexE conjE) (rule bexI, auto)
  qed simp
  moreover have "poolsRecorded (lbStatus s) lbId ?es"
    unfolding poolsRecorded_def
  proof (intro exI[of _ ps] conjI ballI)
    show "?QP b (set ?es)" if "b \<in> set ps" for b using bspec[OF e2(2) that] by (elim bexE conjE) (rule bexI, auto)
  qed simp
  moreover have "noWrites ?es" using noWrites_trace[OF safe_reads(3) assms] h by auto
  ultimately show ?thesis using h by blast
qed

lemma lastClusterOutOf_True:
  assumes "lastClusterOutOf t lbId tags s = (Inr True, s')"
  shows "looksLastOutOf t tags \<and> (\<exists>all. s' = s\<lparr>hist := hist s @ [EvListLBC (Inr all)]\<rparr> \<and> \<not> usedByOther t lbId all)"
  using assms unfolding lastClusterOutOf_def loadBalancerHasOtherLBC_def ListLoadBalancerConfig_def
  by (auto simp: andThen_Inr_iff split: if_splits)

lemma isLoadBalancerEmpty_True:
  assumes "isLoadBalancerEmpty t lbId s = (Inr True, s')"
  shows "hist s' = hist s @ [EvListListenerOfLB lbId (Inr []), EvListPool lbId (Inr [])]"
  using assms unfolding isLoadBalancerEmpty_def ListListenerOfLB_def ListPool_def
  by (auto simp: andThen_Inr_iff split: if_splits)

lemma readThrough_append: "readThrough lbId tags es since \<Longrightarrow> readThrough lbId tags (es @ es') (since @ es')"
  unfolding readThrough_def by auto

lemma noWrites_append [simp]: "noWrites (xs @ ys) \<longleftrightarrow> noWrites xs \<and> noWrites ys"
  by (auto simp: noWrites_def)

definition lbDeletion :: "task \<Rightarrow> LoadBalancerConfigStatus \<Rightarrow> string \<Rightarrow> history \<Rightarrow> history \<Rightarrow> event \<Rightarrow> bool" where
  "lbDeletion t status lbId h0 h e =
     (case e of
        EvDeleteLoadBalancer l r \<Rightarrow> l = lbId
          \<and> (\<exists>es. h = h0 @ es \<and> mayDelete t status lbId es
               \<and> (listenersRecorded t status lbId es \<and> poolsRecorded status lbId es \<or> readEmpty lbId es))
      | EvPatchMeta _ _ _ \<Rightarrow> False
      | _ \<Rightarrow> True)"

lemma lbDeletion_cleanup:
  "listenerCleanup t' l' st' c nl np h1 h e \<Longrightarrow> lbDeletion t st lbId h0 h e"
  "poolCleanup t' l' c' np h1 h e \<Longrightarrow> lbDeletion t st lbId h0 h e"
  "tagCleanup t' l' rec h1 h e \<Longrightarrow> lbDeletion t st lbId h0 h e"
  "noWrite h e \<Longrightarrow> lbDeletion t st lbId h0 h e"
  by (cases e; simp add: listenerCleanup_def poolCleanup_def tagCleanup_def noWrite_def isCloudWrite_def lbDeletion_def)+

lemma safe_clearing:
  "safe (emitsR (lbDeletion t st lbId h0)) (deleteRedundantListeners t' l nl np) s"
  "safe (emitsR (lbDeletion t st lbId h0)) (deleteRedundantPools t' l np) s"
  "safe (emitsR (lbDeletion t st lbId h0)) (deleteRedundantTags t' l) s"
  unfolding deleteRedundantListeners_def deleteRedundantPools_def deleteRedundantTags_def
  by (intro emits.safe_andThen emits.safe_getS safe_emits_mono[OF safe_deleteRedundantListenersFrom]
      safe_emits_mono[OF safe_deleteRedundantPoolsFrom] safe_emits_mono[OF safe_deleteRedundantTagsFrom];
      erule lbDeletion_cleanup)+

lemma safe_lbDeletion_reads:
  "safe (emitsR (lbDeletion t st lbId h0)) (lastClusterOutOf t' l tags) s"
  "safe (emitsR (lbDeletion t st lbId h0)) (isLoadBalancerEmpty t' l) s"
  "safe (emitsR (lbDeletion t st lbId h0)) (canDeleteWholeLoadBalancer t' l ty) s"
  "safe (emitsR (lbDeletion t st lbId h0)) (InvalidateTagsCache t' l) s"
  "safe (emitsR (lbDeletion t st lbId h0)) (ListTags t' l) s"
  "safe (emitsR (lbDeletion t st lbId h0)) (GetLoadBalancerByID t' l) s"
  by (rule safe_emits_mono[OF safe_reads(1)] safe_emits_mono[OF safe_reads(2)] safe_emits_mono[OF safe_reads(3)],
      erule lbDeletion_cleanup)+
    (unfold InvalidateTagsCache_def ListTags_def GetLoadBalancerByID_def; intro safe_emits_call; simp add: lbDeletion_def)+

lemma safe_clearThenDecide:
  assumes s: "hist s = h0 @ es"
    and created: "createdHere \<Longrightarrow> \<exists>tags since. readThrough lbId tags es since
      \<and> createdByThisCluster (t_Spec t) status lbId (tagsToMap tags)"
  shows "safe (emitsR (lbDeletion t status lbId h0)) (clearThenDecide t lbId createdHere ours) s"
proof -
  let ?P = "lbDeletion t status lbId h0"
  have del: "?P (hist s5) (EvDeleteLoadBalancer lbId r)"
    if s3: "emitsR ?P s s3" and emp: "isLoadBalancerEmpty t lbId s3 = (Inr True, s4)"
      and re: "(if \<not> createdHere
        then andThen (InvalidateTagsCache t lbId) (\<lambda>_.
             andThen (ListTags t lbId) (\<lambda>fresh. lastClusterOutOf t lbId (tagsToMap fresh)))
        else returnM ours) s4 = (Inr True, s5)" for s3 s4 s5 r
  proof -
    from emitsR_hist[OF s3] s isLoadBalancerEmpty_True[OF emp] obtain es1 where
      h4: "hist s4 = h0 @ es @ es1 @ [EvListListenerOfLB lbId (Inr []), EvListPool lbId (Inr [])]" by auto
    show ?thesis
    proof (cases createdHere)
      case True
      from created[OF True] obtain tags since where rd: "readThrough lbId tags es since"
        "createdByThisCluster (t_Spec t) status lbId (tagsToMap tags)" by blast
      let ?es = "es @ es1 @ [EvListListenerOfLB lbId (Inr []), EvListPool lbId (Inr [])]"
      have "mayDelete t status lbId ?es"
        unfolding mayDelete_def using readThrough_append[OF rd(1)] rd(2) by blast
      moreover have "readEmpty lbId ?es" by (simp add: readEmpty_def)
      moreover have "hist s5 = h0 @ ?es" using re True h4 by simp
      ultimately show ?thesis unfolding lbDeletion_def by auto
    next
      case False
      with re obtain fresh s4' where l: "lastClusterOutOf t lbId (tagsToMap fresh) s4' = (Inr True, s5)"
        and h: "hist s4' = hist s4 @ [EvInvalidateTagsCache lbId, EvListTags lbId (Inr fresh)]"
        unfolding InvalidateTagsCache_def ListTags_def by (auto simp: andThen_Inr_iff)
      from lastClusterOutOf_True[OF l] obtain all where ll: "looksLastOutOf t (tagsToMap fresh)"
        "hist s5 = hist s4' @ [EvListLBC (Inr all)]" "\<not> usedByOther t lbId all" by auto
      let ?es = "(es @ es1 @ [EvListListenerOfLB lbId (Inr []), EvListPool lbId (Inr [])])
        @ [EvInvalidateTagsCache lbId, EvListTags lbId (Inr fresh)] @ [EvListLBC (Inr all)]"
      have "readThrough lbId fresh ?es [EvListLBC (Inr all)]" unfolding readThrough_def by blast
      moreover have "noWrites [EvListLBC (Inr all)]" by (simp add: noWrites_def isCloudWrite_def)
      ultimately have "mayDelete t status lbId ?es" unfolding mayDelete_def using ll by (metis list.set_intros(1))
      moreover have "readEmpty lbId ?es" by (simp add: readEmpty_def)
      moreover have "hist s5 = h0 @ ?es" using h4 h ll(2) by simp
      ultimately show ?thesis unfolding lbDeletion_def by auto
    qed
  qed
  show ?thesis
    unfolding clearThenDecide_def DeleteLoadBalancer_def
    by (intro emits_struct safe_clearing safe_lbDeletion_reads safe_emits_call) (auto intro: del emitsR_trans split: if_splits)
qed

lemma safe_deleteLoadBalancer:
  "safe (emitsR (lbDeletion t (lbStatus s) lbId (hist s))) (deleteLoadBalancer t lbId) s"
proof -
  let ?st = "lbStatus s" and ?h0 = "hist s"
  let ?P = "lbDeletion t ?st lbId ?h0"
  let ?ours = "\<lambda>tags. if createdByThisCluster (t_Spec t) ?st lbId (tagsToMap tags) then returnM True
    else lastClusterOutOf t lbId (tagsToMap tags)"
  have start: "hist s3 = ?h0 @ [EvGetLoadBalancerByID lbId (Inr lb), EvInvalidateTagsCache lbId, EvListTags lbId (Inr tags)]
      \<and> lbStatus s3 = ?st"
    if "attempt (GetLoadBalancerByID t lbId) s = (Inr (Inr lb), s1)" "InvalidateTagsCache t lbId s1 = (Inr u, s2)"
      "ListTags t lbId s2 = (Inr tags, s3)" for lb s1 u s2 tags s3
    using that unfolding GetLoadBalancerByID_def InvalidateTagsCache_def ListTags_def by auto
  have tail: "safe (emitsR ?P) (if canDelete \<and> ours then DeleteLoadBalancer t lbId
      else clearThenDecide t lbId (createdByThisCluster (t_Spec t) ?st lbId (tagsToMap tags)) ours) s5"
    if h3: "hist s3 = ?h0 @ [EvGetLoadBalancerByID lbId (Inr lb), EvInvalidateTagsCache lbId, EvListTags lbId (Inr tags)]"
        "lbStatus s3 = ?st"
      and own: "?ours tags s3 = (Inr ours, s4)"
      and can: "canDeleteWholeLoadBalancer t lbId (sp_Type (t_Spec t)) s4 = (Inr canDelete, s5)"
    for lb tags s3 ours s4 canDelete s5
  proof -
    let ?pre = "[EvGetLoadBalancerByID lbId (Inr lb), EvInvalidateTagsCache lbId, EvListTags lbId (Inr tags)]"
    let ?made = "createdByThisCluster (t_Spec t) ?st lbId (tagsToMap tags)"
    have o: "\<exists>es. hist s4 = hist s3 @ es \<and> noWrites es \<and> lbStatus s4 = ?st
        \<and> (ours \<longrightarrow> ?made \<or> looksLastOutOf t (tagsToMap tags) \<and> (\<exists>all. EvListLBC (Inr all) \<in> set es \<and> \<not> usedByOther t lbId all))"
    proof (cases ?made)
      case True
      with own h3(2) show ?thesis by (auto simp: noWrites_def)
    next
      case False
      with own have run: "lastClusterOutOf t lbId (tagsToMap tags) s3 = (Inr ours, s4)" by simp
      obtain es where es: "hist s4 = hist s3 @ es" "noWrites es"
        using noWrites_trace[OF safe_reads(1) run] by blast
      have "lbStatus s4 = ?st"
        using run h3(2) unfolding lastClusterOutOf_def loadBalancerHasOtherLBC_def ListLoadBalancerConfig_def
        by (auto simp: andThen_Inr_iff split: if_splits)
      with es lastClusterOutOf_True[of t lbId "tagsToMap tags" s3 s4] run show ?thesis
        by (intro exI[of _ es]) auto
    qed
    then obtain e1 where e1: "hist s4 = hist s3 @ e1" "noWrites e1" "lbStatus s4 = ?st"
      "ours \<Longrightarrow> ?made \<or> looksLastOutOf t (tagsToMap tags) \<and> (\<exists>all. EvListLBC (Inr all) \<in> set e1 \<and> \<not> usedByOther t lbId all)" by blast
    have rd: "readThrough lbId tags (?pre @ es) es" for es
      unfolding readThrough_def by (intro exI[of _ "[EvGetLoadBalancerByID lbId (Inr lb)]"]) simp
    show ?thesis
    proof (cases "canDelete \<and> ours")
      case True
      with can have run: "canDeleteWholeLoadBalancer t lbId (sp_Type (t_Spec t)) s4 = (Inr True, s5)" by simp
      from canDeleteWholeLoadBalancer_True[OF run] e1(3) obtain e2 where e2: "hist s5 = hist s4 @ e2" "noWrites e2"
        "listenersRecorded t ?st lbId e2" "poolsRecorded ?st lbId e2" by auto
      let ?es = "?pre @ e1 @ e2"
      have "mayDelete t ?st lbId ?es"
        unfolding mayDelete_def using rd[of "e1 @ e2"] e1(2,4) e2(2) True by fastforce
      moreover have "listenersRecorded t ?st lbId ?es" "poolsRecorded ?st lbId ?es"
        using e2(3,4) unfolding listenersRecorded_def poolsRecorded_def by (simp_all, meson+)
      moreover have "hist s5 = ?h0 @ ?es" using h3(1) e1(1) e2(1) by simp
      ultimately have "?P (hist s5) (EvDeleteLoadBalancer lbId r)" for r unfolding lbDeletion_def by auto
      with True show ?thesis unfolding DeleteLoadBalancer_def by (auto intro: safe_emits_call)
    next
      case False
      from noWrites_trace[OF safe_reads(3) can] obtain e2 where e2: "hist s5 = hist s4 @ e2" by blast
      with h3(1) e1(1) have "hist s5 = ?h0 @ ?pre @ e1 @ e2" by simp
      with False rd[of "e1 @ e2"] show ?thesis by (auto intro!: safe_clearThenDecide)
    qed
  qed
  show ?thesis
    unfolding deleteLoadBalancer_def
    apply (rule emits.safe_andThen, rule emits.safe_attempt, rule safe_lbDeletion_reads)
    apply (rule emits.safe_case_sum)
     apply (intro emits_struct)
    apply (rule emits.safe_andThen, rule safe_lbDeletion_reads, rule emits.safe_andThen, rule safe_lbDeletion_reads)
    apply (rule emits.safe_andThen, rule emits.safe_getS)
    apply (rule emits.safe_andThen, rule emits.safe_if, rule emits.safe_returnM, rule safe_lbDeletion_reads)
    apply (rule emits.safe_andThen, rule safe_lbDeletion_reads)
    subgoal premises p for r s1 lb u s2 tags s3 createdHere s3' ours s4 canDelete s5
    proof -
      from p start[of lb s1 u s2 tags s3] have h3: "hist s3 = ?h0 @ [EvGetLoadBalancerByID lbId (Inr lb),
          EvInvalidateTagsCache lbId, EvListTags lbId (Inr tags)]" "lbStatus s3 = ?st" by auto
      with p have eq: "s3' = s3" "createdHere = createdByThisCluster (t_Spec t) ?st lbId (tagsToMap tags)" by auto
      with p have "?ours tags s3 = (Inr ours, s4)" by simp
      with p show ?thesis unfolding eq(2) by (intro tail[OF h3]) simp_all
    qed
    done
qed

lemma lbDeletion_earlier: "lbDeletion t st lbId (h0 @ es) h e \<Longrightarrow> lbDeletion t st lbId h0 h e"
proof (cases e)
  case (EvDeleteLoadBalancer l r)
  assume "lbDeletion t st lbId (h0 @ es) h e"
  with EvDeleteLoadBalancer obtain es' where 1: "l = lbId" "h = h0 @ es @ es'" "mayDelete t st lbId es'"
    "listenersRecorded t st lbId es' \<and> poolsRecorded st lbId es' \<or> readEmpty lbId es'" by (auto simp: lbDeletion_def)
  from 1(3) have "mayDelete t st lbId (es @ es')"
    unfolding mayDelete_def readThrough_def by (metis append_assoc)
  moreover from 1(4) have "listenersRecorded t st lbId (es @ es') \<and> poolsRecorded st lbId (es @ es') \<or> readEmpty lbId (es @ es')"
    unfolding listenersRecorded_def poolsRecorded_def readEmpty_def by (simp, meson)
  ultimately show ?thesis using 1(1,2) EvDeleteLoadBalancer by (auto simp: lbDeletion_def)
qed (simp_all add: lbDeletion_def)

lemma lbDeletion_retiring: "lbDeletion t (st\<lparr>ss_RetiringLoadBalancer := x\<rparr>) = lbDeletion t st"
  by (intro ext) (simp add: lbDeletion_def mayDelete_def createdByThisCluster_def listenersRecorded_def poolsRecorded_def split: event.splits)

lemma safe_lbDeletion_retire: "safe (emitsR (lbDeletion t st lbId h0)) (retireOld t) s"
proof -
  have own: "own_status (lbDeletion t st lbId h0) t" by (simp add: own_status_def lbDeletion_def)
  show ?thesis
    unfolding retireOld_def teardownRetiringLoadBalancer_def
    by (intro emits_struct safe_lbDeletion_reads safe_emits_status_ops own
        safe_emits_mono[OF safe_deleteRedundantListenersFrom] safe_emits_mono[OF safe_deleteRedundantPoolsFrom]
        safe_emits_mono[OF safe_deleteRedundantTagsFrom]; erule lbDeletion_cleanup)
qed

lemma safe_keeps_teardown: "safe (keepsR lbStatus) (teardownRetiringLoadBalancer t rt) s"
  unfolding teardownRetiringLoadBalancer_def GetLoadBalancerByID_def
  by (intro keeps_struct safe_keeps_call_status safe_keeps_deletes safe_keeps_tags)

lemma retireOld_status:
  assumes "retireOld t s = (Inr u, s')"
  shows "\<exists>x. lbStatus s' = (lbStatus s)\<lparr>ss_RetiringLoadBalancer := x\<rparr>"
proof (cases "ss_RetiringLoadBalancer (lbStatus s)")
  case None
  with assms show ?thesis unfolding retireOld_def
    by (auto simp: andThen_Inr_iff intro!: exI[of _ "ss_RetiringLoadBalancer (lbStatus s)"])
next
  case (Some rt)
  with assms obtain s1 where 1: "teardownRetiringLoadBalancer t rt s = (Inr (), s1)"
    and 2: "statusSetRetiringLoadBalancer t None s1 = (Inr (), s')"
    unfolding retireOld_def by (auto simp: andThen_Inr_iff)
  from 2 obtain s2 u' where p: "PatchMutateStatus t (statusMut (\<lambda>s. if ss_RetiringLoadBalancer s = None \<and> None = None then (False, s)
      else (True, s\<lparr>ss_RetiringLoadBalancer := None\<rparr>))) s1 = (Inr u', s2)"
    and s': "lbStatus s' = lbStatus s2\<lparr>ss_RetiringLoadBalancer := None\<rparr>"
    unfolding statusSetRetiringLoadBalancer_def by (auto simp: andThen_Inr_iff)
  from keeps.safeD[OF safe_keeps_teardown 1] keeps.safeD[OF safe_keeps_PatchMutateStatus p] s' show ?thesis
    by (auto simp: keepsR_def)
qed

lemma safe_delete:
  "safe (emitsR (lbDeletion t (lbStatus s) (deref (ss_LoadBalancerId (lbStatus s))) (hist s))) (delete t) s"
proof -
  let ?P = "lbDeletion t (lbStatus s) (deref (ss_LoadBalancerId (lbStatus s))) (hist s)"
  have "safe (emitsR ?P) (deleteLoadBalancer t (deref (ss_LoadBalancerId status))) s2"
    if "retireOld t s = (Inr u, s1)" "emitsR ?P s s1" "getS lbStatus s1 = (Inr status, s2)" for u s1 status s2
  proof -
    from retireOld_status[OF that(1)] obtain x where st: "lbStatus s1 = (lbStatus s)\<lparr>ss_RetiringLoadBalancer := x\<rparr>" ..
    from that(3) have s2: "s2 = s1" "status = lbStatus s1" by auto
    from emitsR_hist[OF that(2)] obtain es where es: "hist s1 = hist s @ es" ..
    show ?thesis
      using safe_deleteLoadBalancer[of t s1 "deref (ss_LoadBalancerId (lbStatus s1))"] unfolding s2 st es lbDeletion_retiring
      by (rule safe_emits_mono) (auto dest: lbDeletion_earlier)
  qed
  then show ?thesis
    unfolding delete_def
    by (intro emits.safe_andThen safe_lbDeletion_retire emits.safe_getS emits.safe_if emits.safe_returnM)
qed

text \<open>
  C1. A load balancer is deleted only when this cluster may delete it and only ours is on it. Whatever
  the cloud and the API server answer, every \<open>DeleteLoadBalancer\<close> of a teardown is for the load
  balancer of this LBC's status. By tags the run read past the cache, this cluster created it, or -
  with nothing written since that read - some VKS cluster created it, this cluster is the only one
  left on its cluster list, and the run saw that no other live LBC of this cluster uses it. And by
  what the run read, every listener, policy, pool and member on it is on this LBC's record, or there
  is no listener and no pool on it at all.
\<close>

theorem delete_load_balancer_safe:
  "safe (emitsR (lbDeletion t (lbStatus s) (deref (ss_LoadBalancerId (lbStatus s))) (hist s))) (delete t) s"
  by (rule safe_delete)

text \<open>
  What the user brought stays. An LBC that adopted its load balancer, and did not create it, never
  deletes it in a run in which no answer to a tag read of that load balancer carries a cluster's
  created-by tag - which a load balancer no VKS cluster made does not have.
\<close>

theorem delete_spares_adopted:
  assumes "delete t s = (r, s')" and "hist s' = hist s @ es"
    and "ss_LoadBalancerId (lbStatus s) = Some lbId"
    and "ss_AdoptedLoadBalancerId (lbStatus s) = Some lbId" and "ss_CreatedLoadBalancerId (lbStatus s) \<noteq> Some lbId"
    and "\<And>tags. EvListTags lbId (Inr tags) \<in> set es \<Longrightarrow> map_of (tagsToMap tags) CreatedByClusterTagKey = None"
  shows "EvDeleteLoadBalancer l x \<notin> set es"
proof
  assume "EvDeleteLoadBalancer l x \<in> set es"
  then obtain pre post where es: "es = pre @ EvDeleteLoadBalancer l x # post" by (meson split_list)
  have "lbDeletion t (lbStatus s) lbId (hist s) (hist s @ pre) (EvDeleteLoadBalancer l x)"
    by (rule emitsR_split[where post = post]) (use emits.safeD[OF safe_delete assms(1)] assms(2,3) es in auto)
  then obtain tags since where rd: "readThrough lbId tags pre since"
    and c: "createdByThisCluster (t_Spec t) (lbStatus s) lbId (tagsToMap tags) \<or> looksLastOutOf t (tagsToMap tags)"
    by (auto simp: lbDeletion_def mayDelete_def)
  from rd es have "EvListTags lbId (Inr tags) \<in> set es" by (auto simp: readThrough_def)
  from assms(6)[OF this] c assms(4,5) show False by (simp add: createdByThisCluster_def looksLastOutOf_def)
qed

definition ex_user_task :: task where
  "ex_user_task = ex_task\<lparr>t_vng := ex_vng\<lparr>api_GetLoadBalancerByID := \<lambda>_ _. Inr ex_lb, api_ListTags := \<lambda>_ _. Inr [],
     api_ListListenerOfLB := \<lambda>_ _. Inr [], api_ListPool := \<lambda>_ _. Inr []\<rparr>\<rparr>"

definition ex_user_st :: st where
  "ex_user_st = ex_st\<lparr>lbStatus := ex_status\<lparr>ss_LoadBalancerId := Some ''lb-9'', ss_AdoptedLoadBalancerId := Some ''lb-9''\<rparr>\<rparr>"

theorem delete_spares_adopted_witness:
  "\<exists>s' es. delete ex_user_task ex_user_st = (Inr (), s') \<and> hist s' = hist ex_user_st @ es
     \<and> EvListPool ''lb-9'' (Inr []) \<in> set es \<and> EvDeleteLoadBalancer ''lb-9'' (Inr ()) \<notin> set es"
proof -
  let ?es = "[EvGetLoadBalancerByID ''lb-9'' (Inr ex_lb), EvInvalidateTagsCache ''lb-9'', EvListTags ''lb-9'' (Inr []),
    EvListListenerOfLB ''lb-9'' (Inr []), EvListPool ''lb-9'' (Inr []), EvListListenerOfLB ''lb-9'' (Inr []),
    EvListPool ''lb-9'' (Inr []), EvListListenerOfLB ''lb-9'' (Inr []), EvListListenerOfLB ''lb-9'' (Inr []),
    EvListPool ''lb-9'' (Inr []), EvInvalidateTagsCache ''lb-9'', EvListTags ''lb-9'' (Inr []), EvListTags ''lb-9'' (Inr [])]"
  have run: "delete ex_user_task ex_user_st = (Inr (), ex_user_st\<lparr>hist := ?es\<rparr>)"
    by (simp add: delete_def retireOld_def deleteLoadBalancer_def clearThenDecide_def canDeleteWholeLoadBalancer_def
        isLoadBalancerEmpty_def lastClusterOutOf_def deleteRedundantListeners_def deleteRedundantListenersFrom_def
        deleteRedundantPools_def deleteRedundantPoolsFrom_def poolsInUse_def deleteRedundantTags_def deleteRedundantTagsFrom_def
        ensureTags_def diffTags_def deleteTagsClosure_def deleteTagsFor_def tagsToMap_def buildTag_def mergedTags_def
        looksLastOutOf_def createdByThisCluster_def fromResult_def has_key_def map_get_def map_copy_def delete_keys_def
        removeTagValue_def repo_defs ex_user_task_def ex_user_st_def ex_task_def ex_vng_def ex_st_def ex_status_def ex_spec_def
        andThen_def attempt_def wrapErr_def Let_def)
  have "EvDeleteLoadBalancer ''lb-9'' (Inr ()) \<notin> set ?es"
    by (rule delete_spares_adopted[OF run, of ?es "''lb-9''"])
      (auto simp: ex_user_st_def ex_st_def ex_status_def tagsToMap_def)
  with run show ?thesis by (auto simp: ex_user_st_def ex_st_def)
qed

section \<open>No orphan\<close>

definition noRemovals :: "event list \<Rightarrow> bool" where
  "noRemovals es \<longleftrightarrow> (\<forall>e \<in> set es. removalOn e = None)"

text \<open>
  Why a load balancer may be left standing: as last read, with nothing removed since, there is
  something on it; or this cluster did not create it, and by tags read past the cache, with nothing
  removed since, it is not the last cluster on a load balancer some cluster created, or another
  live LBC of the cluster uses it.
\<close>

definition leftFor :: "task \<Rightarrow> LoadBalancerConfigStatus \<Rightarrow> string \<Rightarrow> event list \<Rightarrow> bool" where
  "leftFor t status lbId es \<longleftrightarrow>
     (\<exists>before since ls. es = before @ EvListListenerOfLB lbId (Inr ls) # since \<and> ls \<noteq> [] \<and> noRemovals since)
     \<or> (\<exists>before since ps. es = before @ EvListPool lbId (Inr ps) # since \<and> ps \<noteq> [] \<and> noRemovals since)
     \<or> (\<exists>tags0 since0. readThrough lbId tags0 es since0 \<and> \<not> createdByThisCluster (t_Spec t) status lbId (tagsToMap tags0))
       \<and> (\<exists>tags since. readThrough lbId tags es since \<and> noRemovals since
            \<and> (\<not> looksLastOutOf t (tagsToMap tags) \<or> (\<exists>all. EvListLBC (Inr all) \<in> set since \<and> usedByOther t lbId all)))"

lemma noRemovals_append [simp]: "noRemovals (xs @ ys) \<longleftrightarrow> noRemovals xs \<and> noRemovals ys"
  by (auto simp: noRemovals_def)

lemma noRemovals_trace: "safe (emitsR P) m s \<Longrightarrow> m s = (r, s') \<Longrightarrow> (\<And>h e. P h e \<Longrightarrow> removalOn e = None)
   \<Longrightarrow> \<exists>es. hist s' = hist s @ es \<and> noRemovals es"
  unfolding safe_def emitsR_def noRemovals_def by (metis snd_conv split_list)

lemma isLoadBalancerEmpty_False:
  assumes "isLoadBalancerEmpty t lbId s = (Inr False, s')"
  shows "(\<exists>ls. ls \<noteq> [] \<and> hist s' = hist s @ [EvListListenerOfLB lbId (Inr ls)])
    \<or> (\<exists>ps. ps \<noteq> [] \<and> hist s' = hist s @ [EvListListenerOfLB lbId (Inr []), EvListPool lbId (Inr ps)])"
proof -
  from assms obtain ls s1 where 1: "ListListenerOfLB t lbId s = (Inr ls, s1)"
    and 2: "(if ls \<noteq> [] then returnM False else andThen (ListPool t lbId) (\<lambda>pools. returnM (pools = []))) s1 = (Inr False, s')"
    unfolding isLoadBalancerEmpty_def andThen_Inr_iff by blast
  from 1 have h1: "hist s1 = hist s @ [EvListListenerOfLB lbId (Inr ls)]"
    unfolding ListListenerOfLB_def by (auto dest!: call_result simp del: call_eq)
  show ?thesis
  proof (cases "ls = []")
    case True
    with 2 obtain ps where "ListPool t lbId s1 = (Inr ps, s')" "ps \<noteq> []" by (auto simp: andThen_Inr_iff)
    with h1 True show ?thesis unfolding ListPool_def by (auto dest!: call_result simp del: call_eq)
  qed (use 2 h1 in auto)
qed

lemma lastClusterOutOf_False:
  assumes "lastClusterOutOf t lbId tags s = (Inr False, s')"
  shows "\<exists>es. hist s' = hist s @ es \<and> noRemovals es
    \<and> (\<not> looksLastOutOf t tags \<or> (\<exists>all. EvListLBC (Inr all) \<in> set es \<and> usedByOther t lbId all))"
  using assms unfolding lastClusterOutOf_def loadBalancerHasOtherLBC_def ListLoadBalancerConfig_def
  by (auto simp: andThen_Inr_iff noRemovals_def split: if_splits)

lemma deleteRedundantTags_trace:
  assumes "deleteRedundantTags t lbId s = (r, s')"
  shows "\<exists>es. hist s' = hist s @ es \<and> noRemovals es"
proof -
  have "deleteRedundantTagsFrom t lbId (ss_CreatedTags (lbStatus s)) s = (r, s')"
    using assms unfolding deleteRedundantTags_def by (simp add: andThen_def)
  from noRemovals_trace[OF safe_deleteRedundantTagsFrom this cleanup_removals(3)] show ?thesis .
qed

lemma clearThenDecide_outcome:
  assumes run: "clearThenDecide t lbId createdHere ours s = (Inr u, s')" and s: "hist s = h0 @ es0"
    and ours: "createdHere \<Longrightarrow> ours"
    and made: "\<not> createdHere \<Longrightarrow> \<exists>tags0 since0. readThrough lbId tags0 es0 since0
      \<and> \<not> createdByThisCluster (t_Spec t) status lbId (tagsToMap tags0)"
  shows "\<exists>es. hist s' = h0 @ es \<and> (EvDeleteLoadBalancer lbId (Inr ()) \<in> set es \<or> leftFor t status lbId es)"
proof -
  have any: "\<exists>es. hist s'' = hist s0 @ es" if "m s0 = (r, s'')" "safe (emitsR P) m s0" for m :: "unit M" and s0 r s'' P
    using emitsR_hist[OF emits.safeD[OF that(2,1)]] .
  from run obtain s1 s2 s3 s4 empty ours' where
    1: "deleteRedundantListeners t lbId [] [] s = (Inr (), s1)" "deleteRedundantPools t lbId [] s1 = (Inr (), s2)"
    and 3: "isLoadBalancerEmpty t lbId s2 = (Inr empty, s3)"
    and 4: "(if empty \<and> \<not> createdHere
        then andThen (InvalidateTagsCache t lbId) (\<lambda>_.
             andThen (ListTags t lbId) (\<lambda>fresh. lastClusterOutOf t lbId (tagsToMap fresh)))
        else returnM ours) s3 = (Inr ours', s4)"
    and 5: "(if empty \<and> ours' then DeleteLoadBalancer t lbId else deleteRedundantTags t lbId) s4 = (Inr u, s')"
    unfolding clearThenDecide_def andThen_Inr_iff by auto
  from any[OF 1(1) safe_clearing(1)] any[OF 1(2) safe_clearing(2)] s obtain e1 where h2: "hist s2 = h0 @ es0 @ e1" by auto
  show ?thesis
  proof (cases "empty \<and> ours'")
    case True
    with 5 have "hist s' = hist s4 @ [EvDeleteLoadBalancer lbId (Inr ())]"
      unfolding DeleteLoadBalancer_def by (auto dest!: call_result simp del: call_eq)
    moreover obtain e2 where "hist s4 = hist s3 @ e2"
    proof -
      have "safe (emitsR (lbDeletion t status lbId h0)) (if empty \<and> \<not> createdHere
        then andThen (InvalidateTagsCache t lbId) (\<lambda>_.
             andThen (ListTags t lbId) (\<lambda>fresh. lastClusterOutOf t lbId (tagsToMap fresh)))
        else returnM ours) s3" by (intro emits_struct safe_lbDeletion_reads)
      from emitsR_hist[OF emits.safeD[OF this 4]] that show ?thesis by blast
    qed
    moreover obtain e3 where "hist s3 = hist s2 @ e3" using noWrites_trace[OF safe_reads(2) 3] by blast
    ultimately show ?thesis using h2 by (auto intro!: exI[of _ "es0 @ e1 @ e3 @ e2 @ [EvDeleteLoadBalancer lbId (Inr ())]"])
  next
    case False
    with 5 have "deleteRedundantTags t lbId s4 = (Inr u, s')" by auto
    from deleteRedundantTags_trace[OF this] obtain e5 where h5: "hist s' = hist s4 @ e5" "noRemovals e5" by blast
    show ?thesis
    proof (cases empty)
      case False
      with 4 have "s4 = s3" by simp
      from 3 False have "isLoadBalancerEmpty t lbId s2 = (Inr False, s3)" by simp
      from isLoadBalancerEmpty_False[OF this] consider
          ls where "ls \<noteq> []" "hist s3 = hist s2 @ [EvListListenerOfLB lbId (Inr ls)]"
        | ps where "ps \<noteq> []" "hist s3 = hist s2 @ [EvListListenerOfLB lbId (Inr []), EvListPool lbId (Inr ps)]" by blast
      then show ?thesis
      proof cases
        case 1
        let ?es = "(es0 @ e1) @ EvListListenerOfLB lbId (Inr ls) # e5"
        have "leftFor t status lbId ?es" unfolding leftFor_def using 1(1) h5(2) by blast
        moreover have "hist s' = h0 @ ?es" using h5(1) \<open>s4 = s3\<close> 1(2) h2 by simp
        ultimately show ?thesis by blast
      next
        case 2
        let ?es = "(es0 @ e1 @ [EvListListenerOfLB lbId (Inr [])]) @ EvListPool lbId (Inr ps) # e5"
        have "leftFor t status lbId ?es" unfolding leftFor_def using 2(1) h5(2) by blast
        moreover have "hist s' = h0 @ ?es" using h5(1) \<open>s4 = s3\<close> 2(2) h2 by simp
        ultimately show ?thesis by blast
      qed
    next
      case True
      with 4 \<open>\<not> (empty \<and> ours')\<close> ours have nc: "\<not> createdHere" and "\<not> ours'" by (auto split: if_splits)
      with 4 True obtain fresh where l: "lastClusterOutOf t lbId (tagsToMap fresh)
          (s3\<lparr>hist := hist s3 @ [EvInvalidateTagsCache lbId, EvListTags lbId (Inr fresh)]\<rparr>) = (Inr False, s4)"
        unfolding InvalidateTagsCache_def ListTags_def by (auto simp: andThen_Inr_iff)
      from lastClusterOutOf_False[OF l] obtain e4 where
        e4: "hist s4 = hist s3 @ [EvInvalidateTagsCache lbId, EvListTags lbId (Inr fresh)] @ e4" "noRemovals e4"
        "\<not> looksLastOutOf t (tagsToMap fresh) \<or> (\<exists>all. EvListLBC (Inr all) \<in> set e4 \<and> usedByOther t lbId all)" by auto
      obtain e3 where e3: "hist s3 = hist s2 @ e3" using noWrites_trace[OF safe_reads(2) 3] by blast
      let ?es = "(es0 @ e1 @ e3) @ [EvInvalidateTagsCache lbId, EvListTags lbId (Inr fresh)] @ e4 @ e5"
      from made[OF nc] obtain tags0 since0 where m: "readThrough lbId tags0 es0 since0"
        "\<not> createdByThisCluster (t_Spec t) status lbId (tagsToMap tags0)" by blast
      have "readThrough lbId fresh ?es (e4 @ e5)" unfolding readThrough_def by blast
      moreover have "readThrough lbId tags0 ?es
          (since0 @ e1 @ e3 @ [EvInvalidateTagsCache lbId, EvListTags lbId (Inr fresh)] @ e4 @ e5)"
        using readThrough_append[OF m(1)] by simp
      ultimately have "leftFor t status lbId ?es"
        unfolding leftFor_def using m(2) e4(2,3) h5(2) by (metis Un_iff noRemovals_append set_append)
      moreover have "hist s' = h0 @ ?es" using h2 e3 e4(1) h5(1) by simp
      ultimately show ?thesis by blast
    qed
  qed
qed

lemma deleteLoadBalancer_outcome:
  assumes "deleteLoadBalancer t lbId s = (Inr (), s')"
    and "api_GetLoadBalancerByID (t_vng t) (hist s) lbId = Inr lb"
  shows "\<exists>es. hist s' = hist s @ es \<and> (EvDeleteLoadBalancer lbId (Inr ()) \<in> set es \<or> leftFor t (lbStatus s) lbId es)"
proof -
  let ?pre = "\<lambda>tags. [EvGetLoadBalancerByID lbId (Inr lb), EvInvalidateTagsCache lbId, EvListTags lbId (Inr tags)]"
  let ?made = "\<lambda>tags. createdByThisCluster (t_Spec t) (lbStatus s) lbId (tagsToMap tags)"
  from assms obtain tags ours s4 canDelete s5 where
    1: "(if ?made tags then returnM True else lastClusterOutOf t lbId (tagsToMap tags)) (s\<lparr>hist := hist s @ ?pre tags\<rparr>) = (Inr ours, s4)"
    and 2: "canDeleteWholeLoadBalancer t lbId (sp_Type (t_Spec t)) s4 = (Inr canDelete, s5)"
    and 3: "(if canDelete \<and> ours then DeleteLoadBalancer t lbId else clearThenDecide t lbId (?made tags) ours) s5 = (Inr (), s')"
    unfolding deleteLoadBalancer_def GetLoadBalancerByID_def InvalidateTagsCache_def ListTags_def
    by (auto simp: andThen_Inr_iff cong: if_cong)
  have "safe (emitsR (lbDeletion t (lbStatus s) lbId [])) (if ?made tags then returnM True
      else lastClusterOutOf t lbId (tagsToMap tags)) (s\<lparr>hist := hist s @ ?pre tags\<rparr>)"
    by (intro emits_struct safe_lbDeletion_reads)
  from emitsR_hist[OF emits.safeD[OF this 1]] noWrites_trace[OF safe_reads(3) 2] obtain e where
    h5: "hist s5 = hist s @ ?pre tags @ e" by auto
  show ?thesis
  proof (cases "canDelete \<and> ours")
    case True
    with 3 h5 show ?thesis unfolding DeleteLoadBalancer_def
      by (auto dest!: call_result simp del: call_eq intro!: exI[of _ "?pre tags @ e @ [EvDeleteLoadBalancer lbId (Inr ())]"])
  next
    case False
    with 3 have run: "clearThenDecide t lbId (?made tags) ours s5 = (Inr (), s')" by auto
    have "readThrough lbId tags (?pre tags @ e) e"
      unfolding readThrough_def by (intro exI[of _ "[EvGetLoadBalancerByID lbId (Inr lb)]"]) simp
    then show ?thesis
      using 1 by (intro clearThenDecide_outcome[OF run h5]) (auto split: if_splits)
  qed
qed

text \<open>
  C18. No orphan is left behind. A teardown that succeeds on a load balancer the cloud still has either
  deleted it or leaves it for a reason: as last read there is something on it; or this cluster did
  not create it, and by tags read past the cache after the cleanup it is not the last cluster out of
  a load balancer some cluster made, or another live LBC of this cluster uses it.
\<close>

theorem deleteLoadBalancer_no_orphan:
  assumes "deleteLoadBalancer t lbId s = (Inr (), s')"
    and "api_GetLoadBalancerByID (t_vng t) (hist s) lbId = Inr lb"
  shows "\<exists>es. hist s' = hist s @ es \<and> (EvDeleteLoadBalancer lbId (Inr ()) \<in> set es \<or> leftFor t (lbStatus s) lbId es)"
  using assms by (rule deleteLoadBalancer_outcome)

definition ex_own_task :: task where
  "ex_own_task = ex_user_task\<lparr>t_vng := (t_vng ex_user_task)\<lparr>api_DeleteLoadBalancer := \<lambda>_ _. Inr ()\<rparr>\<rparr>"

definition ex_own_st :: st where
  "ex_own_st = ex_st\<lparr>lbStatus := ex_status\<lparr>ss_LoadBalancerId := Some ''lb-9'', ss_CreatedLoadBalancerId := Some ''lb-9''\<rparr>\<rparr>"

theorem deleteLoadBalancer_no_orphan_witness:
  "\<exists>s' es. deleteLoadBalancer ex_own_task ''lb-9'' ex_own_st = (Inr (), s') \<and> hist s' = hist ex_own_st @ es
     \<and> (EvDeleteLoadBalancer ''lb-9'' (Inr ()) \<in> set es \<or> leftFor ex_own_task (lbStatus ex_own_st) ''lb-9'' es)"
proof -
  have "\<exists>s'. deleteLoadBalancer ex_own_task ''lb-9'' ex_own_st = (Inr (), s')"
    by (simp add: deleteLoadBalancer_def canDeleteWholeLoadBalancer_def createdByThisCluster_def tagsToMap_def repo_defs
        ex_own_task_def ex_own_st_def ex_user_task_def ex_task_def ex_vng_def ex_st_def ex_status_def ex_spec_def andThen_def attempt_def)
  then obtain s' where run: "deleteLoadBalancer ex_own_task ''lb-9'' ex_own_st = (Inr (), s')" ..
  from deleteLoadBalancer_no_orphan[OF run, of ex_lb] run show ?thesis
    by (auto simp: ex_own_task_def ex_user_task_def ex_task_def)
qed

section \<open>Only what is on record\<close>

text \<open>What an LBC recorded on a load balancer.\<close>

record lbRecord =
  rec_Id :: string
  rec_Listeners :: "CreatedListener list"
  rec_Pools :: "CreatedPool list"
  rec_Tags :: gomap

definition liveRecord :: "LoadBalancerConfigStatus \<Rightarrow> lbRecord" where
  "liveRecord st = \<lparr>rec_Id = deref (ss_LoadBalancerId st), rec_Listeners = ss_CreatedListeners st,
     rec_Pools = ss_CreatedPools st, rec_Tags = ss_CreatedTags st\<rparr>"

definition retiringRecord :: "RetiringLoadBalancer \<Rightarrow> lbRecord" where
  "retiringRecord rt = \<lparr>rec_Id = rt_Id rt, rec_Listeners = rt_CreatedListeners rt, rec_Pools = rt_CreatedPools rt,
     rec_Tags = rt_CreatedTags rt\<rparr>"

definition recordsOf :: "LoadBalancerConfigStatus \<Rightarrow> lbRecord set" where
  "recordsOf st = insert (liveRecord st) (retiringRecord ` set_option (ss_RetiringLoadBalancer st))"

definition teardownWrites :: "task \<Rightarrow> LoadBalancerConfigStatus \<Rightarrow> history \<Rightarrow> history \<Rightarrow> event \<Rightarrow> bool" where
  "teardownWrites t st h0 h e \<longleftrightarrow>
     \<not> isCloudWrite e
     \<or> (\<exists>r. e = EvDeleteLoadBalancer (deref (ss_LoadBalancerId st)) r)
     \<or> (\<exists>h1 rec. prefix h0 h1 \<and> rec \<in> recordsOf st
          \<and> (listenerCleanup t (rec_Id rec) st (rec_Listeners rec) [] [] h1 h e
             \<or> poolCleanup t (rec_Id rec) (rec_Pools rec) [] h1 h e
             \<or> tagCleanup t (rec_Id rec) (rec_Tags rec) h1 h e))"

lemma teardownWrites_reads [simp]: "\<not> isCloudWrite e \<Longrightarrow> teardownWrites t st h0 h e"
  by (simp add: teardownWrites_def)

lemma own_status_teardown [simp]: "own_status (teardownWrites t st h0) t'"
  by (simp add: own_status_def isCloudWrite_def)

lemma listenerCleanup_retiring:
  "listenerCleanup t l (st\<lparr>ss_RetiringLoadBalancer := x\<rparr>) c nl np = listenerCleanup t l st c nl np"
  by (intro ext) (simp add: listenerCleanup_def listenerDeletable_def split: event.splits)

lemma safe_teardown_cleanups:
  assumes "prefix h0 (hist s)" and "rec \<in> recordsOf st" and "lbStatus s = st\<lparr>ss_RetiringLoadBalancer := x\<rparr>"
  shows "safe (emitsR (teardownWrites t st h0)) (deleteRedundantListenersFrom t (rec_Id rec) (rec_Listeners rec) [] []) s"
    "safe (emitsR (teardownWrites t st h0)) (deleteRedundantPoolsFrom t (rec_Id rec) (rec_Pools rec) []) s"
    "safe (emitsR (teardownWrites t st h0)) (deleteRedundantTagsFrom t (rec_Id rec) (rec_Tags rec)) s"
  using assms(1,2)
  by (auto intro!: safe_emits_mono[OF safe_deleteRedundantListenersFrom] safe_emits_mono[OF safe_deleteRedundantPoolsFrom]
      safe_emits_mono[OF safe_deleteRedundantTagsFrom] simp: assms(3) listenerCleanup_retiring teardownWrites_def)

lemmas steady_struct =
  steady.safe_returnM steady.safe_failM steady.safe_getS steady.safe_andThen steady.safe_attempt
  steady.safe_if steady.safe_case_option steady.safe_case_sum

lemma safe_keeps_teardown_reads:
  "safe (keepsR lbStatus) (lastClusterOutOf t lbId tags) s"
  "safe (keepsR lbStatus) (isLoadBalancerEmpty t lbId) s"
  "safe (keepsR lbStatus) (canDeleteWholeLoadBalancer t lbId ty) s"
proof -
  have cover: "safe (keepsR lbStatus) (canCover big small f) s"
    if "\<And>b s. safe (keepsR lbStatus) (f big b) s" for big :: "'x list" and small :: "'y list" and f s
    using that by (induction small arbitrary: s) (auto intro!: keeps_struct)
  show "safe (keepsR lbStatus) (lastClusterOutOf t lbId tags) s"
    unfolding lastClusterOutOf_def loadBalancerHasOtherLBC_def ListLoadBalancerConfig_def
    by (intro keeps_struct safe_keeps_call_status)
  show "safe (keepsR lbStatus) (isLoadBalancerEmpty t lbId) s"
    unfolding isLoadBalancerEmpty_def ListListenerOfLB_def ListPool_def by (intro keeps_struct safe_keeps_call_status)
  show "safe (keepsR lbStatus) (canDeleteWholeLoadBalancer t lbId ty) s"
    unfolding canDeleteWholeLoadBalancer_def listenerRecorded_def poolRecorded_def policyRecorded_def[abs_def]
      memberRecorded_def[abs_def] ignoreErr_def ListListenerOfLB_def ListPool_def ListPolicyOfListener_def GetPoolMembers_def
    by (intro keeps_struct safe_keeps_call_status cover)
qed

lemma safe_teardown_reads:
  "safe (steadyR (teardownWrites t st h0)) (lastClusterOutOf t' l tags) s"
  "safe (steadyR (teardownWrites t st h0)) (isLoadBalancerEmpty t' l) s"
  "safe (steadyR (teardownWrites t st h0)) (canDeleteWholeLoadBalancer t' l ty) s"
  by (intro safe_steadyI safe_keeps_teardown_reads safe_emits_mono[OF safe_reads(1)] safe_emits_mono[OF safe_reads(2)]
      safe_emits_mono[OF safe_reads(3)]; drule noWriteD, simp)+

lemma safe_teardown_calls:
  "safe (steadyR (teardownWrites t st h0)) (InvalidateTagsCache t' l) s"
  "safe (steadyR (teardownWrites t st h0)) (ListTags t' l) s"
  "safe (steadyR (teardownWrites t st h0)) (GetLoadBalancerByID t' l) s"
  "safe (steadyR (teardownWrites t st h0)) (DeleteLoadBalancer t' (deref (ss_LoadBalancerId st))) s"
  unfolding InvalidateTagsCache_def ListTags_def GetLoadBalancerByID_def DeleteLoadBalancer_def
  by (intro safe_steadyI safe_emits_call safe_keeps_call_status; simp add: teardownWrites_def isCloudWrite_def)+

text \<open>Where a teardown is: after \<open>h0\<close>, with the status it started from but for the retiring load balancer.\<close>

definition inTeardown :: "LoadBalancerConfigStatus \<Rightarrow> history \<Rightarrow> st \<Rightarrow> bool" where
  "inTeardown st h0 s \<longleftrightarrow> prefix h0 (hist s) \<and> (\<exists>x. lbStatus s = st\<lparr>ss_RetiringLoadBalancer := x\<rparr>)"

lemma inTeardown_step: "steadyR P s s' \<Longrightarrow> inTeardown st h0 s \<Longrightarrow> inTeardown st h0 s'"
  by (auto simp: inTeardown_def steadyR_def dest: emitsR_hist)

lemma safe_teardown_steps:
  assumes "inTeardown st h0 s" and "rec \<in> recordsOf st"
  shows "safe (steadyR (teardownWrites t st h0)) (deleteRedundantListenersFrom t (rec_Id rec) (rec_Listeners rec) [] []) s"
    "safe (steadyR (teardownWrites t st h0)) (deleteRedundantPoolsFrom t (rec_Id rec) (rec_Pools rec) []) s"
    "safe (steadyR (teardownWrites t st h0)) (deleteRedundantTagsFrom t (rec_Id rec) (rec_Tags rec)) s"
  using assms
  by (auto simp: inTeardown_def intro!: safe_steadyI safe_teardown_cleanups safe_keeps_deletes safe_keeps_tags)

lemma safe_teardown_live:
  assumes "inTeardown st h0 s"
  shows "safe (steadyR (teardownWrites t st h0)) (deleteRedundantListeners t (deref (ss_LoadBalancerId st)) [] []) s"
    "safe (steadyR (teardownWrites t st h0)) (deleteRedundantPools t (deref (ss_LoadBalancerId st)) []) s"
    "safe (steadyR (teardownWrites t st h0)) (deleteRedundantTags t (deref (ss_LoadBalancerId st))) s"
  using safe_teardown_steps[OF assms, of "liveRecord st" t] assms
  unfolding deleteRedundantListeners_def deleteRedundantPools_def deleteRedundantTags_def safe_def
  by (auto simp: andThen_def recordsOf_def liveRecord_def inTeardown_def)

lemma safe_teardown_delete:
  assumes "inTeardown st h0 s"
  shows "safe (steadyR (teardownWrites t st h0)) (deleteLoadBalancer t (deref (ss_LoadBalancerId st))) s"
  unfolding deleteLoadBalancer_def clearThenDecide_def
  by (intro steady_struct safe_teardown_calls safe_teardown_reads safe_teardown_live)
    (use assms in \<open>blast intro: inTeardown_step\<close>)+

lemma safe_teardown_retire:
  assumes "lbStatus s = st" and "prefix h0 (hist s)"
  shows "safe (emitsR (teardownWrites t st h0)) (retireOld t) s"
proof -
  have s: "inTeardown st h0 s" using assms by (auto simp: inTeardown_def intro: exI[of _ "ss_RetiringLoadBalancer st"])
  have "safe (steadyR (teardownWrites t st h0)) (teardownRetiringLoadBalancer t rt) s" if "ss_RetiringLoadBalancer st = Some rt" for rt
  proof -
    have "retiringRecord rt \<in> recordsOf st" using that by (simp add: recordsOf_def)
    note steps = safe_teardown_steps[OF _ this, unfolded retiringRecord_def lbRecord.select_convs]
    show ?thesis
      unfolding teardownRetiringLoadBalancer_def
      by (intro steady_struct safe_teardown_calls steps) (use s in \<open>blast intro: inTeardown_step\<close>)+
  qed
  then show ?thesis
    unfolding retireOld_def
    by (intro emits_struct safe_emits_status_ops own_status_teardown) (auto simp: assms(1) intro: safe_steadyD)
qed

text \<open>
  C19. A teardown takes away only what this LBC put there. Apart from deleting the load balancer of the
  status, every change to the cloud that \<open>delete\<close> makes is the cleanup of a record of this LBC - the
  live one, or the snapshot of the load balancer it was migrating away from - with the guarantees of
  the cleanups of listeners, pools and tags: recorded and idle by what this run read, an adopted
  listener handed back, the tags of others carried over.
\<close>

theorem delete_touches_only_records:
  "safe (emitsR (teardownWrites t (lbStatus s) (hist s))) (delete t) s"
proof -
  let ?P = "teardownWrites t (lbStatus s) (hist s)"
  have "safe (emitsR ?P) (deleteLoadBalancer t (deref (ss_LoadBalancerId status))) s2"
    if "retireOld t s = (Inr u, s1)" "emitsR ?P s s1" "getS lbStatus s1 = (Inr status, s2)" for u s1 status s2
  proof -
    from retireOld_status[OF that(1)] emitsR_hist[OF that(2)] that(3)
    have "inTeardown (lbStatus s) (hist s) s2" "ss_LoadBalancerId status = ss_LoadBalancerId (lbStatus s)"
      by (auto simp: inTeardown_def)
    from safe_steadyD[OF safe_teardown_delete[OF this(1)]] this(2) show ?thesis by simp
  qed
  then show ?thesis
    unfolding delete_def
    by (intro emits.safe_andThen safe_teardown_retire emits.safe_getS emits.safe_if emits.safe_returnM) auto
qed

end
