(* ===== verification/LBC_UseCase.thy ===== *)
theory LBC_UseCase
  imports LB_Delete
begin

text \<open>
  The use case of LoadBalancerConfigs and the controller in front of it:
  \<^verbatim>\<open>internal/usecase/lbc_uc/lbc_uc.go\<close>, \<^verbatim>\<open>internal/controller/lbc_controller/lbc_controller.go\<close>,
  \<^verbatim>\<open>pkg/k8s/finalizer.go\<close> and \<^verbatim>\<open>pkg/lbc/lbc_utils.go\<close>. The per-load-balancer locks are in
  \<open>LB_Locks\<close>.
\<close>

section \<open>The use case\<close>

record lbcUseCase =
  uc_cfg :: Config
  uc_vng :: VngCloudRepository
  uc_k8s :: K8sRepository
  uc_sdk :: sdk_consts
  uc_net :: net6

text \<open>The task of one reconcile: what it is given, and its fields at the start.\<close>

definition newTask :: "lbcUseCase \<Rightarrow> LoadBalancerConfig \<Rightarrow> task" where
  "newTask uc lbConfig =
     \<lparr>t_cfg = uc_cfg uc, t_vng = uc_vng uc, t_k8s = uc_k8s uc, t_sdk = uc_sdk uc, t_net = uc_net uc,
      t_Meta = lbc_Meta lbConfig, t_Spec = lbc_Spec lbConfig\<rparr>"

definition startTask :: "LoadBalancerConfig \<Rightarrow> unit M" where
  "startTask lbConfig = (\<lambda>s. (Inr (), s\<lparr>lbStatus := lbc_Status lbConfig, aclPeers := [], warnings := []\<rparr>))"

definition clientGet :: "lbcUseCase \<Rightarrow> string \<Rightarrow> string \<Rightarrow> LoadBalancerConfig M" where
  "clientGet uc ns n = call (EvGetLBC ns n) (\<lambda>h. k8s_GetLoadBalancerConfig (uc_k8s uc) h ns n)"

definition IgnoreNotFound :: "lbcUseCase \<Rightarrow> go_error \<Rightarrow> unit M" where
  "IgnoreNotFound uc err = (if k8s_IsNotFound (uc_k8s uc) err then returnM () else failM err)"

definition ensure :: "lbcUseCase \<Rightarrow> LoadBalancerConfig \<Rightarrow> string list M" where
  "ensure uc lbConfig =
     andThen (startTask lbConfig) (\<lambda>_.
     andThen (deploy (newTask uc lbConfig)) (\<lambda>_. getS warnings))"

definition LBCConditionTypeReady :: string where "LBCConditionTypeReady = ''Ready''"
definition LBCReasonReconcileSuccess :: string where "LBCReasonReconcileSuccess = ''ReconcileSuccess''"
definition LBCReasonReconcileFailed :: string where "LBCReasonReconcileFailed = ''ReconcileFailed''"

text \<open>What a reconcile reports: the message, the status of the Ready condition and its reason.\<close>

definition outcomeOf :: "'a result \<Rightarrow> string \<times> bool \<times> string" where
  "outcomeOf r =
     (case r of
        Inl err \<Rightarrow> (Error err, False, LBCReasonReconcileFailed)
      | Inr _ \<Rightarrow> (''Successfully reconciled'', True, LBCReasonReconcileSuccess))"

definition trackOutcome ::
  "lbcUseCase \<Rightarrow> int \<Rightarrow> int \<Rightarrow> string \<times> bool \<times> string \<Rightarrow> LoadBalancerConfigStatus \<Rightarrow> bool \<times> LoadBalancerConfigStatus"
where
  "trackOutcome uc generation now outcome status =
     (case outcome of (message, conditionStatus, conditionReason) \<Rightarrow>
        let stale = ss_ObservedGeneration status \<noteq> Some generation \<or> ss_LastReconcileMessage status \<noteq> message;
            status1 = (if stale
                       then status\<lparr>ss_ObservedGeneration := Some generation, ss_LastReconcileMessage := message,
                                   ss_LastReconcileTime := Some now\<rparr>
                       else status);
            newCondition = \<lparr>cond_Type = LBCConditionTypeReady, cond_Status = conditionStatus,
                            cond_ObservedGeneration = generation, cond_LastTransitionTime = now,
                            cond_Reason = conditionReason, cond_Message = message\<rparr>
        in case k8s_SetStatusCondition (uc_k8s uc) (ss_Conditions status1) newCondition of
             (changed, conditions) \<Rightarrow> (stale \<or> changed, status1\<lparr>ss_Conditions := conditions\<rparr>))"

text \<open>A failure to write the outcome is logged and does not change it; warnings are handed on.\<close>

definition EnsureLoadBalancerConfigUseCase :: "lbcUseCase \<Rightarrow> string \<Rightarrow> string \<Rightarrow> unit M" where
  "EnsureLoadBalancerConfigUseCase uc ns n =
     andThen (attempt (clientGet uc ns n)) (\<lambda>got. case got of
       Inl err \<Rightarrow> IgnoreNotFound uc err
     | Inr lbConfig \<Rightarrow>
         andThen (attempt (ensure uc lbConfig)) (\<lambda>r.
         andThen (getS (\<lambda>s. k8s_Now (uc_k8s uc) (hist s))) (\<lambda>now.
         andThen (attempt (PatchMutateStatus (newTask uc lbConfig)
                    (statusMut (trackOutcome uc (om_Generation (lbc_Meta lbConfig)) now (outcomeOf r))))) (\<lambda>statusErr.
         case r of
           Inl err \<Rightarrow> failM err
         | Inr ws \<Rightarrow> if ws \<noteq> [] then failM (ReconcileWarning ws) else returnM ()))))"

definition DeleteLoadBalancerConfigUseCase :: "lbcUseCase \<Rightarrow> string \<Rightarrow> string \<Rightarrow> unit M" where
  "DeleteLoadBalancerConfigUseCase uc ns n =
     andThen (attempt (clientGet uc ns n)) (\<lambda>got. case got of
       Inl err \<Rightarrow> IgnoreNotFound uc err
     | Inr lbConfig \<Rightarrow> andThen (startTask lbConfig) (\<lambda>_. delete (newTask uc lbConfig)))"

section \<open>Finalizers\<close>

definition HasFinalizer :: "LoadBalancerConfig \<Rightarrow> string \<Rightarrow> bool" where
  "HasFinalizer obj finalizer \<longleftrightarrow> list_ex (\<lambda>e. e = finalizer) (om_Finalizers (lbc_Meta obj))"

definition setFinalizers :: "(string list \<Rightarrow> string list) \<Rightarrow> LoadBalancerConfig \<Rightarrow> LoadBalancerConfig" where
  "setFinalizers f obj = obj\<lparr>lbc_Meta := (lbc_Meta obj)\<lparr>om_Finalizers := f (om_Finalizers (lbc_Meta obj))\<rparr>\<rparr>"

definition PatchMeta :: "lbcUseCase \<Rightarrow> LoadBalancerConfig \<Rightarrow> LoadBalancerConfig \<Rightarrow> unit M" where
  "PatchMeta uc old new = call (EvPatchMeta old new) (\<lambda>h. k8s_PatchMeta (uc_k8s uc) h old new)"

definition addStep :: "lbcUseCase \<Rightarrow> string \<Rightarrow> LoadBalancerConfig \<times> bool \<Rightarrow> LoadBalancerConfig \<times> bool" where
  "addStep uc f x =
     (if \<not> HasFinalizer (fst x) f then (setFinalizers (\<lambda>fs. k8s_AddFinalizer (uc_k8s uc) fs f) (fst x), True) else x)"

definition removeStep :: "lbcUseCase \<Rightarrow> string \<Rightarrow> LoadBalancerConfig \<times> bool \<Rightarrow> LoadBalancerConfig \<times> bool" where
  "removeStep uc f x =
     (if HasFinalizer (fst x) f then (setFinalizers (\<lambda>fs. k8s_RemoveFinalizer (uc_k8s uc) fs f) (fst x), True) else x)"

definition AddFinalizers :: "lbcUseCase \<Rightarrow> string \<Rightarrow> string \<Rightarrow> string list \<Rightarrow> unit M" where
  "AddFinalizers uc ns n finalizers =
     RetryOnConflict (k8s_IsConflict (uc_k8s uc)) (k8s_conflict_retries (uc_k8s uc))
       (andThen (clientGet uc ns n) (\<lambda>oldObj.
          case fold (addStep uc) finalizers (oldObj, False) of (obj, needsUpdate) \<Rightarrow>
            if \<not> needsUpdate then returnM () else PatchMeta uc oldObj obj))"

text \<open>The wait: one look per tick until the finalizers are gone, an error once the timer fires.\<close>

primrec awaitRemoved :: "lbcUseCase \<Rightarrow> string \<Rightarrow> string \<Rightarrow> string list \<Rightarrow> nat \<Rightarrow> unit M" where
  "awaitRemoved uc ns n finalizers 0 =
     andThen (attempt (clientGet uc ns n)) (\<lambda>got. case got of
       Inl err \<Rightarrow> IgnoreNotFound uc err
     | Inr obj \<Rightarrow> if \<not> list_ex (HasFinalizer obj) finalizers then returnM ()
                  else failM (ErrorString ''timeout while waiting for finalizers to be removed''))"
| "awaitRemoved uc ns n finalizers (Suc ticks) =
     andThen (attempt (clientGet uc ns n)) (\<lambda>got. case got of
       Inl err \<Rightarrow> IgnoreNotFound uc err
     | Inr obj \<Rightarrow> if \<not> list_ex (HasFinalizer obj) finalizers then returnM ()
                  else awaitRemoved uc ns n finalizers ticks)"

definition RemoveFinalizers :: "lbcUseCase \<Rightarrow> string \<Rightarrow> string \<Rightarrow> string list \<Rightarrow> unit M" where
  "RemoveFinalizers uc ns n finalizers =
     RetryOnConflict (k8s_IsConflict (uc_k8s uc)) (k8s_conflict_retries (uc_k8s uc))
       (andThen (clientGet uc ns n) (\<lambda>oldObj.
          case fold (removeStep uc) finalizers (oldObj, False) of (obj, needsUpdate) \<Rightarrow>
            if \<not> needsUpdate then returnM ()
            else andThen (PatchMeta uc oldObj obj) (\<lambda>_.
                 andThen (getS (\<lambda>s. k8s_finalizer_ticks (uc_k8s uc) (hist s))) (\<lambda>ticks.
                   awaitRemoved uc ns n finalizers ticks))))"

section \<open>The controller\<close>

definition IsSupported :: "LoadBalancerConfig \<Rightarrow> bool" where
  "IsSupported obj \<longleftrightarrow> om_DeletionTimestamp (lbc_Meta obj) = None"

definition IsPendingFinalization :: "LoadBalancerConfig \<Rightarrow> bool" where
  "IsPendingFinalization obj \<longleftrightarrow> HasFinalizer obj LbcFinalizer"

definition recordEvent :: "string \<Rightarrow> string \<Rightarrow> string \<Rightarrow> string \<Rightarrow> string \<Rightarrow> unit M" where
  "recordEvent ns n eventType reason message = call (\<lambda>_. EvRecord ns n eventType reason message) (\<lambda>_. Inr ())"

definition withMetrics :: "unit M \<Rightarrow> unit M" where
  "withMetrics m = wrapErr (\<lambda>err. fst (NewErrorWithMetrics err)) m"

definition reconcileEnsure :: "lbcUseCase \<Rightarrow> string \<Rightarrow> string \<Rightarrow> unit M" where
  "reconcileEnsure uc ns n =
     andThen (withMetrics (AddFinalizers uc ns n [LbcFinalizer])) (\<lambda>_.
     andThen (attempt (EnsureLoadBalancerConfigUseCase uc ns n)) (\<lambda>r. case r of
       Inr u \<Rightarrow> returnM u
     | Inl err \<Rightarrow>
         (case errors_As is_Warning err of
            Some ms \<Rightarrow> recordEvent ns n ''Warning'' ''SharedListenerAcl'' (Error (ReconcileWarning ms))
          | None \<Rightarrow> failM (fst (NewErrorWithMetrics err)))))"

definition reconcileDelete :: "lbcUseCase \<Rightarrow> string \<Rightarrow> string \<Rightarrow> LoadBalancerConfig \<Rightarrow> unit M" where
  "reconcileDelete uc ns n obj =
     (if \<not> HasFinalizer obj LbcFinalizer then returnM ()
      else andThen (withMetrics (DeleteLoadBalancerConfigUseCase uc ns n)) (\<lambda>_.
           RemoveFinalizers uc ns n [LbcFinalizer]))"

definition reportEnd :: "string \<Rightarrow> string \<Rightarrow> string \<Rightarrow> string \<Rightarrow> unit M \<Rightarrow> unit M" where
  "reportEnd ns n failed done m =
     andThen (attempt m) (\<lambda>r. case r of
       Inl err \<Rightarrow> andThen (recordEvent ns n ''Warning'' failed (Error err)) (\<lambda>_. failM err)
     | Inr _ \<Rightarrow> recordEvent ns n ''Normal'' done (ns @ ''/'' @ n))"

definition reconcile :: "lbcUseCase \<Rightarrow> string \<Rightarrow> string \<Rightarrow> unit M" where
  "reconcile uc ns n =
     andThen (attempt (clientGet uc ns n)) (\<lambda>got. case got of
       Inl err \<Rightarrow> IgnoreNotFound uc err
     | Inr obj \<Rightarrow>
         if \<not> IsSupported obj then
           if IsPendingFinalization obj then reportEnd ns n ''FailedDelete'' ''Deleted'' (reconcileDelete uc ns n obj)
           else returnM ()
         else reportEnd ns n ''FailedEnsure'' ''Ensured'' (reconcileEnsure uc ns n))"

text \<open>\<open>Reconcile\<close>: until the use case is initialised, come back in a second.\<close>

definition Reconcile :: "(int \<Rightarrow> int) \<Rightarrow> bool \<Rightarrow> lbcUseCase \<Rightarrow> string \<Rightarrow> string \<Rightarrow> st \<Rightarrow> (ctrl_result \<times> go_error option) \<times> st" where
  "Reconcile rnd initDone uc ns n s =
     (if \<not> initDone then ((\<lparr>Requeue = False, RequeueAfter = Second\<rparr>, None), s)
      else case reconcile uc ns n s of
             (Inl err, s') \<Rightarrow> (HandleReconcileError rnd (Some err), s')
           | (Inr _, s') \<Rightarrow> (HandleReconcileError rnd None, s'))"

section \<open>What the use case and the finalizers call\<close>

lemma safe_startTask [safe_intro]: "safe (emitsR P) (startTask lbConfig) s"
  by (simp add: safe_def emitsR_def startTask_def)

lemma safe_IgnoreNotFound [safe_intro]: "safe (emitsR P) (IgnoreNotFound uc err) s"
  unfolding IgnoreNotFound_def by (intro safe_intro)

lemma safe_clientGet [safe_intro]: "(\<And>r. P (hist s) (EvGetLBC ns n r)) \<Longrightarrow> safe (emitsR P) (clientGet uc ns n) s"
  unfolding clientGet_def by (intro safe_intro)

lemma safe_recordEvent [safe_intro]: "P (hist s) (EvRecord ns n ty re me) \<Longrightarrow> safe (emitsR P) (recordEvent ns n ty re me) s"
  unfolding recordEvent_def by (intro safe_intro)

lemma safe_withMetrics [safe_intro]: "safe (emitsR P) m s \<Longrightarrow> safe (emitsR P) (withMetrics m) s"
  unfolding withMetrics_def by (intro safe_intro)

lemma safe_emits_ensure:
  assumes "safe (emitsR P) (deploy (newTask uc lbConfig)) (snd (startTask lbConfig s))"
  shows "safe (emitsR P) (ensure uc lbConfig) s"
  unfolding ensure_def using assms by (intro safe_intro) (simp_all add: startTask_def)

text \<open>Neither use case touches the metadata of the object.\<close>

definition noMeta :: "history \<Rightarrow> event \<Rightarrow> bool" where
  "noMeta h e \<longleftrightarrow> (case e of EvPatchMeta _ _ _ \<Rightarrow> False | _ \<Rightarrow> True)"

lemma noMeta_deploy: "safe (emitsR noMeta) (deploy t) s"
  by (rule safe_emits_mono[OF safe_deploy_lifecycle]) (auto simp: noMeta_def split: event.splits)

lemma noMeta_delete: "safe (emitsR noMeta) (delete t) s"
  by (rule safe_emits_mono[OF safe_delete]) (auto simp: noMeta_def lbDeletion_def split: event.splits)

lemma noMeta_calls [simp]:
  "noMeta h (EvGetLBC ns n r)" "noMeta h (EvPatchStatus a b r')" "noMeta h (EvRecord ns n x y z)"
  by (simp_all add: noMeta_def)

lemma noMeta_use_cases:
  "safe (emitsR noMeta) (EnsureLoadBalancerConfigUseCase uc ns n) s"
  "safe (emitsR noMeta) (DeleteLoadBalancerConfigUseCase uc ns n) s"
  unfolding EnsureLoadBalancerConfigUseCase_def DeleteLoadBalancerConfigUseCase_def
  by (intro safe_intro safe_emits_ensure noMeta_deploy noMeta_delete; simp)+

text \<open>What the run does from here on, when all that matters is how it got here.\<close>

lemma safe_after:
  assumes "safe (emitsR Q) m s" and "hist s = h0 @ es0" and "\<And>es e. Q (h0 @ es0 @ es) e \<Longrightarrow> P (h0 @ es0 @ es) e"
  shows "safe (emitsR P) m s"
  using assms(2,3) by (intro safe_emits_from[OF assms(1)]) simp

section \<open>Finalizer first\<close>

text \<open>The API server returned the object with the finalizer on it, or accepted it.\<close>

definition guarded :: "string \<Rightarrow> string \<Rightarrow> event list \<Rightarrow> bool" where
  "guarded ns n es \<longleftrightarrow>
     (\<exists>obj. HasFinalizer obj LbcFinalizer
        \<and> (EvGetLBC ns n (Inr obj) \<in> set es \<or> (\<exists>old. EvPatchMeta old obj (Inr ()) \<in> set es)))"

lemma guarded_append: "guarded ns n es \<Longrightarrow> guarded ns n (es0 @ es @ es1)"
  by (auto simp: guarded_def)

text \<open>What controller-runtime documents of \<open>AddFinalizer\<close>: the finalizer is there afterwards, and none is lost.\<close>

definition addsFinalizer :: "lbcUseCase \<Rightarrow> bool" where
  "addsFinalizer uc \<longleftrightarrow> (\<forall>fs f. set (k8s_AddFinalizer (uc_k8s uc) fs f) = insert f (set fs))"

lemma HasFinalizer_set [simp]:
  "HasFinalizer obj f \<longleftrightarrow> f \<in> set (om_Finalizers (lbc_Meta obj))"
  "om_Finalizers (lbc_Meta (setFinalizers g obj)) = g (om_Finalizers (lbc_Meta obj))"
  by (auto simp: HasFinalizer_def setFinalizers_def list_ex_iff)

lemma AddFinalizers_guards:
  assumes "addsFinalizer uc" and "AddFinalizers uc ns n [LbcFinalizer] s = (Inr u, s')"
  shows "\<exists>es. hist s' = hist s @ es \<and> guarded ns n es"
proof -
  let ?m = "andThen (clientGet uc ns n) (\<lambda>oldObj.
          case fold (addStep uc) [LbcFinalizer] (oldObj, False) of (obj, needsUpdate) \<Rightarrow>
            if \<not> needsUpdate then returnM () else PatchMeta uc oldObj obj)"
  have ext: "\<exists>es. hist (snd (?m s0)) = hist s0 @ es" for s0
    by (auto simp: clientGet_def PatchMeta_def andThen_def split: sum.splits prod.splits)
  from RetryOnConflict_success[OF assms(2)[unfolded AddFinalizers_def] ext] obtain s0 es0 where
    h: "hist s0 = hist s @ es0" and run: "?m s0 = (Inr u, s')" by blast
  from run obtain obj s1 where get: "clientGet uc ns n s0 = (Inr obj, s1)"
    and rest: "(case addStep uc LbcFinalizer (obj, False) of (obj', needsUpdate) \<Rightarrow>
            if \<not> needsUpdate then returnM () else PatchMeta uc obj obj') s1 = (Inr u, s')"
    by (auto simp: andThen_Inr_iff)
  from get have h1: "hist s1 = hist s0 @ [EvGetLBC ns n (Inr obj)]"
    unfolding clientGet_def by (auto dest!: call_result simp del: call_eq)
  show ?thesis
  proof (cases "HasFinalizer obj LbcFinalizer")
    case True
    with rest h h1 show ?thesis
      by (auto simp: addStep_def guarded_def intro!: exI[of _ "es0 @ [EvGetLBC ns n (Inr obj)]"] exI[of _ obj])
  next
    case False
    define obj' where "obj' = setFinalizers (\<lambda>fs. k8s_AddFinalizer (uc_k8s uc) fs LbcFinalizer) obj"
    from False rest have "PatchMeta uc obj obj' s1 = (Inr u, s')" by (simp add: addStep_def obj'_def)
    then have "hist s' = hist s1 @ [EvPatchMeta obj obj' (Inr ())]"
      unfolding PatchMeta_def by (auto dest!: call_result simp del: call_eq)
    moreover have "HasFinalizer obj' LbcFinalizer" using assms(1) by (simp add: obj'_def addsFinalizer_def)
    ultimately show ?thesis
      using h h1 by (intro exI[of _ "es0 @ [EvGetLBC ns n (Inr obj), EvPatchMeta obj obj' (Inr ())]"])
        (auto simp: guarded_def)
  qed
qed

lemma safe_emits_AddFinalizers:
  assumes "\<And>h r. P h (EvGetLBC ns n r)"
    and "\<And>h old r. P h (EvPatchMeta old (fst (fold (addStep uc) fs (old, False))) r)"
  shows "safe (emitsR P) (AddFinalizers uc ns n fs) s"
  unfolding AddFinalizers_def PatchMeta_def
  by (intro safe_intro assms(1)) (metis assms(2) fst_conv)

lemma safe_emits_RemoveFinalizers:
  assumes "\<And>h r. P h (EvGetLBC ns n r)"
    and "\<And>es old new r. noRemovals es \<Longrightarrow> P (hist s @ es) (EvPatchMeta old new r)"
  shows "safe (emitsR P) (RemoveFinalizers uc ns n fs) s"
proof -
  let ?Q = "\<lambda>h e. P h e \<and> removalOn e = None"
  have get: "?Q h (EvGetLBC ns n r)" for h r by (simp add: assms(1))
  have wait: "safe (emitsR ?Q) (awaitRemoved uc ns n fs k) s'" for k s'
    by (induction k arbitrary: s') (auto intro!: safe_intro get)
  have patch: "safe (emitsR ?Q) (PatchMeta uc old new) s2" if "emitsR ?Q s s1" "emitsR ?Q s1 s2" for s1 s2 old new
  proof -
    from emitsR_trans[OF that] obtain es where h: "hist s2 = hist s @ es"
      and all: "\<forall>pre e post. es = pre @ e # post \<longrightarrow> ?Q (hist s @ pre) e" by (auto simp: emitsR_def)
    have "noRemovals es"
      unfolding noRemovals_def
    proof
      fix e assume "e \<in> set es"
      then obtain pre post where "es = pre @ e # post" by (meson split_list)
      with all show "removalOn e = None" by blast
    qed
    with assms(2) h show ?thesis unfolding PatchMeta_def by (intro safe_intro) simp
  qed
  have tick: "safe (emitsR ?Q) (andThen (PatchMeta uc old new) (\<lambda>_.
       andThen (getS f) (\<lambda>ticks. awaitRemoved uc ns n fs ticks))) s2" if "emitsR ?Q s s1" "emitsR ?Q s1 s2" for s1 s2 old new f
    by (rule emits.safe_andThen[OF patch[OF that]], rule emits.safe_andThen[OF emits.safe_getS], rule wait)
  have "safe (emitsR ?Q) (RemoveFinalizers uc ns n fs) s"
    unfolding RemoveFinalizers_def
    by (rule emits.safe_RetryOnConflict, rule emits.safe_andThen, rule safe_clientGet, rule get,
        rule emits.safe_case_prod, rule emits.safe_if, rule emits.safe_returnM, rule tick)
  then show ?thesis by (rule safe_emits_mono) simp
qed

text \<open>
  C3. The finalizer comes first. Whatever the cloud and the API server answer, a reconcile changes
  nothing in the cloud before the API server has, in the same reconcile, returned or accepted the
  LoadBalancerConfig with the controller's finalizer on it: an object that owns anything in the cloud
  cannot vanish without a teardown.
\<close>

theorem reconcile_finalizer_first:
  assumes "addsFinalizer uc"
  shows "safe (emitsR (\<lambda>h e. isCloudWrite e \<longrightarrow> (\<exists>es. h = hist s @ es \<and> guarded ns n es))) (reconcile uc ns n) s"
proof -
  let ?P = "\<lambda>h e. isCloudWrite e \<longrightarrow> (\<exists>es. h = hist s @ es \<and> guarded ns n es)"
  have calls: "?P h (EvGetLBC a b r)" "?P h (EvRecord a b x y z)" "?P h (EvPatchMeta old new r')" for h a b r x y z old new r'
    by (simp_all add: isCloudWrite_def)
  have after: "safe (emitsR ?P) m s1" if "safe (emitsR noMeta) m s1" "hist s1 = hist s @ es" "guarded ns n es" for m :: "unit M" and s1 es
    by (rule safe_after[OF that(1,2)]) (use guarded_append[OF that(3), of "[]"] in auto)
  have ens: "safe (emitsR ?P) (EnsureLoadBalancerConfigUseCase uc ns n) s2"
    if "withMetrics (AddFinalizers uc ns n [LbcFinalizer]) s1 = (Inr u, s2)" "emitsR ?P s s1" for u s1 s2
  proof -
    from emitsR_hist[OF that(2)] obtain es0 where "hist s1 = hist s @ es0" ..
    moreover from that(1) have "AddFinalizers uc ns n [LbcFinalizer] s1 = (Inr u, s2)" by (simp add: withMetrics_def)
    from AddFinalizers_guards[OF assms this] obtain es where "hist s2 = hist s1 @ es" "guarded ns n es" by blast
    ultimately have "hist s2 = hist s @ (es0 @ es)" "guarded ns n (es0 @ es)"
      using guarded_append[of ns n es es0 "[]"] by simp_all
    then show ?thesis by (rule after[OF noMeta_use_cases(1)])
  qed
  have del: "safe (emitsR ?P) (DeleteLoadBalancerConfigUseCase uc ns n) s1"
    if "attempt (clientGet uc ns n) s = (Inr (Inr obj), s1)" "HasFinalizer obj LbcFinalizer" for obj s1
  proof -
    from that(1) have "hist s1 = hist s @ [EvGetLBC ns n (Inr obj)]"
      unfolding clientGet_def by (auto dest!: call_result simp del: call_eq)
    moreover have "guarded ns n [EvGetLBC ns n (Inr obj)]" using that(2) by (auto simp: guarded_def)
    ultimately show ?thesis by (rule after[OF noMeta_use_cases(2)])
  qed
  show ?thesis
    unfolding reconcile_def reportEnd_def reconcileEnsure_def reconcileDelete_def
    by (intro safe_intro safe_emits_AddFinalizers safe_emits_RemoveFinalizers calls ens del) (auto intro: emitsR_trans)
qed

definition ex_lbc :: LoadBalancerConfig where
  "ex_lbc = \<lparr>lbc_Meta = ex_meta, lbc_Spec = ex_spec, lbc_Status = ex_status\<rparr>"

text \<open>Apimachinery's \<open>SetStatusCondition\<close>, for the examples.\<close>

primrec ex_setCondition :: "Condition list \<Rightarrow> Condition \<Rightarrow> bool \<times> Condition list" where
  "ex_setCondition [] c = (True, [c])"
| "ex_setCondition (x # xs) c =
     (if cond_Type x = cond_Type c then (x \<noteq> c, c # xs)
      else (fst (ex_setCondition xs c), x # snd (ex_setCondition xs c)))"

definition ex_uc :: lbcUseCase where
  "ex_uc =
     \<lparr>uc_cfg = t_cfg ex_task, uc_vng = ex_vng,
      uc_k8s = ex_k8s\<lparr>k8s_GetLoadBalancerConfig := \<lambda>_ _ _. Inr ex_lbc, k8s_PatchMeta := \<lambda>_ _ _. Inr (),
                       k8s_StatusPatch := \<lambda>_ _ _. Inr (), k8s_SetStatusCondition := ex_setCondition\<rparr>,
      uc_sdk = ex_sdk, uc_net = t_net ex_task\<rparr>"

theorem reconcile_finalizer_first_witness:
  "k8s_GetLoadBalancerConfig (uc_k8s ex_uc) [] ''default'' ''lbc'' = Inr ex_lbc \<and> \<not> HasFinalizer ex_lbc LbcFinalizer
   \<and> safe (emitsR (\<lambda>h e. isCloudWrite e \<longrightarrow> (\<exists>es. h = hist ex_st @ es \<and> guarded ''default'' ''lbc'' es)))
       (reconcile ex_uc ''default'' ''lbc'') ex_st"
proof -
  have "addsFinalizer ex_uc" by (auto simp: addsFinalizer_def ex_uc_def ex_k8s_def)
  from reconcile_finalizer_first[OF this] show ?thesis
    by (simp add: ex_uc_def ex_lbc_def ex_meta_def)
qed

section \<open>Finalizer last\<close>

text \<open>
  The teardown this run did: the object was gone; or, for the object it read, there was no load
  balancer in the status, the cloud said that load balancer does not exist, it was deleted, or it was
  left for one of the reasons of \<open>leftFor\<close>.
\<close>

definition settled :: "lbcUseCase \<Rightarrow> string \<Rightarrow> string \<Rightarrow> event list \<Rightarrow> bool" where
  "settled uc ns n es \<longleftrightarrow>
     (\<exists>err. k8s_IsNotFound (uc_k8s uc) err \<and> EvGetLBC ns n (Inl err) \<in> set es)
     \<or> (\<exists>obj. EvGetLBC ns n (Inr obj) \<in> set es
          \<and> (let status = lbc_Status obj; lbId = deref (ss_LoadBalancerId status) in
             \<not> nonempty (ss_LoadBalancerId status)
             \<or> (\<exists>err. IsLoadBalancerNotFound err \<and> EvGetLoadBalancerByID lbId (Inl err) \<in> set es)
             \<or> EvDeleteLoadBalancer lbId (Inr ()) \<in> set es
             \<or> leftFor (newTask uc obj) status lbId es))"

lemma readThrough_around: "readThrough l tags es since \<Longrightarrow> readThrough l tags (pre @ es @ post) (since @ post)"
  unfolding readThrough_def by (metis append.assoc)

lemma leftFor_around:
  assumes "leftFor t status lbId es" and "noRemovals post"
  shows "leftFor t status lbId (pre @ es @ post)"
proof -
  from assms(1) consider
      before since ls where "es = before @ EvListListenerOfLB lbId (Inr ls) # since" "ls \<noteq> []" "noRemovals since"
    | before since ps where "es = before @ EvListPool lbId (Inr ps) # since" "ps \<noteq> []" "noRemovals since"
    | tags0 since0 tags since where "readThrough lbId tags0 es since0"
        "\<not> createdByThisCluster (t_Spec t) status lbId (tagsToMap tags0)" "readThrough lbId tags es since" "noRemovals since"
        "\<not> looksLastOutOf t (tagsToMap tags) \<or> (\<exists>all. EvListLBC (Inr all) \<in> set since \<and> usedByOther t lbId all)"
    unfolding leftFor_def by blast
  then show ?thesis
  proof cases
    case 1
    have "pre @ es @ post = (pre @ before) @ EvListListenerOfLB lbId (Inr ls) # (since @ post)" using 1 by simp
    then show ?thesis unfolding leftFor_def using 1 assms(2) by (metis noRemovals_append)
  next
    case 2
    have "pre @ es @ post = (pre @ before) @ EvListPool lbId (Inr ps) # (since @ post)" using 2 by simp
    then show ?thesis unfolding leftFor_def using 2 assms(2) by (metis noRemovals_append)
  next
    case 3
    note r = readThrough_around[OF 3(1), of pre post] readThrough_around[OF 3(3), of pre post]
    have "noRemovals (since @ post)" using 3(4) assms(2) by simp
    moreover have "\<not> looksLastOutOf t (tagsToMap tags) \<or> (\<exists>all. EvListLBC (Inr all) \<in> set (since @ post) \<and> usedByOther t lbId all)"
      using 3(5) by auto
    ultimately show ?thesis unfolding leftFor_def using r 3(2) by blast
  qed
qed

lemma settled_around: "settled uc ns n es \<Longrightarrow> noRemovals post \<Longrightarrow> settled uc ns n (pre @ es @ post)"
  unfolding settled_def Let_def set_append using leftFor_around by blast

lemma leftFor_retiring:
  "leftFor t (status\<lparr>ss_RetiringLoadBalancer := x\<rparr>) lbId es = leftFor t status lbId es"
  by (simp add: leftFor_def createdByThisCluster_def)

lemma deleteLoadBalancer_settles:
  assumes "deleteLoadBalancer t lbId s = (Inr (), s')"
  shows "\<exists>es. hist s' = hist s @ es \<and> ((\<exists>err. IsLoadBalancerNotFound err \<and> EvGetLoadBalancerByID lbId (Inl err) \<in> set es)
    \<or> EvDeleteLoadBalancer lbId (Inr ()) \<in> set es \<or> leftFor t (lbStatus s) lbId es)"
proof (cases "api_GetLoadBalancerByID (t_vng t) (hist s) lbId")
  case (Inr lb)
  from deleteLoadBalancer_outcome[OF assms Inr] show ?thesis by blast
next
  case (Inl err)
  with assms have "IsLoadBalancerNotFound err" "hist s' = hist s @ [EvGetLoadBalancerByID lbId (Inl err)]"
    by (auto simp: deleteLoadBalancer_def GetLoadBalancerByID_def andThen_def attempt_def split: if_splits)
  then show ?thesis by auto
qed

lemma DeleteLoadBalancerConfigUseCase_settles:
  assumes "DeleteLoadBalancerConfigUseCase uc ns n s = (Inr (), s')"
  shows "\<exists>es. hist s' = hist s @ es \<and> settled uc ns n es"
proof (cases "k8s_GetLoadBalancerConfig (uc_k8s uc) (hist s) ns n")
  case (Inl err)
  with assms show ?thesis
    by (auto simp: DeleteLoadBalancerConfigUseCase_def clientGet_def IgnoreNotFound_def andThen_def attempt_def settled_def split: if_splits)
next
  case (Inr obj)
  define s1 where "s1 = s\<lparr>hist := hist s @ [EvGetLBC ns n (Inr obj)], lbStatus := lbc_Status obj, aclPeers := [], warnings := []\<rparr>"
  from assms Inr have "delete (newTask uc obj) s1 = (Inr (), s')"
    by (simp add: DeleteLoadBalancerConfigUseCase_def clientGet_def startTask_def andThen_def attempt_def s1_def)
  then obtain u s2 where ret: "retireOld (newTask uc obj) s1 = (Inr u, s2)"
    and del: "(if \<not> nonempty (ss_LoadBalancerId (lbStatus s2)) then returnM ()
       else deleteLoadBalancer (newTask uc obj) (deref (ss_LoadBalancerId (lbStatus s2)))) s2 = (Inr (), s')"
    unfolding delete_def by (auto simp: andThen_Inr_iff cong: if_cong)
  from retireOld_status[OF ret] obtain x where st: "lbStatus s2 = (lbc_Status obj)\<lparr>ss_RetiringLoadBalancer := x\<rparr>"
    by (auto simp: s1_def)
  from emitsR_hist[OF emits.safeD[OF safe_teardown_retire[OF refl prefix_order.refl] ret]] obtain es1 where
    h2: "hist s2 = hist s @ EvGetLBC ns n (Inr obj) # es1" by (auto simp: s1_def)
  show ?thesis
  proof (cases "nonempty (ss_LoadBalancerId (lbc_Status obj))")
    case False
    with del st h2 show ?thesis by (auto simp: settled_def Let_def)
  next
    case True
    with del st have "deleteLoadBalancer (newTask uc obj) (deref (ss_LoadBalancerId (lbc_Status obj))) s2 = (Inr (), s')" by simp
    from deleteLoadBalancer_settles[OF this, unfolded st leftFor_retiring] obtain es2 where
      h3: "hist s' = hist s2 @ es2" and out: "(\<exists>err. IsLoadBalancerNotFound err \<and> EvGetLoadBalancerByID (deref (ss_LoadBalancerId (lbc_Status obj))) (Inl err) \<in> set es2)
        \<or> EvDeleteLoadBalancer (deref (ss_LoadBalancerId (lbc_Status obj))) (Inr ()) \<in> set es2
        \<or> leftFor (newTask uc obj) (lbc_Status obj) (deref (ss_LoadBalancerId (lbc_Status obj))) es2" by blast
    have "leftFor (newTask uc obj) (lbc_Status obj) l es2 \<Longrightarrow>
        leftFor (newTask uc obj) (lbc_Status obj) l ((EvGetLBC ns n (Inr obj) # es1) @ es2)" for l
      using leftFor_around[of _ _ _ es2 "[]" "EvGetLBC ns n (Inr obj) # es1"] by (simp add: noRemovals_def)
    with out have "settled uc ns n ((EvGetLBC ns n (Inr obj) # es1) @ es2)"
      unfolding settled_def Let_def by auto
    with h2 h3 show ?thesis by (intro exI[of _ "(EvGetLBC ns n (Inr obj) # es1) @ es2"]) simp
  qed
qed

lemma addStep_keeps:
  assumes "addsFinalizer uc" and "HasFinalizer old f"
  shows "HasFinalizer (fst (fold (addStep uc) fs (old, False))) f"
proof -
  have "HasFinalizer (fst (fold (addStep uc) fs x)) f" if "HasFinalizer (fst x) f" for x
    using that by (induction fs arbitrary: x) (use assms(1) in \<open>auto simp: addStep_def addsFinalizer_def\<close>)
  with assms(2) show ?thesis by simp
qed

definition releasesFinalizer :: "LoadBalancerConfig \<Rightarrow> LoadBalancerConfig \<Rightarrow> bool" where
  "releasesFinalizer old new \<longleftrightarrow> HasFinalizer old LbcFinalizer \<and> \<not> HasFinalizer new LbcFinalizer"

text \<open>
  C2. The finalizer goes last. A reconcile releases the finalizer of a LoadBalancerConfig only after a
  teardown it did in the same run came to an end: the API server said the object was gone; or, for
  the object it returned, there was no load balancer in the status, the cloud said that load balancer
  does not exist, it was deleted, or it was left standing for a reason the run's own reads give
  (something is still on it, or it is another cluster's or another LBC's to delete).
\<close>

theorem reconcile_finalizer_last:
  assumes "addsFinalizer uc"
  shows "safe (emitsR (\<lambda>h e. case e of
      EvPatchMeta old new r \<Rightarrow> releasesFinalizer old new \<longrightarrow> (\<exists>es. h = hist s @ es \<and> settled uc ns n es)
    | _ \<Rightarrow> True)) (reconcile uc ns n) s"
proof -
  let ?P = "\<lambda>h e. case e of
      EvPatchMeta old new r \<Rightarrow> releasesFinalizer old new \<longrightarrow> (\<exists>es. h = hist s @ es \<and> settled uc ns n es)
    | _ \<Rightarrow> True"
  have calls: "?P h (EvGetLBC a b r)" "?P h (EvRecord a b x y z)" for h a b r x y z by simp_all
  have add: "?P h (EvPatchMeta old (fst (fold (addStep uc) fs (old, False))) r)" for h old fs r
    using addStep_keeps[OF assms, of old LbcFinalizer fs] unfolding releasesFinalizer_def event.case by blast
  have uses: "safe (emitsR ?P) (EnsureLoadBalancerConfigUseCase uc ns n) s'"
    "safe (emitsR ?P) (DeleteLoadBalancerConfigUseCase uc ns n) s'" for s'
    by (rule safe_emits_mono[OF noMeta_use_cases(1)] safe_emits_mono[OF noMeta_use_cases(2)];
        auto simp: noMeta_def split: event.splits)+
  have remove: "safe (emitsR ?P) (RemoveFinalizers uc ns n fs) s2"
    if "withMetrics (DeleteLoadBalancerConfigUseCase uc ns n) s1 = (Inr u, s2)" "emitsR ?P s s1" for u s1 s2 fs
  proof -
    from that(1) have "DeleteLoadBalancerConfigUseCase uc ns n s1 = (Inr (), s2)" by (simp add: withMetrics_def)
    from DeleteLoadBalancerConfigUseCase_settles[OF this] obtain es1 where
      "hist s2 = hist s1 @ es1" and set: "settled uc ns n es1" by blast
    with emitsR_hist[OF that(2)] obtain es0 where h: "hist s2 = hist s @ es0 @ es1" by auto
    show ?thesis
      by (rule safe_emits_RemoveFinalizers) (use h settled_around[OF set] in auto)
  qed
  show ?thesis
    unfolding reconcile_def reportEnd_def reconcileEnsure_def reconcileDelete_def
    by (intro safe_intro safe_emits_AddFinalizers calls add uses remove) (auto simp: emits.R_refl emitsR_def Cons_eq_append_conv)
qed

definition ex_gone :: LoadBalancerConfig where
  "ex_gone = ex_lbc\<lparr>lbc_Meta := ex_meta\<lparr>om_DeletionTimestamp := Some 0, om_Finalizers := [LbcFinalizer]\<rparr>\<rparr>"

definition isPatchMeta :: "event \<Rightarrow> bool" where
  "isPatchMeta e = (case e of EvPatchMeta _ _ _ \<Rightarrow> True | _ \<Rightarrow> False)"

definition ex_gone_uc :: lbcUseCase where
  "ex_gone_uc = ex_uc\<lparr>uc_k8s := (uc_k8s ex_uc)
     \<lparr>k8s_GetLoadBalancerConfig := \<lambda>h _ _. if list_ex isPatchMeta h then unavailable else Inr ex_gone,
      k8s_IsNotFound := \<lambda>_. True\<rparr>\<rparr>"

theorem reconcile_finalizer_last_witness:
  "\<exists>s' pre post. reconcile ex_gone_uc ''default'' ''lbc'' ex_st = (Inr (), s')
     \<and> hist s' = pre @ EvPatchMeta ex_gone (setFinalizers (\<lambda>_. []) ex_gone) (Inr ()) # post
     \<and> releasesFinalizer ex_gone (setFinalizers (\<lambda>_. []) ex_gone) \<and> settled ex_gone_uc ''default'' ''lbc'' pre"
proof -
  let ?get = "EvGetLBC ''default'' ''lbc'' (Inr ex_gone)"
  let ?es = "[?get, ?get, ?get, EvPatchMeta ex_gone (setFinalizers (\<lambda>_. []) ex_gone) (Inr ()),
    EvGetLBC ''default'' ''lbc'' unavailable, EvRecord ''default'' ''lbc'' ''Normal'' ''Deleted'' ''default/lbc'']"
  have fin: "om_Finalizers (lbc_Meta ex_gone) = [LbcFinalizer]" "om_DeletionTimestamp (lbc_Meta ex_gone) = Some 0"
    "lbc_Status ex_gone = ex_status"
    by (simp_all add: ex_gone_def ex_lbc_def)
  have env: "k8s_GetLoadBalancerConfig (uc_k8s ex_gone_uc) h a b = (if list_ex isPatchMeta h then unavailable else Inr ex_gone)"
    "k8s_IsNotFound (uc_k8s ex_gone_uc) err" "k8s_PatchMeta (uc_k8s ex_gone_uc) h old new = Inr ()"
    "k8s_RemoveFinalizer (uc_k8s ex_gone_uc) [LbcFinalizer] LbcFinalizer = []" for h a b err old new
    by (simp_all add: ex_gone_uc_def ex_uc_def ex_k8s_def)
  have set: "setFinalizers (\<lambda>fs. k8s_RemoveFinalizer (uc_k8s ex_gone_uc) fs LbcFinalizer) ex_gone = setFinalizers (\<lambda>_. []) ex_gone"
    by (simp add: setFinalizers_def fin env)
  have retry: "RetryOnConflict c n m s = (Inr x, s1)" if "m s = (Inr x, s1)" for c n m s x s1
    using that by (cases n) (simp_all add: andThen_def attempt_def)
  have await: "awaitRemoved ex_gone_uc ''default'' ''lbc'' fs k s = (Inr (), s\<lparr>hist := hist s @ [EvGetLBC ''default'' ''lbc'' unavailable]\<rparr>)"
    if "list_ex isPatchMeta (hist s)" for fs k s
    using that by (cases k) (simp_all add: clientGet_def IgnoreNotFound_def env unavailable_def andThen_def attempt_def)
  have rem: "RemoveFinalizers ex_gone_uc ''default'' ''lbc'' [LbcFinalizer] s = (Inr (), s\<lparr>hist := hist s @ drop 2 (butlast ?es)\<rparr>)"
    if "\<not> list_ex isPatchMeta (hist s)" for s
    unfolding RemoveFinalizers_def
    by (rule retry) (use that in \<open>simp add: clientGet_def PatchMeta_def removeStep_def env fin set await isPatchMeta_def andThen_def\<close>)
  have del: "DeleteLoadBalancerConfigUseCase ex_gone_uc ''default'' ''lbc'' (ex_st\<lparr>hist := [?get]\<rparr>) = (Inr (), ex_st\<lparr>hist := [?get, ?get]\<rparr>)"
    by (simp add: DeleteLoadBalancerConfigUseCase_def clientGet_def startTask_def delete_def retireOld_def env fin
        isPatchMeta_def ex_st_def ex_status_def andThen_def attempt_def)
  have h0: "hist ex_st = []" by (simp add: ex_st_def)
  have run: "reconcile ex_gone_uc ''default'' ''lbc'' ex_st = (Inr (), ex_st\<lparr>hist := ?es\<rparr>)"
    by (simp add: reconcile_def reportEnd_def reconcileDelete_def recordEvent_def IsSupported_def IsPendingFinalization_def
        withMetrics_def wrapErr_def clientGet_def env fin h0 del rem isPatchMeta_def andThen_def attempt_def unavailable_def)
  have law: "addsFinalizer ex_gone_uc" by (auto simp: addsFinalizer_def ex_gone_uc_def ex_uc_def ex_k8s_def)
  have rel: "releasesFinalizer ex_gone (setFinalizers (\<lambda>_. []) ex_gone)" by (simp add: releasesFinalizer_def fin)
  have "emitsR (\<lambda>h e. case e of
      EvPatchMeta old new r \<Rightarrow> releasesFinalizer old new \<longrightarrow> (\<exists>es. h = hist ex_st @ es \<and> settled ex_gone_uc ''default'' ''lbc'' es)
    | _ \<Rightarrow> True) ex_st (ex_st\<lparr>hist := ?es\<rparr>)"
    by (rule emits.safeD[OF reconcile_finalizer_last[OF law] run])
  from emitsR_split[OF this, of "[?get, ?get, ?get]" "EvPatchMeta ex_gone (setFinalizers (\<lambda>_. []) ex_gone) (Inr ())"] rel
  have "settled ex_gone_uc ''default'' ''lbc'' [?get, ?get, ?get]" by (simp add: ex_st_def)
  with run rel show ?thesis
    by (intro exI[of _ "ex_st\<lparr>hist := ?es\<rparr>"] exI[of _ "[?get, ?get, ?get]"] exI[of _ "drop 4 ?es"]) simp
qed

section \<open>What the status says\<close>

text \<open>
  Apimachinery documents that \<open>SetStatusCondition\<close> leaves the condition of that type with the given
  status, reason, message and generation, and that it reports no change only when it made none.
\<close>

definition reportsOutcome :: "int \<Rightarrow> string \<times> bool \<times> string \<Rightarrow> Condition \<Rightarrow> bool" where
  "reportsOutcome generation outcome c \<longleftrightarrow>
     cond_ObservedGeneration c = generation \<and> (cond_Message c, cond_Status c, cond_Reason c) = outcome"

definition setsCondition :: "lbcUseCase \<Rightarrow> bool" where
  "setsCondition uc \<longleftrightarrow>
     (\<forall>cs c changed cs'. k8s_SetStatusCondition (uc_k8s uc) cs c = (changed, cs') \<longrightarrow>
        (\<not> changed \<longrightarrow> cs' = cs)
        \<and> (\<exists>c'. find (\<lambda>x. cond_Type x = cond_Type c) cs' = Some c'
             \<and> reportsOutcome (cond_ObservedGeneration c) (cond_Message c, cond_Status c, cond_Reason c) c'))"

text \<open>The status tells the outcome of this reconcile, for this generation of the spec.\<close>

definition tellsOutcome :: "int \<Rightarrow> string \<times> bool \<times> string \<Rightarrow> LoadBalancerConfigStatus \<Rightarrow> bool" where
  "tellsOutcome generation outcome status \<longleftrightarrow>
     ss_ObservedGeneration status = Some generation \<and> ss_LastReconcileMessage status = fst outcome
     \<and> (\<exists>c. find (\<lambda>x. cond_Type x = LBCConditionTypeReady) (ss_Conditions status) = Some c
          \<and> reportsOutcome generation outcome c)"

lemma trackOutcome_tells:
  assumes "setsCondition uc" and "trackOutcome uc generation now outcome status = (changed, status')"
  shows "tellsOutcome generation outcome status' \<and> (\<not> changed \<longrightarrow> status' = status)"
proof -
  obtain message ok reason where o: "outcome = (message, ok, reason)" by (cases outcome)
  define stale where "stale \<longleftrightarrow> ss_ObservedGeneration status \<noteq> Some generation \<or> ss_LastReconcileMessage status \<noteq> message"
  define status1 where "status1 = (if stale then status\<lparr>ss_ObservedGeneration := Some generation,
    ss_LastReconcileMessage := message, ss_LastReconcileTime := Some now\<rparr> else status)"
  define new where "new = \<lparr>cond_Type = LBCConditionTypeReady, cond_Status = ok, cond_ObservedGeneration = generation,
    cond_LastTransitionTime = now, cond_Reason = reason, cond_Message = message\<rparr>"
  obtain ch cs where set: "k8s_SetStatusCondition (uc_k8s uc) (ss_Conditions status1) new = (ch, cs)"
    by (cases "k8s_SetStatusCondition (uc_k8s uc) (ss_Conditions status1) new")
  have eq: "changed = (stale \<or> ch)" "status' = status1\<lparr>ss_Conditions := cs\<rparr>"
    using assms(2) set by (auto simp: trackOutcome_def o Let_def stale_def status1_def new_def)
  from assms(1) set obtain c' where c: "\<not> ch \<longrightarrow> cs = ss_Conditions status1"
    "find (\<lambda>x. cond_Type x = cond_Type new) cs = Some c'"
    "reportsOutcome (cond_ObservedGeneration new) (cond_Message new, cond_Status new, cond_Reason new) c'"
    unfolding setsCondition_def by blast
  have "ss_ObservedGeneration status1 = Some generation" "ss_LastReconcileMessage status1 = message"
    by (auto simp: status1_def stale_def)
  with c(2,3) have "tellsOutcome generation outcome status'"
    by (simp add: tellsOutcome_def eq o new_def)
  moreover have "status' = status" if "\<not> changed"
    using that c(1) by (simp add: eq status1_def)
  ultimately show ?thesis by blast
qed

text \<open>A patch that fails ends with the call that failed.\<close>

definition callFailed :: "event \<Rightarrow> bool" where
  "callFailed e = (case e of EvGetLBC _ _ (Inl _) \<Rightarrow> True | EvPatchStatus _ _ (Inl _) \<Rightarrow> True | _ \<Rightarrow> False)"

lemma PatchMutateStatus_failure:
  assumes "PatchMutateStatus t mutate s = (Inl err, s')"
  shows "\<exists>es e. hist s' = hist s @ es @ [e] \<and> callFailed e"
proof -
  let ?m = "andThen (GetLoadBalancerConfig t (om_Namespace (t_Meta t)) (om_Name (t_Meta t))) (\<lambda>objGet.
          case mutate objGet of (changed, obj, d) \<Rightarrow>
            if \<not> changed then returnM d
            else andThen (StatusPatch t objGet obj) (\<lambda>_. returnM d))"
  have ext: "\<exists>es. hist (snd (?m s0)) = hist s0 @ es" for s0
    by (auto simp: GetLoadBalancerConfig_def StatusPatch_def andThen_def split: sum.splits prod.splits)
  have fail: "\<exists>es e. hist s1 = hist s0 @ es @ [e] \<and> callFailed e" if "?m s0 = (Inl e1, s1)" for s0 s1 e1
    using that by (auto simp: GetLoadBalancerConfig_def StatusPatch_def andThen_def callFailed_def split: sum.splits prod.splits if_splits)
  have "\<exists>es e. hist s1 = hist s0 @ es @ [e] \<and> callFailed e" if "RetryOnConflict c n ?m s0 = (Inl e1, s1)" for c n s0 s1 e1
    using that
  proof (induction n arbitrary: s0)
    case (Suc n)
    obtain r s2 where 1: "?m s0 = (r, s2)" by (cases "?m s0")
    show ?case
    proof (cases r)
      case (Inl e2)
      show ?thesis
      proof (cases "c e2")
        case True
        with Suc.prems 1 Inl have "RetryOnConflict c n ?m s2 = (Inl e1, s1)" by (simp add: andThen_def attempt_def)
        from Suc.IH[OF this] ext[of s0] 1 show ?thesis by auto
      next
        case False
        with Suc.prems 1 Inl have "s1 = s2" by (simp add: andThen_def attempt_def)
        with fail[of s0 e2 s2] 1 Inl show ?thesis by simp
      qed
    qed (use Suc.prems 1 in \<open>simp add: andThen_def attempt_def\<close>)
  qed (use fail in simp)
  with assms show ?thesis unfolding PatchMutateStatus_def patchMutateStatusObject_def by blast
qed

text \<open>What the use case returns for what \<open>ensure\<close> returned.\<close>

definition handedOn :: "string list result \<Rightarrow> unit result" where
  "handedOn r = (case r of Inl err \<Rightarrow> Inl err | Inr ws \<Rightarrow> if ws = [] then Inr () else Inl (ReconcileWarning ws))"

text \<open>
  C22. The Ready condition tells the truth. Once the use case has an object, it returns what the deploy
  returned (warnings as a \<open>ReconcileWarning\<close>), and the last thing it does is to bring the status to say
  so: the object it last read or had accepted carries the generation it worked on, the error's text or
  the success message, and a Ready condition that is True exactly if the deploy succeeded - warnings
  or not; unless a call for that very write failed.
\<close>

theorem EnsureLoadBalancerConfigUseCase_reports:
  assumes "setsCondition uc"
    and "k8s_GetLoadBalancerConfig (uc_k8s uc) (hist s) ns n = Inr lbConfig"
    and "ensure uc lbConfig (s\<lparr>hist := hist s @ [EvGetLBC ns n (Inr lbConfig)]\<rparr>) = (r, s1)"
  shows "\<exists>s' es. EnsureLoadBalancerConfigUseCase uc ns n s = (handedOn r, s') \<and> hist s' = hist s1 @ es
    \<and> ((\<exists>obj. tellsOutcome (om_Generation (lbc_Meta lbConfig))
              (case r of Inl err \<Rightarrow> (Error err, False, ''ReconcileFailed'')
                 | Inr _ \<Rightarrow> (''Successfully reconciled'', True, ''ReconcileSuccess'')) (lbc_Status obj)
          \<and> ((\<exists>ns n. EvGetLBC ns n (Inr obj) \<in> set es) \<or> (\<exists>old. EvPatchStatus old obj (Inr ()) \<in> set es)))
       \<or> (\<exists>es' e. es = es' @ [e] \<and> callFailed e))"
proof -
  have outcome: "(case r of Inl err \<Rightarrow> (Error err, False, ''ReconcileFailed'')
      | Inr _ \<Rightarrow> (''Successfully reconciled'', True, ''ReconcileSuccess'')) = outcomeOf r"
    by (simp add: outcomeOf_def LBCReasonReconcileFailed_def LBCReasonReconcileSuccess_def split: sum.split)
  let ?gen = "om_Generation (lbc_Meta lbConfig)"
  let ?now = "k8s_Now (uc_k8s uc) (hist s1)"
  let ?mut = "statusMut (trackOutcome uc ?gen ?now (outcomeOf r))"
  obtain p s' where patch: "PatchMutateStatus (newTask uc lbConfig) ?mut s1 = (p, s')"
    by (cases "PatchMutateStatus (newTask uc lbConfig) ?mut s1")
  have run: "EnsureLoadBalancerConfigUseCase uc ns n s = (handedOn r, s')"
    using assms(2,3) patch
    by (cases r) (auto simp: EnsureLoadBalancerConfigUseCase_def clientGet_def andThen_def attempt_def handedOn_def)
  have "\<exists>s' es. EnsureLoadBalancerConfigUseCase uc ns n s = (handedOn r, s') \<and> hist s' = hist s1 @ es
    \<and> ((\<exists>obj. tellsOutcome ?gen (outcomeOf r) (lbc_Status obj)
          \<and> ((\<exists>ns n. EvGetLBC ns n (Inr obj) \<in> set es) \<or> (\<exists>old. EvPatchStatus old obj (Inr ()) \<in> set es)))
       \<or> (\<exists>es' e. es = es' @ [e] \<and> callFailed e))"
  proof (cases p)
    case (Inl err)
    with PatchMutateStatus_failure[of "newTask uc lbConfig" ?mut s1 err s'] patch run show ?thesis by auto
  next
    case (Inr u)
    with PatchMutateStatus_success[of "newTask uc lbConfig" ?mut s1 u s'] patch obtain es obj changed obj' ns' n' where
      h: "hist s' = hist s1 @ es" "EvGetLBC ns' n' (Inr obj) \<in> set es"
      and mut: "?mut obj = (changed, obj', u)" and w: "changed \<longrightarrow> EvPatchStatus obj obj' (Inr ()) \<in> set es" by blast
    from mut have tr: "trackOutcome uc ?gen ?now (outcomeOf r) (lbc_Status obj) = (changed, lbc_Status obj')"
      by (auto simp: statusMut_def split: prod.splits)
    from trackOutcome_tells[OF assms(1) tr] have t: "tellsOutcome ?gen (outcomeOf r) (lbc_Status obj')"
      "\<not> changed \<Longrightarrow> lbc_Status obj' = lbc_Status obj" by blast+
    show ?thesis
      using run h w t by (cases changed) metis+
  qed
  then show ?thesis unfolding outcome .
qed

theorem EnsureLoadBalancerConfigUseCase_reports_witness:
  "\<exists>s' es. EnsureLoadBalancerConfigUseCase ex_uc ''default'' ''lbc'' ex_st = (Inl (ErrorString ''unavailable''), s')
     \<and> hist s' = [EvGetLBC ''default'' ''lbc'' (Inr ex_lbc), EvListCertificates unavailable] @ es
     \<and> ((\<exists>obj. tellsOutcome 1 (''unavailable'', False, ''ReconcileFailed'') (lbc_Status obj)
          \<and> ((\<exists>ns n. EvGetLBC ns n (Inr obj) \<in> set es) \<or> (\<exists>old. EvPatchStatus old obj (Inr ()) \<in> set es)))
        \<or> (\<exists>es' e. es = es' @ [e] \<and> callFailed e))"
proof -
  have find: "find (\<lambda>x. cond_Type x = cond_Type c) (snd (ex_setCondition cs c)) = Some c
    \<and> (\<not> fst (ex_setCondition cs c) \<longrightarrow> snd (ex_setCondition cs c) = cs)" for cs c
    by (induction cs) auto
  have law: "setsCondition ex_uc"
    unfolding setsCondition_def
  proof (intro allI impI conjI)
    fix cs c changed cs'
    assume "k8s_SetStatusCondition (uc_k8s ex_uc) cs c = (changed, cs')"
    then have eq: "changed = fst (ex_setCondition cs c)" "cs' = snd (ex_setCondition cs c)" by (simp_all add: ex_uc_def)
    with find[of c cs] show "\<not> changed \<Longrightarrow> cs' = cs" by simp
    from eq find[of c cs] show "\<exists>c'. find (\<lambda>x. cond_Type x = cond_Type c) cs' = Some c'
             \<and> reportsOutcome (cond_ObservedGeneration c) (cond_Message c, cond_Status c, cond_Reason c) c'"
      by (auto simp: reportsOutcome_def)
  qed
  have get: "k8s_GetLoadBalancerConfig (uc_k8s ex_uc) (hist ex_st) ''default'' ''lbc'' = Inr ex_lbc" by (simp add: ex_uc_def)
  have fail: "ensure ex_uc ex_lbc (ex_st\<lparr>hist := hist ex_st @ [EvGetLBC ''default'' ''lbc'' (Inr ex_lbc)]\<rparr>)
    = (Inl (ErrorString ''unavailable''), ex_st\<lparr>hist := [EvGetLBC ''default'' ''lbc'' (Inr ex_lbc), EvListCertificates unavailable]\<rparr>)"
    by (simp add: ensure_def startTask_def deploy_def deployCerts_def ListCertificates_def newTask_def ex_uc_def ex_lbc_def
        fromResult_def validateSelf_def validateSelfListenerPorts_def ex_spec_def ex_vng_def ex_st_def unavailable_def andThen_def)
  have "om_Generation (lbc_Meta ex_lbc) = 1" by (simp add: ex_lbc_def ex_meta_def)
  with EnsureLoadBalancerConfigUseCase_reports[OF law get fail] show ?thesis
    by (simp add: handedOn_def)
qed

end
