(* ===== verification/LB_Locks.thy ===== *)
theory LB_Locks
  imports LBC_UseCase
begin

text \<open>
  The mutexes of \<^verbatim>\<open>internal/usecase/lbc_uc/lbc_uc.go\<close>: workers reconcile LoadBalancerConfigs side by
  side, and those whose object names a load balancer take that load balancer's mutex for the whole
  run. A step of a worker is a fetch, taking the mutex, or the end of its run (the deferred unlock).
\<close>

definition getLoadBalancerID :: "LoadBalancerConfig \<Rightarrow> string" where
  "getLoadBalancerID lbConfig =
     (if nonempty (sp_LoadBalancerId (lbc_Spec lbConfig)) then deref (sp_LoadBalancerId (lbc_Spec lbConfig))
      else if nonempty (ss_LoadBalancerId (lbc_Status lbConfig)) then deref (ss_LoadBalancerId (lbc_Status lbConfig))
      else [])"

text \<open>The mutex of an id; \<open>nil\<close> for no id. \<open>LoadOrStore\<close> makes it the same one for everybody.\<close>

definition getLBLock :: "string \<Rightarrow> string option" where
  "getLBLock lbID = (if lbID = [] then None else Some lbID)"

datatype worker = Idle | Fetched LoadBalancerConfig | Running LoadBalancerConfig

record lbLocks =
  lockHolder :: "string \<Rightarrow> nat option"
  workers :: "nat \<Rightarrow> worker"

definition lockOf :: "LoadBalancerConfig \<Rightarrow> string option" where
  "lockOf lbConfig = getLBLock (getLoadBalancerID lbConfig)"

inductive lock_step :: "nat \<Rightarrow> lbLocks \<Rightarrow> lbLocks \<Rightarrow> bool" for w where
  fetch: "workers s w = Idle \<Longrightarrow> lock_step w s (s\<lparr>workers := (workers s)(w := Fetched lbConfig)\<rparr>)"
| run_unlocked: "workers s w = Fetched lbConfig \<Longrightarrow> lockOf lbConfig = None
    \<Longrightarrow> lock_step w s (s\<lparr>workers := (workers s)(w := Running lbConfig)\<rparr>)"
| acquire: "workers s w = Fetched lbConfig \<Longrightarrow> lockOf lbConfig = Some l \<Longrightarrow> lockHolder s l = None
    \<Longrightarrow> lock_step w s (s\<lparr>lockHolder := (lockHolder s)(l := Some w), workers := (workers s)(w := Running lbConfig)\<rparr>)"
| finish_unlocked: "workers s w = Running lbConfig \<Longrightarrow> lockOf lbConfig = None
    \<Longrightarrow> lock_step w s (s\<lparr>workers := (workers s)(w := Idle)\<rparr>)"
| release: "workers s w = Running lbConfig \<Longrightarrow> lockOf lbConfig = Some l
    \<Longrightarrow> lock_step w s (s\<lparr>lockHolder := (lockHolder s)(l := None), workers := (workers s)(w := Idle)\<rparr>)"

inductive_cases lock_stepE: "lock_step w s s'"

definition startLocks :: lbLocks where
  "startLocks = \<lparr>lockHolder = \<lambda>_. None, workers = \<lambda>_. Idle\<rparr>"

inductive lock_reach :: "lbLocks \<Rightarrow> bool" where
  init: "lock_reach startLocks"
| step: "lock_reach s \<Longrightarrow> lock_step w s s' \<Longrightarrow> lock_reach s'"

text \<open>The holder of a mutex is the one worker running with it.\<close>

definition holdersRun :: "lbLocks \<Rightarrow> bool" where
  "holdersRun s \<longleftrightarrow>
     (\<forall>l w. lockHolder s l = Some w \<longleftrightarrow> (\<exists>lbConfig. workers s w = Running lbConfig \<and> lockOf lbConfig = Some l))"

lemma holdersRun_step:
  assumes "lock_step w s s'" and "holdersRun s"
  shows "holdersRun s'"
proof -
  from assms(2) have run: "workers s v = Running c \<Longrightarrow> lockOf c = Some l \<Longrightarrow> lockHolder s l = Some v" for v c l
    unfolding holdersRun_def by blast
  have same: "workers s v = Running c \<Longrightarrow> workers s v' = Running c' \<Longrightarrow> lockOf c = Some l \<Longrightarrow> lockOf c' = Some l \<Longrightarrow> v = v'"
    for v v' c c' l
    using run[of v c l] run[of v' c' l] by simp
  from assms show ?thesis
    by (elim lock_stepE) (auto simp: holdersRun_def dest: run same)
qed

lemma lock_reach_holders: "lock_reach s \<Longrightarrow> holdersRun s"
  by (induction rule: lock_reach.induct) (auto simp: holdersRun_step, simp add: holdersRun_def startLocks_def)



end
