(* ===== verification/Ttl_Cache.thy ===== *)
theory Ttl_Cache
  imports Tags
begin

text \<open>
  The expiring cache of \<^verbatim>\<open>internal/repository/vngcloud_repo/ttl_cache.go\<close> and the tag calls that go
  through it, \<^verbatim>\<open>vngcloud_tags.go\<close>. Times are \<^typ>\<open>int\<close> nanoseconds. Every operation holds the
  cache's mutex, so operations are atomic; each read of the clock is an argument. The order in which
  Go ranges over a map is not determined: it is the parameter \<open>order\<close>, any list of the keys. Between
  its two uses of the cache \<open>ListTags\<close> asks the API; the calls of the model do not overlap, as the mutex
  per load balancer (\<open>LB_Locks\<close>) has it for the runs that name one.
\<close>

section \<open>The cache\<close>

record 'v ttlCacheEntry =
  ce_value :: 'v
  ce_expiresAt :: int

record 'v ttlCache =
  entries :: "(string \<times> 'v ttlCacheEntry) list"
  ttl :: int
  maxSize :: int

definition newTTLCache :: "int \<Rightarrow> int \<Rightarrow> 'v ttlCache" where
  "newTTLCache d n = \<lparr>entries = [], ttl = d, maxSize = n\<rparr>"

definition ttl_get :: "'v ttlCache \<Rightarrow> int \<Rightarrow> string \<Rightarrow> 'v option" where
  "ttl_get c now key =
     (case map_of (entries c) key of
        None \<Rightarrow> None
      | Some entry \<Rightarrow> if ce_expiresAt entry < now then None else Some (ce_value entry))"

definition dropExpired :: "int \<Rightarrow> (string \<times> 'v ttlCacheEntry) list \<Rightarrow> (string \<times> 'v ttlCacheEntry) list" where
  "dropExpired now es = filter (\<lambda>(k, e). \<not> ce_expiresAt e < now) es"

text \<open>
  \<open>for len(c.entries) >= c.maxSize { for key := range c.entries { if key == incoming { continue }; delete; break } }\<close>.
  Nothing bounds the outer loop, so it is a partial function: \<open>None\<close> is a loop that does not end.
\<close>

definition evictOne ::
  "(string list \<Rightarrow> string list) \<Rightarrow> string \<Rightarrow> (string \<times> 'v ttlCacheEntry) list \<Rightarrow> (string \<times> 'v ttlCacheEntry) list" where
  "evictOne order incoming es =
     (case find (\<lambda>k. k \<noteq> incoming) (order (map fst es)) of None \<Rightarrow> es | Some k \<Rightarrow> AList.delete k es)"

partial_function (option) evictLoop ::
  "(string list \<Rightarrow> string list) \<Rightarrow> string \<Rightarrow> int \<Rightarrow> (string \<times> 'v ttlCacheEntry) list \<Rightarrow> (string \<times> 'v ttlCacheEntry) list option"
where
  "evictLoop order incoming n es =
     (if n \<le> int (length es) then evictLoop order incoming n (evictOne order incoming es) else Some es)"

definition evictLocked :: "(string list \<Rightarrow> string list) \<Rightarrow> int \<Rightarrow> string \<Rightarrow> 'v ttlCache \<Rightarrow> 'v ttlCache option" where
  "evictLocked order now incoming c =
     map_option (\<lambda>es. c\<lparr>entries := es\<rparr>) (evictLoop order incoming (maxSize c) (dropExpired now (entries c)))"

text \<open>\<open>t0\<close> is the time \<open>evictLocked\<close> reads, \<open>t\<close> the one the new entry is stamped with.\<close>

definition ttl_put ::
  "(string list \<Rightarrow> string list) \<Rightarrow> (int \<Rightarrow> int) \<Rightarrow> int \<Rightarrow> int \<Rightarrow> string \<Rightarrow> 'v \<Rightarrow> 'v ttlCache \<Rightarrow> 'v ttlCache option" where
  "ttl_put order jitter t0 t key v c =
     (case (if maxSize c \<le> int (length (entries c)) then evictLocked order t0 key c else Some c) of
        None \<Rightarrow> None
      | Some c' \<Rightarrow>
          Some (c'\<lparr>entries := AList.update key \<lparr>ce_value = v, ce_expiresAt = t + jitter (ttl c')\<rparr> (entries c')\<rparr>))"

definition ttl_invalidate :: "string \<Rightarrow> 'v ttlCache \<Rightarrow> 'v ttlCache" where
  "ttl_invalidate key c = c\<lparr>entries := AList.delete key (entries c)\<rparr>"

definition ttl_len :: "'v ttlCache \<Rightarrow> int" where
  "ttl_len c = int (length (entries c))"

section \<open>Eviction ends, and makes room\<close>

definition distinctKeys :: "(string \<times> 'a) list \<Rightarrow> bool" where
  "distinctKeys es \<longleftrightarrow> distinct (map fst es)"

lemma distinctKeys_delete: "distinctKeys es \<Longrightarrow> distinctKeys (AList.delete k es)"
  by (simp add: distinctKeys_def distinct_delete)

lemma distinctKeys_update: "distinctKeys es \<Longrightarrow> distinctKeys (AList.update k v es)"
  by (simp add: distinctKeys_def distinct_update)

lemma length_delete_less:
  assumes "k \<in> fst ` set es"
  shows "length (AList.delete k es) < length es"
  using assms
proof (induction es)
  case (Cons e es)
  have "length (AList.delete k es) \<le> length es" by (simp add: AList.delete_eq)
  with Cons show ?case by (cases e) auto
qed simp

text \<open>What eviction keeps of a map of entries.\<close>

definition shrinks :: "string \<Rightarrow> (string \<times> 'a) list \<Rightarrow> (string \<times> 'a) list \<Rightarrow> bool" where
  "shrinks incoming es es' \<longleftrightarrow> distinctKeys es' \<and> map_of es' \<subseteq>\<^sub>m map_of es \<and> length es' \<le> length es"

lemma length_delete_le: "length (AList.delete k es) \<le> length es"
  by (simp add: AList.delete_eq)

lemma map_of_delete_le: "map_of (AList.delete k es) \<subseteq>\<^sub>m map_of es"
  by (simp add: delete_conv' map_le_def)

lemma shrinks_trans: "shrinks i a b \<Longrightarrow> shrinks i b c \<Longrightarrow> shrinks i a c"
  by (auto simp: shrinks_def intro: map_le_trans)

lemma shrinks_dropExpired:
  assumes "distinctKeys es"
  shows "shrinks i es (dropExpired now es)"
proof -
  have d: "distinctKeys (dropExpired now es)"
    using assms unfolding distinctKeys_def dropExpired_def by (rule distinct_map_filter)
  have "map_of es k = Some e" if "map_of (dropExpired now es) k = Some e" for k e
  proof -
    from map_of_SomeD[OF that] have "(k, e) \<in> set es" by (simp add: dropExpired_def)
    with assms show ?thesis by (simp add: distinctKeys_def)
  qed
  then show ?thesis using d by (auto simp: shrinks_def map_le_def dom_def dropExpired_def)
qed

text \<open>
  The loop ends when the cache may hold two entries, or one and the key is not in it yet: then there
  is always a key to drop. (With room for one entry and the key already in it, it would not end.)
\<close>

lemma evictLoop_ends:
  assumes order: "\<And>ks. set (order ks) = set ks" and "distinctKeys es"
    and "2 \<le> n \<or> n = 1 \<and> incoming \<notin> fst ` set es"
  shows "\<exists>es'. evictLoop order incoming n es = Some es' \<and> int (length es') < n \<and> shrinks incoming es es'"
  using assms(2,3)
proof (induction "length es" arbitrary: es rule: less_induct)
  case less
  show ?case
  proof (cases "n \<le> int (length es)")
    case False
    then show ?thesis using less.prems(1) by (simp add: evictLoop.simps[of order incoming n es] shrinks_def)
  next
    case True
    have "\<exists>k \<in> set (map fst es). k \<noteq> incoming"
    proof (rule ccontr)
      assume "\<not> ?thesis"
      then have "set (map fst es) \<subseteq> {incoming}" by blast
      then have "card (set (map fst es)) \<le> 1" using card_mono[of "{incoming}"] by simp
      with less.prems(1) have "length es \<le> 1" using distinct_card[of "map fst es"] by (simp add: distinctKeys_def)
      moreover from this less.prems(2) True have "n = 1" "es = []"
        using \<open>set (map fst es) \<subseteq> {incoming}\<close> by (cases es; force)+
      ultimately show False using True by simp
    qed
    with order[of "map fst es"] obtain k where
      k: "find (\<lambda>k. k \<noteq> incoming) (order (map fst es)) = Some k"
      by (metis (mono_tags, lifting) find_None_iff option.exhaust)
    then have "k \<in> set (map fst es)"
      using order[of "map fst es"] by (metis find_Some_iff nth_mem)
    then have len: "length (evictOne order incoming es) < length es" by (simp add: evictOne_def k length_delete_less)
    have one: "shrinks incoming es (evictOne order incoming es)"
      using less.prems(1) len by (simp add: shrinks_def evictOne_def k distinctKeys_delete map_of_delete_le)
    have "incoming \<notin> fst ` set (evictOne order incoming es)" if "incoming \<notin> fst ` set es"
      using that by (auto simp: evictOne_def k AList.delete_eq)
    with less.prems(2) less.hyps[OF len] one obtain es' where
      "evictLoop order incoming n (evictOne order incoming es) = Some es'" "int (length es') < n"
      "shrinks incoming (evictOne order incoming es) es'"
      unfolding shrinks_def by blast
    with True one show ?thesis
      by (auto simp: evictLoop.simps[of order incoming n es] intro: shrinks_trans)
  qed
qed

lemma length_update_le: "length (AList.update k v es) \<le> Suc (length es)"
  by (induction es) auto

lemma put_ends:
  assumes "\<And>ks. set (order ks) = set ks" and "distinctKeys (entries c)" and "2 \<le> maxSize c"
    and "ttl_len c \<le> maxSize c"
  shows "\<exists>c'. ttl_put order jitter t0 t key v c = Some c' \<and> ttl_len c' \<le> maxSize c'
    \<and> maxSize c' = maxSize c \<and> ttl c' = ttl c \<and> distinctKeys (entries c')
    \<and> (\<forall>now \<le> t + jitter (ttl c). ttl_get c' now key = Some v)
    \<and> (\<forall>k now. k \<noteq> key \<longrightarrow> ttl_get c' now k \<in> {None, ttl_get c now k})"
proof -
  have *: "\<exists>c1. (if maxSize c \<le> int (length (entries c)) then evictLocked order t0 key c else Some c) = Some c1
      \<and> shrinks key (entries c) (entries c1) \<and> int (length (entries c1)) < maxSize c \<and> maxSize c1 = maxSize c \<and> ttl c1 = ttl c"
  proof (cases "maxSize c \<le> int (length (entries c))")
    case True
    note drop = shrinks_dropExpired[OF assms(2), of key t0]
    then have "distinctKeys (dropExpired t0 (entries c))" by (simp add: shrinks_def)
    from evictLoop_ends[of order, OF assms(1) this] assms(3) drop True show ?thesis
      by (force simp: evictLocked_def intro: shrinks_trans)
  qed (use assms(2) in \<open>auto simp: shrinks_def\<close>)
  then obtain c1 where c1: "(if maxSize c \<le> int (length (entries c)) then evictLocked order t0 key c else Some c) = Some c1"
    "shrinks key (entries c) (entries c1)" "int (length (entries c1)) < maxSize c" "maxSize c1 = maxSize c" "ttl c1 = ttl c"
    by blast
  define c' where "c' = c1\<lparr>entries := AList.update key \<lparr>ce_value = v, ce_expiresAt = t + jitter (ttl c1)\<rparr> (entries c1)\<rparr>"
  have "ttl_put order jitter t0 t key v c = Some c'" using c1(1) by (simp add: ttl_put_def c'_def)
  moreover have "ttl_len c' \<le> maxSize c'"
    using c1(3,4) length_update_le[of key "\<lparr>ce_value = v, ce_expiresAt = t + jitter (ttl c1)\<rparr>" "entries c1"]
    unfolding ttl_len_def c'_def by simp
  moreover have "ttl_get c' now k \<in> {None, ttl_get c now k}" if "k \<noteq> key" for k now
    using c1(2) that by (force simp: ttl_get_def c'_def update_conv' shrinks_def map_le_def dom_def split: option.splits)
  moreover have "distinctKeys (entries c')" using c1(2) by (simp add: c'_def distinctKeys_update shrinks_def)
  moreover have "ttl_get c' now key = Some v" if "now \<le> t + jitter (ttl c)" for now
    using that c1(5) by (simp add: ttl_get_def c'_def update_conv')
  ultimately show ?thesis using c1(4,5) by (intro exI[of _ c']) (auto simp: c'_def)
qed

text \<open>
  A put returns and keeps the cache within its bound. For a cache with room for two entries, and
  whatever order Go ranges over the map in, \<open>put\<close> ends; afterwards the cache holds at most \<open>maxSize\<close>
  entries, its keys are distinct, the new value is found until it expires, and every other entry is
  one it held before.
\<close>

theorem ttl_put_bounded:
  assumes "\<And>ks. set (order ks) = set ks" and "distinctKeys (entries c)" and "2 \<le> maxSize c"
    and "ttl_len c \<le> maxSize c"
  shows "\<exists>c'. ttl_put order jitter t0 t key v c = Some c' \<and> ttl_len c' \<le> maxSize c'
    \<and> maxSize c' = maxSize c \<and> ttl c' = ttl c \<and> distinctKeys (entries c')
    \<and> (\<forall>now \<le> t + jitter (ttl c). ttl_get c' now key = Some v)
    \<and> (\<forall>k now. k \<noteq> key \<longrightarrow> ttl_get c' now k \<in> {None, ttl_get c now k})"
  using assms by (rule put_ends)

theorem ttl_put_bounded_witness:
  "\<exists>c'. ttl_put rev (\<lambda>d. d) 5 5 ''c'' (3::nat)
       \<lparr>entries = [(''a'', \<lparr>ce_value = 1, ce_expiresAt = 100\<rparr>), (''b'', \<lparr>ce_value = 2, ce_expiresAt = 100\<rparr>)], ttl = 10, maxSize = 2\<rparr>
       = Some c' \<and> ttl_len c' \<le> 2 \<and> ttl_get c' 15 ''c'' = Some 3"
proof -
  let ?c = "\<lparr>entries = [(''a'', \<lparr>ce_value = 1, ce_expiresAt = 100\<rparr>), (''b'', \<lparr>ce_value = 2, ce_expiresAt = 100\<rparr>)],
    ttl = 10, maxSize = 2\<rparr> :: nat ttlCache"
  have "distinctKeys (entries ?c)" "2 \<le> maxSize ?c" "ttl_len ?c \<le> maxSize ?c" by (simp_all add: distinctKeys_def ttl_len_def)
  from ttl_put_bounded[of rev ?c "\<lambda>d. d" 5 5 "''c''" 3, OF _ this] show ?thesis by auto
qed

section \<open>What is remembered was put\<close>

text \<open>
  The abstract cache is the list of what was done to it. It remembers, for each key, the last value
  put and not invalidated since, with its time and expiry.
\<close>

datatype 'v cacheOp = OpPut string 'v int int | OpInvalidate string

fun remember :: "(string \<rightharpoonup> 'v \<times> int \<times> int) \<Rightarrow> 'v cacheOp \<Rightarrow> (string \<rightharpoonup> 'v \<times> int \<times> int)" where
  "remember m (OpPut k v t x) = m(k \<mapsto> (v, t, x))"
| "remember m (OpInvalidate k) = m(k := None)"

definition remembered :: "'v cacheOp list \<Rightarrow> (string \<rightharpoonup> 'v \<times> int \<times> int)" where
  "remembered ops = foldl remember Map.empty ops"

lemma remembered_snoc [simp]: "remembered (ops @ [x]) = remember (remembered ops) x"
  by (simp add: remembered_def)

text \<open>
  The simulation: every entry is one the abstract cache remembers, with the same value and expiry.
  Eviction only shrinks the concrete side, so the relation is one-sided - a cache may always miss.
\<close>

definition simulates :: "(int \<Rightarrow> int) \<Rightarrow> 'v cacheOp list \<Rightarrow> 'v ttlCache \<Rightarrow> bool" where
  "simulates jitter ops c \<longleftrightarrow> distinctKeys (entries c)
     \<and> (\<forall>k e. map_of (entries c) k = Some e \<longrightarrow>
          (\<exists>t. remembered ops k = Some (ce_value e, t, ce_expiresAt e) \<and> ce_expiresAt e = t + jitter (ttl c)))"

lemma simulates_new: "simulates jitter [] (newTTLCache d n)"
  by (simp add: simulates_def newTTLCache_def distinctKeys_def)

lemma simulates_invalidate:
  "simulates jitter ops c \<Longrightarrow> simulates jitter (ops @ [OpInvalidate k]) (ttl_invalidate k c)"
  by (auto simp: simulates_def ttl_invalidate_def distinctKeys_delete delete_conv')

lemma shrinks_evictOne: "distinctKeys es \<Longrightarrow> shrinks i es (evictOne order incoming es)"
  by (auto simp: shrinks_def evictOne_def distinctKeys_delete map_of_delete_le length_delete_le split: option.split)

lemma evictLoop_shrinks:
  assumes "evictLoop order incoming n es = Some es'" and "distinctKeys es"
  shows "shrinks incoming es es'"
proof -
  have "distinctKeys es \<longrightarrow> shrinks incoming es es'"
  proof (rule evictLoop.raw_induct[where P = "\<lambda>order incoming n es es'. distinctKeys es \<longrightarrow> shrinks incoming es es'", OF _ assms(1)], rule impI)
    fix loop :: "(string list \<Rightarrow> string list) \<Rightarrow> string \<Rightarrow> int \<Rightarrow> (string \<times> 'a ttlCacheEntry) list \<Rightarrow> (string \<times> 'a ttlCacheEntry) list option"
      and order incoming n es es'
    assume ih: "\<And>order incoming n es es'. loop order incoming n es = Some es' \<Longrightarrow> distinctKeys es \<longrightarrow> shrinks incoming es es'"
      and run: "(if n \<le> int (length es) then loop order incoming n (evictOne order incoming es) else Some es) = Some es'"
      and d: "distinctKeys es"
    show "shrinks incoming es es'"
    proof (cases "n \<le> int (length es)")
      case True
      with run have "loop order incoming n (evictOne order incoming es) = Some es'" by simp
      from ih[OF this] shrinks_evictOne[OF d] show ?thesis unfolding shrinks_def by (meson map_le_trans order.trans)
    qed (use run d in \<open>simp add: shrinks_def\<close>)
  qed
  with assms(2) show ?thesis by blast
qed

lemma simulates_shrinks:
  "simulates jitter ops c \<Longrightarrow> shrinks i (entries c) es \<Longrightarrow> simulates jitter ops (c\<lparr>entries := es\<rparr>)"
  unfolding simulates_def shrinks_def by (auto simp: map_le_def dom_def)

lemma simulates_put:
  assumes "simulates jitter ops c" and "ttl_put order jitter t0 t k v c = Some c'"
  shows "simulates jitter (ops @ [OpPut k v t (t + jitter (ttl c))]) c'"
proof -
  from assms(2) obtain c1 where c1: "(if maxSize c \<le> int (length (entries c)) then evictLocked order t0 k c else Some c) = Some c1"
    and c': "c' = c1\<lparr>entries := AList.update k \<lparr>ce_value = v, ce_expiresAt = t + jitter (ttl c1)\<rparr> (entries c1)\<rparr>"
    by (auto simp: ttl_put_def split: option.splits)
  have "simulates jitter ops c1 \<and> ttl c1 = ttl c"
  proof (cases "maxSize c \<le> int (length (entries c))")
    case True
    with c1 obtain es where es: "evictLoop order k (maxSize c) (dropExpired t0 (entries c)) = Some es" "c1 = c\<lparr>entries := es\<rparr>"
      by (auto simp: evictLocked_def)
    have d: "distinctKeys (entries c)" using assms(1) by (simp add: simulates_def)
    note drop = shrinks_dropExpired[OF d, of k t0]
    then have "distinctKeys (dropExpired t0 (entries c))" by (simp add: shrinks_def)
    from shrinks_trans[OF drop evictLoop_shrinks[OF es(1) this]] es(2) assms(1) show ?thesis
      by (auto intro: simulates_shrinks)
  qed (use c1 assms(1) in auto)
  then show ?thesis
    by (auto simp: simulates_def c' distinctKeys_update update_conv' split: if_splits)
qed

lemma simulates_get:
  assumes "simulates jitter ops c" and "ttl_get c now k = Some v"
  shows "\<exists>t. remembered ops k = Some (v, t, t + jitter (ttl c)) \<and> now \<le> t + jitter (ttl c)"
  using assms unfolding simulates_def ttl_get_def by (force split: option.splits if_splits)

section \<open>Tags through the cache\<close>

definition tagCacheTTL :: int where "tagCacheTTL = 5 * Minute"
definition tagCacheMaxSize :: int where "tagCacheMaxSize = 512"

text \<open>The calls that reach the API, with the time their answer was in hand, and the invalidations.\<close>

datatype tagCall =
    ApiListTags string int "entity_Tag option list result"
  | ApiCreateTags string gomap "unit result"
  | ApiUpdateTags string gomap "unit result"
  | Invalidated string

record tagApi =
  ta_ListTags :: "tagCall list \<Rightarrow> string \<Rightarrow> entity_Tag option list result"
  ta_CreateTags :: "tagCall list \<Rightarrow> string \<Rightarrow> gomap \<Rightarrow> unit result"
  ta_UpdateTags :: "tagCall list \<Rightarrow> string \<Rightarrow> gomap \<Rightarrow> unit result"

record tagRepo =
  tagCache :: "entity_Tag list ttlCache"
  tagTrace :: "tagCall list"

definition newTagRepo :: tagRepo where
  "newTagRepo = \<lparr>tagCache = newTTLCache tagCacheTTL tagCacheMaxSize, tagTrace = []\<rparr>"

fun tagValues :: "entity_Tag option list \<Rightarrow> entity_Tag list" where
  "tagValues [] = []"
| "tagValues (None # tags) = tagValues tags"
| "tagValues (Some tag # tags) = tag # tagValues tags"

definition listTagsFrom :: "entity_Tag list \<Rightarrow> entity_Tag option list" where
  "listTagsFrom values = map Some values"

text \<open>The clock is read by \<open>get\<close>, by the eviction, and when the entry is stamped.\<close>

definition repo_ListTags ::
  "tagApi \<Rightarrow> (string list \<Rightarrow> string list) \<Rightarrow> (int \<Rightarrow> int) \<Rightarrow> int \<times> int \<times> int \<Rightarrow> string \<Rightarrow> tagRepo
   \<Rightarrow> (entity_Tag option list result \<times> tagRepo) option" where
  "repo_ListTags api order jitter clock resourceID s =
     (case clock of (now, t0, t) \<Rightarrow>
        case ttl_get (tagCache s) now resourceID of
          Some cached \<Rightarrow> Some (Inr (listTagsFrom cached), s)
        | None \<Rightarrow>
            let res = ta_ListTags api (tagTrace s) resourceID;
                s1 = s\<lparr>tagTrace := tagTrace s @ [ApiListTags resourceID t res]\<rparr>
            in case res of
                 Inl sdkErr \<Rightarrow> Some (Inl sdkErr, s1)
               | Inr tags \<Rightarrow>
                   map_option (\<lambda>c. (Inr tags, s1\<lparr>tagCache := c\<rparr>))
                     (ttl_put order jitter t0 t resourceID (tagValues tags) (tagCache s)))"

definition repo_InvalidateTagsCache :: "string \<Rightarrow> tagRepo \<Rightarrow> tagRepo" where
  "repo_InvalidateTagsCache resourceID s =
     s\<lparr>tagCache := ttl_invalidate resourceID (tagCache s), tagTrace := tagTrace s @ [Invalidated resourceID]\<rparr>"

text \<open>\<open>defer m.tagCache.invalidate(resourceID)\<close>: the entry goes whatever the call answers.\<close>

definition repo_CreateTags :: "tagApi \<Rightarrow> string \<Rightarrow> gomap \<Rightarrow> tagRepo \<Rightarrow> unit result \<times> tagRepo" where
  "repo_CreateTags api resourceID tags s =
     (let res = ta_CreateTags api (tagTrace s) resourceID tags
      in (res, s\<lparr>tagCache := ttl_invalidate resourceID (tagCache s),
                 tagTrace := tagTrace s @ [ApiCreateTags resourceID tags res]\<rparr>))"

definition repo_UpdateTags :: "tagApi \<Rightarrow> string \<Rightarrow> gomap \<Rightarrow> tagRepo \<Rightarrow> unit result \<times> tagRepo" where
  "repo_UpdateTags api resourceID tags s =
     (let res = ta_UpdateTags api (tagTrace s) resourceID tags
      in (res, s\<lparr>tagCache := ttl_invalidate resourceID (tagCache s),
                 tagTrace := tagTrace s @ [ApiUpdateTags resourceID tags res]\<rparr>))"

text \<open>The states of the repository, under any interleaving of its methods.\<close>

inductive tag_reach :: "tagApi \<Rightarrow> (int \<Rightarrow> int) \<Rightarrow> tagRepo \<Rightarrow> bool" for api jitter where
  start: "tag_reach api jitter newTagRepo"
| list_tags: "tag_reach api jitter s \<Longrightarrow> (\<And>ks. set (order ks) = set ks) \<Longrightarrow>
    repo_ListTags api order jitter clock r s = Some (res, s') \<Longrightarrow> tag_reach api jitter s'"
| forget_tags: "tag_reach api jitter s \<Longrightarrow> tag_reach api jitter (repo_InvalidateTagsCache r s)"
| create_tags: "tag_reach api jitter s \<Longrightarrow> tag_reach api jitter (snd (repo_CreateTags api r tags s))"
| update_tags: "tag_reach api jitter s \<Longrightarrow> tag_reach api jitter (snd (repo_UpdateTags api r tags s))"

section \<open>A served answer is a recent one\<close>

text \<open>The abstract cache operations of a trace.\<close>

fun opOf :: "(int \<Rightarrow> int) \<Rightarrow> tagCall \<Rightarrow> entity_Tag list cacheOp list" where
  "opOf jitter (ApiListTags r t (Inr tags)) = [OpPut r (tagValues tags) t (t + jitter tagCacheTTL)]"
| "opOf jitter (ApiListTags r t (Inl e)) = []"
| "opOf jitter (ApiCreateTags r tags res) = [OpInvalidate r]"
| "opOf jitter (ApiUpdateTags r tags res) = [OpInvalidate r]"
| "opOf jitter (Invalidated r) = [OpInvalidate r]"

definition opsOf :: "(int \<Rightarrow> int) \<Rightarrow> tagCall list \<Rightarrow> entity_Tag list cacheOp list" where
  "opsOf jitter trace = concat (map (opOf jitter) trace)"

lemma opsOf_snoc [simp]: "opsOf jitter (trace @ [e]) = opsOf jitter trace @ opOf jitter e"
  by (simp add: opsOf_def)

definition changesTags :: "string \<Rightarrow> tagCall \<Rightarrow> bool" where
  "changesTags r e \<longleftrightarrow>
     (case e of ApiListTags _ _ _ \<Rightarrow> False | ApiCreateTags r' _ _ \<Rightarrow> r' = r | ApiUpdateTags r' _ _ \<Rightarrow> r' = r | Invalidated r' \<Rightarrow> r' = r)"

lemma remembered_opsOf:
  assumes "remembered (opsOf jitter trace) r = Some (v, t, x)"
  shows "\<exists>pre tags post. trace = pre @ ApiListTags r t (Inr tags) # post \<and> v = tagValues tags
    \<and> (\<forall>e \<in> set post. \<not> changesTags r e)"
  using assms
proof (induction trace rule: rev_induct)
  case Nil
  then show ?case by (simp add: opsOf_def remembered_def)
next
  case (snoc e trace)
  have later: ?case if "remembered (opsOf jitter trace) r = Some (v, t, x)" "\<not> changesTags r e"
  proof -
    from snoc.IH[OF that(1)] obtain pre tags post where
      "trace = pre @ ApiListTags r t (Inr tags) # post" "v = tagValues tags" "\<forall>e \<in> set post. \<not> changesTags r e" by blast
    with that(2) show ?thesis by (intro exI[of _ pre] exI[of _ tags] exI[of _ "post @ [e]"]) auto
  qed
  show ?case
  proof (cases e)
    case (ApiListTags r' t' res)
    show ?thesis
    proof (cases res)
      case (Inl err)
      with ApiListTags snoc.prems show ?thesis by (intro later) (simp_all add: changesTags_def)
    next
      case (Inr tags)
      show ?thesis
      proof (cases "r' = r")
        case True
        with ApiListTags Inr snoc.prems show ?thesis
          by (intro exI[of _ trace] exI[of _ tags] exI[of _ "[]"]) simp
      next
        case False
        with ApiListTags Inr snoc.prems show ?thesis by (intro later) (simp_all add: changesTags_def)
      qed
    qed
  qed (use snoc.prems later in \<open>auto simp: changesTags_def split: if_splits\<close>)
qed

text \<open>The state of the repository agrees with its trace, and its cache is within its bound.\<close>

definition tagRepoOk :: "(int \<Rightarrow> int) \<Rightarrow> tagRepo \<Rightarrow> bool" where
  "tagRepoOk jitter s \<longleftrightarrow>
     simulates jitter (opsOf jitter (tagTrace s)) (tagCache s) \<and> ttl (tagCache s) = tagCacheTTL
     \<and> maxSize (tagCache s) = tagCacheMaxSize \<and> ttl_len (tagCache s) \<le> tagCacheMaxSize"

lemma tagRepoOk_invalidate:
  assumes "tagRepoOk jitter s" and "opOf jitter e = [OpInvalidate r]"
  shows "tagRepoOk jitter (s\<lparr>tagCache := ttl_invalidate r (tagCache s), tagTrace := tagTrace s @ [e]\<rparr>)"
  using assms length_delete_le[of r "entries (tagCache s)"]
  by (auto simp: tagRepoOk_def simulates_invalidate) (auto simp: ttl_invalidate_def ttl_len_def)

lemma repo_put:
  assumes "tagRepoOk jitter s" and order: "\<And>ks. set (order ks) = set ks"
  obtains c where "ttl_put order jitter t0 t r v (tagCache s) = Some c"
    "ttl c = tagCacheTTL" "maxSize c = tagCacheMaxSize" "ttl_len c \<le> tagCacheMaxSize"
    "simulates jitter (opsOf jitter (tagTrace s) @ [OpPut r v t (t + jitter tagCacheTTL)]) c"
proof -
  have d: "distinctKeys (entries (tagCache s))" "2 \<le> maxSize (tagCache s)" "ttl_len (tagCache s) \<le> maxSize (tagCache s)"
    using assms(1) by (simp_all add: tagRepoOk_def simulates_def tagCacheMaxSize_def)
  from put_ends[OF order d] obtain c where c: "ttl_put order jitter t0 t r v (tagCache s) = Some c" "ttl_len c \<le> maxSize c"
    "maxSize c = maxSize (tagCache s)" "ttl c = ttl (tagCache s)" by blast
  have sim: "simulates jitter (opsOf jitter (tagTrace s)) (tagCache s)" using assms(1) by (simp add: tagRepoOk_def)
  from simulates_put[OF sim c(1)] c assms(1) show ?thesis by (intro that[OF c(1)]) (auto simp: tagRepoOk_def)
qed

lemma repo_ListTags_ok:
  assumes "tagRepoOk jitter s" and "\<And>ks. set (order ks) = set ks"
    and "repo_ListTags api order jitter clock r s = Some (res, s')"
  shows "tagRepoOk jitter s'"
proof -
  obtain now t0 t where clock: "clock = (now, t0, t)" by (cases clock)
  show ?thesis
  proof (cases "ttl_get (tagCache s) now r")
    case (Some cached)
    with assms(1,3) clock show ?thesis by (simp add: repo_ListTags_def)
  next
    case None
    note miss = this
    show ?thesis
    proof (cases "ta_ListTags api (tagTrace s) r")
      case (Inl e)
      with miss assms(3) clock have "s' = s\<lparr>tagTrace := tagTrace s @ [ApiListTags r t (Inl e)]\<rparr>"
        by (auto simp: repo_ListTags_def Let_def split: sum.splits)
      with assms(1) show ?thesis by (simp add: tagRepoOk_def)
    next
      case (Inr tags)
      from repo_put[OF assms(1,2), of t0 t r "tagValues tags"] obtain c where c:
        "ttl_put order jitter t0 t r (tagValues tags) (tagCache s) = Some c" "ttl c = tagCacheTTL"
        "maxSize c = tagCacheMaxSize" "ttl_len c \<le> tagCacheMaxSize"
        "simulates jitter (opsOf jitter (tagTrace s) @ [OpPut r (tagValues tags) t (t + jitter tagCacheTTL)]) c" by blast
      from miss Inr assms(3) clock c(1)
      have "s' = s\<lparr>tagTrace := tagTrace s @ [ApiListTags r t (Inr tags)], tagCache := c\<rparr>"
        by (auto simp: repo_ListTags_def Let_def split: sum.splits)
      with c show ?thesis by (simp add: tagRepoOk_def)
    qed
  qed
qed

lemma tag_reach_ok: "tag_reach api jitter s \<Longrightarrow> tagRepoOk jitter s"
proof (induction rule: tag_reach.induct)
  case start
  show ?case
    by (simp add: newTagRepo_def tagRepoOk_def opsOf_def simulates_new)
      (simp add: newTTLCache_def ttl_len_def tagCacheMaxSize_def)
next
  case (list_tags s order clock r res s')
  then show ?case by (blast intro: repo_ListTags_ok)
qed (auto simp: repo_InvalidateTagsCache_def repo_CreateTags_def repo_UpdateTags_def Let_def intro!: tagRepoOk_invalidate)

lemma tagsToMap_values: "tagsToMap (listTagsFrom (tagValues tags)) = tagsToMap tags"
proof -
  have "fold f (listTagsFrom (tagValues tags)) m = fold f tags m" if "\<And>m. f None m = m" for f :: "entity_Tag option \<Rightarrow> gomap \<Rightarrow> gomap" and m
    using that by (induction tags arbitrary: m rule: tagValues.induct) (simp_all add: listTagsFrom_def)
  then show ?thesis by (simp add: tagsToMap_def)
qed


definition ex_tag :: entity_Tag where
  "ex_tag = \<lparr>tag_Key = ''team'', tag_Value = ''core'', tag_SystemTag = False\<rparr>"

definition ex_api :: tagApi where
  "ex_api = \<lparr>ta_ListTags = \<lambda>tr _. if tr = [] then Inr [Some ex_tag, None] else Inl (ErrorString ''throttled''),
             ta_CreateTags = \<lambda>_ _ _. Inr (), ta_UpdateTags = \<lambda>_ _ _. Inr ()\<rparr>"


end
