(* ===== verification/Annotations.thy ===== *)
theory Annotations
  imports Net
begin

text \<open>
  What users write on their objects: \<^verbatim>\<open>pkg/annotations/parser.go\<close> with the suffixes of
  \<^verbatim>\<open>constants.go\<close>, and \<^verbatim>\<open>internal/usecase/listeneracl/listeneracl.go\<close>, the access lists of a listener as
  annotations give them.

  The parser methods return whether the annotation exists and an error, and set a variable of the
  caller when they succeed: \<open>None\<close> is an annotation that does not exist, the error or the value come
  under \<open>Some\<close>. Texts are ASCII.
\<close>

section \<open>strconv\<close>

definition hexNibble :: "nat \<Rightarrow> char" where
  "hexNibble n = (if n < 10 then char_of (48 + n) else char_of (87 + n))"

definition quoteChar :: "char \<Rightarrow> string" where
  "quoteChar c =
     (let n = (of_char c :: nat)
      in if n = 34 \<or> n = 92 then [CHR 0x5C, c]
         else if 32 \<le> n \<and> n \<le> 126 then [c]
         else if n = 7 then [CHR 0x5C, CHR ''a''] else if n = 8 then [CHR 0x5C, CHR ''b'']
         else if n = 9 then [CHR 0x5C, CHR ''t''] else if n = 10 then [CHR 0x5C, CHR ''n'']
         else if n = 11 then [CHR 0x5C, CHR ''v''] else if n = 12 then [CHR 0x5C, CHR ''f'']
         else if n = 13 then [CHR 0x5C, CHR ''r'']
         else [CHR 0x5C, CHR ''x'', hexNibble (n div 16), hexNibble (n mod 16)])"

text \<open>\<open>strconv.Quote\<close>, the \<open>%q\<close> verb.\<close>

definition Quote :: "string \<Rightarrow> string" where
  "Quote s = CHR 0x22 # concat (map quoteChar s) @ [CHR 0x22]"

definition numError :: "string \<Rightarrow> string \<Rightarrow> string \<Rightarrow> go_error" where
  "numError fn raw why = Wraps (''strconv.'' @ fn @ '': parsing '' @ Quote raw @ '': '' @ why) [ErrorString why]"

definition ParseBool :: "string \<Rightarrow> go_error + bool" where
  "ParseBool s =
     (if s \<in> set [''1'', ''t'', ''T'', ''TRUE'', ''true'', ''True''] then Inr True
      else if s \<in> set [''0'', ''f'', ''F'', ''FALSE'', ''false'', ''False''] then Inr False
      else Inl (numError ''ParseBool'' s ''invalid syntax''))"

text \<open>\<open>strconv.ParseInt(s, 10, 64)\<close>: an optional sign and digits.\<close>

definition ParseInt64 :: "string \<Rightarrow> go_error + int" where
  "ParseInt64 s =
     (let neg = (case s of c # _ \<Rightarrow> c = CHR ''-'' | [] \<Rightarrow> False);
          ds = (case s of c # cs \<Rightarrow> if c = CHR ''-'' \<or> c = CHR ''+'' then cs else s | [] \<Rightarrow> []);
          v = (if neg then - int (digits_value ds) else int (digits_value ds))
      in if ds = [] \<or> \<not> list_all is_digit ds then Inl (numError ''ParseInt'' s ''invalid syntax'')
         else if v < - (2 ^ 63) \<or> 2 ^ 63 \<le> v then Inl (numError ''ParseInt'' s ''value out of range'')
         else Inr v)"

section \<open>The parser\<close>

record ParseOptions =
  po_exact :: bool
  po_alternativePrefixes :: "string list"

type_synonym ParseOption = "ParseOptions \<Rightarrow> ParseOptions"

definition WithExact :: ParseOption where
  "WithExact = (\<lambda>opts. opts\<lparr>po_exact := True\<rparr>)"

definition WithAlternativePrefixes :: "string list \<Rightarrow> ParseOption" where
  "WithAlternativePrefixes pfxs =
     (\<lambda>opts. opts\<lparr>po_alternativePrefixes := po_alternativePrefixes opts @ pfxs\<rparr>)"

record suffixAnnotationParser =
  annotationPrefix :: string

definition buildAnnotationKeys :: "suffixAnnotationParser \<Rightarrow> string \<Rightarrow> ParseOption list \<Rightarrow> string list" where
  "buildAnnotationKeys p sfx opts =
     (let parseOpts = fold (\<lambda>opt o'. opt o') opts \<lparr>po_exact = False, po_alternativePrefixes = []\<rparr>
      in if po_exact parseOpts then [sfx]
         else map (\<lambda>pfx. pfx @ ''/'' @ sfx) (annotationPrefix p # po_alternativePrefixes parseOpts))"

text \<open>The value found first, with its key.\<close>

definition parseStringAnnotation ::
  "suffixAnnotationParser \<Rightarrow> string \<Rightarrow> gomap \<Rightarrow> ParseOption list \<Rightarrow> (string \<times> string) option" where
  "parseStringAnnotation p annotation annotations opts =
     map_option (\<lambda>key. (the (map_of annotations key), key))
       (find (\<lambda>key. map_of annotations key \<noteq> None) (buildAnnotationKeys p annotation opts))"

definition ParseStringAnnotation :: "suffixAnnotationParser \<Rightarrow> string \<Rightarrow> gomap \<Rightarrow> ParseOption list \<Rightarrow> string option" where
  "ParseStringAnnotation p annotation annotations opts = map_option fst (parseStringAnnotation p annotation annotations opts)"

definition ParseBoolAnnotation ::
  "suffixAnnotationParser \<Rightarrow> string \<Rightarrow> gomap \<Rightarrow> ParseOption list \<Rightarrow> (go_error + bool) option" where
  "ParseBoolAnnotation p annotation annotations opts =
     map_option (\<lambda>(raw, matchedKey). case ParseBool raw of
         Inl err \<Rightarrow> Inl (errorf (''failed to parse bool annotation, '' @ matchedKey @ '': '' @ raw) err)
       | Inr val \<Rightarrow> Inr val) (parseStringAnnotation p annotation annotations opts)"

definition ParseInt64Annotation ::
  "suffixAnnotationParser \<Rightarrow> string \<Rightarrow> gomap \<Rightarrow> ParseOption list \<Rightarrow> (go_error + int) option" where
  "ParseInt64Annotation p annotation annotations opts =
     map_option (\<lambda>(raw, matchedKey). case ParseInt64 raw of
         Inl err \<Rightarrow> Inl (errorf (''failed to parse int64 annotation, '' @ matchedKey @ '': '' @ raw) err)
       | Inr i \<Rightarrow> Inr i) (parseStringAnnotation p annotation annotations opts)"

definition splitCommaSeparatedString :: "string \<Rightarrow> string list" where
  "splitCommaSeparatedString s = filter (\<lambda>part. length part \<noteq> 0) (map TrimSpace (Split CHR '','' s))"

definition ParseStringSliceAnnotation ::
  "suffixAnnotationParser \<Rightarrow> string \<Rightarrow> gomap \<Rightarrow> ParseOption list \<Rightarrow> string list option" where
  "ParseStringSliceAnnotation p annotation annotations opts =
     map_option (\<lambda>(raw, _). splitCommaSeparatedString raw) (parseStringAnnotation p annotation annotations opts)"

text \<open>\<open>strings.SplitN(s, sep, 2)\<close> for a one-character separator.\<close>

definition SplitN2 :: "char \<Rightarrow> string \<Rightarrow> string list" where
  "SplitN2 c s =
     (if c \<in> set s then [takeWhile (\<lambda>x. x \<noteq> c) s, tl (dropWhile (\<lambda>x. x \<noteq> c) s)] else [s])"

primrec keyValuePairs :: "string list \<Rightarrow> gomap \<Rightarrow> gomap option" where
  "keyValuePairs [] keyValues = Some keyValues"
| "keyValuePairs (kvPair # rest) keyValues =
     (case SplitN2 CHR ''='' kvPair of
        [key, value] \<Rightarrow> if length key = 0 then None else keyValuePairs rest (AList.update key value keyValues)
      | _ \<Rightarrow> None)"

definition ParseStringMapAnnotation ::
  "suffixAnnotationParser \<Rightarrow> string \<Rightarrow> gomap \<Rightarrow> ParseOption list \<Rightarrow> go_error + gomap option" where
  "ParseStringMapAnnotation p annotation annotations opts =
     (case parseStringAnnotation p annotation annotations opts of
        None \<Rightarrow> Inr None
      | Some (raw, matchedKey) \<Rightarrow>
          (case keyValuePairs (splitCommaSeparatedString raw) [] of
             None \<Rightarrow> Inl (ErrorString (''failed to parse stringMap annotation, '' @ matchedKey @ '': '' @ raw))
           | Some keyValues \<Rightarrow> Inr (Some keyValues)))"

section \<open>Suffixes\<close>

definition SuffixLoadBalancerName :: string where "SuffixLoadBalancerName = ''load-balancer-name''"
definition SuffixPackageID :: string where "SuffixPackageID = ''package-id''"
definition SuffixScheme :: string where "SuffixScheme = ''scheme''"
definition SuffixTargetType :: string where "SuffixTargetType = ''target-type''"
definition SuffixLoadBalancerID :: string where "SuffixLoadBalancerID = ''load-balancer-id''"
definition SuffixIgnore :: string where "SuffixIgnore = ''ignore''"
definition SuffixIdleTimeoutClient :: string where "SuffixIdleTimeoutClient = ''idle-timeout-client''"
definition SuffixIdleTimeoutMember :: string where "SuffixIdleTimeoutMember = ''idle-timeout-member''"
definition SuffixIdleTimeoutConnection :: string where "SuffixIdleTimeoutConnection = ''idle-timeout-connection''"
definition SuffixInboundCIDRs :: string where "SuffixInboundCIDRs = ''inbound-cidrs''"
definition SuffixDroppedCIDRs :: string where "SuffixDroppedCIDRs = ''dropped-cidrs''"
definition SuffixACLDefaultAction :: string where "SuffixACLDefaultAction = ''acl-default-action''"
definition SuffixHealthcheckPort :: string where "SuffixHealthcheckPort = ''healthcheck-port''"
definition SuffixHealthcheckProtocol :: string where "SuffixHealthcheckProtocol = ''healthcheck-protocol''"
definition SuffixSuccessCodes :: string where "SuffixSuccessCodes = ''success-codes''"
definition SuffixHealthcheckPath :: string where "SuffixHealthcheckPath = ''healthcheck-path''"
definition SuffixHealthcheckHttpMethod :: string where "SuffixHealthcheckHttpMethod = ''healthcheck-http-method''"
definition SuffixHealthcheckHttpVersion :: string where "SuffixHealthcheckHttpVersion = ''healthcheck-http-version''"
definition SuffixHealthcheckHttpDomainName :: string where "SuffixHealthcheckHttpDomainName = ''healthcheck-http-domain-name''"
definition SuffixHealthcheckIntervalSeconds :: string where "SuffixHealthcheckIntervalSeconds = ''healthcheck-interval-seconds''"
definition SuffixHealthcheckTimeoutSeconds :: string where "SuffixHealthcheckTimeoutSeconds = ''healthcheck-timeout-seconds''"
definition SuffixHealthyThresholdCount :: string where "SuffixHealthyThresholdCount = ''healthy-threshold-count''"
definition SuffixUnhealthyThresholdCount :: string where "SuffixUnhealthyThresholdCount = ''unhealthy-threshold-count''"
definition SuffixPoolAlgorithm :: string where "SuffixPoolAlgorithm = ''pool-algorithm''"
definition SuffixEnableAutoscale :: string where "SuffixEnableAutoscale = ''enable-autoscale''"
definition SuffixTags :: string where "SuffixTags = ''tags''"
definition SuffixSecurityGroups :: string where "SuffixSecurityGroups = ''security-groups''"
definition SuffixTargetNodeLabels :: string where "SuffixTargetNodeLabels = ''target-node-labels''"
definition SuffixIsPOC :: string where "SuffixIsPOC = ''isPOC''"
definition SuffixIsPOC2 :: string where "SuffixIsPOC2 = ''is-poc''"
definition SuffixPreferZoneID :: string where "SuffixPreferZoneID = ''prefer-zone-id''"
definition SuffixPreferSubnetID :: string where "SuffixPreferSubnetID = ''prefer-subnet-id''"
definition SuffixEnableLoadBalancer :: string where "SuffixEnableLoadBalancer = ''enable-load-balancer''"
definition SuffixEnableProxyProtocol :: string where "SuffixEnableProxyProtocol = ''enable-proxy-protocol''"
definition SuffixPrivateSubnetID :: string where "SuffixPrivateSubnetID = ''private-subnet-id''"
definition SuffixBackendSubnetID :: string where "SuffixBackendSubnetID = ''backend-subnet-id''"
definition SuffixPrivateZoneID :: string where "SuffixPrivateZoneID = ''private-zone-id''"

section \<open>Listener access lists\<close>

definition ActionAccept :: string where "ActionAccept = ''accept''"
definition ActionDrop :: string where "ActionDrop = ''drop''"

record Fields =
  fl_AllowedCidrs :: "string option"
  fl_BlockedCidrs :: "string option"
  fl_DefaultAction :: "string option"

text \<open>The address of a CIDR that parses is the part before the slash.\<close>

definition isIPv4CidrOrIP :: "net6 \<Rightarrow> string \<Rightarrow> bool" where
  "isIPv4CidrOrIP n6 s =
     (case ParseCIDR n6 s of
        Some _ \<Rightarrow> ParseIP_To4 n6 (takeWhile (\<lambda>c. c \<noteq> CHR ''/'') s) \<noteq> None
      | None \<Rightarrow> ParseIP_To4 n6 s \<noteq> None)"

definition ToLower :: "string \<Rightarrow> string" where
  "ToLower s = map to_lower_char s"

definition blockedField :: "net6 \<Rightarrow> suffixAnnotationParser \<Rightarrow> gomap \<Rightarrow> go_error + string option" where
  "blockedField n6 p anns =
     (case ParseStringSliceAnnotation p SuffixDroppedCIDRs anns [] of
        None \<Rightarrow> Inr None
      | Some dropped \<Rightarrow>
          (case find (\<lambda>c. \<not> isIPv4CidrOrIP n6 c) dropped of
             Some c \<Rightarrow> Inl (ErrorString (''annotation '' @ annotationPrefix p @ ''/'' @ SuffixDroppedCIDRs @ '': '' @ Quote c
                          @ '' is not an IPv4 CIDR or IPv4 address''))
           | None \<Rightarrow> Inr (Some (Join '','' dropped))))"

definition actionField :: "suffixAnnotationParser \<Rightarrow> gomap \<Rightarrow> string option \<Rightarrow> go_error + string option" where
  "actionField p anns allowed =
     (case ParseStringAnnotation p SuffixACLDefaultAction anns [] of
        Some raw \<Rightarrow>
          (let action = ToLower (TrimSpace raw)
           in if action \<noteq> ActionAccept \<and> action \<noteq> ActionDrop
              then Inl (ErrorString (''annotation '' @ annotationPrefix p @ ''/'' @ SuffixACLDefaultAction @ '': '' @ Quote action
                     @ '' must be '' @ Quote ActionAccept @ '' or '' @ Quote ActionDrop))
              else Inr (Some action))
      | None \<Rightarrow> if allowed \<noteq> None \<and> allowed \<noteq> Some [] then Inr (Some ActionDrop) else Inr None)"

definition FromAnnotations :: "net6 \<Rightarrow> suffixAnnotationParser \<Rightarrow> gomap \<Rightarrow> go_error + Fields" where
  "FromAnnotations n6 p anns =
     (let allowed = map_option (Join '','') (ParseStringSliceAnnotation p SuffixInboundCIDRs anns [])
      in case blockedField n6 p anns of
           Inl err \<Rightarrow> Inl err
         | Inr blocked \<Rightarrow>
             (case actionField p anns allowed of
                Inl err \<Rightarrow> Inl err
              | Inr action \<Rightarrow> Inr \<lparr>fl_AllowedCidrs = allowed, fl_BlockedCidrs = blocked, fl_DefaultAction = action\<rparr>))"

section \<open>A map survives being written down\<close>

lemma parse_own_key:
  "parseStringAnnotation p a [(annotationPrefix p @ CHR ''/'' # a, raw)] [] = Some (raw, annotationPrefix p @ CHR ''/'' # a)"
  by (simp add: parseStringAnnotation_def buildAnnotationKeys_def Let_def)

lemma SplitN2_pair: "c \<notin> set k \<Longrightarrow> SplitN2 c (k @ c # v) = [k, v]"
  by (simp add: SplitN2_def takeWhile_append dropWhile_append)

definition kvText :: "string \<times> string \<Rightarrow> string" where
  "kvText kv = fst kv @ CHR ''='' # snd kv"

text \<open>What a key and a value must be for the text \<open>k=v,k=v\<close> to stand for the map.\<close>

definition writable :: "gomap \<Rightarrow> bool" where
  "writable m \<longleftrightarrow> distinct (map fst m)
     \<and> (\<forall>kv \<in> set m. fst kv \<noteq> [] \<and> CHR ''='' \<notin> set (fst kv) \<and> CHR '','' \<notin> set (kvText kv)
          \<and> TrimSpace (kvText kv) = kvText kv)"

lemma keyValuePairs_kvText:
  assumes "distinct (map fst (acc @ m))" and "\<forall>kv \<in> set m. fst kv \<noteq> [] \<and> CHR ''='' \<notin> set (fst kv)"
  shows "keyValuePairs (map kvText m) acc = Some (acc @ m)"
  using assms
proof (induction m arbitrary: acc)
  case (Cons kv m)
  obtain k v where kv: "kv = (k, v)" by (cases kv)
  with Cons.prems have new: "k \<notin> fst ` set acc" by auto
  then have "AList.update k v acc = acc @ [(k, v)]" by (induction acc) auto
  with Cons.prems kv Cons.IH[of "acc @ [(k, v)]"] show ?case by (simp add: kvText_def SplitN2_pair)
qed simp

lemma split_kvText:
  assumes "writable m"
  shows "splitCommaSeparatedString (Join '','' (map kvText m)) = map kvText m"
proof (cases "m = []")
  case True
  then show ?thesis by (simp add: splitCommaSeparatedString_def TrimSpace_def)
next
  case False
  have split: "Split CHR '','' (Join '','' (map kvText m)) = map kvText m"
    using assms False by (intro Split_Join) (auto simp: writable_def)
  have "map TrimSpace (map kvText m) = map kvText m"
    using assms by (simp add: writable_def)
  with split show ?thesis by (simp add: splitCommaSeparatedString_def kvText_def)
qed

text \<open>
  A map written as \<open>k=v,k=v\<close> is read back. For keys that are not empty and hold no equals sign,
  and pairs without commas and without blanks around them, the annotation of the tags or of the node
  labels is parsed to exactly the map that was written, an empty one included.
\<close>

theorem ParseStringMap_roundtrip:
  assumes "writable m"
  shows "ParseStringMapAnnotation p a [(annotationPrefix p @ ''/'' @ a, Join '','' (map kvText m))] [] = Inr (Some m)"
proof -
  from assms have "keyValuePairs (map kvText m) [] = Some m"
    using keyValuePairs_kvText[of "[]" m] by (simp add: writable_def)
  with assms show ?thesis by (simp add: ParseStringMapAnnotation_def parse_own_key split_kvText)
qed

theorem ParseStringMap_roundtrip_witness:
  "ParseStringMapAnnotation \<lparr>annotationPrefix = ''vks''\<rparr> SuffixTags [(''vks/tags'', ''a=1,b=x y'')] [] = Inr (Some [(''a'', ''1''), (''b'', ''x y'')])"
proof -
  have "writable [(''a'', ''1''), (''b'', ''x y'')]"
    by (simp add: writable_def kvText_def TrimSpace_def is_space_def)
  from ParseStringMap_roundtrip[OF this, of "\<lparr>annotationPrefix = ''vks''\<rparr>" SuffixTags] show ?thesis
    by (simp add: kvText_def SuffixTags_def)
qed

section \<open>What the access lists mean\<close>

lemma actionField_drop:
  "actionField p anns allowed = Inr action \<Longrightarrow> ParseStringAnnotation p SuffixACLDefaultAction anns [] = None
   \<Longrightarrow> action = (if nonempty allowed then Some ActionDrop else None)"
  by (cases allowed) (auto simp: actionField_def split: if_splits)

lemma actionField_given:
  "actionField p anns allowed = Inr action \<Longrightarrow> ParseStringAnnotation p SuffixACLDefaultAction anns [] = Some raw
   \<Longrightarrow> action = Some (ToLower (TrimSpace raw)) \<and> action \<in> {Some ActionAccept, Some ActionDrop}"
  by (auto simp: actionField_def Let_def split: if_splits)

lemma blockedField_ipv4:
  "blockedField n6 p anns = Inr (Some cidrs) \<Longrightarrow>
   \<exists>dropped. ParseStringSliceAnnotation p SuffixDroppedCIDRs anns [] = Some dropped \<and> cidrs = Join '','' dropped
     \<and> (\<forall>c \<in> set dropped. isIPv4CidrOrIP n6 c)"
  by (auto simp: blockedField_def find_None_iff split: option.splits)

text \<open>
  Access lists from annotations mean what they say. When they are accepted: the allowed list is
  the annotation's, every blocked entry is an IPv4 address or network, an explicit default action is
  \<open>accept\<close> or \<open>drop\<close>, and without one a non-empty whitelist means that everybody else is dropped,
  while no whitelist leaves the default action alone.
\<close>

theorem FromAnnotations_fields:
  assumes "FromAnnotations n6 p anns = Inr f"
  shows "fl_AllowedCidrs f = map_option (Join '','') (ParseStringSliceAnnotation p SuffixInboundCIDRs anns [])
    \<and> (\<forall>cidrs. fl_BlockedCidrs f = Some cidrs \<longrightarrow>
         (\<exists>dropped. cidrs = Join '','' dropped \<and> (\<forall>c \<in> set dropped. isIPv4CidrOrIP n6 c)))
    \<and> (case ParseStringAnnotation p SuffixACLDefaultAction anns [] of
         Some raw \<Rightarrow> fl_DefaultAction f = Some (ToLower (TrimSpace raw))
                    \<and> fl_DefaultAction f \<in> {Some ActionAccept, Some ActionDrop}
       | None \<Rightarrow> fl_DefaultAction f = (if nonempty (fl_AllowedCidrs f) then Some ActionDrop else None))"
  using assms
  by (auto simp: FromAnnotations_def Let_def split: sum.splits option.splits
      dest!: blockedField_ipv4 dest: actionField_drop actionField_given)

theorem FromAnnotations_fields_witness:
  "\<exists>n6 f. FromAnnotations n6 \<lparr>annotationPrefix = ''vks''\<rparr> [(''vks/inbound-cidrs'', ''10.0.0.0/8'')] = Inr f
     \<and> fl_DefaultAction f = Some ActionDrop"
proof -
  let ?n6 = "\<lparr>net_ParseCIDR6 = \<lambda>_. None, net_ParseMapped4 = \<lambda>_. None\<rparr>" and ?p = "\<lparr>annotationPrefix = ''vks''\<rparr>"
    and ?anns = "[(''vks/inbound-cidrs'', ''10.0.0.0/8'')]"
  have parse: "ParseStringSliceAnnotation ?p SuffixInboundCIDRs ?anns [] = Some [''10.0.0.0/8'']"
    "ParseStringSliceAnnotation ?p SuffixDroppedCIDRs ?anns [] = None"
    "ParseStringAnnotation ?p SuffixACLDefaultAction ?anns [] = None"
    by (simp_all add: ParseStringSliceAnnotation_def ParseStringAnnotation_def parseStringAnnotation_def buildAnnotationKeys_def
        SuffixInboundCIDRs_def SuffixDroppedCIDRs_def SuffixACLDefaultAction_def splitCommaSeparatedString_def TrimSpace_def is_space_def)
  then have "\<exists>f. FromAnnotations ?n6 ?p ?anns = Inr f"
    by (simp add: FromAnnotations_def blockedField_def actionField_def)
  then obtain f where f: "FromAnnotations ?n6 ?p ?anns = Inr f" ..
  from FromAnnotations_fields[OF f] parse have "fl_DefaultAction f = Some ActionDrop" by simp
  with f show ?thesis by blast
qed

end
