(* ===== verification/K8s_Types.thy ===== *)
theory K8s_Types
  imports Annotations Names "HOL-Library.Product_Lexorder"
begin

text \<open>
  The Kubernetes objects the Service and Ingress controllers read and write, restricted to the fields they use,
  and the NodeSecurityGroup resource of \<^verbatim>\<open>api/v1alpha1/nodesecuritygroup_types.go\<close>. \<open>sort.Slice\<close> is
  \<^const>\<open>sort_key\<close>: elements that compare equal keep their order, which Go does for short slices and
  does not promise for long ones.
\<close>

section \<open>Services, Ingresses, endpoints and nodes\<close>

record LoadBalancerIngress =
  ing_Hostname :: string

record Service =
  svc_Kind :: string
  svc_Meta :: ObjectMeta
  svc_Type :: string
  svc_Ports :: "ServicePort list"
  svc_ExternalIPs :: "string list"
  svc_Ingress :: "LoadBalancerIngress list"

text \<open>
  The pointers of an Ingress that may be \<open>nil\<close> are options: the \<open>HTTP\<close> part of a rule, the type of a path,
  and the \<open>Service\<close> of a backend, which a backend that names another resource does not have.
\<close>

record ServiceBackendPort =
  sbp_Name :: string
  sbp_Number :: int

record IngressServiceBackend =
  isb_Name :: string
  isb_Port :: ServiceBackendPort

record HTTPIngressPath =
  hp_Path :: string
  hp_PathType :: "string option"
  hp_Service :: "IngressServiceBackend option"

record IngressRule =
  ir_Host :: string
  ir_HTTP :: "HTTPIngressPath list option"

record IngressTLS =
  tls_Hosts :: "string list"
  tls_SecretName :: string

record Ingress =
  ingr_Kind :: string
  ingr_Meta :: ObjectMeta
  ingr_IngressClassName :: "string option"
  ingr_DefaultBackend :: "IngressServiceBackend option option"
  ingr_TLS :: "IngressTLS list"
  ingr_Rules :: "IngressRule list"
  ingr_Status :: "LoadBalancerIngress list"

record TargetRef =
  ref_Kind :: string
  ref_Name :: string

record AddressOfEndpoint =
  ea_IP :: string
  ea_TargetRef :: "TargetRef option"

record EndpointPort =
  ept_Name :: string
  ept_Port :: int

record EndpointSubset =
  es_Addresses :: "AddressOfEndpoint list"
  es_NotReadyAddresses :: "AddressOfEndpoint list"
  es_Ports :: "EndpointPort list"

record NodeAddress =
  na_Type :: string
  na_Address :: string

record NodeCondition =
  nc_Type :: string
  nc_Status :: string

record Node =
  node_Name :: string
  node_Labels :: gomap
  node_ProviderID :: string
  node_Addresses :: "NodeAddress list"
  node_Conditions :: "NodeCondition list"

text \<open>What the code reads of a subnet.\<close>

record entity_Subnet =
  sn_Id :: string
  sn_Cidr :: string
  sn_ZoneID :: string

section \<open>Constants of the Kubernetes API and the SDK\<close>

record svc_consts = sdk_consts +
  ServiceTypeClusterIP :: string
  ServiceTypeNodePort :: string
  ServiceTypeLoadBalancer :: string
  ProtocolTCP :: string
  ProtocolUDP :: string
  NodeInternalIP :: string
  NodeReady :: string
  ConditionTrue :: string
  ConditionUnknown :: string
  InternalLoadBalancerScheme :: string
  InternetLoadBalancerScheme :: string
  HealthCheckMethodGET :: string
  HealthCheckMethodPUT :: string
  HealthCheckMethodPOST :: string
  HealthCheckHttpVersionHttp1 :: string
  HealthCheckHttpVersionHttp1Minor1 :: string
  HealthCheckProtocolPINGUDP :: string
  PoolAlgorithmLeastConn :: string
  PoolAlgorithmRoundRobin :: string
  PoolAlgorithmSourceIP :: string
  PoolProtocolProxy :: string
  SecgroupRuleProtocolTCP :: string
  SecgroupRuleProtocolUDP :: string
  SecgroupRuleProtocolICMP :: string
  SecgroupRuleProtocolAll :: string
  SecgroupRuleDirectionIngress :: string
  SecgroupRuleDirectionEgress :: string
  SecgroupRuleEtherTypeIPv4 :: string
  SecgroupRuleEtherTypeIPv6 :: string

section \<open>NodeSecurityGroup\<close>

record NodeSecurityGroupRule =
  nr_Protocol :: string
  nr_FromPort :: int
  nr_ToPort :: int
  nr_CIDR :: string
  nr_Description :: string
  nr_Direction :: string
  nr_EtherType :: string

record ManagedSecurityGroup =
  msg_Name :: string
  msg_Description :: "string option"
  msg_Rules :: "NodeSecurityGroupRule list"

record NodeSecurityGroupSpec =
  ns_SelectNodeLabels :: gomap
  ns_AttachSecurityGroups :: "string list"
  ns_ManagedSecurityGroup :: "ManagedSecurityGroup option"

record NodeInfo =
  ni_Name :: string
  ni_ServerId :: string

definition NodeInfo_Equal :: "NodeInfo \<Rightarrow> NodeInfo \<Rightarrow> bool" where
  "NodeInfo_Equal a b \<longleftrightarrow> ni_Name a = ni_Name b \<and> ni_ServerId a = ni_ServerId b"

record ServerSecurityGroupStatus =
  sg_ServerId :: string
  sg_AttachedSecurityGroupIds :: "string list"
  sg_Error :: "string option"

definition StringSlicesEqualUnordered :: "string list \<Rightarrow> string list \<Rightarrow> bool" where
  "StringSlicesEqualUnordered a b \<longleftrightarrow> length a = length b \<and> list_all (\<lambda>itemA. itemA \<in> set b) a"

record ManagedSecurityGroupStatus =
  mg_Id :: "string option"
  mg_Error :: "string option"

record NodeSecurityGroupStatus =
  gs_SelectedNodes :: "NodeInfo list"
  gs_ManagedSecurityGroup :: ManagedSecurityGroupStatus
  gs_ServerSecurityGroups :: "ServerSecurityGroupStatus list"
  gs_ObservedGeneration :: int
  gs_LastReconcileTime :: "int option"
  gs_LastReconcileMessage :: string
  gs_Conditions :: "Condition list"

record NodeSecurityGroup =
  nsg_Meta :: ObjectMeta
  nsg_Spec :: NodeSecurityGroupSpec
  nsg_Status :: NodeSecurityGroupStatus

definition zeroNSGStatus :: NodeSecurityGroupStatus where
  "zeroNSGStatus =
     \<lparr>gs_SelectedNodes = [], gs_ManagedSecurityGroup = \<lparr>mg_Id = None, mg_Error = None\<rparr>, gs_ServerSecurityGroups = [],
      gs_ObservedGeneration = 0, gs_LastReconcileTime = None, gs_LastReconcileMessage = [], gs_Conditions = []\<rparr>"

definition ruleOrder :: "NodeSecurityGroupRule \<Rightarrow> string \<times> string \<times> string \<times> int \<times> int" where
  "ruleOrder r = (nr_Direction r, nr_Protocol r, nr_CIDR r, nr_FromPort r, nr_ToPort r)"

definition SortSecurityGroupRules :: "NodeSecurityGroupRule list \<Rightarrow> NodeSecurityGroupRule list" where
  "SortSecurityGroupRules rules = sort_key ruleOrder rules"

section \<open>Picking nodes\<close>

text \<open>\<^verbatim>\<open>pkg/utils/node_pick.go\<close>\<close>

definition FirstNodeByName :: "Node list \<Rightarrow> Node option" where
  "FirstNodeByName nodes =
     (case nodes of
        [] \<Rightarrow> None
      | n # _ \<Rightarrow> Some (foldl (\<lambda>first node. if node_Name node < node_Name first then node else first) n nodes))"

text \<open>
  \<^verbatim>\<open>pkg/utils/provider_id.go\<close>: the pattern is \<open>vngcloud://ins-\<close>, then 8, 4, 4, 4 and 12 hex digits with
  dashes between them.
\<close>

definition rawPrefix :: string where "rawPrefix = ''vngcloud://''"

definition lowerHex :: "char \<Rightarrow> bool" where
  "lowerHex c \<longleftrightarrow> (let n = (of_char c :: nat) in 48 \<le> n \<and> n \<le> 57 \<or> 97 \<le> n \<and> n \<le> 102)"

definition matchCloudProviderPattern :: "string \<Rightarrow> bool" where
  "matchCloudProviderPattern pproviderID \<longleftrightarrow>
     HasPrefix pproviderID (rawPrefix @ ''ins-'')
     \<and> (let parts = Split CHR ''-'' (drop (length rawPrefix + 4) pproviderID)
        in map length parts = [8, 4, 4, 4, 12] \<and> list_all (list_all lowerHex) parts)"

definition getProviderID :: "Node \<Rightarrow> string" where
  "getProviderID pnode = drop (length rawPrefix) (node_ProviderID pnode)"

definition GetListProviderIdFromNodeList :: "Node list \<Rightarrow> string list" where
  "GetListProviderIdFromNodeList pnodes =
     map getProviderID (filter (\<lambda>node. matchCloudProviderPattern (node_ProviderID node)) pnodes)"

definition GetProviderIdFromNode :: "Node option \<Rightarrow> string" where
  "GetProviderIdFromNode pnode =
     (case pnode of
        None \<Rightarrow> []
      | Some node \<Rightarrow> if \<not> matchCloudProviderPattern (node_ProviderID node) then [] else getProviderID node)"

definition GetNodeCondition :: "Node \<Rightarrow> string \<Rightarrow> NodeCondition option" where
  "GetNodeCondition node conditionType = find (\<lambda>c. nc_Type c = conditionType) (node_Conditions node)"

definition filterNodesByReadyConditionStatus :: "svc_consts \<Rightarrow> Node list \<Rightarrow> string \<Rightarrow> Node list" where
  "filterNodesByReadyConditionStatus kc nodes readyCondStatus =
     filter (\<lambda>node. case GetNodeCondition node (NodeReady kc) of
       None \<Rightarrow> False | Some readyCond \<Rightarrow> nc_Status readyCond = readyCondStatus) nodes"

section \<open>The choice of the node\<close>

lemma foldl_first:
  fixes n :: Node
  shows "foldl (\<lambda>first node. if node_Name node < node_Name first then node else first) n nodes \<in> insert n (set nodes)
    \<and> (\<forall>m \<in> insert n (set nodes).
         node_Name (foldl (\<lambda>first node. if node_Name node < node_Name first then node else first) n nodes) \<le> node_Name m)"
proof (induction nodes arbitrary: n)
  case (Cons a nodes)
  show ?case using Cons.IH[of a] Cons.IH[of n] by (auto intro: order_trans order.strict_implies_order)
qed simp

text \<open>The node chosen does not depend on the order the API lists them in, when names are unique.\<close>

theorem FirstNodeByName_order_free:
  assumes "FirstNodeByName nodes = Some n" and "set nodes' = set nodes" and "inj_on node_Name (set nodes)"
  shows "FirstNodeByName nodes' = Some n"
proof -
  have pick: "f \<in> set ns \<and> (\<forall>m \<in> set ns. node_Name f \<le> node_Name m)" if "FirstNodeByName ns = Some f" for ns f
    using that foldl_first[of "hd ns" ns] by (cases ns) (auto simp: FirstNodeByName_def)
  from assms(1) have "nodes \<noteq> []" by (auto simp: FirstNodeByName_def)
  with assms(2) have "nodes' \<noteq> []" by auto
  then obtain f where f: "FirstNodeByName nodes' = Some f" by (cases nodes') (auto simp: FirstNodeByName_def)
  from pick[OF f] pick[OF assms(1)] assms(2) have "node_Name f = node_Name n" "f \<in> set nodes" "n \<in> set nodes"
    by (auto intro: antisym)
  with assms(3) f show ?thesis by (auto dest: inj_onD)
qed

end
