(* ===== verification/Svc_World.thy ===== *)
theory Svc_World
  imports K8s_Types
begin

text \<open>
  The boundary of the Service and Ingress controllers: what it asks of the Kubernetes API and of the cloud, the
  history of its calls, and the parts of the repositories that lie between
  (\<^verbatim>\<open>internal/repository/k8s_repo/k8s_repo.go\<close>, \<^verbatim>\<open>pkg/utils/cni_detector.go\<close>). As for load balancers, the
  environment answers each call from the whole history, so it is arbitrary.
\<close>

section \<open>Calls\<close>

type_synonym labelMap = gomap

datatype (plugins only: code size) svcEvent =
    SvGetService string string "Service result"
  | SvPatchServiceStatus Service Service "unit result"
  | SvPatchService Service Service "unit result"
  | SvGetIngress string string "Ingress result"
  | SvPatchIngressStatus Ingress Ingress "unit result"
  | SvListLBC string labelMap "LoadBalancerConfig list result"
  | SvGetLBC string string "LoadBalancerConfig result"
  | SvCreateLBC LoadBalancerConfig "LoadBalancerConfig result"
  | SvPatchLBC LoadBalancerConfig LoadBalancerConfig "unit result"
  | SvDeleteLBC LoadBalancerConfig "unit result"
  | SvListNSG string labelMap "NodeSecurityGroup list result"
  | SvGetNSG string string "NodeSecurityGroup result"
  | SvCreateNSG NodeSecurityGroup "NodeSecurityGroup result"
  | SvPatchNSG NodeSecurityGroup NodeSecurityGroup "unit result"
  | SvDeleteNSG NodeSecurityGroup "unit result"
  | SvListNode labelMap "Node list result"
  | SvGetEndpoints string string "EndpointSubset list result"
  | SvGetDaemonSet string string "unit result"
  | SvGetConfigMap string string "gomap result"
  | SvGetLoadBalancerByID string "entity_LoadBalancer option result"
  | SvGetSubnetByID string string "entity_Subnet option result"
  | SvGetServerNetworkInfo string "(string \<times> string \<times> string \<times> string) result"
  | SvAddFinalizers string "unit result"
  | SvRemoveFinalizers string "unit result"
  | SvRecord string string string

type_synonym svcHistory = "svcEvent list"

text \<open>
  \<open>w_ListNode\<close> takes the labels to match, none for all nodes. \<open>w_isIPv6\<close> is the IPv6 half of
  \<open>net.ParseIP\<close>, \<open>w_isRequestURI\<close> whether \<open>url.ParseRequestURI\<close> accepts a text. \<open>w_nilAgreeLBC\<close> and \<open>w_nilAgreeNSG\<close> say whether two specs agree in which of their empty
  slices and maps are \<open>nil\<close>, which \<open>reflect.DeepEqual\<close> looks at and the model's lists do not have. \<open>w_AddFinalizers\<close> and
  \<open>w_RemoveFinalizers\<close> are \<open>k8s.FinalizerManager\<close> on a Service or an Ingress.
\<close>

record svcWorld =
  w_GetService :: "svcHistory \<Rightarrow> string \<Rightarrow> string \<Rightarrow> Service result"
  w_PatchServiceStatus :: "svcHistory \<Rightarrow> Service \<Rightarrow> Service \<Rightarrow> unit result"
  w_PatchService :: "svcHistory \<Rightarrow> Service \<Rightarrow> Service \<Rightarrow> unit result"
  w_GetIngress :: "svcHistory \<Rightarrow> string \<Rightarrow> string \<Rightarrow> Ingress result"
  w_PatchIngressStatus :: "svcHistory \<Rightarrow> Ingress \<Rightarrow> Ingress \<Rightarrow> unit result"
  w_ListLBC :: "svcHistory \<Rightarrow> string \<Rightarrow> labelMap \<Rightarrow> LoadBalancerConfig list result"
  w_GetLBC :: "svcHistory \<Rightarrow> string \<Rightarrow> string \<Rightarrow> LoadBalancerConfig result"
  w_CreateLBC :: "svcHistory \<Rightarrow> LoadBalancerConfig \<Rightarrow> LoadBalancerConfig result"
  w_PatchLBC :: "svcHistory \<Rightarrow> LoadBalancerConfig \<Rightarrow> LoadBalancerConfig \<Rightarrow> unit result"
  w_DeleteLBC :: "svcHistory \<Rightarrow> LoadBalancerConfig \<Rightarrow> unit result"
  w_ListNSG :: "svcHistory \<Rightarrow> string \<Rightarrow> labelMap \<Rightarrow> NodeSecurityGroup list result"
  w_GetNSG :: "svcHistory \<Rightarrow> string \<Rightarrow> string \<Rightarrow> NodeSecurityGroup result"
  w_CreateNSG :: "svcHistory \<Rightarrow> NodeSecurityGroup \<Rightarrow> NodeSecurityGroup result"
  w_PatchNSG :: "svcHistory \<Rightarrow> NodeSecurityGroup \<Rightarrow> NodeSecurityGroup \<Rightarrow> unit result"
  w_DeleteNSG :: "svcHistory \<Rightarrow> NodeSecurityGroup \<Rightarrow> unit result"
  w_ListNode :: "svcHistory \<Rightarrow> labelMap \<Rightarrow> Node list result"
  w_GetEndpoints :: "svcHistory \<Rightarrow> string \<Rightarrow> string \<Rightarrow> EndpointSubset list result"
  w_GetDaemonSet :: "svcHistory \<Rightarrow> string \<Rightarrow> string \<Rightarrow> unit result"
  w_GetConfigMap :: "svcHistory \<Rightarrow> string \<Rightarrow> string \<Rightarrow> gomap result"
  w_GetLoadBalancerByID :: "svcHistory \<Rightarrow> string \<Rightarrow> entity_LoadBalancer option result"
  w_GetSubnetByID :: "svcHistory \<Rightarrow> string \<Rightarrow> string \<Rightarrow> entity_Subnet option result"
  w_GetServerNetworkInfo :: "svcHistory \<Rightarrow> string \<Rightarrow> (string \<times> string \<times> string \<times> string) result"
  w_AddFinalizers :: "svcHistory \<Rightarrow> string \<Rightarrow> unit result"
  w_RemoveFinalizers :: "svcHistory \<Rightarrow> string \<Rightarrow> unit result"
  w_IsNotFound :: "go_error \<Rightarrow> bool"
  w_isIPv6 :: "string \<Rightarrow> bool"
  w_isRequestURI :: "string \<Rightarrow> bool"
  w_net6 :: net6
  w_nilAgreeLBC :: "LoadBalancerConfigSpec \<Rightarrow> LoadBalancerConfigSpec \<Rightarrow> bool"
  w_nilAgreeNSG :: "NodeSecurityGroupSpec \<Rightarrow> NodeSecurityGroupSpec \<Rightarrow> bool"

text \<open>\<open>cniResult\<close> is the answer the CNI detector remembers.\<close>

record svcSt =
  svcHist :: svcHistory
  cniResult :: "string option"

type_synonym 'a S = "(svcSt, 'a) run"

definition ask :: "('a result \<Rightarrow> svcEvent) \<Rightarrow> (svcHistory \<Rightarrow> 'a result) \<Rightarrow> 'a S" where
  "ask ev f = (\<lambda>s. (f (svcHist s), s\<lparr>svcHist := svcHist s @ [ev (f (svcHist s))]\<rparr>))"

section \<open>The repository of Kubernetes objects\<close>

definition GetService :: "svcWorld \<Rightarrow> string \<Rightarrow> string \<Rightarrow> Service S" where
  "GetService w ns n = ask (SvGetService ns n) (\<lambda>h. w_GetService w h ns n)"
definition GetIngress :: "svcWorld \<Rightarrow> string \<Rightarrow> string \<Rightarrow> Ingress S" where
  "GetIngress w ns n = ask (SvGetIngress ns n) (\<lambda>h. w_GetIngress w h ns n)"
definition ListLBC :: "svcWorld \<Rightarrow> string \<Rightarrow> labelMap \<Rightarrow> LoadBalancerConfig list S" where
  "ListLBC w ns ls = ask (SvListLBC ns ls) (\<lambda>h. w_ListLBC w h ns ls)"
definition PatchLBC :: "svcWorld \<Rightarrow> LoadBalancerConfig \<Rightarrow> LoadBalancerConfig \<Rightarrow> unit S" where
  "PatchLBC w old new = ask (SvPatchLBC old new) (\<lambda>h. w_PatchLBC w h old new)"
definition DeleteLBC :: "svcWorld \<Rightarrow> LoadBalancerConfig \<Rightarrow> unit S" where
  "DeleteLBC w lbc = ask (SvDeleteLBC lbc) (\<lambda>h. w_DeleteLBC w h lbc)"
definition ListNSG :: "svcWorld \<Rightarrow> string \<Rightarrow> labelMap \<Rightarrow> NodeSecurityGroup list S" where
  "ListNSG w ns ls = ask (SvListNSG ns ls) (\<lambda>h. w_ListNSG w h ns ls)"
definition PatchNSG :: "svcWorld \<Rightarrow> NodeSecurityGroup \<Rightarrow> NodeSecurityGroup \<Rightarrow> unit S" where
  "PatchNSG w old new = ask (SvPatchNSG old new) (\<lambda>h. w_PatchNSG w h old new)"
definition DeleteNSG :: "svcWorld \<Rightarrow> NodeSecurityGroup \<Rightarrow> unit S" where
  "DeleteNSG w nsg = ask (SvDeleteNSG nsg) (\<lambda>h. w_DeleteNSG w h nsg)"
definition ListNode :: "svcWorld \<Rightarrow> labelMap \<Rightarrow> Node list S" where
  "ListNode w ls = ask (SvListNode ls) (\<lambda>h. w_ListNode w h ls)"
definition GetEndpoints :: "svcWorld \<Rightarrow> string \<Rightarrow> string \<Rightarrow> EndpointSubset list S" where
  "GetEndpoints w ns n = ask (SvGetEndpoints ns n) (\<lambda>h. w_GetEndpoints w h ns n)"
definition LoadBalancerByID :: "svcWorld \<Rightarrow> string \<Rightarrow> entity_LoadBalancer option S" where
  "LoadBalancerByID w l = ask (SvGetLoadBalancerByID l) (\<lambda>h. w_GetLoadBalancerByID w h l)"
definition GetSubnetByID :: "svcWorld \<Rightarrow> string \<Rightarrow> string \<Rightarrow> entity_Subnet option S" where
  "GetSubnetByID w net sub = ask (SvGetSubnetByID net sub) (\<lambda>h. w_GetSubnetByID w h net sub)"
definition GetServerNetworkInfo :: "svcWorld \<Rightarrow> string \<Rightarrow> (string \<times> string \<times> string \<times> string) S" where
  "GetServerNetworkInfo w i = ask (SvGetServerNetworkInfo i) (\<lambda>h. w_GetServerNetworkInfo w h i)"

definition ignoreNotFound :: "svcWorld \<Rightarrow> go_error \<Rightarrow> unit S" where
  "ignoreNotFound w err = (if w_IsNotFound w err then returnM () else failM err)"

text \<open>
  A created object is read back: up to three looks while the API server does not know it yet. The
  object that is created comes back from the API server with its name.
\<close>

primrec awaitCreatedObject :: "svcWorld \<Rightarrow> 'a S \<Rightarrow> go_error \<Rightarrow> nat \<Rightarrow> unit S" where
  "awaitCreatedObject w get err 0 = failM err"
| "awaitCreatedObject w get err (Suc looks) =
     andThen (attempt get) (\<lambda>r. case r of
       Inr _ \<Rightarrow> returnM ()
     | Inl err' \<Rightarrow> if \<not> w_IsNotFound w err' then failM err' else awaitCreatedObject w get err' looks)"

definition CreateLoadBalancerConfig :: "svcWorld \<Rightarrow> LoadBalancerConfig \<Rightarrow> unit S" where
  "CreateLoadBalancerConfig w lbc =
     andThen (ask (SvCreateLBC lbc) (\<lambda>h. w_CreateLBC w h lbc)) (\<lambda>made.
       let ns = om_Namespace (lbc_Meta made); n = om_Name (lbc_Meta made)
       in awaitCreatedObject w (ask (SvGetLBC ns n) (\<lambda>h. w_GetLBC w h ns n)) (ErrorString []) 3)"

definition CreateNodeSecurityGroup :: "svcWorld \<Rightarrow> NodeSecurityGroup \<Rightarrow> unit S" where
  "CreateNodeSecurityGroup w nsg =
     andThen (ask (SvCreateNSG nsg) (\<lambda>h. w_CreateNSG w h nsg)) (\<lambda>made.
       let ns = om_Namespace (nsg_Meta made); n = om_Name (nsg_Meta made)
       in awaitCreatedObject w (ask (SvGetNSG ns n) (\<lambda>h. w_GetNSG w h ns n)) (ErrorString []) 3)"

definition isIP :: "svcWorld \<Rightarrow> string \<Rightarrow> bool" where
  "isIP w s \<longleftrightarrow> ParseAddr4 s \<noteq> None \<or> w_isIPv6 w s"

definition UpdateServiceStatusAddress :: "svc_consts \<Rightarrow> svcWorld \<Rightarrow> string \<Rightarrow> string \<Rightarrow> string \<Rightarrow> unit S" where
  "UpdateServiceStatusAddress kc w ns n address =
     (if address = [] then returnM ()
      else andThen (attempt (GetService w ns n)) (\<lambda>got. case got of
        Inl err \<Rightarrow> ignoreNotFound w err
      | Inr svc \<Rightarrow>
          if svc_Type svc = ServiceTypeLoadBalancer kc then
            (let newHostname = (if isIP w address then address @ ''.nip.io'' else address);
                 new = svc\<lparr>svc_Ingress := [\<lparr>ing_Hostname = newHostname\<rparr>]\<rparr>
             in if svc_Ingress svc \<noteq> [] \<and> ing_Hostname (hd (svc_Ingress svc)) = newHostname then returnM ()
                else ask (SvPatchServiceStatus svc new) (\<lambda>h. w_PatchServiceStatus w h svc new))
          else if isIP w address then
            (let new = svc\<lparr>svc_ExternalIPs := svc_ExternalIPs svc @ [address]\<rparr>
             in if address \<in> set (svc_ExternalIPs svc) then returnM ()
                else ask (SvPatchService svc new) (\<lambda>h. w_PatchService w h svc new))
          else returnM ()))"

definition UpdateIngressStatusAddress :: "svcWorld \<Rightarrow> string \<Rightarrow> string \<Rightarrow> string \<Rightarrow> unit S" where
  "UpdateIngressStatusAddress w ns n address =
     (if address = [] then returnM ()
      else andThen (attempt (GetIngress w ns n)) (\<lambda>got. case got of
        Inl err \<Rightarrow> ignoreNotFound w err
      | Inr ing \<Rightarrow>
          (let newHostname = (if isIP w address then address @ ''.nip.io'' else address);
               new = ing\<lparr>ingr_Status := [\<lparr>ing_Hostname = newHostname\<rparr>]\<rparr>
           in if ingr_Status ing \<noteq> [] \<and> ing_Hostname (hd (ingr_Status ing)) = newHostname then returnM ()
              else ask (SvPatchIngressStatus ing new) (\<lambda>h. w_PatchIngressStatus w h ing new))))"

section \<open>Which network plugin\<close>

definition CalicoOverlay :: string where "CalicoOverlay = ''Calico Overlay''"
definition CiliumOverlay :: string where "CiliumOverlay = ''Cilium Overlay''"
definition CiliumNativeRouting :: string where "CiliumNativeRouting = ''Cilium Native Routing''"
definition UnknownCNI :: string where "UnknownCNI = ''Unknown CNI''"

definition getDaemonSet :: "svcWorld \<Rightarrow> string \<Rightarrow> string \<Rightarrow> unit result S" where
  "getDaemonSet w ns n = attempt (ask (SvGetDaemonSet ns n) (\<lambda>h. w_GetDaemonSet w h ns n))"

primrec anyNamespace :: "svcWorld \<Rightarrow> string list \<Rightarrow> bool S" where
  "anyNamespace w [] = returnM False"
| "anyNamespace w (ns # rest) =
     andThen (getDaemonSet w ns ''calico-node'') (\<lambda>r. case r of Inr _ \<Rightarrow> returnM True | Inl _ \<Rightarrow> anyNamespace w rest)"

definition isCalicoOverlay :: "svcWorld \<Rightarrow> bool S" where
  "isCalicoOverlay w = anyNamespace w [''kube-system'', ''calico-system'']"

definition isCiliumOverlay :: "svcWorld \<Rightarrow> bool S" where
  "isCiliumOverlay w =
     andThen (getDaemonSet w ''kube-system'' ''cilium'') (\<lambda>r. returnM (case r of Inl _ \<Rightarrow> False | Inr _ \<Rightarrow> True))"

definition isCiliumNativeRouting :: "svcWorld \<Rightarrow> bool S" where
  "isCiliumNativeRouting w =
     andThen (isCiliumOverlay w) (\<lambda>overlay.
       if \<not> overlay then returnM False
       else andThen (attempt (ask (SvGetConfigMap ''kube-system'' ''cilium-config'')
                       (\<lambda>h. w_GetConfigMap w h ''kube-system'' ''cilium-config''))) (\<lambda>r.
         returnM (case r of Inl _ \<Rightarrow> False | Inr m \<Rightarrow> map_get m ''routing-mode'' = ''native'')))"

definition rememberCni :: "string \<Rightarrow> string S" where
  "rememberCni cni = (\<lambda>s. (Inr cni, s\<lparr>cniResult := Some cni\<rparr>))"

definition DetectCNIType :: "svcWorld \<Rightarrow> string S" where
  "DetectCNIType w =
     andThen (getS cniResult) (\<lambda>result. case result of
       Some cni \<Rightarrow> returnM cni
     | None \<Rightarrow>
         andThen (isCalicoOverlay w) (\<lambda>calico. if calico then rememberCni CalicoOverlay
           else andThen (isCiliumNativeRouting w) (\<lambda>native. if native then rememberCni CiliumNativeRouting
             else andThen (isCiliumOverlay w) (\<lambda>overlay. if overlay then rememberCni CiliumOverlay
               else rememberCni UnknownCNI))))"

lemmas world_defs =
  GetService_def GetIngress_def ListLBC_def PatchLBC_def DeleteLBC_def ListNSG_def PatchNSG_def DeleteNSG_def ListNode_def
  GetEndpoints_def LoadBalancerByID_def GetSubnetByID_def GetServerNetworkInfo_def ignoreNotFound_def

section \<open>The log of a run\<close>

lemma ask_eq [simp]: "ask ev f s = (f (svcHist s), s\<lparr>svcHist := svcHist s @ [ev (f (svcHist s))]\<rparr>)"
  by (simp add: ask_def)

lemma safe_adds_ask [safe_intro]:
  "P (svcHist s) (ev (f (svcHist s))) \<Longrightarrow> safe (addsR svcHist P) (ask ev f) s"
  by (auto simp: safe_def addsR_def Cons_eq_append_conv)

lemma safe_adds_rememberCni [safe_intro]: "safe (addsR svcHist P) (rememberCni cni) s"
  by (simp add: safe_def addsR_def rememberCni_def)

lemma ofRun_ask:
  "P (drop n (svcHist s)) (ev (f (svcHist s))) \<Longrightarrow> safe (addsR svcHist (ofRun n P)) (ask ev f) s"
  by (rule safe_adds_ask) (simp add: ofRun_def)

text \<open>The calls that only read.\<close>

definition svcRead :: "svcHistory \<Rightarrow> svcEvent \<Rightarrow> bool" where
  "svcRead h e \<longleftrightarrow>
     (case e of
        SvPatchServiceStatus _ _ _ \<Rightarrow> False | SvPatchService _ _ _ \<Rightarrow> False
      | SvPatchIngressStatus _ _ _ \<Rightarrow> False | SvCreateLBC _ _ \<Rightarrow> False
      | SvPatchLBC _ _ _ \<Rightarrow> False | SvDeleteLBC _ _ \<Rightarrow> False | SvCreateNSG _ _ \<Rightarrow> False | SvPatchNSG _ _ _ \<Rightarrow> False
      | SvDeleteNSG _ _ \<Rightarrow> False | SvAddFinalizers _ _ \<Rightarrow> False | SvRemoveFinalizers _ _ \<Rightarrow> False | _ \<Rightarrow> True)"

lemma safe_read_ask [safe_intro]: "svcRead [] (ev (f (svcHist s))) \<Longrightarrow> safe (addsR svcHist svcRead) (ask ev f) s"
  by (rule safe_adds_ask) (simp add: svcRead_def)

lemma safe_read_awaitCreated:
  "(\<And>s'. safe (addsR svcHist P) get s') \<Longrightarrow> safe (addsR svcHist P) (awaitCreatedObject w get err n) s"
  by (induction n arbitrary: s err) (auto intro!: adds.safe_failM adds.safe_andThen adds.safe_attempt adds.safe_returnM
      simp: split: sum.split)

lemma safe_read_DetectCNIType: "safe (addsR svcHist svcRead) (DetectCNIType w) s"
  unfolding DetectCNIType_def isCalicoOverlay_def isCiliumNativeRouting_def isCiliumOverlay_def getDaemonSet_def
    anyNamespace.simps
  by (intro safe_intro) (simp_all add: svcRead_def)

end
