(* ===== verification/Endpoints.thy ===== *)
theory Endpoints
  imports Svc_World
begin

text \<open>
  \<^verbatim>\<open>pkg/utils/endpoint_resolver.go\<close>: the addresses behind a port of a service, as the pods' own
  addresses or as the node port on the ready nodes.
\<close>

section \<open>Resolving\<close>

record EndpointAddress =
  ead_Name :: string
  ead_IP :: string
  ead_Port :: int

datatype IntOrString = FromInt int | FromString string

definition PodKind :: string where "PodKind = ''Pod''"

definition ErrNotFound :: go_error where "ErrNotFound = ErrorString ''backend not found''"

definition ErrNodeDoesNotHaveInternalAddress :: go_error where
  "ErrNodeDoesNotHaveInternalAddress = ErrorString ''node does not have internal address''"

definition notFoundError :: "go_error \<Rightarrow> go_error" where
  "notFoundError err = Wraps (Error ErrNotFound @ '': '' @ Error err) [ErrNotFound]"

definition portString :: "IntOrString \<Rightarrow> string" where
  "portString port = (case port of FromInt i \<Rightarrow> Itoa i | FromString s \<Rightarrow> s)"

definition svcKeyString :: "Service \<Rightarrow> string" where
  "svcKeyString svc = om_Namespace (svc_Meta svc) @ ''/'' @ om_Name (svc_Meta svc)"

definition lookupServicePort :: "Service \<Rightarrow> IntOrString \<Rightarrow> ServicePort result" where
  "lookupServicePort svc port =
     (case find (\<lambda>p. case port of FromString s \<Rightarrow> svcp_Name p = s | FromInt i \<Rightarrow> svcp_Port p = i) (svc_Ports svc) of
        Some p \<Rightarrow> Inr p
      | None \<Rightarrow> Inl (ErrorString (''unable to find port '' @ portString port @ '' on service '' @ svcKeyString svc)))"

definition findServiceAndServicePort :: "svcWorld \<Rightarrow> string \<Rightarrow> string \<Rightarrow> IntOrString \<Rightarrow> (Service \<times> ServicePort) S" where
  "findServiceAndServicePort w ns n port =
     andThen (attempt (GetService w ns n)) (\<lambda>got. case got of
       Inl err \<Rightarrow> failM (if w_IsNotFound w err then notFoundError err else err)
     | Inr svc \<Rightarrow>
         (case lookupServicePort svc port of
            Inl err \<Rightarrow> failM (notFoundError err)
          | Inr svcPort \<Rightarrow> returnM (svc, svcPort)))"

definition isPod :: "AddressOfEndpoint \<Rightarrow> bool" where
  "isPod addr \<longleftrightarrow> (case ea_TargetRef addr of None \<Rightarrow> False | Some ref \<Rightarrow> ref_Kind ref = PodKind)"

definition podName :: "AddressOfEndpoint \<Rightarrow> string" where
  "podName addr = (case ea_TargetRef addr of None \<Rightarrow> [] | Some ref \<Rightarrow> ref_Name ref)"

text \<open>The pods of some addresses of a subset, at the ports with the name of the service port.\<close>

definition podEndpointsAt :: "ServicePort \<Rightarrow> EndpointPort list \<Rightarrow> AddressOfEndpoint list \<Rightarrow> EndpointAddress list" where
  "podEndpointsAt svcPort ports addrs =
     concat (map (\<lambda>addr.
       map (\<lambda>port. \<lparr>ead_Name = podName addr, ead_IP = ea_IP addr, ead_Port = ept_Port port\<rparr>)
         (filter (\<lambda>port. ept_Name port = svcp_Name svcPort) ports)) (filter isPod addrs))"

definition getEndpoints :: "svcWorld \<Rightarrow> string \<Rightarrow> string \<Rightarrow> EndpointSubset list S" where
  "getEndpoints w ns n =
     andThen (attempt (GetEndpoints w ns n)) (\<lambda>got. case got of
       Inl err \<Rightarrow> failM (if w_IsNotFound w err then notFoundError err else err)
     | Inr subsets \<Rightarrow> returnM subsets)"

definition ResolvePodEndpoints :: "svcWorld \<Rightarrow> string \<Rightarrow> string \<Rightarrow> IntOrString \<Rightarrow> EndpointAddress list S" where
  "ResolvePodEndpoints w ns n port =
     andThen (findServiceAndServicePort w ns n port) (\<lambda>(_, svcPort).
     andThen (getEndpoints w ns n) (\<lambda>subsets.
       returnM (concat (map (\<lambda>subset.
         podEndpointsAt svcPort (es_Ports subset) (es_Addresses subset)
         @ podEndpointsAt svcPort (es_Ports subset) (es_NotReadyAddresses subset)) subsets))))"

definition getNodeInternalIP :: "svc_consts \<Rightarrow> Node \<Rightarrow> string result" where
  "getNodeInternalIP kc node =
     (case find (\<lambda>addr. na_Type addr = NodeInternalIP kc) (node_Addresses node) of
        None \<Rightarrow> Inl ErrNodeDoesNotHaveInternalAddress
      | Some addr \<Rightarrow> Inr (na_Address addr))"

definition buildNodePortEndpoint :: "string \<Rightarrow> string \<Rightarrow> int \<Rightarrow> EndpointAddress" where
  "buildNodePortEndpoint ip instanceID nodePort = \<lparr>ead_Name = instanceID, ead_IP = ip, ead_Port = nodePort\<rparr>"

text \<open>\<open>sel\<close> are the labels of the selector; \<open>failOpenEnabled\<close> is false in \<open>NewDefaultEndpointResolver\<close>.\<close>

definition ResolveNodePortEndpoints ::
  "svc_consts \<Rightarrow> bool \<Rightarrow> svcWorld \<Rightarrow> string \<Rightarrow> string \<Rightarrow> IntOrString \<Rightarrow> labelMap \<Rightarrow> EndpointAddress list S"
where
  "ResolveNodePortEndpoints kc failOpenEnabled w ns n port sel =
     andThen (findServiceAndServicePort w ns n port) (\<lambda>(svc, svcPort).
       if svc_Type svc \<noteq> ServiceTypeNodePort kc \<and> svc_Type svc \<noteq> ServiceTypeLoadBalancer kc then
         failM (ErrorString (''service type must be either 'NodePort' or 'LoadBalancer': '' @ ns @ ''/'' @ n))
       else
         andThen (ListNode w sel) (\<lambda>candidateNodes.
           let ready = filterNodesByReadyConditionStatus kc candidateNodes (ConditionTrue kc);
               targetNodes = (if failOpenEnabled \<and> ready = []
                              then filterNodesByReadyConditionStatus kc candidateNodes (ConditionUnknown kc) else ready)
           in returnM (concat (map (\<lambda>node. case getNodeInternalIP kc node of
                Inl _ \<Rightarrow> []
              | Inr nodeIP \<Rightarrow> [buildNodePortEndpoint nodeIP (node_Name node) (svcp_NodePort svcPort)]) targetNodes))))"

definition GetListTargetPort :: "svcWorld \<Rightarrow> string \<Rightarrow> string \<Rightarrow> IntOrString \<Rightarrow> int list S" where
  "GetListTargetPort w ns n port =
     andThen (findServiceAndServicePort w ns n port) (\<lambda>(_, svcPort).
     andThen (getEndpoints w ns n) (\<lambda>subsets.
       returnM (fold (\<lambda>e ports. if ead_Port e \<in> set ports then ports else ports @ [ead_Port e])
         (concat (map (\<lambda>subset.
            podEndpointsAt svcPort (es_Ports subset) (es_Addresses subset)
            @ podEndpointsAt svcPort (es_Ports subset) (es_NotReadyAddresses subset)) subsets)) [])))"

section \<open>Facts\<close>

lemmas endpoint_defs =
  ResolvePodEndpoints_def ResolveNodePortEndpoints_def GetListTargetPort_def findServiceAndServicePort_def getEndpoints_def

lemma safe_read_endpoints:
  "safe (addsR svcHist svcRead) (ResolvePodEndpoints w ns n port) s"
  "safe (addsR svcHist svcRead) (ResolveNodePortEndpoints kc fo w ns n port sel) s"
  "safe (addsR svcHist svcRead) (GetListTargetPort w ns n port) s"
  unfolding endpoint_defs world_defs by (intro safe_intro; simp add: svcRead_def)+

text \<open>
  Every node-port endpoint is a node that was ready and matched the selector when asked, at its
  internal address and the node port of the service's port of that number.
\<close>

theorem ResolveNodePortEndpoints_ready:
  assumes "ResolveNodePortEndpoints kc False w ns n (FromInt i) sel s = (Inr eps, s')" and "e \<in> set eps"
  shows "\<exists>svc p nodes node. SvGetService ns n (Inr svc) \<in> set (svcHist s') \<and> SvListNode sel (Inr nodes) \<in> set (svcHist s')
    \<and> p \<in> set (svc_Ports svc) \<and> svcp_Port p = i \<and> ead_Port e = svcp_NodePort p
    \<and> node \<in> set nodes \<and> ead_Name e = node_Name node \<and> getNodeInternalIP kc node = Inr (ead_IP e)
    \<and> map_option nc_Status (GetNodeCondition node (NodeReady kc)) = Some (ConditionTrue kc)"
proof -
  from assms(1) obtain svc p s1 nodes s2 where
    find: "findServiceAndServicePort w ns n (FromInt i) s = (Inr (svc, p), s1)"
    and list: "ListNode w sel s1 = (Inr nodes, s2)" and s2: "s' = s2"
    and eps: "eps = concat (map (\<lambda>node. case getNodeInternalIP kc node of
                Inl _ \<Rightarrow> []
              | Inr nodeIP \<Rightarrow> [buildNodePortEndpoint nodeIP (node_Name node) (svcp_NodePort p)])
                (filterNodesByReadyConditionStatus kc nodes (ConditionTrue kc)))"
    by (auto simp: ResolveNodePortEndpoints_def andThen_Inr_iff Let_def split: if_splits)
  have get: "SvGetService ns n (Inr svc) \<in> set (svcHist s1)" "p \<in> set (svc_Ports svc)" "svcp_Port p = i"
    using find
    by (auto simp: findServiceAndServicePort_def world_defs andThen_def attempt_def lookupServicePort_def find_Some_iff
        split: sum.splits option.splits)
  have nodes: "SvListNode sel (Inr nodes) \<in> set (svcHist s2)" "set (svcHist s1) \<subseteq> set (svcHist s2)"
    using list by (auto simp: ListNode_def)
  from eps assms(2) obtain node where node: "node \<in> set (filterNodesByReadyConditionStatus kc nodes (ConditionTrue kc))"
    "getNodeInternalIP kc node = Inr (ead_IP e)" "ead_Name e = node_Name node" "ead_Port e = svcp_NodePort p"
    by (auto simp: buildNodePortEndpoint_def split: sum.splits)
  with get nodes s2 show ?thesis
    by (intro exI[of _ svc] exI[of _ p] exI[of _ nodes] exI[of _ node])
      (auto simp: filterNodesByReadyConditionStatus_def split: option.splits)
qed

end
