(* ===== verification/Service_Pools.thy ===== *)
theory Service_Pools
  imports Endpoints "HOL-Library.Multiset"
begin

text \<open>
  What a Service asks for: \<^verbatim>\<open>internal/usecase/service_uc/build_pool.go\<close>, \<^verbatim>\<open>build_listener.go\<close> and
  \<^verbatim>\<open>build_sec_group.go\<close>. One pool and one listener per port, the members behind each port, and the rules
  that let the load balancer reach them.
\<close>

text \<open>The build task, without the fields it computes.\<close>

record buildTask =
  bt_clusterId :: string
  bt_parser :: suffixAnnotationParser
  bt_kc :: svc_consts
  bt_service :: Service
  bt_world :: svcWorld
  bt_nameHelper :: nameHelper
  bt_defaultZone :: string
  bt_defaultNetworkId :: string
  bt_defaultSubnetId :: string
  bt_defaultSubnetCIDR :: string

definition bt_ns :: "buildTask \<Rightarrow> string" where "bt_ns t = om_Namespace (svc_Meta (bt_service t))"
definition bt_name :: "buildTask \<Rightarrow> string" where "bt_name t = om_Name (svc_Meta (bt_service t))"

text \<open>An annotation of the service, by suffix.\<close>

definition strAnn :: "buildTask \<Rightarrow> string \<Rightarrow> string option" where
  "strAnn t sfx = ParseStringAnnotation (bt_parser t) sfx (om_Annotations (svc_Meta (bt_service t))) []"

definition boolAnn :: "buildTask \<Rightarrow> string \<Rightarrow> (go_error + bool) option" where
  "boolAnn t sfx = ParseBoolAnnotation (bt_parser t) sfx (om_Annotations (svc_Meta (bt_service t))) []"

definition intAnn :: "buildTask \<Rightarrow> string \<Rightarrow> int option" where
  "intAnn t sfx =
     (case ParseInt64Annotation (bt_parser t) sfx (om_Annotations (svc_Meta (bt_service t))) [] of
        Some (Inr i) \<Rightarrow> Some i
      | _ \<Rightarrow> None)"

definition sliceAnn :: "buildTask \<Rightarrow> string \<Rightarrow> string list option" where
  "sliceAnn t sfx = ParseStringSliceAnnotation (bt_parser t) sfx (om_Annotations (svc_Meta (bt_service t))) []"

definition mapAnn :: "buildTask \<Rightarrow> string \<Rightarrow> gomap" where
  "mapAnn t sfx =
     (case ParseStringMapAnnotation (bt_parser t) sfx (om_Annotations (svc_Meta (bt_service t))) [] of
        Inr (Some m) \<Rightarrow> m
      | _ \<Rightarrow> [])"

text \<open>\<open>int32(i)\<close> of a 64-bit integer keeps the low 32 bits.\<close>

definition toInt32 :: "int \<Rightarrow> int" where
  "toInt32 i = sint (word_of_int i :: 32 word)"

section \<open>Health checks and timeouts\<close>

definition buildAnnotationHealthcheckHttpMethod :: "buildTask \<Rightarrow> string option" where
  "buildAnnotationHealthcheckHttpMethod t =
     (case strAnn t SuffixHealthcheckHttpMethod of
        None \<Rightarrow> None
      | Some option \<Rightarrow>
          if option \<in> {HealthCheckMethodGET (bt_kc t), HealthCheckMethodPUT (bt_kc t), HealthCheckMethodPOST (bt_kc t)}
          then Some option else None)"

definition buildAnnotationHealthcheckPath :: "buildTask \<Rightarrow> string option" where
  "buildAnnotationHealthcheckPath t = strAnn t SuffixHealthcheckPath"

definition buildAnnotationSuccessCodes :: "buildTask \<Rightarrow> string option" where
  "buildAnnotationSuccessCodes t = strAnn t SuffixSuccessCodes"

definition buildAnnotationHealthcheckHttpVersion :: "buildTask \<Rightarrow> string option" where
  "buildAnnotationHealthcheckHttpVersion t =
     (case strAnn t SuffixHealthcheckHttpVersion of
        None \<Rightarrow> None
      | Some option \<Rightarrow>
          if option \<in> {HealthCheckHttpVersionHttp1 (bt_kc t), HealthCheckHttpVersionHttp1Minor1 (bt_kc t)}
          then Some option else None)"

definition buildAnnotationHealthcheckHttpDomainName :: "buildTask \<Rightarrow> string option" where
  "buildAnnotationHealthcheckHttpDomainName t = strAnn t SuffixHealthcheckHttpDomainName"

definition buildHealthcheckPort :: "buildTask \<Rightarrow> int option" where
  "buildHealthcheckPort t =
     (case intAnn t SuffixHealthcheckPort of
        None \<Rightarrow> None
      | Some i \<Rightarrow> if i \<le> 0 \<or> i > 65535 then None else Some i)"

definition buildPoolAlgorithm :: "buildTask \<Rightarrow> string option" where
  "buildPoolAlgorithm t =
     (case strAnn t SuffixPoolAlgorithm of
        None \<Rightarrow> None
      | Some option \<Rightarrow>
          if option \<in> {PoolAlgorithmLeastConn (bt_kc t), PoolAlgorithmRoundRobin (bt_kc t), PoolAlgorithmSourceIP (bt_kc t)}
          then Some option else None)"

definition buildIdleTimeoutClient :: "buildTask \<Rightarrow> int option" where
  "buildIdleTimeoutClient t = map_option toInt32 (intAnn t SuffixIdleTimeoutClient)"
definition buildIdleTimeoutMember :: "buildTask \<Rightarrow> int option" where
  "buildIdleTimeoutMember t = map_option toInt32 (intAnn t SuffixIdleTimeoutMember)"
definition buildIdleTimeoutConnection :: "buildTask \<Rightarrow> int option" where
  "buildIdleTimeoutConnection t = map_option toInt32 (intAnn t SuffixIdleTimeoutConnection)"

definition buildEnableProxyProtocol :: "buildTask \<Rightarrow> string list" where
  "buildEnableProxyProtocol t = (case sliceAnn t SuffixEnableProxyProtocol of None \<Rightarrow> [] | Some option \<Rightarrow> option)"

definition buildPoolHealthCheckProtocol :: "buildTask \<Rightarrow> string \<Rightarrow> string" where
  "buildPoolHealthCheckProtocol t pPoolProtocol =
     (if pPoolProtocol = ProtocolUDP (bt_kc t) then HealthCheckProtocolPINGUDP (bt_kc t)
      else case strAnn t SuffixHealthcheckProtocol of
        None \<Rightarrow> HealthCheckProtocolTCP (bt_kc t)
      | Some option \<Rightarrow>
          (let p = TrimSpace (ToUpper option)
           in if p = HealthCheckProtocolHTTP (bt_kc t) then HealthCheckProtocolHTTP (bt_kc t)
              else if p = HealthCheckProtocolHTTPs (bt_kc t) then HealthCheckProtocolHTTPs (bt_kc t)
              else if p = HealthCheckProtocolPINGUDP (bt_kc t) then HealthCheckProtocolPINGUDP (bt_kc t)
              else HealthCheckProtocolTCP (bt_kc t)))"

definition buildPoolHealthyThresholdCount :: "buildTask \<Rightarrow> int option" where
  "buildPoolHealthyThresholdCount t = intAnn t SuffixHealthyThresholdCount"
definition buildPoolUnhealthyThresholdCount :: "buildTask \<Rightarrow> int option" where
  "buildPoolUnhealthyThresholdCount t = intAnn t SuffixUnhealthyThresholdCount"
definition buildPoolHealthcheckIntervalSeconds :: "buildTask \<Rightarrow> int option" where
  "buildPoolHealthcheckIntervalSeconds t = intAnn t SuffixHealthcheckIntervalSeconds"
definition buildPoolHealthcheckTimeoutSeconds :: "buildTask \<Rightarrow> int option" where
  "buildPoolHealthcheckTimeoutSeconds t = intAnn t SuffixHealthcheckTimeoutSeconds"

section \<open>Pools and listeners\<close>

definition TargetTypeInstance :: string where "TargetTypeInstance = ''instance''"
definition TargetTypeIP :: string where "TargetTypeIP = ''ip''"

definition getTargetType :: "buildTask \<Rightarrow> string" where
  "getTargetType t =
     (if svc_Type (bt_service t) = ServiceTypeClusterIP (bt_kc t) then TargetTypeIP
      else let option = deref (strAnn t SuffixTargetType)
           in if option = TargetTypeIP \<or> option = TargetTypeInstance then option else TargetTypeInstance)"

text \<open>The resolver of \<open>NewDefaultEndpointResolver\<close>.\<close>

definition nodePortEndpoints :: "buildTask \<Rightarrow> ServicePort \<Rightarrow> gomap \<Rightarrow> EndpointAddress list S" where
  "nodePortEndpoints t port targetNodeLabels =
     ResolveNodePortEndpoints (bt_kc t) False (bt_world t) (bt_ns t) (bt_name t) (FromInt (svcp_Port port)) targetNodeLabels"

definition podEndpoints :: "buildTask \<Rightarrow> ServicePort \<Rightarrow> EndpointAddress list S" where
  "podEndpoints t port = ResolvePodEndpoints (bt_world t) (bt_ns t) (bt_name t) (FromInt (svcp_Port port))"

definition buildPoolMember :: "int option \<Rightarrow> EndpointAddress \<Rightarrow> PoolMember" where
  "buildPoolMember defaultHealthcheckPort member =
     \<lparr>pm_IP = ead_IP member, pm_Port = ead_Port member,
      pm_MonitorPort = (case defaultHealthcheckPort of None \<Rightarrow> ead_Port member | Some p \<Rightarrow> p),
      pm_Name = ead_Name member, pm_Weight = None, pm_Backup = None\<rparr>"

definition buildHealthMonitor :: "buildTask \<Rightarrow> ServicePort \<Rightarrow> PoolHealthMonitor" where
  "buildHealthMonitor t port =
     (let protocol = buildPoolHealthCheckProtocol t (svcp_Protocol port);
          http = (protocol = HealthCheckProtocolHTTP (bt_kc t) \<or> protocol = HealthCheckProtocolHTTPs (bt_kc t))
      in \<lparr>phm_Protocol = protocol,
          phm_HealthyThreshold = buildPoolHealthyThresholdCount t,
          phm_UnhealthyThreshold = buildPoolUnhealthyThresholdCount t,
          phm_Interval = buildPoolHealthcheckIntervalSeconds t,
          phm_Timeout = buildPoolHealthcheckTimeoutSeconds t,
          phm_HealthCheckMethod = (if http then buildAnnotationHealthcheckHttpMethod t else None),
          phm_HttpVersion = (if http then buildAnnotationHealthcheckHttpVersion t else None),
          phm_HealthCheckPath = (if http then buildAnnotationHealthcheckPath t else None),
          phm_DomainName = (if http then buildAnnotationHealthcheckHttpDomainName t else None),
          phm_SuccessCode = (if http then buildAnnotationSuccessCodes t else None)\<rparr>)"

text \<open>Whether some name in the annotation switches the proxy protocol on for the port.\<close>

definition proxyPort :: "buildTask \<Rightarrow> ServicePort \<Rightarrow> bool" where
  "proxyPort t port \<longleftrightarrow>
     list_ex (\<lambda>name. (name = ''*'' \<or> name = svcp_Name port) \<and> svcp_Protocol port = ProtocolTCP (bt_kc t))
       (buildEnableProxyProtocol t)"

definition buildPool :: "buildTask \<Rightarrow> gomap \<Rightarrow> ServicePort \<Rightarrow> Pool S" where
  "buildPool t targetNodeLabels port =
     andThen (if getTargetType t = TargetTypeInstance
              then wrapErr (errorf ''failed to resolve node port endpoints'') (nodePortEndpoints t port targetNodeLabels)
              else wrapErr (errorf ''failed to resolve pod endpoints'') (podEndpoints t port)) (\<lambda>membersAddr.
       let poolMembers = sort_key (\<lambda>m. (pm_IP m, pm_Port m)) (map (buildPoolMember (buildHealthcheckPort t)) membersAddr);
           protocol = (if proxyPort t port then PoolProtocolProxy (bt_kc t) else svcp_Protocol port)
       in returnM \<lparr>pool_Name = GenL4PoolName (bt_nameHelper t) port protocol,
                   pool_Protocol = protocol, pool_Description = None,
                   pool_Algorithm = buildPoolAlgorithm t, pool_Stickiness = None, pool_TLSEncryption = None,
                   pool_HealthMonitor = buildHealthMonitor t port, pool_Members = poolMembers\<rparr>)"

definition buildListener :: "buildTask \<Rightarrow> Fields \<Rightarrow> ServicePort \<Rightarrow> Pool \<Rightarrow> Listener" where
  "buildListener t acl port newPool =
     \<lparr>lis_Name = GenL4ListenerName (bt_nameHelper t) port, lis_Description = None,
      lis_Protocol = svcp_Protocol port, lis_ProtocolPort = svcp_Port port,
      lis_DefaultPoolName = Some (pool_Name newPool),
      lis_TimeoutClient = buildIdleTimeoutClient t, lis_TimeoutMember = buildIdleTimeoutMember t,
      lis_TimeoutConnection = buildIdleTimeoutConnection t,
      lis_AllowedCidrs = fl_AllowedCidrs acl, lis_BlockedCidrs = fl_BlockedCidrs acl,
      lis_DefaultAction = fl_DefaultAction acl,
      lis_InsertHeaders = None, lis_Policies = [], lis_CertificateDefault = None,
      lis_CertificateAuthorities = [], lis_ClientCertificateId = None\<rparr>"

definition buildPort :: "buildTask \<Rightarrow> gomap \<Rightarrow> Fields \<Rightarrow> ServicePort \<Rightarrow> (Pool \<times> Listener) S" where
  "buildPort t targetNodeLabels acl port =
     andThen (wrapErr (errorf (''failed to build pool for port '' @ Itoa (svcp_Port port))) (buildPool t targetNodeLabels port))
       (\<lambda>newPool. returnM (newPool, buildListener t acl port newPool))"

definition buildPoolsAndListeners :: "buildTask \<Rightarrow> gomap \<Rightarrow> (Pool list \<times> Listener list) S" where
  "buildPoolsAndListeners t targetNodeLabels =
     (if length (svc_Ports (bt_service t)) \<le> 0 then returnM ([], [])
      else case FromAnnotations (w_net6 (bt_world t)) (bt_parser t) (om_Annotations (svc_Meta (bt_service t))) of
        Inl err \<Rightarrow> failM err
      | Inr acl \<Rightarrow>
          andThen (mapM (buildPort t targetNodeLabels acl) (svc_Ports (bt_service t))) (\<lambda>built.
            returnM (sort_key pool_Name (map fst built), sort_key lis_Name (map snd built))))"

section \<open>Security group rules\<close>

definition buildIsAutoCreateSecGroup :: "buildTask \<Rightarrow> bool \<times> string list" where
  "buildIsAutoCreateSecGroup t =
     (case sliceAnn t SuffixSecurityGroups of None \<Rightarrow> (True, []) | Some option \<Rightarrow> (False, option))"

definition coreProtocolToSecgroupProtocol :: "buildTask \<Rightarrow> string \<Rightarrow> string" where
  "coreProtocolToSecgroupProtocol t protocol =
     (if protocol = ProtocolTCP (bt_kc t) then SecgroupRuleProtocolTCP (bt_kc t)
      else if protocol = ProtocolUDP (bt_kc t) then SecgroupRuleProtocolUDP (bt_kc t)
      else SecgroupRuleProtocolTCP (bt_kc t))"

text \<open>An ingress rule for one port from one network.\<close>

definition ingressRule :: "buildTask \<Rightarrow> ServicePort \<Rightarrow> int \<Rightarrow> string \<Rightarrow> string \<Rightarrow> NodeSecurityGroupRule" where
  "ingressRule t port p cidr description =
     \<lparr>nr_Protocol = coreProtocolToSecgroupProtocol t (svcp_Protocol port), nr_FromPort = p, nr_ToPort = p, nr_CIDR = cidr,
      nr_Description = description, nr_Direction = SecgroupRuleDirectionIngress (bt_kc t),
      nr_EtherType = SecgroupRuleEtherTypeIPv4 (bt_kc t)\<rparr>"

primrec collectCidrs :: "svcWorld \<Rightarrow> string list \<Rightarrow> string list \<Rightarrow> string list S" where
  "collectCidrs w [] subnetCidrs = returnM subnetCidrs"
| "collectCidrs w (providerId # rest) subnetCidrs =
     andThen (wrapErr (errorf (''failed to get server network info for providerId '' @ providerId)) (GetServerNetworkInfo w providerId))
       (\<lambda>(_, _, _, cidr).
         collectCidrs w rest (if cidr = [] \<or> cidr \<in> set subnetCidrs then subnetCidrs else subnetCidrs @ [cidr]))"

definition getAllSubnetCidrs :: "svcWorld \<Rightarrow> string list S" where
  "getAllSubnetCidrs w =
     andThen (wrapErr (errorf ''failed to list nodes'') (ListNode w [])) (\<lambda>nodes.
       collectCidrs w (GetListProviderIdFromNodeList nodes) [])"

text \<open>Behind node ports, with native routing, any node may pass traffic on to a pod.\<close>

definition nativeRules :: "buildTask \<Rightarrow> ServicePort \<Rightarrow> NodeSecurityGroupRule list S" where
  "nativeRules t port =
     andThen (wrapErr (\<lambda>err. ErrorString (''failed to detect CNI type: '' @ Error err)) (DetectCNIType (bt_world t))) (\<lambda>cniMode.
       if cniMode \<noteq> CiliumNativeRouting then returnM []
       else andThen (GetListTargetPort (bt_world t) (bt_ns t) (bt_name t) (FromInt (svcp_Port port))) (\<lambda>podPorts.
            andThen (getAllSubnetCidrs (bt_world t)) (\<lambda>allSubnetCidrs.
              returnM (concat (map (\<lambda>podPort.
                map (\<lambda>cidr. ingressRule t port (toInt32 podPort) cidr ''Allow other node access pod port - Cilium native'')
                  allSubnetCidrs) podPorts)))))"

definition portRules :: "buildTask \<Rightarrow> string \<Rightarrow> gomap \<Rightarrow> ServicePort \<Rightarrow> NodeSecurityGroupRule list S" where
  "portRules t subnetCidr targetNodeLabels port =
     andThen (if getTargetType t = TargetTypeInstance
              then andThen (nodePortEndpoints t port targetNodeLabels) (\<lambda>membersAddr.
                   andThen (nativeRules t port) (\<lambda>native. returnM (membersAddr, native)))
              else andThen (podEndpoints t port) (\<lambda>membersAddr. returnM (membersAddr, []))) (\<lambda>(membersAddr, native).
       returnM (native
         @ (case buildHealthcheckPort t of
              None \<Rightarrow> []
            | Some p \<Rightarrow> [ingressRule t port (toInt32 p) subnetCidr ''Allow user custom health check port''])
         @ map (\<lambda>member. ingressRule t port (toInt32 (ead_Port member)) subnetCidr
                  (''Allow load balancer access to port '' @ Itoa (ead_Port member))) membersAddr))"

definition pingRule :: "svc_consts \<Rightarrow> NodeSecurityGroupRule \<Rightarrow> NodeSecurityGroupRule" where
  "pingRule kc rule =
     \<lparr>nr_Protocol = SecgroupRuleProtocolICMP kc, nr_FromPort = 1, nr_ToPort = 255, nr_CIDR = nr_CIDR rule,
      nr_Description = ''Allow ICMP for health check UDP port'', nr_Direction = nr_Direction rule,
      nr_EtherType = nr_EtherType rule\<rparr>"

definition ensureSecgroupPING_UDP :: "svc_consts \<Rightarrow> NodeSecurityGroupRule list \<Rightarrow> NodeSecurityGroupRule list" where
  "ensureSecgroupPING_UDP kc rules =
     rules @ map (pingRule kc) (filter (\<lambda>rule. nr_Protocol rule = SecgroupRuleProtocolUDP kc) rules)"

definition defaultEgress :: "svc_consts \<Rightarrow> NodeSecurityGroupRule list" where
  "defaultEgress kc =
     [\<lparr>nr_Protocol = SecgroupRuleProtocolAll kc, nr_FromPort = 0, nr_ToPort = 65535, nr_CIDR = ''0.0.0.0/0'',
       nr_Description = ''Default egress security group rule for IPv4'', nr_Direction = SecgroupRuleDirectionEgress kc,
       nr_EtherType = SecgroupRuleEtherTypeIPv4 kc\<rparr>,
      \<lparr>nr_Protocol = SecgroupRuleProtocolAll kc, nr_FromPort = 0, nr_ToPort = 65535, nr_CIDR = ''::/0'',
       nr_Description = ''Default egress security group rule for IPv6'', nr_Direction = SecgroupRuleDirectionEgress kc,
       nr_EtherType = SecgroupRuleEtherTypeIPv6 kc\<rparr>]"

definition ensureDefaultEngressSecgroupRule :: "svc_consts \<Rightarrow> NodeSecurityGroupRule list \<Rightarrow> NodeSecurityGroupRule list" where
  "ensureDefaultEngressSecgroupRule kc rules = rules @ defaultEgress kc"

definition ruleKey :: "NodeSecurityGroupRule \<Rightarrow> string" where
  "ruleKey rule = nr_Protocol rule @ ''-'' @ Itoa (nr_FromPort rule) @ ''-'' @ Itoa (nr_ToPort rule) @ ''-''
     @ nr_CIDR rule @ ''-'' @ nr_Direction rule @ ''-'' @ nr_EtherType rule"

text \<open>The rules with a key not seen before; \<open>unique\<close> are the keys seen.\<close>

primrec uniqueRules :: "string list \<Rightarrow> NodeSecurityGroupRule list \<Rightarrow> NodeSecurityGroupRule list" where
  "uniqueRules unique [] = []"
| "uniqueRules unique (rule # rules) =
     (if ruleKey rule \<in> set unique then uniqueRules unique rules
      else rule # uniqueRules (ruleKey rule # unique) rules)"

definition ensureUniqueSecgroupRules :: "NodeSecurityGroupRule list \<Rightarrow> NodeSecurityGroupRule list" where
  "ensureUniqueSecgroupRules rules = uniqueRules [] rules"

definition buildDefaultSecurityGroupRule :: "buildTask \<Rightarrow> string \<Rightarrow> gomap \<Rightarrow> NodeSecurityGroupRule list S" where
  "buildDefaultSecurityGroupRule t subnetCidr targetNodeLabels =
     andThen (mapM (portRules t subnetCidr targetNodeLabels) (svc_Ports (bt_service t))) (\<lambda>rules.
       returnM (SortSecurityGroupRules (ensureUniqueSecgroupRules (ensureDefaultEngressSecgroupRule (bt_kc t)
         (ensureSecgroupPING_UDP (bt_kc t) (concat rules))))))"

lemma mapM_elements:
  assumes "mapM f xs s = (Inr ys, s')"
  shows "list_all2 (\<lambda>x y. \<exists>s1 s2. f x s1 = (Inr y, s2)) xs ys"
  using assms by (induction xs arbitrary: s ys) (auto simp: andThen_Inr_iff)

section \<open>One pool and one listener per port\<close>

lemma buildPool_result:
  assumes "buildPool t ls port s = (Inr pool, s')"
  shows "pool_Protocol pool = (if proxyPort t port then PoolProtocolProxy (bt_kc t) else svcp_Protocol port)
    \<and> pool_Name pool = GenL4PoolName (bt_nameHelper t) port (pool_Protocol pool)
    \<and> sorted (map (\<lambda>m. (pm_IP m, pm_Port m)) (pool_Members pool))"
  using assms by (auto simp: buildPool_def andThen_Inr_iff Let_def split: if_splits)

text \<open>The pool and the listener a port asks for.\<close>

definition servesPort :: "buildTask \<Rightarrow> Pool \<Rightarrow> Listener \<Rightarrow> ServicePort \<Rightarrow> bool" where
  "servesPort t pool l port \<longleftrightarrow>
     lis_ProtocolPort l = svcp_Port port \<and> lis_Protocol l = svcp_Protocol port
     \<and> lis_Name l = GenL4ListenerName (bt_nameHelper t) port \<and> lis_DefaultPoolName l = Some (pool_Name pool)
     \<and> pool_Protocol pool = (if proxyPort t port then PoolProtocolProxy (bt_kc t) else svcp_Protocol port)"

text \<open>
  C32. One pool and one listener per port. What is built for a Service has as many pools and listeners
  as the Service has ports; every port has a listener on its number and protocol whose default pool
  is among the pools, with the proxy protocol where it was asked for on TCP; there are no listeners
  for anything else; and both lists are sorted by name.
\<close>

theorem buildPoolsAndListeners_ports:
  assumes "buildPoolsAndListeners t ls s = (Inr (pools, listeners), s')"
  shows "length pools = length (svc_Ports (bt_service t)) \<and> length listeners = length (svc_Ports (bt_service t))
    \<and> sorted (map pool_Name pools) \<and> sorted (map lis_Name listeners)
    \<and> (\<forall>port \<in> set (svc_Ports (bt_service t)). \<exists>pool \<in> set pools. \<exists>l \<in> set listeners. servesPort t pool l port)
    \<and> (\<forall>l \<in> set listeners. \<exists>port \<in> set (svc_Ports (bt_service t)). \<exists>pool \<in> set pools. servesPort t pool l port)"
proof (cases "svc_Ports (bt_service t) = []")
  case True
  with assms show ?thesis by (simp add: buildPoolsAndListeners_def)
next
  case False
  with assms obtain acl built s1 where
    run: "mapM (buildPort t ls acl) (svc_Ports (bt_service t)) s = (Inr built, s1)"
    and sorted: "pools = sort_key pool_Name (map fst built)" "listeners = sort_key lis_Name (map snd built)"
    by (auto simp: buildPoolsAndListeners_def andThen_Inr_iff split: sum.splits)
  have "servesPort t (fst b) (snd b) port" if "buildPort t ls acl port s1 = (Inr b, s2)" for port b s1 s2
    using that by (auto simp: buildPort_def andThen_Inr_iff servesPort_def buildListener_def dest!: buildPool_result)
  with mapM_elements[OF run] have "list_all2 (\<lambda>port b. servesPort t (fst b) (snd b) port) (svc_Ports (bt_service t)) built"
    by (elim list.rel_mono_strong) blast
  then have serves: "list_all2 (\<lambda>port b. servesPort t (fst b) (snd b) port) (svc_Ports (bt_service t)) built" .
  then have "list_all2 (\<lambda>b port. servesPort t (fst b) (snd b) port) built (svc_Ports (bt_service t))"
    by (simp add: list_all2_conv_all_nth)
  note bak = list_all2_mem[OF this] and there = list_all2_mem[OF serves]
  have "length built = length (svc_Ports (bt_service t))" using serves by (simp add: list_all2_lengthD)
  moreover have "\<exists>pool \<in> set pools. \<exists>l \<in> set listeners. servesPort t pool l port" if "port \<in> set (svc_Ports (bt_service t))" for port
    using there[OF that] by (force simp: sorted)
  moreover have "\<exists>port \<in> set (svc_Ports (bt_service t)). \<exists>pool \<in> set pools. servesPort t pool l port" if "l \<in> set listeners" for l
  proof -
    from that obtain b where b: "b \<in> set built" "l = snd b" by (auto simp: sorted)
    from bak[OF b(1)] b show ?thesis by (force simp: sorted)
  qed
  ultimately show ?thesis by (simp add: sorted)
qed

section \<open>The order of the answers does not matter\<close>

definition resolveMembers :: "buildTask \<Rightarrow> gomap \<Rightarrow> ServicePort \<Rightarrow> EndpointAddress list S" where
  "resolveMembers t ls port =
     (if getTargetType t = TargetTypeInstance then nodePortEndpoints t port ls else podEndpoints t port)"

lemma sort_key_perm:
  fixes f :: "'a \<Rightarrow> 'k :: linorder"
  assumes "mset xs = mset ys" and "distinct (map f xs)"
  shows "sort_key f xs = sort_key f ys"
proof -
  have "inj_on f (set xs)" using assms(2) by (simp add: distinct_map)
  with assms(1) show ?thesis by (intro sort_key_inj_key_eq) simp_all
qed

text \<open>
  C33. Reconciling an unchanged Service builds the same pool. Whatever order the API lists pods or
  nodes in, and from whatever state, the pool built for a port is the same, when no two members share
  address and port - so the spec does not change, and nothing is written, because of the order.
\<close>

theorem buildPool_order_free:
  assumes "resolveMembers t ls port s = (Inr eps, s1)" and "resolveMembers t ls port s' = (Inr eps', s1')"
    and "mset eps' = mset eps" and "distinct (map (\<lambda>e. (ead_IP e, ead_Port e)) eps)"
  shows "fst (buildPool t ls port s') = fst (buildPool t ls port s) \<and> (\<exists>pool. fst (buildPool t ls port s) = Inr pool)"
proof -
  let ?m = "buildPoolMember (buildHealthcheckPort t)" and ?key = "\<lambda>m. (pm_IP m, pm_Port m)"
  have "mset (map ?m eps) = mset (map ?m eps')" using assms(3) by (simp add: mset_map)
  moreover have "distinct (map ?key (map ?m eps))" using assms(4) by (simp add: buildPoolMember_def comp_def)
  ultimately have "sort_key ?key (map ?m eps) = sort_key ?key (map ?m eps')" by (rule sort_key_perm)
  with assms(1,2) show ?thesis
    by (auto simp: buildPool_def resolveMembers_def andThen_def wrapErr_def Let_def split: if_splits)
qed

section \<open>The rules open what is needed, and no more\<close>

lemma uniqueRules_keys:
  "distinct (map ruleKey (uniqueRules u rules)) \<and> (\<forall>r \<in> set (uniqueRules u rules). ruleKey r \<notin> set u)
   \<and> set (uniqueRules u rules) \<subseteq> set rules
   \<and> ruleKey ` set (uniqueRules u rules) = ruleKey ` set rules - set u"
proof (induction rules arbitrary: u)
  case (Cons r rules)
  show ?case using Cons.IH[of u] Cons.IH[of "ruleKey r # u"] by auto
qed simp

text \<open>The code's notion of the same rule is the same protocol, ports, network, direction and ether type.\<close>

lemma ruleKey_inj:
  assumes "ruleKey r = ruleKey r'" and "\<forall>x \<in> {r, r'}. 0 \<le> nr_FromPort x \<and> 0 \<le> nr_ToPort x
      \<and> CHR ''-'' \<notin> set (nr_Protocol x @ nr_CIDR x @ nr_Direction x @ nr_EtherType x)"
  shows "nr_Protocol r = nr_Protocol r' \<and> nr_FromPort r = nr_FromPort r' \<and> nr_ToPort r = nr_ToPort r' \<and> nr_CIDR r = nr_CIDR r'
    \<and> nr_Direction r = nr_Direction r' \<and> nr_EtherType r = nr_EtherType r'"
proof -
  let ?parts = "\<lambda>x. [nr_Protocol x, Itoa (nr_FromPort x), Itoa (nr_ToPort x), nr_CIDR x, nr_Direction x, nr_EtherType x]"
  have digits: "CHR ''-'' \<notin> set (Itoa i)" if "0 \<le> i" for i
    using that digits_of_digits[of "nat i"] by (auto simp: Itoa_def list_all_iff is_digit_def)
  have key: "ruleKey x = Join ''-'' (?parts x)" for x by (simp add: ruleKey_def)
  have split: "Split CHR ''-'' (ruleKey x) = ?parts x" if "x \<in> {r, r'}" for x
    unfolding key using assms(2) that digits by (intro Split_Join) auto
  from split[of r] split[of r'] assms(1) have "?parts r = ?parts r'" by simp
  moreover have "i = j" if "Itoa i = Itoa j" "0 \<le> i" "0 \<le> j" for i j
  proof -
    from that have "digits_value (digits_of (nat i)) = digits_value (digits_of (nat j))" by (simp add: Itoa_def)
    with that show ?thesis by simp
  qed
  ultimately show ?thesis using assms(2) by auto
qed

lemma safe_read_collectCidrs: "safe (addsR svcHist svcRead) (collectCidrs w ids acc) s"
  by (induction ids arbitrary: acc s) (auto simp: world_defs svcRead_def intro!: safe_intro)

lemma read_grows: "safe (addsR svcHist P) m s \<Longrightarrow> m s = (r, s') \<Longrightarrow> set (svcHist s) \<subseteq> set (svcHist s')"
  by (auto simp: safe_def addsR_def)

lemma collectCidrs_answers:
  assumes "collectCidrs w ids acc s = (Inr cidrs, s')" and "c \<in> set cidrs"
  shows "c \<in> set acc \<or> (\<exists>i z net sub. SvGetServerNetworkInfo i (Inr (z, net, sub, c)) \<in> set (svcHist s'))"
  using assms
proof (induction ids arbitrary: acc s)
  case (Cons i ids)
  from Cons.prems(1) obtain z net sub c' s1 where
    info: "GetServerNetworkInfo w i s = (Inr (z, net, sub, c'), s1)"
    and rest: "collectCidrs w ids (if c' = [] \<or> c' \<in> set acc then acc else acc @ [c']) s1 = (Inr cidrs, s')"
    by (auto simp: andThen_Inr_iff)
  from info have "SvGetServerNetworkInfo i (Inr (z, net, sub, c')) \<in> set (svcHist s1)" by (auto simp: GetServerNetworkInfo_def)
  moreover have "set (svcHist s1) \<subseteq> set (svcHist s')"
    by (rule read_grows[OF safe_read_collectCidrs rest])
  ultimately show ?case using Cons.IH[OF rest Cons.prems(2)] by (auto split: if_splits)
qed simp


text \<open>A network some node of the cluster was said to be in.\<close>

definition nodeNetwork :: "svcHistory \<Rightarrow> string \<Rightarrow> bool" where
  "nodeNetwork h cidr \<longleftrightarrow> (\<exists>i z net sub. SvGetServerNetworkInfo i (Inr (z, net, sub, cidr)) \<in> set h)"

lemma nativeRules_networks:
  assumes "nativeRules t port s = (Inr rules, s')" and "r \<in> set rules"
  shows "nodeNetwork (svcHist s') (nr_CIDR r)"
proof -
  from assms obtain cidrs ids s1 s2 where
    "collectCidrs (bt_world t) ids [] s1 = (Inr cidrs, s2)" "s2 = s'" "nr_CIDR r \<in> set cidrs"
    by (auto simp: nativeRules_def andThen_Inr_iff getAllSubnetCidrs_def ingressRule_def split: if_splits)
  from collectCidrs_answers[OF this(1,3)] this(2) show ?thesis by (simp add: nodeNetwork_def)
qed

text \<open>What the rules of one port are, and what was resolved for it.\<close>

definition memberRule :: "buildTask \<Rightarrow> ServicePort \<Rightarrow> string \<Rightarrow> EndpointAddress \<Rightarrow> NodeSecurityGroupRule" where
  "memberRule t port cidr member =
     ingressRule t port (toInt32 (ead_Port member)) cidr (''Allow load balancer access to port '' @ Itoa (ead_Port member))"

lemma portRules_result:
  assumes "portRules t cidr ls port s = (Inr rules, s')"
  shows "\<exists>s1 eps. resolveMembers t ls port s = (Inr eps, s1) \<and> memberRule t port cidr ` set eps \<subseteq> set rules
    \<and> (\<forall>r \<in> set rules. nr_CIDR r = cidr \<or> nodeNetwork (svcHist s') (nr_CIDR r))"
proof -
  from assms obtain eps native s1 where res: "resolveMembers t ls port s = (Inr eps, s1)"
    and native: "native = [] \<or> nativeRules t port s1 = (Inr native, s')"
    and rules: "rules = native
         @ (case buildHealthcheckPort t of
              None \<Rightarrow> []
            | Some p \<Rightarrow> [ingressRule t port (toInt32 p) cidr ''Allow user custom health check port''])
         @ map (memberRule t port cidr) eps"
    unfolding portRules_def andThen_Inr_iff resolveMembers_def memberRule_def[abs_def]
    by (auto simp: andThen_Inr_iff split: if_splits)
  have "nodeNetwork (svcHist s') (nr_CIDR r)" if "r \<in> set native" for r
    using that native nativeRules_networks by auto
  moreover have "nr_CIDR (ingressRule t port p c d) = c" for p c d by (simp add: ingressRule_def)
  ultimately show ?thesis using res rules by (auto simp: memberRule_def split: option.splits)
qed


lemma mapM_grows:
  assumes "mapM f xs s = (Inr ys, s')" and "\<And>x s. safe (addsR svcHist svcRead) (f x) s"
  shows "list_all2 (\<lambda>x y. \<exists>s1 s2. f x s1 = (Inr y, s2) \<and> set (svcHist s2) \<subseteq> set (svcHist s')) xs ys"
  using assms(1)
proof (induction xs arbitrary: s ys)
  case (Cons x xs)
  from Cons.prems obtain y ys' s1 where 1: "f x s = (Inr y, s1)" "mapM f xs s1 = (Inr ys', s')" "ys = y # ys'"
    by (auto simp: andThen_Inr_iff)
  have "safe (addsR svcHist svcRead) (mapM f xs) s1" by (intro adds.safe_mapM assms(2))
  from read_grows[OF this 1(2)] 1 Cons.IH[OF 1(2)] show ?case by auto
qed simp

lemma safe_read_portRules: "safe (addsR svcHist svcRead) (portRules t cidr ls port) s"
  unfolding portRules_def nodePortEndpoints_def podEndpoints_def nativeRules_def getAllSubnetCidrs_def world_defs
  by (intro safe_intro safe_read_endpoints safe_read_DetectCNIType safe_read_collectCidrs; simp add: svcRead_def)


end
