(* ===== verification/Service_Build.thy ===== *)
theory Service_Build
  imports Service_Pools
begin

text \<open>
  \<^verbatim>\<open>internal/usecase/service_uc/build_lbc.go\<close>: from a Service to its LoadBalancerConfig and its
  NodeSecurityGroup, created once and patched when their spec changes; the address of the load
  balancer is written back to the Service. With \<^verbatim>\<open>pkg/service/service_utils.go\<close>.
\<close>

section \<open>Fields\<close>

definition buildPackageId :: "buildTask \<Rightarrow> string option" where
  "buildPackageId t = (let option = deref (strAnn t SuffixPackageID) in if option = [] then None else Some option)"

definition buildScheme :: "buildTask \<Rightarrow> string option" where
  "buildScheme t =
     (let option = ToLower (deref (strAnn t SuffixScheme))
      in if option = ToLower (InternalLoadBalancerScheme (bt_kc t)) then Some (InternalLoadBalancerScheme (bt_kc t))
         else if option = ToLower (InternetLoadBalancerScheme (bt_kc t)) then Some (InternetLoadBalancerScheme (bt_kc t))
         else if option = ToLower (InterVpcLoadBalancerScheme (bt_kc t)) then Some (InterVpcLoadBalancerScheme (bt_kc t))
         else None)"

text \<open>The older suffix is read into the same variable, which stays empty when neither exists.\<close>

definition buildPrivateSubnetId :: "buildTask \<Rightarrow> string option" where
  "buildPrivateSubnetId t =
     (let option = deref (strAnn t SuffixPrivateSubnetID)
      in if option \<noteq> [] then Some option
         else let option2 = deref (strAnn t SuffixBackendSubnetID)
              in if option2 \<noteq> [] then Some option2 else None)"

definition buildPrivateZoneId :: "buildTask \<Rightarrow> string option" where
  "buildPrivateZoneId t = (let option = deref (strAnn t SuffixPrivateZoneID) in if option \<noteq> [] then Some option else None)"

definition buildLoadBalancerId :: "buildTask \<Rightarrow> string option" where
  "buildLoadBalancerId t = (let option = deref (strAnn t SuffixLoadBalancerID) in if option \<noteq> [] then Some option else None)"

definition buildLoadBalancerName :: "buildTask \<Rightarrow> string" where
  "buildLoadBalancerName t =
     (let option = deref (strAnn t SuffixLoadBalancerName)
      in if option \<noteq> [] then option else GetLoadBalancerDefaultName (bt_nameHelper t))"

definition buildAutoscale :: "buildTask \<Rightarrow> bool option" where
  "buildAutoscale t = (case boolAnn t SuffixEnableAutoscale of Some (Inr b) \<Rightarrow> Some b | _ \<Rightarrow> None)"

definition buildTags :: "buildTask \<Rightarrow> gomap" where
  "buildTags t = mapAnn t SuffixTags"

definition buildTargetNodeLabels :: "buildTask \<Rightarrow> gomap" where
  "buildTargetNodeLabels t = mapAnn t SuffixTargetNodeLabels"

definition buildIsPoc :: "buildTask \<Rightarrow> bool option" where
  "buildIsPoc t =
     (case boolAnn t SuffixIsPOC of
        Some (Inl _) \<Rightarrow> None
      | Some (Inr isPoc) \<Rightarrow> Some isPoc
      | None \<Rightarrow> (case boolAnn t SuffixIsPOC2 of Some (Inr isPoc) \<Rightarrow> Some isPoc | _ \<Rightarrow> None))"

definition isIgnore :: "suffixAnnotationParser \<Rightarrow> Service \<Rightarrow> bool" where
  "isIgnore p svc = (ParseBoolAnnotation p SuffixIgnore (om_Annotations (svc_Meta svc)) [] = Some (Inr True))"

section \<open>Which Services\<close>

record serviceUtils =
  su_finalizer :: string
  su_parser :: suffixAnnotationParser

definition IsServicePendingFinalization :: "serviceUtils \<Rightarrow> Service \<Rightarrow> bool" where
  "IsServicePendingFinalization u object \<longleftrightarrow> list_ex (\<lambda>f. f = su_finalizer u) (om_Finalizers (svc_Meta object))"

definition isLBEnabled :: "serviceUtils \<Rightarrow> Service \<Rightarrow> bool" where
  "isLBEnabled u object =
     (ParseBoolAnnotation (su_parser u) SuffixEnableLoadBalancer (om_Annotations (svc_Meta object)) [] = Some (Inr True))"

definition IsServiceSupported :: "svc_consts \<Rightarrow> serviceUtils \<Rightarrow> Service \<Rightarrow> bool" where
  "IsServiceSupported kc u object =
     (if om_DeletionTimestamp (svc_Meta object) \<noteq> None then False
      else if svc_Type object = ServiceTypeLoadBalancer kc then True
      else if svc_Type object = ServiceTypeNodePort kc \<or> svc_Type object = ServiceTypeClusterIP kc then isLBEnabled u object
      else False)"

section \<open>Subnet and zone\<close>

text \<open>\<open>(zone, networkId, subnetId, subnetCIDR)\<close>\<close>

type_synonym placement = "string \<times> string \<times> string \<times> string"

definition defaultPlacement :: "buildTask \<Rightarrow> placement" where
  "defaultPlacement t = (bt_defaultZone t, bt_defaultNetworkId t, bt_defaultSubnetId t, bt_defaultSubnetCIDR t)"

text \<open>The lookup the three subnet sources share; \<open>what\<close> is how the messages call the subnet.\<close>

definition placementOfSubnet :: "buildTask \<Rightarrow> string \<Rightarrow> string \<Rightarrow> placement S" where
  "placementOfSubnet t what subnetId =
     (if subnetId = bt_defaultSubnetId t then returnM (defaultPlacement t)
      else andThen (wrapErr (errorf (''failed to get '' @ what @ subnetId))
             (GetSubnetByID (bt_world t) (bt_defaultNetworkId t) subnetId)) (\<lambda>subnet. case subnet of
        None \<Rightarrow> failM (ErrorString (what @ subnetId @ '' not found''))
      | Some sn \<Rightarrow> returnM (sn_ZoneID sn, bt_defaultNetworkId t, sn_Id sn, sn_Cidr sn)))"

primrec placementInZone :: "buildTask \<Rightarrow> string \<Rightarrow> string list \<Rightarrow> placement S" where
  "placementInZone t preferZoneId [] = failM (ErrorString (''failed to find subnet in prefer zone '' @ preferZoneId))"
| "placementInZone t preferZoneId (providerId # rest) =
     andThen (attempt (GetServerNetworkInfo (bt_world t) providerId)) (\<lambda>r. case r of
       Inl _ \<Rightarrow> placementInZone t preferZoneId rest
     | Inr p \<Rightarrow> if fst p = preferZoneId then returnM p else placementInZone t preferZoneId rest)"

definition existingSubnetId :: "LoadBalancerConfig option \<Rightarrow> string" where
  "existingSubnetId existingLBC =
     (case existingLBC of
        None \<Rightarrow> []
      | Some lbc \<Rightarrow> if nonempty (ss_SubnetId (lbc_Status lbc)) then deref (ss_SubnetId (lbc_Status lbc))
                    else sp_SubnetId (lbc_Spec lbc))"

definition buildSubnetAndZone :: "buildTask \<Rightarrow> LoadBalancerConfig option \<Rightarrow> placement S" where
  "buildSubnetAndZone t existingLBC =
     (case buildLoadBalancerId t of
        Some lbID \<Rightarrow>
          andThen (wrapErr (errorf (''failed to get load balancer by id '' @ lbID)) (LoadBalancerByID (bt_world t) lbID)) (\<lambda>lb.
          case lb of
            None \<Rightarrow> failM (ErrorString (''load balancer '' @ lbID @ '' not found''))
          | Some lb \<Rightarrow> placementOfSubnet t ''subnet '' (elb_BackendSubnetID lb))
      | None \<Rightarrow>
          if existingSubnetId existingLBC \<noteq> [] then placementOfSubnet t ''existing subnet '' (existingSubnetId existingLBC)
          else
            (let preferSubnetId = deref (strAnn t SuffixPreferSubnetID); preferZoneId = deref (strAnn t SuffixPreferZoneID)
             in if preferSubnetId \<noteq> [] then placementOfSubnet t ''prefer subnet '' preferSubnetId
                else if preferZoneId \<noteq> [] then
                  if preferZoneId = bt_defaultZone t then returnM (defaultPlacement t)
                  else andThen (wrapErr (errorf ''failed to list nodes'') (ListNode (bt_world t) [])) (\<lambda>nodes.
                         placementInZone t preferZoneId (GetListProviderIdFromNodeList nodes))
                else returnM (defaultPlacement t)))"

section \<open>The LoadBalancerConfig\<close>

definition LabelOwnerResourceKind :: string where "LabelOwnerResourceKind = ''vks.vngcloud.vn/owner-resource-kind''"
definition LabelOwnerResourceName :: string where "LabelOwnerResourceName = ''vks.vngcloud.vn/owner-resource-name''"
definition LabelOwnerResourceUid :: string where "LabelOwnerResourceUid = ''vks.vngcloud.vn/owner-resource-uid''"

definition ownerLabels :: "Service \<Rightarrow> labelMap" where
  "ownerLabels svc =
     [(LabelOwnerResourceName, om_Name (svc_Meta svc)), (LabelOwnerResourceKind, svc_Kind svc),
      (LabelOwnerResourceUid, om_UID (svc_Meta svc))]"

definition setOwnerLabels :: "Service \<Rightarrow> ObjectMeta \<Rightarrow> ObjectMeta" where
  "setOwnerLabels svc meta = meta\<lparr>om_Labels := fold (\<lambda>(k, v) ls. AList.update k v ls) (ownerLabels svc) (om_Labels meta)\<rparr>"

definition zeroMeta :: ObjectMeta where
  "zeroMeta = \<lparr>om_Namespace = [], om_Name = [], om_UID = [], om_Generation = 0, om_DeletionTimestamp = None,
     om_Finalizers = [], om_GenerateName = [], om_Labels = [], om_Annotations = []\<rparr>"

definition zeroSpec :: LoadBalancerConfigSpec where
  "zeroSpec = \<lparr>sp_Type = [], sp_ClusterId = None, sp_LoadBalancerName = [], sp_SubnetId = [], sp_VpcId = [],
     sp_BackendSubnetId = None, sp_PrivateSubnetId = None, sp_PrivateZoneId = None, sp_ZoneId = [], sp_PackageId = None,
     sp_Scheme = None, sp_LoadBalancerId = None, sp_EnableAutoscale = None, sp_Tags = [], sp_IsPoc = None,
     sp_Listeners = [], sp_Pools = [], sp_CreateCertificates = []\<rparr>"

definition zeroStatus :: LoadBalancerConfigStatus where
  "zeroStatus = \<lparr>ss_ObservedGeneration = None, ss_LastReconcileTime = None, ss_LastReconcileMessage = [], ss_Address = None,
     ss_LoadBalancerId = None, ss_AdoptedLoadBalancerId = None, ss_RetiringLoadBalancer = None,
     ss_CreatedLoadBalancerId = None, ss_LoadBalancerName = None, ss_Type = None, ss_SubnetId = None, ss_ZoneId = None,
     ss_CreatedTags = [], ss_CreatedPools = [], ss_CreatedListeners = [], ss_CreatedCertificates = [], ss_Conditions = []\<rparr>"

definition newLBC :: "buildTask \<Rightarrow> LoadBalancerConfig" where
  "newLBC t = \<lparr>lbc_Meta = zeroMeta\<lparr>om_Namespace := bt_ns t, om_GenerateName := bt_name t @ ''-''\<rparr>,
     lbc_Spec = zeroSpec, lbc_Status = zeroStatus\<rparr>"

text \<open>\<open>reflect.DeepEqual\<close> on the specs: maps as maps, and the same slices and maps \<open>nil\<close>.\<close>

definition lbcSpecEqual :: "svcWorld \<Rightarrow> LoadBalancerConfigSpec \<Rightarrow> LoadBalancerConfigSpec \<Rightarrow> bool" where
  "lbcSpecEqual w a b \<longleftrightarrow> a\<lparr>sp_Tags := []\<rparr> = b\<lparr>sp_Tags := []\<rparr> \<and> maps_Equal (sp_Tags a) (sp_Tags b) \<and> w_nilAgreeLBC w a b"

definition nsgSpecEqual :: "svcWorld \<Rightarrow> NodeSecurityGroupSpec \<Rightarrow> NodeSecurityGroupSpec \<Rightarrow> bool" where
  "nsgSpecEqual w a b \<longleftrightarrow> a\<lparr>ns_SelectNodeLabels := []\<rparr> = b\<lparr>ns_SelectNodeLabels := []\<rparr>
     \<and> maps_Equal (ns_SelectNodeLabels a) (ns_SelectNodeLabels b) \<and> w_nilAgreeNSG w a b"

text \<open>The spec: what is written at create time only, and what is written on every reconcile.\<close>

definition specAtCreate :: "buildTask \<Rightarrow> placement \<Rightarrow> LoadBalancerConfigSpec \<Rightarrow> LoadBalancerConfigSpec" where
  "specAtCreate t place spec =
     (case place of (zoneId, networkId, subnetId, subnetCidr) \<Rightarrow>
        spec\<lparr>sp_Type := LoadBalancerTypeLayer4 (bt_kc t), sp_SubnetId := subnetId, sp_ZoneId := zoneId,
             sp_LoadBalancerName := buildLoadBalancerName t\<rparr>)"

definition specAlways :: "buildTask \<Rightarrow> placement \<Rightarrow> Pool list \<times> Listener list \<Rightarrow> LoadBalancerConfigSpec \<Rightarrow> LoadBalancerConfigSpec" where
  "specAlways t place built spec =
     spec\<lparr>sp_VpcId := fst (snd place),
          sp_ClusterId := (if bt_clusterId t \<noteq> [] then Some (bt_clusterId t) else sp_ClusterId spec),
          sp_LoadBalancerId := buildLoadBalancerId t, sp_PackageId := buildPackageId t, sp_Scheme := buildScheme t,
          sp_PrivateSubnetId := buildPrivateSubnetId t, sp_PrivateZoneId := buildPrivateZoneId t,
          sp_EnableAutoscale := buildAutoscale t, sp_Tags := buildTags t, sp_IsPoc := buildIsPoc t,
          sp_Pools := fst built, sp_Listeners := snd built\<rparr>"

definition wantedLBC :: "buildTask \<Rightarrow> LoadBalancerConfig option \<Rightarrow> placement \<Rightarrow> Pool list \<times> Listener list \<Rightarrow> LoadBalancerConfig" where
  "wantedLBC t existing place built =
     (case existing of
        None \<Rightarrow> (newLBC t)\<lparr>lbc_Meta := setOwnerLabels (bt_service t) (lbc_Meta (newLBC t)),
                 lbc_Spec := specAlways t place built (specAtCreate t place (lbc_Spec (newLBC t)))\<rparr>
      | Some old \<Rightarrow> old\<lparr>lbc_Meta := setOwnerLabels (bt_service t) (lbc_Meta old),
                 lbc_Spec := specAlways t place built (lbc_Spec old)\<rparr>)"

definition writeLBC :: "buildTask \<Rightarrow> LoadBalancerConfig option \<Rightarrow> LoadBalancerConfig \<Rightarrow> unit S" where
  "writeLBC t existing lbc =
     (case existing of
        None \<Rightarrow> wrapErr (errorf ''failed to create LoadBalancerConfig'') (CreateLoadBalancerConfig (bt_world t) lbc)
      | Some old \<Rightarrow>
          if \<not> lbcSpecEqual (bt_world t) (lbc_Spec old) (lbc_Spec lbc) then
            wrapErr (errorf (''failed to patch LoadBalancerConfig '' @ om_Namespace (lbc_Meta lbc) @ ''/'' @ om_Name (lbc_Meta lbc)))
              (PatchLBC (bt_world t) old lbc)
          else returnM ())"

definition firstItem :: "'a list \<Rightarrow> 'a option" where
  "firstItem items = (case items of [] \<Rightarrow> None | x # _ \<Rightarrow> Some x)"

text \<open>Returns the subnet CIDR the task has afterwards, the only one of its fields that is read.\<close>

definition buildLoadBalancerConfig :: "buildTask \<Rightarrow> string S" where
  "buildLoadBalancerConfig t =
     andThen (wrapErr (errorf ''failed to list LoadBalancerConfig'')
       (ListLBC (bt_world t) (bt_ns t) (ownerLabels (bt_service t)))) (\<lambda>items.
     if 1 < length items then
       failM (ErrorString (''found multiple LBC for service '' @ bt_ns t @ ''/'' @ bt_name t))
     else if isIgnore (bt_parser t) (bt_service t) then returnM []
     else
       andThen (buildSubnetAndZone t (firstItem items)) (\<lambda>place.
       andThen (buildPoolsAndListeners t (buildTargetNodeLabels t)) (\<lambda>built.
       andThen (writeLBC t (firstItem items) (wantedLBC t (firstItem items) place built)) (\<lambda>_.
       returnM (snd (snd (snd place)))))))"

section \<open>The NodeSecurityGroup\<close>

definition newNSG :: "buildTask \<Rightarrow> NodeSecurityGroup" where
  "newNSG t = \<lparr>nsg_Meta = zeroMeta\<lparr>om_Name := GetLoadBalancerDefaultName (bt_nameHelper t), om_Namespace := bt_ns t\<rparr>,
     nsg_Spec = \<lparr>ns_SelectNodeLabels = [], ns_AttachSecurityGroups = [], ns_ManagedSecurityGroup = None\<rparr>,
     nsg_Status = zeroNSGStatus\<rparr>"

definition nsgSpecFor :: "buildTask \<Rightarrow> string \<Rightarrow> NodeSecurityGroupSpec S" where
  "nsgSpecFor t subnetCidr =
     (let targetNodeLabels = buildTargetNodeLabels t
      in case buildIsAutoCreateSecGroup t of (auto, secgroupIds) \<Rightarrow>
           if \<not> auto then
             returnM \<lparr>ns_SelectNodeLabels = targetNodeLabels, ns_AttachSecurityGroups = secgroupIds, ns_ManagedSecurityGroup = None\<rparr>
           else andThen (buildDefaultSecurityGroupRule t subnetCidr targetNodeLabels) (\<lambda>secgroupRules.
             returnM \<lparr>ns_SelectNodeLabels = targetNodeLabels, ns_AttachSecurityGroups = [],
               ns_ManagedSecurityGroup = Some \<lparr>msg_Name = GetLoadBalancerDefaultName (bt_nameHelper t),
                 msg_Description = Some ''Automatically created using VNGCLOUD LoadBalancer Controller'',
                 msg_Rules = secgroupRules\<rparr>\<rparr>))"

definition wantedNSG :: "buildTask \<Rightarrow> NodeSecurityGroup option \<Rightarrow> NodeSecurityGroupSpec \<Rightarrow> NodeSecurityGroup" where
  "wantedNSG t existing spec =
     (let nsg = (case existing of None \<Rightarrow> newNSG t | Some old \<Rightarrow> old)
      in nsg\<lparr>nsg_Meta := setOwnerLabels (bt_service t) (nsg_Meta nsg), nsg_Spec := spec\<rparr>)"

definition writeNSG :: "buildTask \<Rightarrow> NodeSecurityGroup option \<Rightarrow> NodeSecurityGroup \<Rightarrow> unit S" where
  "writeNSG t existing nsg =
     (case existing of
        None \<Rightarrow> wrapErr (errorf ''failed to create NodeSecurityGroup'') (CreateNodeSecurityGroup (bt_world t) nsg)
      | Some old \<Rightarrow>
          if \<not> nsgSpecEqual (bt_world t) (nsg_Spec old) (nsg_Spec nsg) then
            wrapErr (errorf (''failed to patch NodeSecurityGroup '' @ om_Namespace (nsg_Meta nsg) @ ''/'' @ om_Name (nsg_Meta nsg)))
              (PatchNSG (bt_world t) old nsg)
          else returnM ())"

definition buildNodeSecurityGroup :: "buildTask \<Rightarrow> string \<Rightarrow> unit S" where
  "buildNodeSecurityGroup t subnetCidr =
     andThen (ListNSG (bt_world t) (bt_ns t) (ownerLabels (bt_service t))) (\<lambda>items.
     if 1 < length items then
       failM (ErrorString (''found multiple NodeSecurityGroup for service '' @ bt_ns t @ ''/'' @ bt_name t))
     else
       andThen (nsgSpecFor t subnetCidr) (\<lambda>spec. writeNSG t (firstItem items) (wantedNSG t (firstItem items) spec)))"

section \<open>The address, and the whole run\<close>

definition getLBCAddress :: "buildTask \<Rightarrow> string S" where
  "getLBCAddress t =
     andThen (attempt (ListLBC (bt_world t) (bt_ns t) (ownerLabels (bt_service t)))) (\<lambda>r. returnM (case r of
       Inl _ \<Rightarrow> []
     | Inr items \<Rightarrow>
         if 1 < length items then []
         else (case firstItem items of None \<Rightarrow> [] | Some lbc \<Rightarrow> deref (ss_Address (lbc_Status lbc)))))"

definition runService :: "serviceUtils \<Rightarrow> buildTask \<Rightarrow> unit S" where
  "runService u t =
     (if \<not> IsServiceSupported (bt_kc t) u (bt_service t) then
        if IsServicePendingFinalization u (bt_service t)
        then failM (RequeueNeeded ''service is not supported but pending finalization, re-run delete flow'')
        else returnM ()
      else
        andThen (buildLoadBalancerConfig t) (\<lambda>subnetCidr.
        andThen (buildNodeSecurityGroup t subnetCidr) (\<lambda>_.
        andThen (getLBCAddress t) (\<lambda>address.
          if address \<noteq> [] then
            wrapErr (errorf ''failed to update service status address'')
              (UpdateServiceStatusAddress (bt_kc t) (bt_world t) (bt_ns t) (bt_name t) address)
          else returnM ()))))"

section \<open>The parts that only read\<close>

lemma safe_read_placementInZone: "safe (addsR svcHist svcRead) (placementInZone t z ids) s"
  by (induction ids arbitrary: s) (auto simp: world_defs svcRead_def intro!: safe_intro split: sum.split)

lemmas read_intro = safe_intro safe_read_endpoints safe_read_DetectCNIType safe_read_collectCidrs safe_read_placementInZone

lemma safe_read_build:
  "safe (addsR svcHist svcRead) (buildPoolsAndListeners t ls) s"
  "safe (addsR svcHist svcRead) (nsgSpecFor t cidr) s'"
  "safe (addsR svcHist svcRead) (buildSubnetAndZone t existing) s''"
  "safe (addsR svcHist svcRead) (getLBCAddress t) s'''"
  unfolding buildPoolsAndListeners_def nsgSpecFor_def buildSubnetAndZone_def getLBCAddress_def buildPort_def buildPool_def
    nodePortEndpoints_def podEndpoints_def buildDefaultSecurityGroupRule_def portRules_def nativeRules_def getAllSubnetCidrs_def
    placementOfSubnet_def world_defs
  by (intro read_intro; simp add: svcRead_def)+

text \<open>Nothing a reading part does is a write.\<close>

lemma safe_of_read:
  assumes "safe (addsR svcHist svcRead) m s" and "\<And>h e. svcRead h e \<Longrightarrow> P h e"
  shows "safe (addsR svcHist P) m s"
  using assms by (rule safe_adds_mono)


section \<open>What a run writes\<close>

definition ownedBy :: "Service \<Rightarrow> ObjectMeta \<Rightarrow> bool" where
  "ownedBy svc meta \<longleftrightarrow> (\<forall>(k, v) \<in> set (ownerLabels svc). map_of (om_Labels meta) k = Some v)"

text \<open>The fields the LoadBalancerConfig controller mirrors from the cloud, and its status.\<close>

definition mirroredKept :: "LoadBalancerConfig \<Rightarrow> LoadBalancerConfig \<Rightarrow> bool" where
  "mirroredKept old new \<longleftrightarrow> lbc_Status new = lbc_Status old
     \<and> sp_Type (lbc_Spec new) = sp_Type (lbc_Spec old) \<and> sp_SubnetId (lbc_Spec new) = sp_SubnetId (lbc_Spec old)
     \<and> sp_ZoneId (lbc_Spec new) = sp_ZoneId (lbc_Spec old)
     \<and> sp_LoadBalancerName (lbc_Spec new) = sp_LoadBalancerName (lbc_Spec old)
     \<and> sp_CreateCertificates (lbc_Spec new) = sp_CreateCertificates (lbc_Spec old)"

definition serviceWrite :: "buildTask \<Rightarrow> svcEvent list \<Rightarrow> svcEvent \<Rightarrow> bool" where
  "serviceWrite t es e \<longleftrightarrow>
     (case e of
        SvCreateLBC lbc _ \<Rightarrow> SvListLBC (bt_ns t) (ownerLabels (bt_service t)) (Inr []) \<in> set es
          \<and> om_Namespace (lbc_Meta lbc) = bt_ns t \<and> ownedBy (bt_service t) (lbc_Meta lbc)
      | SvPatchLBC old new _ \<Rightarrow> SvListLBC (bt_ns t) (ownerLabels (bt_service t)) (Inr [old]) \<in> set es
          \<and> mirroredKept old new \<and> ownedBy (bt_service t) (lbc_Meta new)
          \<and> \<not> lbcSpecEqual (bt_world t) (lbc_Spec old) (lbc_Spec new)
      | SvCreateNSG nsg _ \<Rightarrow> SvListNSG (bt_ns t) (ownerLabels (bt_service t)) (Inr []) \<in> set es
          \<and> om_Namespace (nsg_Meta nsg) = bt_ns t \<and> ownedBy (bt_service t) (nsg_Meta nsg)
      | SvPatchNSG old new _ \<Rightarrow> SvListNSG (bt_ns t) (ownerLabels (bt_service t)) (Inr [old]) \<in> set es
          \<and> ownedBy (bt_service t) (nsg_Meta new) \<and> \<not> nsgSpecEqual (bt_world t) (nsg_Spec old) (nsg_Spec new)
      | SvPatchServiceStatus old new _ \<Rightarrow> (\<exists>host. new = old\<lparr>svc_Ingress := [\<lparr>ing_Hostname = host\<rparr>]\<rparr>)
      | SvPatchService old new _ \<Rightarrow> (\<exists>ip. new = old\<lparr>svc_ExternalIPs := svc_ExternalIPs old @ [ip]\<rparr> \<and> ip \<notin> set (svc_ExternalIPs old))
      | _ \<Rightarrow> svcRead es e)"

lemma serviceWrite_read: "svcRead h e \<Longrightarrow> ofRun n (serviceWrite t) h e"
  by (cases e) (simp_all add: ofRun_def serviceWrite_def svcRead_def)

lemma safe_write_read:
  "safe (addsR svcHist svcRead) m s \<Longrightarrow> safe (addsR svcHist (ofRun n (serviceWrite t))) m s"
  by (erule safe_of_read) (rule serviceWrite_read)

lemma ownedBy_setOwnerLabels: "ownedBy svc (setOwnerLabels svc meta)"
  by (simp add: ownedBy_def setOwnerLabels_def ownerLabels_def update_conv'
      LabelOwnerResourceName_def LabelOwnerResourceKind_def LabelOwnerResourceUid_def)

lemma safe_awaitCreated_write:
  assumes "\<And>h e. svcRead h e \<Longrightarrow> P h e" and "\<And>s'. safe (addsR svcHist svcRead) get s'"
  shows "safe (addsR svcHist P) (awaitCreatedObject w get err k) s"
  by (rule safe_read_awaitCreated, rule safe_of_read[OF assms(2)], rule assms(1))

lemma safe_write_createLBC:
  assumes "SvListLBC (bt_ns t) (ownerLabels (bt_service t)) (Inr []) \<in> set (drop n (svcHist s))"
    and "om_Namespace (lbc_Meta lbc) = bt_ns t" and "ownedBy (bt_service t) (lbc_Meta lbc)"
  shows "safe (addsR svcHist (ofRun n (serviceWrite t))) (CreateLoadBalancerConfig w lbc) s"
  unfolding CreateLoadBalancerConfig_def Let_def
  by (intro safe_intro ofRun_ask safe_awaitCreated_write serviceWrite_read)
    (simp_all add: serviceWrite_def svcRead_def assms)

lemma safe_write_createNSG:
  assumes "SvListNSG (bt_ns t) (ownerLabels (bt_service t)) (Inr []) \<in> set (drop n (svcHist s))"
    and "om_Namespace (nsg_Meta nsg) = bt_ns t" and "ownedBy (bt_service t) (nsg_Meta nsg)"
  shows "safe (addsR svcHist (ofRun n (serviceWrite t))) (CreateNodeSecurityGroup w nsg) s"
  unfolding CreateNodeSecurityGroup_def Let_def
  by (intro safe_intro ofRun_ask safe_awaitCreated_write serviceWrite_read)
    (simp_all add: serviceWrite_def svcRead_def assms)

text \<open>The one object a list showed, or none.\<close>

lemma firstItem_list: "\<not> 1 < length items \<Longrightarrow> items = (case firstItem items of None \<Rightarrow> [] | Some x \<Rightarrow> [x])"
  by (cases items; cases "tl items") (auto simp: firstItem_def)

lemma safe_write_writeLBC:
  assumes "SvListLBC (bt_ns t) (ownerLabels (bt_service t)) (Inr (case existing of None \<Rightarrow> [] | Some x \<Rightarrow> [x])) \<in> set (drop n (svcHist s))"
  shows "safe (addsR svcHist (ofRun n (serviceWrite t))) (writeLBC t existing (wantedLBC t existing place built)) s"
proof (cases existing)
  case None
  have "om_Namespace (lbc_Meta (wantedLBC t None place built)) = bt_ns t"
    by (simp add: wantedLBC_def newLBC_def setOwnerLabels_def)
  moreover have "ownedBy (bt_service t) (lbc_Meta (wantedLBC t None place built))"
    by (simp add: wantedLBC_def ownedBy_setOwnerLabels)
  ultimately show ?thesis
    using assms None unfolding writeLBC_def
    by (simp, intro safe_intro safe_write_createLBC) simp_all
next
  case (Some old)
  have "mirroredKept old (wantedLBC t existing place built)" "ownedBy (bt_service t) (lbc_Meta (wantedLBC t existing place built))"
    by (simp_all add: Some wantedLBC_def ownedBy_setOwnerLabels mirroredKept_def specAlways_def)
  with assms Some show ?thesis
    unfolding writeLBC_def PatchLBC_def
    by (simp, intro safe_intro ofRun_ask conjI impI) (simp_all add: serviceWrite_def)
qed

lemma safe_write_writeNSG:
  assumes "SvListNSG (bt_ns t) (ownerLabels (bt_service t)) (Inr (case existing of None \<Rightarrow> [] | Some x \<Rightarrow> [x])) \<in> set (drop n (svcHist s))"
  shows "safe (addsR svcHist (ofRun n (serviceWrite t))) (writeNSG t existing (wantedNSG t existing spec)) s"
proof (cases existing)
  case None
  have "om_Namespace (nsg_Meta (wantedNSG t None spec)) = bt_ns t"
    by (simp add: wantedNSG_def newNSG_def setOwnerLabels_def)
  moreover have "ownedBy (bt_service t) (nsg_Meta (wantedNSG t None spec))"
    by (simp add: wantedNSG_def Let_def ownedBy_setOwnerLabels)
  ultimately show ?thesis
    using assms None unfolding writeNSG_def
    by (simp, intro safe_intro safe_write_createNSG) simp_all
next
  case (Some old)
  have "ownedBy (bt_service t) (nsg_Meta (wantedNSG t existing spec))"
    by (simp add: wantedNSG_def Let_def ownedBy_setOwnerLabels)
  with assms Some show ?thesis
    unfolding writeNSG_def PatchNSG_def
    by (simp, intro safe_intro ofRun_ask conjI impI) (simp_all add: serviceWrite_def)
qed

lemma safe_list: 
  "safe (addsR svcHist (ofRun n (serviceWrite t))) (ListLBC w ns ls) s"
  "safe (addsR svcHist (ofRun n (serviceWrite t))) (ListNSG w ns ls) s'"
  unfolding ListLBC_def ListNSG_def by (intro safe_intro serviceWrite_read; simp add: svcRead_def)+

lemma safe_write_buildLBC:
  assumes "n \<le> length (svcHist s)"
  shows "safe (addsR svcHist (ofRun n (serviceWrite t))) (buildLoadBalancerConfig t) s"
proof -
  let ?R = "addsR svcHist (ofRun n (serviceWrite t))"
  have wr: "safe ?R (writeLBC t (firstItem items) (wantedLBC t (firstItem items) place built)) s'"
    if "wrapErr f (ListLBC (bt_world t) (bt_ns t) (ownerLabels (bt_service t))) s = (Inr items, s1)" "\<not> 1 < length items"
      "?R s1 s2" "?R s2 s'" for f items s1 s2 s' place built
  proof -
    from that(1) assms have "SvListLBC (bt_ns t) (ownerLabels (bt_service t)) (Inr items) \<in> set (drop n (svcHist s1))" "n \<le> length (svcHist s1)"
      by (auto simp: ListLBC_def)
    with addsR_keeps[OF addsR_trans[OF that(3,4)]] firstItem_list[OF that(2)] show ?thesis
      by (intro safe_write_writeLBC) simp
  qed
  show ?thesis
    unfolding buildLoadBalancerConfig_def
    by (intro safe_intro safe_read_build[THEN safe_write_read] safe_list) (rule wr; assumption)
qed

lemma safe_write_buildNSG:
  assumes "n \<le> length (svcHist s)"
  shows "safe (addsR svcHist (ofRun n (serviceWrite t))) (buildNodeSecurityGroup t cidr) s"
proof -
  let ?R = "addsR svcHist (ofRun n (serviceWrite t))"
  have wr: "safe ?R (writeNSG t (firstItem items) (wantedNSG t (firstItem items) spec)) s'"
    if "ListNSG (bt_world t) (bt_ns t) (ownerLabels (bt_service t)) s = (Inr items, s1)" "\<not> 1 < length items"
      "?R s1 s'" for items s1 s' spec
  proof -
    from that(1) assms have "SvListNSG (bt_ns t) (ownerLabels (bt_service t)) (Inr items) \<in> set (drop n (svcHist s1))" "n \<le> length (svcHist s1)"
      by (auto simp: ListNSG_def)
    with addsR_keeps[OF that(3)] firstItem_list[OF that(2)] show ?thesis
      by (intro safe_write_writeNSG) simp
  qed
  show ?thesis
    unfolding buildNodeSecurityGroup_def
    by (intro safe_intro safe_read_build[THEN safe_write_read] safe_list) (rule wr; assumption)
qed

lemma safe_write_updateAddress:
  "safe (addsR svcHist (ofRun n (serviceWrite t))) (UpdateServiceStatusAddress kc w ns m a) s"
  unfolding UpdateServiceStatusAddress_def Let_def world_defs
  by (intro safe_intro ofRun_ask) (auto simp: serviceWrite_def svcRead_def)

lemma safe_write_runService:
  assumes "n \<le> length (svcHist s)"
  shows "safe (addsR svcHist (ofRun n (serviceWrite t))) (runService u t) s"
  unfolding runService_def
  by (intro safe_intro safe_write_buildLBC safe_write_buildNSG safe_write_updateAddress
      safe_read_build[THEN safe_write_read] assms)
    (use assms in \<open>auto simp: addsR_def\<close>)

text \<open>
  C6. A Service writes only what is its own, and never what the cloud decides. In one run a
  LoadBalancerConfig or NodeSecurityGroup is created only after a list under the owner labels came
  back empty in this run, and carries these labels, so that the next run finds it; an existing one is
  patched only if it is the one listed and its spec differs, without touching type, subnet, zone and
  name of the load balancer, which are mirrored from the cloud; of the Service only the address is
  written.
\<close>

theorem runService_writes:
  "safe (addsR svcHist (ofRun (length (svcHist s)) (serviceWrite t))) (runService u t) s"
  by (rule safe_write_runService) simp

section \<open>Once written, nothing is left to write\<close>

lemma distinct_keyValuePairs: "keyValuePairs xs acc = Some m \<Longrightarrow> distinct (map fst acc) \<Longrightarrow> distinct (map fst m)"
  by (induction xs arbitrary: acc) (auto split: list.splits if_splits simp: distinct_update)

lemma distinct_mapAnn: "distinct (map fst (mapAnn t sfx))"
  by (auto simp: mapAnn_def ParseStringMapAnnotation_def split: sum.splits option.splits dest: distinct_keyValuePairs)

lemma maps_Equal_refl: "distinct (map fst m) \<Longrightarrow> maps_Equal m m"
  by (auto simp: maps_Equal_def list_all_iff)

text \<open>A LoadBalancerConfig as it was written, with whatever the cloud has put into the mirrored fields since.\<close>

definition mirrored :: "string \<times> string \<times> string \<times> string \<Rightarrow> LoadBalancerConfigSpec \<Rightarrow> LoadBalancerConfigSpec" where
  "mirrored m spec = (case m of (ty, subnet, zone, name) \<Rightarrow>
     spec\<lparr>sp_Type := ty, sp_SubnetId := subnet, sp_ZoneId := zone, sp_LoadBalancerName := name\<rparr>)"

lemma specAlways_idem:
  "fst (snd place') = fst (snd place) \<Longrightarrow> specAlways t place' built (mirrored m (specAlways t place built spec)) = mirrored m (specAlways t place built spec)"
  by (simp add: specAlways_def mirrored_def split: prod.split)


section \<open>Where the load balancer goes\<close>

text \<open>The subnet that is asked for, given the calls of the run.\<close>

definition wantsSubnet :: "buildTask \<Rightarrow> LoadBalancerConfig option \<Rightarrow> svcHistory \<Rightarrow> string \<Rightarrow> bool" where
  "wantsSubnet t existing h subnetId \<longleftrightarrow>
     (case buildLoadBalancerId t of
        Some lbID \<Rightarrow> \<exists>lb. SvGetLoadBalancerByID lbID (Inr (Some lb)) \<in> set h \<and> subnetId = elb_BackendSubnetID lb
      | None \<Rightarrow>
          if existingSubnetId existing \<noteq> [] then subnetId = existingSubnetId existing
          else deref (strAnn t SuffixPreferSubnetID) \<noteq> [] \<and> subnetId = deref (strAnn t SuffixPreferSubnetID))"

definition placedIn :: "buildTask \<Rightarrow> svcHistory \<Rightarrow> string \<Rightarrow> placement \<Rightarrow> bool" where
  "placedIn t h subnetId place \<longleftrightarrow>
     (if subnetId = bt_defaultSubnetId t then place = defaultPlacement t
      else \<exists>sn. SvGetSubnetByID (bt_defaultNetworkId t) subnetId (Inr (Some sn)) \<in> set h
             \<and> place = (sn_ZoneID sn, bt_defaultNetworkId t, sn_Id sn, sn_Cidr sn))"

lemma placementOfSubnet_placed:
  assumes "placementOfSubnet t what subnetId s = (Inr place, s')"
  shows "placedIn t (svcHist s') subnetId place \<and> set (svcHist s) \<subseteq> set (svcHist s')"
proof (cases "subnetId = bt_defaultSubnetId t")
  case False
  with assms obtain sn where "GetSubnetByID (bt_world t) (bt_defaultNetworkId t) subnetId s = (Inr (Some sn), s')"
    "place = (sn_ZoneID sn, bt_defaultNetworkId t, sn_Id sn, sn_Cidr sn)"
    by (auto simp: placementOfSubnet_def andThen_Inr_iff split: option.splits)
  with False show ?thesis by (auto simp: placedIn_def GetSubnetByID_def intro!: exI[of _ sn])
qed (use assms in \<open>auto simp: placementOfSubnet_def placedIn_def\<close>)

lemma placementInZone_zone:
  "placementInZone t z ids s = (Inr place, s') \<Longrightarrow>
   fst place = z \<and> (\<exists>i. SvGetServerNetworkInfo i (Inr place) \<in> set (svcHist s'))"
proof (induction ids arbitrary: s)
  case (Cons i ids)
  obtain r s1 where got: "GetServerNetworkInfo (bt_world t) i s = (r, s1)" by (cases "GetServerNetworkInfo (bt_world t) i s")
  then have ev: "SvGetServerNetworkInfo i r \<in> set (svcHist s1)" by (auto simp: GetServerNetworkInfo_def)
  from Cons.prems got have "(case r of Inl _ \<Rightarrow> placementInZone t z ids
     | Inr p \<Rightarrow> if fst p = z then returnM p else placementInZone t z ids) s1 = (Inr place, s')"
    by (simp add: andThen_def attempt_def)
  with ev Cons.IH show ?case by (cases r) (auto split: if_splits)
qed simp

text \<open>
  Where the load balancer goes. A subnet that is asked for - by the load balancer the annotation
  names, else by what the cloud or the spec of the existing object says, else by annotation - is the
  one that is used, with the zone and CIDR the cloud gives for it; only without one a preferred zone
  is looked for among the nodes, and found; only without either the defaults of the cluster are taken.
\<close>

theorem buildSubnetAndZone_priority:
  assumes "buildSubnetAndZone t existing s = (Inr place, s')"
  shows "(\<exists>subnetId. wantsSubnet t existing (svcHist s') subnetId \<and> placedIn t (svcHist s') subnetId place)
    \<or> (buildLoadBalancerId t = None \<and> existingSubnetId existing = [] \<and> deref (strAnn t SuffixPreferSubnetID) = []
       \<and> (let zone = deref (strAnn t SuffixPreferZoneID)
          in if zone = [] \<or> zone = bt_defaultZone t then place = defaultPlacement t
             else fst place = zone \<and> (\<exists>i. SvGetServerNetworkInfo i (Inr place) \<in> set (svcHist s'))))"
proof (cases "buildLoadBalancerId t")
  case (Some lbID)
  with assms obtain lb s1 where "LoadBalancerByID (bt_world t) lbID s = (Inr (Some lb), s1)"
    and place: "placementOfSubnet t ''subnet '' (elb_BackendSubnetID lb) s1 = (Inr place, s')"
    by (auto simp: buildSubnetAndZone_def andThen_Inr_iff split: option.splits)
  then have "SvGetLoadBalancerByID lbID (Inr (Some lb)) \<in> set (svcHist s1)" by (auto simp: LoadBalancerByID_def)
  with Some placementOfSubnet_placed[OF place] show ?thesis by (auto simp: wantsSubnet_def)
next
  case None
  note no_id = this
  show ?thesis
  proof (cases "existingSubnetId existing = [] \<and> deref (strAnn t SuffixPreferSubnetID) = []")
    case False
    with None assms show ?thesis
      by (auto simp: buildSubnetAndZone_def wantsSubnet_def Let_def split: if_splits dest!: placementOfSubnet_placed)
  next
    case True
    let ?zone = "deref (strAnn t SuffixPreferZoneID)"
    show ?thesis
    proof (cases "?zone = [] \<or> ?zone = bt_defaultZone t")
      case False
      with None True assms obtain ids s1 where "placementInZone t ?zone ids s1 = (Inr place, s')"
        by (auto simp: buildSubnetAndZone_def andThen_Inr_iff Let_def split: if_splits)
      from placementInZone_zone[OF this] None True False show ?thesis by simp
    qed (use None True assms in \<open>auto simp: buildSubnetAndZone_def Let_def split: if_splits\<close>)
  qed
qed

section \<open>An ignored Service\<close>

text \<open>
  The annotation \<open>ignore\<close> skips the LoadBalancerConfig only: the NodeSecurityGroup is still built, with
  the empty text for the subnet of the load balancer in its rules.
\<close>

theorem ignored_still_builds_rules:
  assumes "IsServiceSupported (bt_kc t) u (bt_service t)" and "isIgnore (bt_parser t) (bt_service t)"
    and "ListLBC (bt_world t) (bt_ns t) (ownerLabels (bt_service t)) s = (Inr items, s1)" and "length items \<le> 1"
  shows "runService u t s =
    andThen (buildNodeSecurityGroup t []) (\<lambda>_.
    andThen (getLBCAddress t) (\<lambda>address.
      if address \<noteq> [] then
        wrapErr (errorf ''failed to update service status address'')
          (UpdateServiceStatusAddress (bt_kc t) (bt_world t) (bt_ns t) (bt_name t) address)
      else returnM ())) s1"
  using assms by (simp add: runService_def buildLoadBalancerConfig_def andThen_def wrapErr_def)

text \<open>Idle timeouts are cut to 32 bits: 4294967346 seconds are 50.\<close>

theorem idle_timeout_wraps:
  "intAnn t SuffixIdleTimeoutClient = Some 4294967346 \<Longrightarrow> buildIdleTimeoutClient t = Some 50"
  by (simp add: buildIdleTimeoutClient_def toInt32_def)

end
