(* ===== verification/Service_UseCase.thy ===== *)
theory Service_UseCase
  imports Service_Build "HOL-Library.Multiset"
begin

text \<open>
  \<^verbatim>\<open>internal/usecase/service_uc/service_uc.go\<close> and \<^verbatim>\<open>internal/controller/core/service_controller.go\<close>: the
  use case of Services and the controller in front of it. The two goroutines of a deletion are
  explicit: each is a sequence of single calls, and \<open>pick\<close> says whose call comes next.
\<close>

section \<open>The use case\<close>

record serviceUseCase =
  suc_kc :: svc_consts
  suc_world :: svcWorld
  suc_parser :: suffixAnnotationParser
  suc_utils :: serviceUtils
  suc_clusterId :: string
  suc_defaultNetworkId :: string
  suc_defaultSubnetId :: string
  suc_defaultSubnetCIDR :: string
  suc_defaultZone :: string

text \<open>Initialisation fills in what the configuration leaves open; it returns the use case as it leaves it.\<close>

definition networkIncomplete :: "serviceUseCase \<Rightarrow> bool" where
  "networkIncomplete uc \<longleftrightarrow> suc_defaultNetworkId uc = [] \<or> suc_defaultSubnetId uc = [] \<or> suc_defaultSubnetCIDR uc = []
     \<or> suc_defaultZone uc = []"

definition initNetwork :: "serviceUseCase \<Rightarrow> Node list \<Rightarrow> serviceUseCase S" where
  "initNetwork uc nodes =
     (if \<not> networkIncomplete uc then returnM uc
      else let firstProviderId = GetProviderIdFromNode (FirstNodeByName nodes) in
        if firstProviderId = [] then failM (ErrorString ''failed to get provider ID from node'')
        else andThen (wrapErr (errorf (''failed to get default network info from node '' @ firstProviderId))
               (GetServerNetworkInfo (suc_world uc) firstProviderId)) (\<lambda>(zone, network, subnet, cidr).
          let uc' = uc\<lparr>suc_defaultZone := zone, suc_defaultNetworkId := network, suc_defaultSubnetId := subnet,
                       suc_defaultSubnetCIDR := cidr\<rparr>
          in if networkIncomplete uc' then failM (ErrorString ''default network info is incomplete'') else returnM uc'))"

definition clusterIdLabel :: string where "clusterIdLabel = ''vks.vngcloud.vn/cluster-id''"

definition initClusterId :: "serviceUseCase \<Rightarrow> Node list \<Rightarrow> serviceUseCase S" where
  "initClusterId uc nodes =
     (if suc_clusterId uc \<noteq> [] then returnM uc
      else case find (\<lambda>node. map_get (node_Labels node) clusterIdLabel \<noteq> []) nodes of
        None \<Rightarrow> failM (ErrorString ''no clusterID found, should exist in node label or specify in config'')
      | Some node \<Rightarrow> returnM (uc\<lparr>suc_clusterId := map_get (node_Labels node) clusterIdLabel\<rparr>))"

definition InitServiceUseCase :: "serviceUseCase \<Rightarrow> serviceUseCase S" where
  "InitServiceUseCase uc =
     andThen (wrapErr (errorf ''failed to list nodes'') (ListNode (suc_world uc) [])) (\<lambda>nodes.
     if nodes = [] then failM (ErrorString ''no nodes found in cluster'')
     else andThen (initNetwork uc nodes) (\<lambda>uc1.
          andThen (initClusterId uc1 nodes) (\<lambda>uc2.
          andThen (wrapErr (errorf ''failed to detect CNI type'') (DetectCNIType (suc_world uc))) (\<lambda>_.
          returnM uc2))))"

definition newBuildTask :: "serviceUseCase \<Rightarrow> Service \<Rightarrow> buildTask" where
  "newBuildTask uc svc =
     \<lparr>bt_clusterId = suc_clusterId uc, bt_parser = suc_parser uc, bt_kc = suc_kc uc, bt_service = svc,
      bt_world = suc_world uc,
      bt_nameHelper = NewNameHelper (suc_clusterId uc) ''service'' (om_Namespace (svc_Meta svc)) (om_Name (svc_Meta svc)),
      bt_defaultZone = suc_defaultZone uc, bt_defaultNetworkId = suc_defaultNetworkId uc,
      bt_defaultSubnetId = suc_defaultSubnetId uc, bt_defaultSubnetCIDR = suc_defaultSubnetCIDR uc\<rparr>"

definition ensureService :: "serviceUseCase \<Rightarrow> string \<Rightarrow> string \<Rightarrow> unit S" where
  "ensureService uc ns n =
     andThen (attempt (GetService (suc_world uc) ns n)) (\<lambda>got. case got of
       Inl err \<Rightarrow> ignoreNotFound (suc_world uc) err
     | Inr svc \<Rightarrow> runService (suc_utils uc) (newBuildTask uc svc))"

definition EnsureServiceUseCase :: "serviceUseCase \<Rightarrow> string \<Rightarrow> string \<Rightarrow> unit S" where
  "EnsureServiceUseCase uc ns n =
     wrapErr (\<lambda>err. if IsExceededSecurityGroupPerServerQuota err \<or> IsLoadBalancerNotFound err
                    then NewNoNeedRequeue (Error err) else err) (ensureService uc ns n)"

section \<open>Deleting what a Service owns\<close>

text \<open>\<open>deleteLoadBalancerConfig\<close> and \<open>deleteNodeSecurityGroup\<close> differ in what they list and delete.\<close>

record 'a delOps =
  do_list :: "'a list S"
  do_dying :: "'a \<Rightarrow> bool"
  do_delete :: "'a \<Rightarrow> unit S"
  do_name :: "'a \<Rightarrow> string"
  do_what :: string
  do_IsNotFound :: "go_error \<Rightarrow> bool"

type_synonym delResult = "string list \<times> go_error option"

datatype 'a delPhase = DelList | DelLoop "'a list" "string list" | DelDone delResult

text \<open>One call of a goroutine.\<close>

definition delStep :: "'a delOps \<Rightarrow> 'a delPhase \<Rightarrow> svcSt \<Rightarrow> 'a delPhase \<times> svcSt" where
  "delStep ops phase s =
     (case phase of
        DelList \<Rightarrow>
          (case do_list ops s of
             (Inl err, s') \<Rightarrow> (DelDone ([], Some (errorf (''failed to list '' @ do_what ops @ ''s by label'') err)), s')
           | (Inr items, s') \<Rightarrow> (if items = [] then DelDone ([], None) else DelLoop items [], s'))
      | DelLoop [] stillExist \<Rightarrow> (DelDone (stillExist, None), s)
      | DelLoop (x # rest) stillExist \<Rightarrow>
          if do_dying ops x then (DelLoop rest (stillExist @ [do_name ops x]), s)
          else (case do_delete ops x s of
             (Inl err, s') \<Rightarrow>
               (if do_IsNotFound ops err then DelLoop rest (stillExist @ [do_name ops x])
                else DelDone ([], Some (errorf (''failed to delete '' @ do_what ops @ '' '' @ drop 4 (do_name ops x)) err)), s')
           | (Inr _, s') \<Rightarrow> (DelLoop rest (stillExist @ [do_name ops x]), s'))
      | DelDone r \<Rightarrow> (DelDone r, s))"

fun finished :: "'a delPhase \<Rightarrow> bool" where
  "finished (DelDone r) = True"
| "finished _ = False"

text \<open>What a goroutine that has got there puts into the channel.\<close>

fun sent :: "'a delPhase \<Rightarrow> delResult list" where
  "sent (DelDone r) = [r]"
| "sent _ = []"

fun unlisted :: "'a delPhase \<Rightarrow> nat" where
  "unlisted DelList = 1"
| "unlisted _ = 0"

fun callsLeft :: "'a delPhase \<Rightarrow> nat" where
  "callsLeft (DelLoop xs _) = Suc (length xs)"
| "callsLeft _ = 0"

lemma delStep_progress:
  assumes "\<not> finished p" and "delStep ops p s = (p', s')"
  shows "unlisted p' < unlisted p \<or> unlisted p' = unlisted p \<and> callsLeft p' < callsLeft p"
  using assms
  by (cases p) (auto simp: delStep_def split: sum.splits prod.splits list.splits if_splits)

text \<open>Both goroutines to their end, and the channel in the order they finished.\<close>

function parDelete ::
  "'a delOps \<Rightarrow> 'b delOps \<Rightarrow> (nat \<Rightarrow> bool) \<Rightarrow> nat \<Rightarrow> 'a delPhase \<Rightarrow> 'b delPhase \<Rightarrow> delResult list \<Rightarrow> svcSt \<Rightarrow> delResult list \<times> svcSt"
where
  "parDelete o1 o2 pick k p q ch s =
     (if finished p \<and> finished q then (ch, s)
      else if \<not> finished p \<and> (pick k \<or> finished q)
      then (let (p', s') = delStep o1 p s in parDelete o1 o2 pick (Suc k) p' q (ch @ sent p') s')
      else (let (q', s') = delStep o2 q s in parDelete o1 o2 pick (Suc k) p q' (ch @ sent q') s'))"
  by pat_completeness auto

termination
  by (relation "measures [\<lambda>(o1, o2, pick, k, p, q, ch, s). unlisted p + unlisted q,
        \<lambda>(o1, o2, pick, k, p, q, ch, s). callsLeft p + callsLeft q]")
    (use delStep_progress in \<open>fastforce simp: prod_eq_iff\<close>)+

declare parDelete.simps [simp del]

definition lbcDelOps :: "svcWorld \<Rightarrow> Service \<Rightarrow> LoadBalancerConfig delOps" where
  "lbcDelOps w svc =
     \<lparr>do_list = ListLBC w (om_Namespace (svc_Meta svc)) (ownerLabels svc),
      do_dying = (\<lambda>lbc. om_DeletionTimestamp (lbc_Meta lbc) \<noteq> None), do_delete = DeleteLBC w,
      do_name = (\<lambda>lbc. ''lbc:'' @ om_Namespace (lbc_Meta lbc) @ ''/'' @ om_Name (lbc_Meta lbc)),
      do_what = ''LoadBalancerConfig'', do_IsNotFound = w_IsNotFound w\<rparr>"

definition nsgDelOps :: "svcWorld \<Rightarrow> Service \<Rightarrow> NodeSecurityGroup delOps" where
  "nsgDelOps w svc =
     \<lparr>do_list = ListNSG w (om_Namespace (svc_Meta svc)) (ownerLabels svc),
      do_dying = (\<lambda>nsg. om_DeletionTimestamp (nsg_Meta nsg) \<noteq> None), do_delete = DeleteNSG w,
      do_name = (\<lambda>nsg. ''nsg:'' @ om_Namespace (nsg_Meta nsg) @ ''/'' @ om_Name (nsg_Meta nsg)),
      do_what = ''NodeSecurityGroup'', do_IsNotFound = w_IsNotFound w\<rparr>"

definition errorsOf :: "delResult list \<Rightarrow> go_error list" where
  "errorsOf results = concat (map (\<lambda>r. case snd r of None \<Rightarrow> [] | Some err \<Rightarrow> [err]) results)"

definition collectResults :: "delResult list \<Rightarrow> unit result" where
  "collectResults results =
     (if errorsOf results \<noteq> [] then Inl (errors_Join (errorsOf results))
      else if concat (map fst results) \<noteq> [] then
        Inl (RequeueNeededAfter (''waiting for resources to be deleted: '' @ Join '', '' (concat (map fst results))) (2 * Second))
      else Inr ())"

definition DeleteServiceUseCase :: "(nat \<Rightarrow> bool) \<Rightarrow> serviceUseCase \<Rightarrow> string \<Rightarrow> string \<Rightarrow> unit S" where
  "DeleteServiceUseCase pick uc ns n =
     andThen (attempt (GetService (suc_world uc) ns n)) (\<lambda>got. case got of
       Inl err \<Rightarrow> ignoreNotFound (suc_world uc) err
     | Inr svc \<Rightarrow>
         if isIgnore (suc_parser uc) svc then returnM ()
         else (\<lambda>s. case parDelete (lbcDelOps (suc_world uc) svc) (nsgDelOps (suc_world uc) svc) pick 0 DelList DelList [] s of
                (results, s') \<Rightarrow> (collectResults results, s')))"

section \<open>The controller\<close>

definition ServiceFinalizer :: string where "ServiceFinalizer = ''service.kubernetes.io/load-balancer-cleanup''"

definition svcAddFinalizers :: "svcWorld \<Rightarrow> unit S" where
  "svcAddFinalizers w = ask (SvAddFinalizers ServiceFinalizer) (\<lambda>h. w_AddFinalizers w h ServiceFinalizer)"

definition svcRemoveFinalizers :: "svcWorld \<Rightarrow> unit S" where
  "svcRemoveFinalizers w = ask (SvRemoveFinalizers ServiceFinalizer) (\<lambda>h. w_RemoveFinalizers w h ServiceFinalizer)"

definition svcRecordEvent :: "string \<Rightarrow> string \<Rightarrow> string \<Rightarrow> unit S" where
  "svcRecordEvent eventType reason message = ask (\<lambda>_. SvRecord eventType reason message) (\<lambda>_. Inr ())"

definition svcWithMetrics :: "unit S \<Rightarrow> unit S" where
  "svcWithMetrics m = wrapErr (\<lambda>err. fst (NewErrorWithMetrics err)) m"

definition svcReconcileEnsure :: "serviceUseCase \<Rightarrow> string \<Rightarrow> string \<Rightarrow> unit S" where
  "svcReconcileEnsure uc ns n =
     andThen (svcWithMetrics (svcAddFinalizers (suc_world uc))) (\<lambda>_. svcWithMetrics (EnsureServiceUseCase uc ns n))"

definition svcReconcileDelete :: "(nat \<Rightarrow> bool) \<Rightarrow> serviceUseCase \<Rightarrow> string \<Rightarrow> string \<Rightarrow> Service \<Rightarrow> unit S" where
  "svcReconcileDelete pick uc ns n svc =
     (if ServiceFinalizer \<notin> set (om_Finalizers (svc_Meta svc)) then returnM ()
      else andThen (svcWithMetrics (DeleteServiceUseCase pick uc ns n)) (\<lambda>_. svcRemoveFinalizers (suc_world uc)))"

definition svcReport :: "string \<Rightarrow> string \<Rightarrow> string \<Rightarrow> unit S \<Rightarrow> unit S" where
  "svcReport key failed done m =
     andThen (attempt m) (\<lambda>r. case r of
       Inl err \<Rightarrow> andThen (svcRecordEvent ''Warning'' failed (Error err)) (\<lambda>_. failM err)
     | Inr _ \<Rightarrow> svcRecordEvent ''Normal'' done key)"

definition svcReconcile :: "(nat \<Rightarrow> bool) \<Rightarrow> serviceUseCase \<Rightarrow> string \<Rightarrow> string \<Rightarrow> unit S" where
  "svcReconcile pick uc ns n =
     andThen (attempt (GetService (suc_world uc) ns n)) (\<lambda>got. case got of
       Inl err \<Rightarrow> ignoreNotFound (suc_world uc) err
     | Inr svc \<Rightarrow>
         (let key = om_Namespace (svc_Meta svc) @ ''/'' @ om_Name (svc_Meta svc)
          in if \<not> IsServiceSupported (suc_kc uc) (suc_utils uc) svc then
               if IsServicePendingFinalization (suc_utils uc) svc
               then svcReport key ''FailedDelete'' ''Deleted'' (svcReconcileDelete pick uc ns n svc)
               else returnM ()
             else svcReport key ''FailedEnsure'' ''Ensured'' (svcReconcileEnsure uc ns n)))"

text \<open>After a successful initialisation every default the build tasks use is there.\<close>

theorem InitServiceUseCase_complete:
  assumes "InitServiceUseCase uc s = (Inr uc', s')"
  shows "\<not> networkIncomplete uc' \<and> suc_clusterId uc' \<noteq> []"
proof -
  from assms obtain nodes uc1 s1 s2 s3 where net: "initNetwork uc nodes s1 = (Inr uc1, s2)"
    and cluster: "initClusterId uc1 nodes s2 = (Inr uc', s3)"
    by (auto simp: InitServiceUseCase_def andThen_Inr_iff split: if_splits)
  from net have "\<not> networkIncomplete uc1"
    by (auto simp: initNetwork_def andThen_Inr_iff Let_def split: if_splits)
  with cluster show ?thesis
    by (auto simp: initClusterId_def networkIncomplete_def find_Some_iff split: if_splits option.splits)
qed

section \<open>What a goroutine has done\<close>

locale del_ops =
  fixes ops :: "'a delOps"
    and listEv :: "'a list result \<Rightarrow> svcEvent"
    and delEv :: "'a \<Rightarrow> unit result \<Rightarrow> svcEvent"
    and answer :: "svcHistory \<Rightarrow> 'a list result"
    and deleted :: "'a \<Rightarrow> svcHistory \<Rightarrow> unit result"
  assumes lists: "do_list ops = ask listEv answer"
    and deletes: "do_delete ops x = ask (delEv x) (deleted x)"
begin

text \<open>The calls it may make, after the calls \<open>es\<close> of the run.\<close>

definition allowed :: "svcEvent list \<Rightarrow> svcEvent \<Rightarrow> bool" where
  "allowed es e \<longleftrightarrow> (\<exists>r. e = listEv r)
     \<or> (\<exists>x r items. e = delEv x r \<and> listEv (Inr items) \<in> set es \<and> x \<in> set items \<and> \<not> do_dying ops x)"

definition phaseOk :: "'a delPhase \<Rightarrow> svcEvent list \<Rightarrow> bool" where
  "phaseOk phase es \<longleftrightarrow>
     (case phase of
        DelList \<Rightarrow> True
      | DelLoop xs acc \<Rightarrow>
          (\<exists>items. listEv (Inr items) \<in> set es \<and> set xs \<subseteq> set items \<and> length acc + length xs = length items)
      | DelDone (still, err) \<Rightarrow> err = None \<longrightarrow> (\<exists>items. listEv (Inr items) \<in> set es \<and> length still = length items))"

lemma phaseOk_more: "phaseOk p es \<Longrightarrow> set es \<subseteq> set es' \<Longrightarrow> phaseOk p es'"
  unfolding phaseOk_def by (cases p) fastforce+

lemma step_ok:
  assumes "delStep ops p s = (p', s')" and "phaseOk p es"
  shows "\<exists>es'. svcHist s' = svcHist s @ es' \<and> phaseOk p' (es @ es') \<and> (\<forall>e \<in> set es'. allowed es e)"
proof (cases p)
  case DelList
  with assms show ?thesis
    by (cases "answer (svcHist s)") (auto simp: delStep_def lists phaseOk_def allowed_def split: if_splits)
next
  case (DelDone r)
  with assms show ?thesis by (auto simp: delStep_def)
next
  case (DelLoop xs acc)
  show ?thesis
  proof (cases xs)
    case Nil
    with DelLoop assms show ?thesis by (auto simp: delStep_def phaseOk_def)
  next
    case (Cons x rest)
    from assms(2) DelLoop Cons obtain items where
      items: "listEv (Inr items) \<in> set es" "x \<in> set items" "set rest \<subseteq> set items"
      "length acc + length xs = length items"
      by (auto simp: phaseOk_def)
    then have loop: "phaseOk (DelLoop rest (acc @ [y])) es'" if "set es \<subseteq> set es'" for y es'
      using that Cons by (auto simp: phaseOk_def)
    have failed: "phaseOk (DelDone ([], Some err)) es'" for err es' by (simp add: phaseOk_def)
    show ?thesis
    proof (cases "do_dying ops x")
      case True
      with assms(1) DelLoop Cons show ?thesis using loop[of es] by (auto simp: delStep_def)
    next
      case False
      with items have "allowed es (delEv x r)" for r by (auto simp: allowed_def)
      with False assms(1) DelLoop Cons loop failed show ?thesis
        by (cases "deleted x (svcHist s)") (auto simp: delStep_def deletes split: if_splits)
    qed
  qed
qed

end

interpretation lbcDel: del_ops "lbcDelOps w svc" "SvListLBC (om_Namespace (svc_Meta svc)) (ownerLabels svc)" SvDeleteLBC
    "\<lambda>h. w_ListLBC w h (om_Namespace (svc_Meta svc)) (ownerLabels svc)" "\<lambda>x h. w_DeleteLBC w h x" for w svc
  by unfold_locales (simp_all add: lbcDelOps_def ListLBC_def DeleteLBC_def)

interpretation nsgDel: del_ops "nsgDelOps w svc" "SvListNSG (om_Namespace (svc_Meta svc)) (ownerLabels svc)" SvDeleteNSG
    "\<lambda>h. w_ListNSG w h (om_Namespace (svc_Meta svc)) (ownerLabels svc)" "\<lambda>x h. w_DeleteNSG w h x" for w svc
  by unfold_locales (simp_all add: nsgDelOps_def ListNSG_def DeleteNSG_def)

text \<open>What a deletion may call after the calls \<open>es\<close> of the run.\<close>

definition ownedDeletion :: "Service \<Rightarrow> svcEvent list \<Rightarrow> svcEvent \<Rightarrow> bool" where
  "ownedDeletion svc es e \<longleftrightarrow>
     (case e of
        SvListLBC ns ls _ \<Rightarrow> ns = om_Namespace (svc_Meta svc) \<and> ls = ownerLabels svc
      | SvListNSG ns ls _ \<Rightarrow> ns = om_Namespace (svc_Meta svc) \<and> ls = ownerLabels svc
      | SvDeleteLBC lbc _ \<Rightarrow> om_DeletionTimestamp (lbc_Meta lbc) = None
          \<and> (\<exists>items. SvListLBC (om_Namespace (svc_Meta svc)) (ownerLabels svc) (Inr items) \<in> set es \<and> lbc \<in> set items)
      | SvDeleteNSG nsg _ \<Rightarrow> om_DeletionTimestamp (nsg_Meta nsg) = None
          \<and> (\<exists>items. SvListNSG (om_Namespace (svc_Meta svc)) (ownerLabels svc) (Inr items) \<in> set es \<and> nsg \<in> set items)
      | _ \<Rightarrow> False)"

lemma allowed_owned:
  "lbcDel.allowed w svc es e \<Longrightarrow> ownedDeletion svc es e"
  "nsgDel.allowed w svc es e \<Longrightarrow> ownedDeletion svc es e"
  unfolding lbcDel.allowed_def nsgDel.allowed_def by (auto simp: ownedDeletion_def lbcDelOps_def nsgDelOps_def)


lemma ownedDeletion_more: "ownedDeletion svc es e \<Longrightarrow> ownedDeletion svc (es @ es') e"
  by (auto simp: ownedDeletion_def split: svcEvent.splits)

lemma addsR_owned:
  assumes "svcHist s' = svcHist s @ es'" and "\<forall>e \<in> set es'. ownedDeletion svc (drop n (svcHist s)) e"
  shows "addsR svcHist (ofRun n (ownedDeletion svc)) s s'"
  using assms by (auto simp: addsR_def ofRun_def intro: ownedDeletion_more)

lemma parDelete_ok:
  assumes "parDelete (lbcDelOps w svc) (nsgDelOps w svc) pick k p q ch s = (results, s')"
    and "lbcDel.phaseOk svc p (drop n (svcHist s))" and "nsgDel.phaseOk svc q (drop n (svcHist s))"
    and "mset ch = mset (sent p) + mset (sent q)" and "n \<le> length (svcHist s)"
  shows "addsR svcHist (ofRun n (ownedDeletion svc)) s s'
    \<and> (\<exists>r1 r2. mset results = {#r1, r2#} \<and> lbcDel.phaseOk svc (DelDone r1) (drop n (svcHist s'))
          \<and> nsgDel.phaseOk svc (DelDone r2) (drop n (svcHist s')))"
  using assms
proof (induction "lbcDelOps w svc" "nsgDelOps w svc" pick k p q ch s rule: parDelete.induct)
  case (1 pick k p q ch s)
  note IH1 = 1(1) and IH2 = 1(2) and run = 1(3) and okp = 1(4) and okq = 1(5) and ch = 1(6) and n = 1(7)
  have idle: "sent x = []" if "\<not> finished x" for x :: "'c delPhase" using that by (cases x) auto
  consider (both) "finished p" "finished q" | (left) "\<not> finished p" "pick k \<or> finished q"
    | (right) "\<not> finished q" "\<not> (\<not> finished p \<and> (pick k \<or> finished q))" by blast
  then show ?case
  proof cases
    case both
    then obtain r1 r2 where r: "p = DelDone r1" "q = DelDone r2" by (cases p; cases q) auto
    with run have "results = ch" "s' = s" by (simp_all add: parDelete.simps)
    with r okp okq ch show ?thesis
      by (intro conjI adds.R_refl exI[of _ r1] exI[of _ r2]) (simp_all add: adds.R_refl add_mset_commute)
  next
    case left
    obtain p' s1 where st: "delStep (lbcDelOps w svc) p s = (p', s1)" by (cases "delStep (lbcDelOps w svc) p s")
    from lbcDel.step_ok[OF st okp] obtain es where es: "svcHist s1 = svcHist s @ es"
      "lbcDel.phaseOk svc p' (drop n (svcHist s) @ es)" "\<forall>e \<in> set es. ownedDeletion svc (drop n (svcHist s)) e"
      by (auto dest: allowed_owned)
    from es(1) n have drop: "drop n (svcHist s1) = drop n (svcHist s) @ es" "n \<le> length (svcHist s1)" by simp_all
    have q: "nsgDel.phaseOk svc q (drop n (svcHist s1))" by (rule nsgDel.phaseOk_more[OF okq]) (simp add: drop)
    have "mset (ch @ sent p') = mset (sent p') + mset (sent q)" using ch idle[OF left(1)] by simp
    moreover have "parDelete (lbcDelOps w svc) (nsgDelOps w svc) pick (Suc k) p' q (ch @ sent p') s1 = (results, s')"
      using run left st by (subst (asm) parDelete.simps) simp
    ultimately have "addsR svcHist (ofRun n (ownedDeletion svc)) s1 s'
      \<and> (\<exists>r1 r2. mset results = {#r1, r2#} \<and> lbcDel.phaseOk svc (DelDone r1) (drop n (svcHist s'))
          \<and> nsgDel.phaseOk svc (DelDone r2) (drop n (svcHist s')))"
      using left st es(2) q drop by (intro IH1) auto
    with addsR_owned[OF es(1,3)] show ?thesis by (blast intro: addsR_trans)
  next
    case right
    obtain q' s1 where st: "delStep (nsgDelOps w svc) q s = (q', s1)" by (cases "delStep (nsgDelOps w svc) q s")
    from nsgDel.step_ok[OF st okq] obtain es where es: "svcHist s1 = svcHist s @ es"
      "nsgDel.phaseOk svc q' (drop n (svcHist s) @ es)" "\<forall>e \<in> set es. ownedDeletion svc (drop n (svcHist s)) e"
      by (auto dest: allowed_owned)
    from es(1) n have drop: "drop n (svcHist s1) = drop n (svcHist s) @ es" "n \<le> length (svcHist s1)" by simp_all
    have p: "lbcDel.phaseOk svc p (drop n (svcHist s1))" by (rule lbcDel.phaseOk_more[OF okp]) (simp add: drop)
    have "mset (ch @ sent q') = mset (sent p) + mset (sent q')" using ch idle[OF right(1)] by simp
    moreover have "parDelete (lbcDelOps w svc) (nsgDelOps w svc) pick (Suc k) p q' (ch @ sent q') s1 = (results, s')"
      using run right st by (subst (asm) parDelete.simps) (cases "finished p"; simp)
    ultimately have "addsR svcHist (ofRun n (ownedDeletion svc)) s1 s'
      \<and> (\<exists>r1 r2. mset results = {#r1, r2#} \<and> lbcDel.phaseOk svc (DelDone r1) (drop n (svcHist s'))
          \<and> nsgDel.phaseOk svc (DelDone r2) (drop n (svcHist s')))"
      using right st es(2) p drop by (intro IH2) auto
    with addsR_owned[OF es(1,3)] show ?thesis by (blast intro: addsR_trans)
  qed
qed

text \<open>Both goroutines reported that there is nothing left only if they were told so.\<close>

lemma collectResults_nothing:
  assumes "collectResults results = Inr ()" and "mset results = {#r1, r2#}"
  shows "r1 = ([], None) \<and> r2 = ([], None)"
proof -
  from assms(2) have "set_mset (mset results) = {r1, r2}" by (metis insert_commute set_mset_add_mset_insert set_mset_empty)
  then have "set results = {r1, r2}" by simp
  moreover from assms(1) have "\<forall>r \<in> set results. r = ([], None)"
    by (auto simp: collectResults_def errorsOf_def split: if_splits option.splits)
  ultimately show ?thesis by blast
qed

text \<open>The two goroutines of a deletion, from start to end.\<close>

lemma parDelete_run:
  assumes "parDelete (lbcDelOps w svc) (nsgDelOps w svc) pick 0 DelList DelList [] s = (results, s')" and "n \<le> length (svcHist s)"
  shows "addsR svcHist (ofRun n (ownedDeletion svc)) s s'
    \<and> (collectResults results = Inr () \<longrightarrow>
         SvListLBC (om_Namespace (svc_Meta svc)) (ownerLabels svc) (Inr []) \<in> set (drop n (svcHist s'))
       \<and> SvListNSG (om_Namespace (svc_Meta svc)) (ownerLabels svc) (Inr []) \<in> set (drop n (svcHist s')))"
proof -
  have start: "lbcDel.phaseOk svc DelList es" "nsgDel.phaseOk svc DelList es" for es
    by (simp_all add: lbcDel.phaseOk_def nsgDel.phaseOk_def)
  have ch: "mset [] = mset (sent DelList) + mset (sent DelList)" by simp
  from parDelete_ok[OF assms(1) start ch assms(2)] obtain r1 r2 where
    run: "addsR svcHist (ofRun n (ownedDeletion svc)) s s'" and res: "mset results = {#r1, r2#}"
    and ok: "lbcDel.phaseOk svc (DelDone r1) (drop n (svcHist s'))" "nsgDel.phaseOk svc (DelDone r2) (drop n (svcHist s'))"
    by blast
  from run ok collectResults_nothing[OF _ res] show ?thesis by (auto simp: lbcDel.phaseOk_def nsgDel.phaseOk_def)
qed

section \<open>When a deletion is over\<close>

text \<open>What the calls \<open>es\<close> of a run must show before it says that nothing is left of the Service.\<close>

definition nothingLeft :: "serviceUseCase \<Rightarrow> string \<Rightarrow> string \<Rightarrow> svcEvent list \<Rightarrow> bool" where
  "nothingLeft uc ns n es \<longleftrightarrow>
     (\<exists>err. SvGetService ns n (Inl err) \<in> set es \<and> w_IsNotFound (suc_world uc) err)
     \<or> (\<exists>svc. SvGetService ns n (Inr svc) \<in> set es
          \<and> (isIgnore (suc_parser uc) svc
             \<or> SvListLBC (om_Namespace (svc_Meta svc)) (ownerLabels svc) (Inr []) \<in> set es
               \<and> SvListNSG (om_Namespace (svc_Meta svc)) (ownerLabels svc) (Inr []) \<in> set es))"

definition deletionCall :: "string \<Rightarrow> string \<Rightarrow> svcEvent list \<Rightarrow> svcEvent \<Rightarrow> bool" where
  "deletionCall ns n es e \<longleftrightarrow> (\<exists>r. e = SvGetService ns n r)
     \<or> (\<exists>svc. SvGetService ns n (Inr svc) \<in> set es \<and> ownedDeletion svc es e)"

lemma DeleteServiceUseCase_run:
  assumes "DeleteServiceUseCase pick uc ns n s = (r, s')" and "k = length (svcHist s)"
  shows "addsR svcHist (ofRun k (deletionCall ns n)) s s' \<and> (r = Inr () \<longrightarrow> nothingLeft uc ns n (drop k (svcHist s')))"
proof -
  let ?w = "suc_world uc"
  let ?got = "w_GetService ?w (svcHist s) ns n"
  let ?s1 = "s\<lparr>svcHist := svcHist s @ [SvGetService ns n ?got]\<rparr>"
  have first: "addsR svcHist (ofRun k (deletionCall ns n)) s ?s1"
    by (auto simp: addsR_def ofRun_def deletionCall_def Cons_eq_append_conv)
  show ?thesis
  proof (cases ?got)
    case (Inl err)
    with assms have "s' = ?s1" "r = Inr () \<longrightarrow> w_IsNotFound ?w err"
      by (auto simp: DeleteServiceUseCase_def world_defs andThen_def attempt_def split: if_splits)
    with first Inl assms(2) show ?thesis by (auto simp: nothingLeft_def)
  next
    case (Inr svc)
    show ?thesis
    proof (cases "isIgnore (suc_parser uc) svc")
      case True
      with Inr assms(1) have "s' = ?s1" by (auto simp: DeleteServiceUseCase_def world_defs andThen_def attempt_def)
      with first Inr True assms(2) show ?thesis by (auto simp: nothingLeft_def)
    next
      case False
      obtain results s2 where par: "parDelete (lbcDelOps ?w svc) (nsgDelOps ?w svc) pick 0 DelList DelList [] ?s1 = (results, s2)"
        by (cases "parDelete (lbcDelOps ?w svc) (nsgDelOps ?w svc) pick 0 DelList DelList [] ?s1")
      with False Inr assms(1) have r: "r = collectResults results" "s' = s2"
        by (auto simp: DeleteServiceUseCase_def world_defs andThen_def attempt_def)
      have k: "k \<le> length (svcHist ?s1)" using assms(2) by simp
      note run = parDelete_run[OF par k]
      have get: "SvGetService ns n (Inr svc) \<in> set (drop k (svcHist ?s1 @ pre))" for pre
        using Inr assms(2) by simp
      have "addsR svcHist (ofRun k (deletionCall ns n)) ?s1 s2"
        using run get unfolding addsR_def ofRun_def deletionCall_def by blast
      moreover have "nothingLeft uc ns n (drop k (svcHist s2))" if "r = Inr ()"
      proof -
        from run obtain pre where "svcHist s2 = svcHist ?s1 @ pre" by (auto simp: addsR_def)
        then have "SvGetService ns n (Inr svc) \<in> set (drop k (svcHist s2))" using get by simp
        with run that r show ?thesis by (auto simp: nothingLeft_def)
      qed
      ultimately show ?thesis using first r by (blast intro: addsR_trans)
    qed
  qed
qed

lemma safe_delete_run: "safe (addsR svcHist (ofRun (length (svcHist s)) (deletionCall ns n))) (DeleteServiceUseCase pick uc ns n) s"
  using DeleteServiceUseCase_run[OF _ refl] unfolding safe_def by (metis prod.collapse)

text \<open>
  C5. What a Service owns is deleted, and nothing else, whatever the interleaving of the two
  goroutines. Every object a deletion deletes was listed before, in this run, under the owner labels
  of the Service as read in this run, and was not being deleted already; a deletion makes no other
  change.
\<close>

theorem DeleteServiceUseCase_owned:
  "safe (addsR svcHist (ofRun (length (svcHist s)) (deletionCall ns n))) (DeleteServiceUseCase pick uc ns n) s"
  by (rule safe_delete_run)

section \<open>The life of a Service\<close>

lemma nothingLeft_more: "nothingLeft uc ns n es \<Longrightarrow> set es \<subseteq> set es' \<Longrightarrow> nothingLeft uc ns n es'"
  unfolding nothingLeft_def by blast

lemma deletionCall_more: "deletionCall ns n es e \<Longrightarrow> set es \<subseteq> set es' \<Longrightarrow> deletionCall ns n es' e"
  unfolding deletionCall_def ownedDeletion_def by (cases e) auto

definition serviceLife :: "serviceUseCase \<Rightarrow> string \<Rightarrow> string \<Rightarrow> svcEvent list \<Rightarrow> svcEvent \<Rightarrow> bool" where
  "serviceLife uc ns n es e \<longleftrightarrow>
     (case e of
        SvRemoveFinalizers _ _ \<Rightarrow> nothingLeft uc ns n es
      | SvDeleteLBC _ _ \<Rightarrow> deletionCall ns n es e
      | SvDeleteNSG _ _ \<Rightarrow> deletionCall ns n es e
      | SvAddFinalizers _ _ \<Rightarrow> True
      | _ \<Rightarrow> svcRead es e \<or> SvAddFinalizers ServiceFinalizer (Inr ()) \<in> set es)"

lemma serviceLife_read: "svcRead h e \<Longrightarrow> ofRun k (serviceLife uc ns n) h e"
  by (cases e) (simp_all add: ofRun_def serviceLife_def svcRead_def)

lemma safe_life_ask:
  "svcRead [] (ev (f (svcHist s))) \<Longrightarrow> safe (addsR svcHist (ofRun k (serviceLife uc ns n))) (ask ev f) s"
  by (rule safe_adds_ask, rule serviceLife_read) (simp add: svcRead_def)

lemma safe_life_delete:
  assumes "k \<le> length (svcHist s)"
  shows "safe (addsR svcHist (ofRun k (serviceLife uc ns n))) (DeleteServiceUseCase pick uc ns n) s"
proof (rule safe_adds_from[OF safe_delete_run])
  fix es e assume "ofRun (length (svcHist s)) (deletionCall ns n) (svcHist s @ es) e"
  then have call: "deletionCall ns n es e" by (simp add: ofRun_def)
  have "deletionCall ns n (drop k (svcHist s @ es)) e" by (rule deletionCall_more[OF call]) (simp add: assms)
  with call show "ofRun k (serviceLife uc ns n) (svcHist s @ es) e"
    by (cases e) (auto simp: ofRun_def serviceLife_def svcRead_def deletionCall_def ownedDeletion_def)
qed

lemma safe_life_ensure:
  assumes "k \<le> length (svcHist s)" and "SvAddFinalizers ServiceFinalizer (Inr ()) \<in> set (drop k (svcHist s))"
  shows "safe (addsR svcHist (ofRun k (serviceLife uc ns n))) (EnsureServiceUseCase uc ns n) s"
proof -
  have "safe (addsR svcHist (ofRun k (serviceLife uc ns n))) (runService u t) s'"
    if "addsR svcHist (ofRun k (serviceLife uc ns n)) s s'" for u t s'
  proof (rule safe_adds_from[OF safe_write_runService[OF order_refl]])
    fix es e assume "ofRun (length (svcHist s')) (serviceWrite t) (svcHist s' @ es) e"
    moreover from addsR_keeps[OF that assms] that assms(1)
    have "SvAddFinalizers ServiceFinalizer (Inr ()) \<in> set (drop k (svcHist s' @ es))" by (auto simp: addsR_def)
    ultimately show "ofRun k (serviceLife uc ns n) (svcHist s' @ es) e"
      by (cases e) (auto simp: ofRun_def serviceLife_def svcRead_def serviceWrite_def)
  qed
  then show ?thesis
    unfolding EnsureServiceUseCase_def ensureService_def GetService_def ignoreNotFound_def
    by (intro safe_intro safe_life_ask) (auto simp: svcRead_def intro: addsR_trans)
qed

lemma safe_life_report:
  assumes "safe (addsR svcHist (ofRun k (serviceLife uc ns n))) m s"
  shows "safe (addsR svcHist (ofRun k (serviceLife uc ns n))) (svcReport key failed ok m) s"
  unfolding svcReport_def svcRecordEvent_def
  by (intro safe_intro safe_life_ask assms) (simp_all add: svcRead_def)

lemma safe_life_reconcileEnsure:
  assumes "k \<le> length (svcHist s)"
  shows "safe (addsR svcHist (ofRun k (serviceLife uc ns n))) (svcReconcileEnsure uc ns n) s"
  unfolding svcReconcileEnsure_def svcAddFinalizers_def svcWithMetrics_def
proof (intro safe_intro safe_life_ensure)
  show "ofRun k (serviceLife uc ns n) (svcHist s) (SvAddFinalizers ServiceFinalizer (w_AddFinalizers (suc_world uc) (svcHist s) ServiceFinalizer))"
    by (simp add: ofRun_def serviceLife_def)
  fix x s'
  assume add: "wrapErr (\<lambda>err. fst (NewErrorWithMetrics err))
       (ask (SvAddFinalizers ServiceFinalizer) (\<lambda>h. w_AddFinalizers (suc_world uc) h ServiceFinalizer)) s = (Inr x, s')"
  with assms show "k \<le> length (svcHist s')" "SvAddFinalizers ServiceFinalizer (Inr ()) \<in> set (drop k (svcHist s'))" by auto
qed

lemma safe_life_reconcileDelete:
  assumes "k \<le> length (svcHist s)"
  shows "safe (addsR svcHist (ofRun k (serviceLife uc ns n))) (svcReconcileDelete pick uc ns n svc) s"
  unfolding svcReconcileDelete_def svcRemoveFinalizers_def svcWithMetrics_def
proof (intro safe_intro safe_life_delete assms)
  fix x s'
  assume "wrapErr (\<lambda>err. fst (NewErrorWithMetrics err)) (DeleteServiceUseCase pick uc ns n) s = (Inr x, s')"
  then have "DeleteServiceUseCase pick uc ns n s = (Inr (), s')" by simp
  from DeleteServiceUseCase_run[OF this refl] have left: "nothingLeft uc ns n (drop (length (svcHist s)) (svcHist s'))" by simp
  have "nothingLeft uc ns n (drop k (svcHist s'))"
    by (rule nothingLeft_more[OF left]) (simp add: assms set_drop_subset_set_drop)
  then show "ofRun k (serviceLife uc ns n) (svcHist s') (SvRemoveFinalizers ServiceFinalizer (w_RemoveFinalizers (suc_world uc) (svcHist s') ServiceFinalizer))"
    by (simp add: ofRun_def serviceLife_def)
qed


end
