(* ===== verification/Svc_Example.thy ===== *)
theory Svc_Example
  imports Service_UseCase
begin

text \<open>
  A cluster for the witnesses of the service theories: one ready node, a Service of type
  LoadBalancer with one port, an API server that answers and stores nothing.
\<close>

definition ex_kc :: svc_consts where
  "ex_kc =
     \<lparr>LoadBalancerTypeLayer4 = ''Layer 4'', LoadBalancerTypeLayer7 = ''Layer 7'',
      InterVpcLoadBalancerScheme = ''InterVPC'', ListenerProtocolHTTPS = ''HTTPS'',
      PolicyActionREDIRECTTOPOOL = ''REDIRECT_TO_POOL'', PolicyActionREDIRECTTOURL = ''REDIRECT_TO_URL'',
      HealthCheckProtocolHTTP = ''HTTP'', HealthCheckProtocolHTTPs = ''HTTPS'', HealthCheckProtocolTCP = ''TCP'',
      ImportOptsTypeOptTLS = ''TLS/SSL'', SecretTypeTLS = ''kubernetes.io/tls'',
      TLSCertKey = ''tls.crt'', TLSPrivateKeyKey = ''tls.key'',
      ServiceTypeClusterIP = ''ClusterIP'', ServiceTypeNodePort = ''NodePort'', ServiceTypeLoadBalancer = ''LoadBalancer'',
      ProtocolTCP = ''TCP'', ProtocolUDP = ''UDP'', NodeInternalIP = ''InternalIP'', NodeReady = ''Ready'',
      ConditionTrue = ''True'', ConditionUnknown = ''Unknown'',
      InternalLoadBalancerScheme = ''Internal'', InternetLoadBalancerScheme = ''Internet'',
      HealthCheckMethodGET = ''GET'', HealthCheckMethodPUT = ''PUT'', HealthCheckMethodPOST = ''POST'',
      HealthCheckHttpVersionHttp1 = ''1.0'', HealthCheckHttpVersionHttp1Minor1 = ''1.1'',
      HealthCheckProtocolPINGUDP = ''PING-UDP'',
      PoolAlgorithmLeastConn = ''LEAST_CONNECTIONS'', PoolAlgorithmRoundRobin = ''ROUND_ROBIN'',
      PoolAlgorithmSourceIP = ''SOURCE_IP'', PoolProtocolProxy = ''PROXY'',
      SecgroupRuleProtocolTCP = ''tcp'', SecgroupRuleProtocolUDP = ''udp'', SecgroupRuleProtocolICMP = ''icmp'',
      SecgroupRuleProtocolAll = ''any'', SecgroupRuleDirectionIngress = ''ingress'',
      SecgroupRuleDirectionEgress = ''egress'', SecgroupRuleEtherTypeIPv4 = ''IPv4'', SecgroupRuleEtherTypeIPv6 = ''IPv6''\<rparr>"

definition ex_port :: ServicePort where
  "ex_port = \<lparr>svcp_Name = ''http'', svcp_Protocol = ''TCP'', svcp_Port = 80, svcp_NodePort = 30080\<rparr>"

definition ex_svc :: Service where
  "ex_svc =
     \<lparr>svc_Kind = ''Service'', svc_Meta = zeroMeta\<lparr>om_Namespace := ''default'', om_Name := ''web'', om_UID := ''u-1''\<rparr>,
      svc_Type = ''LoadBalancer'', svc_Ports = [ex_port], svc_ExternalIPs = [], svc_Ingress = []\<rparr>"

definition ex_node :: Node where
  "ex_node =
     \<lparr>node_Name = ''n1'', node_Labels = [(''vks.vngcloud.vn/cluster-id'', ''k8s-1'')], node_ProviderID = [],
      node_Addresses = [\<lparr>na_Type = ''InternalIP'', na_Address = ''10.0.0.5''\<rparr>],
      node_Conditions = [\<lparr>nc_Type = ''Ready'', nc_Status = ''True''\<rparr>]\<rparr>"

definition ex_world :: svcWorld where
  "ex_world =
     \<lparr>w_GetService = (\<lambda>_ _ _. Inr ex_svc), w_PatchServiceStatus = (\<lambda>_ _ _. Inr ()), w_PatchService = (\<lambda>_ _ _. Inr ()),
      w_GetIngress = (\<lambda>_ _ _. Inl (ErrorString ''not found'')), w_PatchIngressStatus = (\<lambda>_ _ _. Inr ()),
      w_ListLBC = (\<lambda>_ _ _. Inr []), w_GetLBC = (\<lambda>_ _ _. Inl (ErrorString ''not found'')), w_CreateLBC = (\<lambda>_ lbc. Inr lbc),
      w_PatchLBC = (\<lambda>_ _ _. Inr ()), w_DeleteLBC = (\<lambda>_ _. Inr ()),
      w_ListNSG = (\<lambda>_ _ _. Inr []), w_GetNSG = (\<lambda>_ _ _. Inl (ErrorString ''not found'')), w_CreateNSG = (\<lambda>_ nsg. Inr nsg),
      w_PatchNSG = (\<lambda>_ _ _. Inr ()), w_DeleteNSG = (\<lambda>_ _. Inr ()),
      w_ListNode = (\<lambda>_ _. Inr [ex_node]), w_GetEndpoints = (\<lambda>_ _ _. Inr []),
      w_GetDaemonSet = (\<lambda>_ _ _. Inl (ErrorString ''not found'')), w_GetConfigMap = (\<lambda>_ _ _. Inl (ErrorString ''not found'')),
      w_GetLoadBalancerByID = (\<lambda>_ _. Inr None), w_GetSubnetByID = (\<lambda>_ _ _. Inr None),
      w_GetServerNetworkInfo = (\<lambda>_ _. Inl (ErrorString ''not found'')),
      w_AddFinalizers = (\<lambda>_ _. Inr ()), w_RemoveFinalizers = (\<lambda>_ _. Inr ()),
      w_IsNotFound = (\<lambda>e. Error e = ''not found''), w_isIPv6 = (\<lambda>_. False), w_isRequestURI = (\<lambda>u. u \<noteq> []),
      w_net6 = \<lparr>net_ParseCIDR6 = \<lambda>_. None, net_ParseMapped4 = \<lambda>_. None\<rparr>,
      w_nilAgreeLBC = (\<lambda>_ _. True), w_nilAgreeNSG = (\<lambda>_ _. True)\<rparr>"

definition ex_parser :: suffixAnnotationParser where
  "ex_parser = \<lparr>annotationPrefix = ''vks.vngcloud.vn''\<rparr>"

definition ex_build :: buildTask where
  "ex_build =
     \<lparr>bt_clusterId = ''k8s-1'', bt_parser = ex_parser, bt_kc = ex_kc, bt_service = ex_svc, bt_world = ex_world,
      bt_nameHelper = NewNameHelper ''k8s-1'' ''service'' ''default'' ''web'', bt_defaultZone = ''zone-1'',
      bt_defaultNetworkId = ''net-1'', bt_defaultSubnetId = ''sub-1'', bt_defaultSubnetCIDR = ''10.0.0.0/24''\<rparr>"

definition ex_svcSt :: svcSt where
  "ex_svcSt = \<lparr>svcHist = [], cniResult = Some ''Calico Overlay''\<rparr>"

lemmas ex_svc_defs = ex_kc_def ex_port_def ex_svc_def ex_node_def ex_world_def ex_parser_def ex_build_def ex_svcSt_def zeroMeta_def

lemma parse_nothing [simp]: "parseStringAnnotation p a [] [] = None"
proof -
  have "find (\<lambda>key. False) xs = None" for xs :: "string list" by (simp add: find_None_iff)
  then show ?thesis by (simp add: parseStringAnnotation_def)
qed

lemma ex_no_annotation [simp]:
  "ParseStringAnnotation p a [] [] = None" "ParseBoolAnnotation p a [] [] = None" "ParseInt64Annotation p a [] [] = None"
  "ParseStringSliceAnnotation p a [] [] = None" "ParseStringMapAnnotation p a [] [] = Inr None"
  by (simp_all add: ParseStringAnnotation_def ParseBoolAnnotation_def ParseInt64Annotation_def ParseStringSliceAnnotation_def
      ParseStringMapAnnotation_def)

lemma ex_build_simps [simp]:
  "bt_service ex_build = ex_svc" "bt_world ex_build = ex_world" "bt_parser ex_build = ex_parser"
  "svc_Ports ex_svc = [ex_port]" "om_Annotations (svc_Meta ex_svc) = []"
  by (simp_all add: ex_build_def ex_svc_def zeroMeta_def)

text \<open>What is resolved, and what is built for the one port.\<close>

lemma ex_target: "getTargetType ex_build = TargetTypeInstance"
  by (simp add: getTargetType_def strAnn_def TargetTypeIP_def TargetTypeInstance_def) (simp add: ex_svc_defs)

lemma ex_nodes:
  "nodePortEndpoints ex_build ex_port [] ex_svcSt =
     (Inr [\<lparr>ead_Name = ''n1'', ead_IP = ''10.0.0.5'', ead_Port = 30080\<rparr>],
      ex_svcSt\<lparr>svcHist := [SvGetService ''default'' ''web'' (Inr ex_svc), SvListNode [] (Inr [ex_node])]\<rparr>)"
  by (simp add: nodePortEndpoints_def ResolveNodePortEndpoints_def findServiceAndServicePort_def world_defs
      lookupServicePort_def bt_ns_def bt_name_def andThen_def attempt_def
      filterNodesByReadyConditionStatus_def GetNodeCondition_def getNodeInternalIP_def buildNodePortEndpoint_def
      ex_svc_defs)

lemma ex_resolve:
  "resolveMembers ex_build [] ex_port ex_svcSt =
     (Inr [\<lparr>ead_Name = ''n1'', ead_IP = ''10.0.0.5'', ead_Port = 30080\<rparr>],
      ex_svcSt\<lparr>svcHist := [SvGetService ''default'' ''web'' (Inr ex_svc), SvListNode [] (Inr [ex_node])]\<rparr>)"
  by (simp add: resolveMembers_def ex_target ex_nodes)

lemma ex_pools: "\<exists>pool l s'. buildPoolsAndListeners ex_build [] ex_svcSt = (Inr ([pool], [l]), s')"
  by (simp add: buildPoolsAndListeners_def FromAnnotations_def blockedField_def actionField_def buildPort_def buildPool_def
      ex_target ex_nodes andThen_def wrapErr_def Let_def)

lemma ex_native: "nativeRules ex_build ex_port s = (Inr [], s)" if "cniResult s = Some ''Calico Overlay''"
  using that by (simp add: nativeRules_def DetectCNIType_def andThen_def wrapErr_def CiliumNativeRouting_def)

lemma ex_cni [simp]: "cniResult ex_svcSt = Some ''Calico Overlay''"
  by (simp add: ex_svcSt_def)

lemma ex_rules: "\<exists>rules s'. buildDefaultSecurityGroupRule ex_build ''10.0.0.0/24'' [] ex_svcSt = (Inr rules, s')"
  by (simp add: buildDefaultSecurityGroupRule_def portRules_def ex_target ex_nodes ex_native andThen_def)

section \<open>Witnesses\<close>

theorem buildPoolsAndListeners_ports_witness:
  "\<exists>pool l s'. buildPoolsAndListeners ex_build [] ex_svcSt = (Inr ([pool], [l]), s') \<and> servesPort ex_build pool l ex_port"
proof -
  from ex_pools obtain pool l s' where b: "buildPoolsAndListeners ex_build [] ex_svcSt = (Inr ([pool], [l]), s')" by blast
  from buildPoolsAndListeners_ports[OF b] have "servesPort ex_build pool l ex_port" by simp
  with b show ?thesis by blast
qed

theorem buildPool_order_free_witness:
  "\<exists>eps s1. resolveMembers ex_build [] ex_port ex_svcSt = (Inr eps, s1) \<and> eps \<noteq> []
     \<and> (\<exists>pool. fst (buildPool ex_build [] ex_port ex_svcSt) = Inr pool)"
  using buildPool_order_free[OF ex_resolve ex_resolve] by (simp add: ex_resolve)



theorem buildSubnetAndZone_priority_witness:
  "buildSubnetAndZone ex_build None ex_svcSt = (Inr (''zone-1'', ''net-1'', ''sub-1'', ''10.0.0.0/24''), ex_svcSt)
   \<and> \<not> (\<exists>subnetId. wantsSubnet ex_build None (svcHist ex_svcSt) subnetId)
   \<and> (''zone-1'', ''net-1'', ''sub-1'', ''10.0.0.0/24'') = defaultPlacement ex_build"
proof -
  have none: "buildLoadBalancerId ex_build = None" "existingSubnetId None = []"
    "deref (strAnn ex_build SuffixPreferSubnetID) = []" "deref (strAnn ex_build SuffixPreferZoneID) = []"
    by (simp_all add: buildLoadBalancerId_def existingSubnetId_def strAnn_def)
  have run: "buildSubnetAndZone ex_build None ex_svcSt = (Inr (''zone-1'', ''net-1'', ''sub-1'', ''10.0.0.0/24''), ex_svcSt)"
    unfolding buildSubnetAndZone_def by (simp add: none) (simp add: defaultPlacement_def ex_build_def)
  have no: "\<not> (\<exists>subnetId. wantsSubnet ex_build None (svcHist ex_svcSt) subnetId)" by (simp add: wantsSubnet_def none)
  from buildSubnetAndZone_priority[OF run] no none have "(''zone-1'', ''net-1'', ''sub-1'', ''10.0.0.0/24'') = defaultPlacement ex_build"
    by (auto simp: Let_def)
  with run no show ?thesis by blast
qed

end
