(* ===== verification/Nsg_World.thy ===== *)
theory Nsg_World
  imports K8s_Types
begin

text \<open>
  The boundary of the NodeSecurityGroup controller: its calls to the Kubernetes API and the cloud, and the
  parts of the repositories that do more than pass a call on
  (\<^verbatim>\<open>internal/repository/k8s_repo/k8s_repo.go\<close>,
  \<^verbatim>\<open>internal/repository/vngcloud_repo/vngcloud_secgroup.go\<close>, \<^verbatim>\<open>vngcloud_server.go\<close>). The state of a run is the
  list of its calls; each is answered from the calls before it.
\<close>

section \<open>Entities\<close>

text \<open>What the code reads of a server, a security group and a rule of one.\<close>

record entity_Server =
  srv_Status :: string
  srv_SecGroups :: "string list"

record entity_Secgroup =
  esg_Id :: string
  esg_Name :: string

record entity_SecgroupRule =
  er_Id :: string
  er_Direction :: string
  er_Protocol :: string
  er_EtherType :: string
  er_PortRangeMin :: int
  er_PortRangeMax :: int
  er_RemoteIPPrefix :: string

section \<open>Calls\<close>

datatype (plugins only: code size) nsgEvent =
    NgGetNSG string string "NodeSecurityGroup result"
  | NgPatchStatus NodeSecurityGroup NodeSecurityGroup "unit result"
  | NgListNode gomap "Node list result"
  | NgListSecgroup "entity_Secgroup list result"
  | NgGetSecgroup string "entity_Secgroup result"
  | NgCreateSecgroup string string "entity_Secgroup result"
  | NgDeleteSecgroup string "unit result"
  | NgListRules string "entity_SecgroupRule list result"
  | NgCreateRule string NodeSecurityGroupRule "unit result"
  | NgDeleteRule string string "unit result"
  | NgListServers string "string list result"
  | NgGetServer string "entity_Server result"
  | NgUpdateSecgroups string "string list" "unit result"
  | NgAddFinalizers string "unit result"
  | NgRemoveFinalizers string "unit result"
  | NgRecord string string string

type_synonym nsgHistory = "nsgEvent list"

type_synonym 'a G = "(nsgHistory, 'a) run"

text \<open>
  \<open>g_mapOrder\<close> is the order in which Go ranges over a map of strings: the keys sorted by an arbitrary
  number. \<open>g_ConflictRetries\<close> is the number of steps of client-go's \<open>DefaultBackoff\<close> after the first.
  \<open>g_AddFinalizers\<close> and \<open>g_RemoveFinalizers\<close> are \<open>k8s.FinalizerManager\<close> on a NodeSecurityGroup.
\<close>

record nsgWorld =
  g_GetNSG :: "nsgHistory \<Rightarrow> string \<Rightarrow> string \<Rightarrow> NodeSecurityGroup result"
  g_PatchStatus :: "nsgHistory \<Rightarrow> NodeSecurityGroup \<Rightarrow> NodeSecurityGroup \<Rightarrow> unit result"
  g_ListNode :: "nsgHistory \<Rightarrow> gomap \<Rightarrow> Node list result"
  g_ListSecgroup :: "nsgHistory \<Rightarrow> entity_Secgroup list result"
  g_GetSecgroup :: "nsgHistory \<Rightarrow> string \<Rightarrow> entity_Secgroup result"
  g_CreateSecgroup :: "nsgHistory \<Rightarrow> string \<Rightarrow> string \<Rightarrow> entity_Secgroup result"
  g_DeleteSecgroup :: "nsgHistory \<Rightarrow> string \<Rightarrow> unit result"
  g_ListRules :: "nsgHistory \<Rightarrow> string \<Rightarrow> entity_SecgroupRule list result"
  g_CreateRule :: "nsgHistory \<Rightarrow> string \<Rightarrow> NodeSecurityGroupRule \<Rightarrow> unit result"
  g_DeleteRule :: "nsgHistory \<Rightarrow> string \<Rightarrow> string \<Rightarrow> unit result"
  g_ListServers :: "nsgHistory \<Rightarrow> string \<Rightarrow> string list result"
  g_GetServer :: "nsgHistory \<Rightarrow> string \<Rightarrow> entity_Server result"
  g_UpdateSecgroups :: "nsgHistory \<Rightarrow> string \<Rightarrow> string list \<Rightarrow> unit result"
  g_AddFinalizers :: "nsgHistory \<Rightarrow> string \<Rightarrow> unit result"
  g_RemoveFinalizers :: "nsgHistory \<Rightarrow> string \<Rightarrow> unit result"
  g_Now :: "nsgHistory \<Rightarrow> int"
  g_mapOrder :: "nsgHistory \<Rightarrow> string \<Rightarrow> nat"
  g_IsNotFound :: "go_error \<Rightarrow> bool"
  g_IsConflict :: "go_error \<Rightarrow> bool"
  g_ConflictRetries :: nat
  g_SetStatusCondition :: "Condition list \<Rightarrow> Condition \<Rightarrow> bool \<times> Condition list"

section \<open>The cloud\<close>

definition ListSecurityGroups :: "nsgWorld \<Rightarrow> entity_Secgroup list G" where
  "ListSecurityGroups w = askLog NgListSecgroup (g_ListSecgroup w)"
definition GetSecurityGroup :: "nsgWorld \<Rightarrow> string \<Rightarrow> entity_Secgroup G" where
  "GetSecurityGroup w secgroupID = askLog (NgGetSecgroup secgroupID) (\<lambda>h. g_GetSecgroup w h secgroupID)"
definition CreateSecurityGroup :: "nsgWorld \<Rightarrow> string \<Rightarrow> string \<Rightarrow> entity_Secgroup G" where
  "CreateSecurityGroup w name description =
     askLog (NgCreateSecgroup name description) (\<lambda>h. g_CreateSecgroup w h name description)"
definition DeleteSecurityGroup :: "nsgWorld \<Rightarrow> string \<Rightarrow> unit G" where
  "DeleteSecurityGroup w secgroupID = askLog (NgDeleteSecgroup secgroupID) (\<lambda>h. g_DeleteSecgroup w h secgroupID)"
definition ListSecurityGroupRules :: "nsgWorld \<Rightarrow> string \<Rightarrow> entity_SecgroupRule list G" where
  "ListSecurityGroupRules w secgroupID = askLog (NgListRules secgroupID) (\<lambda>h. g_ListRules w h secgroupID)"
definition CreateSecurityGroupRule :: "nsgWorld \<Rightarrow> string \<Rightarrow> NodeSecurityGroupRule \<Rightarrow> unit G" where
  "CreateSecurityGroupRule w secgroupID rule = askLog (NgCreateRule secgroupID rule) (\<lambda>h. g_CreateRule w h secgroupID rule)"
definition DeleteSecurityGroupRule :: "nsgWorld \<Rightarrow> string \<Rightarrow> string \<Rightarrow> unit G" where
  "DeleteSecurityGroupRule w secgroupID ruleID = askLog (NgDeleteRule secgroupID ruleID) (\<lambda>h. g_DeleteRule w h secgroupID ruleID)"
definition ListServerBySecgroupID :: "nsgWorld \<Rightarrow> string \<Rightarrow> string list G" where
  "ListServerBySecgroupID w secgroupID = askLog (NgListServers secgroupID) (\<lambda>h. g_ListServers w h secgroupID)"
definition GetServerByID :: "nsgWorld \<Rightarrow> string \<Rightarrow> entity_Server G" where
  "GetServerByID w serverID = askLog (NgGetServer serverID) (\<lambda>h. g_GetServer w h serverID)"

text \<open>Three tries while the server is busy, the last answer when all of them were.\<close>

definition IsServerNotReady :: "go_error \<Rightarrow> bool" where
  "IsServerNotReady err \<longleftrightarrow> Contains (Error err) ''Cannot change security group of server with status''"

primrec tryUpdateSecGroups :: "nsgWorld \<Rightarrow> string \<Rightarrow> string list \<Rightarrow> go_error \<Rightarrow> nat \<Rightarrow> unit G" where
  "tryUpdateSecGroups w instanceID secgroups sdkErr 0 = failM sdkErr"
| "tryUpdateSecGroups w instanceID secgroups sdkErr (Suc tries) =
     andThen (attempt (askLog (NgUpdateSecgroups instanceID secgroups) (\<lambda>h. g_UpdateSecgroups w h instanceID secgroups))) (\<lambda>r.
       case r of
         Inr _ \<Rightarrow> returnM ()
       | Inl err \<Rightarrow> if IsServerNotReady err then tryUpdateSecGroups w instanceID secgroups err tries else failM err)"

definition UpdateSecGroupsOfServer :: "nsgWorld \<Rightarrow> string \<Rightarrow> string list \<Rightarrow> unit G" where
  "UpdateSecGroupsOfServer w instanceID secgroups = tryUpdateSecGroups w instanceID secgroups (ErrorString []) 3"

text \<open>Thirty looks at the server with growing pauses, then \<open>wait\<close>'s own error.\<close>

primrec pollServerActive :: "nsgWorld \<Rightarrow> string \<Rightarrow> nat \<Rightarrow> unit G" where
  "pollServerActive w serverID 0 = failM (ErrorString ''timed out waiting for the condition'')"
| "pollServerActive w serverID (Suc steps) =
     andThen (GetServerByID w serverID) (\<lambda>server.
       if ToUpper (srv_Status server) = ''ACTIVE'' then returnM ()
       else if ToUpper (srv_Status server) = ''ERROR'' then failM (ErrorString (''server '' @ serverID @ '' status is ERROR''))
       else pollServerActive w serverID steps)"

definition WaitForServerActive :: "nsgWorld \<Rightarrow> string \<Rightarrow> unit G" where
  "WaitForServerActive w serverID = pollServerActive w serverID 30"

section \<open>The Kubernetes API\<close>

definition GetNodeSecurityGroup :: "nsgWorld \<Rightarrow> string \<Rightarrow> string \<Rightarrow> NodeSecurityGroup G" where
  "GetNodeSecurityGroup w ns n = askLog (NgGetNSG ns n) (\<lambda>h. g_GetNSG w h ns n)"
definition ListNodes :: "nsgWorld \<Rightarrow> gomap \<Rightarrow> Node list G" where
  "ListNodes w selector = askLog (NgListNode selector) (\<lambda>h. g_ListNode w h selector)"

text \<open>The closure's verdict whether it changed the status, and the status it left.\<close>

type_synonym nsgMutation = "NodeSecurityGroupStatus \<Rightarrow> bool \<times> NodeSecurityGroupStatus"

definition PatchMutateStatusNodeSecurityGroup :: "nsgWorld \<Rightarrow> NodeSecurityGroup \<Rightarrow> nsgMutation \<Rightarrow> unit G" where
  "PatchMutateStatusNodeSecurityGroup w nsg mutate =
     RetryOnConflict (g_IsConflict w) (g_ConflictRetries w)
       (andThen (GetNodeSecurityGroup w (om_Namespace (nsg_Meta nsg)) (om_Name (nsg_Meta nsg))) (\<lambda>objGet.
          case mutate (nsg_Status objGet) of (changed, status) \<Rightarrow>
            if \<not> changed then returnM ()
            else askLog (NgPatchStatus objGet (objGet\<lparr>nsg_Status := status\<rparr>))
                   (\<lambda>h. g_PatchStatus w h objGet (objGet\<lparr>nsg_Status := status\<rparr>))))"

lemmas nsg_calls =
  ListSecurityGroups_def GetSecurityGroup_def CreateSecurityGroup_def DeleteSecurityGroup_def ListSecurityGroupRules_def
  CreateSecurityGroupRule_def DeleteSecurityGroupRule_def ListServerBySecgroupID_def GetServerByID_def
  GetNodeSecurityGroup_def ListNodes_def

end
