(* ===== verification/Nsg_UseCase.thy ===== *)
theory Nsg_UseCase
  imports Nsg_World
begin

text \<open>
  The NodeSecurityGroup controller: \<^verbatim>\<open>internal/usecase/nsg_uc\<close>,
  \<^verbatim>\<open>internal/controller/nsg_controller/nsg_controller.go\<close> and \<^verbatim>\<open>pkg/nsg\<close>. It keeps a security group of its own
  in the cloud, with the rules of the spec, attaches it and the groups of the spec to the servers of the
  selected nodes, and takes them off again.
\<close>

section \<open>Plans\<close>

text \<open>\<open>ord\<close> is the order of the range over the map.\<close>

definition mapCurrent :: "string list \<Rightarrow> string list \<Rightarrow> string list \<Rightarrow> string list" where
  "mapCurrent current remove add =
     (let kept = filter (\<lambda>c. c \<notin> set remove) (remdups current)
      in kept @ filter (\<lambda>a. a \<notin> set kept) (remdups add))"

definition mergeStringArray :: "(string \<Rightarrow> nat) \<Rightarrow> string list \<Rightarrow> string list \<Rightarrow> string list \<Rightarrow> string list \<times> bool" where
  "mergeStringArray ord current remove add =
     (let keys = mapCurrent current remove add; ret = sort_key ord keys
      in if length ret \<noteq> length current then (ret, True)
         else if list_ex (\<lambda>c. c \<notin> set keys) current then (ret, True)
         else (ret, False))"

text \<open>The loop over the new array: what is left of \<open>removeMap\<close>, the kept and the added items.\<close>

fun resolveNew :: "string list \<Rightarrow> string list \<Rightarrow> string list \<times> string list \<times> string list" where
  "resolveNew removeMap [] = (removeMap, [], [])"
| "resolveNew removeMap (newItem # rest) =
     (if newItem \<in> set removeMap then
        (case resolveNew (filter (\<lambda>x. x \<noteq> newItem) removeMap) rest of (left, keep, add) \<Rightarrow> (left, newItem # keep, add))
      else (case resolveNew removeMap rest of (left, keep, add) \<Rightarrow> (left, keep, newItem # add)))"

definition resolveStringArrayChange :: "(string \<Rightarrow> nat) \<Rightarrow> string list \<Rightarrow> string list \<Rightarrow> string list \<times> string list \<times> string list" where
  "resolveStringArrayChange ord oldArr newArr =
     (case resolveNew (remdups oldArr) newArr of (left, keep, add) \<Rightarrow> (sort_key ord left, keep, add))"

definition ruleMatches :: "NodeSecurityGroupRule \<Rightarrow> entity_SecgroupRule \<Rightarrow> bool" where
  "ruleMatches newRule currentRule \<longleftrightarrow>
     EqualFold (nr_Direction newRule) (er_Direction currentRule)
     \<and> EqualFold (nr_Protocol newRule) (er_Protocol currentRule)
     \<and> EqualFold (nr_EtherType newRule) (er_EtherType currentRule)
     \<and> nr_ToPort newRule = er_PortRangeMax currentRule
     \<and> nr_FromPort newRule = er_PortRangeMin currentRule
     \<and> nr_CIDR newRule = er_RemoteIPPrefix currentRule"

definition compareSecgroupRule ::
  "entity_SecgroupRule list \<Rightarrow> NodeSecurityGroupRule list \<Rightarrow> entity_SecgroupRule list \<times> NodeSecurityGroupRule list"
where
  "compareSecgroupRule currentRules newRules =
     (let found = (\<lambda>newRule. find (ruleMatches newRule) currentRules);
          ruleInUse = concat (map (\<lambda>newRule. case found newRule of None \<Rightarrow> [] | Some r \<Rightarrow> [er_Id r]) newRules)
      in (filter (\<lambda>rule. er_Id rule \<notin> set ruleInUse) currentRules, filter (\<lambda>newRule. found newRule = None) newRules))"

section \<open>Status\<close>

definition errorToStringPtr :: "go_error option \<Rightarrow> string option" where
  "errorToStringPtr err = map_option Error err"

definition nodeInfosEqual :: "NodeInfo list \<Rightarrow> NodeInfo list \<Rightarrow> bool" where
  "nodeInfosEqual a b \<longleftrightarrow> length a = length b \<and> list_all (\<lambda>itemA. list_ex (NodeInfo_Equal itemA) b) a"

definition mutSelectedNodes :: "NodeInfo list \<Rightarrow> nsgMutation" where
  "mutSelectedNodes nodeInfos status =
     (if nodeInfosEqual (gs_SelectedNodes status) nodeInfos then (False, status)
      else (True, status\<lparr>gs_SelectedNodes := nodeInfos\<rparr>))"

definition statusSetSelectedNodes :: "nsgWorld \<Rightarrow> NodeSecurityGroup \<Rightarrow> NodeInfo list \<Rightarrow> unit G" where
  "statusSetSelectedNodes w nsg nodeInfos = PatchMutateStatusNodeSecurityGroup w nsg (mutSelectedNodes nodeInfos)"

definition mutManagedSecurityGroup :: "string option \<Rightarrow> string option \<Rightarrow> nsgMutation" where
  "mutManagedSecurityGroup secgroupID errStr status =
     (if mg_Id (gs_ManagedSecurityGroup status) = secgroupID \<and> mg_Error (gs_ManagedSecurityGroup status) = errStr
      then (False, status)
      else (True, status\<lparr>gs_ManagedSecurityGroup := \<lparr>mg_Id = secgroupID, mg_Error = errStr\<rparr>\<rparr>))"

definition statusAddStatusManagedSecurityGroup :: "nsgWorld \<Rightarrow> NodeSecurityGroup \<Rightarrow> string option \<Rightarrow> go_error option \<Rightarrow> unit G" where
  "statusAddStatusManagedSecurityGroup w nsg secgroupID err =
     PatchMutateStatusNodeSecurityGroup w nsg (mutManagedSecurityGroup secgroupID (errorToStringPtr err))"

text \<open>The entry of a server is replaced where it is, or added at the end.\<close>

fun putServer :: "ServerSecurityGroupStatus \<Rightarrow> ServerSecurityGroupStatus list \<Rightarrow> ServerSecurityGroupStatus list" where
  "putServer newStatus [] = [newStatus]"
| "putServer newStatus (x # xs) =
     (if sg_ServerId x = sg_ServerId newStatus then newStatus # xs else x # putServer newStatus xs)"

definition mutServer :: "string \<Rightarrow> string option \<Rightarrow> string list \<Rightarrow> nsgMutation" where
  "mutServer serverId errStr attached status =
     (let unchanged = (case find (\<lambda>x. sg_ServerId x = serverId) (gs_ServerSecurityGroups status) of
            None \<Rightarrow> False
          | Some x \<Rightarrow> StringSlicesEqualUnordered (sg_AttachedSecurityGroupIds x) attached \<and> sg_Error x = errStr)
      in if unchanged then (False, status)
         else (True, status\<lparr>gs_ServerSecurityGroups :=
                 putServer \<lparr>sg_ServerId = serverId, sg_AttachedSecurityGroupIds = attached, sg_Error = errStr\<rparr>
                   (gs_ServerSecurityGroups status)\<rparr>))"

definition statusUpdateNodeSecurityGroup :: "nsgWorld \<Rightarrow> NodeSecurityGroup \<Rightarrow> string \<Rightarrow> go_error option \<Rightarrow> string list \<Rightarrow> unit G" where
  "statusUpdateNodeSecurityGroup w nsg serverId err attached =
     PatchMutateStatusNodeSecurityGroup w nsg (mutServer serverId (errorToStringPtr err) attached)"

fun dropServer :: "string \<Rightarrow> ServerSecurityGroupStatus list \<Rightarrow> bool \<times> ServerSecurityGroupStatus list" where
  "dropServer serverId [] = (False, [])"
| "dropServer serverId (x # xs) =
     (if sg_ServerId x = serverId then (True, xs)
      else case dropServer serverId xs of (changed, ys) \<Rightarrow> (changed, x # ys))"

definition mutRemoveServer :: "string \<Rightarrow> nsgMutation" where
  "mutRemoveServer serverId status =
     (case dropServer serverId (gs_ServerSecurityGroups status) of
        (changed, xs) \<Rightarrow> (changed, status\<lparr>gs_ServerSecurityGroups := xs\<rparr>))"

definition statusRemoveServerSecurityGroup :: "nsgWorld \<Rightarrow> NodeSecurityGroup \<Rightarrow> string \<Rightarrow> unit G" where
  "statusRemoveServerSecurityGroup w nsg serverId = PatchMutateStatusNodeSecurityGroup w nsg (mutRemoveServer serverId)"

section \<open>The managed security group\<close>

definition findSecgroupByName :: "nsgWorld \<Rightarrow> string \<Rightarrow> entity_Secgroup option G" where
  "findSecgroupByName w name =
     andThen (ListSecurityGroups w) (\<lambda>secgroups. returnM (find (\<lambda>secgroup. esg_Name secgroup = name) secgroups))"

text \<open>The security group of the spec's name, created if there is none.\<close>

definition findOrCreateSecgroup :: "nsgWorld \<Rightarrow> ManagedSecurityGroup \<Rightarrow> entity_Secgroup G" where
  "findOrCreateSecgroup w spec =
     andThen (wrapErr (errorf (''failed to find managed secgroup by name '' @ Quote (msg_Name spec)))
       (findSecgroupByName w (msg_Name spec))) (\<lambda>found. case found of
       Some secgroup \<Rightarrow> returnM secgroup
     | None \<Rightarrow>
         (let description = (case msg_Description spec of
                Some d \<Rightarrow> d | None \<Rightarrow> ''Automatically created using VNGCLOUD LoadBalancer Controller'')
          in andThen (wrapErr (errorf (''failed to create managed secgroup '' @ Quote (msg_Name spec)))
               (CreateSecurityGroup w (msg_Name spec) description)) (\<lambda>created.
               wrapErr (errorf (''failed to get managed secgroup '' @ esg_Id created)) (GetSecurityGroup w (esg_Id created)))))"

definition createRuleText :: "NodeSecurityGroupRule \<Rightarrow> string \<Rightarrow> string" where
  "createRuleText rule secgroupID =
     ''failed to create rule ('' @ nr_Direction rule @ '' '' @ nr_EtherType rule @ '' '' @ nr_Protocol rule @ '' ''
       @ Itoa (nr_FromPort rule) @ ''-'' @ Itoa (nr_ToPort rule) @ '' '' @ nr_CIDR rule @ '') in secgroup '' @ secgroupID"

definition ensureRules :: "nsgWorld \<Rightarrow> string \<Rightarrow> NodeSecurityGroupRule list \<Rightarrow> unit G" where
  "ensureRules w secgroupID newRules =
     andThen (wrapErr (errorf (''failed to list rules of secgroup '' @ secgroupID)) (ListSecurityGroupRules w secgroupID)) (\<lambda>rules.
       case compareSecgroupRule rules newRules of (needDelete, needCreate) \<Rightarrow>
         andThen (mapM (\<lambda>rule. wrapErr (errorf (''failed to delete rule '' @ er_Id rule @ '' of secgroup '' @ secgroupID))
                    (DeleteSecurityGroupRule w secgroupID (er_Id rule))) needDelete) (\<lambda>_.
         andThen (mapM (\<lambda>rule. wrapErr (errorf (createRuleText rule secgroupID))
                    (CreateSecurityGroupRule w secgroupID rule)) needCreate) (\<lambda>_. returnM ())))"

text \<open>Both results, the id known so far and the error, as the code returns them.\<close>

definition doEnsureManagedSecurityGroup :: "nsgWorld \<Rightarrow> NodeSecurityGroup \<Rightarrow> (string option \<times> go_error option) G" where
  "doEnsureManagedSecurityGroup w nsg =
     (case ns_ManagedSecurityGroup (nsg_Spec nsg) of
        None \<Rightarrow> returnM (None, None)
      | Some spec \<Rightarrow>
          andThen (attempt (findOrCreateSecgroup w spec)) (\<lambda>r. case r of
            Inl err \<Rightarrow> returnM (None, Some err)
          | Inr secgroup \<Rightarrow>
              andThen (attempt (ensureRules w (esg_Id secgroup) (msg_Rules spec))) (\<lambda>r'.
                returnM (Some (esg_Id secgroup), case r' of Inl err \<Rightarrow> Some err | Inr _ \<Rightarrow> None))))"

definition ensureManagedSecurityGroup :: "nsgWorld \<Rightarrow> NodeSecurityGroup \<Rightarrow> string option G" where
  "ensureManagedSecurityGroup w nsg =
     andThen (doEnsureManagedSecurityGroup w nsg) (\<lambda>(statusId, err).
     andThen (attempt (statusAddStatusManagedSecurityGroup w nsg statusId err)) (\<lambda>patched.
       case err of
         Some e \<Rightarrow> failM e
       | None \<Rightarrow> (case patched of Inl patchErr \<Rightarrow> failM patchErr | Inr _ \<Rightarrow> returnM statusId)))"

text \<open>Whether it is gone.\<close>

definition deleteManagedSecurityGroupIfUnused :: "nsgWorld \<Rightarrow> string \<Rightarrow> bool G" where
  "deleteManagedSecurityGroupIfUnused w secgroupID =
     andThen (attempt (GetSecurityGroup w secgroupID)) (\<lambda>r. case r of
       Inl err \<Rightarrow> if IsSecurityGroupNotFound err then returnM True else failM err
     | Inr _ \<Rightarrow>
         andThen (ListServerBySecgroupID w secgroupID) (\<lambda>servers.
           if 0 < length servers then returnM False
           else andThen (DeleteSecurityGroup w secgroupID) (\<lambda>_. returnM True)))"

section \<open>The servers\<close>

text \<open>What the status says this object has put on a server.\<close>

definition oldSecgroupIds :: "NodeSecurityGroup \<Rightarrow> string \<Rightarrow> string list" where
  "oldSecgroupIds nsg instanceID =
     (case find (\<lambda>x. sg_ServerId x = instanceID) (gs_ServerSecurityGroups (nsg_Status nsg)) of
        None \<Rightarrow> [] | Some x \<Rightarrow> sg_AttachedSecurityGroupIds x)"

definition ensureSecgroupForInstance :: "nsgWorld \<Rightarrow> NodeSecurityGroup \<Rightarrow> string \<Rightarrow> string list \<Rightarrow> unit G" where
  "ensureSecgroupForInstance w nsg instanceID newSecgroupIds =
     andThen (GetServerByID w instanceID) (\<lambda>server.
     andThen (getS (g_mapOrder w)) (\<lambda>ord.
       case mergeStringArray ord (srv_SecGroups server) (oldSecgroupIds nsg instanceID) newSecgroupIds of
         (merged, isNeedUpdate) \<Rightarrow>
           if \<not> isNeedUpdate then returnM ()
           else andThen (wrapErr (errorf (''failed to update security groups of instance '' @ instanceID))
                  (UpdateSecGroupsOfServer w instanceID merged)) (\<lambda>_.
                wrapErr (errorf (''failed to wait for server '' @ instanceID @ '' active'')) (WaitForServerActive w instanceID))))"

definition serverError :: "string \<Rightarrow> go_error \<Rightarrow> go_error" where
  "serverError serverId err = ErrorString (''server '' @ serverId @ '': '' @ Error err)"

text \<open>A server that is not selected any more, and one that is. A failed status write is only logged.\<close>

definition detachServer :: "nsgWorld \<Rightarrow> NodeSecurityGroup \<Rightarrow> string \<Rightarrow> unit G" where
  "detachServer w nsg serverId =
     andThen (attempt (ensureSecgroupForInstance w nsg serverId [])) (\<lambda>r. case r of
       Inl err \<Rightarrow> if \<not> IsServerNotFound err then failM (serverError serverId err)
                  else andThen (attempt (statusRemoveServerSecurityGroup w nsg serverId)) (\<lambda>_. returnM ())
     | Inr _ \<Rightarrow> andThen (attempt (statusRemoveServerSecurityGroup w nsg serverId)) (\<lambda>_. returnM ()))"

definition updateServer :: "nsgWorld \<Rightarrow> NodeSecurityGroup \<Rightarrow> string list \<Rightarrow> string \<Rightarrow> unit G" where
  "updateServer w nsg needAttach serverId =
     andThen (attempt (ensureSecgroupForInstance w nsg serverId needAttach)) (\<lambda>r.
     andThen (attempt (statusUpdateNodeSecurityGroup w nsg serverId
                (case r of Inl err \<Rightarrow> Some err | Inr _ \<Rightarrow> None) needAttach)) (\<lambda>_.
       case r of Inl err \<Rightarrow> failM (serverError serverId err) | Inr _ \<Rightarrow> returnM ()))"

definition needAttachSecgroupIds :: "NodeSecurityGroup \<Rightarrow> string option \<Rightarrow> string list" where
  "needAttachSecgroupIds nsg managedId =
     ns_AttachSecurityGroups (nsg_Spec nsg) @ (if nonempty managedId then [deref managedId] else [])"

definition cleanupOldManaged :: "nsgWorld \<Rightarrow> NodeSecurityGroup \<Rightarrow> string option \<Rightarrow> unit G" where
  "cleanupOldManaged w nsg managedId =
     (let oldManagedID = mg_Id (gs_ManagedSecurityGroup (nsg_Status nsg))
      in if nonempty oldManagedID \<and> oldManagedID \<noteq> managedId then
           andThen (attempt (deleteManagedSecurityGroupIfUnused w (deref oldManagedID))) (\<lambda>r. case r of
             Inl err \<Rightarrow> andThen (attempt (statusAddStatusManagedSecurityGroup w nsg oldManagedID (Some err))) (\<lambda>_. failM err)
           | Inr _ \<Rightarrow> returnM ())
         else returnM ())"

definition ensureServerSecurityGroups :: "nsgWorld \<Rightarrow> NodeSecurityGroup \<Rightarrow> NodeInfo list \<Rightarrow> string option \<Rightarrow> unit G" where
  "ensureServerSecurityGroups w nsg nodeInfos managedId =
     andThen (getS (g_mapOrder w)) (\<lambda>ord.
       let needAttach = needAttachSecgroupIds nsg managedId
       in case resolveStringArrayChange ord (map sg_ServerId (gs_ServerSecurityGroups (nsg_Status nsg))) (map ni_ServerId nodeInfos) of
         (removeServerIDs, notChangeServerIDs, addServerIDs) \<Rightarrow>
           andThen (collectFailures (detachServer w nsg) removeServerIDs) (\<lambda>(_, errs1).
           andThen (collectFailures (updateServer w nsg needAttach) notChangeServerIDs) (\<lambda>(_, errs2).
           andThen (collectFailures (updateServer w nsg needAttach) addServerIDs) (\<lambda>(_, errs3).
             if errs1 @ errs2 @ errs3 \<noteq> [] then
               failM (ErrorString (''failed to update security groups for some nodes: '' @ Join '', '' (map Error (errs1 @ errs2 @ errs3))))
             else cleanupOldManaged w nsg managedId))))"

section \<open>The use case\<close>

text \<open>\<open>%v\<close> of a map of strings: its entries sorted by key.\<close>

definition mapText :: "gomap \<Rightarrow> string" where
  "mapText m = ''map['' @ Join '' '' (map (\<lambda>k. k @ '':'' @ map_get m k) (sorted_list_of_set (fst ` set m))) @ '']''"

definition listNodeBySelector :: "nsgWorld \<Rightarrow> gomap \<Rightarrow> Node list G" where
  "listNodeBySelector w selector = wrapErr (errorf (''failed to list nodes by selector '' @ mapText selector)) (ListNodes w selector)"

definition nodeInfoOf :: "Node \<Rightarrow> NodeInfo" where
  "nodeInfoOf node = \<lparr>ni_Name = node_Name node, ni_ServerId = GetProviderIdFromNode (Some node)\<rparr>"

definition ensureSelectedNodes :: "nsgWorld \<Rightarrow> NodeSecurityGroup \<Rightarrow> NodeInfo list G" where
  "ensureSelectedNodes w nsg =
     andThen (listNodeBySelector w (ns_SelectNodeLabels (nsg_Spec nsg))) (\<lambda>nodes.
     andThen (statusSetSelectedNodes w nsg (map nodeInfoOf nodes)) (\<lambda>_. returnM (map nodeInfoOf nodes)))"

definition ensureNSG :: "nsgWorld \<Rightarrow> NodeSecurityGroup \<Rightarrow> unit G" where
  "ensureNSG w nsg =
     andThen (ensureManagedSecurityGroup w nsg) (\<lambda>managedId.
     andThen (ensureSelectedNodes w nsg) (\<lambda>nodeInfos. ensureServerSecurityGroups w nsg nodeInfos managedId))"

definition NSGConditionTypeReady :: string where "NSGConditionTypeReady = ''Ready''"
definition NSGReasonReconcileSuccess :: string where "NSGReasonReconcileSuccess = ''ReconcileSuccess''"
definition NSGReasonReconcileFailed :: string where "NSGReasonReconcileFailed = ''ReconcileFailed''"

definition mutOutcome :: "nsgWorld \<Rightarrow> int \<Rightarrow> int \<Rightarrow> unit result \<Rightarrow> nsgMutation" where
  "mutOutcome w generation now r status =
     (let message = (case r of Inl err \<Rightarrow> Error err | Inr _ \<Rightarrow> ''Successfully reconciled'');
          reason = (case r of Inl _ \<Rightarrow> NSGReasonReconcileFailed | Inr _ \<Rightarrow> NSGReasonReconcileSuccess);
          changed = (gs_ObservedGeneration status \<noteq> generation \<or> gs_LastReconcileMessage status \<noteq> message);
          status1 = (if changed
                     then status\<lparr>gs_ObservedGeneration := generation, gs_LastReconcileMessage := message, gs_LastReconcileTime := Some now\<rparr>
                     else status);
          newCondition = \<lparr>cond_Type = NSGConditionTypeReady, cond_Status = (r = Inr ()), cond_ObservedGeneration = generation,
                          cond_LastTransitionTime = now, cond_Reason = reason, cond_Message = message\<rparr>
      in case g_SetStatusCondition w (gs_Conditions status1) newCondition of
           (altered, conditions) \<Rightarrow> (changed \<or> altered, status1\<lparr>gs_Conditions := conditions\<rparr>))"

definition nsgIgnoreNotFound :: "nsgWorld \<Rightarrow> go_error \<Rightarrow> unit G" where
  "nsgIgnoreNotFound w err = (if g_IsNotFound w err then returnM () else failM err)"

definition EnsureNodeSecurityGroupUseCase :: "nsgWorld \<Rightarrow> string \<Rightarrow> string \<Rightarrow> unit G" where
  "EnsureNodeSecurityGroupUseCase w ns n =
     andThen (attempt (GetNodeSecurityGroup w ns n)) (\<lambda>got. case got of
       Inl err \<Rightarrow> nsgIgnoreNotFound w err
     | Inr nsg \<Rightarrow>
         andThen (attempt (ensureNSG w nsg)) (\<lambda>r.
         andThen (getS (g_Now w)) (\<lambda>now.
         andThen (attempt (PatchMutateStatusNodeSecurityGroup w nsg (mutOutcome w (om_Generation (nsg_Meta nsg)) now r))) (\<lambda>_.
           case r of Inl err \<Rightarrow> failM err | Inr _ \<Rightarrow> returnM ()))))"

text \<open>The servers on record, with the ones that are gone passed over.\<close>

definition releaseServer :: "nsgWorld \<Rightarrow> NodeSecurityGroup \<Rightarrow> ServerSecurityGroupStatus \<Rightarrow> unit G" where
  "releaseServer w nsg server =
     andThen (attempt (ensureSecgroupForInstance w nsg (sg_ServerId server) [])) (\<lambda>r. case r of
       Inl err \<Rightarrow> if \<not> IsServerNotFound err then failM err else returnM ()
     | Inr _ \<Rightarrow> returnM ())"

definition DeleteNodeSecurityGroupUseCase :: "nsgWorld \<Rightarrow> string \<Rightarrow> string \<Rightarrow> unit G" where
  "DeleteNodeSecurityGroupUseCase w ns n =
     andThen (attempt (GetNodeSecurityGroup w ns n)) (\<lambda>got. case got of
       Inl err \<Rightarrow> nsgIgnoreNotFound w err
     | Inr nsg \<Rightarrow>
         andThen (collectFailures (releaseServer w nsg) (gs_ServerSecurityGroups (nsg_Status nsg))) (\<lambda>(_, errs).
           if errs \<noteq> [] then
             failM (ErrorString (''failed to detach security groups from some nodes: '' @ Join '', '' (map Error errs)))
           else let managed = mg_Id (gs_ManagedSecurityGroup (nsg_Status nsg))
             in if nonempty managed then andThen (deleteManagedSecurityGroupIfUnused w (deref managed)) (\<lambda>_. returnM ())
                else returnM ()))"

section \<open>The controller\<close>

definition NsgFinalizer :: string where "NsgFinalizer = ''nsg.vngcloud.vn/resources''"

definition nsgAddFinalizers :: "nsgWorld \<Rightarrow> unit G" where
  "nsgAddFinalizers w = askLog (NgAddFinalizers NsgFinalizer) (\<lambda>h. g_AddFinalizers w h NsgFinalizer)"

definition nsgRemoveFinalizers :: "nsgWorld \<Rightarrow> unit G" where
  "nsgRemoveFinalizers w = askLog (NgRemoveFinalizers NsgFinalizer) (\<lambda>h. g_RemoveFinalizers w h NsgFinalizer)"

definition nsgWithMetrics :: "unit G \<Rightarrow> unit G" where
  "nsgWithMetrics m = wrapErr (\<lambda>err. fst (NewErrorWithMetrics err)) m"

definition nsgReconcileEnsure :: "nsgWorld \<Rightarrow> string \<Rightarrow> string \<Rightarrow> unit G" where
  "nsgReconcileEnsure w ns n =
     andThen (nsgWithMetrics (nsgAddFinalizers w)) (\<lambda>_. nsgWithMetrics (EnsureNodeSecurityGroupUseCase w ns n))"

definition nsgReconcileDelete :: "nsgWorld \<Rightarrow> string \<Rightarrow> string \<Rightarrow> NodeSecurityGroup \<Rightarrow> unit G" where
  "nsgReconcileDelete w ns n nsg =
     (if NsgFinalizer \<notin> set (om_Finalizers (nsg_Meta nsg)) then returnM ()
      else andThen (nsgWithMetrics (DeleteNodeSecurityGroupUseCase w ns n)) (\<lambda>_. nsgRemoveFinalizers w))"

definition nsgReport :: "string \<Rightarrow> string \<Rightarrow> string \<Rightarrow> unit G \<Rightarrow> unit G" where
  "nsgReport key failed succeeded m =
     andThen (attempt m) (\<lambda>r. case r of
       Inl err \<Rightarrow> andThen (askLog (\<lambda>_. NgRecord ''Warning'' failed (Error err)) (\<lambda>_. Inr ())) (\<lambda>_. failM err)
     | Inr _ \<Rightarrow> askLog (\<lambda>_. NgRecord ''Normal'' succeeded key) (\<lambda>_. Inr ()))"

definition nsgIsSupported :: "NodeSecurityGroup \<Rightarrow> bool" where
  "nsgIsSupported nsg \<longleftrightarrow> om_DeletionTimestamp (nsg_Meta nsg) = None"

definition nsgIsPendingFinalization :: "NodeSecurityGroup \<Rightarrow> bool" where
  "nsgIsPendingFinalization nsg \<longleftrightarrow> NsgFinalizer \<in> set (om_Finalizers (nsg_Meta nsg))"

definition nsgReconcile :: "nsgWorld \<Rightarrow> string \<Rightarrow> string \<Rightarrow> unit G" where
  "nsgReconcile w ns n =
     andThen (attempt (GetNodeSecurityGroup w ns n)) (\<lambda>got. case got of
       Inl err \<Rightarrow> nsgIgnoreNotFound w err
     | Inr nsg \<Rightarrow>
         (let key = om_Namespace (nsg_Meta nsg) @ ''/'' @ om_Name (nsg_Meta nsg)
          in if \<not> nsgIsSupported nsg then
               if nsgIsPendingFinalization nsg
               then nsgReport key ''FailedDelete'' ''Deleted'' (nsgReconcileDelete w ns n nsg)
               else returnM ()
             else nsgReport key ''FailedEnsure'' ''Ensured'' (nsgReconcileEnsure w ns n)))"

end
