(* ===== verification/Nsg_Safety.thy ===== *)
theory Nsg_Safety
  imports Nsg_UseCase
begin

text \<open>
  What the NodeSecurityGroup controller may do: its plans, the calls of a reconcile, and what has to be
  seen before the finalizer goes.
\<close>

section \<open>Merging the groups of a server\<close>

lemma set_mapCurrent: "set (mapCurrent current remove add) = (set current - set remove) \<union> set add"
  by (auto simp: mapCurrent_def Let_def)

lemma distinct_mapCurrent: "distinct (mapCurrent current remove add)"
  by (auto simp: mapCurrent_def Let_def)

lemma mergeStringArray_parts:
  "set (fst (mergeStringArray ord current remove add)) = (set current - set remove) \<union> set add"
  "distinct (fst (mergeStringArray ord current remove add))"
  by (simp_all add: mergeStringArray_def Let_def set_mapCurrent distinct_mapCurrent)

lemma mergeStringArray_unchanged:
  assumes "\<not> snd (mergeStringArray ord current remove add)"
  shows "set current \<subseteq> (set current - set remove) \<union> set add"
  using assms by (auto simp: mergeStringArray_def Let_def list_ex_iff set_mapCurrent split: if_splits)

lemma mergeStringArray_changed_iff:
  assumes "distinct current"
  shows "snd (mergeStringArray ord current remove add) \<longleftrightarrow> (set current - set remove) \<union> set add \<noteq> set current"
proof -
  let ?keys = "mapCurrent current remove add"
  have "snd (mergeStringArray ord current remove add) \<longleftrightarrow> length ?keys \<noteq> length current \<or> \<not> set current \<subseteq> set ?keys"
    by (auto simp: mergeStringArray_def Let_def list_ex_iff)
  also have "\<dots> \<longleftrightarrow> set ?keys \<noteq> set current"
    using assms distinct_mapCurrent[of current remove add] by (metis List.finite_set card_subset_eq distinct_card order_refl)
  finally show ?thesis by (simp add: set_mapCurrent)
qed

text \<open>
  A merge takes off what is recorded, puts on what is wanted and keeps everything else, and it asks
  for an update exactly if that changes the set of groups; whatever order the map is ranged over in. Once
  the merged groups are on the server and the wanted ones on record, nothing is left to update.
\<close>

theorem mergeStringArray_exact:
  assumes "distinct current" and "mergeStringArray ord current remove add = (merged, need)"
  shows "distinct merged \<and> set merged = (set current - set remove) \<union> set add
    \<and> (need \<longleftrightarrow> set merged \<noteq> set current)
    \<and> \<not> snd (mergeStringArray ord' merged add add)"
proof -
  from assms(2) have m: "merged = fst (mergeStringArray ord current remove add)" "need = snd (mergeStringArray ord current remove add)"
    by simp_all
  then have s: "set merged = (set current - set remove) \<union> set add" "distinct merged"
    by (simp_all only: mergeStringArray_parts)
  moreover have "\<not> snd (mergeStringArray ord' merged add add)"
    using s by (subst mergeStringArray_changed_iff) auto
  ultimately show ?thesis using mergeStringArray_changed_iff[OF assms(1)] m by simp
qed

theorem mergeStringArray_exact_witness:
  "\<not> snd (mergeStringArray length [''user'', ''b''] [''b''] [''b''])"
  using mergeStringArray_exact[of "[''a'', ''user'']" length "[''a'']" "[''b'']" "[''user'', ''b'']" True length]
  by (simp add: mergeStringArray_def mapCurrent_def Let_def)

section \<open>Which servers change\<close>

lemma resolveNew_parts:
  assumes "distinct removeMap" and "distinct newArr" and "resolveNew removeMap newArr = (left, keep, add)"
  shows "left = filter (\<lambda>x. x \<notin> set newArr) removeMap \<and> keep = filter (\<lambda>x. x \<in> set removeMap) newArr
    \<and> add = filter (\<lambda>x. x \<notin> set removeMap) newArr"
  using assms
proof (induction newArr arbitrary: removeMap left keep add)
  case (Cons x xs)
  show ?case
  proof (cases "x \<in> set removeMap")
    case True
    let ?rm = "filter (\<lambda>y. y \<noteq> x) removeMap"
    obtain l k a where r: "resolveNew ?rm xs = (l, k, a)" by (cases "resolveNew ?rm xs") auto
    with Cons.IH[of ?rm] Cons.prems have ih: "l = filter (\<lambda>y. y \<notin> set xs) ?rm" "k = filter (\<lambda>y. y \<in> set ?rm) xs"
      "a = filter (\<lambda>y. y \<notin> set ?rm) xs" by simp_all
    have "filter (\<lambda>y. y \<in> set ?rm) xs = filter (\<lambda>y. y \<in> set removeMap) xs"
      "filter (\<lambda>y. y \<notin> set ?rm) xs = filter (\<lambda>y. y \<notin> set removeMap) xs"
      using Cons.prems(2) by (auto intro: filter_cong)
    with True Cons.prems r ih show ?thesis by (auto intro: filter_cong)
  next
    case False
    obtain l k a where r: "resolveNew removeMap xs = (l, k, a)" by (cases "resolveNew removeMap xs") auto
    with Cons.IH[of removeMap] Cons.prems have ih: "l = filter (\<lambda>y. y \<notin> set xs) removeMap"
      "k = filter (\<lambda>y. y \<in> set removeMap) xs" "a = filter (\<lambda>y. y \<notin> set removeMap) xs" by simp_all
    have "filter (\<lambda>y. y \<notin> set xs) removeMap = filter (\<lambda>y. y \<notin> set (x # xs)) removeMap"
      using False by (auto intro: filter_cong)
    with False Cons.prems r ih show ?thesis by simp
  qed
qed simp

lemma resolveNew_covers:
  assumes "resolveNew removeMap newArr = (left, keep, add)"
  shows "set newArr = set keep \<union> set add" "set removeMap \<subseteq> set left \<union> set keep" "set left \<subseteq> set removeMap"
    "set keep \<subseteq> set removeMap" "set left \<inter> set newArr = {}"
  using assms by (induction removeMap newArr arbitrary: left keep add rule: resolveNew.induct)
    (auto split: if_splits prod.splits)

lemma resolveStringArrayChange_covers:
  assumes "resolveStringArrayChange ord oldArr newArr = (left, keep, add)"
  shows "set newArr = set keep \<union> set add" "set oldArr \<subseteq> set left \<union> set keep" "set left = set oldArr - set newArr"
proof -
  obtain l where r: "resolveNew (remdups oldArr) newArr = (l, keep, add)" and l: "left = sort_key ord l"
    using assms by (auto simp: resolveStringArrayChange_def split: prod.splits)
  from resolveNew_covers[OF r] l show "set newArr = set keep \<union> set add" "set oldArr \<subseteq> set left \<union> set keep"
    "set left = set oldArr - set newArr"
    by auto
qed

section \<open>Which rules change\<close>

text \<open>What a rule is compared by.\<close>

definition ruleKeyFold :: "NodeSecurityGroupRule \<Rightarrow> string \<times> string \<times> string \<times> int \<times> int \<times> string" where
  "ruleKeyFold r = (ToLower (nr_Direction r), ToLower (nr_Protocol r), ToLower (nr_EtherType r), nr_ToPort r, nr_FromPort r, nr_CIDR r)"

lemma ruleMatches_key: "ruleMatches a r \<Longrightarrow> ruleMatches b r \<Longrightarrow> ruleKeyFold a = ruleKeyFold b"
  by (auto simp: ruleMatches_def ruleKeyFold_def EqualFold_def ToLower_def)

lemma in_set_found:
  "x \<in> set (concat (map (\<lambda>n. case f n of None \<Rightarrow> [] | Some r \<Rightarrow> [g r]) xs)) \<longleftrightarrow> (\<exists>n \<in> set xs. \<exists>r. f n = Some r \<and> x = g r)"
  by (force split: option.splits)

lemma find_filter_first:
  assumes "find P xs = Some x" and "Q x"
  shows "find P (filter Q xs) = Some x"
  using assms by (induction xs) (auto split: if_splits)

lemma find_append_Some: "find P xs = Some x \<Longrightarrow> find P (xs @ ys) = Some x"
  by (induction xs) auto

lemma find_append_None: "find P xs = None \<Longrightarrow> find P (xs @ ys) = find P ys"
  by (induction xs) auto

lemma find_made:
  assumes "list_all2 ruleMatches create made" and "distinct (map ruleKeyFold create)" and "i < length create"
  shows "find (ruleMatches (create ! i)) made = Some (made ! i)"
proof -
  have len: "length made = length create" using assms(1) by (simp add: list_all2_lengthD)
  have "ruleMatches (create ! i) (made ! i)" using assms(1,3) by (simp add: list_all2_nthD)
  moreover have "\<not> ruleMatches (create ! i) (made ! j)" if "j < i" for j
  proof
    assume "ruleMatches (create ! i) (made ! j)"
    moreover have "ruleMatches (create ! j) (made ! j)" using assms(1,3) that by (simp add: list_all2_nthD)
    ultimately have "ruleKeyFold (create ! i) = ruleKeyFold (create ! j)" by (rule ruleMatches_key)
    with assms(2,3) that show False by (simp add: distinct_conv_nth)
  qed
  ultimately show ?thesis using assms(3) len by (auto simp: find_Some_iff intro!: exI[of _ i])
qed

text \<open>
  C13. The rules of the managed group converge. After the superfluous rules were deleted and a rule was
  made for each missing one, a comparison finds nothing to delete and nothing to create, provided no two
  wanted rules are the same for the comparison; and no rule a wanted one was matched with is deleted.
\<close>

theorem compareSecgroupRule_converges:
  assumes "distinct (map ruleKeyFold newRules)" and "compareSecgroupRule currentRules newRules = (needDelete, needCreate)"
    and "list_all2 ruleMatches needCreate made"
    and "remaining = filter (\<lambda>r. er_Id r \<notin> er_Id ` set needDelete) currentRules"
  shows "compareSecgroupRule (remaining @ made) newRules = ([], [])
    \<and> (\<forall>new \<in> set newRules. \<forall>r. find (ruleMatches new) currentRules = Some r \<longrightarrow> r \<in> set remaining)"
proof -
  define used where "used = concat (map (\<lambda>newRule. case find (ruleMatches newRule) currentRules of None \<Rightarrow> [] | Some r \<Rightarrow> [er_Id r]) newRules)"
  from assms(2) have del: "needDelete = filter (\<lambda>rule. er_Id rule \<notin> set used) currentRules"
    and create: "needCreate = filter (\<lambda>newRule. find (ruleMatches newRule) currentRules = None) newRules"
    by (auto simp: compareSecgroupRule_def used_def Let_def)
  have remaining: "remaining = filter (\<lambda>r. er_Id r \<in> set used) currentRules"
    unfolding assms(4) del by (rule filter_cong) auto
  have found: "find (ruleMatches new) remaining = Some r" if "new \<in> set newRules" "find (ruleMatches new) currentRules = Some r" for new r
    unfolding remaining using that by (intro find_filter_first) (auto simp: used_def in_set_found simp del: set_concat)
  have createKeys: "distinct (map ruleKeyFold needCreate)"
    unfolding create using assms(1) by (simp add: distinct_map_filter)
  have madeFound: "\<exists>r \<in> set made. find (ruleMatches new) (remaining @ made) = Some r" if "new \<in> set needCreate" for new
  proof -
    from that obtain i where i: "i < length needCreate" "needCreate ! i = new" by (auto simp: in_set_conv_nth)
    from that have "find (ruleMatches new) currentRules = None" by (simp add: create)
    then have "find (ruleMatches new) remaining = None" by (auto simp: remaining find_None_iff)
    with find_made[OF assms(3) createKeys i(1)] i have "find (ruleMatches new) (remaining @ made) = Some (made ! i)"
      by (simp add: find_append_None)
    moreover have "made ! i \<in> set made" using i(1) assms(3) by (simp add: list_all2_lengthD)
    ultimately show ?thesis by blast
  qed
  define used' where "used' = concat (map (\<lambda>newRule. case find (ruleMatches newRule) (remaining @ made) of None \<Rightarrow> [] | Some r \<Rightarrow> [er_Id r]) newRules)"
  have noneMissing: "find (ruleMatches new) (remaining @ made) \<noteq> None" if "new \<in> set newRules" for new
  proof (cases "find (ruleMatches new) currentRules")
    case None
    with that madeFound[of new] show ?thesis by (auto simp: create)
  next
    case (Some r)
    from find_append_Some[OF found[OF that this]] show ?thesis by simp
  qed
  have usedRemaining: "er_Id r \<in> set used'" if "r \<in> set remaining" for r
  proof -
    from that obtain new r' where "new \<in> set newRules" "find (ruleMatches new) currentRules = Some r'" "er_Id r' = er_Id r"
      unfolding remaining used_def set_filter mem_Collect_eq in_set_found by metis
    with find_append_Some[OF found] show ?thesis unfolding used'_def in_set_found by metis
  qed
  have usedMade: "er_Id r \<in> set used'" if "r \<in> set made" for r
  proof -
    from that assms(3) obtain i where i: "i < length needCreate" "made ! i = r" by (auto simp: in_set_conv_nth list_all2_lengthD)
    have new: "needCreate ! i \<in> set newRules" "find (ruleMatches (needCreate ! i)) remaining = None"
      using nth_mem[OF i(1)] by (auto simp: create remaining find_None_iff)
    then have "find (ruleMatches (needCreate ! i)) (remaining @ made) = Some r"
      using find_made[OF assms(3) createKeys i(1)] i by (simp add: find_append_None)
    with new(1) show ?thesis unfolding used'_def in_set_found by metis
  qed
  have "compareSecgroupRule (remaining @ made) newRules =
      (filter (\<lambda>rule. er_Id rule \<notin> set used') (remaining @ made),
       filter (\<lambda>newRule. find (ruleMatches newRule) (remaining @ made) = None) newRules)"
    unfolding compareSecgroupRule_def used'_def Let_def by (rule refl)
  then have "compareSecgroupRule (remaining @ made) newRules = ([], [])"
    using noneMissing usedRemaining usedMade by (auto simp: filter_empty_conv)
  moreover have "r \<in> set remaining" if "new \<in> set newRules" "find (ruleMatches new) currentRules = Some r" for new r
    using found[OF that] by (auto simp: find_Some_iff in_set_conv_nth)
  ultimately show ?thesis by blast
qed

theorem compareSecgroupRule_converges_witness:
  "let new = [\<lparr>nr_Protocol = ''tcp'', nr_FromPort = 80, nr_ToPort = 80, nr_CIDR = ''10.0.0.0/8'', nr_Description = [],
                nr_Direction = ''ingress'', nr_EtherType = ''IPv4''\<rparr>];
       stale = \<lparr>er_Id = ''r1'', er_Direction = ''ingress'', er_Protocol = ''tcp'', er_EtherType = ''IPv4'',
                er_PortRangeMin = 81, er_PortRangeMax = 81, er_RemoteIPPrefix = ''10.0.0.0/8''\<rparr>;
       made = \<lparr>er_Id = ''r2'', er_Direction = ''INGRESS'', er_Protocol = ''TCP'', er_EtherType = ''IPv4'',
                er_PortRangeMin = 80, er_PortRangeMax = 80, er_RemoteIPPrefix = ''10.0.0.0/8''\<rparr>
   in compareSecgroupRule [stale] new = ([stale], new) \<and> compareSecgroupRule [made] new = ([], [])"
proof -
  let ?new = "[\<lparr>nr_Protocol = ''tcp'', nr_FromPort = 80, nr_ToPort = 80, nr_CIDR = ''10.0.0.0/8'', nr_Description = [],
                nr_Direction = ''ingress'', nr_EtherType = ''IPv4''\<rparr>]"
  let ?stale = "\<lparr>er_Id = ''r1'', er_Direction = ''ingress'', er_Protocol = ''tcp'', er_EtherType = ''IPv4'',
                er_PortRangeMin = 81, er_PortRangeMax = 81, er_RemoteIPPrefix = ''10.0.0.0/8''\<rparr>"
  let ?made = "\<lparr>er_Id = ''r2'', er_Direction = ''INGRESS'', er_Protocol = ''TCP'', er_EtherType = ''IPv4'',
                er_PortRangeMin = 80, er_PortRangeMax = 80, er_RemoteIPPrefix = ''10.0.0.0/8''\<rparr>"
  have first: "compareSecgroupRule [?stale] ?new = ([?stale], ?new)" by code_simp
  have "list_all2 ruleMatches ?new [?made]" by code_simp
  with compareSecgroupRule_converges[of ?new "[?stale]" "[?stale]" ?new "[?made]" "[]"] first
  have "compareSecgroupRule [?made] ?new = ([], [])" by simp
  with first show ?thesis by simp
qed

end
