(* ===== verification/Nsg_Reconcile.thy ===== *)
theory Nsg_Reconcile
  imports Nsg_Safety
begin

text \<open>
  The calls of a reconcile of a NodeSecurityGroup: what each write rests on, what has to be seen before
  the finalizer goes, and that every server is looked at.
\<close>

section \<open>What a write rests on\<close>

text \<open>The managed group of the spec, as this run has found or created it.\<close>

definition managedGroup :: "nsgEvent list \<Rightarrow> NodeSecurityGroup \<Rightarrow> string \<Rightarrow> bool" where
  "managedGroup es nsg gid \<longleftrightarrow>
     (\<exists>spec g. ns_ManagedSecurityGroup (nsg_Spec nsg) = Some spec \<and> gid = esg_Id g
        \<and> ((\<exists>gs. NgListSecgroup (Inr gs) \<in> set es \<and> g \<in> set gs \<and> esg_Name g = msg_Name spec)
           \<or> (\<exists>made d. NgCreateSecgroup (msg_Name spec) d (Inr made) \<in> set es \<and> NgGetSecgroup (esg_Id made) (Inr g) \<in> set es)))"

text \<open>What may be put on a server: nothing, or the groups of the spec and the managed one.\<close>

definition wantedGroups :: "nsgEvent list \<Rightarrow> NodeSecurityGroup \<Rightarrow> string set \<Rightarrow> bool" where
  "wantedGroups es nsg ids \<longleftrightarrow> ids = {} \<or> ids = set (ns_AttachSecurityGroups (nsg_Spec nsg))
     \<or> (\<exists>gid. managedGroup es nsg gid \<and> ids = insert gid (set (ns_AttachSecurityGroups (nsg_Spec nsg))))"

text \<open>
  Each write, after the calls \<open>es\<close> of the run for the object \<open>nsg\<close> as read in the run. The groups of a
  server are those it had, without the recorded ones, and the wanted ones.
\<close>

definition writeFor :: "NodeSecurityGroup \<Rightarrow> nsgEvent list \<Rightarrow> nsgEvent \<Rightarrow> bool" where
  "writeFor nsg es e \<longleftrightarrow>
     (case e of
        NgPatchStatus old new _ \<Rightarrow> NgGetNSG (om_Namespace (nsg_Meta nsg)) (om_Name (nsg_Meta nsg)) (Inr old) \<in> set es
          \<and> nsg_Meta new = nsg_Meta old \<and> nsg_Spec new = nsg_Spec old
      | NgCreateSecgroup name _ _ \<Rightarrow> (\<exists>spec gs. ns_ManagedSecurityGroup (nsg_Spec nsg) = Some spec \<and> name = msg_Name spec
          \<and> NgListSecgroup (Inr gs) \<in> set es \<and> name \<notin> esg_Name ` set gs)
      | NgDeleteSecgroup gid _ \<Rightarrow> mg_Id (gs_ManagedSecurityGroup (nsg_Status nsg)) = Some gid \<and> NgListServers gid (Inr []) \<in> set es
      | NgCreateRule gid rule _ \<Rightarrow> managedGroup es nsg gid
          \<and> (\<exists>spec rules. ns_ManagedSecurityGroup (nsg_Spec nsg) = Some spec \<and> rule \<in> set (msg_Rules spec)
               \<and> NgListRules gid (Inr rules) \<in> set es \<and> (\<forall>r \<in> set rules. \<not> ruleMatches rule r))
      | NgDeleteRule gid rid _ \<Rightarrow> managedGroup es nsg gid
          \<and> (\<exists>spec rules. ns_ManagedSecurityGroup (nsg_Spec nsg) = Some spec \<and> rid \<in> er_Id ` set rules
               \<and> NgListRules gid (Inr rules) \<in> set es
               \<and> (\<forall>new \<in> set (msg_Rules spec). \<forall>r. find (ruleMatches new) rules = Some r \<longrightarrow> er_Id r \<noteq> rid))
      | NgUpdateSecgroups sid ids _ \<Rightarrow> (\<exists>srv wanted. NgGetServer sid (Inr srv) \<in> set es \<and> wantedGroups es nsg wanted
          \<and> set ids = (set (srv_SecGroups srv) - set (oldSecgroupIds nsg sid)) \<union> wanted)
      | NgAddFinalizers _ _ \<Rightarrow> False
      | NgRemoveFinalizers _ _ \<Rightarrow> False
      | _ \<Rightarrow> True)"

lemma managedGroup_more: "managedGroup es nsg gid \<Longrightarrow> set es \<subseteq> set es' \<Longrightarrow> managedGroup es' nsg gid"
  unfolding managedGroup_def by blast

lemma wantedGroups_more: "wantedGroups es nsg ids \<Longrightarrow> set es \<subseteq> set es' \<Longrightarrow> wantedGroups es' nsg ids"
  unfolding wantedGroups_def by (blast intro: managedGroup_more)

lemma writeFor_more:
  assumes "writeFor nsg es e" and "set es \<subseteq> set es'"
  shows "writeFor nsg es' e"
  using assms by (cases e) (fastforce simp: writeFor_def intro: managedGroup_more wantedGroups_more)+

text \<open>The relation of the rules below, and the calls of a run seen from a later point of it.\<close>

abbreviation forNSG :: "nat \<Rightarrow> NodeSecurityGroup \<Rightarrow> nsgHistory \<Rightarrow> nsgHistory \<Rightarrow> bool" where
  "forNSG k nsg \<equiv> addsR id (ofRun k (writeFor nsg))"

lemma keeps: "addsR id P h h' \<Longrightarrow> k \<le> length h \<Longrightarrow> set (drop k h) \<subseteq> set (drop k h')"
  using addsR_keeps[of id P h h' k] by auto

lemma longer: "addsR id P h h' \<Longrightarrow> k \<le> length h \<Longrightarrow> k \<le> length h'"
  using addsR_longer[of id P h h'] by simp

declare safe_adds_askLog [safe_intro del]

lemma safe_for_ask:
  "writeFor nsg (drop k h) (ev (f h)) \<Longrightarrow> safe (forNSG k nsg) (askLog ev f) h"
  by (rule safe_adds_askLog) (simp add: ofRun_def)

section \<open>Each operation\<close>

lemma safe_for_PatchMutate:
  assumes "k \<le> length h"
  shows "safe (forNSG k nsg) (PatchMutateStatusNodeSecurityGroup w nsg mutate) h"
  unfolding PatchMutateStatusNodeSecurityGroup_def GetNodeSecurityGroup_def
proof (intro safe_intro safe_for_ask)
  fix h' objGet h'' changed status
  assume "forNSG k nsg h h'" and get: "askLog (NgGetNSG (om_Namespace (nsg_Meta nsg)) (om_Name (nsg_Meta nsg)))
     (\<lambda>h. g_GetNSG w h (om_Namespace (nsg_Meta nsg)) (om_Name (nsg_Meta nsg))) h' = (Inr objGet, h'')"
  from longer[OF this(1) assms] get
  show "writeFor nsg (drop k h'') (NgPatchStatus objGet (objGet\<lparr>nsg_Status := status\<rparr>)
      (g_PatchStatus w h'' objGet (objGet\<lparr>nsg_Status := status\<rparr>)))"
    by (auto simp: writeFor_def)
qed (simp add: writeFor_def)

lemmas safe_for_status =
  safe_for_PatchMutate[of _ _ _ _ "mutSelectedNodes _", folded statusSetSelectedNodes_def]
  safe_for_PatchMutate[of _ _ _ _ "mutManagedSecurityGroup _ (errorToStringPtr _)", folded statusAddStatusManagedSecurityGroup_def]
  safe_for_PatchMutate[of _ _ _ _ "mutServer _ (errorToStringPtr _) _", folded statusUpdateNodeSecurityGroup_def]
  safe_for_PatchMutate[of _ _ _ _ "mutRemoveServer _", folded statusRemoveServerSecurityGroup_def]

lemma safe_for_deleteIfUnused:
  assumes "mg_Id (gs_ManagedSecurityGroup (nsg_Status nsg)) = Some gid" and "k \<le> length h"
  shows "safe (forNSG k nsg) (deleteManagedSecurityGroupIfUnused w gid) h"
  unfolding deleteManagedSecurityGroupIfUnused_def nsg_calls
  using assms by (intro safe_intro safe_for_ask) (auto simp: writeFor_def dest!: longer)

lemma safe_for_wait: "safe (forNSG k nsg) (pollServerActive w sid steps) h"
proof (induction steps arbitrary: h)
  case (Suc steps)
  then show ?case unfolding pollServerActive.simps GetServerByID_def
    by (intro safe_intro safe_for_ask) (simp_all add: writeFor_def)
qed (simp add: adds.safe_failM)

lemma safe_for_tryUpdate:
  assumes "writeFor nsg (drop k h) (NgUpdateSecgroups sid ids (Inr ()))" and "k \<le> length h"
  shows "safe (forNSG k nsg) (tryUpdateSecGroups w sid ids err tries) h"
  using assms
proof (induction tries arbitrary: h err)
  case (Suc tries)
  have any: "writeFor nsg (drop k h) (NgUpdateSecgroups sid ids r)" for r
    using Suc.prems(1) by (simp add: writeFor_def)
  show ?case unfolding tryUpdateSecGroups.simps
  proof (intro safe_intro safe_for_ask any)
    fix r h' e
    assume "forNSG k nsg h h'"
    from writeFor_more[OF Suc.prems(1) keeps[OF this Suc.prems(2)]] longer[OF this Suc.prems(2)]
    show "safe (forNSG k nsg) (tryUpdateSecGroups w sid ids e tries) h'" by (rule Suc.IH)
  qed
qed (simp add: adds.safe_failM)

lemma safe_for_instance:
  assumes "wantedGroups (drop k h) nsg (set ids)" and "k \<le> length h"
  shows "safe (forNSG k nsg) (ensureSecgroupForInstance w nsg sid ids) h"
  unfolding ensureSecgroupForInstance_def GetServerByID_def UpdateSecGroupsOfServer_def WaitForServerActive_def
proof (intro safe_intro safe_for_ask safe_for_wait safe_for_tryUpdate)
  fix srv h1 ord h2 merged need
  assume get: "askLog (NgGetServer sid) (\<lambda>h. g_GetServer w h sid) h = (Inr srv, h1)" and r1: "forNSG k nsg h h1"
    and ord: "getS (g_mapOrder w) h1 = (Inr ord, h2)"
    and m: "mergeStringArray ord (srv_SecGroups srv) (oldSecgroupIds nsg sid) ids = (merged, need)"
  from ord have h2: "h2 = h1" by simp
  show "k \<le> length h2" using longer[OF r1 assms(2)] h2 by simp
  from get h2 assms(2) have "NgGetServer sid (Inr srv) \<in> set (drop k h2)" by auto
  moreover have "wantedGroups (drop k h2) nsg (set ids)" using wantedGroups_more[OF assms(1) keeps[OF r1 assms(2)]] h2 by simp
  moreover from mergeStringArray_parts(1)[of ord "srv_SecGroups srv" "oldSecgroupIds nsg sid" ids] m
  have "set merged = (set (srv_SecGroups srv) - set (oldSecgroupIds nsg sid)) \<union> set ids" by simp
  ultimately show "writeFor nsg (drop k h2) (NgUpdateSecgroups sid merged (Inr ()))" by (auto simp: writeFor_def)
qed (simp_all add: writeFor_def)

lemma wantedGroups_none [simp]: "wantedGroups es nsg {}"
  by (simp add: wantedGroups_def)

lemma safe_for_detachServer:
  assumes "k \<le> length h"
  shows "safe (forNSG k nsg) (detachServer w nsg sid) h"
  unfolding detachServer_def
  by (intro safe_intro safe_for_instance safe_for_status) (auto simp: assms intro: longer)

lemma safe_for_releaseServer:
  assumes "k \<le> length h"
  shows "safe (forNSG k nsg) (releaseServer w nsg x) h"
  unfolding releaseServer_def by (intro safe_intro safe_for_instance) (simp_all add: assms)

lemma safe_for_updateServer:
  assumes "wantedGroups (drop k h) nsg (set ids)" and "k \<le> length h"
  shows "safe (forNSG k nsg) (updateServer w nsg ids sid) h"
  unfolding updateServer_def
  by (intro safe_intro safe_for_instance safe_for_status assms) (auto intro: longer assms(2))

text \<open>The managed group.\<close>

lemma findSecgroupByName_eq:
  "findSecgroupByName w name h = (r, h') \<longleftrightarrow>
     (case g_ListSecgroup w h of
        Inl err \<Rightarrow> r = Inl err \<and> h' = h @ [NgListSecgroup (Inl err)]
      | Inr gs \<Rightarrow> r = Inr (find (\<lambda>g. esg_Name g = name) gs) \<and> h' = h @ [NgListSecgroup (Inr gs)])"
  by (auto simp: findSecgroupByName_def ListSecurityGroups_def andThen_def split: sum.splits)

lemma findOrCreate_managed:
  assumes spec: "ns_ManagedSecurityGroup (nsg_Spec nsg) = Some spec" and run: "findOrCreateSecgroup w spec h = (Inr g, h')"
    and k: "k \<le> length h"
  shows "managedGroup (drop k h') nsg (esg_Id g)"
proof -
  from run obtain found h1 where f: "findSecgroupByName w (msg_Name spec) h = (Inr found, h1)"
    by (auto simp: findOrCreateSecgroup_def andThen_Inr_iff)
  then obtain gs where gs: "h1 = h @ [NgListSecgroup (Inr gs)]" "found = find (\<lambda>g. esg_Name g = msg_Name spec) gs"
    by (auto simp: findSecgroupByName_eq split: sum.splits)
  show ?thesis
  proof (cases found)
    case None
    with run f obtain made h2 d where "CreateSecurityGroup w (msg_Name spec) d h1 = (Inr made, h2)"
      "GetSecurityGroup w (esg_Id made) h2 = (Inr g, h')"
      by (auto simp: findOrCreateSecgroup_def andThen_Inr_iff Let_def)
    then have "NgCreateSecgroup (msg_Name spec) d (Inr made) \<in> set (drop k h')" "NgGetSecgroup (esg_Id made) (Inr g) \<in> set (drop k h')"
      using k gs by (auto simp: CreateSecurityGroup_def GetSecurityGroup_def)
    with spec show ?thesis unfolding managedGroup_def by blast
  next
    case (Some g')
    with run f have "g' = g" "h' = h1" by (auto simp: findOrCreateSecgroup_def andThen_Inr_iff)
    moreover from Some gs have "g' \<in> set gs" "esg_Name g' = msg_Name spec" by (auto simp: find_Some_iff)
    moreover have "NgListSecgroup (Inr gs) \<in> set (drop k h1)" using k gs by simp
    ultimately show ?thesis using spec unfolding managedGroup_def by blast
  qed
qed

lemma safe_for_findOrCreate:
  assumes spec: "ns_ManagedSecurityGroup (nsg_Spec nsg) = Some spec" and k: "k \<le> length h"
  shows "safe (forNSG k nsg) (findOrCreateSecgroup w spec) h"
proof -
  have list: "safe (forNSG k nsg) (findSecgroupByName w name) h" for name
    unfolding findSecgroupByName_def ListSecurityGroups_def
    by (intro safe_intro safe_for_ask) (simp add: writeFor_def)
  have create: "writeFor nsg (drop k h1) (NgCreateSecgroup (msg_Name spec) d r)"
    if "wrapErr f (findSecgroupByName w (msg_Name spec)) h = (Inr None, h1)" for f h1 d r
  proof -
    from that obtain gs where "h1 = h @ [NgListSecgroup (Inr gs)]" "find (\<lambda>g. esg_Name g = msg_Name spec) gs = None"
      by (auto simp: findSecgroupByName_eq split: sum.splits)
    with spec k show ?thesis by (auto simp: writeFor_def find_None_iff intro!: exI[of _ gs])
  qed
  show ?thesis
    unfolding findOrCreateSecgroup_def CreateSecurityGroup_def GetSecurityGroup_def
    by (intro safe_intro safe_for_ask list) (auto intro: create simp: writeFor_def[of _ _ "NgGetSecgroup _ _"])
qed

lemma compareSecgroupRule_writes:
  assumes "compareSecgroupRule rules new = (needDelete, needCreate)"
  shows "x \<in> set needDelete \<Longrightarrow> x \<in> set rules \<and> (\<forall>n \<in> set new. \<forall>r. find (ruleMatches n) rules = Some r \<longrightarrow> er_Id r \<noteq> er_Id x)"
    and "n \<in> set needCreate \<Longrightarrow> n \<in> set new \<and> (\<forall>r \<in> set rules. \<not> ruleMatches n r)"
  using assms by (fastforce simp: compareSecgroupRule_def Let_def find_None_iff split: option.splits)+

lemma safe_for_ensureRules:
  assumes "ns_ManagedSecurityGroup (nsg_Spec nsg) = Some spec" and "managedGroup (drop k h) nsg gid" and "k \<le> length h"
  shows "safe (forNSG k nsg) (ensureRules w gid (msg_Rules spec)) h"
proof -
  have known: "k \<le> length h' \<and> managedGroup (drop k h') nsg gid \<and> NgListRules gid (Inr rules) \<in> set (drop k h')"
    if "wrapErr f (askLog (NgListRules gid) (\<lambda>h. g_ListRules w h gid)) h = (Inr rules, h1)" "addsR id P h1 h'" for f P rules h1 h'
  proof -
    from that(1) assms(3) have 1: "k \<le> length h1" "set (drop k h) \<subseteq> set (drop k h1)" "NgListRules gid (Inr rules) \<in> set (drop k h1)" by auto
    with longer[OF that(2)] keeps[OF that(2)] managedGroup_more[OF assms(2)] show ?thesis by blast
  qed
  show ?thesis
    unfolding ensureRules_def nsg_calls
  proof (intro safe_intro safe_for_ask)
    fix rules h1 needDelete needCreate x h2
    assume ls: "wrapErr (errorf (''failed to list rules of secgroup '' @ gid)) (askLog (NgListRules gid) (\<lambda>h. g_ListRules w h gid)) h = (Inr rules, h1)"
      and c: "compareSecgroupRule rules (msg_Rules spec) = (needDelete, needCreate)" and x: "x \<in> set needDelete" and r: "forNSG k nsg h1 h2"
    from known[OF ls r] compareSecgroupRule_writes(1)[OF c x] assms(1)
    show "writeFor nsg (drop k h2) (NgDeleteRule gid (er_Id x) (g_DeleteRule w h2 gid (er_Id x)))"
      by (auto simp: writeFor_def)
  next
    fix rules h1 needDelete needCreate u h2 x h3
    assume ls: "wrapErr (errorf (''failed to list rules of secgroup '' @ gid)) (askLog (NgListRules gid) (\<lambda>h. g_ListRules w h gid)) h = (Inr rules, h1)"
      and c: "compareSecgroupRule rules (msg_Rules spec) = (needDelete, needCreate)" and x: "x \<in> set needCreate"
      and r: "forNSG k nsg h1 h2" "forNSG k nsg h2 h3"
    from known[OF ls addsR_trans[OF r]] compareSecgroupRule_writes(2)[OF c x] assms(1)
    show "writeFor nsg (drop k h3) (NgCreateRule gid x (g_CreateRule w h3 gid x))"
      by (auto simp: writeFor_def)
  qed (simp add: writeFor_def)
qed

lemma safe_for_doEnsure:
  assumes "k \<le> length h"
  shows "safe (forNSG k nsg) (doEnsureManagedSecurityGroup w nsg) h"
  unfolding doEnsureManagedSecurityGroup_def
  using assms by (intro safe_intro safe_for_findOrCreate safe_for_ensureRules)
    (auto intro: findOrCreate_managed longer)

lemma doEnsure_id:
  assumes "doEnsureManagedSecurityGroup w nsg h = (Inr (mid, err), h')" and "k \<le> length h"
  shows "mid = None \<or> (\<exists>gid. mid = Some gid \<and> managedGroup (drop k h') nsg gid)"
proof (cases "ns_ManagedSecurityGroup (nsg_Spec nsg)")
  case None
  with assms show ?thesis by (simp add: doEnsureManagedSecurityGroup_def)
next
  case (Some spec)
  obtain r h1 where f: "findOrCreateSecgroup w spec h = (r, h1)" by (cases "findOrCreateSecgroup w spec h")
  show ?thesis
  proof (cases r)
    case (Inl e)
    with assms Some f show ?thesis by (simp add: doEnsureManagedSecurityGroup_def andThen_def attempt_def)
  next
    case (Inr g)
    have k1: "k \<le> length h1" using longer[OF adds.safeD[OF safe_for_findOrCreate[OF Some assms(2)] f] assms(2)] .
    have m: "managedGroup (drop k h1) nsg (esg_Id g)" using findOrCreate_managed[OF Some _ assms(2)] f Inr by simp
    obtain r' h2 where e: "ensureRules w (esg_Id g) (msg_Rules spec) h1 = (r', h2)"
      by (cases "ensureRules w (esg_Id g) (msg_Rules spec) h1")
    with assms(1) Some f Inr have "mid = Some (esg_Id g)" "h' = h2"
      by (auto simp: doEnsureManagedSecurityGroup_def andThen_def attempt_def)
    with managedGroup_more[OF m keeps[OF adds.safeD[OF safe_for_ensureRules[OF Some m k1] e] k1]] show ?thesis by blast
  qed
qed

lemma safe_for_ensureManaged:
  assumes "k \<le> length h"
  shows "safe (forNSG k nsg) (ensureManagedSecurityGroup w nsg) h"
  unfolding ensureManagedSecurityGroup_def
  by (intro safe_intro safe_for_doEnsure safe_for_status) (auto intro: longer assms)

lemma ensureManaged_id:
  assumes "ensureManagedSecurityGroup w nsg h = (Inr mid, h')" and "k \<le> length h"
  shows "mid = None \<or> (\<exists>gid. mid = Some gid \<and> managedGroup (drop k h') nsg gid)"
proof -
  from assms(1) obtain sid err h1 where d0: "doEnsureManagedSecurityGroup w nsg h = (Inr (sid, err), h1)"
    by (auto simp: ensureManagedSecurityGroup_def andThen_Inr_iff)
  obtain p h2 where s0: "statusAddStatusManagedSecurityGroup w nsg sid err h1 = (p, h2)"
    by (cases "statusAddStatusManagedSecurityGroup w nsg sid err h1")
  from assms(1) d0 s0 have same: "sid = mid" "h2 = h'"
    by (auto simp: ensureManagedSecurityGroup_def andThen_def attempt_def split: option.splits sum.splits)
  from d0 s0 same have d: "doEnsureManagedSecurityGroup w nsg h = (Inr (mid, err), h1)"
    and s: "snd (statusAddStatusManagedSecurityGroup w nsg mid err h1) = h'" by simp_all
  have k1: "k \<le> length h1" using longer[OF adds.safeD[OF safe_for_doEnsure[OF assms(2)] d] assms(2)] .
  have "forNSG k nsg h1 h'" using safe_for_status(2)[OF k1, of nsg w mid err] unfolding safe_def s .
  from keeps[OF this k1] have "managedGroup (drop k h1) nsg gid \<Longrightarrow> managedGroup (drop k h') nsg gid" for gid
    by (rule managedGroup_more[rotated])
  with doEnsure_id[OF d assms(2)] show ?thesis by auto
qed

lemma wantedGroups_needAttach:
  assumes "mid = None \<or> (\<exists>gid. mid = Some gid \<and> managedGroup es nsg gid)"
  shows "wantedGroups es nsg (set (needAttachSecgroupIds nsg mid))"
  using assms by (auto simp: wantedGroups_def needAttachSecgroupIds_def)

lemma safe_for_cleanupOld:
  assumes "k \<le> length h"
  shows "safe (forNSG k nsg) (cleanupOldManaged w nsg mid) h"
proof -
  have "mg_Id (gs_ManagedSecurityGroup (nsg_Status nsg)) = Some (deref (mg_Id (gs_ManagedSecurityGroup (nsg_Status nsg))))"
    if "nonempty (mg_Id (gs_ManagedSecurityGroup (nsg_Status nsg)))"
    using that by (cases "mg_Id (gs_ManagedSecurityGroup (nsg_Status nsg))") auto
  then show ?thesis
    unfolding cleanupOldManaged_def
    by (intro safe_intro safe_for_deleteIfUnused safe_for_status) (auto intro: longer assms)
qed

lemma safe_for_servers:
  assumes "wantedGroups (drop k h) nsg (set (needAttachSecgroupIds nsg mid))" and "k \<le> length h"
  shows "safe (forNSG k nsg) (ensureServerSecurityGroups w nsg nodeInfos mid) h"
proof -
  have later: "k \<le> length h' \<and> wantedGroups (drop k h') nsg (set (needAttachSecgroupIds nsg mid))" if "addsR id P h h'" for P h'
    using longer[OF that assms(2)] wantedGroups_more[OF assms(1) keeps[OF that assms(2)]] by simp
  show ?thesis
    unfolding ensureServerSecurityGroups_def Let_def
    by (intro safe_intro safe_for_detachServer safe_for_updateServer safe_for_cleanupOld)
      (use later in \<open>blast intro: addsR_trans\<close>)+
qed

lemma safe_for_ensureSelectedNodes:
  assumes "k \<le> length h"
  shows "safe (forNSG k nsg) (ensureSelectedNodes w nsg) h"
  unfolding ensureSelectedNodes_def listNodeBySelector_def ListNodes_def
  using assms by (intro safe_intro safe_for_ask safe_for_status) (auto simp: writeFor_def intro: longer)

lemma safe_for_ensureNSG:
  assumes "k \<le> length h"
  shows "safe (forNSG k nsg) (ensureNSG w nsg) h"
  unfolding ensureNSG_def
proof (intro safe_intro safe_for_ensureManaged safe_for_ensureSelectedNodes safe_for_servers assms)
  fix mid h1 infos h2
  assume m: "ensureManagedSecurityGroup w nsg h = (Inr mid, h1)" and r: "forNSG k nsg h h1"
  show k1: "k \<le> length h1" by (rule longer[OF r assms])
  assume r2: "forNSG k nsg h1 h2"
  show "k \<le> length h2" by (rule longer[OF r2 k1])
  show "wantedGroups (drop k h2) nsg (set (needAttachSecgroupIds nsg mid))"
    using wantedGroups_needAttach[OF ensureManaged_id[OF m assms]] wantedGroups_more keeps[OF r2 k1] by blast
qed

section \<open>The use cases\<close>

text \<open>A call of a run on \<open>ns/n\<close>: the first read, or one that \<open>writeFor\<close> explains.\<close>

definition nsgWrite :: "string \<Rightarrow> string \<Rightarrow> nsgEvent list \<Rightarrow> nsgEvent \<Rightarrow> bool" where
  "nsgWrite ns n es e \<longleftrightarrow> (\<exists>r. e = NgGetNSG ns n r) \<or> (\<exists>nsg. NgGetNSG ns n (Inr nsg) \<in> set es \<and> writeFor nsg es e)"

lemma safe_write_for:
  assumes "safe (forNSG k nsg) m h" and "NgGetNSG ns n (Inr nsg) \<in> set (drop k h)" and "k \<le> length h"
  shows "safe (addsR id (ofRun k (nsgWrite ns n))) m h"
  using assms by (intro safe_adds_from[OF assms(1)]) (auto simp: ofRun_def nsgWrite_def)

lemma safe_write_get: "safe (addsR id (ofRun k (nsgWrite ns n))) (askLog (NgGetNSG ns n) f) h"
  by (rule safe_adds_askLog) (simp add: ofRun_def nsgWrite_def)

lemma safe_write_Ensure:
  assumes "k \<le> length h"
  shows "safe (addsR id (ofRun k (nsgWrite ns n))) (EnsureNodeSecurityGroupUseCase w ns n) h"
  unfolding EnsureNodeSecurityGroupUseCase_def nsgIgnoreNotFound_def GetNodeSecurityGroup_def
proof (intro safe_intro safe_write_get)
  fix got h1 nsg
  assume "attempt (askLog (NgGetNSG ns n) (\<lambda>h. g_GetNSG w h ns n)) h = (Inr got, h1)" and "got = Inr nsg"
  with assms have h1: "k \<le> length h1" "NgGetNSG ns n (Inr nsg) \<in> set (drop k h1)" by auto
  then show "safe (addsR id (ofRun k (nsgWrite ns n))) (ensureNSG w nsg) h1"
    by (intro safe_write_for[OF safe_for_ensureNSG])
  fix r h2 now h3
  assume r: "addsR id (ofRun k (nsgWrite ns n)) h1 h2" "addsR id (ofRun k (nsgWrite ns n)) h2 h3"
  from longer[OF addsR_trans[OF r] h1(1)] keeps[OF addsR_trans[OF r] h1(1)] h1(2)
  show "safe (addsR id (ofRun k (nsgWrite ns n)))
     (PatchMutateStatusNodeSecurityGroup w nsg (mutOutcome w (om_Generation (nsg_Meta nsg)) now r)) h3" for r
    by (intro safe_write_for[OF safe_for_PatchMutate]) auto
qed

lemma safe_for_release_all:
  assumes "k \<le> length h"
  shows "safe (forNSG k nsg) (collectFailures (releaseServer w nsg) xs) h"
  by (intro safe_intro safe_for_releaseServer) (auto intro: longer assms)

lemma safe_write_Delete:
  assumes "k \<le> length h"
  shows "safe (addsR id (ofRun k (nsgWrite ns n))) (DeleteNodeSecurityGroupUseCase w ns n) h"
  unfolding DeleteNodeSecurityGroupUseCase_def nsgIgnoreNotFound_def GetNodeSecurityGroup_def Let_def
proof (intro safe_intro safe_write_get)
  fix got h1 nsg
  assume "attempt (askLog (NgGetNSG ns n) (\<lambda>h. g_GetNSG w h ns n)) h = (Inr got, h1)" and "got = Inr nsg"
  with assms have h1: "k \<le> length h1" "NgGetNSG ns n (Inr nsg) \<in> set (drop k h1)" by auto
  show "safe (addsR id (ofRun k (nsgWrite ns n))) (releaseServer w nsg x) h2" if "addsR id (ofRun k (nsgWrite ns n)) h1 h2" for x h2
    using longer[OF that h1(1)] keeps[OF that h1(1)] h1(2)
    by (intro safe_write_for[OF safe_for_releaseServer]) auto
  fix y h2
  assume r: "addsR id (ofRun k (nsgWrite ns n)) h1 h2" and ne: "nonempty (mg_Id (gs_ManagedSecurityGroup (nsg_Status nsg)))"
  from ne have "mg_Id (gs_ManagedSecurityGroup (nsg_Status nsg)) = Some (deref (mg_Id (gs_ManagedSecurityGroup (nsg_Status nsg))))"
    by (cases "mg_Id (gs_ManagedSecurityGroup (nsg_Status nsg))") auto
  with longer[OF r h1(1)] keeps[OF r h1(1)] h1(2)
  show "safe (addsR id (ofRun k (nsgWrite ns n)))
     (deleteManagedSecurityGroupIfUnused w (deref (mg_Id (gs_ManagedSecurityGroup (nsg_Status nsg))))) h2"
    by (intro safe_write_for[OF safe_for_deleteIfUnused]) auto
qed

section \<open>Every call of a reconcile\<close>

text \<open>What a run has to see before it says that nothing of a NodeSecurityGroup is left on a server.\<close>

definition takenOff :: "nsgEvent list \<Rightarrow> NodeSecurityGroup \<Rightarrow> string \<Rightarrow> bool" where
  "takenOff es nsg sid \<longleftrightarrow>
     (\<exists>err. NgGetServer sid (Inl err) \<in> set es \<and> IsServerNotFound err)
     \<or> (\<exists>srv. NgGetServer sid (Inr srv) \<in> set es
          \<and> (set (srv_SecGroups srv) \<inter> set (oldSecgroupIds nsg sid) = {}
             \<or> (\<exists>ids. NgUpdateSecgroups sid ids (Inr ()) \<in> set es \<and> set ids \<inter> set (oldSecgroupIds nsg sid) = {})))"

definition managedGone :: "nsgEvent list \<Rightarrow> string \<Rightarrow> bool" where
  "managedGone es gid \<longleftrightarrow>
     (\<exists>err. NgGetSecgroup gid (Inl err) \<in> set es \<and> IsSecurityGroupNotFound err)
     \<or> (\<exists>sids. sids \<noteq> [] \<and> NgListServers gid (Inr sids) \<in> set es)
     \<or> NgDeleteSecgroup gid (Inr ()) \<in> set es"

definition nsgReleased :: "nsgWorld \<Rightarrow> string \<Rightarrow> string \<Rightarrow> nsgEvent list \<Rightarrow> bool" where
  "nsgReleased w ns n es \<longleftrightarrow>
     (\<exists>err. NgGetNSG ns n (Inl err) \<in> set es \<and> g_IsNotFound w err)
     \<or> (\<exists>nsg. NgGetNSG ns n (Inr nsg) \<in> set es
          \<and> (\<forall>x \<in> set (gs_ServerSecurityGroups (nsg_Status nsg)). takenOff es nsg (sg_ServerId x))
          \<and> (let managed = mg_Id (gs_ManagedSecurityGroup (nsg_Status nsg)) in nonempty managed \<longrightarrow> managedGone es (deref managed)))"

lemma takenOff_more: "takenOff es nsg sid \<Longrightarrow> set es \<subseteq> set es' \<Longrightarrow> takenOff es' nsg sid"
  unfolding takenOff_def by blast

lemma nsgReleased_more: "nsgReleased w ns n es \<Longrightarrow> set es \<subseteq> set es' \<Longrightarrow> nsgReleased w ns n es'"
  unfolding nsgReleased_def managedGone_def Let_def by (blast intro: takenOff_more)

lemma tryUpdate_done:
  assumes "tryUpdateSecGroups w sid ids err tries h = (Inr (), h')"
  shows "\<exists>pre. h' = h @ pre @ [NgUpdateSecgroups sid ids (Inr ())]"
  using assms
proof (induction tries arbitrary: h err)
  case (Suc tries)
  show ?case
  proof (cases "g_UpdateSecgroups w h sid ids")
    case (Inl e)
    with Suc.prems have "tryUpdateSecGroups w sid ids e tries (h @ [NgUpdateSecgroups sid ids (Inl e)]) = (Inr (), h')"
      by (simp add: andThen_def attempt_def split: if_splits)
    from Suc.IH[OF this] show ?thesis by auto
  next
    case (Inr u)
    with Suc.prems show ?thesis by (auto simp: andThen_def attempt_def)
  qed
qed simp

lemma poll_extends: "pollServerActive w sid steps h = (r, h') \<Longrightarrow> set (drop k h) \<subseteq> set (drop k h')" if "k \<le> length h"
  using adds.safeD[OF safe_for_wait] keeps that by blast

lemma not_wrapped_notFound: "\<not> IsServerNotFound (errorf (CHR ''f'' # text) e)"
  by (simp add: IsServerNotFound_def errorf_def HasPrefix_def)

lemma wrapErr_Inl_iff: "wrapErr f m s = (Inl e, s') \<longleftrightarrow> (\<exists>e0. m s = (Inl e0, s') \<and> e = f e0)"
  by (auto simp: wrapErr_def split: prod.splits sum.splits)

lemma instance_takenOff:
  assumes run: "ensureSecgroupForInstance w nsg sid [] h = (r, h')" and k: "k \<le> length h"
    and ok: "case r of Inl err \<Rightarrow> IsServerNotFound err | Inr _ \<Rightarrow> True"
  shows "takenOff (drop k h') nsg sid"
proof (cases "g_GetServer w h sid")
  case (Inl err)
  with run have "r = Inl err" "h' = h @ [NgGetServer sid (Inl err)]"
    by (simp_all add: ensureSecgroupForInstance_def GetServerByID_def andThen_def)
  with ok k show ?thesis by (auto simp: takenOff_def)
next
  case (Inr srv)
  define h1 where "h1 = h @ [NgGetServer sid (Inr srv)]"
  obtain merged need where m: "mergeStringArray (g_mapOrder w h1) (srv_SecGroups srv) (oldSecgroupIds nsg sid) [] = (merged, need)"
    by (cases "mergeStringArray (g_mapOrder w h1) (srv_SecGroups srv) (oldSecgroupIds nsg sid) []")
  from run Inr m have rest: "(if \<not> need then returnM () else
      andThen (wrapErr (errorf (''failed to update security groups of instance '' @ sid)) (UpdateSecGroupsOfServer w sid merged)) (\<lambda>_.
        wrapErr (errorf (''failed to wait for server '' @ sid @ '' active'')) (WaitForServerActive w sid))) h1 = (r, h')"
    by (simp add: ensureSecgroupForInstance_def GetServerByID_def andThen_def h1_def)
  have seen: "NgGetServer sid (Inr srv) \<in> set (drop k h1)" using k by (simp add: h1_def)
  show ?thesis
  proof (cases need)
    case False
    with m mergeStringArray_unchanged[of "g_mapOrder w h1" "srv_SecGroups srv" "oldSecgroupIds nsg sid" "[]"]
    have "set (srv_SecGroups srv) \<inter> set (oldSecgroupIds nsg sid) = {}" by auto
    with False rest seen show ?thesis by (auto simp: takenOff_def)
  next
    case True
    have rest': "andThen (wrapErr (errorf (''failed to update security groups of instance '' @ sid)) (UpdateSecGroupsOfServer w sid merged)) (\<lambda>_.
        wrapErr (errorf (''failed to wait for server '' @ sid @ '' active'')) (WaitForServerActive w sid)) h1 = (r, h')"
      using rest True by simp
    from ok have "r = Inr ()"
    proof (cases r)
      case (Inl e)
      with rest' ok show ?thesis by (auto simp: andThen_Inl_iff wrapErr_Inl_iff not_wrapped_notFound)
    qed simp
    with rest' obtain h2 where up: "UpdateSecGroupsOfServer w sid merged h1 = (Inr (), h2)" and wait: "WaitForServerActive w sid h2 = (Inr (), h')"
      by (auto simp: andThen_Inr_iff)
    from tryUpdate_done[OF up[unfolded UpdateSecGroupsOfServer_def]] obtain pre
      where h2: "h2 = h1 @ pre @ [NgUpdateSecgroups sid merged (Inr ())]" by blast
    then have "k \<le> length h2" using k by (simp add: h1_def)
    from poll_extends[OF this wait[unfolded WaitForServerActive_def]] h2 seen k
    have "NgGetServer sid (Inr srv) \<in> set (drop k h')" "NgUpdateSecgroups sid merged (Inr ()) \<in> set (drop k h')"
      by (auto simp: h1_def)
    moreover have "set merged \<inter> set (oldSecgroupIds nsg sid) = {}"
      using mergeStringArray_parts(1)[of "g_mapOrder w h1" "srv_SecGroups srv" "oldSecgroupIds nsg sid" "[]"] m by auto
    ultimately show ?thesis unfolding takenOff_def by blast
  qed
qed

lemma releaseServer_takenOff:
  assumes run: "releaseServer w nsg x h = (Inr (), h')" and k: "k \<le> length h"
  shows "takenOff (drop k h') nsg (sg_ServerId x)"
proof -
  obtain r h1 where i: "ensureSecgroupForInstance w nsg (sg_ServerId x) [] h = (r, h1)"
    by (cases "ensureSecgroupForInstance w nsg (sg_ServerId x) [] h")
  with run have "h' = h1" "case r of Inl err \<Rightarrow> IsServerNotFound err | Inr _ \<Rightarrow> True"
    by (auto simp: releaseServer_def andThen_def attempt_def split: sum.splits if_splits)
  with instance_takenOff[OF i k] show ?thesis by simp
qed

lemma release_all_takenOff:
  assumes "collectFailures (releaseServer w nsg) xs h = (Inr (ys, []), h')" and "k \<le> length h" and "x \<in> set xs"
  shows "takenOff (drop k h') nsg (sg_ServerId x)"
  using assms
proof (induction xs arbitrary: h ys)
  case (Cons a xs)
  obtain r h1 where a: "releaseServer w nsg a h = (r, h1)" by (cases "releaseServer w nsg a h")
  obtain zs es h2 where l: "collectFailures (releaseServer w nsg) xs h1 = (Inr (zs, es), h2)"
    using collectFailures_total[of "releaseServer w nsg" xs h1] by (metis prod.collapse)
  from Cons.prems(1) a l have r: "r = Inr ()" "es = []" "h' = h2"
    by (auto simp: andThen_def attempt_def split: sum.splits)
  have k1: "k \<le> length h1" using longer[OF adds.safeD[OF safe_for_releaseServer[OF Cons.prems(2)] a] Cons.prems(2)] .
  have "set (drop k h1) \<subseteq> set (drop k h')" using keeps[OF adds.safeD[OF safe_for_release_all[OF k1] l] k1] r by simp
  with releaseServer_takenOff[OF a[unfolded r] Cons.prems(2)] takenOff_more
  have "takenOff (drop k h') nsg (sg_ServerId a)" by blast
  with Cons.IH[OF l[unfolded r(2) r(3)[symmetric]] k1] Cons.prems(3) show ?case by auto
qed simp

lemma deleteIfUnused_gone:
  assumes "deleteManagedSecurityGroupIfUnused w gid h = (Inr b, h')" and "k \<le> length h"
  shows "managedGone (drop k h') gid"
  using assms unfolding deleteManagedSecurityGroupIfUnused_def nsg_calls
  by (cases "g_GetSecgroup w h gid"; cases "g_ListServers w (h @ [NgGetSecgroup gid (g_GetSecgroup w h gid)]) gid")
    (auto simp: andThen_def attempt_def managedGone_def split: if_splits sum.splits)

lemma Delete_released:
  assumes run: "DeleteNodeSecurityGroupUseCase w ns n h = (Inr (), h')" and k: "k \<le> length h"
  shows "nsgReleased w ns n (drop k h')"
proof (cases "g_GetNSG w h ns n")
  case (Inl err)
  with run have "g_IsNotFound w err" "h' = h @ [NgGetNSG ns n (Inl err)]"
    by (auto simp: DeleteNodeSecurityGroupUseCase_def GetNodeSecurityGroup_def nsgIgnoreNotFound_def andThen_def attempt_def split: if_splits)
  with k show ?thesis by (auto simp: nsgReleased_def)
next
  case (Inr nsg)
  define h1 where "h1 = h @ [NgGetNSG ns n (Inr nsg)]"
  let ?xs = "gs_ServerSecurityGroups (nsg_Status nsg)" and ?managed = "mg_Id (gs_ManagedSecurityGroup (nsg_Status nsg))"
  have k1: "k \<le> length h1" using k by (simp add: h1_def)
  obtain ys errs h2 where l: "collectFailures (releaseServer w nsg) ?xs h1 = (Inr (ys, errs), h2)"
    using collectFailures_total[of "releaseServer w nsg" ?xs h1] by (metis prod.collapse)
  with run Inr have errs: "errs = []"
    and rest: "(if nonempty ?managed then andThen (deleteManagedSecurityGroupIfUnused w (deref ?managed)) (\<lambda>_. returnM ()) else returnM ()) h2 = (Inr (), h')"
    by (auto simp: DeleteNodeSecurityGroupUseCase_def GetNodeSecurityGroup_def andThen_def attempt_def h1_def Let_def split: if_splits)
  have r2: "forNSG k nsg h1 h2" by (rule adds.safeD[OF safe_for_release_all[OF k1] l])
  have k2: "k \<le> length h2" by (rule longer[OF r2 k1])
  have end_: "set (drop k h2) \<subseteq> set (drop k h') \<and> (nonempty ?managed \<longrightarrow> managedGone (drop k h') (deref ?managed))"
  proof (cases "nonempty ?managed")
    case True
    with rest obtain b where d: "deleteManagedSecurityGroupIfUnused w (deref ?managed) h2 = (Inr b, h')"
      by (auto simp: andThen_Inr_iff)
    from True have "?managed = Some (deref ?managed)" by (cases ?managed) auto
    from keeps[OF adds.safeD[OF safe_for_deleteIfUnused[OF this k2] d] k2] deleteIfUnused_gone[OF d k2] show ?thesis by simp
  next
    case False
    with rest show ?thesis by auto
  qed
  have "NgGetNSG ns n (Inr nsg) \<in> set (drop k h1)" using k by (simp add: h1_def)
  with keeps[OF r2 k1] end_ have get: "NgGetNSG ns n (Inr nsg) \<in> set (drop k h')" by blast
  have "takenOff (drop k h') nsg (sg_ServerId x)" if "x \<in> set ?xs" for x
    using release_all_takenOff[OF l[unfolded errs] k1 that] takenOff_more end_ by blast
  with get end_ show ?thesis unfolding nsgReleased_def Let_def by blast
qed

text \<open>
  A call of a reconcile: it explains itself as above; its finalizer is on the object before anything is
  changed for it; and the finalizer is taken off only when nothing of it is left on a server.
\<close>

definition guarded :: "string \<Rightarrow> string \<Rightarrow> nsgEvent list \<Rightarrow> bool" where
  "guarded ns n es \<longleftrightarrow> NgAddFinalizers NsgFinalizer (Inr ()) \<in> set es
     \<or> (\<exists>nsg. NgGetNSG ns n (Inr nsg) \<in> set es \<and> NsgFinalizer \<in> set (om_Finalizers (nsg_Meta nsg)))"

definition nsgCall :: "nsgWorld \<Rightarrow> string \<Rightarrow> string \<Rightarrow> nsgEvent list \<Rightarrow> nsgEvent \<Rightarrow> bool" where
  "nsgCall w ns n es e \<longleftrightarrow>
     (case e of
        NgGetNSG _ _ _ \<Rightarrow> True
      | NgRecord _ _ _ \<Rightarrow> True
      | NgAddFinalizers f _ \<Rightarrow> f = NsgFinalizer
      | NgRemoveFinalizers f _ \<Rightarrow> f = NsgFinalizer \<and> nsgReleased w ns n es
      | _ \<Rightarrow> nsgWrite ns n es e \<and> guarded ns n es)"

lemma safe_call_write:
  assumes "safe (addsR id (ofRun k (nsgWrite ns n))) m h" and "guarded ns n (drop k h)" and "k \<le> length h"
  shows "safe (addsR id (ofRun k (nsgCall w ns n))) m h"
proof (rule safe_adds_from[OF assms(1)])
  fix es e assume "ofRun k (nsgWrite ns n) (id h @ es) e"
  then have wr: "nsgWrite ns n (drop k h @ es) e" using assms(3) by (simp add: ofRun_def)
  moreover have "guarded ns n (drop k h @ es)" using assms(2) by (auto simp: guarded_def)
  ultimately show "ofRun k (nsgCall w ns n) (id h @ es) e"
    using assms(3) by (cases e) (auto simp: ofRun_def nsgCall_def nsgWrite_def writeFor_def)
qed

lemma safe_call_ask:
  "nsgCall w ns n (drop k h) (ev (f h)) \<Longrightarrow> safe (addsR id (ofRun k (nsgCall w ns n))) (askLog ev f) h"
  by (rule safe_adds_askLog) (simp add: ofRun_def)

lemma safe_call_report:
  assumes "safe (addsR id (ofRun k (nsgCall w ns n))) m h"
  shows "safe (addsR id (ofRun k (nsgCall w ns n))) (nsgReport key failed succeeded m) h"
  unfolding nsgReport_def by (intro safe_intro safe_call_ask assms) (simp_all add: nsgCall_def)

lemma safe_call_reconcileEnsure:
  assumes "k \<le> length h"
  shows "safe (addsR id (ofRun k (nsgCall w ns n))) (nsgReconcileEnsure w ns n) h"
  unfolding nsgReconcileEnsure_def nsgWithMetrics_def nsgAddFinalizers_def
proof (intro safe_intro safe_call_ask)
  fix u h1
  assume "wrapErr (\<lambda>err. fst (NewErrorWithMetrics err)) (askLog (NgAddFinalizers NsgFinalizer) (\<lambda>h. g_AddFinalizers w h NsgFinalizer)) h = (Inr u, h1)"
  with assms have "k \<le> length h1" "guarded ns n (drop k h1)" by (auto simp: guarded_def)
  then show "safe (addsR id (ofRun k (nsgCall w ns n))) (EnsureNodeSecurityGroupUseCase w ns n) h1"
    by (intro safe_call_write safe_write_Ensure)
qed (simp add: nsgCall_def)

lemma safe_call_reconcileDelete:
  assumes "k \<le> length h" and "NgGetNSG ns n (Inr nsg) \<in> set (drop k h)"
  shows "safe (addsR id (ofRun k (nsgCall w ns n))) (nsgReconcileDelete w ns n nsg) h"
  unfolding nsgReconcileDelete_def nsgWithMetrics_def nsgRemoveFinalizers_def
proof (intro safe_intro safe_call_ask safe_call_write safe_write_Delete)
  assume "\<not> NsgFinalizer \<notin> set (om_Finalizers (nsg_Meta nsg))"
  with assms(2) show "guarded ns n (drop k h)" by (auto simp: guarded_def)
  fix u h1
  assume "wrapErr (\<lambda>err. fst (NewErrorWithMetrics err)) (DeleteNodeSecurityGroupUseCase w ns n) h = (Inr u, h1)"
  then have "DeleteNodeSecurityGroupUseCase w ns n h = (Inr (), h1)" by simp
  from Delete_released[OF this assms(1)]
  show "nsgCall w ns n (drop k h1) (NgRemoveFinalizers NsgFinalizer (g_RemoveFinalizers w h1 NsgFinalizer))"
    by (simp add: nsgCall_def)
qed (rule assms(1))+


section \<open>Every server is looked at\<close>

abbreviation grows :: "nsgHistory \<Rightarrow> nsgHistory \<Rightarrow> bool" where
  "grows \<equiv> addsR id (\<lambda>_ _. True)"

lemma grows_ask: "safe grows (askLog ev f) h"
  by (rule safe_adds_askLog) simp

lemma grows_PatchMutate: "safe grows (PatchMutateStatusNodeSecurityGroup w nsg mutate) h"
  unfolding PatchMutateStatusNodeSecurityGroup_def GetNodeSecurityGroup_def by (intro safe_intro grows_ask)

lemma grows_tryUpdate: "safe grows (tryUpdateSecGroups w sid ids err tries) h"
  by (induction tries arbitrary: h err)
    (auto intro!: adds.safe_failM adds.safe_andThen adds.safe_attempt adds.safe_case_sum adds.safe_returnM adds.safe_if grows_ask)

lemma grows_poll: "safe grows (pollServerActive w sid steps) h"
  using safe_for_wait by (rule safe_adds_mono) simp

lemma andThen_attempt: "m s = (r, s1) \<Longrightarrow> andThen (attempt m) f s = f r s1"
  by (simp add: andThen_def attempt_def)

lemma growsE: "grows h h' \<Longrightarrow> (\<And>es. h' = h @ es \<Longrightarrow> thesis) \<Longrightarrow> thesis"
  by (auto simp: addsR_def)

text \<open>What follows the read of a server only adds to the history.\<close>

lemma instance_reads:
  assumes "ensureSecgroupForInstance w nsg sid ids h = (r, h')"
  shows "\<exists>a es. h' = h @ NgGetServer sid a # es"
proof (cases "g_GetServer w h sid")
  case (Inl err)
  with assms show ?thesis by (auto simp: ensureSecgroupForInstance_def GetServerByID_def andThen_def)
next
  case (Inr srv)
  let ?rest = "\<lambda>server. andThen (getS (g_mapOrder w)) (\<lambda>ord.
       case mergeStringArray ord (srv_SecGroups server) (oldSecgroupIds nsg sid) ids of
         (merged, isNeedUpdate) \<Rightarrow>
           if \<not> isNeedUpdate then returnM ()
           else andThen (wrapErr (errorf (''failed to update security groups of instance '' @ sid))
                  (UpdateSecGroupsOfServer w sid merged)) (\<lambda>_.
                wrapErr (errorf (''failed to wait for server '' @ sid @ '' active'')) (WaitForServerActive w sid)))"
  have "safe grows (?rest srv) (h @ [NgGetServer sid (Inr srv)])"
    unfolding UpdateSecGroupsOfServer_def WaitForServerActive_def by (intro safe_intro grows_tryUpdate grows_poll)
  moreover from assms Inr have "?rest srv (h @ [NgGetServer sid (Inr srv)]) = (r, h')"
    by (simp add: ensureSecgroupForInstance_def GetServerByID_def andThen_def[of "askLog _ _"])
  ultimately have "grows (h @ [NgGetServer sid (Inr srv)]) h'" by (rule adds.safeD)
  then show ?thesis by (auto elim!: growsE)
qed

definition looksAt :: "string \<Rightarrow> nsgHistory \<Rightarrow> nsgHistory \<Rightarrow> bool" where
  "looksAt sid h h' \<longleftrightarrow> (\<exists>pre a post. h' = h @ pre @ NgGetServer sid a # post)"

lemma looksAt_more: "looksAt sid h1 h2 \<Longrightarrow> grows h h1 \<Longrightarrow> grows h2 h3 \<Longrightarrow> looksAt sid h h3"
proof -
  assume "looksAt sid h1 h2" "grows h h1" "grows h2 h3"
  then obtain pre a post es es' where "h2 = h1 @ pre @ NgGetServer sid a # post" "h1 = h @ es" "h3 = h2 @ es'"
    by (auto simp: looksAt_def elim!: growsE)
  then have "h3 = h @ (es @ pre) @ NgGetServer sid a # (post @ es')" by simp
  then show ?thesis unfolding looksAt_def by blast
qed

lemma looksAt_now: "h1 = h @ NgGetServer sid a # es \<Longrightarrow> grows h1 h' \<Longrightarrow> looksAt sid h h'"
proof -
  assume "h1 = h @ NgGetServer sid a # es" "grows h1 h'"
  then obtain es' where "h' = h @ [] @ NgGetServer sid a # (es @ es')" by (auto elim!: growsE)
  then show ?thesis unfolding looksAt_def by blast
qed

lemma server_looked_at:
  "snd (detachServer w nsg sid h) = h' \<Longrightarrow> looksAt sid h h'"
  "snd (updateServer w nsg ids sid h) = h' \<Longrightarrow> looksAt sid h h'"
proof -
  obtain r h1 where i: "ensureSecgroupForInstance w nsg sid [] h = (r, h1)" by (cases "ensureSecgroupForInstance w nsg sid [] h")
  have "safe grows (case r of
       Inl err \<Rightarrow> if \<not> IsServerNotFound err then failM (serverError sid err)
                  else andThen (attempt (statusRemoveServerSecurityGroup w nsg sid)) (\<lambda>_. returnM ())
     | Inr _ \<Rightarrow> andThen (attempt (statusRemoveServerSecurityGroup w nsg sid)) (\<lambda>_. returnM ())) h1"
    unfolding statusRemoveServerSecurityGroup_def by (intro safe_intro grows_PatchMutate)
  moreover assume "snd (detachServer w nsg sid h) = h'"
  ultimately have "grows h1 h'" unfolding detachServer_def andThen_attempt[where m = "ensureSecgroupForInstance w nsg sid []", OF i] safe_def by simp
  with instance_reads[OF i] show "looksAt sid h h'" by (auto intro: looksAt_now)
next
  obtain r h1 where i: "ensureSecgroupForInstance w nsg sid ids h = (r, h1)" by (cases "ensureSecgroupForInstance w nsg sid ids h")
  have "safe grows (andThen (attempt (statusUpdateNodeSecurityGroup w nsg sid
                (case r of Inl err \<Rightarrow> Some err | Inr _ \<Rightarrow> None) ids)) (\<lambda>_.
       case r of Inl err \<Rightarrow> failM (serverError sid err) | Inr _ \<Rightarrow> returnM ())) h1"
    unfolding statusUpdateNodeSecurityGroup_def by (intro safe_intro grows_PatchMutate)
  moreover assume "snd (updateServer w nsg ids sid h) = h'"
  ultimately have "grows h1 h'" unfolding updateServer_def andThen_attempt[where m = "ensureSecgroupForInstance w nsg sid ids", OF i] safe_def by simp
  with instance_reads[OF i] show "looksAt sid h h'" by (auto intro: looksAt_now)
qed

lemma loop_looks_at:
  assumes each: "\<And>x h h'. snd (f x h) = h' \<Longrightarrow> looksAt x h h'"
    and "snd (collectFailures f xs h) = h'"
  shows "grows h h' \<and> (\<forall>x \<in> set xs. looksAt x h h')"
  using assms(2)
proof (induction xs arbitrary: h)
  case Nil
  then show ?case by (simp add: adds.R_refl)
next
  case (Cons a xs)
  obtain r h1 where a: "f a h = (r, h1)" by (cases "f a h")
  obtain zs es h2 where l: "collectFailures f xs h1 = (Inr (zs, es), h2)"
    using collectFailures_total[of f xs h1] by (metis prod.collapse)
  from Cons.prems a l have h': "h' = h2" by (auto simp: andThen_def attempt_def split: sum.splits)
  have "snd (collectFailures f xs h1) = h'" using l h' by simp
  from Cons.IH[OF this] have ih: "grows h1 h'" "\<forall>x \<in> set xs. looksAt x h1 h'" by blast+
  from each[of a h h1] a have "looksAt a h h1" by simp
  moreover from this have g: "grows h h1" by (auto simp: looksAt_def addsR_def)
  ultimately have "looksAt a h h'" using ih(1) looksAt_more[OF _ adds.R_refl] by blast
  moreover have "looksAt x h h'" if "x \<in> set xs" for x using ih(2) that looksAt_more[OF _ g adds.R_refl] by blast
  ultimately have "\<forall>x \<in> set (a # xs). looksAt x h h'" by simp
  with addsR_trans[OF g ih(1)] show ?case by (rule conjI)
qed


text \<open>A cloud and an API server that answer nothing but errors, and an object with one server on record.\<close>

definition exampleDown :: nsgWorld where
  "exampleDown = (let down = Inl (ErrorString ''unavailable'') in
     \<lparr>g_GetNSG = (\<lambda>_ _ _. Inl (ErrorString ''unavailable'')), g_PatchStatus = (\<lambda>_ _ _. down), g_ListNode = (\<lambda>_ _. Inl (ErrorString ''unavailable'')),
      g_ListSecgroup = (\<lambda>_. Inl (ErrorString ''unavailable'')), g_GetSecgroup = (\<lambda>_ _. Inl (ErrorString ''unavailable'')),
      g_CreateSecgroup = (\<lambda>_ _ _. Inl (ErrorString ''unavailable'')), g_DeleteSecgroup = (\<lambda>_ _. down),
      g_ListRules = (\<lambda>_ _. Inl (ErrorString ''unavailable'')), g_CreateRule = (\<lambda>_ _ _. down), g_DeleteRule = (\<lambda>_ _ _. down),
      g_ListServers = (\<lambda>_ _. Inl (ErrorString ''unavailable'')), g_GetServer = (\<lambda>_ _. Inl (ErrorString ''unavailable'')),
      g_UpdateSecgroups = (\<lambda>_ _ _. down), g_AddFinalizers = (\<lambda>_ _. down), g_RemoveFinalizers = (\<lambda>_ _. down),
      g_Now = (\<lambda>_. 0), g_mapOrder = (\<lambda>_. length), g_IsNotFound = (\<lambda>_. False), g_IsConflict = (\<lambda>_. False),
      g_ConflictRetries = 4, g_SetStatusCondition = (\<lambda>cs c. (True, c # cs))\<rparr>)"

definition exampleNSG :: "ObjectMeta \<Rightarrow> NodeSecurityGroup" where
  "exampleNSG meta = \<lparr>nsg_Meta = meta,
     nsg_Spec = \<lparr>ns_SelectNodeLabels = [], ns_AttachSecurityGroups = [''web''], ns_ManagedSecurityGroup = None\<rparr>,
     nsg_Status = zeroNSGStatus\<lparr>gs_ServerSecurityGroups := [\<lparr>sg_ServerId = ''ins-1'', sg_AttachedSecurityGroupIds = [], sg_Error = None\<rparr>]\<rparr>\<rparr>"


section \<open>What a failure forgets\<close>

text \<open>
  When the update of a server fails, the wanted groups are recorded as if they were attached, so the next
  run does not know what it had put on the server before: a group that is neither wanted nor in the new
  record stays on the server.
\<close>

lemma find_putServer: "find (\<lambda>x. sg_ServerId x = sg_ServerId new) (putServer new xs) = Some new"
  by (induction new xs rule: putServer.induct) auto

theorem failed_update_forgets:
  assumes "old \<in> set current" and "old \<notin> set wanted"
    and "nsg_Status nsg = snd (mutServer sid (Some err) wanted status)"
  shows "set (oldSecgroupIds nsg sid) \<subseteq> set wanted
    \<and> old \<in> set (fst (mergeStringArray ord current (oldSecgroupIds nsg sid) wanted))"
proof -
  have "set (oldSecgroupIds nsg sid) \<subseteq> set wanted"
    using find_putServer[of "\<lparr>sg_ServerId = sid, sg_AttachedSecurityGroupIds = wanted, sg_Error = Some err\<rparr>"]
    by (auto simp: oldSecgroupIds_def assms(3) mutServer_def Let_def StringSlicesEqualUnordered_def list_all_iff
        split: option.splits if_splits)
  with assms(1,2) show ?thesis by (auto simp: mergeStringArray_parts)
qed

text \<open>
  A run that cannot list the security groups writes an empty id over the one on record, and a deletion
  that reads this status leaves the managed group in the cloud.
\<close>

theorem failed_lookup_forgets_managed:
  assumes "ns_ManagedSecurityGroup (nsg_Spec nsg) = Some spec" and "g_ListSecgroup w h = Inl err"
  shows "fst (doEnsureManagedSecurityGroup w nsg h)
      = Inr (None, Some (errorf (''failed to find managed secgroup by name '' @ Quote (msg_Name spec)) err))
    \<and> mg_Id (gs_ManagedSecurityGroup (snd (mutManagedSecurityGroup None e status))) = None"
  using assms by (auto simp: doEnsureManagedSecurityGroup_def findOrCreateSecgroup_def findSecgroupByName_def
      ListSecurityGroups_def andThen_def attempt_def wrapErr_def mutManagedSecurityGroup_def)

end
