(* ===== verification/Json.thy ===== *)
theory Json
  imports Annotations
begin

text \<open>
  \<open>encoding/json\<close>, as far as annotations use it: the scanner of a text, and decoding into strings,
  integers, booleans, maps, slices and structs as \<open>json.Unmarshal\<close> does it, onto the value that is there
  already. A value of the wrong type leaves the variable as it is and decoding goes on; the error
  is only reported. A text that does not scan leaves everything as it is.

  The scanner is a recursive descent with fuel, two units per character of the text: on each level a
  call for the element and one for the value in it. Texts are UTF-8. Decoding a slice twice in one
  object (a duplicate key) reuses the elements that are there, not those beyond its length.
\<close>

section \<open>Scanning\<close>

datatype json =
    JNull
  | JBool bool
  | JNum string
  | JStr string
  | JArr "json list"
  | JObj "(string \<times> json) list"

definition isJsonSpace :: "char \<Rightarrow> bool" where
  "isJsonSpace c \<longleftrightarrow> c = CHR 0x20 \<or> c = CHR 0x09 \<or> c = CHR 0x0A \<or> c = CHR 0x0D"

definition skipSpace :: "string \<Rightarrow> string" where
  "skipSpace s = dropWhile isJsonSpace s"

definition hexValue :: "char \<Rightarrow> nat option" where
  "hexValue c =
     (let n = (of_char c :: nat)
      in if 48 \<le> n \<and> n \<le> 57 then Some (n - 48)
         else if 97 \<le> n \<and> n \<le> 102 then Some (n - 87)
         else if 65 \<le> n \<and> n \<le> 70 then Some (n - 55) else None)"

text \<open>The four digits of \<open>\u\<close>, and the text after them.\<close>

definition hex4 :: "string \<Rightarrow> (nat \<times> string) option" where
  "hex4 s =
     (let ds = map hexValue (take 4 s)
      in if length ds = 4 \<and> None \<notin> set ds then Some (foldl (\<lambda>v d. 16 * v + the d) 0 ds, drop 4 s) else None)"

definition encodeRune :: "nat \<Rightarrow> string" where
  "encodeRune r =
     (if r < 128 then [char_of r]
      else if r < 2048 then [char_of (192 + r div 64), char_of (128 + r mod 64)]
      else if r < 65536 then [char_of (224 + r div 4096), char_of (128 + r div 64 mod 64), char_of (128 + r mod 64)]
      else [char_of (240 + r div 262144), char_of (128 + r div 4096 mod 64), char_of (128 + r div 64 mod 64), char_of (128 + r mod 64)])"

definition replacementRune :: nat where "replacementRune = 65533"

text \<open>A rune from its UTF-16 form: a high surrogate takes the low one after it along.\<close>

definition runeOf :: "nat \<Rightarrow> string \<Rightarrow> string \<times> string" where
  "runeOf r s =
     (if r < 55296 \<or> 57344 \<le> r then (encodeRune r, s)
      else case (if r < 56320 \<and> take 2 s = [CHR 0x5C, CHR ''u''] then hex4 (drop 2 s) else None) of
        Some (lo, rest) \<Rightarrow>
          if 56320 \<le> lo \<and> lo < 57344 then (encodeRune (65536 + (r - 55296) * 1024 + (lo - 56320)), rest)
          else (encodeRune replacementRune, s)
      | None \<Rightarrow> (encodeRune replacementRune, s))"

definition simpleEscape :: "char \<Rightarrow> char option" where
  "simpleEscape c =
     (if c = CHR 0x22 \<or> c = CHR 0x5C \<or> c = CHR 0x2F then Some c
      else if c = CHR ''b'' then Some (CHR 0x08) else if c = CHR ''f'' then Some (CHR 0x0C)
      else if c = CHR ''n'' then Some (CHR 0x0A) else if c = CHR ''r'' then Some (CHR 0x0D)
      else if c = CHR ''t'' then Some (CHR 0x09) else None)"

text \<open>The rest of a string literal after its opening quote.\<close>

primrec scanString :: "nat \<Rightarrow> string \<Rightarrow> (string \<times> string) option" where
  "scanString 0 s = None"
| "scanString (Suc n) s =
     (case s of
        [] \<Rightarrow> None
      | c # r \<Rightarrow>
          if c = CHR 0x22 then Some ([], r)
          else if (of_char c :: nat) < 32 then None
          else if c \<noteq> CHR 0x5C then map_option (apfst (Cons c)) (scanString n r)
          else (case r of
             [] \<Rightarrow> None
           | e # r' \<Rightarrow>
               if e = CHR ''u'' then
                 (case hex4 r' of
                    None \<Rightarrow> None
                  | Some (v, r'') \<Rightarrow> (case runeOf v r'' of (u, r''') \<Rightarrow> map_option (apfst (append u)) (scanString n r''')))
               else (case simpleEscape e of
                  None \<Rightarrow> None
                | Some e' \<Rightarrow> map_option (apfst (Cons e')) (scanString n r'))))"

definition scanDigits1 :: "string \<Rightarrow> string option" where
  "scanDigits1 s = (case s of c # r \<Rightarrow> if is_digit c then Some (dropWhile is_digit r) else None | [] \<Rightarrow> None)"

text \<open>What is left of a text after the number it starts with.\<close>

definition afterInt :: "string \<Rightarrow> string option" where
  "afterInt s =
     (case (case s of c # r \<Rightarrow> if c = CHR ''-'' then r else s | [] \<Rightarrow> []) of
        [] \<Rightarrow> None
      | c # r \<Rightarrow> if c = CHR ''0'' then Some r else scanDigits1 (c # r))"

definition afterFraction :: "string \<Rightarrow> string option" where
  "afterFraction s = (case s of c # r \<Rightarrow> if c = CHR ''.'' then scanDigits1 r else Some s | [] \<Rightarrow> Some [])"

definition afterExponent :: "string \<Rightarrow> string option" where
  "afterExponent s =
     (case s of
        c # r \<Rightarrow>
          if c = CHR ''e'' \<or> c = CHR ''E''
          then scanDigits1 (case r of d # r' \<Rightarrow> if d = CHR ''+'' \<or> d = CHR ''-'' then r' else r | [] \<Rightarrow> [])
          else Some s
      | [] \<Rightarrow> Some [])"

definition scanNumber :: "string \<Rightarrow> (string \<times> string) option" where
  "scanNumber s =
     map_option (\<lambda>r. (take (length s - length r) s, r))
       (Option.bind (afterInt s) (\<lambda>r. Option.bind (afterFraction r) afterExponent))"

definition scanLiteral :: "string \<Rightarrow> json \<Rightarrow> string \<Rightarrow> (json \<times> string) option" where
  "scanLiteral lit v s = (if take (length lit) s = lit then Some (v, drop (length lit) s) else None)"

text \<open>\<open>depth\<close> is how many brackets may still be opened; \<open>encoding/json\<close> allows 10000.\<close>

fun scanValue :: "nat \<Rightarrow> nat \<Rightarrow> string \<Rightarrow> (json \<times> string) option"
  and scanElements :: "nat \<Rightarrow> nat \<Rightarrow> string \<Rightarrow> (json list \<times> string) option"
  and scanMembers :: "nat \<Rightarrow> nat \<Rightarrow> string \<Rightarrow> ((string \<times> json) list \<times> string) option"
where
  "scanValue 0 depth s = None"
| "scanValue (Suc n) depth s =
     (case skipSpace s of
        [] \<Rightarrow> None
      | c # r \<Rightarrow>
          if c = CHR 0x22 then map_option (apfst JStr) (scanString (length s) r)
          else if c = CHR ''['' then
            if depth = 0 then None
            else if take 1 (skipSpace r) = '']'' then Some (JArr [], drop 1 (skipSpace r))
            else map_option (apfst JArr) (scanElements n (depth - 1) r)
          else if c = CHR ''{'' then
            if depth = 0 then None
            else if take 1 (skipSpace r) = ''}'' then Some (JObj [], drop 1 (skipSpace r))
            else map_option (apfst JObj) (scanMembers n (depth - 1) r)
          else if c = CHR ''t'' then scanLiteral ''true'' (JBool True) (c # r)
          else if c = CHR ''f'' then scanLiteral ''false'' (JBool False) (c # r)
          else if c = CHR ''n'' then scanLiteral ''null'' JNull (c # r)
          else map_option (apfst JNum) (scanNumber (c # r)))"
| "scanElements 0 depth s = None"
| "scanElements (Suc n) depth s =
     (case scanValue n depth s of
        None \<Rightarrow> None
      | Some (v, r) \<Rightarrow>
          (case skipSpace r of
             [] \<Rightarrow> None
           | c # r' \<Rightarrow>
               if c = CHR '','' then map_option (apfst (Cons v)) (scanElements n depth r')
               else if c = CHR '']'' then Some ([v], r') else None))"
| "scanMembers 0 depth s = None"
| "scanMembers (Suc n) depth s =
     (case skipSpace s of
        [] \<Rightarrow> None
      | q # r \<Rightarrow>
          if q \<noteq> CHR 0x22 then None
          else case scanString (length s) r of
            None \<Rightarrow> None
          | Some (key, r1) \<Rightarrow>
              if take 1 (skipSpace r1) \<noteq> '':'' then None
              else case scanValue n depth (drop 1 (skipSpace r1)) of
                None \<Rightarrow> None
              | Some (v, r2) \<Rightarrow>
                  (case skipSpace r2 of
                     [] \<Rightarrow> None
                   | c # r' \<Rightarrow>
                       if c = CHR '','' then map_option (apfst (Cons (key, v))) (scanMembers n depth r')
                       else if c = CHR ''}'' then Some ([(key, v)], r') else None))"

definition scanFuel :: "string \<Rightarrow> nat" where
  "scanFuel s = 2 * length s + 1"

definition scanJson :: "string \<Rightarrow> json option" where
  "scanJson s =
     (case scanValue (scanFuel s) 10000 s of
        Some (v, r) \<Rightarrow> if skipSpace r = [] then Some v else None
      | None \<Rightarrow> None)"

section \<open>Decoding\<close>

definition decodeString :: "json \<Rightarrow> string \<Rightarrow> string" where
  "decodeString j s = (case j of JStr x \<Rightarrow> x | _ \<Rightarrow> s)"

definition decodeBool :: "json \<Rightarrow> bool \<Rightarrow> bool" where
  "decodeBool j b = (case j of JBool x \<Rightarrow> x | _ \<Rightarrow> b)"

definition decodeInt :: "json \<Rightarrow> int \<Rightarrow> int" where
  "decodeInt j i = (case j of JNum lit \<Rightarrow> (case ParseInt64 lit of Inr x \<Rightarrow> x | Inl _ \<Rightarrow> i) | _ \<Rightarrow> i)"

text \<open>A \<open>map[string]string\<close>, \<open>None\<close> is \<open>nil\<close>.\<close>

definition decodeStringMap :: "json \<Rightarrow> gomap option \<Rightarrow> gomap option" where
  "decodeStringMap j m =
     (case j of
        JNull \<Rightarrow> None
      | JObj members \<Rightarrow>
          Some (fold (\<lambda>(k, v) m. AList.update k (decodeString v []) m) members (case m of None \<Rightarrow> [] | Some m \<Rightarrow> m))
      | _ \<Rightarrow> m)"

text \<open>A slice; \<open>zero\<close> is the zero value of its elements.\<close>

definition decodeSlice :: "(json \<Rightarrow> 'a \<Rightarrow> 'a) \<Rightarrow> 'a \<Rightarrow> json \<Rightarrow> 'a list \<Rightarrow> 'a list" where
  "decodeSlice decode zero j xs =
     (case j of
        JNull \<Rightarrow> []
      | JArr js \<Rightarrow> map (\<lambda>(i, v). decode v (if i < length xs then xs ! i else zero)) (enumerate 0 js)
      | _ \<Rightarrow> xs)"

text \<open>A struct, by a function that decodes a member into the field of its name; names match in any case.\<close>

definition decodeStruct :: "(string \<Rightarrow> json \<Rightarrow> 'a \<Rightarrow> 'a) \<Rightarrow> json \<Rightarrow> 'a \<Rightarrow> 'a" where
  "decodeStruct setField j x = (case j of JObj members \<Rightarrow> fold (\<lambda>(k, v) x. setField (ToUpper k) v x) members x | _ \<Rightarrow> x)"

text \<open>
  Whether the annotation exists, and the variable afterwards. The error is not returned: its callers
  log it and go on with the variable.
\<close>

definition ParseJSONAnnotation ::
  "suffixAnnotationParser \<Rightarrow> string \<Rightarrow> gomap \<Rightarrow> ParseOption list \<Rightarrow> (json \<Rightarrow> 'a \<Rightarrow> 'a) \<Rightarrow> 'a \<Rightarrow> bool \<times> 'a" where
  "ParseJSONAnnotation p annotation annotations opts decode value =
     (case parseStringAnnotation p annotation annotations opts of
        None \<Rightarrow> (False, value)
      | Some (raw, _) \<Rightarrow> (True, case scanJson raw of None \<Rightarrow> value | Some j \<Rightarrow> decode j value))"

section \<open>The fuel is enough\<close>

lemma length_skipSpace: "length (skipSpace s) \<le> length s"
  by (simp add: skipSpace_def length_dropWhile_le)

lemma length_hex4: "hex4 s = Some (v, r) \<Longrightarrow> length r < length s"
  by (auto simp: hex4_def Let_def split: if_splits)

lemma length_runeOf: "runeOf v s = (u, r) \<Longrightarrow> length r \<le> length s"
proof -
  have "length r \<le> length s" if "hex4 (drop 2 s) = Some (lo, r)" for lo
    using length_hex4[OF that] by simp
  then show "runeOf v s = (u, r) \<Longrightarrow> length r \<le> length s"
    by (auto simp: runeOf_def split: if_splits option.splits)
qed

lemma scanString_fuel:
  "scanString n s = Some (x, r) \<Longrightarrow> length r < length s \<and> (\<forall>m. length s \<le> m \<longrightarrow> scanString m s = Some (x, r))"
proof (induction n arbitrary: s x r)
  case (Suc n)
  from Suc.prems obtain c t where s: "s = c # t" by (auto split: list.splits)
  have "length r < length s \<and> scanString (Suc k) s = Some (x, r)" if k: "length t \<le> k" for k
  proof -
    have IH: "length r < length t' \<and> scanString k t' = Some (y, r)" if "scanString n t' = Some (y, r)" "length t' \<le> length t" for t' y
      using Suc.IH[OF that(1)] that(2) k by auto
    have esc: "length r' \<le> length t1" if "hex4 t1 = Some (v, t2)" "runeOf v t2 = (u, r')" for t1 v t2 u r'
      using length_hex4[OF that(1)] length_runeOf[OF that(2)] by simp
    show ?thesis
    proof (cases "c = CHR 0x5C")
      case True
      with Suc.prems s obtain e t1 where t: "t = e # t1" by (auto split: list.splits)
      show ?thesis
      proof (cases "e = CHR ''u''")
        case u: True
        with Suc.prems s True t obtain v t2 w t3 y where
          h: "hex4 t1 = Some (v, t2)" "runeOf v t2 = (w, t3)" "scanString n t3 = Some (y, r)" "x = w @ y"
          by (auto split: option.splits prod.splits)
        with IH[OF h(3)] esc[OF h(1,2)] s True t u show ?thesis by auto
      qed (use Suc.prems s True t in \<open>auto split: option.splits dest!: IH\<close>)
    qed (use Suc.prems s in \<open>auto split: if_splits dest!: IH\<close>)
  qed
  then have k: "length t \<le> k \<Longrightarrow> length r < length s \<and> scanString (Suc k) s = Some (x, r)" for k .
  have "scanString m s = Some (x, r)" if "length s \<le> m" for m using k[of "m - 1"] that s by (cases m) auto
  with k[of "length t"] show ?case by auto
qed simp
lemma length_scanDigits1: "scanDigits1 s = Some r \<Longrightarrow> length r < length s"
  by (auto simp: scanDigits1_def less_Suc_eq_le length_dropWhile_le split: list.splits if_splits)

lemma length_scanNumber: "scanNumber s = Some (x, r) \<Longrightarrow> length r < length s"
proof -
  have i: "length r < length s" if "afterInt s = Some r" for s r
    using that length_scanDigits1 by (fastforce simp: afterInt_def split: list.splits if_splits)
  have f: "length r \<le> length s" if "afterFraction s = Some r" for s r
    using that length_scanDigits1 by (fastforce simp: afterFraction_def split: list.splits if_splits)
  have e: "length r \<le> length s" if "afterExponent s = Some r" for s r
    using that length_scanDigits1 by (fastforce simp: afterExponent_def split: list.splits if_splits)
  show "scanNumber s = Some (x, r) \<Longrightarrow> length r < length s"
    by (auto simp: scanNumber_def bind_eq_Some_conv dest!: i f e)
qed

lemma length_scanLiteral: "scanLiteral lit v s = Some (j, r) \<Longrightarrow> lit \<noteq> [] \<Longrightarrow> length r < length s"
  by (cases s) (auto simp: scanLiteral_def split: if_splits)

lemma after_space: "c # r = skipSpace s \<Longrightarrow> length r < length s"
  using length_skipSpace[of s] by (cases "skipSpace s") auto

lemma scan_fuel:
  "scanValue n d s = Some (v, r) \<Longrightarrow> length r < length s \<and> (\<forall>m. 2 * length s + 1 \<le> m \<longrightarrow> scanValue m d s = Some (v, r))"
  "scanElements n d s = Some (vs, r) \<Longrightarrow> length r < length s \<and> (\<forall>m. 2 * length s + 2 \<le> m \<longrightarrow> scanElements m d s = Some (vs, r))"
  "scanMembers n d s = Some (ms, r) \<Longrightarrow> length r < length s \<and> (\<forall>m. 2 * length s + 1 \<le> m \<longrightarrow> scanMembers m d s = Some (ms, r))"
proof (induction n d s and n d s and n d s arbitrary: v r and vs r and ms r rule: scanValue_scanElements_scanMembers.induct)
  case (2 n d s)
  from "2.prems" obtain c t where sp: "skipSpace s = c # t" by (auto split: list.splits)
  then have t: "length t < length s" using after_space[of c t s] by simp
  have short: "length (drop 1 (skipSpace t)) < length s" using t length_skipSpace[of t] by simp
  have "length r < length s \<and> scanValue (Suc k) d s = Some (v, r)" if k: "2 * length s \<le> k" for k
  proof -
    consider "c = CHR 0x22" | "c = CHR ''[''" | "c = CHR ''{''" | "c \<notin> {CHR 0x22, CHR ''['', CHR ''{''}" by blast
    then show ?thesis
    proof cases
      case 1
      with "2.prems" sp t show ?thesis by (auto dest!: scanString_fuel)
    next
      case 2
      have "length r < length t \<and> scanElements k (d - 1) t = Some (vs, r)" if "scanElements n (d - 1) t = Some (vs, r)" "d \<noteq> 0" "take 1 (skipSpace t) \<noteq> '']''" for vs
        using "2.IH"(1)[OF sp] 2 that k t by auto
      with "2.prems" sp t short 2 show ?thesis by (auto split: if_splits)
    next
      case 3
      have "length r < length t \<and> scanMembers k (d - 1) t = Some (ms, r)" if "scanMembers n (d - 1) t = Some (ms, r)" "d \<noteq> 0" "take 1 (skipSpace t) \<noteq> ''}''" for ms
        using "2.IH"(2)[OF sp] 3 that k t by auto
      with "2.prems" sp t short 3 show ?thesis by (auto split: if_splits)
    next
      case 4
      with "2.prems" sp t length_skipSpace[of s] show ?thesis
        by (auto split: if_splits dest!: length_scanNumber length_scanLiteral)
    qed
  qed
  note k = this
  have "scanValue m d s = Some (v, r)" if "2 * length s + 1 \<le> m" for m using k[of "m - 1"] that by (cases m) auto
  with k[of "2 * length s"] show ?case by auto
next
  case (4 n d s)
  from "4.prems" obtain v r1 c t where one: "scanValue n d s = Some (v, r1)" and sp: "skipSpace r1 = c # t"
    by (auto split: option.splits list.splits)
  from "4.IH"(1)[OF one] have r1: "length r1 < length s" "\<And>m. 2 * length s + 1 \<le> m \<Longrightarrow> scanValue m d s = Some (v, r1)" by auto
  have t: "length t < length r1" using after_space[of c t r1] sp by simp
  have "length r < length s \<and> scanElements (Suc k) d s = Some (vs, r)" if k: "2 * length s + 1 \<le> k" for k
  proof -
    have "length r < length t \<and> scanElements k d t = Some (vs', r)" if "scanElements n d t = Some (vs', r)" "c = CHR '',''" for vs'
      using "4.IH"(2)[OF one refl sp that(2,1)] k r1(1) t by auto
    with "4.prems" one sp r1 t k show ?thesis by (auto split: if_splits)
  qed
  note k = this
  have "scanElements m d s = Some (vs, r)" if "2 * length s + 2 \<le> m" for m using k[of "m - 1"] that by (cases m) auto
  with k[of "2 * length s + 1"] show ?case by auto
next
  case (6 n d s)
  from "6.prems" obtain t key r1 v r2 c u where sp: "skipSpace s = CHR 0x22 # t" and key: "scanString (length s) t = Some (key, r1)"
    and col: "take 1 (skipSpace r1) = '':''" and one: "scanValue n d (drop 1 (skipSpace r1)) = Some (v, r2)" and sp2: "skipSpace r2 = c # u"
    by (auto split: list.splits if_splits option.splits)
  from scanString_fuel[OF key] after_space[of "CHR 0x22" t s] sp have r1: "length r1 < length s" by simp
  then have short: "length (drop 1 (skipSpace r1)) < length s" using length_skipSpace[of r1] by simp
  from "6.IH"(1)[OF sp _ key refl _ one] col have r2: "length r2 < length s"
    "\<And>m. 2 * length s \<le> m \<Longrightarrow> scanValue m d (drop 1 (skipSpace r1)) = Some (v, r2)" using short by auto
  have u: "length u < length r2" using after_space[of c u r2] sp2 by simp
  have "length r < length s \<and> scanMembers (Suc k) d s = Some (ms, r)" if k: "2 * length s \<le> k" for k
  proof -
    have "length r < length u \<and> scanMembers k d u = Some (ms', r)" if "scanMembers n d u = Some (ms', r)" "c = CHR '',''" for ms'
      using "6.IH"(2)[OF sp _ key refl _ one refl sp2 that(2,1)] col k r2(1) u by auto
    with "6.prems" sp key col one sp2 r2 u k show ?thesis by (auto split: if_splits)
  qed
  note k = this
  have "scanMembers m d s = Some (ms, r)" if "2 * length s + 1 \<le> m" for m using k[of "m - 1"] that by (cases m) auto
  with k[of "2 * length s"] show ?case by auto
qed simp_all

text \<open>More fuel finds nothing that \<^const>\<open>scanFuel\<close> does not find.\<close>

theorem scanFuel_enough: "scanValue n d s = Some (v, r) \<Longrightarrow> scanValue (scanFuel s) d s = Some (v, r)"
  unfolding scanFuel_def by (drule scan_fuel(1)) blast

end
