(* ===== verification/Ing_Paths.thy ===== *)
theory Ing_Paths
  imports Json Service_Build
begin

text \<open>
  What an Ingress asks for, before anything is looked up: the policies of its paths
  (\<^verbatim>\<open>internal/usecase/ingress_uc/build_policy.go\<close>), its listeners (\<^verbatim>\<open>build_listener.go\<close>), its certificates
  (\<^verbatim>\<open>build_cert.go\<close>) and the annotations \<^verbatim>\<open>build_pool.go\<close> reads.

  Many methods of the Ingress task are, line by line, those of the Service task with the ingress in the
  place of the service, and read only its metadata and kind. They are the Service's definitions on the
  view \<open>asService\<close> of the task.
\<close>

section \<open>The task\<close>

text \<open>Constants of the Ingress API and the SDK that Services do not use.\<close>

record ing_consts =
  PathTypeExact :: string
  PathTypePrefix :: string
  PathTypeImplementationSpecific :: string
  PolicyCompareTypeCONTAINS :: string
  PolicyCompareTypeENDSWITH :: string
  PolicyCompareTypeSTARTSWITH :: string
  PolicyCompareTypeREGEX :: string
  PolicyCompareTypeEQUALS :: string
  PolicyRuleTypePATH :: string
  PolicyRuleTypeHOSTNAME :: string
  PolicyActionREJECT :: string
  ListenerProtocolHTTP :: string
  PoolProtocolHTTP :: string

record ingTask =
  it_clusterId :: string
  it_parser :: suffixAnnotationParser
  it_kc :: svc_consts
  it_ic :: ing_consts
  it_ingress :: Ingress
  it_world :: svcWorld
  it_nameHelper :: nameHelper
  it_defaultZone :: string
  it_defaultNetworkId :: string
  it_defaultSubnetId :: string
  it_defaultSubnetCIDR :: string

definition ingView :: "Ingress \<Rightarrow> Service" where
  "ingView ing = \<lparr>svc_Kind = ingr_Kind ing, svc_Meta = ingr_Meta ing, svc_Type = [], svc_Ports = [], svc_ExternalIPs = [],
     svc_Ingress = []\<rparr>"

definition asService :: "ingTask \<Rightarrow> buildTask" where
  "asService t =
     \<lparr>bt_clusterId = it_clusterId t, bt_parser = it_parser t, bt_kc = it_kc t, bt_service = ingView (it_ingress t),
      bt_world = it_world t, bt_nameHelper = it_nameHelper t, bt_defaultZone = it_defaultZone t,
      bt_defaultNetworkId = it_defaultNetworkId t, bt_defaultSubnetId = it_defaultSubnetId t,
      bt_defaultSubnetCIDR = it_defaultSubnetCIDR t\<rparr>"

lemma asService_simps [simp]:
  "bt_clusterId (asService t) = it_clusterId t" "bt_parser (asService t) = it_parser t" "bt_kc (asService t) = it_kc t"
  "bt_service (asService t) = ingView (it_ingress t)" "bt_world (asService t) = it_world t"
  "bt_nameHelper (asService t) = it_nameHelper t" "bt_defaultSubnetId (asService t) = it_defaultSubnetId t"
  "svc_Meta (ingView ing) = ingr_Meta ing" "svc_Kind (ingView ing) = ingr_Kind ing"
  by (simp_all add: asService_def ingView_def)

definition it_ns :: "ingTask \<Rightarrow> string" where "it_ns t = om_Namespace (ingr_Meta (it_ingress t))"
definition it_name :: "ingTask \<Rightarrow> string" where "it_name t = om_Name (ingr_Meta (it_ingress t))"

lemma asService_name [simp]: "bt_ns (asService t) = it_ns t" "bt_name (asService t) = it_name t"
  by (simp_all add: bt_ns_def bt_name_def it_ns_def it_name_def)

definition ingAnns :: "ingTask \<Rightarrow> gomap" where "ingAnns t = om_Annotations (ingr_Meta (it_ingress t))"

text \<open>
  Dereferencing a \<open>nil\<close> pointer panics. The panic ends the run at once; here it is an error of its own,
  which the code does not return but which nothing runs after either.
\<close>

definition nilDereference :: go_error where
  "nilDereference = ErrorString ''runtime error: invalid memory address or nil pointer dereference''"

section \<open>Suffixes\<close>

definition SuffixEnableStickySession :: string where "SuffixEnableStickySession = ''enable-sticky-session''"
definition SuffixEnableTLSEncryption :: string where "SuffixEnableTLSEncryption = ''enable-tls-encryption''"
definition SuffixCertificateIDs :: string where "SuffixCertificateIDs = ''certificate-ids''"
definition SuffixImplementationSpecificParams :: string where
  "SuffixImplementationSpecificParams = ''implementation-specific-params''"
definition SuffixInsertHeaders :: string where "SuffixInsertHeaders = ''insert-headers''"
definition SuffixClientCertificateID :: string where "SuffixClientCertificateID = ''client-certificate-id''"
definition SuffixAutoReorderPolicies :: string where "SuffixAutoReorderPolicies = ''auto-reorder-policies''"

section \<open>Annotations that are read as for a Service\<close>

definition ing_buildHealthcheckPort :: "ingTask \<Rightarrow> int option" where
  "ing_buildHealthcheckPort t = buildHealthcheckPort (asService t)"
definition ing_buildPoolAlgorithm :: "ingTask \<Rightarrow> string option" where
  "ing_buildPoolAlgorithm t = buildPoolAlgorithm (asService t)"
definition ing_buildIdleTimeoutClient :: "ingTask \<Rightarrow> int option" where
  "ing_buildIdleTimeoutClient t = buildIdleTimeoutClient (asService t)"
definition ing_buildIdleTimeoutMember :: "ingTask \<Rightarrow> int option" where
  "ing_buildIdleTimeoutMember t = buildIdleTimeoutMember (asService t)"
definition ing_buildIdleTimeoutConnection :: "ingTask \<Rightarrow> int option" where
  "ing_buildIdleTimeoutConnection t = buildIdleTimeoutConnection (asService t)"
definition ing_buildPoolHealthCheckProtocol :: "ingTask \<Rightarrow> string \<Rightarrow> string" where
  "ing_buildPoolHealthCheckProtocol t pPoolProtocol = buildPoolHealthCheckProtocol (asService t) pPoolProtocol"
definition ing_buildPoolHealthyThresholdCount :: "ingTask \<Rightarrow> int option" where
  "ing_buildPoolHealthyThresholdCount t = buildPoolHealthyThresholdCount (asService t)"
definition ing_buildPoolUnhealthyThresholdCount :: "ingTask \<Rightarrow> int option" where
  "ing_buildPoolUnhealthyThresholdCount t = buildPoolUnhealthyThresholdCount (asService t)"
definition ing_buildPoolHealthcheckIntervalSeconds :: "ingTask \<Rightarrow> int option" where
  "ing_buildPoolHealthcheckIntervalSeconds t = buildPoolHealthcheckIntervalSeconds (asService t)"
definition ing_buildPoolHealthcheckTimeoutSeconds :: "ingTask \<Rightarrow> int option" where
  "ing_buildPoolHealthcheckTimeoutSeconds t = buildPoolHealthcheckTimeoutSeconds (asService t)"
definition ing_buildAnnotationHealthcheckHttpMethod :: "ingTask \<Rightarrow> string option" where
  "ing_buildAnnotationHealthcheckHttpMethod t = buildAnnotationHealthcheckHttpMethod (asService t)"
definition ing_buildAnnotationHealthcheckPath :: "ingTask \<Rightarrow> string option" where
  "ing_buildAnnotationHealthcheckPath t = buildAnnotationHealthcheckPath (asService t)"
definition ing_buildAnnotationSuccessCodes :: "ingTask \<Rightarrow> string option" where
  "ing_buildAnnotationSuccessCodes t = buildAnnotationSuccessCodes (asService t)"
definition ing_buildAnnotationHealthcheckHttpVersion :: "ingTask \<Rightarrow> string option" where
  "ing_buildAnnotationHealthcheckHttpVersion t = buildAnnotationHealthcheckHttpVersion (asService t)"
definition ing_buildAnnotationHealthcheckHttpDomainName :: "ingTask \<Rightarrow> string option" where
  "ing_buildAnnotationHealthcheckHttpDomainName t = buildAnnotationHealthcheckHttpDomainName (asService t)"

section \<open>Annotations of Ingresses only\<close>

text \<open>A boolean that is set and parses.\<close>

definition setBool :: "(go_error + bool) option \<Rightarrow> bool option" where
  "setBool r = (case r of Some (Inr b) \<Rightarrow> Some b | _ \<Rightarrow> None)"

definition ing_getTargetType :: "ingTask \<Rightarrow> string" where
  "ing_getTargetType t =
     (let option = deref (strAnn (asService t) SuffixTargetType)
      in if option = TargetTypeIP \<or> option = TargetTypeInstance then option else TargetTypeInstance)"

definition buildPoolStickiness :: "ingTask \<Rightarrow> bool option" where
  "buildPoolStickiness t = setBool (boolAnn (asService t) SuffixEnableStickySession)"

definition buildPoolTLSEncryption :: "ingTask \<Rightarrow> bool option" where
  "buildPoolTLSEncryption t = setBool (boolAnn (asService t) SuffixEnableTLSEncryption)"

definition buildAnnotationAutoReorderPolicies :: "ingTask \<Rightarrow> bool option" where
  "buildAnnotationAutoReorderPolicies t = setBool (boolAnn (asService t) SuffixAutoReorderPolicies)"

definition buildAnnotationCertificateIds :: "ingTask \<Rightarrow> string list" where
  "buildAnnotationCertificateIds t =
     (case sliceAnn (asService t) SuffixCertificateIDs of None \<Rightarrow> [] | Some option \<Rightarrow> option)"

definition buildClientCertificateId :: "ingTask \<Rightarrow> string option" where
  "buildClientCertificateId t = strAnn (asService t) SuffixClientCertificateID"

record insertHeadersConfig =
  ihc_Http :: "gomap option"
  ihc_Https :: "gomap option"

definition defaultHeaders :: gomap where
  "defaultHeaders = [(''X-Forwarded-For'', ''true''), (''X-Forwarded-Proto'', ''true''), (''X-Forwarded-Port'', ''true'')]"

definition decodeInsertHeaders :: "json \<Rightarrow> insertHeadersConfig \<Rightarrow> insertHeadersConfig" where
  "decodeInsertHeaders = decodeStruct (\<lambda>k v c.
     if k = ''HTTP'' then c\<lparr>ihc_Http := decodeStringMap v (ihc_Http c)\<rparr>
     else if k = ''HTTPS'' then c\<lparr>ihc_Https := decodeStringMap v (ihc_Https c)\<rparr> else c)"

text \<open>The maps of the configuration; a \<open>nil\<close> map reads as the empty one.\<close>

definition buildAnnotationInsertHeaders :: "ingTask \<Rightarrow> insertHeadersConfig" where
  "buildAnnotationInsertHeaders t =
     snd (ParseJSONAnnotation (it_parser t) SuffixInsertHeaders (ingAnns t) [] decodeInsertHeaders
       \<lparr>ihc_Http = Some defaultHeaders, ihc_Https = Some defaultHeaders\<rparr>)"

definition headersOf :: "gomap option \<Rightarrow> InsertHeader list" where
  "headersOf m =
     sort_key ih_HeaderName
       (map (\<lambda>(k, v). \<lparr>ih_HeaderName = k, ih_HeaderValue = v\<rparr>) (case m of None \<Rightarrow> [] | Some m \<Rightarrow> m))"

definition buildHttpInsertHeaders :: "ingTask \<Rightarrow> InsertHeader list" where
  "buildHttpInsertHeaders t = headersOf (ihc_Http (buildAnnotationInsertHeaders t))"

definition buildHttpsInsertHeaders :: "ingTask \<Rightarrow> InsertHeader list" where
  "buildHttpsInsertHeaders t = headersOf (ihc_Https (buildAnnotationInsertHeaders t))"

section \<open>Implementation specific paths\<close>

record ruleConfig =
  rc_RuleType :: string
  rc_Compare :: string
  rc_Value :: string

record actionConfig =
  ac_Action :: string
  ac_RedirectURL :: string
  ac_RedirectHTTPCode :: int
  ac_KeepQueryString :: bool

record implementationSpecificConfig =
  isc_Host :: string
  isc_Path :: string
  isc_Rules :: "ruleConfig list"
  isc_Action :: actionConfig

definition decodeRule :: "json \<Rightarrow> ruleConfig \<Rightarrow> ruleConfig" where
  "decodeRule = decodeStruct (\<lambda>k v r.
     if k = ''TYPE'' then r\<lparr>rc_RuleType := decodeString v (rc_RuleType r)\<rparr>
     else if k = ''COMPARE'' then r\<lparr>rc_Compare := decodeString v (rc_Compare r)\<rparr>
     else if k = ''VALUE'' then r\<lparr>rc_Value := decodeString v (rc_Value r)\<rparr> else r)"

definition decodeAction :: "json \<Rightarrow> actionConfig \<Rightarrow> actionConfig" where
  "decodeAction = decodeStruct (\<lambda>k v a.
     if k = ''ACTION'' then a\<lparr>ac_Action := decodeString v (ac_Action a)\<rparr>
     else if k = ''REDIRECTURL'' then a\<lparr>ac_RedirectURL := decodeString v (ac_RedirectURL a)\<rparr>
     else if k = ''REDIRECTHTTPCODE'' then a\<lparr>ac_RedirectHTTPCode := decodeInt v (ac_RedirectHTTPCode a)\<rparr>
     else if k = ''KEEPQUERYSTRING'' then a\<lparr>ac_KeepQueryString := decodeBool v (ac_KeepQueryString a)\<rparr> else a)"

definition zeroRule :: ruleConfig where "zeroRule = \<lparr>rc_RuleType = [], rc_Compare = [], rc_Value = []\<rparr>"

definition zeroConfig :: implementationSpecificConfig where
  "zeroConfig = \<lparr>isc_Host = [], isc_Path = [], isc_Rules = [],
     isc_Action = \<lparr>ac_Action = [], ac_RedirectURL = [], ac_RedirectHTTPCode = 0, ac_KeepQueryString = False\<rparr>\<rparr>"

definition decodeConfig :: "json \<Rightarrow> implementationSpecificConfig \<Rightarrow> implementationSpecificConfig" where
  "decodeConfig = decodeStruct (\<lambda>k v c.
     if k = ''HOST'' then c\<lparr>isc_Host := decodeString v (isc_Host c)\<rparr>
     else if k = ''PATH'' then c\<lparr>isc_Path := decodeString v (isc_Path c)\<rparr>
     else if k = ''RULES'' then c\<lparr>isc_Rules := decodeSlice decodeRule zeroRule v (isc_Rules c)\<rparr>
     else if k = ''ACTION'' then c\<lparr>isc_Action := decodeAction v (isc_Action c)\<rparr> else c)"

definition buildImplementationSpecificConfigs :: "ingTask \<Rightarrow> implementationSpecificConfig list" where
  "buildImplementationSpecificConfigs t =
     snd (ParseJSONAnnotation (it_parser t) SuffixImplementationSpecificParams (ingAnns t) []
       (decodeSlice decodeConfig zeroConfig) [])"

text \<open>\<open>%s\<close> of a slice of strings, and a message about a field.\<close>

definition sliceText :: "string list \<Rightarrow> string" where
  "sliceText xs = ''['' @ Join '' '' xs @ '']''"

definition quoted :: "string \<Rightarrow> string" where
  "quoted s = CHR 0x22 # s @ [CHR 0x22]"

definition invalidField :: "string \<Rightarrow> string \<Rightarrow> string list \<Rightarrow> go_error" where
  "invalidField field value valid =
     NewNoNeedRequeue (''invalid '' @ quoted field @ '': '' @ quoted value @ '', must be one of '' @ sliceText valid)"

definition validRuleType :: "ing_consts \<Rightarrow> string list" where
  "validRuleType ic = [PolicyRuleTypePATH ic, PolicyRuleTypeHOSTNAME ic]"

definition validCompareType :: "ing_consts \<Rightarrow> string list" where
  "validCompareType ic = [PolicyCompareTypeCONTAINS ic, PolicyCompareTypeENDSWITH ic, PolicyCompareTypeSTARTSWITH ic,
     PolicyCompareTypeREGEX ic, PolicyCompareTypeEQUALS ic]"

definition validAction :: "ingTask \<Rightarrow> string list" where
  "validAction t = [PolicyActionREDIRECTTOPOOL (it_kc t), PolicyActionREDIRECTTOURL (it_kc t), PolicyActionREJECT (it_ic t)]"

primrec validateRules :: "ing_consts \<Rightarrow> ruleConfig list \<Rightarrow> go_error option" where
  "validateRules ic [] = None"
| "validateRules ic (r # rules) =
     (if rc_RuleType r \<notin> set (validRuleType ic) then Some (invalidField ''type'' (rc_RuleType r) (validRuleType ic))
      else if rc_Compare r \<notin> set (validCompareType ic) then Some (invalidField ''compare'' (rc_Compare r) (validCompareType ic))
      else validateRules ic rules)"

text \<open>The action as validated: only a redirect to a URL keeps URL and code.\<close>

definition validateAction :: "ingTask \<Rightarrow> actionConfig \<Rightarrow> go_error + actionConfig" where
  "validateAction t a =
     (if ac_Action a \<notin> set (validAction t) then Inl (invalidField ''action'' (ac_Action a) (validAction t))
      else if ac_Action a = PolicyActionREDIRECTTOURL (it_kc t) then
        if \<not> w_isRequestURI (it_world t) (ac_RedirectURL a)
        then Inl (NewNoNeedRequeue (''invalid '' @ quoted ''redirectUrl'' @ '': '' @ quoted (ac_RedirectURL a)))
        else if ac_RedirectHTTPCode a \<notin> {301, 302}
        then Inl (NewNoNeedRequeue (''invalid '' @ quoted ''redirectHttpCode'' @ '': '' @ quoted (Itoa (ac_RedirectHTTPCode a))
               @ '', must be one of 301, 302''))
        else Inr a
      else Inr (a\<lparr>ac_RedirectURL := [], ac_RedirectHTTPCode := 301\<rparr>))"

definition l7RuleOf :: "ruleConfig \<Rightarrow> L7Rule" where
  "l7RuleOf r = \<lparr>r7_CompareType = rc_Compare r, r7_RuleValue = rc_Value r, r7_RuleType = rc_RuleType r\<rparr>"

primrec l7RulesOf :: "L7Rule list \<Rightarrow> ruleConfig list \<Rightarrow> go_error + L7Rule list" where
  "l7RulesOf l7Rule [] = Inr l7Rule"
| "l7RulesOf l7Rule (r # rules) =
     (if l7RuleOf r \<in> set l7Rule
      then Inl (NewNoNeedRequeue (''duplicated rule: {'' @ rc_RuleType r @ '' '' @ rc_Compare r @ '' '' @ rc_Value r @ ''}''))
      else l7RulesOf (l7Rule @ [l7RuleOf r]) rules)"

text \<open>The policy of the configuration that is for a path.\<close>

definition policyOfConfig :: "ingTask \<Rightarrow> string \<Rightarrow> implementationSpecificConfig \<Rightarrow> go_error + Policy" where
  "policyOfConfig t policyName config =
     (case validateRules (it_ic t) (isc_Rules config) of
        Some err \<Rightarrow> Inl err
      | None \<Rightarrow>
          (case validateAction t (isc_Action config) of
             Inl err \<Rightarrow> Inl err
           | Inr action \<Rightarrow>
               (case l7RulesOf [] (isc_Rules config) of
                  Inl err \<Rightarrow> Inl err
                | Inr l7Rule \<Rightarrow>
                    Inr \<lparr>pol_Name = policyName, pol_Description = None, pol_RedirectPoolName = None,
                         pol_Action = ac_Action action, pol_RedirectUrl = Some (ac_RedirectURL action),
                         pol_RedirectHttpCode = Some (toInt32 (ac_RedirectHTTPCode action)),
                         pol_KeepQueryString = Some (ac_KeepQueryString action), pol_Position = None, pol_L7Rules = l7Rule\<rparr>)))"

text \<open>\<open>None\<close> is \<open>ErrorNoImplementationSpecificConfigFound\<close>.\<close>

definition buildPolicyByRegex :: "ingTask \<Rightarrow> string \<Rightarrow> string \<Rightarrow> HTTPIngressPath \<Rightarrow> (go_error + Policy) option" where
  "buildPolicyByRegex t policyName host path =
     map_option (policyOfConfig t policyName)
       (find (\<lambda>config. isc_Path config = hp_Path path \<and> isc_Host config = host) (buildImplementationSpecificConfigs t))"

section \<open>Policies\<close>

definition policyOfPath :: "ingTask \<Rightarrow> string \<Rightarrow> string \<Rightarrow> HTTPIngressPath \<Rightarrow> string \<Rightarrow> Policy" where
  "policyOfPath t host policyName path compareType =
     \<lparr>pol_Name = policyName, pol_Description = None, pol_RedirectPoolName = None,
      pol_Action = PolicyActionREDIRECTTOPOOL (it_kc t), pol_RedirectUrl = None, pol_RedirectHttpCode = None,
      pol_KeepQueryString = None, pol_Position = None,
      pol_L7Rules = \<lparr>r7_CompareType = compareType, r7_RuleValue = hp_Path path, r7_RuleType = PolicyRuleTypePATH (it_ic t)\<rparr>
        # (if host \<noteq> [] then [\<lparr>r7_CompareType = PolicyCompareTypeEQUALS (it_ic t), r7_RuleValue = host,
                               r7_RuleType = PolicyRuleTypeHOSTNAME (it_ic t)\<rparr>] else [])\<rparr>"

definition buildPolicyByPath :: "ingTask \<Rightarrow> string \<Rightarrow> string \<Rightarrow> HTTPIngressPath \<Rightarrow> go_error + Policy" where
  "buildPolicyByPath t host policyName path =
     (case hp_PathType path of
        None \<Rightarrow> Inl nilDereference
      | Some pathType \<Rightarrow>
          if pathType = PathTypeExact (it_ic t) then Inr (policyOfPath t host policyName path (PolicyCompareTypeEQUALS (it_ic t)))
          else if pathType = PathTypePrefix (it_ic t)
          then Inr (policyOfPath t host policyName path (PolicyCompareTypeSTARTSWITH (it_ic t)))
          else if pathType = PathTypeImplementationSpecific (it_ic t) then
            (case buildPolicyByRegex t policyName host path of
               Some res \<Rightarrow> res
             | None \<Rightarrow> Inr (policyOfPath t host policyName path (PolicyCompareTypeEQUALS (it_ic t))))
          else Inr (policyOfPath t host policyName path (PolicyCompareTypeEQUALS (it_ic t))))"

section \<open>Listeners and certificates\<close>

definition DEFAULT_HTTP_LISTENER_NAME :: string where "DEFAULT_HTTP_LISTENER_NAME = ''vks_http_listener''"
definition DEFAULT_HTTPS_LISTENER_NAME :: string where "DEFAULT_HTTPS_LISTENER_NAME = ''vks_https_listener''"

definition secretCertificates :: "ingTask \<Rightarrow> ListenerCertificate list" where
  "secretCertificates t =
     sort_key (\<lambda>c. deref (lc_SecretName c))
       (map (\<lambda>tls. \<lparr>lc_Id = None, lc_Name = None, lc_SecretName = Some (tls_SecretName tls)\<rparr>)
         (filter (\<lambda>tls. tls_SecretName tls \<noteq> []) (ingr_TLS (it_ingress t))))"

text \<open>The default certificate, and the others.\<close>

definition buildHttpsListenerCertificates :: "ingTask \<Rightarrow> ListenerCertificate option \<times> ListenerCertificate list" where
  "buildHttpsListenerCertificates t =
     (let certIDs = buildAnnotationCertificateIds t;
          certificates = (if certIDs \<noteq> [] then map (\<lambda>certID. \<lparr>lc_Id = Some certID, lc_Name = None, lc_SecretName = None\<rparr>) certIDs
                          else secretCertificates t)
      in case certificates of [] \<Rightarrow> (None, []) | c # cs \<Rightarrow> (Some c, cs))"

definition buildListeners :: "ingTask \<Rightarrow> bool \<Rightarrow> go_error + Listener" where
  "buildListeners t isHttps =
     (case FromAnnotations (w_net6 (it_world t)) (it_parser t) (ingAnns t) of
        Inl err \<Rightarrow> Inl err
      | Inr acl \<Rightarrow>
          (let opt = \<lparr>lis_Name = DEFAULT_HTTP_LISTENER_NAME, lis_Description = None, lis_Protocol = ListenerProtocolHTTP (it_ic t),
                 lis_ProtocolPort = 80, lis_DefaultPoolName = None,
                 lis_TimeoutClient = ing_buildIdleTimeoutClient t, lis_TimeoutMember = ing_buildIdleTimeoutMember t,
                 lis_TimeoutConnection = ing_buildIdleTimeoutConnection t,
                 lis_AllowedCidrs = fl_AllowedCidrs acl, lis_BlockedCidrs = fl_BlockedCidrs acl,
                 lis_DefaultAction = fl_DefaultAction acl,
                 lis_InsertHeaders = Some (buildHttpInsertHeaders t), lis_Policies = [], lis_CertificateDefault = None,
                 lis_CertificateAuthorities = [], lis_ClientCertificateId = None\<rparr>
           in Inr (if isHttps then
                opt\<lparr>lis_Name := DEFAULT_HTTPS_LISTENER_NAME, lis_Protocol := ListenerProtocolHTTPS (it_kc t), lis_ProtocolPort := 443,
                    lis_CertificateDefault := fst (buildHttpsListenerCertificates t),
                    lis_CertificateAuthorities := snd (buildHttpsListenerCertificates t),
                    lis_ClientCertificateId := buildClientCertificateId t,
                    lis_InsertHeaders := Some (buildHttpsInsertHeaders t)\<rparr>
              else opt)))"

text \<open>The hosts some TLS entry names.\<close>

definition hostUsingTLS :: "ingTask \<Rightarrow> string set" where
  "hostUsingTLS t = set (concat (map tls_Hosts (ingr_TLS (it_ingress t))))"

definition checkNeedHTTPListener :: "ingTask \<Rightarrow> bool" where
  "checkNeedHTTPListener t \<longleftrightarrow>
     ingr_DefaultBackend (it_ingress t) \<noteq> None
     \<or> list_ex (\<lambda>rule. ir_Host rule = []) (ingr_Rules (it_ingress t))
     \<or> list_ex (\<lambda>rule. ir_Host rule \<notin> hostUsingTLS t) (ingr_Rules (it_ingress t))"

definition isValidToBuildHTTPSListener :: "ingTask \<Rightarrow> go_error + bool" where
  "isValidToBuildHTTPSListener t =
     (if ingr_TLS (it_ingress t) = [] then Inr False
      else if buildAnnotationCertificateIds t \<noteq> [] then Inr True
      else if list_ex (\<lambda>tls. tls_SecretName tls = []) (ingr_TLS (it_ingress t))
      then Inl (NewNoNeedRequeue ''to use TLS, specific certIDs through annotation or secretName must be set'')
      else Inr True)"

definition buildCreateCertificates :: "ingTask \<Rightarrow> go_error + CreateCertificate list" where
  "buildCreateCertificates t =
     (case isValidToBuildHTTPSListener t of
        Inl err \<Rightarrow> Inl err
      | Inr isValid \<Rightarrow>
          if \<not> isValid then Inr []
          else if buildAnnotationCertificateIds t \<noteq> [] then Inr []
          else
            (let secretNames = foldl (\<lambda>names tls. if tls_SecretName tls \<in> set names then names else names @ [tls_SecretName tls])
                   [] (ingr_TLS (it_ingress t))
             in Inr (sort_key cc_SecretName (map (\<lambda>secretName. \<lparr>cc_SecretName = secretName\<rparr>) secretNames))))"

section \<open>Positions by priority\<close>

definition getRulePriority :: "ing_consts \<Rightarrow> L7Rule \<Rightarrow> int" where
  "getRulePriority ic rule =
     (let compareTypeValue =
            (if r7_CompareType rule = PolicyCompareTypeREGEX ic then 10
             else if r7_CompareType rule = PolicyCompareTypeCONTAINS ic then 100
             else if r7_CompareType rule = PolicyCompareTypeENDSWITH ic then 1000
             else if r7_CompareType rule = PolicyCompareTypeSTARTSWITH ic then 10000
             else if r7_CompareType rule = PolicyCompareTypeEQUALS ic then 100000 else 1);
          ruleTypeValue =
            (if r7_RuleType rule = PolicyRuleTypeHOSTNAME ic then 100 else 1)
      in compareTypeValue * ruleTypeValue * int (length (r7_RuleValue rule)))"

definition getPolicyPriority :: "ing_consts \<Rightarrow> Policy \<Rightarrow> int" where
  "getPolicyPriority ic policy = sum_list (map (getRulePriority ic) (pol_L7Rules policy))"

text \<open>The first policy of that name gets the position.\<close>

primrec setPosition :: "string \<Rightarrow> int \<Rightarrow> Policy list \<Rightarrow> Policy list" where
  "setPosition name pos [] = []"
| "setPosition name pos (p # ps) =
     (if pol_Name p = name then p\<lparr>pol_Position := Some pos\<rparr> # ps else p # setPosition name pos ps)"

text \<open>
  \<open>sort.Slice\<close> promises no order among equal priorities; here they keep the order of the policies.
\<close>

definition autoPositions :: "ing_consts \<Rightarrow> Policy list \<Rightarrow> Policy list" where
  "autoPositions ic policies =
     (let ss = sort_key (\<lambda>kv. - snd kv) (map (\<lambda>p. (pol_Name p, getPolicyPriority ic p)) policies)
      in fold (\<lambda>(i, kv). setPosition (fst kv) (toInt32 (int i + 1))) (enumerate 0 ss) policies)"

text \<open>It never returns an error.\<close>

definition buildAutoAddPolicyPosition :: "ing_consts \<Rightarrow> Listener option \<Rightarrow> Listener option" where
  "buildAutoAddPolicyPosition ic listener = map_option (\<lambda>l. l\<lparr>lis_Policies := autoPositions ic (lis_Policies l)\<rparr>) listener"

section \<open>Every rule has its listener\<close>

lemma rule_listener:
  assumes "rule \<in> set (ingr_Rules (it_ingress t))"
  shows "ir_Host rule \<in> hostUsingTLS t \<Longrightarrow> isValidToBuildHTTPSListener t = Inr valid \<Longrightarrow> valid"
    and "ir_Host rule \<notin> hostUsingTLS t \<Longrightarrow> checkNeedHTTPListener t"
  using assms by (auto simp: hostUsingTLS_def isValidToBuildHTTPSListener_def checkNeedHTTPListener_def list_ex_iff split: if_splits)

section \<open>Policies are well formed\<close>

lemma validateRules_all:
  "validateRules ic rules = None \<longleftrightarrow>
     (\<forall>r \<in> set rules. rc_RuleType r \<in> set (validRuleType ic) \<and> rc_Compare r \<in> set (validCompareType ic))"
  by (induction rules) auto

lemma l7RulesOf_result:
  "l7RulesOf acc rules = Inr l7 \<Longrightarrow> distinct acc \<Longrightarrow> l7 = acc @ map l7RuleOf rules \<and> distinct l7"
proof (induction rules arbitrary: acc)
  case (Cons r rules)
  from Cons.prems have "l7RuleOf r \<notin> set acc" "l7RulesOf (acc @ [l7RuleOf r]) rules = Inr l7" by (auto split: if_splits)
  with Cons.IH[of "acc @ [l7RuleOf r]"] Cons.prems(2) show ?case by (metis append.assoc append_Cons append_Nil distinct_append
        distinct_singleton disjoint_insert(2) inf_bot_right list.set(1) list.set(2) list.simps(9))
qed simp

text \<open>What the load balancer API accepts of a policy.\<close>

definition wellFormedPolicy :: "ingTask \<Rightarrow> Policy \<Rightarrow> bool" where
  "wellFormedPolicy t p \<longleftrightarrow> pol_Action p \<in> set (validAction t)
     \<and> (pol_Action p = PolicyActionREDIRECTTOURL (it_kc t) \<longrightarrow>
          (\<exists>url code. pol_RedirectUrl p = Some url \<and> w_isRequestURI (it_world t) url \<and> pol_RedirectHttpCode p = Some code \<and> code \<in> {301, 302}))
     \<and> distinct (pol_L7Rules p)
     \<and> (\<forall>r \<in> set (pol_L7Rules p). r7_RuleType r \<in> set (validRuleType (it_ic t)) \<and> r7_CompareType r \<in> set (validCompareType (it_ic t)))"

lemma toInt32_code: "c \<in> {301, 302} \<Longrightarrow> toInt32 c = c"
  by (auto simp: toInt32_def)

lemma policyOfConfig_wellFormed:
  assumes "policyOfConfig t n config = Inr p"
  shows "pol_Name p = n \<and> wellFormedPolicy t p \<and> pol_L7Rules p = map l7RuleOf (isc_Rules config)
    \<and> pol_Action p = ac_Action (isc_Action config)"
proof -
  from assms obtain a l7 where rules: "validateRules (it_ic t) (isc_Rules config) = None"
    and act: "validateAction t (isc_Action config) = Inr a" and l7: "l7RulesOf [] (isc_Rules config) = Inr l7"
    and p: "p = \<lparr>pol_Name = n, pol_Description = None, pol_RedirectPoolName = None,
                         pol_Action = ac_Action a, pol_RedirectUrl = Some (ac_RedirectURL a),
                         pol_RedirectHttpCode = Some (toInt32 (ac_RedirectHTTPCode a)),
                         pol_KeepQueryString = Some (ac_KeepQueryString a), pol_Position = None, pol_L7Rules = l7\<rparr>"
    by (auto simp: policyOfConfig_def split: option.splits sum.splits)
  from l7RulesOf_result[OF l7] have l7: "l7 = map l7RuleOf (isc_Rules config)" "distinct l7" by auto
  have "r7_RuleType r \<in> set (validRuleType (it_ic t)) \<and> r7_CompareType r \<in> set (validCompareType (it_ic t))" if "r \<in> set l7" for r
    using that rules by (auto simp: l7 validateRules_all l7RuleOf_def)
  moreover have "ac_Action a = ac_Action (isc_Action config)" "ac_Action a \<in> set (validAction t)"
    "ac_Action a = PolicyActionREDIRECTTOURL (it_kc t) \<Longrightarrow> w_isRequestURI (it_world t) (ac_RedirectURL a) \<and> ac_RedirectHTTPCode a \<in> {301, 302}"
    using act by (auto simp: validateAction_def split: if_splits)
  ultimately show ?thesis using l7 toInt32_code by (auto simp: p wellFormedPolicy_def)
qed

text \<open>
  The policy of a path. Without a configuration for it - and unless its type is \<open>ImplementationSpecific\<close>
  in any case - it sends what matches path and host to a pool; with one it does what the configuration
  says. It is well formed and has the name it was given.
\<close>

theorem buildPolicyByPath_policy:
  assumes "buildPolicyByPath t host n path = Inr p"
    and "PolicyRuleTypePATH (it_ic t) \<noteq> PolicyRuleTypeHOSTNAME (it_ic t)"
    and "PolicyActionREDIRECTTOPOOL (it_kc t) \<noteq> PolicyActionREDIRECTTOURL (it_kc t)"
  shows "pol_Name p = n \<and> wellFormedPolicy t p
    \<and> ((\<exists>config \<in> set (buildImplementationSpecificConfigs t).
          hp_PathType path = Some (PathTypeImplementationSpecific (it_ic t)) \<and> isc_Path config = hp_Path path \<and> isc_Host config = host
          \<and> pol_L7Rules p = map l7RuleOf (isc_Rules config) \<and> pol_Action p = ac_Action (isc_Action config))
       \<or> p = policyOfPath t host n path (if hp_PathType path = Some (PathTypePrefix (it_ic t)) \<and> PathTypePrefix (it_ic t) \<noteq> PathTypeExact (it_ic t)
             then PolicyCompareTypeSTARTSWITH (it_ic t) else PolicyCompareTypeEQUALS (it_ic t)))"
proof -
  have simple: "wellFormedPolicy t (policyOfPath t host n path c)" "pol_Name (policyOfPath t host n path c) = n"
    if "c \<in> {PolicyCompareTypeSTARTSWITH (it_ic t), PolicyCompareTypeEQUALS (it_ic t)}" for c
    using that assms(2,3) by (auto simp: wellFormedPolicy_def policyOfPath_def validAction_def validRuleType_def validCompareType_def)
  from assms(1) obtain ty where ty: "hp_PathType path = Some ty" by (auto simp: buildPolicyByPath_def split: option.splits)
  show ?thesis
  proof (cases "\<exists>config. ty = PathTypeImplementationSpecific (it_ic t) \<and> config \<in> set (buildImplementationSpecificConfigs t)
      \<and> isc_Path config = hp_Path path \<and> isc_Host config = host \<and> policyOfConfig t n config = Inr p")
    case True
    with ty policyOfConfig_wellFormed show ?thesis by blast
  next
    case False
    have "buildPolicyByRegex t n host path \<noteq> Some (Inr p)" if "ty = PathTypeImplementationSpecific (it_ic t)"
      using that False by (auto simp: buildPolicyByRegex_def find_Some_iff in_set_conv_nth)
    with assms(1) ty have "p = policyOfPath t host n path (if ty = PathTypePrefix (it_ic t) \<and> PathTypePrefix (it_ic t) \<noteq> PathTypeExact (it_ic t)
             then PolicyCompareTypeSTARTSWITH (it_ic t) else PolicyCompareTypeEQUALS (it_ic t))"
      by (auto simp: buildPolicyByPath_def split: if_splits option.splits)
    with simple ty show ?thesis by auto
  qed
qed

section \<open>Certificates\<close>

lemma uniqueNames_facts:
  "distinct acc \<Longrightarrow>
   (let names = foldl (\<lambda>names tls. if tls_SecretName tls \<in> set names then names else names @ [tls_SecretName tls]) acc tlss
    in distinct names \<and> set names = set acc \<union> tls_SecretName ` set tlss)"
proof (induction tlss arbitrary: acc)
  case (Cons tls tlss)
  show ?case
    using Cons.prems Cons.IH[of "if tls_SecretName tls \<in> set acc then acc else acc @ [tls_SecretName tls]"]
    by (auto simp: Let_def)
qed simp

text \<open>
  What the HTTPS listener refers to is created. The secrets certificates are created from are exactly
  those the certificates of the HTTPS listener name, each once, in order; the listener has a default
  certificate; with certificates given by id nothing is created.
\<close>

theorem buildCreateCertificates_matches_listener:
  assumes "buildCreateCertificates t = Inr created" and "buildListeners t True = Inr l" and "ingr_TLS (it_ingress t) \<noteq> []"
  shows "\<exists>c. lis_CertificateDefault l = Some c
    \<and> Some ` cc_SecretName ` set created = lc_SecretName ` set (c # lis_CertificateAuthorities l) - {None}
    \<and> distinct created \<and> sorted (map cc_SecretName created)
    \<and> (buildAnnotationCertificateIds t \<noteq> [] \<longrightarrow> created = [] \<and> map lc_Id (c # lis_CertificateAuthorities l) = map Some (buildAnnotationCertificateIds t))"
proof -
  let ?tls = "ingr_TLS (it_ingress t)" and ?ids = "buildAnnotationCertificateIds t"
  have l: "lis_CertificateDefault l = fst (buildHttpsListenerCertificates t)" "lis_CertificateAuthorities l = snd (buildHttpsListenerCertificates t)"
    using assms(2) by (auto simp: buildListeners_def Let_def split: sum.splits)
  show ?thesis
  proof (cases ?ids)
    case (Cons i ids)
    with assms(1,3) have "created = []" by (auto simp: buildCreateCertificates_def isValidToBuildHTTPSListener_def)
    with l Cons show ?thesis by (auto simp: buildHttpsListenerCertificates_def)
  next
    case Nil
    define names where "names = foldl (\<lambda>names tls. if tls_SecretName tls \<in> set names then names else names @ [tls_SecretName tls]) [] ?tls"
    from Nil assms(1,3) have named: "\<forall>tls \<in> set ?tls. tls_SecretName tls \<noteq> []"
      and created: "created = sort_key cc_SecretName (map (\<lambda>n. \<lparr>cc_SecretName = n\<rparr>) names)"
      by (auto simp: buildCreateCertificates_def isValidToBuildHTTPSListener_def names_def list_ex_iff Let_def split: if_splits)
    have names: "distinct names" "set names = tls_SecretName ` set ?tls"
      using uniqueNames_facts[of "[]" ?tls] by (simp_all add: names_def Let_def)
    have all: "filter (\<lambda>tls. tls_SecretName tls \<noteq> []) ?tls = ?tls" using named by simp
    have certs: "lc_SecretName ` set (secretCertificates t) = Some ` tls_SecretName ` set ?tls"
      by (auto simp: secretCertificates_def all image_image)
    have "secretCertificates t \<noteq> []"
    proof
      assume "secretCertificates t = []"
      with certs assms(3) show False by simp
    qed
    then obtain c cs where c: "secretCertificates t = c # cs" by (cases "secretCertificates t") auto
    with l Nil have "lis_CertificateDefault l = Some c" "lis_CertificateAuthorities l = cs"
      by (simp_all add: buildHttpsListenerCertificates_def)
    moreover have "Some ` cc_SecretName ` set created = lc_SecretName ` set (c # cs) - {None}"
    proof -
      have "cc_SecretName ` set created = set names" by (force simp: created image_iff)
      then have "Some ` cc_SecretName ` set created = Some ` tls_SecretName ` set ?tls" by (simp add: names(2))
      with certs c show ?thesis by auto
    qed
    moreover have "distinct created" by (simp add: created distinct_map names(1) inj_on_def)
    ultimately show ?thesis using Nil by (intro exI[of _ c]) (simp add: created)
  qed
qed

text \<open>
  Two TLS entries with one secret - the hosts of a wildcard certificate, say - give one certificate to
  create but list it twice on the listener, as the default and again for SNI.
\<close>

lemma same_secret_twice:
  assumes "map tls_SecretName (ingr_TLS (it_ingress t)) = [n, n]" and "n \<noteq> []" and "buildAnnotationCertificateIds t = []"
  shows "buildCreateCertificates t = Inr [\<lparr>cc_SecretName = n\<rparr>]
    \<and> (\<exists>c. buildHttpsListenerCertificates t = (Some c, [c]) \<and> lc_SecretName c = Some n)"
proof -
  from assms(1) obtain a b where tls: "ingr_TLS (it_ingress t) = [a, b]" "tls_SecretName a = n" "tls_SecretName b = n"
    by (auto simp: map_eq_Cons_conv)
  with assms(2,3) show ?thesis
    by (simp add: buildCreateCertificates_def isValidToBuildHTTPSListener_def buildHttpsListenerCertificates_def secretCertificates_def)
qed

section \<open>Positions\<close>

lemma setPosition_map:
  "distinct (map pol_Name ps) \<Longrightarrow> setPosition n i ps = map (\<lambda>p. if pol_Name p = n then p\<lparr>pol_Position := Some i\<rparr> else p) ps"
proof (induction ps)
  case (Cons a ps)
  have "map (\<lambda>p. if pol_Name p = pol_Name a then p\<lparr>pol_Position := Some i\<rparr> else p) ps = ps"
    using Cons.prems by (intro map_idI) (auto simp: image_iff)
  with Cons show ?case by auto
qed simp

text \<open>The position of a policy is the one of its name in the order of priority.\<close>

lemma toInt32_small: "- (2 ^ 31) \<le> i \<Longrightarrow> i < 2 ^ 31 \<Longrightarrow> toInt32 i = i"
  by (simp add: toInt32_def sint_sbintrunc' signed_take_bit_int_eq_self)

lemma enumerate_keys: "map fst (map (\<lambda>(i, kv). (fst kv, f i)) (enumerate k kvs)) = map fst kvs"
  by (induction kvs arbitrary: k) simp_all

lemma setPositions_map:
  assumes "distinct (map pol_Name ps)" and "distinct (map fst kvs)"
  shows "fold (\<lambda>(i, kv). setPosition (fst kv) (f i)) (enumerate k kvs) ps
    = map (\<lambda>p. case map_of (map (\<lambda>(i, kv). (fst kv, f i)) (enumerate k kvs)) (pol_Name p) of
        None \<Rightarrow> p | Some i \<Rightarrow> p\<lparr>pol_Position := Some i\<rparr>) ps"
  using assms
proof (induction kvs arbitrary: k ps)
  case (Cons kv kvs)
  let ?ps = "map (\<lambda>p. if pol_Name p = fst kv then p\<lparr>pol_Position := Some (f k)\<rparr> else p) ps"
  have names: "map pol_Name ?ps = map pol_Name ps" by simp
  have "fst kv \<notin> fst ` set (map (\<lambda>(i, kv). (fst kv, f i)) (enumerate (Suc k) kvs))"
    using Cons.prems(2) by (simp add: enumerate_keys[of f "Suc k" kvs, symmetric] flip: set_map)
  then have none: "map_of (map (\<lambda>(i, kv). (fst kv, f i)) (enumerate (Suc k) kvs)) (fst kv) = None" by (simp add: map_of_eq_None_iff)
  have "fold (\<lambda>(i, kv). setPosition (fst kv) (f i)) (enumerate k (kv # kvs)) ps
      = fold (\<lambda>(i, kv). setPosition (fst kv) (f i)) (enumerate (Suc k) kvs) ?ps"
    using Cons.prems(1) by (simp add: setPosition_map)
  also have "\<dots> = map (\<lambda>p. case map_of (map (\<lambda>(i, kv). (fst kv, f i)) (enumerate (Suc k) kvs)) (pol_Name p) of
      None \<Rightarrow> p | Some i \<Rightarrow> p\<lparr>pol_Position := Some i\<rparr>) ?ps"
    using Cons.prems by (intro Cons.IH) (simp_all only: names distinct.simps list.map)
  finally show ?case by (auto simp: none split: option.splits)
qed simp

lemma map_Suc_upto: "map (\<lambda>i. int i + 1) [0..<n] = [1..int n]"
  by (induction n) (simp_all add: upto_rec2)

text \<open>
  Automatic order: when the policies have different names, they get the positions 1, 2, ... each once
  and nothing else changes; a policy of higher priority comes before one of lower priority.
\<close>

theorem autoPositions_order:
  assumes "distinct (map pol_Name ps)" and "length ps < 2 ^ 31"
  shows "map (\<lambda>p. p\<lparr>pol_Position := None\<rparr>) (autoPositions ic ps) = map (\<lambda>p. p\<lparr>pol_Position := None\<rparr>) ps
    \<and> mset (map pol_Position (autoPositions ic ps)) = mset (map Some [1..int (length ps)])
    \<and> (\<forall>p \<in> set (autoPositions ic ps). \<forall>q \<in> set (autoPositions ic ps).
         getPolicyPriority ic q < getPolicyPriority ic p \<longrightarrow> the (pol_Position p) < the (pol_Position q))"
proof -
  define ss where "ss = sort_key (\<lambda>kv. - snd kv) (map (\<lambda>p. (pol_Name p, getPolicyPriority ic p)) ps)"
  define m where "m = map_of (map (\<lambda>(i, kv). (fst kv, toInt32 (int i + 1))) (enumerate 0 ss))"
  have ms: "mset ss = mset (map (\<lambda>p. (pol_Name p, getPolicyPriority ic p)) ps)" by (simp add: ss_def)
  then have names: "mset (map fst ss) = mset (map pol_Name ps)"
    by (simp only: mset_map) (simp add: multiset.map_comp comp_def)
  then have dist: "distinct (map fst ss)" using assms(1) by (metis mset_eq_imp_distinct_iff)
  from ms have len: "length ss = length ps" by (metis size_mset length_map)
  have auto: "autoPositions ic ps = map (\<lambda>p. case m (pol_Name p) of None \<Rightarrow> p | Some i \<Rightarrow> p\<lparr>pol_Position := Some i\<rparr>) ps"
    unfolding autoPositions_def Let_def ss_def[symmetric] m_def by (rule setPositions_map[OF assms(1) dist])
  have at: "m (fst (ss ! i)) = Some (int i + 1)" if "i < length ss" for i
  proof -
    have "(fst (ss ! i), toInt32 (int i + 1)) \<in> set (map (\<lambda>(i, kv). (fst kv, toInt32 (int i + 1))) (enumerate 0 ss))"
      using that by (force simp: in_set_enumerate_eq)
    moreover have "map fst (map (\<lambda>(i, kv). (fst kv, toInt32 (int i + 1))) (enumerate 0 ss)) = map fst ss"
      by (rule enumerate_keys)
    ultimately have "m (fst (ss ! i)) = Some (toInt32 (int i + 1))" using dist by (simp add: m_def)
    moreover have "toInt32 (int i + 1) = int i + 1"
      using that len assms(2) by (intro toInt32_small) auto
    ultimately show ?thesis by simp
  qed
  have found: "\<exists>i < length ss. pol_Name p = fst (ss ! i) \<and> getPolicyPriority ic p = snd (ss ! i)" if "p \<in> set ps" for p
  proof -
    have "(pol_Name p, getPolicyPriority ic p) \<in> set ss" using that by (auto simp: ss_def)
    then show ?thesis by (metis in_set_conv_nth fst_conv snd_conv)
  qed
  have pos: "autoPositions ic ps = map (\<lambda>p. p\<lparr>pol_Position := m (pol_Name p)\<rparr>) ps"
    unfolding auto using found at by (force split: option.splits)
  have "mset (map pol_Position (autoPositions ic ps)) = image_mset m (mset (map pol_Name ps))"
    by (simp add: pos multiset.map_comp comp_def)
  also have "\<dots> = mset (map (\<lambda>kv. m (fst kv)) ss)" unfolding names[symmetric] by (simp add: multiset.map_comp comp_def)
  also have "map (\<lambda>kv. m (fst kv)) ss = map Some (map (\<lambda>i. int i + 1) [0..<length ss])"
    using at by (intro nth_equalityI) auto
  finally have positions: "mset (map pol_Position (autoPositions ic ps)) = mset (map Some [1..int (length ps)])"
    by (simp only: map_Suc_upto len)
  have "the (pol_Position p) < the (pol_Position q)"
    if pq: "p \<in> set (autoPositions ic ps)" "q \<in> set (autoPositions ic ps)" "getPolicyPriority ic q < getPolicyPriority ic p" for p q
  proof -
    have reached: "\<exists>p0 i. x = p0\<lparr>pol_Position := m (pol_Name p0)\<rparr> \<and> i < length ss \<and> pol_Name p0 = fst (ss ! i)
        \<and> getPolicyPriority ic p0 = snd (ss ! i)" if "x \<in> set (autoPositions ic ps)" for x
      using that found unfolding pos by fastforce
    from reached[OF pq(1)] obtain p0 i where p: "p = p0\<lparr>pol_Position := m (pol_Name p0)\<rparr>" "i < length ss" "pol_Name p0 = fst (ss ! i)"
      "getPolicyPriority ic p0 = snd (ss ! i)" by blast
    from reached[OF pq(2)] obtain q0 j where q: "q = q0\<lparr>pol_Position := m (pol_Name q0)\<rparr>" "j < length ss" "pol_Name q0 = fst (ss ! j)"
      "getPolicyPriority ic q0 = snd (ss ! j)" by blast
    have prio: "getPolicyPriority ic p = snd (ss ! i)" "getPolicyPriority ic q = snd (ss ! j)"
      using p q by (simp_all add: getPolicyPriority_def)
    have "sorted (map (\<lambda>kv. - snd kv) ss)" by (simp add: ss_def)
    then have "snd (ss ! i) \<le> snd (ss ! j)" if "j \<le> i"
      using sorted_nth_mono[of "map (\<lambda>kv. - snd kv) ss" j i] that p(2) q(2) by simp
    with pq(3) prio have "i < j" by linarith
    with p q at show ?thesis by simp
  qed
  with positions show ?thesis by (auto simp: pos comp_def)
qed

section \<open>Names of policies\<close>

lemma Itoa_no_letter: "0 \<le> i \<Longrightarrow> c \<in> set (Itoa i) \<Longrightarrow> c \<noteq> CHR ''p'' \<and> c \<noteq> CHR ''r'' \<and> c \<noteq> CHR ''-''"
  using digits_of_digits[of "nat i"] by (auto simp: Itoa_def list_all_iff is_digit_def)

text \<open>Up to 65536 rules with as many paths each, no two policies of a listener share a name.\<close>

theorem GenL7PolicyName_inj:
  assumes "GenL7PolicyName l mode i j = GenL7PolicyName l mode i' j'"
    and "0 \<le> i" "i \<le> 65535" "0 \<le> j" "j \<le> 65535" "0 \<le> i'" "i' \<le> 65535" "0 \<le> j'" "j' \<le> 65535"
  shows "i = i' \<and> j = j'"
proof -
  let ?pre = "map cleanChar (DEFAULT_LB_PREFIX_NAME @ ''_'' @ GenerateHash l @ ''_'' @ (if mode then ''true'' else ''false'')) @ ''-''"
  have name: "GenL7PolicyName l mode a b = (?pre @ CHR ''r'' # Itoa a @ ''-'') @ CHR ''p'' # Itoa b"
    if "0 \<le> a" "a \<le> 65535" "0 \<le> b" "b \<le> 65535" for a b
  proof -
    have "cleanChar (CHR ''r'') = CHR ''r''" "cleanChar (CHR ''p'') = CHR ''p''"
      by (simp_all add: cleanChar_def nameChar_def IsLetter_def)
    with Itoa_port(3)[OF that(1,2)] Itoa_port(3)[OF that(3,4)] show ?thesis
      unfolding GenL7PolicyName_def ValidateName_eq
      by (subst take_all) (simp_all add: DEFAULT_LB_PREFIX_NAME_def Itoa_port(1)[OF that(1,2)] Itoa_port(1)[OF that(3,4)])
  qed
  have no_p: "CHR ''p'' \<notin> set (Itoa j)" "CHR ''p'' \<notin> set (Itoa j')" and no_r: "CHR ''r'' \<notin> set (Itoa i @ ''-'')" "CHR ''r'' \<notin> set (Itoa i' @ ''-'')"
    using Itoa_no_letter assms(2,4,6,8) by fastforce+
  from assms(1) have "(?pre @ CHR ''r'' # Itoa i @ ''-'') @ CHR ''p'' # Itoa j = (?pre @ CHR ''r'' # Itoa i' @ ''-'') @ CHR ''p'' # Itoa j'"
    by (simp only: name[OF assms(2-5)] name[OF assms(6-9)])
  from last_field_eq[OF this no_p] have j: "Itoa j = Itoa j'" and i: "?pre @ CHR ''r'' # (Itoa i @ ''-'') = ?pre @ CHR ''r'' # (Itoa i' @ ''-'')"
    by simp_all
  from last_field_eq[OF i no_r] have "Itoa i = Itoa i'" by simp
  with j show ?thesis
    using Itoa_port(4)[OF assms(2,3)] Itoa_port(4)[OF assms(4,5)] Itoa_port(4)[OF assms(6,7)] Itoa_port(4)[OF assms(8,9)] assms(2,4,6,8)
    by (metis eq_nat_nat_iff)
qed

section \<open>Headers\<close>

lemma map_of_fold_set:
  "map_of (fold (\<lambda>(k, v) m. AList.update k (g v) m) kvs m) = map_of m ++ map_of (rev (map (\<lambda>(k, v). (k, g v)) kvs))"
proof (induction kvs arbitrary: m)
  case (Cons kv kvs)
  then show ?case by (cases kv) (auto simp: update_conv' map_add_def fun_eq_iff split: option.splits)
qed simp

lemma distinct_fold_set:
  "distinct (map fst m) \<Longrightarrow> distinct (map fst (fold (\<lambda>(k, v) m. AList.update k (g v) m) kvs m))"
  by (induction kvs arbitrary: m) (auto simp: distinct_update)

lemma headersOf_facts:
  assumes "distinct (map fst m)"
  shows "sorted (map ih_HeaderName (headersOf (Some m))) \<and> distinct (map ih_HeaderName (headersOf (Some m)))
    \<and> (\<forall>h. h \<in> set (headersOf (Some m)) \<longleftrightarrow> map_of m (ih_HeaderName h) = Some (ih_HeaderValue h))"
proof -
  let ?hs = "map (\<lambda>(k, v). \<lparr>ih_HeaderName = k, ih_HeaderValue = v\<rparr>) m"
  have "map ih_HeaderName ?hs = map fst m" by auto
  with assms have "distinct (map ih_HeaderName ?hs)" by metis
  then have "distinct (map ih_HeaderName (sort_key ih_HeaderName ?hs))"
    by (metis mset_map mset_sort mset_eq_imp_distinct_iff)
  moreover have "h \<in> set ?hs \<longleftrightarrow> map_of m (ih_HeaderName h) = Some (ih_HeaderValue h)" for h
    using assms by (cases h) force
  ultimately show ?thesis by (simp add: headersOf_def)
qed

text \<open>
  Inserted headers. A text that is not JSON - also \<open>Header:Value,...\<close>, the form the documentation gives -
  changes nothing; a JSON object is laid over the three default headers, so those it does not name
  stay; in any case the headers come sorted, each name once.
\<close>

theorem buildHttpInsertHeaders_over_defaults:
  assumes "parseStringAnnotation (it_parser t) SuffixInsertHeaders (ingAnns t) [] = Some (raw, key)"
  shows "(scanJson raw = None \<longrightarrow> buildHttpInsertHeaders t = headersOf (Some defaultHeaders)
           \<and> buildHttpsInsertHeaders t = headersOf (Some defaultHeaders))
    \<and> (scanJson raw = Some (JObj [(''http'', JObj hs)]) \<longrightarrow>
         sorted (map ih_HeaderName (buildHttpInsertHeaders t)) \<and> distinct (map ih_HeaderName (buildHttpInsertHeaders t))
         \<and> (\<forall>h. h \<in> set (buildHttpInsertHeaders t) \<longleftrightarrow>
              (case map_of (rev hs) (ih_HeaderName h) of
                 Some v \<Rightarrow> ih_HeaderValue h = decodeString v []
               | None \<Rightarrow> map_of defaultHeaders (ih_HeaderName h) = Some (ih_HeaderValue h))))"
proof (intro conjI impI)
  assume "scanJson raw = None"
  with assms show "buildHttpInsertHeaders t = headersOf (Some defaultHeaders)" "buildHttpsInsertHeaders t = headersOf (Some defaultHeaders)"
    by (simp_all add: buildHttpInsertHeaders_def buildHttpsInsertHeaders_def buildAnnotationInsertHeaders_def ParseJSONAnnotation_def)
next
  let ?m = "fold (\<lambda>(k, v) m. AList.update k (decodeString v []) m) hs defaultHeaders"
  assume "scanJson raw = Some (JObj [(''http'', JObj hs)])"
  moreover have "ToUpper ''http'' = ''HTTP''" by code_simp
  ultimately have b: "buildHttpInsertHeaders t = headersOf (Some ?m)"
    using assms by (simp add: buildHttpInsertHeaders_def buildAnnotationInsertHeaders_def ParseJSONAnnotation_def decodeInsertHeaders_def
        decodeStruct_def decodeStringMap_def)
  have "distinct (map fst ?m)" by (rule distinct_fold_set) (simp add: defaultHeaders_def)
  note facts = headersOf_facts[OF this]
  then show "sorted (map ih_HeaderName (buildHttpInsertHeaders t))" "distinct (map ih_HeaderName (buildHttpInsertHeaders t))"
    by (simp_all add: b)
  have "map_of (rev (map (\<lambda>(k, v). (k, decodeString v [])) hs)) n = map_option (\<lambda>v. decodeString v []) (map_of (rev hs) n)" for n
    by (simp add: rev_map map_of_map)
  then have "map_of ?m n = (case map_of (rev hs) n of Some v \<Rightarrow> Some (decodeString v []) | None \<Rightarrow> map_of defaultHeaders n)" for n
    by (simp add: map_of_fold_set map_add_def split: option.splits)
  with facts show "\<forall>h. h \<in> set (buildHttpInsertHeaders t) \<longleftrightarrow>
              (case map_of (rev hs) (ih_HeaderName h) of
                 Some v \<Rightarrow> ih_HeaderValue h = decodeString v []
               | None \<Rightarrow> map_of defaultHeaders (ih_HeaderName h) = Some (ih_HeaderValue h))"
    by (auto simp: b split: option.splits)
qed

end
