(* ===== verification/Ing_Pools.thy ===== *)
theory Ing_Pools
  imports Ing_Paths
begin

text \<open>
  What an Ingress is served by: pools, listeners and policies (\<^verbatim>\<open>internal/usecase/ingress_uc/build_pool.go\<close>),
  and the security group rules of its backends (\<^verbatim>\<open>build_sec_group.go\<close>).
\<close>

section \<open>Backends\<close>

text \<open>
  A lookup that fails with \<open>errBackendUnresolvable\<close>, wrapped in a message, is \<open>Unresolvable\<close>: its callers
  ask \<open>errors.Is\<close> for it and go on. Every other error is an error of the run.
\<close>

datatype 'a backend = Unresolvable string | Resolved 'a

definition backendPortDescription :: "ServiceBackendPort \<Rightarrow> string" where
  "backendPortDescription port = (if sbp_Name port \<noteq> [] then Quote (sbp_Name port) else Itoa (sbp_Number port))"

definition serviceBackendToIntOrString :: "ServiceBackendPort \<Rightarrow> IntOrString" where
  "serviceBackendToIntOrString port = (if sbp_Name port \<noteq> [] then FromString (sbp_Name port) else FromInt (sbp_Number port))"

definition findBackendPort :: "IngressServiceBackend \<Rightarrow> Service \<Rightarrow> ServicePort option" where
  "findBackendPort service findService =
     find (\<lambda>port. (sbp_Name (isb_Port service) \<noteq> [] \<and> sbp_Name (isb_Port service) = svcp_Name port)
       \<or> sbp_Number (isb_Port service) = svcp_Port port) (svc_Ports findService)"

definition backendKey :: "ingTask \<Rightarrow> IngressServiceBackend \<Rightarrow> string" where
  "backendKey t service = it_ns t @ ''/'' @ isb_Name service"

definition unresolvable :: "string \<Rightarrow> 'a backend" where
  "unresolvable what = Unresolvable (''backend cannot be resolved: '' @ what)"

text \<open>The first part of \<open>buildPool\<close> and of \<open>buildPoolSecgroupRule\<close>: the service and its port.\<close>

definition backendPort :: "ingTask \<Rightarrow> IngressServiceBackend \<Rightarrow> ServicePort backend S" where
  "backendPort t service =
     andThen (attempt (GetService (it_world t) (it_ns t) (isb_Name service))) (\<lambda>got. case got of
       Inl err \<Rightarrow>
         if w_IsNotFound (it_world t) err then returnM (unresolvable (backendKey t service))
         else failM (errorf (''failed to get service '' @ backendKey t service) err)
     | Inr findService \<Rightarrow>
         (case findBackendPort service findService of
            None \<Rightarrow> returnM (unresolvable (backendKey t service @ '' has no port '' @ backendPortDescription (isb_Port service)))
          | Some servicePort \<Rightarrow> returnM (Resolved servicePort)))"

definition backendNodePorts :: "ingTask \<Rightarrow> gomap \<Rightarrow> IngressServiceBackend \<Rightarrow> EndpointAddress list S" where
  "backendNodePorts t targetNodeLabels service =
     wrapErr (errorf (''failed to resolve node port endpoints for service '' @ backendKey t service))
       (ResolveNodePortEndpoints (it_kc t) False (it_world t) (it_ns t) (isb_Name service)
          (serviceBackendToIntOrString (isb_Port service)) targetNodeLabels)"

definition backendPods :: "ingTask \<Rightarrow> IngressServiceBackend \<Rightarrow> EndpointAddress list S" where
  "backendPods t service =
     wrapErr (errorf (''failed to resolve pod endpoints for service '' @ backendKey t service))
       (ResolvePodEndpoints (it_world t) (it_ns t) (isb_Name service) (serviceBackendToIntOrString (isb_Port service)))"

definition backendMembers :: "ingTask \<Rightarrow> gomap \<Rightarrow> IngressServiceBackend \<Rightarrow> EndpointAddress list S" where
  "backendMembers t targetNodeLabels service =
     (if ing_getTargetType t = TargetTypeInstance then backendNodePorts t targetNodeLabels service else backendPods t service)"

definition ing_buildHealthMonitor :: "ingTask \<Rightarrow> PoolHealthMonitor" where
  "ing_buildHealthMonitor t =
     (let protocol = ing_buildPoolHealthCheckProtocol t (ProtocolTCP (it_kc t));
          http = (protocol = HealthCheckProtocolHTTP (it_kc t))
      in \<lparr>phm_Protocol = protocol,
          phm_HealthyThreshold = ing_buildPoolHealthyThresholdCount t,
          phm_UnhealthyThreshold = ing_buildPoolUnhealthyThresholdCount t,
          phm_Interval = ing_buildPoolHealthcheckIntervalSeconds t,
          phm_Timeout = ing_buildPoolHealthcheckTimeoutSeconds t,
          phm_HealthCheckMethod = (if http then ing_buildAnnotationHealthcheckHttpMethod t else None),
          phm_HttpVersion = (if http then ing_buildAnnotationHealthcheckHttpVersion t else None),
          phm_HealthCheckPath = (if http then ing_buildAnnotationHealthcheckPath t else None),
          phm_DomainName = (if http then ing_buildAnnotationHealthcheckHttpDomainName t else None),
          phm_SuccessCode = (if http then ing_buildAnnotationSuccessCodes t else None)\<rparr>)"

definition poolOf :: "ingTask \<Rightarrow> IngressServiceBackend \<Rightarrow> ServicePort \<Rightarrow> EndpointAddress list \<Rightarrow> Pool" where
  "poolOf t service servicePort membersAddr =
     \<lparr>pool_Name = GenL7PoolName (it_nameHelper t) (isb_Name service) (svcp_Port servicePort),
      pool_Protocol = PoolProtocolHTTP (it_ic t), pool_Description = None,
      pool_Algorithm = ing_buildPoolAlgorithm t, pool_Stickiness = buildPoolStickiness t,
      pool_TLSEncryption = buildPoolTLSEncryption t,
      pool_HealthMonitor = ing_buildHealthMonitor t,
      pool_Members = sort_key (\<lambda>m. (pm_IP m, pm_Port m)) (map (buildPoolMember (ing_buildHealthcheckPort t)) membersAddr)\<rparr>"

definition ing_buildPool :: "ingTask \<Rightarrow> gomap \<Rightarrow> IngressServiceBackend option \<Rightarrow> Pool backend S" where
  "ing_buildPool t targetNodeLabels service =
     (case service of
        None \<Rightarrow> failM nilDereference
      | Some service \<Rightarrow>
          andThen (backendPort t service) (\<lambda>found. case found of
            Unresolvable msg \<Rightarrow> returnM (Unresolvable msg)
          | Resolved servicePort \<Rightarrow>
              andThen (backendMembers t targetNodeLabels service) (\<lambda>membersAddr.
                returnM (Resolved (poolOf t service servicePort membersAddr)))))"

section \<open>Pools, listeners and policies\<close>

record routes =
  r_pools :: "Pool list"
  r_http :: "Listener option"
  r_https :: "Listener option"

definition liftResult :: "'a result \<Rightarrow> 'a S" where
  "liftResult r = (case r of Inl err \<Rightarrow> failM err | Inr x \<Rightarrow> returnM x)"

definition appendPool :: "Pool list \<Rightarrow> Pool \<Rightarrow> Pool list" where
  "appendPool allPools newPool =
     (if list_ex (\<lambda>existingPool. pool_Name existingPool = pool_Name newPool) allPools then allPools else allPools @ [newPool])"

definition buildDefaultPool :: "ingTask \<Rightarrow> gomap \<Rightarrow> Pool option S" where
  "buildDefaultPool t targetNodeLabels =
     (case ingr_DefaultBackend (it_ingress t) of
        None \<Rightarrow> returnM None
      | Some service \<Rightarrow>
          andThen (ing_buildPool t targetNodeLabels service) (\<lambda>r. returnM (case r of
            Unresolvable _ \<Rightarrow> None
          | Resolved defaultPool \<Rightarrow> Some (defaultPool\<lparr>pool_Name := DEFAULT_NAME_DEFAULT_POOL\<rparr>))))"

definition listenerWith :: "Pool option \<Rightarrow> go_error + Listener \<Rightarrow> go_error + Listener option" where
  "listenerWith defaultPool built =
     (case built of
        Inl err \<Rightarrow> Inl err
      | Inr l \<Rightarrow> Inr (Some (case defaultPool of None \<Rightarrow> l | Some p \<Rightarrow> l\<lparr>lis_DefaultPoolName := Some (pool_Name p)\<rparr>)))"

definition httpListener :: "ingTask \<Rightarrow> Pool option \<Rightarrow> go_error + Listener option" where
  "httpListener t defaultPool =
     (if checkNeedHTTPListener t then listenerWith defaultPool (buildListeners t False) else Inr None)"

definition httpsListener :: "ingTask \<Rightarrow> Pool option \<Rightarrow> go_error + Listener option" where
  "httpsListener t defaultPool =
     (case isValidToBuildHTTPSListener t of
        Inl err \<Rightarrow> Inl err
      | Inr valid \<Rightarrow> if valid then listenerWith defaultPool (buildListeners t True) else Inr None)"

definition withPolicy :: "Policy \<Rightarrow> Listener \<Rightarrow> Listener" where
  "withPolicy newPolicy l = l\<lparr>lis_Policies := lis_Policies l @ [newPolicy]\<rparr>"

definition addPolicy :: "bool \<Rightarrow> Policy \<Rightarrow> routes \<Rightarrow> routes S" where
  "addPolicy isHttpsListener newPolicy st =
     (if isHttpsListener then
        (case r_https st of None \<Rightarrow> failM nilDereference | Some l \<Rightarrow> returnM (st\<lparr>r_https := Some (withPolicy newPolicy l)\<rparr>))
      else
        (case r_http st of None \<Rightarrow> failM nilDereference | Some l \<Rightarrow> returnM (st\<lparr>r_http := Some (withPolicy newPolicy l)\<rparr>)))"

definition servePath ::
  "ingTask \<Rightarrow> gomap \<Rightarrow> nat \<Rightarrow> IngressRule \<Rightarrow> nat \<times> HTTPIngressPath \<Rightarrow> routes \<Rightarrow> routes S"
where
  "servePath t targetNodeLabels ruleIndex rule ip st =
     (case ip of (pathIndex, path) \<Rightarrow>
        let isHttpsListener = (ir_Host rule \<in> hostUsingTLS t);
            policyName = GenL7PolicyName (it_nameHelper t) isHttpsListener (int ruleIndex) (int pathIndex)
        in andThen (liftResult (buildPolicyByPath t (ir_Host rule) policyName path)) (\<lambda>newPolicy.
             if pol_Action newPolicy = PolicyActionREDIRECTTOPOOL (it_kc t) then
               andThen (ing_buildPool t targetNodeLabels (hp_Service path)) (\<lambda>r. case r of
                 Unresolvable _ \<Rightarrow> returnM st
               | Resolved newPool \<Rightarrow>
                   addPolicy isHttpsListener (newPolicy\<lparr>pol_RedirectPoolName := Some (pool_Name newPool)\<rparr>)
                     (st\<lparr>r_pools := appendPool (r_pools st) newPool\<rparr>))
             else addPolicy isHttpsListener newPolicy st))"

definition serveRule :: "ingTask \<Rightarrow> gomap \<Rightarrow> nat \<times> IngressRule \<Rightarrow> routes \<Rightarrow> routes S" where
  "serveRule t targetNodeLabels ir st =
     (case ir of (ruleIndex, rule) \<Rightarrow>
        (case ir_HTTP rule of
           None \<Rightarrow> failM nilDereference
         | Some paths \<Rightarrow> foldM (servePath t targetNodeLabels ruleIndex rule) (enumerate 0 paths) st))"

definition reorder :: "ingTask \<Rightarrow> routes \<Rightarrow> routes" where
  "reorder t st =
     (if buildAnnotationAutoReorderPolicies t = Some True
      then st\<lparr>r_http := buildAutoAddPolicyPosition (it_ic t) (r_http st), r_https := buildAutoAddPolicyPosition (it_ic t) (r_https st)\<rparr>
      else st)"

definition allListeners :: "routes \<Rightarrow> Listener list" where
  "allListeners st = (case r_http st of None \<Rightarrow> [] | Some l \<Rightarrow> [l]) @ (case r_https st of None \<Rightarrow> [] | Some l \<Rightarrow> [l])"

definition sortPolicies :: "Listener \<Rightarrow> Listener" where
  "sortPolicies l = l\<lparr>lis_Policies := sort_key pol_Name (lis_Policies l)\<rparr>"

definition ing_buildPoolsAndListeners :: "ingTask \<Rightarrow> gomap \<Rightarrow> (Pool list \<times> Listener list) S" where
  "ing_buildPoolsAndListeners t targetNodeLabels =
     andThen (buildDefaultPool t targetNodeLabels) (\<lambda>defaultPool.
     andThen (liftResult (httpListener t defaultPool)) (\<lambda>http.
     andThen (liftResult (httpsListener t defaultPool)) (\<lambda>https.
     andThen (foldM (serveRule t targetNodeLabels) (enumerate 0 (ingr_Rules (it_ingress t)))
       \<lparr>r_pools = (case defaultPool of None \<Rightarrow> [] | Some p \<Rightarrow> [p]), r_http = http, r_https = https\<rparr>) (\<lambda>st.
     returnM (sort_key pool_Name (r_pools st), map sortPolicies (sort_key lis_Name (allListeners (reorder t st))))))))"

section \<open>Security group rules\<close>

definition ing_buildIsAutoCreateSecGroup :: "ingTask \<Rightarrow> bool \<times> string list" where
  "ing_buildIsAutoCreateSecGroup t = buildIsAutoCreateSecGroup (asService t)"

definition ing_getAllSubnetCidrs :: "ingTask \<Rightarrow> string list S" where
  "ing_getAllSubnetCidrs t = getAllSubnetCidrs (it_world t)"

text \<open>A rule that lets TCP in at one port from one network.\<close>

definition tcpIn :: "ingTask \<Rightarrow> int \<Rightarrow> string \<Rightarrow> string \<Rightarrow> NodeSecurityGroupRule" where
  "tcpIn t p cidr description =
     \<lparr>nr_Protocol = SecgroupRuleProtocolTCP (it_kc t), nr_FromPort = p, nr_ToPort = p, nr_CIDR = cidr,
      nr_Description = description, nr_Direction = SecgroupRuleDirectionIngress (it_kc t),
      nr_EtherType = SecgroupRuleEtherTypeIPv4 (it_kc t)\<rparr>"

definition ing_nativeRules :: "ingTask \<Rightarrow> IngressServiceBackend \<Rightarrow> NodeSecurityGroupRule list S" where
  "ing_nativeRules t service =
     andThen (wrapErr (\<lambda>err. ErrorString (''failed to detect CNI type: '' @ Error err)) (DetectCNIType (it_world t))) (\<lambda>cniMode.
       if cniMode \<noteq> CiliumNativeRouting then returnM []
       else andThen (GetListTargetPort (it_world t) (it_ns t) (isb_Name service) (serviceBackendToIntOrString (isb_Port service))) (\<lambda>podPorts.
            andThen (ing_getAllSubnetCidrs t) (\<lambda>allSubnetCidrs.
              returnM (concat (map (\<lambda>podPort.
                map (\<lambda>cidr. tcpIn t (toInt32 podPort) cidr ''Allow other node access pod port - Cilium native'') allSubnetCidrs) podPorts)))))"

definition healthRules :: "ingTask \<Rightarrow> string \<Rightarrow> NodeSecurityGroupRule list" where
  "healthRules t subnetCidr =
     (case ing_buildHealthcheckPort t of
        None \<Rightarrow> []
      | Some p \<Rightarrow> [tcpIn t (toInt32 p) subnetCidr ''Allow user custom health check port''])"

definition memberIn :: "ingTask \<Rightarrow> string \<Rightarrow> EndpointAddress \<Rightarrow> NodeSecurityGroupRule" where
  "memberIn t subnetCidr member =
     tcpIn t (toInt32 (ead_Port member)) subnetCidr (''Allow load balancer access to port '' @ Itoa (ead_Port member))"

definition buildPoolSecgroupRule ::
  "ingTask \<Rightarrow> gomap \<Rightarrow> string \<Rightarrow> IngressServiceBackend option \<Rightarrow> NodeSecurityGroupRule list backend S"
where
  "buildPoolSecgroupRule t targetNodeLabels subnetCidr service =
     (case service of
        None \<Rightarrow> failM nilDereference
      | Some service \<Rightarrow>
          andThen (backendPort t service) (\<lambda>found. case found of
            Unresolvable msg \<Rightarrow> returnM (Unresolvable msg)
          | Resolved servicePort \<Rightarrow>
              andThen (if ing_getTargetType t = TargetTypeInstance
                       then andThen (backendNodePorts t targetNodeLabels service) (\<lambda>membersAddr.
                            andThen (ing_nativeRules t service) (\<lambda>native. returnM (membersAddr, native)))
                       else andThen (backendPods t service) (\<lambda>membersAddr. returnM (membersAddr, []))) (\<lambda>(membersAddr, native).
                returnM (Resolved (native @ healthRules t subnetCidr @ map (memberIn t subnetCidr) membersAddr)))))"

text \<open>The rules of one backend, none when it is unresolvable.\<close>

definition backendRules :: "ingTask \<Rightarrow> gomap \<Rightarrow> string \<Rightarrow> IngressServiceBackend option \<Rightarrow> NodeSecurityGroupRule list S" where
  "backendRules t targetNodeLabels subnetCidr service =
     andThen (buildPoolSecgroupRule t targetNodeLabels subnetCidr service) (\<lambda>r. returnM (case r of
       Unresolvable _ \<Rightarrow> []
     | Resolved rules \<Rightarrow> rules))"

definition ruleRules :: "ingTask \<Rightarrow> gomap \<Rightarrow> string \<Rightarrow> IngressRule \<Rightarrow> NodeSecurityGroupRule list S" where
  "ruleRules t targetNodeLabels subnetCidr rule =
     (case ir_HTTP rule of
        None \<Rightarrow> failM nilDereference
      | Some paths \<Rightarrow>
          andThen (mapM (\<lambda>path. backendRules t targetNodeLabels subnetCidr (hp_Service path)) paths) (\<lambda>rs. returnM (concat rs)))"

definition ing_ensureSecgroupPING_UDP :: "ingTask \<Rightarrow> NodeSecurityGroupRule list \<Rightarrow> NodeSecurityGroupRule list" where
  "ing_ensureSecgroupPING_UDP t rules = ensureSecgroupPING_UDP (it_kc t) rules"
definition ing_ensureDefaultEngressSecgroupRule :: "ingTask \<Rightarrow> NodeSecurityGroupRule list \<Rightarrow> NodeSecurityGroupRule list" where
  "ing_ensureDefaultEngressSecgroupRule t rules = ensureDefaultEngressSecgroupRule (it_kc t) rules"
definition ing_ensureUniqueSecgroupRules :: "NodeSecurityGroupRule list \<Rightarrow> NodeSecurityGroupRule list" where
  "ing_ensureUniqueSecgroupRules rules = ensureUniqueSecgroupRules rules"

definition ing_buildDefaultSecurityGroupRule :: "ingTask \<Rightarrow> string \<Rightarrow> gomap \<Rightarrow> NodeSecurityGroupRule list S" where
  "ing_buildDefaultSecurityGroupRule t subnetCidr targetNodeLabels =
     andThen (case ingr_DefaultBackend (it_ingress t) of
         None \<Rightarrow> returnM []
       | Some service \<Rightarrow> backendRules t targetNodeLabels subnetCidr service) (\<lambda>defaults.
     andThen (mapM (ruleRules t targetNodeLabels subnetCidr) (ingr_Rules (it_ingress t))) (\<lambda>rules.
       returnM (SortSecurityGroupRules (ing_ensureUniqueSecgroupRules (ing_ensureDefaultEngressSecgroupRule t
         (ing_ensureSecgroupPING_UDP t (defaults @ concat rules)))))))"

section \<open>Building only reads\<close>

lemma safe_liftResult [safe_intro]: "safe (addsR svcHist P) (liftResult r) s"
  by (cases r) (simp_all add: liftResult_def adds.safe_returnM adds.safe_failM)

lemma safe_case_backend [safe_intro]:
  "(\<And>msg. r = Unresolvable msg \<Longrightarrow> safe R (f msg) s) \<Longrightarrow> (\<And>x. r = Resolved x \<Longrightarrow> safe R (g x) s)
   \<Longrightarrow> safe R (case r of Unresolvable msg \<Rightarrow> f msg | Resolved x \<Rightarrow> g x) s"
  by (cases r) simp_all

lemma safe_read_backend:
  "safe (addsR svcHist svcRead) (backendPort t service) s"
  "safe (addsR svcHist svcRead) (backendNodePorts t ls service) s"
  "safe (addsR svcHist svcRead) (backendPods t service) s"
  "safe (addsR svcHist svcRead) (ing_nativeRules t service) s"
  unfolding backendPort_def backendNodePorts_def backendPods_def ing_nativeRules_def ing_getAllSubnetCidrs_def getAllSubnetCidrs_def
    world_defs
  by (intro read_intro; simp add: svcRead_def)+

lemma safe_read_ing_buildPool: "safe (addsR svcHist svcRead) (ing_buildPool t ls service) s"
  unfolding ing_buildPool_def backendMembers_def by (intro safe_intro safe_read_backend)

lemma safe_read_servePath: "safe (addsR svcHist svcRead) (servePath t ls i rule ip st) s"
  unfolding servePath_def addPolicy_def Let_def by (intro safe_intro safe_read_ing_buildPool)

lemma safe_read_ing_build:
  "safe (addsR svcHist svcRead) (ing_buildPoolsAndListeners t ls) s"
  "safe (addsR svcHist svcRead) (ing_buildDefaultSecurityGroupRule t cidr ls) s'"
  unfolding ing_buildPoolsAndListeners_def buildDefaultPool_def serveRule_def ing_buildDefaultSecurityGroupRule_def ruleRules_def
    backendRules_def buildPoolSecgroupRule_def
  by (intro safe_intro safe_read_ing_buildPool safe_read_servePath safe_read_backend)+

end
