(* ===== verification/Ing_Routes.thy ===== *)
theory Ing_Routes
  imports Ing_Pools
begin

text \<open>
  What \<^verbatim>\<open>buildPoolsAndListeners\<close> guarantees: each path is served or, when its backend is unresolvable,
  dropped; nothing that is built refers to something that is not; with automatic order the more special
  policy comes first; and what a failing build fails on.
\<close>

section \<open>Loops that carry a state\<close>

lemma foldM_rule:
  assumes "foldM f xs st s = (Inr st', s')" and "I [] st s"
    and "\<And>pre x st s st' s'. x \<in> set xs \<Longrightarrow> f x st s = (Inr st', s') \<Longrightarrow> I pre st s \<Longrightarrow> I (pre @ [x]) st' s'"
  shows "I xs st' s'"
proof -
  have "I (pre @ ys) st' s'"
    if "foldM f ys st s = (Inr st', s')" "I pre st s" "set ys \<subseteq> set xs" for pre ys st s
    using that
  proof (induction ys arbitrary: pre st s)
    case (Cons y ys)
    from Cons.prems obtain st1 s1 where "f y st s = (Inr st1, s1)" "foldM f ys st1 s1 = (Inr st', s')"
      by (auto simp: andThen_Inr_iff)
    with Cons.IH[of st1 s1 "pre @ [y]"] assms(3)[of y st s st1 s1 pre] Cons.prems show ?case by simp
  qed simp
  from this[of xs st s "[]"] assms(1,2) show ?thesis by simp
qed

lemma foldM_error:
  assumes "foldM f xs st s = (Inl e, s')" and "K st"
    and "\<And>x st s st' s'. x \<in> set xs \<Longrightarrow> f x st s = (Inr st', s') \<Longrightarrow> K st \<Longrightarrow> K st'"
  shows "\<exists>x \<in> set xs. \<exists>st1 s1. K st1 \<and> f x st1 s1 = (Inl e, s')"
  using assms
proof (induction xs arbitrary: st s)
  case (Cons x xs)
  from Cons.prems(1) consider "f x st s = (Inl e, s')"
    | st1 s1 where "f x st s = (Inr st1, s1)" "foldM f xs st1 s1 = (Inl e, s')"
    by (auto simp: andThen_Inl_iff)
  then show ?case
  proof cases
    case 2
    with Cons.prems(2,3) have "K st1" by (meson list.set_intros(1))
    from Cons.IH[OF 2(2) this] Cons.prems(3) show ?thesis by (metis list.set_intros(2))
  qed (use Cons.prems in auto)
qed simp

lemma liftResult_Inr [simp]: "liftResult r s = (Inr x, s') \<longleftrightarrow> r = Inr x \<and> s' = s"
  by (cases r) (auto simp: liftResult_def)

lemma liftResult_Inl [simp]: "liftResult r s = (Inl e, s') \<longleftrightarrow> r = Inl e \<and> s' = s"
  by (cases r) (auto simp: liftResult_def)

section \<open>What a backend is resolved to\<close>

text \<open>The calls of the run show that the Service does not exist, or does not serve the port.\<close>

definition unresolvedIn :: "ingTask \<Rightarrow> IngressServiceBackend \<Rightarrow> svcHistory \<Rightarrow> bool" where
  "unresolvedIn t service h \<longleftrightarrow>
     (\<exists>err. SvGetService (it_ns t) (isb_Name service) (Inl err) \<in> set h \<and> w_IsNotFound (it_world t) err)
     \<or> (\<exists>svc. SvGetService (it_ns t) (isb_Name service) (Inr svc) \<in> set h \<and> findBackendPort service svc = None)"

text \<open>They show that it does, at this port.\<close>

definition resolvedIn :: "ingTask \<Rightarrow> IngressServiceBackend \<Rightarrow> ServicePort \<Rightarrow> svcHistory \<Rightarrow> bool" where
  "resolvedIn t service servicePort h \<longleftrightarrow>
     (\<exists>svc. SvGetService (it_ns t) (isb_Name service) (Inr svc) \<in> set h \<and> findBackendPort service svc = Some servicePort)"

lemma seen_mono:
  "unresolvedIn t b h \<Longrightarrow> set h \<subseteq> set h' \<Longrightarrow> unresolvedIn t b h'"
  "resolvedIn t b p h \<Longrightarrow> set h \<subseteq> set h' \<Longrightarrow> resolvedIn t b p h'"
  by (auto simp: unresolvedIn_def resolvedIn_def)

lemma backendPort_result:
  assumes "backendPort t b s = (Inr r, s')"
  shows "case r of Unresolvable _ \<Rightarrow> unresolvedIn t b (svcHist s') | Resolved p \<Rightarrow> resolvedIn t b p (svcHist s')"
  using assms
  by (auto simp: backendPort_def GetService_def andThen_def attempt_def unresolvable_def unresolvedIn_def resolvedIn_def
      split: sum.splits if_splits option.splits)

lemma ing_buildPool_result:
  assumes "ing_buildPool t ls service s = (Inr r, s')"
  shows "\<exists>b. service = Some b \<and> (case r of
      Unresolvable _ \<Rightarrow> unresolvedIn t b (svcHist s')
    | Resolved pool \<Rightarrow> \<exists>p eps s1. resolvedIn t b p (svcHist s') \<and> backendMembers t ls b s1 = (Inr eps, s') \<and> pool = poolOf t b p eps)"
proof -
  from assms obtain b found s1 where b: "service = Some b" and port: "backendPort t b s = (Inr found, s1)"
    and rest: "(case found of Unresolvable msg \<Rightarrow> returnM (Unresolvable msg)
          | Resolved servicePort \<Rightarrow> andThen (backendMembers t ls b) (\<lambda>eps. returnM (Resolved (poolOf t b servicePort eps)))) s1 = (Inr r, s')"
    by (auto simp: ing_buildPool_def andThen_Inr_iff split: option.splits)
  show ?thesis
  proof (cases found)
    case (Unresolvable msg)
    with rest backendPort_result[OF port] b show ?thesis by auto
  next
    case (Resolved p)
    with rest obtain eps where eps: "backendMembers t ls b s1 = (Inr eps, s')" "r = Resolved (poolOf t b p eps)"
      by (auto simp: andThen_Inr_iff)
    have "safe (addsR svcHist svcRead) (backendMembers t ls b) s1"
      unfolding backendMembers_def by (intro safe_intro safe_read_backend)
    from read_grows[OF this eps(1)] backendPort_result[OF port] Resolved have "resolvedIn t b p (svcHist s')"
      by (auto elim: seen_mono)
    with b eps show ?thesis by auto
  qed
qed

section \<open>What becomes of each path\<close>

definition pathsOf :: "nat \<times> IngressRule \<Rightarrow> (nat \<times> IngressRule \<times> nat \<times> HTTPIngressPath) list" where
  "pathsOf ir = (case ir of (i, rule) \<Rightarrow>
     map (\<lambda>(j, path). (i, rule, j, path)) (enumerate 0 (case ir_HTTP rule of None \<Rightarrow> [] | Some paths \<Rightarrow> paths)))"

definition allPaths :: "ingTask \<Rightarrow> (nat \<times> IngressRule \<times> nat \<times> HTTPIngressPath) list" where
  "allPaths t = concat (map pathsOf (enumerate 0 (ingr_Rules (it_ingress t))))"

text \<open>A path is served by a policy, or dropped.\<close>

definition pathOutcome :: "ingTask \<Rightarrow> svcHistory \<Rightarrow> nat \<times> IngressRule \<times> nat \<times> HTTPIngressPath \<Rightarrow> Policy option \<Rightarrow> bool" where
  "pathOutcome t h d out \<longleftrightarrow>
     (case d of (i, rule, j, path) \<Rightarrow>
        \<exists>p0. buildPolicyByPath t (ir_Host rule)
               (GenL7PolicyName (it_nameHelper t) (ir_Host rule \<in> hostUsingTLS t) (int i) (int j)) path = Inr p0
           \<and> (case out of
                None \<Rightarrow> pol_Action p0 = PolicyActionREDIRECTTOPOOL (it_kc t)
                  \<and> (\<exists>b. hp_Service path = Some b \<and> unresolvedIn t b h)
              | Some p \<Rightarrow>
                  if pol_Action p0 = PolicyActionREDIRECTTOPOOL (it_kc t) then
                    \<exists>b port. hp_Service path = Some b \<and> resolvedIn t b port h
                      \<and> p = p0\<lparr>pol_RedirectPoolName := Some (GenL7PoolName (it_nameHelper t) (isb_Name b) (svcp_Port port))\<rparr>
                  else p = p0))"

lemma pathOutcome_mono: "pathOutcome t h d out \<Longrightarrow> set h \<subseteq> set h' \<Longrightarrow> pathOutcome t h' d out"
  unfolding pathOutcome_def by (fastforce elim: seen_mono split: option.splits if_splits)

text \<open>The policies of the served paths of the HTTPS listener, or of the HTTP listener, in order.\<close>

definition servedPolicies :: "ingTask \<Rightarrow> bool \<Rightarrow> ((nat \<times> IngressRule \<times> nat \<times> HTTPIngressPath) \<times> Policy option) list \<Rightarrow> Policy list" where
  "servedPolicies t https outs =
     List.map_filter (\<lambda>((i, rule, j, path), out). if (ir_Host rule \<in> hostUsingTLS t) = https then out else None) outs"

definition policiesOf :: "Listener option \<Rightarrow> Policy list" where
  "policiesOf l = (case l of None \<Rightarrow> [] | Some l \<Rightarrow> lis_Policies l)"

definition frameOf :: "Listener option \<Rightarrow> Listener option" where
  "frameOf l = map_option (\<lambda>l. l\<lparr>lis_Policies := []\<rparr>) l"

definition pointsTo :: "ingTask \<Rightarrow> Pool list \<Rightarrow> Policy \<Rightarrow> bool" where
  "pointsTo t pools p \<longleftrightarrow> (pol_Action p = PolicyActionREDIRECTTOPOOL (it_kc t) \<longrightarrow> (\<exists>pool \<in> set pools. pol_RedirectPoolName p = Some (pool_Name pool)))"

definition routesOk ::
  "ingTask \<Rightarrow> routes \<Rightarrow> (nat \<times> IngressRule \<times> nat \<times> HTTPIngressPath) list \<Rightarrow> routes \<Rightarrow> svcSt \<Rightarrow> bool"
where
  "routesOk t st0 seen st s \<longleftrightarrow>
     (\<exists>outs. list_all2 (pathOutcome t (svcHist s)) seen outs
        \<and> policiesOf (r_http st) = servedPolicies t False (zip seen outs)
        \<and> policiesOf (r_https st) = servedPolicies t True (zip seen outs))
     \<and> frameOf (r_http st) = frameOf (r_http st0) \<and> frameOf (r_https st) = frameOf (r_https st0)
     \<and> distinct (map pool_Name (r_pools st)) \<and> set (r_pools st0) \<subseteq> set (r_pools st)
     \<and> list_all (pointsTo t (r_pools st)) (policiesOf (r_http st) @ policiesOf (r_https st))"

lemma appendPool_facts:
  "distinct (map pool_Name pools) \<Longrightarrow> distinct (map pool_Name (appendPool pools p))"
  "set pools \<subseteq> set (appendPool pools p)" "\<exists>q \<in> set (appendPool pools p). pool_Name p = pool_Name q"
  by (auto simp: appendPool_def list_ex_iff intro: sym)

lemma servedPolicies_snoc:
  "length ds = length outs \<Longrightarrow> servedPolicies t https (zip (ds @ [(i, rule, j, path)]) (outs @ [out]))
     = servedPolicies t https (zip ds outs) @ (if (ir_Host rule \<in> hostUsingTLS t) = https then (case out of None \<Rightarrow> [] | Some p \<Rightarrow> [p]) else [])"
  by (cases out) (simp_all add: servedPolicies_def List.map_filter_def)

lemma addPolicy_Inr:
  assumes "addPolicy https p st s = (Inr st', s')"
  shows "s' = s \<and> r_pools st' = r_pools st
    \<and> policiesOf (r_http st') = policiesOf (r_http st) @ (if https then [] else [p])
    \<and> policiesOf (r_https st') = policiesOf (r_https st) @ (if https then [p] else [])
    \<and> frameOf (r_http st') = frameOf (r_http st) \<and> frameOf (r_https st') = frameOf (r_https st)"
  using assms by (auto simp: addPolicy_def policiesOf_def frameOf_def withPolicy_def split: if_splits option.splits)

text \<open>What one path adds.\<close>

lemma routesOk_step:
  assumes ok: "routesOk t st0 seen st s" and grows: "set (svcHist s) \<subseteq> set (svcHist s')"
    and out: "pathOutcome t (svcHist s') (i, rule, j, path) out"
    and http: "policiesOf (r_http st') = policiesOf (r_http st) @ (if ir_Host rule \<in> hostUsingTLS t then [] else case out of None \<Rightarrow> [] | Some p \<Rightarrow> [p])"
    and https: "policiesOf (r_https st') = policiesOf (r_https st) @ (if ir_Host rule \<in> hostUsingTLS t then case out of None \<Rightarrow> [] | Some p \<Rightarrow> [p] else [])"
    and frame: "frameOf (r_http st') = frameOf (r_http st)" "frameOf (r_https st') = frameOf (r_https st)"
    and pools: "distinct (map pool_Name (r_pools st'))" "set (r_pools st) \<subseteq> set (r_pools st')"
    and points: "case out of None \<Rightarrow> True | Some p \<Rightarrow> pointsTo t (r_pools st') p"
  shows "routesOk t st0 (seen @ [(i, rule, j, path)]) st' s'"
proof -
  from ok obtain outs where outs: "list_all2 (pathOutcome t (svcHist s)) seen outs"
    and before: "policiesOf (r_http st) = servedPolicies t False (zip seen outs)" "policiesOf (r_https st) = servedPolicies t True (zip seen outs)"
    by (auto simp: routesOk_def)
  then have len: "length seen = length outs" by (simp add: list_all2_lengthD)
  from outs grows have "list_all2 (pathOutcome t (svcHist s')) seen outs"
    by (auto elim!: list_all2_mono intro: pathOutcome_mono)
  with out have "list_all2 (pathOutcome t (svcHist s')) (seen @ [(i, rule, j, path)]) (outs @ [out])"
    by (simp add: list_all2_appendI)
  moreover have "policiesOf (r_http st') = servedPolicies t False (zip (seen @ [(i, rule, j, path)]) (outs @ [out]))"
    "policiesOf (r_https st') = servedPolicies t True (zip (seen @ [(i, rule, j, path)]) (outs @ [out]))"
    unfolding servedPolicies_snoc[OF len] http https before by simp_all
  moreover have "list_all (pointsTo t (r_pools st')) (policiesOf (r_http st') @ policiesOf (r_https st'))"
  proof -
    have "pointsTo t (r_pools st') p" if "pointsTo t (r_pools st) p" for p
      using that pools(2) by (auto simp: pointsTo_def)
    moreover have "list_all (pointsTo t (r_pools st)) (policiesOf (r_http st) @ policiesOf (r_https st))"
      using ok by (simp add: routesOk_def)
    ultimately have "list_all (pointsTo t (r_pools st')) (policiesOf (r_http st) @ policiesOf (r_https st))"
      by (simp add: list_all_iff)
    moreover have "list_all (pointsTo t (r_pools st')) (case out of None \<Rightarrow> [] | Some p \<Rightarrow> [p])"
      using points by (simp split: option.splits)
    ultimately show ?thesis unfolding http https by simp
  qed
  ultimately show ?thesis using ok frame pools unfolding routesOk_def by auto
qed

lemma servePath_step:
  assumes "servePath t ls i rule (j, path) st s = (Inr st', s')" and "routesOk t st0 seen st s"
  shows "routesOk t st0 (seen @ [(i, rule, j, path)]) st' s'"
proof -
  let ?https = "ir_Host rule \<in> hostUsingTLS t"
  let ?d = "(i, rule, j, path)"
  note finish = routesOk_step[OF assms(2) read_grows[OF safe_read_servePath assms(1)]]
  from assms(1) obtain p0 where pol: "buildPolicyByPath t (ir_Host rule) (GenL7PolicyName (it_nameHelper t) ?https (int i) (int j)) path = Inr p0"
    and rest: "(if pol_Action p0 = PolicyActionREDIRECTTOPOOL (it_kc t) then
               andThen (ing_buildPool t ls (hp_Service path)) (\<lambda>r. case r of
                 Unresolvable _ \<Rightarrow> returnM st
               | Resolved newPool \<Rightarrow>
                   addPolicy ?https (p0\<lparr>pol_RedirectPoolName := Some (pool_Name newPool)\<rparr>)
                     (st\<lparr>r_pools := appendPool (r_pools st) newPool\<rparr>))
             else addPolicy ?https p0 st) s = (Inr st', s')"
    by (cases "buildPolicyByPath t (ir_Host rule) (GenL7PolicyName (it_nameHelper t) ?https (int i) (int j)) path")
      (simp_all add: servePath_def liftResult_def andThen_def Let_def)
  show ?thesis
  proof (cases "pol_Action p0 = PolicyActionREDIRECTTOPOOL (it_kc t)")
    case False
    with rest have add: "addPolicy ?https p0 st s = (Inr st', s')" by simp
    have "pathOutcome t (svcHist s') ?d (Some p0)" using pol False by (auto simp: pathOutcome_def)
    with addPolicy_Inr[OF add] False assms(2) show ?thesis
      by (intro finish[where out = "Some p0"]) (auto simp: routesOk_def pointsTo_def)
  next
    case True
    with rest obtain r s1 where pool: "ing_buildPool t ls (hp_Service path) s = (Inr r, s1)"
      and rest: "(case r of Unresolvable _ \<Rightarrow> returnM st
               | Resolved newPool \<Rightarrow>
                   addPolicy ?https (p0\<lparr>pol_RedirectPoolName := Some (pool_Name newPool)\<rparr>)
                     (st\<lparr>r_pools := appendPool (r_pools st) newPool\<rparr>)) s1 = (Inr st', s')"
      by (auto simp: andThen_Inr_iff)
    from ing_buildPool_result[OF pool] obtain b where b: "hp_Service path = Some b"
      and res: "case r of Unresolvable _ \<Rightarrow> unresolvedIn t b (svcHist s1)
    | Resolved pool \<Rightarrow> \<exists>p eps s0. resolvedIn t b p (svcHist s1) \<and> backendMembers t ls b s0 = (Inr eps, s1) \<and> pool = poolOf t b p eps" by blast
    show ?thesis
    proof (cases r)
      case (Unresolvable msg)
      with rest res pol True b have "pathOutcome t (svcHist s') ?d None" "st' = st" by (auto simp: pathOutcome_def)
      with assms(2) show ?thesis by (intro finish[where out = None]) (auto simp: routesOk_def)
    next
      case (Resolved newPool)
      let ?p = "p0\<lparr>pol_RedirectPoolName := Some (pool_Name newPool)\<rparr>" and ?st = "st\<lparr>r_pools := appendPool (r_pools st) newPool\<rparr>"
      from rest Resolved have add: "addPolicy ?https ?p ?st s1 = (Inr st', s')" by simp
      note a = addPolicy_Inr[OF add]
      from res Resolved obtain port where "resolvedIn t b port (svcHist s1)"
        "pool_Name newPool = GenL7PoolName (it_nameHelper t) (isb_Name b) (svcp_Port port)"
        by (auto simp: poolOf_def)
      with pol True b a have "pathOutcome t (svcHist s') ?d (Some ?p)" by (auto simp: pathOutcome_def)
      moreover have "pointsTo t (r_pools st') ?p"
        using a appendPool_facts(3)[of "r_pools st" newPool] by (auto simp: pointsTo_def)
      ultimately show ?thesis
        using a assms(2) appendPool_facts[of "r_pools st" newPool] by (intro finish[where out = "Some ?p"]) (auto simp: routesOk_def)
    qed
  qed
qed

lemma serveRule_step:
  assumes "serveRule t ls ir st s = (Inr st', s')" and "routesOk t st0 seen st s"
  shows "routesOk t st0 (seen @ pathsOf ir) st' s'"
proof -
  obtain i rule where ir: "ir = (i, rule)" by (cases ir)
  from assms(1) ir obtain paths where paths: "ir_HTTP rule = Some paths"
    and run: "foldM (servePath t ls i rule) (enumerate 0 paths) st s = (Inr st', s')"
    by (auto simp: serveRule_def split: option.splits)
  have "routesOk t st0 (seen @ map (\<lambda>(j, path). (i, rule, j, path)) (enumerate 0 paths)) st' s'"
  proof (rule foldM_rule[OF run])
    show "routesOk t st0 (seen @ map (\<lambda>(j, path). (i, rule, j, path)) []) st s" using assms(2) by simp
    fix pre x st1 s1 st2 s2
    assume step: "servePath t ls i rule x st1 s1 = (Inr st2, s2)"
      and ok: "routesOk t st0 (seen @ map (\<lambda>(j, path). (i, rule, j, path)) pre) st1 s1"
    obtain j path where x: "x = (j, path)" by (cases x)
    from servePath_step[OF step[unfolded x] ok]
    show "routesOk t st0 (seen @ map (\<lambda>(j, path). (i, rule, j, path)) (pre @ [x])) st2 s2" by (simp add: x)
  qed
  with paths ir show ?thesis by (simp add: pathsOf_def)
qed

lemma serveRules_ok:
  assumes "foldM (serveRule t ls) rules st0 s = (Inr st, s')" and "routesOk t st0 [] st0 s"
  shows "routesOk t st0 (concat (map pathsOf rules)) st s'"
  by (rule foldM_rule[OF assms(1), where I = "\<lambda>seen. routesOk t st0 (concat (map pathsOf seen))"])
    (use assms(2) serveRule_step in auto)

section \<open>The listeners that are built\<close>

lemma buildListeners_fresh:
  "buildListeners t https = Inr l \<Longrightarrow> lis_Policies l = [] \<and> lis_DefaultPoolName l = None
    \<and> lis_Name l = (if https then DEFAULT_HTTPS_LISTENER_NAME else DEFAULT_HTTP_LISTENER_NAME)"
  by (auto simp: buildListeners_def Let_def split: sum.splits)

lemma listenerWith_Inr:
  assumes "listenerWith dp (buildListeners t https) = Inr l"
  shows "\<exists>l0. l = Some l0 \<and> lis_Policies l0 = [] \<and> lis_DefaultPoolName l0 = map_option pool_Name dp
    \<and> lis_Name l0 = (if https then DEFAULT_HTTPS_LISTENER_NAME else DEFAULT_HTTP_LISTENER_NAME)"
  using assms buildListeners_fresh by (auto simp: listenerWith_def split: sum.splits option.splits)

text \<open>A listener is there if something needs it, with its name and default pool.\<close>

definition listenerOk :: "ingTask \<Rightarrow> Pool option \<Rightarrow> bool \<Rightarrow> Listener option \<Rightarrow> bool" where
  "listenerOk t dp https lo \<longleftrightarrow>
     (let needed = (if https then ingr_TLS (it_ingress t) \<noteq> [] else checkNeedHTTPListener t)
      in case lo of
           None \<Rightarrow> \<not> needed
         | Some l \<Rightarrow> needed \<and> lis_Name l = (if https then DEFAULT_HTTPS_LISTENER_NAME else DEFAULT_HTTP_LISTENER_NAME)
             \<and> lis_DefaultPoolName l = map_option pool_Name dp)"

lemma builtListeners:
  assumes "httpListener t dp = Inr http" and "httpsListener t dp = Inr https"
  shows "policiesOf http = [] \<and> policiesOf https = [] \<and> listenerOk t dp False http \<and> listenerOk t dp True https"
proof -
  have "ingr_TLS (it_ingress t) = [] \<longleftrightarrow> \<not> valid" if "isValidToBuildHTTPSListener t = Inr valid" for valid
    using that by (auto simp: isValidToBuildHTTPSListener_def split: if_splits)
  with assms show ?thesis
    by (auto simp: httpListener_def httpsListener_def policiesOf_def listenerOk_def split: if_splits sum.splits dest!: listenerWith_Inr)
qed

lemma frameOf_ok:
  assumes "frameOf l = frameOf l0" and "listenerOk t dp https l0"
  shows "listenerOk t dp https l"
proof (cases l0)
  case (Some x0)
  with assms(1) obtain x where x: "l = Some x" "x\<lparr>lis_Policies := []\<rparr> = x0\<lparr>lis_Policies := []\<rparr>"
    by (cases l) (auto simp: frameOf_def)
  have "lis_Name x = lis_Name x0" using arg_cong[OF x(2), of lis_Name] by simp
  moreover have "lis_DefaultPoolName x = lis_DefaultPoolName x0" using arg_cong[OF x(2), of lis_DefaultPoolName] by simp
  ultimately show ?thesis using x(1) Some assms(2) by (simp add: listenerOk_def)
qed (use assms in \<open>auto simp: frameOf_def\<close>)

definition stripPos :: "Policy \<Rightarrow> Policy" where
  "stripPos p = p\<lparr>pol_Position := None\<rparr>"

lemma autoPositions_strip: "map stripPos (autoPositions ic ps) = map stripPos ps"
proof -
  have one: "map stripPos (setPosition n i ps) = map stripPos ps" for n i ps
    by (induction ps) (auto simp: stripPos_def)
  have "map stripPos (fold (\<lambda>(i, kv). setPosition (fst kv) (f i)) xs ps) = map stripPos ps" for f xs ps
    by (induction xs arbitrary: ps) (auto simp: one)
  then show ?thesis by (simp add: autoPositions_def Let_def)
qed

text \<open>Reordering and sorting change positions and order.\<close>

lemma http_names_order: "DEFAULT_HTTP_LISTENER_NAME \<le> DEFAULT_HTTPS_LISTENER_NAME" "DEFAULT_HTTP_LISTENER_NAME \<noteq> DEFAULT_HTTPS_LISTENER_NAME"
  by (simp_all add: DEFAULT_HTTP_LISTENER_NAME_def DEFAULT_HTTPS_LISTENER_NAME_def less_eq_char_def)

definition reorderedPolicies :: "ingTask \<Rightarrow> Policy list \<Rightarrow> Policy list" where
  "reorderedPolicies t ps =
     sort_key pol_Name (if buildAnnotationAutoReorderPolicies t = Some True then autoPositions (it_ic t) ps else ps)"

definition finishedListener :: "ingTask \<Rightarrow> Listener option \<Rightarrow> Listener list" where
  "finishedListener t l = (case l of None \<Rightarrow> [] | Some l \<Rightarrow> [l\<lparr>lis_Policies := reorderedPolicies t (lis_Policies l)\<rparr>])"

lemma finished_listeners:
  assumes "\<And>l. r_http st = Some l \<Longrightarrow> lis_Name l = DEFAULT_HTTP_LISTENER_NAME"
    and "\<And>l. r_https st = Some l \<Longrightarrow> lis_Name l = DEFAULT_HTTPS_LISTENER_NAME"
  shows "map sortPolicies (sort_key lis_Name (allListeners (reorder t st))) = finishedListener t (r_http st) @ finishedListener t (r_https st)"
proof -
  have "sorted (map lis_Name (allListeners (reorder t st)))"
    using assms http_names_order(1)
    by (auto simp: allListeners_def reorder_def buildAutoAddPolicyPosition_def split: option.splits)
  then have "sort_key lis_Name (allListeners (reorder t st)) = allListeners (reorder t st)" by (rule sort_key_id_if_sorted)
  then show ?thesis
    by (auto simp: allListeners_def reorder_def buildAutoAddPolicyPosition_def finishedListener_def reorderedPolicies_def sortPolicies_def
        split: option.splits)
qed

lemma finishedListener_in:
  "l \<in> set (finishedListener t lo) \<Longrightarrow> \<exists>l0. lo = Some l0 \<and> l = l0\<lparr>lis_Policies := reorderedPolicies t (lis_Policies l0)\<rparr>"
  by (auto simp: finishedListener_def split: option.splits)

lemma mset_reordered: "mset (map stripPos (reorderedPolicies t ps)) = mset (map stripPos ps)"
proof -
  have "mset (map stripPos (sort_key pol_Name qs)) = mset (map stripPos qs)" for qs by (simp only: mset_map mset_sort)
  then show ?thesis using arg_cong[OF autoPositions_strip, of mset] by (simp add: reorderedPolicies_def)
qed

text \<open>A successful build, with the state of the loop at its end.\<close>

lemma ing_build_end:
  assumes "ing_buildPoolsAndListeners t ls s = (Inr (pools, listeners), s')"
  obtains dp st0 st where "routesOk t st0 (allPaths t) st s'" "pools = sort_key pool_Name (r_pools st)"
    "listeners = finishedListener t (r_http st) @ finishedListener t (r_https st)"
    "set (case dp of None \<Rightarrow> [] | Some p \<Rightarrow> [p]) \<subseteq> set (r_pools st)"
    "listenerOk t dp False (r_http st)"
    "listenerOk t dp True (r_https st)"
proof -
  from assms obtain dp s1 http https st where
    http: "httpListener t dp = Inr http" and https: "httpsListener t dp = Inr https"
    and run: "foldM (serveRule t ls) (enumerate 0 (ingr_Rules (it_ingress t)))
       \<lparr>r_pools = (case dp of None \<Rightarrow> [] | Some p \<Rightarrow> [p]), r_http = http, r_https = https\<rparr> s1 = (Inr st, s')"
    and res: "pools = sort_key pool_Name (r_pools st)" "listeners = map sortPolicies (sort_key lis_Name (allListeners (reorder t st)))"
    by (auto simp: ing_buildPoolsAndListeners_def andThen_Inr_iff)
  let ?st0 = "\<lparr>r_pools = (case dp of None \<Rightarrow> [] | Some p \<Rightarrow> [p]), r_http = http, r_https = https\<rparr>"
  note built = builtListeners[OF http https]
  have "routesOk t ?st0 [] ?st0 s1"
    using built by (auto simp: routesOk_def servedPolicies_def map_filter_simps split: option.splits)
  from serveRules_ok[OF run this] have ok: "routesOk t ?st0 (allPaths t) st s'" by (simp add: allPaths_def)
  then have "frameOf (r_http st) = frameOf http" "frameOf (r_https st) = frameOf https"
    and pools: "set (case dp of None \<Rightarrow> [] | Some p \<Rightarrow> [p]) \<subseteq> set (r_pools st)" by (simp_all add: routesOk_def)
  with built have h: "listenerOk t dp False (r_http st)" and hs: "listenerOk t dp True (r_https st)"
    using frameOf_ok by metis+
  from h hs have "listeners = finishedListener t (r_http st) @ finishedListener t (r_https st)"
    unfolding res(2) by (intro finished_listeners) (auto simp: listenerOk_def)
  from that[OF ok res(1) this pools h hs] show ?thesis .
qed

section \<open>One bad backend does not take the other paths down\<close>

text \<open>
  C8. Every path of the Ingress is served or dropped, and dropped only if its policy would send to a
  Service that, as the calls of this run show, does not exist or does not serve the port. The listeners
  hold exactly the policies of the served paths - the HTTPS listener those of the hosts some TLS entry
  names, the HTTP listener the others - and exist when something needs them; every other path keeps its
  policy, whatever becomes of the rest.
\<close>

theorem ing_paths_served_or_unresolvable:
  assumes "ing_buildPoolsAndListeners t ls s = (Inr (pools, listeners), s')"
  shows "\<exists>outs. list_all2 (pathOutcome t (svcHist s')) (allPaths t) outs
    \<and> (\<forall>https. mset (map stripPos (concat (map lis_Policies (filter (\<lambda>l. (lis_Name l = DEFAULT_HTTPS_LISTENER_NAME) = https) listeners))))
         = mset (map stripPos (servedPolicies t https (zip (allPaths t) outs))))
    \<and> map lis_Name listeners = (if checkNeedHTTPListener t then [DEFAULT_HTTP_LISTENER_NAME] else [])
         @ (if ingr_TLS (it_ingress t) \<noteq> [] then [DEFAULT_HTTPS_LISTENER_NAME] else [])"
proof -
  obtain dp :: "Pool option" and st0 st where ok: "routesOk t st0 (allPaths t) st s'"
    and ls: "listeners = finishedListener t (r_http st) @ finishedListener t (r_https st)"
    and http: "listenerOk t dp False (r_http st)"
    and https: "listenerOk t dp True (r_https st)"
    by (rule ing_build_end[OF assms]) blast
  from ok obtain outs where outs: "list_all2 (pathOutcome t (svcHist s')) (allPaths t) outs"
    and pol: "policiesOf (r_http st) = servedPolicies t False (zip (allPaths t) outs)"
      "policiesOf (r_https st) = servedPolicies t True (zip (allPaths t) outs)"
    by (auto simp: routesOk_def)
  have one: "mset (map stripPos (concat (map lis_Policies (finishedListener t lo)))) = mset (map stripPos (policiesOf lo))" for lo
    using mset_reordered by (auto simp: finishedListener_def policiesOf_def split: option.splits)
  have "filter (\<lambda>l. (lis_Name l = DEFAULT_HTTPS_LISTENER_NAME) = False) listeners = finishedListener t (r_http st)"
    "filter (\<lambda>l. (lis_Name l = DEFAULT_HTTPS_LISTENER_NAME) = True) listeners = finishedListener t (r_https st)"
    using http https http_names_order(2) http_names_order(2)[symmetric]
    by (cases "r_http st"; cases "r_https st"; simp add: ls finishedListener_def listenerOk_def)+
  then have "mset (map stripPos (concat (map lis_Policies (filter (\<lambda>l. (lis_Name l = DEFAULT_HTTPS_LISTENER_NAME) = b) listeners))))
      = mset (map stripPos (servedPolicies t b (zip (allPaths t) outs)))" for b
    using one pol by (cases b) (simp_all only:)
  moreover have "map lis_Name listeners = (if checkNeedHTTPListener t then [DEFAULT_HTTP_LISTENER_NAME] else [])
         @ (if ingr_TLS (it_ingress t) \<noteq> [] then [DEFAULT_HTTPS_LISTENER_NAME] else [])"
    using http https by (auto simp: ls finishedListener_def listenerOk_def split: option.splits)
  ultimately show ?thesis using outs by blast
qed

section \<open>Nothing dangles\<close>

lemma mem_reordered:
  assumes "p \<in> set (reorderedPolicies t ps)"
  shows "\<exists>q \<in> set ps. stripPos p = stripPos q"
proof -
  have "stripPos p \<in> set (map stripPos (reorderedPolicies t ps))" using assms by simp
  then have "stripPos p \<in> set (map stripPos ps)" using arg_cong[OF mset_reordered, of set_mset] by (metis set_mset_mset)
  then show ?thesis by auto
qed

lemma stripPos_same: "stripPos p = stripPos q \<Longrightarrow>
    pol_Name p = pol_Name q \<and> pol_Action p = pol_Action q \<and> pol_RedirectPoolName p = pol_RedirectPoolName q \<and> pol_L7Rules p = pol_L7Rules q"
  unfolding stripPos_def
  by (metis (no_types, lifting) Policy.select_convs Policy.surjective Policy.update_convs(8))

lemma buildPolicyByPath_name: "buildPolicyByPath t host n path = Inr p \<Longrightarrow> pol_Name p = n"
  using policyOfConfig_wellFormed
  by (auto simp: buildPolicyByPath_def buildPolicyByRegex_def policyOfPath_def split: option.splits if_splits)

lemma servedPolicies_Cons:
  "set (servedPolicies t https (zip ((i, rule, j, path) # seen) (out # outs)))
     = (if (ir_Host rule \<in> hostUsingTLS t) = https then set_option out else {}) \<union> set (servedPolicies t https (zip seen outs))"
  by (cases out) (simp_all add: servedPolicies_def map_filter_simps)

lemma servedPolicies_name:
  assumes "list_all2 (pathOutcome t h) seen outs" and "p \<in> set (servedPolicies t https (zip seen outs))"
  shows "\<exists>(i, rule, j, path) \<in> set seen. (ir_Host rule \<in> hostUsingTLS t) = https
    \<and> pol_Name p = GenL7PolicyName (it_nameHelper t) https (int i) (int j)"
  using assms
proof (induction seen outs rule: list_all2_induct)
  case (Cons d seen out outs)
  obtain i rule j path where d: "d = (i, rule, j, path)" by (cases d)
  show ?case
  proof (cases "p \<in> set (servedPolicies t https (zip seen outs))")
    case False
    with Cons.prems d have "out = Some p" "(ir_Host rule \<in> hostUsingTLS t) = https"
      unfolding d servedPolicies_Cons by (simp_all split: if_splits)
    with Cons.hyps(1) d show ?thesis by (auto simp: pathOutcome_def split: if_splits dest: buildPolicyByPath_name)
  qed (use Cons.IH in auto)
qed (simp add: servedPolicies_def map_filter_simps)

text \<open>Up to 65536 rules with up to 65536 paths each.\<close>

definition smallIngress :: "ingTask \<Rightarrow> bool" where
  "smallIngress t \<longleftrightarrow> length (ingr_Rules (it_ingress t)) \<le> 65536
     \<and> (\<forall>rule \<in> set (ingr_Rules (it_ingress t)). case ir_HTTP rule of None \<Rightarrow> True | Some paths \<Rightarrow> length paths \<le> 65536)"

definition indexOf :: "nat \<times> IngressRule \<times> nat \<times> HTTPIngressPath \<Rightarrow> nat \<times> nat" where
  "indexOf d = (case d of (i, rule, j, path) \<Rightarrow> (i, j))"

lemma pathsOf_index: "map indexOf (pathsOf (i, rule)) = map (Pair i) [0..<length (case ir_HTTP rule of None \<Rightarrow> [] | Some paths \<Rightarrow> paths)]"
proof -
  have "map indexOf (map (\<lambda>(j, path). (i, rule, j, path)) (enumerate k ps)) = map (Pair i) [k..<k + length ps]" for k ps
    by (induction ps arbitrary: k) (simp_all add: indexOf_def upt_rec)
  from this[of 0] show ?thesis by (simp add: pathsOf_def)
qed

lemma rules_index:
  "distinct (map indexOf (concat (map pathsOf (enumerate k rules))))
   \<and> (\<forall>(i, j) \<in> indexOf ` set (concat (map pathsOf (enumerate k rules))). k \<le> i \<and> i < k + length rules
        \<and> (\<exists>rule \<in> set rules. j < length (case ir_HTTP rule of None \<Rightarrow> [] | Some paths \<Rightarrow> paths)))"
proof (induction rules arbitrary: k)
  case (Cons rule rules)
  let ?n = "length (case ir_HTTP rule of None \<Rightarrow> [] | Some paths \<Rightarrow> paths)"
  have head: "indexOf ` set (pathsOf (k, rule)) = Pair k ` {0..<?n}"
    unfolding set_map[symmetric] pathsOf_index by simp
  have dist: "distinct (map indexOf (pathsOf (k, rule)))" by (simp add: pathsOf_index distinct_map inj_on_def)
  note tail = Cons.IH[of "Suc k"]
  have apart: "indexOf ` set (pathsOf (k, rule)) \<inter> indexOf ` set (concat (map pathsOf (enumerate (Suc k) rules))) = {}"
  proof -
    have "Pair k ` A \<inter> X = {}" if "\<forall>(i, j) \<in> X. Suc k \<le> i \<and> P i j" for A X and P :: "nat \<Rightarrow> nat \<Rightarrow> bool" using that by force
    from this[OF conjunct2[OF tail, unfolded conj_assoc]] show ?thesis unfolding head .
  qed
  have "distinct (map indexOf (concat (map pathsOf (enumerate k (rule # rules)))))"
    using dist tail apart by (simp only: enumerate_simps list.map concat.simps map_append distinct_append set_map)
  moreover have "k \<le> i \<and> i < k + length (rule # rules)
      \<and> (\<exists>rule \<in> set (rule # rules). j < length (case ir_HTTP rule of None \<Rightarrow> [] | Some paths \<Rightarrow> paths))"
    if x: "(i, j) \<in> indexOf ` set (concat (map pathsOf (enumerate k (rule # rules))))" for i j
  proof (cases "(i, j) \<in> indexOf ` set (pathsOf (k, rule))")
    case True
    then show ?thesis unfolding head by auto
  next
    case False
    with x have "(i, j) \<in> indexOf ` set (concat (map pathsOf (enumerate (Suc k) rules)))"
      by (simp only: enumerate_simps list.map concat.simps set_append image_Un Un_iff) blast
    with tail have "Suc k \<le> i \<and> i < Suc k + length rules
      \<and> (\<exists>rule \<in> set rules. j < length (case ir_HTTP rule of None \<Rightarrow> [] | Some paths \<Rightarrow> paths))" by blast
    then show ?thesis by auto
  qed
  ultimately show ?case by blast
qed simp

lemma allPaths_index:
  assumes "smallIngress t"
  shows "distinct (map indexOf (allPaths t)) \<and> (\<forall>(i, rule, j, path) \<in> set (allPaths t). i \<le> 65535 \<and> j \<le> 65535)"
proof -
  note r = rules_index[of 0 "ingr_Rules (it_ingress t)", folded allPaths_def]
  have "i \<le> 65535 \<and> j \<le> 65535" if "(i, rule, j, path) \<in> set (allPaths t)" for i rule j path
  proof -
    from that have "(i, j) \<in> indexOf ` set (allPaths t)" by (force simp: indexOf_def)
    with r obtain rule' where "i < length (ingr_Rules (it_ingress t))" "rule' \<in> set (ingr_Rules (it_ingress t))"
      "j < length (case ir_HTTP rule' of None \<Rightarrow> [] | Some paths \<Rightarrow> paths)" by fastforce
    with assms show ?thesis by (fastforce simp: smallIngress_def split: option.splits)
  qed
  with r show ?thesis by auto
qed

lemma servedPolicies_distinct:
  assumes "list_all2 (pathOutcome t h) seen outs" and "distinct (map indexOf seen)"
    and "\<forall>(i, rule, j, path) \<in> set seen. i \<le> 65535 \<and> j \<le> 65535"
  shows "distinct (map pol_Name (servedPolicies t https (zip seen outs)))"
  using assms
proof (induction seen outs rule: list_all2_induct)
  case (Cons d seen out outs)
  obtain i rule j path where d: "d = (i, rule, j, path)" by (cases d)
  have IH: "distinct (map pol_Name (servedPolicies t https (zip seen outs)))" using Cons by simp
  show ?case
  proof (cases "out = None \<or> (ir_Host rule \<in> hostUsingTLS t) \<noteq> https")
    case True
    with IH d show ?thesis by (auto simp: servedPolicies_def map_filter_simps)
  next
    case False
    then obtain p where p: "out = Some p" "(ir_Host rule \<in> hostUsingTLS t) = https" by auto
    with Cons.hyps(1) d have name: "pol_Name p = GenL7PolicyName (it_nameHelper t) https (int i) (int j)"
      by (auto simp: pathOutcome_def split: if_splits dest: buildPolicyByPath_name)
    have "pol_Name p \<noteq> pol_Name q" if q: "q \<in> set (servedPolicies t https (zip seen outs))" for q
    proof
      assume same: "pol_Name p = pol_Name q"
      from servedPolicies_name[OF Cons.hyps(2) q] obtain i' rule' j' path' where q': "(i', rule', j', path') \<in> set seen"
        "pol_Name q = GenL7PolicyName (it_nameHelper t) https (int i') (int j')" by auto
      from q'(1) Cons.prems(2) d have "i \<le> 65535" "j \<le> 65535" "i' \<le> 65535" "j' \<le> 65535" by auto
      with GenL7PolicyName_inj[of "it_nameHelper t" https "int i" "int j" "int i'" "int j'"] same name q'(2)
      have "indexOf d = indexOf (i', rule', j', path')" by (simp add: d indexOf_def)
      with q'(1) Cons.prems(1) show False by force
    qed
    with IH p d show ?thesis by (auto simp: servedPolicies_def map_filter_simps)
  qed
qed (simp add: servedPolicies_def map_filter_simps)

lemma reordered_names: "mset (map pol_Name (reorderedPolicies t ps)) = mset (map pol_Name ps)"
proof -
  have strip: "map pol_Name qs = map pol_Name (map stripPos qs)" for qs by (simp add: stripPos_def)
  show ?thesis
    unfolding strip[of "reorderedPolicies t ps"] strip[of ps] using mset_reordered[of t ps] by (metis mset_map)
qed

text \<open>
  C10. Nothing that is written refers to something that is not. Every policy that sends to a pool names a
  pool that is there, and so does every default pool of a listener. Pools and listeners come sorted,
  each name once, the policies of a listener sorted, and no two with one name as long as the Ingress has
  at most 65536 rules and paths.
\<close>

theorem ing_no_dangling_reference:
  assumes "ing_buildPoolsAndListeners t ls s = (Inr (pools, listeners), s')"
  shows "sorted (map pool_Name pools) \<and> distinct (map pool_Name pools) \<and> sorted (map lis_Name listeners) \<and> distinct (map lis_Name listeners)
    \<and> (\<forall>l \<in> set listeners.
         (\<forall>p \<in> set (lis_Policies l). pol_Action p = PolicyActionREDIRECTTOPOOL (it_kc t) \<longrightarrow>
            (\<exists>pool \<in> set pools. pol_RedirectPoolName p = Some (pool_Name pool)))
       \<and> (\<forall>n. lis_DefaultPoolName l = Some n \<longrightarrow> n \<in> pool_Name ` set pools)
       \<and> sorted (map pol_Name (lis_Policies l)) \<and> (smallIngress t \<longrightarrow> distinct (map pol_Name (lis_Policies l))))"
proof -
  obtain dp :: "Pool option" and st0 st where ok: "routesOk t st0 (allPaths t) st s'" and pools: "pools = sort_key pool_Name (r_pools st)"
    and ls: "listeners = finishedListener t (r_http st) @ finishedListener t (r_https st)"
    and dp: "set (case dp of None \<Rightarrow> [] | Some p \<Rightarrow> [p]) \<subseteq> set (r_pools st)"
    and http: "listenerOk t dp False (r_http st)" and https: "listenerOk t dp True (r_https st)"
    by (rule ing_build_end[OF assms])
  from ok obtain outs where outs: "list_all2 (pathOutcome t (svcHist s')) (allPaths t) outs"
    and pol: "policiesOf (r_http st) = servedPolicies t False (zip (allPaths t) outs)"
      "policiesOf (r_https st) = servedPolicies t True (zip (allPaths t) outs)"
    by (auto simp: routesOk_def)
  have "mset (map pool_Name pools) = mset (map pool_Name (r_pools st))" by (simp only: pools mset_map mset_sort)
  with ok have dist: "distinct (map pool_Name pools)" by (metis routesOk_def mset_eq_imp_distinct_iff)
  have names: "sorted (map lis_Name listeners) \<and> distinct (map lis_Name listeners)"
    using http https http_names_order by (cases "r_http st"; cases "r_https st"; simp add: ls finishedListener_def listenerOk_def)
  have one: "(\<forall>p \<in> set (lis_Policies l). pol_Action p = PolicyActionREDIRECTTOPOOL (it_kc t) \<longrightarrow>
            (\<exists>pool \<in> set pools. pol_RedirectPoolName p = Some (pool_Name pool)))
       \<and> (\<forall>n. lis_DefaultPoolName l = Some n \<longrightarrow> n \<in> pool_Name ` set pools)
       \<and> sorted (map pol_Name (lis_Policies l)) \<and> (smallIngress t \<longrightarrow> distinct (map pol_Name (lis_Policies l)))"
    if l: "l \<in> set (finishedListener t lo)" and lo: "listenerOk t dp b lo"
      and points: "list_all (pointsTo t (r_pools st)) (policiesOf lo)" and served: "policiesOf lo = servedPolicies t b (zip (allPaths t) outs)" for l lo b
  proof -
    from finishedListener_in[OF l] obtain l0 where l0: "lo = Some l0" "l = l0\<lparr>lis_Policies := reorderedPolicies t (lis_Policies l0)\<rparr>" by blast
    have "\<exists>pool \<in> set pools. pol_RedirectPoolName p = Some (pool_Name pool)"
      if "p \<in> set (lis_Policies l)" "pol_Action p = PolicyActionREDIRECTTOPOOL (it_kc t)" for p
    proof -
      from that(1) l0 mem_reordered obtain q where "q \<in> set (lis_Policies l0)" "stripPos p = stripPos q" by force
      with points l0 that(2) stripPos_same[of p q] show ?thesis
        by (auto simp: pools policiesOf_def list_all_iff pointsTo_def)
    qed
    moreover have "n \<in> pool_Name ` set pools" if "lis_DefaultPoolName l = Some n" for n
      using that lo l0 dp by (cases dp) (auto simp: listenerOk_def pools Let_def)
    moreover have "sorted (map pol_Name (lis_Policies l))" by (simp add: l0 reorderedPolicies_def)
    moreover have "distinct (map pol_Name (lis_Policies l))" if "smallIngress t"
    proof -
      from allPaths_index[OF that] servedPolicies_distinct[OF outs] have "distinct (map pol_Name (policiesOf lo))" by (simp add: served)
      then show ?thesis using mset_eq_imp_distinct_iff[OF reordered_names[of t "lis_Policies l0"]] by (simp add: l0 policiesOf_def)
    qed
    ultimately show ?thesis by blast
  qed
  have points: "list_all (pointsTo t (r_pools st)) (policiesOf (r_http st))" "list_all (pointsTo t (r_pools st)) (policiesOf (r_https st))"
    using ok by (auto simp: routesOk_def)
  have all: "(\<forall>p \<in> set (lis_Policies l). pol_Action p = PolicyActionREDIRECTTOPOOL (it_kc t) \<longrightarrow>
            (\<exists>pool \<in> set pools. pol_RedirectPoolName p = Some (pool_Name pool)))
       \<and> (\<forall>n. lis_DefaultPoolName l = Some n \<longrightarrow> n \<in> pool_Name ` set pools)
       \<and> sorted (map pol_Name (lis_Policies l)) \<and> (smallIngress t \<longrightarrow> distinct (map pol_Name (lis_Policies l)))"
    if "l \<in> set listeners" for l
    using that one[OF _ http points(1) pol(1)] one[OF _ https points(2) pol(2)] unfolding ls set_append by blast
  have "sorted (map pool_Name pools)" by (simp add: pools)
  with dist names all show ?thesis by blast
qed

section \<open>Automatic order\<close>

lemma listener_reordered:
  assumes "ing_buildPoolsAndListeners t ls s = (Inr (pools, listeners), s')" and "l \<in> set listeners" and "smallIngress t"
  shows "\<exists>ps. lis_Policies l = reorderedPolicies t ps \<and> distinct (map pol_Name ps)"
proof -
  obtain dp :: "Pool option" and st0 st where ok: "routesOk t st0 (allPaths t) st s'"
    and listeners: "listeners = finishedListener t (r_http st) @ finishedListener t (r_https st)"
    by (rule ing_build_end[OF assms(1)]) blast
  from ok obtain outs where outs: "list_all2 (pathOutcome t (svcHist s')) (allPaths t) outs"
    and pol: "policiesOf (r_http st) = servedPolicies t False (zip (allPaths t) outs)"
      "policiesOf (r_https st) = servedPolicies t True (zip (allPaths t) outs)"
    by (auto simp: routesOk_def)
  from allPaths_index[OF assms(3)] servedPolicies_distinct[OF outs]
  have dist: "distinct (map pol_Name (policiesOf (r_http st)))" "distinct (map pol_Name (policiesOf (r_https st)))"
    by (simp_all add: pol)
  have one: ?thesis if l: "l \<in> set (finishedListener t lo)" and d: "distinct (map pol_Name (policiesOf lo))" for lo
  proof -
    from finishedListener_in[OF l] obtain l0 where "lo = Some l0" "lis_Policies l = reorderedPolicies t (lis_Policies l0)" by auto
    with d show ?thesis by (auto simp: policiesOf_def)
  qed
  show ?thesis using assms(2) one[OF _ dist(1)] one[OF _ dist(2)] unfolding listeners set_append by blast
qed

text \<open>
  C36. With automatic order the policies of each listener get the positions 1, 2, ... each once, and the more
  special policy comes first.
\<close>

theorem ing_auto_order:
  assumes "ing_buildPoolsAndListeners t ls s = (Inr (pools, listeners), s')" and "buildAnnotationAutoReorderPolicies t = Some True"
    and "smallIngress t" and "l \<in> set listeners" and "length (lis_Policies l) < 2 ^ 31"
  shows "mset (map pol_Position (lis_Policies l)) = mset (map Some [1..int (length (lis_Policies l))])
    \<and> (\<forall>p \<in> set (lis_Policies l). \<forall>q \<in> set (lis_Policies l).
         getPolicyPriority (it_ic t) q < getPolicyPriority (it_ic t) p \<longrightarrow> the (pol_Position p) < the (pol_Position q))"
proof -
  from listener_reordered[OF assms(1,4,3)] obtain ps where dist: "distinct (map pol_Name ps)"
    and l: "lis_Policies l = sort_key pol_Name (autoPositions (it_ic t) ps)" by (auto simp: reorderedPolicies_def assms(2))
  have len: "length (autoPositions (it_ic t) ps) = length ps" using arg_cong[OF autoPositions_strip, of length] by simp
  from assms(5) l len have "length ps < 2 ^ 31" by simp
  from autoPositions_order[OF dist this, of "it_ic t"] show ?thesis by (simp add: l len)
qed

section \<open>What fails a build\<close>

text \<open>The two listeners are there when a rule needs them.\<close>

definition listenersThere :: "ingTask \<Rightarrow> routes \<Rightarrow> bool" where
  "listenersThere t st \<longleftrightarrow> (\<forall>rule \<in> set (ingr_Rules (it_ingress t)).
     (if ir_Host rule \<in> hostUsingTLS t then r_https st else r_http st) \<noteq> None)"

text \<open>The error is the one of a call for the backend, and not of a Service that does not exist.\<close>

definition backendFails :: "ingTask \<Rightarrow> gomap \<Rightarrow> IngressServiceBackend option \<Rightarrow> go_error \<Rightarrow> svcSt \<Rightarrow> bool" where
  "backendFails t ls service e s' \<longleftrightarrow>
     (case service of
        None \<Rightarrow> e = nilDereference
      | Some b \<Rightarrow>
          (\<exists>err. SvGetService (it_ns t) (isb_Name b) (Inl err) \<in> set (svcHist s') \<and> \<not> w_IsNotFound (it_world t) err
             \<and> e = errorf (''failed to get service '' @ backendKey t b) err)
          \<or> (\<exists>s1. backendMembers t ls b s1 = (Inl e, s')))"

lemma ing_buildPool_error: "ing_buildPool t ls service s = (Inl e, s') \<Longrightarrow> backendFails t ls service e s'"
  by (auto simp: ing_buildPool_def backendFails_def backendPort_def GetService_def andThen_def attempt_def
      split: option.splits sum.splits if_splits backend.splits prod.splits)

lemma addPolicy_there:
  assumes "listenersThere t st" and "rule \<in> set (ingr_Rules (it_ingress t))"
  shows "addPolicy (ir_Host rule \<in> hostUsingTLS t) p (st\<lparr>r_pools := ps\<rparr>) s \<noteq> (Inl e, s')"
    and "addPolicy (ir_Host rule \<in> hostUsingTLS t) p st s \<noteq> (Inl e, s')"
  using assms by (auto simp: listenersThere_def addPolicy_def split: option.splits if_splits)

lemma frame_there: "listenersThere t st \<Longrightarrow> frameOf (r_http st') = frameOf (r_http st) \<Longrightarrow> frameOf (r_https st') = frameOf (r_https st)
    \<Longrightarrow> listenersThere t st'"
  unfolding listenersThere_def by (auto simp: frameOf_def) (metis map_option_is_None not_None_eq)+

lemma case_backend_iff:
  "(case r of Unresolvable m \<Rightarrow> f m | Resolved x \<Rightarrow> g x) s = y
     \<longleftrightarrow> (\<exists>m. r = Unresolvable m \<and> f m s = y) \<or> (\<exists>x. r = Resolved x \<and> g x s = y)"
  by (cases r) auto

lemma servePath_there:
  assumes "servePath t ls i rule ip st s = (Inr st', s')" and "listenersThere t st"
  shows "listenersThere t st'"
proof -
  have "frameOf (r_http st') = frameOf (r_http st) \<and> frameOf (r_https st') = frameOf (r_https st)"
    using assms(1) by (cases ip) (auto simp: servePath_def andThen_Inr_iff Let_def case_backend_iff split: if_splits dest!: addPolicy_Inr)
  with frame_there[OF assms(2)] show ?thesis by blast
qed

lemma serveRule_there:
  assumes "serveRule t ls ir st s = (Inr st', s')" and "listenersThere t st"
  shows "listenersThere t st'"
proof -
  obtain i rule where ir: "ir = (i, rule)" by (cases ir)
  from assms(1) ir obtain paths where "foldM (servePath t ls i rule) (enumerate 0 paths) st s = (Inr st', s')"
    by (auto simp: serveRule_def split: option.splits)
  from foldM_rule[OF this, where I = "\<lambda>_ st _. listenersThere t st"] assms(2) servePath_there show ?thesis by blast
qed

lemma serve_error_at:
  "foldM (serveRule t ls) irs st s = (Inl e, s') \<Longrightarrow> listenersThere t st
   \<Longrightarrow> \<exists>ir \<in> set irs. \<exists>st1 s1. listenersThere t st1 \<and> serveRule t ls ir st1 s1 = (Inl e, s')"
  "foldM (servePath t ls i rule) ips st s = (Inl e, s') \<Longrightarrow> listenersThere t st
   \<Longrightarrow> \<exists>ip \<in> set ips. \<exists>st1 s1. listenersThere t st1 \<and> servePath t ls i rule ip st1 s1 = (Inl e, s')"
  by (rule foldM_error[where K = "listenersThere t"], assumption, assumption, erule (1) serveRule_there)
    (rule foldM_error[where K = "listenersThere t"], assumption, assumption, erule (1) servePath_there)

definition pathFails :: "ingTask \<Rightarrow> gomap \<Rightarrow> nat \<times> IngressRule \<times> nat \<times> HTTPIngressPath \<Rightarrow> go_error \<Rightarrow> svcSt \<Rightarrow> bool" where
  "pathFails t ls d e s' \<longleftrightarrow>
     (case d of (i, rule, j, path) \<Rightarrow>
        buildPolicyByPath t (ir_Host rule) (GenL7PolicyName (it_nameHelper t) (ir_Host rule \<in> hostUsingTLS t) (int i) (int j)) path = Inl e
        \<or> backendFails t ls (hp_Service path) e s')"

lemma servePath_error:
  assumes "servePath t ls i rule (j, path) st s = (Inl e, s')" and "listenersThere t st" and "rule \<in> set (ingr_Rules (it_ingress t))"
  shows "pathFails t ls (i, rule, j, path) e s'"
  using assms(1) addPolicy_there[OF assms(2,3)]
  by (auto simp: servePath_def pathFails_def andThen_Inl_iff Let_def case_backend_iff split: if_splits dest!: ing_buildPool_error)


end
