(* ===== verification/Ing_Build.thy ===== *)
theory Ing_Build
  imports Ing_Routes
begin

text \<open>
  \<^verbatim>\<open>internal/usecase/ingress_uc/build_lbc.go\<close>: from an Ingress to its LoadBalancerConfig and its
  NodeSecurityGroup, and the address back to the Ingress. The fields that are read from annotations are
  those of a Service; what is set, the order of the steps and the messages are the Ingress's own. With
  \<^verbatim>\<open>pkg/ingress\<close>: which Ingresses are handled, and the names they are indexed by.
\<close>

section \<open>Which Ingresses\<close>

definition IngressClass :: string where "IngressClass = ''vngcloud''"

record ingressUtils =
  iu_finalizer :: string

definition IsIngressPendingFinalization :: "ingressUtils \<Rightarrow> Ingress \<Rightarrow> bool" where
  "IsIngressPendingFinalization u object \<longleftrightarrow> list_ex (\<lambda>f. f = iu_finalizer u) (om_Finalizers (ingr_Meta object))"

definition IsIngressSupported :: "Ingress \<Rightarrow> bool" where
  "IsIngressSupported object =
     (if om_DeletionTimestamp (ingr_Meta object) \<noteq> None then False
      else if ingr_IngressClassName object = None \<or> deref (ingr_IngressClassName object) \<noteq> IngressClass then False
      else True)"

text \<open>The Services and the Secrets an Ingress names, sorted, each once.\<close>

definition ingressBackends :: "Ingress \<Rightarrow> IngressServiceBackend option list" where
  "ingressBackends ing =
     (case ingr_DefaultBackend ing of None \<Rightarrow> [] | Some b \<Rightarrow> [b])
     @ concat (map (\<lambda>rule. case ir_HTTP rule of None \<Rightarrow> [] | Some paths \<Rightarrow> map hp_Service paths) (ingr_Rules ing))"

definition sets_List :: "string list \<Rightarrow> string list" where
  "sets_List names = sort (remdups names)"

definition BuildServiceRefIndexes :: "Ingress \<Rightarrow> string list" where
  "BuildServiceRefIndexes ing =
     sets_List (List.map_filter (\<lambda>b. case b of None \<Rightarrow> None | Some s \<Rightarrow> if isb_Name s \<noteq> [] then Some (isb_Name s) else None)
       (ingressBackends ing))"

definition BuildSecretRefIndexes :: "Ingress \<Rightarrow> string list" where
  "BuildSecretRefIndexes ing = sets_List (filter (\<lambda>n. n \<noteq> []) (map tls_SecretName (ingr_TLS ing)))"

section \<open>Fields, as for a Service\<close>

definition ing_buildPackageId :: "ingTask \<Rightarrow> string option" where
  "ing_buildPackageId t = buildPackageId (asService t)"
definition ing_buildScheme :: "ingTask \<Rightarrow> string option" where
  "ing_buildScheme t = buildScheme (asService t)"
definition ing_buildPrivateSubnetId :: "ingTask \<Rightarrow> string option" where
  "ing_buildPrivateSubnetId t = buildPrivateSubnetId (asService t)"
definition ing_buildLoadBalancerId :: "ingTask \<Rightarrow> string option" where
  "ing_buildLoadBalancerId t = buildLoadBalancerId (asService t)"
definition ing_buildLoadBalancerName :: "ingTask \<Rightarrow> string" where
  "ing_buildLoadBalancerName t = buildLoadBalancerName (asService t)"
definition ing_buildAutoscale :: "ingTask \<Rightarrow> bool option" where
  "ing_buildAutoscale t = buildAutoscale (asService t)"
definition ing_buildTags :: "ingTask \<Rightarrow> gomap" where
  "ing_buildTags t = buildTags (asService t)"
definition ing_buildTargetNodeLabels :: "ingTask \<Rightarrow> gomap" where
  "ing_buildTargetNodeLabels t = buildTargetNodeLabels (asService t)"
definition ing_buildIsPoc :: "ingTask \<Rightarrow> bool option" where
  "ing_buildIsPoc t = buildIsPoc (asService t)"

definition ing_isIgnore :: "suffixAnnotationParser \<Rightarrow> Ingress \<Rightarrow> bool" where
  "ing_isIgnore p ing = isIgnore p (ingView ing)"

definition ing_buildSubnetAndZone :: "ingTask \<Rightarrow> LoadBalancerConfig option \<Rightarrow> placement S" where
  "ing_buildSubnetAndZone t existingLBC = buildSubnetAndZone (asService t) existingLBC"

definition ing_getLBCAddress :: "ingTask \<Rightarrow> string S" where
  "ing_getLBCAddress t = getLBCAddress (asService t)"

section \<open>The LoadBalancerConfig\<close>

definition ingOwnerLabels :: "ingTask \<Rightarrow> labelMap" where
  "ingOwnerLabels t =
     [(LabelOwnerResourceName, it_name t), (LabelOwnerResourceKind, ingr_Kind (it_ingress t)),
      (LabelOwnerResourceUid, om_UID (ingr_Meta (it_ingress t)))]"

lemma ownerLabels_ingView: "ownerLabels (ingView (it_ingress t)) = ingOwnerLabels t"
  by (simp add: ownerLabels_def ingOwnerLabels_def it_name_def)

text \<open>The spec: what is written at create time only, and what is written on every reconcile.\<close>

definition ing_specAtCreate :: "ingTask \<Rightarrow> placement \<Rightarrow> LoadBalancerConfigSpec \<Rightarrow> LoadBalancerConfigSpec" where
  "ing_specAtCreate t place spec =
     (case place of (zoneId, networkId, subnetId, subnetCidr) \<Rightarrow>
        spec\<lparr>sp_Type := LoadBalancerTypeLayer7 (it_kc t), sp_SubnetId := subnetId, sp_ZoneId := zoneId,
             sp_LoadBalancerName := ing_buildLoadBalancerName t\<rparr>)"

definition ing_specAlways ::
  "ingTask \<Rightarrow> placement \<Rightarrow> Pool list \<times> Listener list \<Rightarrow> CreateCertificate list \<Rightarrow> LoadBalancerConfigSpec \<Rightarrow> LoadBalancerConfigSpec"
where
  "ing_specAlways t place built certificates spec =
     spec\<lparr>sp_VpcId := fst (snd place),
          sp_ClusterId := (if it_clusterId t \<noteq> [] then Some (it_clusterId t) else sp_ClusterId spec),
          sp_LoadBalancerId := ing_buildLoadBalancerId t, sp_PackageId := ing_buildPackageId t, sp_Scheme := ing_buildScheme t,
          sp_PrivateSubnetId := ing_buildPrivateSubnetId t,
          sp_EnableAutoscale := ing_buildAutoscale t, sp_Tags := ing_buildTags t, sp_IsPoc := ing_buildIsPoc t,
          sp_Pools := fst built, sp_Listeners := snd built, sp_CreateCertificates := certificates\<rparr>"

definition ing_newLBC :: "ingTask \<Rightarrow> LoadBalancerConfig" where
  "ing_newLBC t = newLBC (asService t)"

definition ing_setOwnerLabels :: "ingTask \<Rightarrow> ObjectMeta \<Rightarrow> ObjectMeta" where
  "ing_setOwnerLabels t meta = setOwnerLabels (ingView (it_ingress t)) meta"

definition ing_wantedLBC ::
  "ingTask \<Rightarrow> LoadBalancerConfig option \<Rightarrow> placement \<Rightarrow> Pool list \<times> Listener list \<Rightarrow> CreateCertificate list \<Rightarrow> LoadBalancerConfig"
where
  "ing_wantedLBC t existing place built certificates =
     (case existing of
        None \<Rightarrow> (ing_newLBC t)\<lparr>lbc_Meta := ing_setOwnerLabels t (lbc_Meta (ing_newLBC t)),
                 lbc_Spec := ing_specAlways t place built certificates (ing_specAtCreate t place (lbc_Spec (ing_newLBC t)))\<rparr>
      | Some old \<Rightarrow> old\<lparr>lbc_Meta := ing_setOwnerLabels t (lbc_Meta old),
                 lbc_Spec := ing_specAlways t place built certificates (lbc_Spec old)\<rparr>)"

definition ing_writeLBC :: "ingTask \<Rightarrow> LoadBalancerConfig option \<Rightarrow> LoadBalancerConfig \<Rightarrow> unit S" where
  "ing_writeLBC t existing lbc = writeLBC (asService t) existing lbc"

text \<open>Returns the subnet CIDR the task has afterwards, the only one of its fields that is read.\<close>

definition ing_buildLoadBalancerConfig :: "ingTask \<Rightarrow> string S" where
  "ing_buildLoadBalancerConfig t =
     andThen (wrapErr (errorf ''failed to list LoadBalancerConfig'') (ListLBC (it_world t) (it_ns t) (ingOwnerLabels t))) (\<lambda>items.
     if 1 < length items then
       failM (ErrorString (''found multiple LBC for ingress '' @ it_ns t @ ''/'' @ it_name t))
     else if ing_isIgnore (it_parser t) (it_ingress t) then returnM []
     else
       andThen (ing_buildSubnetAndZone t (firstItem items)) (\<lambda>place.
       andThen (ing_buildPoolsAndListeners t (ing_buildTargetNodeLabels t)) (\<lambda>built.
       andThen (liftResult (buildCreateCertificates t)) (\<lambda>certificates.
       andThen (ing_writeLBC t (firstItem items) (ing_wantedLBC t (firstItem items) place built certificates)) (\<lambda>_.
       returnM (snd (snd (snd place))))))))"

section \<open>The NodeSecurityGroup\<close>

definition ing_nsgSpecFor :: "ingTask \<Rightarrow> string \<Rightarrow> NodeSecurityGroupSpec S" where
  "ing_nsgSpecFor t subnetCidr =
     (let targetNodeLabels = ing_buildTargetNodeLabels t
      in case ing_buildIsAutoCreateSecGroup t of (auto, secgroupIds) \<Rightarrow>
           if \<not> auto then
             returnM \<lparr>ns_SelectNodeLabels = targetNodeLabels, ns_AttachSecurityGroups = secgroupIds, ns_ManagedSecurityGroup = None\<rparr>
           else andThen (ing_buildDefaultSecurityGroupRule t subnetCidr targetNodeLabels) (\<lambda>secgroupRules.
             returnM \<lparr>ns_SelectNodeLabels = targetNodeLabels, ns_AttachSecurityGroups = [],
               ns_ManagedSecurityGroup = Some \<lparr>msg_Name = GetLoadBalancerDefaultName (it_nameHelper t),
                 msg_Description = Some ''Automatically created using VNGCLOUD LoadBalancer Controller'',
                 msg_Rules = secgroupRules\<rparr>\<rparr>))"

definition ing_wantedNSG :: "ingTask \<Rightarrow> NodeSecurityGroup option \<Rightarrow> NodeSecurityGroupSpec \<Rightarrow> NodeSecurityGroup" where
  "ing_wantedNSG t existing spec = wantedNSG (asService t) existing spec"

definition ing_writeNSG :: "ingTask \<Rightarrow> NodeSecurityGroup option \<Rightarrow> NodeSecurityGroup \<Rightarrow> unit S" where
  "ing_writeNSG t existing nsg = writeNSG (asService t) existing nsg"

definition ing_buildNodeSecurityGroup :: "ingTask \<Rightarrow> string \<Rightarrow> unit S" where
  "ing_buildNodeSecurityGroup t subnetCidr =
     andThen (ListNSG (it_world t) (it_ns t) (ingOwnerLabels t)) (\<lambda>items.
     if 1 < length items then
       failM (ErrorString (''found multiple NodeSecurityGroup for ingress '' @ it_ns t @ ''/'' @ it_name t))
     else
       andThen (ing_nsgSpecFor t subnetCidr) (\<lambda>spec. ing_writeNSG t (firstItem items) (ing_wantedNSG t (firstItem items) spec)))"

section \<open>The whole run\<close>

definition runIngress :: "ingressUtils \<Rightarrow> ingTask \<Rightarrow> unit S" where
  "runIngress u t =
     (if \<not> IsIngressSupported (it_ingress t) then
        if IsIngressPendingFinalization u (it_ingress t)
        then failM (RequeueNeeded ''ingress is not supported but pending finalization, re-run delete flow'')
        else returnM ()
      else
        andThen (ing_buildLoadBalancerConfig t) (\<lambda>subnetCidr.
        andThen (ing_buildNodeSecurityGroup t subnetCidr) (\<lambda>_.
        andThen (ing_getLBCAddress t) (\<lambda>address.
          if address \<noteq> [] then
            wrapErr (errorf ''failed to update ingress status address'')
              (UpdateIngressStatusAddress (it_world t) (it_ns t) (it_name t) address)
          else returnM ()))))"

section \<open>What a run writes\<close>

lemma safe_read_ing:
  "safe (addsR svcHist svcRead) (ing_buildSubnetAndZone t existing) s"
  "safe (addsR svcHist svcRead) (ing_nsgSpecFor t cidr) s'"
  "safe (addsR svcHist svcRead) (ing_getLBCAddress t) s''"
  unfolding ing_buildSubnetAndZone_def ing_nsgSpecFor_def ing_getLBCAddress_def Let_def
  by (intro safe_intro safe_read_build safe_read_ing_build)+

text \<open>The fields the LoadBalancerConfig controller mirrors from the cloud, its status, and the field no Ingress sets.\<close>

definition ingMirroredKept :: "LoadBalancerConfig \<Rightarrow> LoadBalancerConfig \<Rightarrow> bool" where
  "ingMirroredKept old new \<longleftrightarrow> lbc_Status new = lbc_Status old
     \<and> sp_Type (lbc_Spec new) = sp_Type (lbc_Spec old) \<and> sp_SubnetId (lbc_Spec new) = sp_SubnetId (lbc_Spec old)
     \<and> sp_ZoneId (lbc_Spec new) = sp_ZoneId (lbc_Spec old)
     \<and> sp_LoadBalancerName (lbc_Spec new) = sp_LoadBalancerName (lbc_Spec old)
     \<and> sp_PrivateZoneId (lbc_Spec new) = sp_PrivateZoneId (lbc_Spec old)"

text \<open>
  A write of the run, after the calls \<open>es\<close> of the run. Creating objects and writing the NodeSecurityGroup
  are as for a Service with the metadata of the Ingress.
\<close>

definition ingressWrite :: "ingTask \<Rightarrow> svcEvent list \<Rightarrow> svcEvent \<Rightarrow> bool" where
  "ingressWrite t es e \<longleftrightarrow>
     (case e of
        SvPatchLBC old new _ \<Rightarrow> SvListLBC (it_ns t) (ingOwnerLabels t) (Inr [old]) \<in> set es
          \<and> ingMirroredKept old new \<and> ownedBy (ingView (it_ingress t)) (lbc_Meta new)
          \<and> \<not> lbcSpecEqual (it_world t) (lbc_Spec old) (lbc_Spec new)
      | SvCreateLBC lbc r \<Rightarrow> serviceWrite (asService t) es e \<and> sp_Type (lbc_Spec lbc) = LoadBalancerTypeLayer7 (it_kc t)
      | SvPatchIngressStatus old new _ \<Rightarrow> (\<exists>host. new = old\<lparr>ingr_Status := [\<lparr>ing_Hostname = host\<rparr>]\<rparr>)
      | SvCreateNSG _ _ \<Rightarrow> serviceWrite (asService t) es e
      | SvPatchNSG _ _ _ \<Rightarrow> serviceWrite (asService t) es e
      | _ \<Rightarrow> svcRead es e)"

lemma ingressWrite_read: "svcRead h e \<Longrightarrow> ofRun n (ingressWrite t) h e"
  by (cases e) (simp_all add: ofRun_def ingressWrite_def svcRead_def)

lemma safe_ingressWrite_read:
  "safe (addsR svcHist svcRead) m s \<Longrightarrow> safe (addsR svcHist (ofRun n (ingressWrite t))) m s"
  by (erule safe_of_read) (rule ingressWrite_read)

lemma safe_ing_list:
  "safe (addsR svcHist (ofRun n (ingressWrite t))) (ListLBC w ns ls) s"
  "safe (addsR svcHist (ofRun n (ingressWrite t))) (ListNSG w ns ls) s'"
  unfolding ListLBC_def ListNSG_def by (intro safe_intro ingressWrite_read; simp add: svcRead_def)+

lemma safe_ing_writeLBC:
  assumes "SvListLBC (it_ns t) (ingOwnerLabels t) (Inr (case existing of None \<Rightarrow> [] | Some x \<Rightarrow> [x])) \<in> set (drop n (svcHist s))"
  shows "safe (addsR svcHist (ofRun n (ingressWrite t))) (ing_writeLBC t existing (ing_wantedLBC t existing place built certs)) s"
proof (cases existing)
  case None
  let ?new = "ing_wantedLBC t None place built certs"
  have new: "om_Namespace (lbc_Meta ?new) = it_ns t" "ownedBy (ingView (it_ingress t)) (lbc_Meta ?new)"
    "sp_Type (lbc_Spec ?new) = LoadBalancerTypeLayer7 (it_kc t)"
    by (simp_all add: ing_wantedLBC_def ing_newLBC_def newLBC_def ing_setOwnerLabels_def ownedBy_setOwnerLabels
        ing_specAlways_def ing_specAtCreate_def split: prod.split) (simp add: setOwnerLabels_def)
  have "SvListLBC (it_ns t) (ingOwnerLabels t) (Inr []) \<in> set (drop n (svcHist s))" using assms None by simp
  then show ?thesis
    unfolding ing_writeLBC_def writeLBC_def None CreateLoadBalancerConfig_def Let_def
    by (simp, intro safe_intro ofRun_ask safe_awaitCreated_write ingressWrite_read)
      (simp_all add: ingressWrite_def serviceWrite_def svcRead_def new ownerLabels_ingView)
next
  case (Some old)
  have "ingMirroredKept old (ing_wantedLBC t existing place built certs)"
    "ownedBy (ingView (it_ingress t)) (lbc_Meta (ing_wantedLBC t existing place built certs))"
    by (simp_all add: Some ing_wantedLBC_def ing_setOwnerLabels_def ownedBy_setOwnerLabels ingMirroredKept_def ing_specAlways_def)
  with assms Some show ?thesis
    unfolding ing_writeLBC_def writeLBC_def PatchLBC_def
    by (simp, intro safe_intro ofRun_ask conjI impI) (simp_all add: ingressWrite_def)
qed

lemma safe_ing_writeNSG:
  assumes "SvListNSG (it_ns t) (ingOwnerLabels t) (Inr (case existing of None \<Rightarrow> [] | Some x \<Rightarrow> [x])) \<in> set (drop n (svcHist s))"
  shows "safe (addsR svcHist (ofRun n (ingressWrite t))) (ing_writeNSG t existing (ing_wantedNSG t existing spec)) s"
proof (cases existing)
  case None
  let ?new = "wantedNSG (asService t) None spec"
  have new: "om_Namespace (nsg_Meta ?new) = it_ns t" "ownedBy (ingView (it_ingress t)) (nsg_Meta ?new)"
    by (simp_all add: wantedNSG_def Let_def newNSG_def ownedBy_setOwnerLabels) (simp add: setOwnerLabels_def)
  have "SvListNSG (it_ns t) (ingOwnerLabels t) (Inr []) \<in> set (drop n (svcHist s))" using assms None by simp
  then show ?thesis
    unfolding ing_writeNSG_def ing_wantedNSG_def writeNSG_def None CreateNodeSecurityGroup_def Let_def
    by (simp, intro safe_intro ofRun_ask safe_awaitCreated_write ingressWrite_read)
      (simp_all add: ingressWrite_def serviceWrite_def svcRead_def new ownerLabels_ingView)
next
  case (Some old)
  have "ownedBy (ingView (it_ingress t)) (nsg_Meta (wantedNSG (asService t) existing spec))"
    by (simp add: wantedNSG_def Let_def ownedBy_setOwnerLabels)
  with assms Some show ?thesis
    unfolding ing_writeNSG_def ing_wantedNSG_def writeNSG_def PatchNSG_def
    by (simp, intro safe_intro ofRun_ask conjI impI) (simp_all add: ingressWrite_def serviceWrite_def ownerLabels_ingView)
qed

lemma safe_write_ing_buildLBC:
  assumes "n \<le> length (svcHist s)"
  shows "safe (addsR svcHist (ofRun n (ingressWrite t))) (ing_buildLoadBalancerConfig t) s"
proof -
  let ?R = "addsR svcHist (ofRun n (ingressWrite t))"
  have wr: "safe ?R (ing_writeLBC t (firstItem items) (ing_wantedLBC t (firstItem items) place built certs)) s'"
    if "wrapErr f (ListLBC (it_world t) (it_ns t) (ingOwnerLabels t)) s = (Inr items, s1)" "\<not> 1 < length items"
      "?R s1 s2" "?R s2 s3" "?R s3 s'" for f items s1 s2 s3 s' place built certs
  proof -
    from that(1) assms have "SvListLBC (it_ns t) (ingOwnerLabels t) (Inr items) \<in> set (drop n (svcHist s1))" "n \<le> length (svcHist s1)"
      by (auto simp: ListLBC_def)
    with addsR_keeps[OF addsR_trans[OF addsR_trans[OF that(3,4)] that(5)]] firstItem_list[OF that(2)] show ?thesis
      by (intro safe_ing_writeLBC) simp
  qed
  show ?thesis
    unfolding ing_buildLoadBalancerConfig_def
    by (intro safe_intro safe_read_ing[THEN safe_ingressWrite_read] safe_read_ing_build[THEN safe_ingressWrite_read] safe_ing_list)
      (rule wr; assumption)
qed

lemma safe_write_ing_buildNSG:
  assumes "n \<le> length (svcHist s)"
  shows "safe (addsR svcHist (ofRun n (ingressWrite t))) (ing_buildNodeSecurityGroup t cidr) s"
proof -
  let ?R = "addsR svcHist (ofRun n (ingressWrite t))"
  have wr: "safe ?R (ing_writeNSG t (firstItem items) (ing_wantedNSG t (firstItem items) spec)) s'"
    if "ListNSG (it_world t) (it_ns t) (ingOwnerLabels t) s = (Inr items, s1)" "\<not> 1 < length items" "?R s1 s'" for items s1 s' spec
  proof -
    from that(1) assms have "SvListNSG (it_ns t) (ingOwnerLabels t) (Inr items) \<in> set (drop n (svcHist s1))" "n \<le> length (svcHist s1)"
      by (auto simp: ListNSG_def)
    with addsR_keeps[OF that(3)] firstItem_list[OF that(2)] show ?thesis
      by (intro safe_ing_writeNSG) simp
  qed
  show ?thesis
    unfolding ing_buildNodeSecurityGroup_def
    by (intro safe_intro safe_read_ing[THEN safe_ingressWrite_read] safe_ing_list) (rule wr; assumption)
qed

lemma safe_write_ingAddress:
  "safe (addsR svcHist (ofRun n (ingressWrite t))) (UpdateIngressStatusAddress w ns m a) s"
  unfolding UpdateIngressStatusAddress_def Let_def world_defs
  by (intro safe_intro ofRun_ask) (auto simp: ingressWrite_def svcRead_def)

lemma safe_write_runIngress:
  assumes "n \<le> length (svcHist s)"
  shows "safe (addsR svcHist (ofRun n (ingressWrite t))) (runIngress u t) s"
  unfolding runIngress_def
  by (intro safe_intro safe_write_ing_buildLBC safe_write_ing_buildNSG safe_write_ingAddress
      safe_read_ing[THEN safe_ingressWrite_read] assms)
    (use assms in \<open>auto simp: addsR_def\<close>)

text \<open>
  An Ingress writes only what is its own. In one run a layer-7 LoadBalancerConfig or a NodeSecurityGroup
  is created only after a list under the owner labels of the Ingress came back empty in this run, and
  carries these labels; an existing one is patched only if it is the one listed and its spec differs,
  without touching type, subnet, zone and name of the load balancer; of the Ingress only the address in
  its status is written.
\<close>

theorem runIngress_writes:
  "safe (addsR svcHist (ofRun (length (svcHist s)) (ingressWrite t))) (runIngress u t) s"
  by (rule safe_write_runIngress) simp

end
