(* ===== verification/Ing_UseCase.thy ===== *)
theory Ing_UseCase
  imports Ing_Build Service_UseCase
begin

text \<open>
  \<^verbatim>\<open>internal/usecase/ingress_uc/ingress_uc.go\<close> and \<^verbatim>\<open>internal/controller/networking/ingress_controller.go\<close>:
  the use case of Ingresses and the controller in front of it. Initialisation and deletion are those of
  the Service use case: they read of the use case and of the object only what the two have in common.
\<close>

section \<open>The use case\<close>

record ingressUseCase =
  iuc_kc :: svc_consts
  iuc_ic :: ing_consts
  iuc_world :: svcWorld
  iuc_parser :: suffixAnnotationParser
  iuc_utils :: ingressUtils
  iuc_clusterId :: string
  iuc_defaultNetworkId :: string
  iuc_defaultSubnetId :: string
  iuc_defaultSubnetCIDR :: string
  iuc_defaultZone :: string

definition iucView :: "ingressUseCase \<Rightarrow> serviceUseCase" where
  "iucView uc =
     \<lparr>suc_kc = iuc_kc uc, suc_world = iuc_world uc, suc_parser = iuc_parser uc,
      suc_utils = \<lparr>su_finalizer = iu_finalizer (iuc_utils uc), su_parser = iuc_parser uc\<rparr>,
      suc_clusterId = iuc_clusterId uc, suc_defaultNetworkId = iuc_defaultNetworkId uc,
      suc_defaultSubnetId = iuc_defaultSubnetId uc, suc_defaultSubnetCIDR = iuc_defaultSubnetCIDR uc,
      suc_defaultZone = iuc_defaultZone uc\<rparr>"

definition InitIngressUseCase :: "ingressUseCase \<Rightarrow> ingressUseCase S" where
  "InitIngressUseCase uc =
     andThen (InitServiceUseCase (iucView uc)) (\<lambda>v.
       returnM (uc\<lparr>iuc_clusterId := suc_clusterId v, iuc_defaultNetworkId := suc_defaultNetworkId v,
                   iuc_defaultSubnetId := suc_defaultSubnetId v, iuc_defaultSubnetCIDR := suc_defaultSubnetCIDR v,
                   iuc_defaultZone := suc_defaultZone v\<rparr>))"

definition newIngTask :: "ingressUseCase \<Rightarrow> Ingress \<Rightarrow> ingTask" where
  "newIngTask uc ing =
     \<lparr>it_clusterId = iuc_clusterId uc, it_parser = iuc_parser uc, it_kc = iuc_kc uc, it_ic = iuc_ic uc, it_ingress = ing,
      it_world = iuc_world uc,
      it_nameHelper = NewNameHelper (iuc_clusterId uc) ''ingress'' (om_Namespace (ingr_Meta ing)) (om_Name (ingr_Meta ing)),
      it_defaultZone = iuc_defaultZone uc, it_defaultNetworkId = iuc_defaultNetworkId uc,
      it_defaultSubnetId = iuc_defaultSubnetId uc, it_defaultSubnetCIDR = iuc_defaultSubnetCIDR uc\<rparr>"

definition ensureIngress :: "ingressUseCase \<Rightarrow> string \<Rightarrow> string \<Rightarrow> unit S" where
  "ensureIngress uc ns n =
     andThen (attempt (GetIngress (iuc_world uc) ns n)) (\<lambda>got. case got of
       Inl err \<Rightarrow> ignoreNotFound (iuc_world uc) err
     | Inr ing \<Rightarrow> runIngress (iuc_utils uc) (newIngTask uc ing))"

definition EnsureIngressUseCase :: "ingressUseCase \<Rightarrow> string \<Rightarrow> string \<Rightarrow> unit S" where
  "EnsureIngressUseCase uc ns n =
     wrapErr (\<lambda>err. if IsExceededSecurityGroupPerServerQuota err \<or> IsLoadBalancerNotFound err
                    then NewNoNeedRequeue (Error err) else err) (ensureIngress uc ns n)"

definition DeleteIngressUseCase :: "(nat \<Rightarrow> bool) \<Rightarrow> ingressUseCase \<Rightarrow> string \<Rightarrow> string \<Rightarrow> unit S" where
  "DeleteIngressUseCase pick uc ns n =
     andThen (attempt (GetIngress (iuc_world uc) ns n)) (\<lambda>got. case got of
       Inl err \<Rightarrow> ignoreNotFound (iuc_world uc) err
     | Inr ing \<Rightarrow>
         if ing_isIgnore (iuc_parser uc) ing then returnM ()
         else (\<lambda>s. case parDelete (lbcDelOps (iuc_world uc) (ingView ing)) (nsgDelOps (iuc_world uc) (ingView ing))
                          pick 0 DelList DelList [] s of
                (results, s') \<Rightarrow> (collectResults results, s')))"

section \<open>The controller\<close>

definition IngressFinalizer :: string where "IngressFinalizer = ''ingress.vngcloud.vn/resources''"

definition ingAddFinalizers :: "svcWorld \<Rightarrow> unit S" where
  "ingAddFinalizers w = ask (SvAddFinalizers IngressFinalizer) (\<lambda>h. w_AddFinalizers w h IngressFinalizer)"

definition ingRemoveFinalizers :: "svcWorld \<Rightarrow> unit S" where
  "ingRemoveFinalizers w = ask (SvRemoveFinalizers IngressFinalizer) (\<lambda>h. w_RemoveFinalizers w h IngressFinalizer)"

definition ingReconcileEnsure :: "ingressUseCase \<Rightarrow> string \<Rightarrow> string \<Rightarrow> unit S" where
  "ingReconcileEnsure uc ns n =
     andThen (svcWithMetrics (ingAddFinalizers (iuc_world uc))) (\<lambda>_. svcWithMetrics (EnsureIngressUseCase uc ns n))"

definition ingReconcileDelete :: "(nat \<Rightarrow> bool) \<Rightarrow> ingressUseCase \<Rightarrow> string \<Rightarrow> string \<Rightarrow> Ingress \<Rightarrow> unit S" where
  "ingReconcileDelete pick uc ns n ing =
     (if IngressFinalizer \<notin> set (om_Finalizers (ingr_Meta ing)) then returnM ()
      else andThen (svcWithMetrics (DeleteIngressUseCase pick uc ns n)) (\<lambda>_. ingRemoveFinalizers (iuc_world uc)))"

definition ingReconcile :: "(nat \<Rightarrow> bool) \<Rightarrow> ingressUseCase \<Rightarrow> string \<Rightarrow> string \<Rightarrow> unit S" where
  "ingReconcile pick uc ns n =
     andThen (attempt (GetIngress (iuc_world uc) ns n)) (\<lambda>got. case got of
       Inl err \<Rightarrow> ignoreNotFound (iuc_world uc) err
     | Inr ing \<Rightarrow>
         (let key = om_Namespace (ingr_Meta ing) @ ''/'' @ om_Name (ingr_Meta ing)
          in if \<not> IsIngressSupported ing then
               if IsIngressPendingFinalization (iuc_utils uc) ing
               then svcReport key ''FailedDelete'' ''Deleted'' (ingReconcileDelete pick uc ns n ing)
               else returnM ()
             else svcReport key ''FailedEnsure'' ''Ensured'' (ingReconcileEnsure uc ns n)))"

section \<open>When a deletion is over\<close>

text \<open>What the calls \<open>es\<close> of a run must show before it says that nothing is left of the Ingress.\<close>

definition nothingLeftOfIngress :: "ingressUseCase \<Rightarrow> string \<Rightarrow> string \<Rightarrow> svcEvent list \<Rightarrow> bool" where
  "nothingLeftOfIngress uc ns n es \<longleftrightarrow>
     (\<exists>err. SvGetIngress ns n (Inl err) \<in> set es \<and> w_IsNotFound (iuc_world uc) err)
     \<or> (\<exists>ing. SvGetIngress ns n (Inr ing) \<in> set es
          \<and> (ing_isIgnore (iuc_parser uc) ing
             \<or> SvListLBC (om_Namespace (ingr_Meta ing)) (ownerLabels (ingView ing)) (Inr []) \<in> set es
               \<and> SvListNSG (om_Namespace (ingr_Meta ing)) (ownerLabels (ingView ing)) (Inr []) \<in> set es))"

definition ingressDeletionCall :: "string \<Rightarrow> string \<Rightarrow> svcEvent list \<Rightarrow> svcEvent \<Rightarrow> bool" where
  "ingressDeletionCall ns n es e \<longleftrightarrow> (\<exists>r. e = SvGetIngress ns n r)
     \<or> (\<exists>ing. SvGetIngress ns n (Inr ing) \<in> set es \<and> ownedDeletion (ingView ing) es e)"

lemma DeleteIngressUseCase_run:
  assumes "DeleteIngressUseCase pick uc ns n s = (r, s')" and "k = length (svcHist s)"
  shows "addsR svcHist (ofRun k (ingressDeletionCall ns n)) s s' \<and> (r = Inr () \<longrightarrow> nothingLeftOfIngress uc ns n (drop k (svcHist s')))"
proof -
  let ?w = "iuc_world uc"
  let ?got = "w_GetIngress ?w (svcHist s) ns n"
  let ?s1 = "s\<lparr>svcHist := svcHist s @ [SvGetIngress ns n ?got]\<rparr>"
  have first: "addsR svcHist (ofRun k (ingressDeletionCall ns n)) s ?s1"
    by (auto simp: addsR_def ofRun_def ingressDeletionCall_def Cons_eq_append_conv)
  show ?thesis
  proof (cases ?got)
    case (Inl err)
    with assms have "s' = ?s1" "r = Inr () \<longrightarrow> w_IsNotFound ?w err"
      by (auto simp: DeleteIngressUseCase_def world_defs andThen_def attempt_def split: if_splits)
    with first Inl assms(2) show ?thesis by (auto simp: nothingLeftOfIngress_def)
  next
    case (Inr ing)
    show ?thesis
    proof (cases "ing_isIgnore (iuc_parser uc) ing")
      case True
      with Inr assms(1) have "s' = ?s1" by (auto simp: DeleteIngressUseCase_def world_defs andThen_def attempt_def)
      with first Inr True assms(2) show ?thesis by (auto simp: nothingLeftOfIngress_def)
    next
      case False
      let ?del = "parDelete (lbcDelOps ?w (ingView ing)) (nsgDelOps ?w (ingView ing)) pick 0 DelList DelList [] ?s1"
      obtain results s2 where par: "?del = (results, s2)" by (cases ?del)
      with False Inr assms(1) have r: "r = collectResults results" "s' = s2"
        by (auto simp: DeleteIngressUseCase_def world_defs andThen_def attempt_def)
      have k: "k \<le> length (svcHist ?s1)" using assms(2) by simp
      note run = parDelete_run[OF par k]
      have get: "SvGetIngress ns n (Inr ing) \<in> set (drop k (svcHist ?s1 @ pre))" for pre
        using Inr assms(2) by simp
      have "addsR svcHist (ofRun k (ingressDeletionCall ns n)) ?s1 s2"
        using run get unfolding addsR_def ofRun_def ingressDeletionCall_def by blast
      moreover have "nothingLeftOfIngress uc ns n (drop k (svcHist s2))" if "r = Inr ()"
      proof -
        from run obtain pre where "svcHist s2 = svcHist ?s1 @ pre" by (auto simp: addsR_def)
        then have "SvGetIngress ns n (Inr ing) \<in> set (drop k (svcHist s2))" using get by simp
        with run that r show ?thesis by (auto simp: nothingLeftOfIngress_def)
      qed
      ultimately show ?thesis using first r by (blast intro: addsR_trans)
    qed
  qed
qed

lemma safe_ing_delete_run:
  "safe (addsR svcHist (ofRun (length (svcHist s)) (ingressDeletionCall ns n))) (DeleteIngressUseCase pick uc ns n) s"
  using DeleteIngressUseCase_run[OF _ refl] unfolding safe_def by (metis prod.collapse)

section \<open>The life of an Ingress\<close>

lemma nothingLeftOfIngress_more: "nothingLeftOfIngress uc ns n es \<Longrightarrow> set es \<subseteq> set es' \<Longrightarrow> nothingLeftOfIngress uc ns n es'"
  unfolding nothingLeftOfIngress_def by blast

lemma ingressDeletionCall_more: "ingressDeletionCall ns n es e \<Longrightarrow> set es \<subseteq> set es' \<Longrightarrow> ingressDeletionCall ns n es' e"
  unfolding ingressDeletionCall_def ownedDeletion_def by (cases e) auto

text \<open>A write of the run of an Ingress that was read and whose finalizer was added, in the calls \<open>es\<close>.\<close>

definition ingressWritten :: "ingressUseCase \<Rightarrow> string \<Rightarrow> string \<Rightarrow> svcEvent list \<Rightarrow> svcEvent \<Rightarrow> bool" where
  "ingressWritten uc ns n es e \<longleftrightarrow> SvAddFinalizers IngressFinalizer (Inr ()) \<in> set es
     \<and> (\<exists>ing before after. SvGetIngress ns n (Inr ing) \<in> set es \<and> es = before @ after \<and> ingressWrite (newIngTask uc ing) after e)"

definition ingressLife :: "ingressUseCase \<Rightarrow> string \<Rightarrow> string \<Rightarrow> svcEvent list \<Rightarrow> svcEvent \<Rightarrow> bool" where
  "ingressLife uc ns n es e \<longleftrightarrow>
     (case e of
        SvRemoveFinalizers f _ \<Rightarrow> f = IngressFinalizer \<and> nothingLeftOfIngress uc ns n es
      | SvDeleteLBC _ _ \<Rightarrow> ingressDeletionCall ns n es e
      | SvDeleteNSG _ _ \<Rightarrow> ingressDeletionCall ns n es e
      | SvAddFinalizers f _ \<Rightarrow> f = IngressFinalizer
      | _ \<Rightarrow> svcRead es e \<or> ingressWritten uc ns n es e)"

lemma ingressLife_read: "svcRead h e \<Longrightarrow> ofRun k (ingressLife uc ns n) h e"
  by (cases e) (simp_all add: ofRun_def ingressLife_def svcRead_def)

lemma safe_ingLife_ask:
  "svcRead [] (ev (f (svcHist s))) \<Longrightarrow> safe (addsR svcHist (ofRun k (ingressLife uc ns n))) (ask ev f) s"
  by (rule safe_adds_ask, rule ingressLife_read) (simp add: svcRead_def)

lemma safe_ingLife_delete:
  assumes "k \<le> length (svcHist s)"
  shows "safe (addsR svcHist (ofRun k (ingressLife uc ns n))) (DeleteIngressUseCase pick uc ns n) s"
proof (rule safe_adds_from[OF safe_ing_delete_run])
  fix es e assume "ofRun (length (svcHist s)) (ingressDeletionCall ns n) (svcHist s @ es) e"
  then have call: "ingressDeletionCall ns n es e" by (simp add: ofRun_def)
  have "ingressDeletionCall ns n (drop k (svcHist s @ es)) e" by (rule ingressDeletionCall_more[OF call]) (simp add: assms)
  with call show "ofRun k (ingressLife uc ns n) (svcHist s @ es) e"
    by (cases e) (auto simp: ofRun_def ingressLife_def svcRead_def ingressDeletionCall_def ownedDeletion_def)
qed

lemma safe_ingLife_run:
  assumes "k \<le> length (svcHist s)" and "SvAddFinalizers IngressFinalizer (Inr ()) \<in> set (drop k (svcHist s))"
    and "SvGetIngress ns n (Inr ing) \<in> set (drop k (svcHist s))"
  shows "safe (addsR svcHist (ofRun k (ingressLife uc ns n))) (runIngress u (newIngTask uc ing)) s"
proof (rule safe_adds_from[OF safe_write_runIngress[OF order_refl]])
  fix es e assume "ofRun (length (svcHist s)) (ingressWrite (newIngTask uc ing)) (svcHist s @ es) e"
  then have wr: "ingressWrite (newIngTask uc ing) es e" by (simp add: ofRun_def)
  have "drop k (svcHist s @ es) = drop k (svcHist s) @ es" using assms(1) by simp
  moreover have "SvAddFinalizers IngressFinalizer (Inr ()) \<in> set (drop k (svcHist s @ es))"
    "SvGetIngress ns n (Inr ing) \<in> set (drop k (svcHist s @ es))" using assms by simp_all
  ultimately have "ingressWritten uc ns n (drop k (svcHist s @ es)) e" using wr unfolding ingressWritten_def by blast
  with wr show "ofRun k (ingressLife uc ns n) (svcHist s @ es) e"
    by (cases e) (simp_all add: ofRun_def ingressLife_def ingressWrite_def svcRead_def)
qed

lemma safe_ingLife_ensure:
  assumes "k \<le> length (svcHist s)" and "SvAddFinalizers IngressFinalizer (Inr ()) \<in> set (drop k (svcHist s))"
  shows "safe (addsR svcHist (ofRun k (ingressLife uc ns n))) (EnsureIngressUseCase uc ns n) s"
proof -
  have "safe (addsR svcHist (ofRun k (ingressLife uc ns n))) (runIngress u (newIngTask uc ing)) s1"
    if "attempt (ask (SvGetIngress ns n) (\<lambda>h. w_GetIngress (iuc_world uc) h ns n)) s = (Inr (Inr ing), s1)" for u ing s1
    using that assms by (intro safe_ingLife_run) (auto simp: attempt_def ask_def)
  then show ?thesis
    unfolding EnsureIngressUseCase_def ensureIngress_def GetIngress_def ignoreNotFound_def
    by (intro safe_intro safe_ingLife_ask) (auto simp: svcRead_def)
qed

lemma safe_ingLife_report:
  assumes "safe (addsR svcHist (ofRun k (ingressLife uc ns n))) m s"
  shows "safe (addsR svcHist (ofRun k (ingressLife uc ns n))) (svcReport key failed ok m) s"
  unfolding svcReport_def svcRecordEvent_def
  by (intro safe_intro safe_ingLife_ask assms) (simp_all add: svcRead_def)

lemma safe_ingLife_reconcileEnsure:
  assumes "k \<le> length (svcHist s)"
  shows "safe (addsR svcHist (ofRun k (ingressLife uc ns n))) (ingReconcileEnsure uc ns n) s"
  unfolding ingReconcileEnsure_def ingAddFinalizers_def svcWithMetrics_def
proof (intro safe_intro safe_ingLife_ensure)
  show "ofRun k (ingressLife uc ns n) (svcHist s) (SvAddFinalizers IngressFinalizer (w_AddFinalizers (iuc_world uc) (svcHist s) IngressFinalizer))"
    by (simp add: ofRun_def ingressLife_def)
  fix x s'
  assume add: "wrapErr (\<lambda>err. fst (NewErrorWithMetrics err))
       (ask (SvAddFinalizers IngressFinalizer) (\<lambda>h. w_AddFinalizers (iuc_world uc) h IngressFinalizer)) s = (Inr x, s')"
  with assms show "k \<le> length (svcHist s')" "SvAddFinalizers IngressFinalizer (Inr ()) \<in> set (drop k (svcHist s'))" by auto
qed

lemma safe_ingLife_reconcileDelete:
  assumes "k \<le> length (svcHist s)"
  shows "safe (addsR svcHist (ofRun k (ingressLife uc ns n))) (ingReconcileDelete pick uc ns n ing) s"
  unfolding ingReconcileDelete_def ingRemoveFinalizers_def svcWithMetrics_def
proof (intro safe_intro safe_ingLife_delete assms)
  fix x s'
  assume "wrapErr (\<lambda>err. fst (NewErrorWithMetrics err)) (DeleteIngressUseCase pick uc ns n) s = (Inr x, s')"
  then have "DeleteIngressUseCase pick uc ns n s = (Inr (), s')" by simp
  from DeleteIngressUseCase_run[OF this refl] have left: "nothingLeftOfIngress uc ns n (drop (length (svcHist s)) (svcHist s'))" by simp
  have "nothingLeftOfIngress uc ns n (drop k (svcHist s'))"
    by (rule nothingLeftOfIngress_more[OF left]) (simp add: assms set_drop_subset_set_drop)
  then show "ofRun k (ingressLife uc ns n) (svcHist s') (SvRemoveFinalizers IngressFinalizer (w_RemoveFinalizers (iuc_world uc) (svcHist s') IngressFinalizer))"
    by (simp add: ofRun_def ingressLife_def)
qed


text \<open>After a successful initialisation every default the tasks use is there.\<close>

lemma InitIngressUseCase_complete:
  assumes "InitIngressUseCase uc s = (Inr uc', s')"
  shows "\<not> networkIncomplete (iucView uc') \<and> iuc_clusterId uc' \<noteq> []"
proof -
  from assms obtain v s1 where v: "InitServiceUseCase (iucView uc) s = (Inr v, s1)"
    and uc': "uc' = uc\<lparr>iuc_clusterId := suc_clusterId v, iuc_defaultNetworkId := suc_defaultNetworkId v,
                   iuc_defaultSubnetId := suc_defaultSubnetId v, iuc_defaultSubnetCIDR := suc_defaultSubnetCIDR v,
                   iuc_defaultZone := suc_defaultZone v\<rparr>"
    by (auto simp: InitIngressUseCase_def andThen_Inr_iff)
  from InitServiceUseCase_complete[OF v] show ?thesis by (simp add: uc' iucView_def networkIncomplete_def)
qed

end
