(* ===== verification/Ing_Index.thy ===== *)
theory Ing_Index
  imports Ing_Build
begin

section \<open>The index names every Service a run depends on\<close>

text \<open>A call for a Service is for one of the Ingress's namespace whose name is in the index, if not empty.\<close>

definition indexedService :: "Ingress \<Rightarrow> svcEvent \<Rightarrow> bool" where
  "indexedService ing e \<longleftrightarrow>
     (case e of
        SvGetService ns n _ \<Rightarrow> ns = om_Namespace (ingr_Meta ing) \<and> (n \<noteq> [] \<longrightarrow> n \<in> set (BuildServiceRefIndexes ing))
      | _ \<Rightarrow> True)"

definition inIndex :: "Ingress \<Rightarrow> IngressServiceBackend option \<Rightarrow> bool" where
  "inIndex ing service \<longleftrightarrow> (case service of None \<Rightarrow> True | Some b \<Rightarrow> isb_Name b \<noteq> [] \<longrightarrow> isb_Name b \<in> set (BuildServiceRefIndexes ing))"

lemma sets_List_facts: "sorted (sets_List ns) \<and> distinct (sets_List ns) \<and> set (sets_List ns) = set ns"
  by (simp add: sets_List_def)

lemma BuildServiceRefIndexes_names:
  "n \<in> set (BuildServiceRefIndexes ing) \<longleftrightarrow> n \<noteq> [] \<and> (\<exists>b. Some b \<in> set (ingressBackends ing) \<and> isb_Name b = n)"
  by (force simp: BuildServiceRefIndexes_def sets_List_facts List.map_filter_def split: option.splits if_splits)

lemma inIndex_backend: "service \<in> set (ingressBackends ing) \<Longrightarrow> inIndex ing service"
  by (auto simp: inIndex_def BuildServiceRefIndexes_names split: option.splits)

lemma inIndex_default: "ingr_DefaultBackend ing = Some service \<Longrightarrow> inIndex ing service"
  by (rule inIndex_backend) (simp add: ingressBackends_def)

lemma inIndex_path:
  "rule \<in> set (ingr_Rules ing) \<Longrightarrow> ir_HTTP rule = Some paths \<Longrightarrow> path \<in> set paths \<Longrightarrow> inIndex ing (hp_Service path)"
  by (rule inIndex_backend) (force simp: ingressBackends_def)

abbreviation asksIndexed :: "Ingress \<Rightarrow> svcSt \<Rightarrow> svcSt \<Rightarrow> bool" where
  "asksIndexed ing \<equiv> addsR svcHist (\<lambda>_. indexedService ing)"

lemma indexed_endpoints:
  assumes "indexedService ing (SvGetService ns n (Inl err))"
  shows "safe (asksIndexed ing) (ResolvePodEndpoints w ns n port) s"
    "safe (asksIndexed ing) (ResolveNodePortEndpoints kc fo w ns n port sel) s"
    "safe (asksIndexed ing) (GetListTargetPort w ns n port) s"
  using assms unfolding endpoint_defs world_defs by (intro safe_intro; simp add: indexedService_def)+

lemma indexed_DetectCNIType: "safe (asksIndexed ing) (DetectCNIType w) s"
  unfolding DetectCNIType_def isCalicoOverlay_def isCiliumNativeRouting_def isCiliumOverlay_def getDaemonSet_def
    anyNamespace.simps
  by (intro safe_intro) (simp_all add: indexedService_def)

lemma indexed_collectCidrs: "safe (asksIndexed ing) (collectCidrs w ids acc) s"
  by (induction ids arbitrary: acc s) (auto simp: world_defs indexedService_def intro!: safe_intro)

lemma indexed_name:
  assumes "inIndex (it_ingress t) (Some service)"
  shows "indexedService (it_ingress t) (SvGetService (it_ns t) (isb_Name service) r)"
  using assms by (simp add: indexedService_def inIndex_def it_ns_def)

lemma indexed_backend:
  assumes "inIndex (it_ingress t) (Some service)"
  shows "safe (asksIndexed (it_ingress t)) (backendPort t service) s"
    "safe (asksIndexed (it_ingress t)) (backendNodePorts t ls service) s"
    "safe (asksIndexed (it_ingress t)) (backendPods t service) s"
    "safe (asksIndexed (it_ingress t)) (ing_nativeRules t service) s"
  unfolding backendPort_def backendNodePorts_def backendPods_def ing_nativeRules_def ing_getAllSubnetCidrs_def getAllSubnetCidrs_def
    GetService_def ListNode_def
  by (intro safe_intro indexed_endpoints indexed_DetectCNIType indexed_collectCidrs indexed_name[OF assms];
      simp add: indexedService_def)+

lemma indexed_buildPool: "inIndex (it_ingress t) service \<Longrightarrow> safe (asksIndexed (it_ingress t)) (ing_buildPool t ls service) s"
  unfolding ing_buildPool_def backendMembers_def by (intro safe_intro indexed_backend) simp_all

lemma indexed_servePath:
  "inIndex (it_ingress t) (hp_Service (snd ip)) \<Longrightarrow> safe (asksIndexed (it_ingress t)) (servePath t ls i rule ip st) s"
  unfolding servePath_def addPolicy_def Let_def by (intro safe_intro indexed_buildPool) simp_all

lemma enumerate_member: "(i, x) \<in> set (enumerate k xs) \<Longrightarrow> x \<in> set xs"
  by (auto simp: in_set_enumerate_eq)

lemma indexed_serveRule:
  assumes "snd ir \<in> set (ingr_Rules (it_ingress t))"
  shows "safe (asksIndexed (it_ingress t)) (serveRule t ls ir st) s"
  unfolding serveRule_def
proof (intro safe_intro indexed_servePath)
  fix i rule paths ip s'
  assume "ir = (i, rule)" "ir_HTTP rule = Some paths" "ip \<in> set (enumerate 0 paths)"
  with assms show "inIndex (it_ingress t) (hp_Service (snd ip))" by (cases ip) (auto dest: enumerate_member inIndex_path)
qed

lemma indexed_pools: "safe (asksIndexed (it_ingress t)) (ing_buildPoolsAndListeners t ls) s"
  unfolding ing_buildPoolsAndListeners_def buildDefaultPool_def
  by (intro safe_intro indexed_buildPool indexed_serveRule) (auto dest: enumerate_member intro: inIndex_default)

lemma indexed_backendRules: "inIndex (it_ingress t) service \<Longrightarrow> safe (asksIndexed (it_ingress t)) (backendRules t ls cidr service) s"
  unfolding backendRules_def buildPoolSecgroupRule_def by (intro safe_intro indexed_backend) simp_all

lemma indexed_rules: "safe (asksIndexed (it_ingress t)) (ing_buildDefaultSecurityGroupRule t cidr ls) s"
  unfolding ing_buildDefaultSecurityGroupRule_def ruleRules_def
  by (intro safe_intro indexed_backendRules) (auto intro: inIndex_default inIndex_path)

lemma indexed_placementInZone: "safe (asksIndexed ing) (placementInZone t z ids) s"
  by (induction ids arbitrary: s) (auto simp: world_defs indexedService_def intro!: safe_intro split: sum.split)

lemma indexed_rest:
  "safe (asksIndexed ing) (ing_buildSubnetAndZone t existing) s1"
  "safe (asksIndexed ing) (ing_getLBCAddress t) s2"
  "safe (asksIndexed ing) (ing_writeLBC t existing lbc) s3"
  "safe (asksIndexed ing) (ing_writeNSG t existing' nsg) s4"
  "safe (asksIndexed ing) (ListLBC w ns ll) s5"
  "safe (asksIndexed ing) (ListNSG w ns ll) s6"
  "safe (asksIndexed ing) (UpdateIngressStatusAddress w ns n a) s7"
  unfolding ing_buildSubnetAndZone_def buildSubnetAndZone_def ing_getLBCAddress_def getLBCAddress_def ing_writeLBC_def writeLBC_def
    ing_writeNSG_def writeNSG_def UpdateIngressStatusAddress_def Let_def placementOfSubnet_def
    CreateLoadBalancerConfig_def CreateNodeSecurityGroup_def world_defs
  by (intro safe_intro indexed_placementInZone safe_read_awaitCreated; simp add: indexedService_def)+

text \<open>
  C35. The watch sees all a run depends on. Every Service a run of an Ingress asks for lies in the namespace
  of the Ingress and, if it has a name at all, under a name the Ingress is indexed by: an event of the
  Service finds the Ingress in the index and starts its next run.
\<close>

theorem runIngress_indexed: "safe (addsR svcHist (\<lambda>_. indexedService (it_ingress t))) (runIngress u t) s"
  unfolding runIngress_def ing_buildLoadBalancerConfig_def ing_buildNodeSecurityGroup_def ing_nsgSpecFor_def Let_def
  by (intro safe_intro indexed_rest indexed_pools indexed_rules)

end
