(* ===== verification/Ing_Example.thy ===== *)
theory Ing_Example
  imports Ing_Index Svc_Example
begin

text \<open>
  An Ingress for the witnesses of the Ingress theories, in the cluster of \<^verbatim>\<open>Svc_Example\<close>: one host with
  two paths, one to the Service that is there and one to a Service that is not.
\<close>

definition ex_ic :: ing_consts where
  "ex_ic =
     \<lparr>PathTypeExact = ''Exact'', PathTypePrefix = ''Prefix'', PathTypeImplementationSpecific = ''ImplementationSpecific'',
      PolicyCompareTypeCONTAINS = ''CONTAINS'', PolicyCompareTypeENDSWITH = ''ENDS_WITH'',
      PolicyCompareTypeSTARTSWITH = ''STARTS_WITH'', PolicyCompareTypeREGEX = ''REGEX'', PolicyCompareTypeEQUALS = ''EQUAL_TO'',
      PolicyRuleTypePATH = ''PATH'', PolicyRuleTypeHOSTNAME = ''HOST_NAME'', PolicyActionREJECT = ''REJECT'',
      ListenerProtocolHTTP = ''HTTP'', PoolProtocolHTTP = ''HTTP''\<rparr>"

definition ex_backend :: "string \<Rightarrow> IngressServiceBackend" where
  "ex_backend n = \<lparr>isb_Name = n, isb_Port = \<lparr>sbp_Name = [], sbp_Number = 80\<rparr>\<rparr>"

definition ex_path :: "string \<Rightarrow> string \<Rightarrow> HTTPIngressPath" where
  "ex_path p n = \<lparr>hp_Path = p, hp_PathType = Some ''Prefix'', hp_Service = Some (ex_backend n)\<rparr>"

definition ex_rule :: IngressRule where
  "ex_rule = \<lparr>ir_Host = ''a.example'', ir_HTTP = Some [ex_path ''/'' ''web'', ex_path ''/old'' ''gone'']\<rparr>"

definition ex_ingress :: "gomap \<Rightarrow> Ingress" where
  "ex_ingress anns =
     \<lparr>ingr_Kind = ''Ingress'', ingr_Meta = zeroMeta\<lparr>om_Namespace := ''default'', om_Name := ''shop'', om_Annotations := anns\<rparr>,
      ingr_IngressClassName = Some ''vngcloud'', ingr_DefaultBackend = None, ingr_TLS = [], ingr_Rules = [ex_rule], ingr_Status = []\<rparr>"

text \<open>Only the Service \<open>web\<close> is there; \<open>gone\<close> is reported with the error \<open>e\<close>.\<close>

definition ex_ingWorld :: "string \<Rightarrow> svcWorld" where
  "ex_ingWorld e = ex_world\<lparr>w_GetService := (\<lambda>_ _ n. if n = ''web'' then Inr ex_svc else Inl (ErrorString e))\<rparr>"

definition ex_ing :: "string \<Rightarrow> gomap \<Rightarrow> ingTask" where
  "ex_ing e anns =
     \<lparr>it_clusterId = ''k8s-1'', it_parser = ex_parser, it_kc = ex_kc, it_ic = ex_ic, it_ingress = ex_ingress anns,
      it_world = ex_ingWorld e, it_nameHelper = NewNameHelper ''k8s-1'' ''ingress'' ''default'' ''shop'',
      it_defaultZone = ''zone-1'', it_defaultNetworkId = ''net-1'', it_defaultSubnetId = ''sub-1'',
      it_defaultSubnetCIDR = ''10.0.0.0/24''\<rparr>"

lemma ex_ing_simps [simp]:
  "it_world (ex_ing e anns) = ex_ingWorld e" "it_parser (ex_ing e anns) = ex_parser" "it_kc (ex_ing e anns) = ex_kc"
  "it_ic (ex_ing e anns) = ex_ic" "it_ingress (ex_ing e anns) = ex_ingress anns" "it_ns (ex_ing e anns) = ''default''"
  "ingr_Rules (ex_ingress anns) = [ex_rule]" "ingr_TLS (ex_ingress anns) = []" "ingr_DefaultBackend (ex_ingress anns) = None"
  "ingAnns (ex_ing e anns) = anns" "om_Annotations (ingr_Meta (ex_ingress anns)) = anns"
  "w_net6 (ex_ingWorld e) = \<lparr>net_ParseCIDR6 = \<lambda>_. None, net_ParseMapped4 = \<lambda>_. None\<rparr>"
  by (simp_all add: ex_ing_def it_ns_def ingAnns_def ex_ingress_def zeroMeta_def ex_ingWorld_def ex_world_def)

definition ex_ann :: gomap where "ex_ann = [(''vks.vngcloud.vn/auto-reorder-policies'', ''true'')]"

lemma ex_ann_parse:
  "parseStringAnnotation ex_parser SuffixAutoReorderPolicies ex_ann [] = Some (''true'', ''vks.vngcloud.vn/auto-reorder-policies'')"
  "parseStringAnnotation ex_parser SuffixTargetType ex_ann [] = None"
  "parseStringAnnotation ex_parser SuffixInboundCIDRs ex_ann [] = None"
  "parseStringAnnotation ex_parser SuffixDroppedCIDRs ex_ann [] = None"
  "parseStringAnnotation ex_parser SuffixACLDefaultAction ex_ann [] = None"
  by (simp_all add: parseStringAnnotation_def buildAnnotationKeys_def ex_parser_def ex_ann_def SuffixAutoReorderPolicies_def
      SuffixTargetType_def SuffixInboundCIDRs_def SuffixDroppedCIDRs_def SuffixACLDefaultAction_def)

lemma ex_reorder: "buildAnnotationAutoReorderPolicies (ex_ing e ex_ann) = Some True"
  by (simp add: buildAnnotationAutoReorderPolicies_def boolAnn_def ParseBoolAnnotation_def ex_ann_parse ParseBool_def setBool_def)

lemma ex_instance: "ing_getTargetType (ex_ing e ex_ann) = TargetTypeInstance"
  by (simp add: ing_getTargetType_def strAnn_def ParseStringAnnotation_def ex_ann_parse TargetTypeIP_def TargetTypeInstance_def)

lemma ex_acl: "\<exists>f. FromAnnotations (w_net6 (ex_ingWorld e)) ex_parser ex_ann = Inr f"
  by (simp add: FromAnnotations_def blockedField_def actionField_def ParseStringSliceAnnotation_def ParseStringAnnotation_def ex_ann_parse)

lemma ex_http: "\<exists>l. httpListener (ex_ing e ex_ann) None = Inr (Some l)"
  using ex_acl[of e] by (auto simp: httpListener_def checkNeedHTTPListener_def ex_rule_def hostUsingTLS_def listenerWith_def buildListeners_def Let_def)

lemma ex_https: "httpsListener (ex_ing e ex_ann) None = Inr None"
  by (simp add: httpsListener_def isValidToBuildHTTPSListener_def)

lemma ex_policy:
  "buildPolicyByPath (ex_ing e ex_ann) host n (ex_path p s) = Inr (policyOfPath (ex_ing e ex_ann) host n (ex_path p s) ''STARTS_WITH'')"
  by (simp add: buildPolicyByPath_def ex_path_def ex_ic_def)

lemma ex_web: "\<exists>pool s'. ing_buildPool (ex_ing e ex_ann) [] (Some (ex_backend ''web'')) s = (Inr (Resolved pool), s')"
  by (simp add: ing_buildPool_def backendPort_def findBackendPort_def ex_backend_def backendMembers_def ex_instance backendNodePorts_def
      ResolveNodePortEndpoints_def findServiceAndServicePort_def world_defs lookupServicePort_def serviceBackendToIntOrString_def
      andThen_def attempt_def wrapErr_def Let_def ex_ingWorld_def)
    (simp add: ex_svc_defs)

lemma ex_gone:
  "ing_buildPool (ex_ing ''not found'' ex_ann) [] (Some (ex_backend ''gone'')) s =
     (Inr (unresolvable ''default/gone''), s\<lparr>svcHist := svcHist s @ [SvGetService ''default'' ''gone'' (Inl (ErrorString ''not found''))]\<rparr>)"
  by (simp add: ing_buildPool_def backendPort_def ex_backend_def world_defs andThen_def attempt_def unresolvable_def backendKey_def
      ex_ingWorld_def ex_world_def)

lemma ex_fails:
  "ing_buildPool (ex_ing ''timeout'' ex_ann) [] (Some (ex_backend ''gone'')) s =
     (Inl (errorf ''failed to get service default/gone'' (ErrorString ''timeout'')),
      s\<lparr>svcHist := svcHist s @ [SvGetService ''default'' ''gone'' (Inl (ErrorString ''timeout''))]\<rparr>)"
  by (simp add: ing_buildPool_def backendPort_def ex_backend_def world_defs andThen_def attempt_def backendKey_def
      ex_ingWorld_def ex_world_def)

lemma ex_action: "pol_Action (policyOfPath (ex_ing e ex_ann) host n path c) = PolicyActionREDIRECTTOPOOL ex_kc"
  by (simp add: policyOfPath_def)

lemma ex_host: "ir_Host ex_rule \<notin> hostUsingTLS (ex_ing e ex_ann)"
  by (simp add: hostUsingTLS_def)

text \<open>One listener, with the policy of the path that is served.\<close>

lemma ex_run:
  "\<exists>pool l p s'. ing_buildPoolsAndListeners (ex_ing ''not found'' ex_ann) [] s = (Inr ([pool], [l]), s') \<and> lis_Policies l = [p]"
proof -
  let ?t = "ex_ing ''not found'' ex_ann"
  obtain l where l: "httpListener ?t None = Inr (Some l)" using ex_http by blast
  from builtListeners[OF l ex_https] have no: "lis_Policies l = []" by (simp add: policiesOf_def)
  obtain pool s1 where web: "ing_buildPool ?t [] (Some (ex_backend ''web'')) s = (Inr (Resolved pool), s1)" using ex_web by blast
  have paths: "ir_HTTP ex_rule = Some [ex_path ''/'' ''web'', ex_path ''/old'' ''gone'']" "hp_Service (ex_path a b) = Some (ex_backend b)" for a b
    by (simp_all add: ex_rule_def ex_path_def)
  show ?thesis
    by (simp add: ing_buildPoolsAndListeners_def buildDefaultPool_def andThen_def l ex_https liftResult_def serveRule_def servePath_def
        paths ex_policy ex_action ex_host web ex_gone unresolvable_def addPolicy_def appendPool_def withPolicy_def no Let_def
        allListeners_def reorder_def ex_reorder buildAutoAddPolicyPosition_def sortPolicies_def autoPositions_def)
qed

lemma ex_fail:
  "\<exists>e s'. ing_buildPoolsAndListeners (ex_ing ''timeout'' ex_ann) [] s = (Inl e, s')"
proof -
  let ?t = "ex_ing ''timeout'' ex_ann"
  obtain l where l: "httpListener ?t None = Inr (Some l)" using ex_http by blast
  obtain pool s1 where web: "ing_buildPool ?t [] (Some (ex_backend ''web'')) s = (Inr (Resolved pool), s1)" using ex_web by blast
  have paths: "ir_HTTP ex_rule = Some [ex_path ''/'' ''web'', ex_path ''/old'' ''gone'']" "hp_Service (ex_path a b) = Some (ex_backend b)" for a b
    by (simp_all add: ex_rule_def ex_path_def)
  show ?thesis
    by (simp add: ing_buildPoolsAndListeners_def buildDefaultPool_def andThen_def l ex_https liftResult_def serveRule_def servePath_def
        paths ex_policy ex_action ex_host web ex_fails addPolicy_def Let_def)
qed

lemma ex_small: "smallIngress (ex_ing e anns)"
  by (simp add: smallIngress_def ex_rule_def)

section \<open>Witnesses\<close>

theorem ing_paths_served_or_unresolvable_witness:
  "\<exists>pool l s' outs. ing_buildPoolsAndListeners (ex_ing ''not found'' ex_ann) [] ex_svcSt = (Inr ([pool], [l]), s')
     \<and> list_all2 (pathOutcome (ex_ing ''not found'' ex_ann) (svcHist s')) (allPaths (ex_ing ''not found'' ex_ann)) outs
     \<and> length outs = 2"
proof -
  from ex_run obtain pool l s' where run: "ing_buildPoolsAndListeners (ex_ing ''not found'' ex_ann) [] ex_svcSt = (Inr ([pool], [l]), s')" by blast
  have "length (allPaths (ex_ing e ex_ann)) = 2" for e by (simp add: allPaths_def pathsOf_def ex_rule_def)
  with ing_paths_served_or_unresolvable[OF run] run show ?thesis by (metis list_all2_lengthD)
qed

theorem ing_no_dangling_reference_witness:
  "\<exists>pool l p s'. ing_buildPoolsAndListeners (ex_ing ''not found'' ex_ann) [] ex_svcSt = (Inr ([pool], [l]), s')
     \<and> lis_Policies l = [p] \<and> (pol_Action p = ''REDIRECT_TO_POOL'' \<longrightarrow> pol_RedirectPoolName p = Some (pool_Name pool))"
proof -
  from ex_run obtain pool l p s' where run: "ing_buildPoolsAndListeners (ex_ing ''not found'' ex_ann) [] ex_svcSt = (Inr ([pool], [l]), s')"
    and l: "lis_Policies l = [p]" by blast
  from ing_no_dangling_reference[OF run] l have "pol_Action p = ''REDIRECT_TO_POOL'' \<longrightarrow> pol_RedirectPoolName p = Some (pool_Name pool)"
    by (simp add: ex_kc_def)
  with run l show ?thesis by blast
qed

theorem ing_auto_order_witness:
  "\<exists>pool l p s'. ing_buildPoolsAndListeners (ex_ing ''not found'' ex_ann) [] ex_svcSt = (Inr ([pool], [l]), s')
     \<and> lis_Policies l = [p] \<and> pol_Position p = Some 1"
proof -
  from ex_run obtain pool l p s' where run: "ing_buildPoolsAndListeners (ex_ing ''not found'' ex_ann) [] ex_svcSt = (Inr ([pool], [l]), s')"
    and l: "lis_Policies l = [p]" by blast
  from ing_auto_order[OF run ex_reorder ex_small, of l] l have "pol_Position p = Some 1" by simp
  with run l show ?thesis by blast
qed


text \<open>Headers as the documentation writes them.\<close>

theorem buildHttpInsertHeaders_over_defaults_witness:
  "\<exists>anns. map_of anns ''vks.vngcloud.vn/insert-headers'' = Some ''X-Real-IP:true''
     \<and> buildHttpInsertHeaders (ex_ing [] anns) = headersOf (Some defaultHeaders)"
proof -
  let ?anns = "[(''vks.vngcloud.vn/insert-headers'', ''X-Real-IP:true'')]"
  have "parseStringAnnotation (it_parser (ex_ing [] ?anns)) SuffixInsertHeaders (ingAnns (ex_ing [] ?anns)) []
      = Some (''X-Real-IP:true'', ''vks.vngcloud.vn/insert-headers'')"
    by (simp add: parseStringAnnotation_def buildAnnotationKeys_def ex_parser_def SuffixInsertHeaders_def)
  from buildHttpInsertHeaders_over_defaults[OF this]
  have "scanJson ''X-Real-IP:true'' = None \<Longrightarrow> buildHttpInsertHeaders (ex_ing [] ?anns) = headersOf (Some defaultHeaders)" by blast
  moreover have "scanJson ''X-Real-IP:true'' = None" by code_simp
  ultimately have "buildHttpInsertHeaders (ex_ing [] ?anns) = headersOf (Some defaultHeaders)" by blast
  then show ?thesis by (intro exI[of _ ?anns]) simp
qed

end
