(* ===== verification/Glb_Types.thy ===== *)
theory Glb_Types
  imports Pools
begin

text \<open>
  The types of the GlobalLoadBalancerConfig controller: the CRD of
  \<^verbatim>\<open>api/v1alpha1/globalloadbalancerconfig_types.go\<close> with its \<open>Equal\<close> methods, the section
  \<open>GlobalLoadBalancerOpts\<close> of \<^verbatim>\<open>pkg/config/config.go\<close>, the fields the code reads of the
  cloud's entities, and the requests it fills. A request built by a chain of \<open>With...\<close> calls is the record
  of what the calls have set.
\<close>

section \<open>The CRD\<close>

record GlobalMember =
  gm_Address :: string
  gm_BackupRole :: bool
  gm_Description :: "string option"
  gm_MonitorPort :: "int option"
  gm_Name :: string
  gm_Port :: int
  gm_SubnetID :: string
  gm_Weight :: "int option"

record GlobalPoolMember =
  gpm_Name :: string
  gpm_Description :: "string option"
  gpm_Region :: string
  gpm_TrafficDial :: "int option"
  gpm_VpcId :: string
  gpm_Type :: string
  gpm_Members :: "GlobalMember list"

record GlobalPoolHealthMonitor =
  ghm_Protocol :: string
  ghm_HealthyThreshold :: "int option"
  ghm_UnhealthyThreshold :: "int option"
  ghm_Interval :: "int option"
  ghm_Timeout :: "int option"
  ghm_HealthCheckMethod :: "string option"
  ghm_HttpVersion :: "string option"
  ghm_HealthCheckPath :: "string option"
  ghm_DomainName :: "string option"
  ghm_SuccessCode :: "string option"

record GlobalPool =
  gp_Name :: string
  gp_Description :: "string option"
  gp_Protocol :: string
  gp_Algorithm :: "string option"
  gp_Stickiness :: "bool option"
  gp_TLSEncryption :: "bool option"
  gp_HealthMonitor :: GlobalPoolHealthMonitor
  gp_PoolMembers :: "GlobalPoolMember list"

record GlobalListener =
  gl_Name :: string
  gl_Description :: "string option"
  gl_Protocol :: string
  gl_ProtocolPort :: int
  gl_DefaultPoolName :: "string option"
  gl_TimeoutClient :: "int option"
  gl_TimeoutMember :: "int option"
  gl_TimeoutConnection :: "int option"
  gl_AllowedCidrs :: "string option"
  gl_Headers :: "string list"

record GlobalLoadBalancerConfigSpec =
  gsp_Name :: string
  gsp_Description :: "string option"
  gsp_Type :: string
  gsp_PackageId :: "string option"
  gsp_PaymentFlow :: "string option"
  gsp_LoadBalancerId :: "string option"
  gsp_Tags :: gomap
  gsp_GlobalListeners :: "GlobalListener list"
  gsp_GlobalPools :: "GlobalPool list"

record GlobalLoadBalancerVIPStatus =
  vip_Address :: string
  vip_Region :: string
  vip_Status :: string

record CreatedGlobalListener =
  cgl_Id :: string
  cgl_Port :: int
  cgl_Name :: string

record CreatedGlobalPoolMember =
  cgm_Id :: string
  cgm_Name :: string
  cgm_CreatedMembers :: "GlobalMember list"

record CreatedGlobalPool =
  cgp_Id :: string
  cgp_Name :: string
  cgp_CreatedPoolMembers :: "CreatedGlobalPoolMember list"

record GlobalLoadBalancerConfigStatus =
  gst_ObservedGeneration :: "int option"
  gst_LastReconcileTime :: "int option"
  gst_LastReconcileMessage :: string
  gst_LoadBalancerId :: "string option"
  gst_Vips :: "GlobalLoadBalancerVIPStatus list"
  gst_Domains :: "string list"
  gst_CreatedTags :: gomap
  gst_CreatedPools :: "CreatedGlobalPool list"
  gst_CreatedListeners :: "CreatedGlobalListener list"
  gst_Conditions :: "Condition list"

record GlobalLoadBalancerConfig =
  glbc_Meta :: ObjectMeta
  glbc_Spec :: GlobalLoadBalancerConfigSpec
  glbc_Status :: GlobalLoadBalancerConfigStatus

definition GLBCConditionTypeReady :: string where "GLBCConditionTypeReady = ''Ready''"
definition GLBCReasonReconcileSuccess :: string where "GLBCReasonReconcileSuccess = ''ReconcileSuccess''"
definition GLBCReasonReconcileFailed :: string where "GLBCReasonReconcileFailed = ''ReconcileFailed''"
definition GlbcFinalizer :: string where "GlbcFinalizer = ''glbc.vngcloud.vn/resources''"

section \<open>Equal methods\<close>

text \<open>\<open>ptr.Equal\<close> compares pointees, which on options is equality.\<close>

definition GlobalMember_Equal :: "GlobalMember \<Rightarrow> GlobalMember \<Rightarrow> bool" where
  "GlobalMember_Equal a b \<longleftrightarrow>
     gm_Address a = gm_Address b \<and> gm_Name a = gm_Name b \<and> gm_Port a = gm_Port b
     \<and> gm_SubnetID a = gm_SubnetID b \<and> gm_BackupRole a = gm_BackupRole b
     \<and> gm_Description a = gm_Description b \<and> gm_MonitorPort a = gm_MonitorPort b \<and> gm_Weight a = gm_Weight b"

definition GlobalLoadBalancerVIPStatus_Equal ::
  "GlobalLoadBalancerVIPStatus \<Rightarrow> GlobalLoadBalancerVIPStatus \<Rightarrow> bool" where
  "GlobalLoadBalancerVIPStatus_Equal a b \<longleftrightarrow>
     vip_Address a = vip_Address b \<and> vip_Region a = vip_Region b \<and> vip_Status a = vip_Status b"

definition CreatedGlobalListener_Equal :: "CreatedGlobalListener \<Rightarrow> CreatedGlobalListener \<Rightarrow> bool" where
  "CreatedGlobalListener_Equal a b \<longleftrightarrow> cgl_Id a = cgl_Id b \<and> cgl_Port a = cgl_Port b \<and> cgl_Name a = cgl_Name b"

definition CreatedGlobalPoolMember_Equal :: "CreatedGlobalPoolMember \<Rightarrow> CreatedGlobalPoolMember \<Rightarrow> bool" where
  "CreatedGlobalPoolMember_Equal a b \<longleftrightarrow>
     cgm_Id a = cgm_Id b \<and> cgm_Name a = cgm_Name b
     \<and> covers GlobalMember_Equal (cgm_CreatedMembers a) (cgm_CreatedMembers b)"

definition CreatedGlobalPool_Equal :: "CreatedGlobalPool \<Rightarrow> CreatedGlobalPool \<Rightarrow> bool" where
  "CreatedGlobalPool_Equal a b \<longleftrightarrow>
     cgp_Id a = cgp_Id b \<and> cgp_Name a = cgp_Name b
     \<and> covers CreatedGlobalPoolMember_Equal (cgp_CreatedPoolMembers a) (cgp_CreatedPoolMembers b)"

text \<open>
  The comparisons of \<^verbatim>\<open>internal/usecase/glbc_uc/status.go\<close>: equal length, and every element of the
  first list equal to some element of the second.
\<close>

definition globalLoadBalancerVIPsEqual ::
  "GlobalLoadBalancerVIPStatus list \<Rightarrow> GlobalLoadBalancerVIPStatus list \<Rightarrow> bool" where
  "globalLoadBalancerVIPsEqual a b = covers GlobalLoadBalancerVIPStatus_Equal a b"
definition stringSlicesEqualUnordered :: "string list \<Rightarrow> string list \<Rightarrow> bool" where
  "stringSlicesEqualUnordered a b = covers (\<lambda>x y. y = x) a b"
definition createdGlobalPoolsEqual :: "CreatedGlobalPool list \<Rightarrow> CreatedGlobalPool list \<Rightarrow> bool" where
  "createdGlobalPoolsEqual a b = covers CreatedGlobalPool_Equal a b"
definition createdGlobalListenersEqual :: "CreatedGlobalListener list \<Rightarrow> CreatedGlobalListener list \<Rightarrow> bool" where
  "createdGlobalListenersEqual a b = covers CreatedGlobalListener_Equal a b"
definition createdGlobalPoolMembersEqual ::
  "CreatedGlobalPoolMember list \<Rightarrow> CreatedGlobalPoolMember list \<Rightarrow> bool" where
  "createdGlobalPoolMembersEqual a b = covers CreatedGlobalPoolMember_Equal a b"

text \<open>They are interpretations of the contract of such a comparison.\<close>

interpretation globalMember_eq: go_equal GlobalMember_Equal
  by unfold_locales (auto simp: GlobalMember_Equal_def)

interpretation globalVip_eq: go_equal GlobalLoadBalancerVIPStatus_Equal
  by unfold_locales (auto simp: GlobalLoadBalancerVIPStatus_Equal_def)

interpretation globalListener_eq: go_equal CreatedGlobalListener_Equal
  by unfold_locales (auto simp: CreatedGlobalListener_Equal_def)

interpretation globalPoolMember_eq: go_covered CreatedGlobalPoolMember_Equal
  by unfold_locales
    (auto simp: CreatedGlobalPoolMember_Equal_def intro: globalMember_eq.covers_refl globalMember_eq.covers_trans)

interpretation globalPool_eq: go_covered CreatedGlobalPool_Equal
  by unfold_locales
    (auto simp: CreatedGlobalPool_Equal_def intro: globalPoolMember_eq.covers_refl globalPoolMember_eq.covers_trans)

text \<open>
  A member record or a listener record is equal only to itself. \<open>stringSlicesEqualUnordered\<close> is set
  equality on lists without duplicates, and not symmetric on others.
\<close>

lemma CreatedGlobalListener_Equal_iff [simp]: "CreatedGlobalListener_Equal a b \<longleftrightarrow> a = b"
  by (auto simp: CreatedGlobalListener_Equal_def)

lemma stringSlicesEqualUnordered_sets:
  assumes "distinct a"
  shows "stringSlicesEqualUnordered a b \<longleftrightarrow> length a = length b \<and> set a = set b"
proof
  assume "stringSlicesEqualUnordered a b"
  then have len: "length a = length b" and sub: "set a \<subseteq> set b"
    by (auto simp: stringSlicesEqualUnordered_def covers_def list_all_iff list_ex_iff)
  have "card (set b) \<le> card (set a)" using len assms card_length[of b] by (simp add: distinct_card)
  with sub len show "length a = length b \<and> set a = set b" by (meson List.finite_set card_seteq)
qed (auto simp: stringSlicesEqualUnordered_def covers_def list_all_iff list_ex_iff)

lemma stringSlicesEqualUnordered_not_sym:
  "stringSlicesEqualUnordered [''a'', ''a''] [''a'', ''b''] \<and> \<not> stringSlicesEqualUnordered [''a'', ''b''] [''a'', ''a'']"
  by (simp add: stringSlicesEqualUnordered_def covers_def)

section \<open>Configuration and constants\<close>

record GlobalLoadBalancerOpts =
  go_DefaultL4PackageName :: string
  go_DefaultPoolAlgorithm :: string
  go_DefaultHealthyThreshold :: int
  go_DefaultUnhealthyThreshold :: int
  go_DefaultInterval :: int
  go_DefaultTimeout :: int
  go_DefaultTimeoutClient :: int
  go_DefaultTimeoutMember :: int
  go_DefaultTimeoutConnection :: int
  go_DefaultAllowedCidrs :: string

text \<open>The constants of the SDK's \<open>global\<close> package: their texts are the SDK's.\<close>

record global_consts =
  GlobalLoadBalancerTypeLayer4 :: string
  GlobalLoadBalancerPaymentFlowAutomated :: string
  GlobalPoolHealthCheckProtocolHTTP :: string
  GlobalPoolHealthCheckProtocolHTTPs :: string
  GlobalPoolHealthCheckProtocolTCP :: string

section \<open>SDK entities\<close>

text \<open>\<open>Vips\<close> and \<open>Domains\<close> are the lists the code checks for nil entries.\<close>

record entity_GlobalVip =
  egv_Address :: string
  egv_Region :: string
  egv_Status :: string

record entity_GlobalLoadBalancer =
  eglb_ID :: string
  eglb_Name :: string
  eglb_Status :: string
  eglb_Package :: string
  eglb_Vips :: "entity_GlobalVip option list"
  eglb_Domains :: "string option list"

record entity_GlobalPackage =
  egk_ID :: string
  egk_Name :: string

record entity_GlobalHealth =
  egh_Protocol :: string
  egh_HealthyThreshold :: int
  egh_UnhealthyThreshold :: int
  egh_IntervalTime :: int
  egh_Timeout :: int
  egh_HTTPMethod :: "string option"
  egh_HTTPVersion :: "string option"
  egh_Path :: "string option"
  egh_SuccessCode :: "string option"
  egh_DomainName :: "string option"

record entity_GlobalPool =
  egp_ID :: string
  egp_Name :: string
  egp_Algorithm :: string
  egp_Health :: entity_GlobalHealth

record entity_GlobalPoolMemberDetail =
  egd_Name :: string
  egd_Address :: string
  egd_Port :: int
  egd_BackupRole :: bool
  egd_Weight :: int
  egd_MonitorPort :: int
  egd_SubnetID :: string

record entity_GlobalPoolMember =
  egm_ID :: string
  egm_Name :: string
  egm_TrafficDial :: int
  egm_Members :: "entity_GlobalPoolMemberDetail list option"

record entity_GlobalListener =
  egl_ID :: string
  egl_Name :: string
  egl_Port :: int
  egl_Protocol :: string
  egl_AllowedCidrs :: string
  egl_TimeoutClient :: int
  egl_TimeoutMember :: int
  egl_TimeoutConnection :: int
  egl_GlobalPoolID :: string
  egl_Headers :: "string option"

section \<open>Requests\<close>

record GlobalMemberRequest =
  gmr_Name :: string
  gmr_Address :: string
  gmr_SubnetID :: string
  gmr_Port :: int
  gmr_MonitorPort :: int
  gmr_Weight :: int
  gmr_BackupRole :: bool

record CreateGlobalPoolMemberRequest =
  gpr_Name :: string
  gpr_Region :: string
  gpr_VpcId :: string
  gpr_TrafficDial :: int
  gpr_Type :: string
  gpr_Members :: "GlobalMemberRequest list"

record UpdateGlobalPoolMemberRequest =
  gur_LoadBalancerId :: string
  gur_PoolId :: string
  gur_ID :: string
  gur_TrafficDial :: int
  gur_Members :: "GlobalMemberRequest list option"

datatype BulkAction =
    BulkCreate CreateGlobalPoolMemberRequest
  | BulkUpdate string UpdateGlobalPoolMemberRequest
  | BulkDelete string

record GlobalHealthMonitorRequest =
  ghr_Protocol :: string
  ghr_HealthyThreshold :: int
  ghr_UnhealthyThreshold :: int
  ghr_Interval :: int
  ghr_Timeout :: int
  ghr_HealthCheckMethod :: "string option"
  ghr_HttpVersion :: "string option"
  ghr_Path :: "string option"
  ghr_SuccessCode :: "string option"
  ghr_DomainName :: "string option"

record CreateGlobalPoolRequest =
  gcp_Name :: string
  gcp_Protocol :: string
  gcp_Algorithm :: string
  gcp_HealthMonitor :: GlobalHealthMonitorRequest
  gcp_Members :: "CreateGlobalPoolMemberRequest list"
  gcp_LoadBalancerId :: string

record UpdateGlobalPoolRequest =
  gup_LoadBalancerId :: string
  gup_PoolId :: string
  gup_HealthMonitor :: GlobalHealthMonitorRequest
  gup_Algorithm :: string

record CreateGlobalListenerRequest =
  gcl_LoadBalancerId :: string
  gcl_Name :: string
  gcl_Port :: int
  gcl_AllowedCidrs :: string
  gcl_TimeoutClient :: int
  gcl_TimeoutMember :: int
  gcl_TimeoutConnection :: int
  gcl_GlobalPoolId :: "string option"
  gcl_Headers :: "string list option"

record UpdateGlobalListenerRequest =
  gul_LoadBalancerId :: string
  gul_ListenerId :: string
  gul_AllowedCidrs :: string
  gul_TimeoutClient :: int
  gul_TimeoutMember :: int
  gul_TimeoutConnection :: int
  gul_GlobalPoolId :: string
  gul_Headers :: "string option"

record CreateGlobalLoadBalancerRequest =
  gcb_Name :: string
  gcb_Package :: string
  gcb_Type :: string
  gcb_PaymentFlow :: string
  gcb_Description :: "string option"
  gcb_GlobalListener :: "CreateGlobalListenerRequest option"
  gcb_GlobalPool :: "CreateGlobalPoolRequest option"

end
