(* ===== verification/Glb_World.thy ===== *)
theory Glb_World
  imports Glb_Types
begin

text \<open>
  The boundary of the GlobalLoadBalancerConfig controller: its calls to the Kubernetes API and the cloud, and
  the methods of \<^verbatim>\<open>internal/repository/vngcloud_repo/vngcloud_global.go\<close> and
  \<^verbatim>\<open>internal/repository/k8s_repo/k8s_repo.go\<close> that do more than pass a call on. The object of a
  reconcile is never updated in memory: every status write goes to a fresh copy. So the state of a run is
  the list of its calls, each answered from the calls before it.
\<close>

section \<open>Calls\<close>

datatype (plugins only: code size) glbEvent =
    GcGetGLBC string string "GlobalLoadBalancerConfig result"
  | GcPatchStatus GlobalLoadBalancerConfig GlobalLoadBalancerConfig "unit result"
  | GcListPackages "entity_GlobalPackage list result"
  | GcListLBs "entity_GlobalLoadBalancer list result"
  | GcGetLB string "entity_GlobalLoadBalancer result"
  | GcCreateLB CreateGlobalLoadBalancerRequest "entity_GlobalLoadBalancer option result"
  | GcDeleteLB string "unit result"
  | GcResizeLB string string "unit result"
  | GcListPools string "entity_GlobalPool list result"
  | GcCreatePool string CreateGlobalPoolRequest "entity_GlobalPool result"
  | GcDeletePool string string "unit result"
  | GcUpdatePool string string UpdateGlobalPoolRequest "unit result"
  | GcListMembers string string "entity_GlobalPoolMember list result"
  | GcPatchMembers string string "BulkAction list" "unit result"
  | GcListListeners string "entity_GlobalListener list result"
  | GcGetListener string string "entity_GlobalListener result"
  | GcCreateListener string CreateGlobalListenerRequest "entity_GlobalListener result"
  | GcDeleteListener string string "unit result"
  | GcUpdateListener string string UpdateGlobalListenerRequest "unit result"
  | GcAddFinalizers string "unit result"
  | GcRemoveFinalizers string "unit result"
  | GcRecord string string string

type_synonym glbHistory = "glbEvent list"

type_synonym 'a B = "(glbHistory, 'a) run"

text \<open>
  \<open>c_ConflictRetries\<close> is the number of steps of client-go's \<open>DefaultBackoff\<close> after the first,
  \<open>c_AddFinalizers\<close> and \<open>c_RemoveFinalizers\<close> are \<open>k8s.FinalizerManager\<close>, \<open>c_SetStatusCondition\<close> is
  apimachinery's helper.
\<close>

record glbWorld =
  c_GetGLBC :: "glbHistory \<Rightarrow> string \<Rightarrow> string \<Rightarrow> GlobalLoadBalancerConfig result"
  c_PatchStatus :: "glbHistory \<Rightarrow> GlobalLoadBalancerConfig \<Rightarrow> GlobalLoadBalancerConfig \<Rightarrow> unit result"
  c_ListPackages :: "glbHistory \<Rightarrow> entity_GlobalPackage list result"
  c_ListLBs :: "glbHistory \<Rightarrow> entity_GlobalLoadBalancer list result"
  c_GetLB :: "glbHistory \<Rightarrow> string \<Rightarrow> entity_GlobalLoadBalancer result"
  c_CreateLB :: "glbHistory \<Rightarrow> CreateGlobalLoadBalancerRequest \<Rightarrow> entity_GlobalLoadBalancer option result"
  c_DeleteLB :: "glbHistory \<Rightarrow> string \<Rightarrow> unit result"
  c_ResizeLB :: "glbHistory \<Rightarrow> string \<Rightarrow> string \<Rightarrow> unit result"
  c_ListPools :: "glbHistory \<Rightarrow> string \<Rightarrow> entity_GlobalPool list result"
  c_CreatePool :: "glbHistory \<Rightarrow> string \<Rightarrow> CreateGlobalPoolRequest \<Rightarrow> entity_GlobalPool result"
  c_DeletePool :: "glbHistory \<Rightarrow> string \<Rightarrow> string \<Rightarrow> unit result"
  c_UpdatePool :: "glbHistory \<Rightarrow> string \<Rightarrow> string \<Rightarrow> UpdateGlobalPoolRequest \<Rightarrow> unit result"
  c_ListMembers :: "glbHistory \<Rightarrow> string \<Rightarrow> string \<Rightarrow> entity_GlobalPoolMember list result"
  c_PatchMembers :: "glbHistory \<Rightarrow> string \<Rightarrow> string \<Rightarrow> BulkAction list \<Rightarrow> unit result"
  c_ListListeners :: "glbHistory \<Rightarrow> string \<Rightarrow> entity_GlobalListener list result"
  c_GetListener :: "glbHistory \<Rightarrow> string \<Rightarrow> string \<Rightarrow> entity_GlobalListener result"
  c_CreateListener :: "glbHistory \<Rightarrow> string \<Rightarrow> CreateGlobalListenerRequest \<Rightarrow> entity_GlobalListener result"
  c_DeleteListener :: "glbHistory \<Rightarrow> string \<Rightarrow> string \<Rightarrow> unit result"
  c_UpdateListener :: "glbHistory \<Rightarrow> string \<Rightarrow> string \<Rightarrow> UpdateGlobalListenerRequest \<Rightarrow> unit result"
  c_AddFinalizers :: "glbHistory \<Rightarrow> string \<Rightarrow> unit result"
  c_RemoveFinalizers :: "glbHistory \<Rightarrow> string \<Rightarrow> unit result"
  c_Now :: "glbHistory \<Rightarrow> int"
  c_IsNotFound :: "go_error \<Rightarrow> bool"
  c_IsConflict :: "go_error \<Rightarrow> bool"
  c_ConflictRetries :: nat
  c_SetStatusCondition :: "Condition list \<Rightarrow> Condition \<Rightarrow> bool \<times> Condition list"

text \<open>\<open>defaultModelDeployTask\<close>: nothing writes to it.\<close>

record glbTask =
  gt_cfg :: GlobalLoadBalancerOpts
  gt_sdk :: global_consts
  gt_world :: glbWorld
  gt_lbConfig :: GlobalLoadBalancerConfig

definition gt_Spec :: "glbTask \<Rightarrow> GlobalLoadBalancerConfigSpec" where
  "gt_Spec t = glbc_Spec (gt_lbConfig t)"
definition gt_Status :: "glbTask \<Rightarrow> GlobalLoadBalancerConfigStatus" where
  "gt_Status t = glbc_Status (gt_lbConfig t)"

section \<open>The cloud\<close>

definition ListGlobalPackages :: "glbTask \<Rightarrow> entity_GlobalPackage list B" where
  "ListGlobalPackages t = askLog GcListPackages (c_ListPackages (gt_world t))"
definition ListGlobalLoadBalancers :: "glbTask \<Rightarrow> entity_GlobalLoadBalancer list B" where
  "ListGlobalLoadBalancers t = askLog GcListLBs (c_ListLBs (gt_world t))"
definition GetGlobalLoadBalancerByID :: "glbTask \<Rightarrow> string \<Rightarrow> entity_GlobalLoadBalancer B" where
  "GetGlobalLoadBalancerByID t glbID = askLog (GcGetLB glbID) (\<lambda>h. c_GetLB (gt_world t) h glbID)"
definition GetGlobalLoadBalancerByName :: "glbTask \<Rightarrow> string \<Rightarrow> entity_GlobalLoadBalancer option B" where
  "GetGlobalLoadBalancerByName t name =
     andThen (ListGlobalLoadBalancers t) (\<lambda>allGLBs. returnM (find (\<lambda>glb. eglb_Name glb = name) allGLBs))"
definition CreateGlobalLoadBalancer ::
  "glbTask \<Rightarrow> CreateGlobalLoadBalancerRequest \<Rightarrow> entity_GlobalLoadBalancer option B" where
  "CreateGlobalLoadBalancer t r = askLog (GcCreateLB r) (\<lambda>h. c_CreateLB (gt_world t) h r)"
definition DeleteGlobalLoadBalancer :: "glbTask \<Rightarrow> string \<Rightarrow> unit B" where
  "DeleteGlobalLoadBalancer t glbID = askLog (GcDeleteLB glbID) (\<lambda>h. c_DeleteLB (gt_world t) h glbID)"
definition glb_ResizeLoadBalancer :: "glbTask \<Rightarrow> string \<Rightarrow> string \<Rightarrow> unit B" where
  "glb_ResizeLoadBalancer t lbID packageID = askLog (GcResizeLB lbID packageID) (\<lambda>h. c_ResizeLB (gt_world t) h lbID packageID)"
definition ListGlobalPools :: "glbTask \<Rightarrow> string \<Rightarrow> entity_GlobalPool list B" where
  "ListGlobalPools t glbID = askLog (GcListPools glbID) (\<lambda>h. c_ListPools (gt_world t) h glbID)"
definition CreateGlobalPool :: "glbTask \<Rightarrow> string \<Rightarrow> CreateGlobalPoolRequest \<Rightarrow> entity_GlobalPool B" where
  "CreateGlobalPool t glbID r = askLog (GcCreatePool glbID r) (\<lambda>h. c_CreatePool (gt_world t) h glbID r)"
definition DeleteGlobalPool :: "glbTask \<Rightarrow> string \<Rightarrow> string \<Rightarrow> unit B" where
  "DeleteGlobalPool t glbID poolID = askLog (GcDeletePool glbID poolID) (\<lambda>h. c_DeletePool (gt_world t) h glbID poolID)"
definition UpdateGlobalPool :: "glbTask \<Rightarrow> string \<Rightarrow> string \<Rightarrow> UpdateGlobalPoolRequest \<Rightarrow> unit B" where
  "UpdateGlobalPool t glbID poolID r = askLog (GcUpdatePool glbID poolID r) (\<lambda>h. c_UpdatePool (gt_world t) h glbID poolID r)"
definition ListGlobalPoolMembers :: "glbTask \<Rightarrow> string \<Rightarrow> string \<Rightarrow> entity_GlobalPoolMember list B" where
  "ListGlobalPoolMembers t glbID poolID = askLog (GcListMembers glbID poolID) (\<lambda>h. c_ListMembers (gt_world t) h glbID poolID)"
definition PatchGlobalPoolMembers :: "glbTask \<Rightarrow> string \<Rightarrow> string \<Rightarrow> BulkAction list \<Rightarrow> unit B" where
  "PatchGlobalPoolMembers t glbID poolID acts =
     askLog (GcPatchMembers glbID poolID acts) (\<lambda>h. c_PatchMembers (gt_world t) h glbID poolID acts)"
definition ListGlobalListeners :: "glbTask \<Rightarrow> string \<Rightarrow> entity_GlobalListener list B" where
  "ListGlobalListeners t glbID = askLog (GcListListeners glbID) (\<lambda>h. c_ListListeners (gt_world t) h glbID)"
definition GetGlobalListener :: "glbTask \<Rightarrow> string \<Rightarrow> string \<Rightarrow> entity_GlobalListener B" where
  "GetGlobalListener t glbID listenerID = askLog (GcGetListener glbID listenerID) (\<lambda>h. c_GetListener (gt_world t) h glbID listenerID)"
definition CreateGlobalListener :: "glbTask \<Rightarrow> string \<Rightarrow> CreateGlobalListenerRequest \<Rightarrow> entity_GlobalListener B" where
  "CreateGlobalListener t glbID r = askLog (GcCreateListener glbID r) (\<lambda>h. c_CreateListener (gt_world t) h glbID r)"
definition DeleteGlobalListener :: "glbTask \<Rightarrow> string \<Rightarrow> string \<Rightarrow> unit B" where
  "DeleteGlobalListener t glbID listenerID = askLog (GcDeleteListener glbID listenerID) (\<lambda>h. c_DeleteListener (gt_world t) h glbID listenerID)"
definition UpdateGlobalListener :: "glbTask \<Rightarrow> string \<Rightarrow> string \<Rightarrow> UpdateGlobalListenerRequest \<Rightarrow> unit B" where
  "UpdateGlobalListener t glbID listenerID r =
     askLog (GcUpdateListener glbID listenerID r) (\<lambda>h. c_UpdateListener (gt_world t) h glbID listenerID r)"

text \<open>Thirty looks with growing pauses, then \<open>wait\<close>'s own error.\<close>

primrec pollGlobalLoadBalancer :: "glbTask \<Rightarrow> string \<Rightarrow> nat \<Rightarrow> entity_GlobalLoadBalancer B" where
  "pollGlobalLoadBalancer t glbID 0 = failM (ErrorString ''timed out waiting for the condition'')"
| "pollGlobalLoadBalancer t glbID (Suc steps) =
     andThen (GetGlobalLoadBalancerByID t glbID) (\<lambda>lb.
       if ToUpper (eglb_Status lb) = ''ACTIVE'' then returnM lb
       else if ToUpper (eglb_Status lb) = ''ERROR'' then failM ErrorLoadBalancerStatusError
       else pollGlobalLoadBalancer t glbID steps)"

definition WaitGlobalLoadBalancerActive :: "glbTask \<Rightarrow> string \<Rightarrow> entity_GlobalLoadBalancer B" where
  "WaitGlobalLoadBalancerActive t glbID = pollGlobalLoadBalancer t glbID 30"

section \<open>The Kubernetes API\<close>

definition GetGlobalLoadBalancerConfig :: "glbWorld \<Rightarrow> string \<Rightarrow> string \<Rightarrow> GlobalLoadBalancerConfig B" where
  "GetGlobalLoadBalancerConfig w ns n = askLog (GcGetGLBC ns n) (\<lambda>h. c_GetGLBC w h ns n)"

definition glb_StatusPatch :: "glbWorld \<Rightarrow> GlobalLoadBalancerConfig \<Rightarrow> GlobalLoadBalancerConfig \<Rightarrow> unit B" where
  "glb_StatusPatch w old new = askLog (GcPatchStatus old new) (\<lambda>h. c_PatchStatus w h old new)"

text \<open>The closure's verdict whether it changed the status, and the status it left.\<close>

type_synonym glbMutation = "GlobalLoadBalancerConfigStatus \<Rightarrow> bool \<times> GlobalLoadBalancerConfigStatus"

definition PatchMutateStatusGLBC :: "glbWorld \<Rightarrow> GlobalLoadBalancerConfig \<Rightarrow> glbMutation \<Rightarrow> unit B" where
  "PatchMutateStatusGLBC w glbc mutate =
     RetryOnConflict (c_IsConflict w) (c_ConflictRetries w)
       (andThen (GetGlobalLoadBalancerConfig w (om_Namespace (glbc_Meta glbc)) (om_Name (glbc_Meta glbc))) (\<lambda>objGet.
          case mutate (glbc_Status objGet) of (changed, status) \<Rightarrow>
            if \<not> changed then returnM ()
            else glb_StatusPatch w objGet (objGet\<lparr>glbc_Status := status\<rparr>)))"

text \<open>The same on the object of the task.\<close>

definition glbPatch :: "glbTask \<Rightarrow> glbMutation \<Rightarrow> unit B" where
  "glbPatch t mutate = PatchMutateStatusGLBC (gt_world t) (gt_lbConfig t) mutate"

lemmas glb_calls =
  ListGlobalPackages_def ListGlobalLoadBalancers_def GetGlobalLoadBalancerByID_def CreateGlobalLoadBalancer_def
  DeleteGlobalLoadBalancer_def glb_ResizeLoadBalancer_def ListGlobalPools_def CreateGlobalPool_def DeleteGlobalPool_def
  UpdateGlobalPool_def ListGlobalPoolMembers_def PatchGlobalPoolMembers_def ListGlobalListeners_def
  GetGlobalListener_def CreateGlobalListener_def DeleteGlobalListener_def UpdateGlobalListener_def
  GetGlobalLoadBalancerConfig_def glb_StatusPatch_def

section \<open>What the composite calls add\<close>

text \<open>Waiting looks at the load balancer; a patch reads the object and writes what its mutation made of it.\<close>

lemma safe_adds_poll:
  assumes "\<And>h r. P h (GcGetLB glbID r)"
  shows "safe (addsR id P) (pollGlobalLoadBalancer t glbID n) h"
  by (induction n arbitrary: h)
    (auto simp: assms GetGlobalLoadBalancerByID_def intro!: adds.safe_andThen adds.safe_failM adds.safe_returnM adds.safe_if safe_adds_askLog)

lemma safe_adds_wait [safe_intro]:
  "(\<And>h r. P h (GcGetLB glbID r)) \<Longrightarrow> safe (addsR id P) (WaitGlobalLoadBalancerActive t glbID) h"
  unfolding WaitGlobalLoadBalancerActive_def by (rule safe_adds_poll)

lemma safe_adds_PatchMutateGLBC:
  assumes "\<And>h r. P h (GcGetGLBC (om_Namespace (glbc_Meta glbc)) (om_Name (glbc_Meta glbc)) r)"
    and "\<And>h obj status r. mutate (glbc_Status obj) = (True, status) \<Longrightarrow>
      P (h @ [GcGetGLBC (om_Namespace (glbc_Meta glbc)) (om_Name (glbc_Meta glbc)) (Inr obj)])
        (GcPatchStatus obj (obj\<lparr>glbc_Status := status\<rparr>) r)"
  shows "safe (addsR id P) (PatchMutateStatusGLBC w glbc mutate) h"
  unfolding PatchMutateStatusGLBC_def glb_calls
  by (intro safe_intro) (auto simp: assms)

lemma safe_adds_glbPatch [safe_intro]:
  assumes "\<And>h r. P h (GcGetGLBC (om_Namespace (glbc_Meta (gt_lbConfig t))) (om_Name (glbc_Meta (gt_lbConfig t))) r)"
    and "\<And>h obj status r. mutate (glbc_Status obj) = (True, status) \<Longrightarrow>
      P (h @ [GcGetGLBC (om_Namespace (glbc_Meta (gt_lbConfig t))) (om_Name (glbc_Meta (gt_lbConfig t))) (Inr obj)])
        (GcPatchStatus obj (obj\<lparr>glbc_Status := status\<rparr>) r)"
  shows "safe (addsR id P) (glbPatch t mutate) h"
  unfolding glbPatch_def by (rule safe_adds_PatchMutateGLBC) (simp_all add: assms)

text \<open>The calls that change the cloud.\<close>

definition isGlobalWrite :: "glbEvent \<Rightarrow> bool" where
  "isGlobalWrite e =
     (case e of
        GcCreateLB _ _ \<Rightarrow> True | GcDeleteLB _ _ \<Rightarrow> True | GcResizeLB _ _ _ \<Rightarrow> True | GcCreatePool _ _ _ \<Rightarrow> True
      | GcDeletePool _ _ _ \<Rightarrow> True | GcUpdatePool _ _ _ _ \<Rightarrow> True | GcPatchMembers _ _ _ _ \<Rightarrow> True
      | GcCreateListener _ _ _ \<Rightarrow> True | GcDeleteListener _ _ _ \<Rightarrow> True | GcUpdateListener _ _ _ _ \<Rightarrow> True
      | _ \<Rightarrow> False)"

end
