(* ===== verification/Glb_Members.thy ===== *)
theory Glb_Members
  imports Glb_World
begin

text \<open>
  The status writes of \<^verbatim>\<open>internal/usecase/glbc_uc/status.go\<close> and the pool members of a global load
  balancer (\<^verbatim>\<open>deploy_pool_member.go\<close>): a pool holds named groups of members, one per region; the groups of
  the spec are created or updated by one bulk request, and the members of an existing group are merged as
  those of a regional pool are, with address and port as the identity.
\<close>

section \<open>Status\<close>

definition mutAddGlobalListener :: "string \<Rightarrow> int \<Rightarrow> string \<Rightarrow> glbMutation" where
  "mutAddGlobalListener listenerId port name = (\<lambda>s.
     if list_ex (\<lambda>l. cgl_Id l = listenerId \<and> cgl_Port l = port \<and> cgl_Name l = name) (gst_CreatedListeners s)
     then (False, s)
     else if list_ex (\<lambda>l. cgl_Id l = listenerId) (gst_CreatedListeners s)
     then (True, s\<lparr>gst_CreatedListeners :=
             updateFirst (\<lambda>l. cgl_Id l = listenerId) (\<lambda>l. l\<lparr>cgl_Port := port, cgl_Name := name\<rparr>) (gst_CreatedListeners s)\<rparr>)
     else (True, s\<lparr>gst_CreatedListeners :=
             gst_CreatedListeners s @ [\<lparr>cgl_Id = listenerId, cgl_Port = port, cgl_Name = name\<rparr>]\<rparr>))"

definition glb_statusAddListener :: "glbTask \<Rightarrow> string \<Rightarrow> int \<Rightarrow> string \<Rightarrow> unit B" where
  "glb_statusAddListener t listenerId port name =
     (if listenerId = [] then failM (ErrorString ''global listener has no id after create, need to retry'')
      else glbPatch t (mutAddGlobalListener listenerId port name))"

definition mutUpdatePoolMember :: "string \<Rightarrow> string \<Rightarrow> CreatedGlobalPoolMember list \<Rightarrow> glbMutation" where
  "mutUpdatePoolMember poolId name poolMembers = (\<lambda>s.
     if list_ex (\<lambda>p. cgp_Id p = poolId \<and> cgp_Name p = name
                   \<and> createdGlobalPoolMembersEqual (cgp_CreatedPoolMembers p) poolMembers) (gst_CreatedPools s)
     then (False, s)
     else if list_ex (\<lambda>p. cgp_Id p = poolId) (gst_CreatedPools s)
     then (True, s\<lparr>gst_CreatedPools :=
             updateFirst (\<lambda>p. cgp_Id p = poolId) (\<lambda>p. p\<lparr>cgp_Name := name, cgp_CreatedPoolMembers := poolMembers\<rparr>) (gst_CreatedPools s)\<rparr>)
     else (True, s\<lparr>gst_CreatedPools :=
             gst_CreatedPools s @ [\<lparr>cgp_Id = poolId, cgp_Name = name, cgp_CreatedPoolMembers = poolMembers\<rparr>]\<rparr>))"

definition glb_statusUpdatePoolMember ::
  "glbTask \<Rightarrow> string \<Rightarrow> string \<Rightarrow> CreatedGlobalPoolMember list \<Rightarrow> unit B" where
  "glb_statusUpdatePoolMember t poolId name poolMembers =
     (if poolId = [] then failM (ErrorString ''global pool has no id after create, need to retry'')
      else glbPatch t (mutUpdatePoolMember poolId name poolMembers))"

definition mutAddLoadBalancerId ::
  "string option \<Rightarrow> GlobalLoadBalancerVIPStatus list \<Rightarrow> string list \<Rightarrow> glbMutation" where
  "mutAddLoadBalancerId lbId vips domains = (\<lambda>s.
     if gst_LoadBalancerId s = lbId \<and> globalLoadBalancerVIPsEqual (gst_Vips s) vips
        \<and> stringSlicesEqualUnordered (gst_Domains s) domains
     then (False, s)
     else (True, s\<lparr>gst_LoadBalancerId := lbId, gst_Vips := vips, gst_Domains := domains\<rparr>))"

definition glb_statusAddLoadBalancerId ::
  "glbTask \<Rightarrow> string option \<Rightarrow> GlobalLoadBalancerVIPStatus list \<Rightarrow> string list \<Rightarrow> unit B" where
  "glb_statusAddLoadBalancerId t lbId vips domains = glbPatch t (mutAddLoadBalancerId lbId vips domains)"

definition mutClearCreatedResources :: glbMutation where
  "mutClearCreatedResources = (\<lambda>s.
     if gst_CreatedListeners s = [] \<and> gst_CreatedPools s = [] then (False, s)
     else (True, s\<lparr>gst_CreatedListeners := [], gst_CreatedPools := []\<rparr>))"

definition glb_statusClearCreatedResources :: "glbTask \<Rightarrow> unit B" where
  "glb_statusClearCreatedResources t = glbPatch t mutClearCreatedResources"

section \<open>Merging the members of a group\<close>

definition checkIfPoolMemberExistByAddress :: "GlobalMember list \<Rightarrow> GlobalMember \<Rightarrow> bool" where
  "checkIfPoolMemberExistByAddress list member \<longleftrightarrow>
     list_ex (\<lambda>r. gm_Address r = gm_Address member \<and> gm_Port r = gm_Port member) list"

definition glb_checkIfPoolMemberExist :: "GlobalMember list \<Rightarrow> GlobalMember \<Rightarrow> bool" where
  "glb_checkIfPoolMemberExist list member \<longleftrightarrow>
     list_ex (\<lambda>r. gm_Address r = gm_Address member \<and> gm_Port r = gm_Port member
                \<and> gm_Weight r = gm_Weight member \<and> gm_BackupRole r = gm_BackupRole member
                \<and> gm_SubnetID r = gm_SubnetID member \<and> gm_MonitorPort r = gm_MonitorPort member) list"

definition glb_comparePoolMembers :: "GlobalMember list \<Rightarrow> GlobalMember list \<Rightarrow> bool" where
  "glb_comparePoolMembers poolMembers current \<longleftrightarrow>
     length poolMembers = length current \<and> list_all (glb_checkIfPoolMemberExist current) poolMembers"

definition glb_mergePoolMembers :: "GlobalMember list \<Rightarrow> GlobalMember list \<Rightarrow> GlobalMember list \<Rightarrow> GlobalMember list" where
  "glb_mergePoolMembers createdMembers currentMembers poolMemberSpec =
     fold (\<lambda>member merged. if \<not> checkIfPoolMemberExistByAddress merged member then merged @ [member] else merged) poolMemberSpec
       (filter (\<lambda>member. checkIfPoolMemberExistByAddress poolMemberSpec member
                       \<or> \<not> checkIfPoolMemberExistByAddress createdMembers member) currentMembers)"

definition glb_convertMember :: "entity_GlobalPoolMemberDetail \<Rightarrow> GlobalMember" where
  "glb_convertMember member =
     \<lparr>gm_Address = egd_Address member, gm_BackupRole = egd_BackupRole member, gm_Description = None,
      gm_MonitorPort = Some (egd_MonitorPort member), gm_Name = egd_Name member, gm_Port = egd_Port member,
      gm_SubnetID = egd_SubnetID member, gm_Weight = Some (egd_Weight member)\<rparr>"

definition glb_convertMemberList :: "entity_GlobalPoolMemberDetail list option \<Rightarrow> GlobalMember list" where
  "glb_convertMemberList members = (case members of None \<Rightarrow> [] | Some items \<Rightarrow> map glb_convertMember items)"

section \<open>Requests\<close>

definition NewGlobalMemberRequest :: "GlobalMember \<Rightarrow> GlobalMemberRequest" where
  "NewGlobalMemberRequest m =
     \<lparr>gmr_Name = gm_Name m, gmr_Address = gm_Address m, gmr_SubnetID = gm_SubnetID m, gmr_Port = gm_Port m,
      gmr_MonitorPort = (case gm_MonitorPort m of None \<Rightarrow> gm_Port m | Some p \<Rightarrow> p),
      gmr_Weight = (case gm_Weight m of None \<Rightarrow> 1 | Some v \<Rightarrow> v),
      gmr_BackupRole = gm_BackupRole m\<rparr>"

definition buildCreatePoolMemberRequest :: "GlobalPoolMember \<Rightarrow> CreateGlobalPoolMemberRequest" where
  "buildCreatePoolMemberRequest poolMemberSpec =
     \<lparr>gpr_Name = gpm_Name poolMemberSpec, gpr_Region = gpm_Region poolMemberSpec, gpr_VpcId = gpm_VpcId poolMemberSpec,
      gpr_TrafficDial = (case gpm_TrafficDial poolMemberSpec of None \<Rightarrow> 100 | Some d \<Rightarrow> d),
      gpr_Type = gpm_Type poolMemberSpec,
      gpr_Members = map NewGlobalMemberRequest (gpm_Members poolMemberSpec)\<rparr>"

definition buildGlobalMemberRequest ::
  "entity_GlobalPoolMemberDetail list option \<Rightarrow> GlobalMember list \<Rightarrow> GlobalMember list \<Rightarrow> GlobalMemberRequest list option" where
  "buildGlobalMemberRequest currentMembers membersSpec createdMembers =
     (let updateMembers = glb_mergePoolMembers createdMembers (glb_convertMemberList currentMembers) membersSpec
      in if glb_comparePoolMembers updateMembers (glb_convertMemberList currentMembers) then None
         else Some (map NewGlobalMemberRequest updateMembers))"

text \<open>The traffic dial of the request is the current one: the wanted one only makes the request go out.\<close>

definition buildUpdateGlobalPoolMemberRequest ::
  "string \<Rightarrow> string \<Rightarrow> entity_GlobalPoolMember \<Rightarrow> GlobalPoolMember \<Rightarrow> CreatedGlobalPoolMember
   \<Rightarrow> UpdateGlobalPoolMemberRequest option" where
  "buildUpdateGlobalPoolMemberRequest lbId poolId currentPoolMember poolMemberSpec createdPoolMember =
     (let result = \<lparr>gur_LoadBalancerId = lbId, gur_PoolId = poolId, gur_ID = egm_ID currentPoolMember,
                    gur_TrafficDial = egm_TrafficDial currentPoolMember, gur_Members = None\<rparr>;
          dial = differs (gpm_TrafficDial poolMemberSpec) (egm_TrafficDial currentPoolMember);
          members = buildGlobalMemberRequest (egm_Members currentPoolMember) (gpm_Members poolMemberSpec)
                      (cgm_CreatedMembers createdPoolMember)
      in case members of
           Some ms \<Rightarrow> Some (result\<lparr>gur_Members := Some ms\<rparr>)
         | None \<Rightarrow> if dial then Some result else None)"

text \<open>The group of this id on record for the pool; an empty record when there is none.\<close>

definition searchCreatedPoolMemberById :: "glbTask \<Rightarrow> string \<Rightarrow> string \<Rightarrow> CreatedGlobalPoolMember" where
  "searchCreatedPoolMemberById t poolId i =
     (case find (\<lambda>p. cgp_Id p = poolId) (gst_CreatedPools (gt_Status t)) of
        None \<Rightarrow> \<lparr>cgm_Id = [], cgm_Name = [], cgm_CreatedMembers = []\<rparr>
      | Some createdPool \<Rightarrow>
          (case find (\<lambda>pm. cgm_Id pm = i) (cgp_CreatedPoolMembers createdPool) of
             None \<Rightarrow> \<lparr>cgm_Id = [], cgm_Name = [], cgm_CreatedMembers = []\<rparr>
           | Some pm \<Rightarrow> pm))"

definition memberAction ::
  "glbTask \<Rightarrow> string \<Rightarrow> string \<Rightarrow> entity_GlobalPoolMember list \<Rightarrow> GlobalPoolMember \<Rightarrow> BulkAction option" where
  "memberAction t lbId poolId currentPoolMembers poolMemberSpec =
     (case find (\<lambda>p. egm_Name p = gpm_Name poolMemberSpec) currentPoolMembers of
        None \<Rightarrow> Some (BulkCreate (buildCreatePoolMemberRequest poolMemberSpec))
      | Some currentPoolMember \<Rightarrow>
          map_option (BulkUpdate (egm_ID currentPoolMember))
            (buildUpdateGlobalPoolMemberRequest lbId poolId currentPoolMember poolMemberSpec
               (searchCreatedPoolMemberById t poolId (egm_ID currentPoolMember))))"

definition buildPatchGlobalPoolMemberRequest ::
  "glbTask \<Rightarrow> string \<Rightarrow> string \<Rightarrow> entity_GlobalPoolMember list \<Rightarrow> GlobalPoolMember list \<Rightarrow> BulkAction list option" where
  "buildPatchGlobalPoolMemberRequest t lbId poolId currentPoolMembers poolMembersSpec =
     (let bulkRequests = List.map_filter (memberAction t lbId poolId currentPoolMembers) poolMembersSpec
      in if bulkRequests = [] then None else Some bulkRequests)"

section \<open>Deploying\<close>

text \<open>
  The record of a group that was deployed. \<open>currentPoolMember.Members.Items\<close> is read without the nil
  check made elsewhere: a group listed without its members panics.
\<close>

definition nilMembers :: go_error where
  "nilMembers = ErrorString ''runtime error: invalid memory address or nil pointer dereference''"

definition createdGroupOf :: "entity_GlobalPoolMember list \<Rightarrow> GlobalPoolMember \<Rightarrow> CreatedGlobalPoolMember B" where
  "createdGroupOf currentPoolMembers poolMemberSpec =
     (case find (\<lambda>p. egm_Name p = gpm_Name poolMemberSpec) currentPoolMembers of
        None \<Rightarrow> failM (ErrorString (''pool member '' @ gpm_Name poolMemberSpec @ '' not found after deployment''))
      | Some currentPoolMember \<Rightarrow>
          (case egm_Members currentPoolMember of
             None \<Rightarrow> failM nilMembers
           | Some items \<Rightarrow>
               returnM \<lparr>cgm_Id = egm_ID currentPoolMember, cgm_Name = egm_Name currentPoolMember,
                        cgm_CreatedMembers = map glb_convertMember items\<rparr>))"

definition deployPoolMembers ::
  "glbTask \<Rightarrow> string \<Rightarrow> string \<Rightarrow> string \<Rightarrow> GlobalPoolMember list \<Rightarrow> CreatedGlobalPoolMember list B" where
  "deployPoolMembers t lbId poolId poolName poolMembersSpec =
     andThen (wrapErr (errorf (''list members of pool '' @ poolId @ '' on LB '' @ lbId)) (ListGlobalPoolMembers t lbId poolId))
       (\<lambda>listed.
     andThen
       (case buildPatchGlobalPoolMemberRequest t lbId poolId listed poolMembersSpec of
          None \<Rightarrow> returnM listed
        | Some patchRequest \<Rightarrow>
            andThen (wrapErr (errorf (''patch members of pool '' @ poolId @ '' on LB '' @ lbId))
                       (PatchGlobalPoolMembers t lbId poolId patchRequest)) (\<lambda>_.
            andThen (WaitGlobalLoadBalancerActive t lbId) (\<lambda>_.
              wrapErr (errorf (''list members of pool '' @ poolId @ '' on LB '' @ lbId @ '' after patching''))
                (ListGlobalPoolMembers t lbId poolId)))) (\<lambda>currentPoolMembers.
     andThen (mapM (createdGroupOf currentPoolMembers) poolMembersSpec) (\<lambda>createdPoolMembers.
     andThen (glb_statusUpdatePoolMember t poolId poolName createdPoolMembers) (\<lambda>_.
       returnM createdPoolMembers))))"

section \<open>What is pushed\<close>

definition globalKey :: "GlobalMember \<Rightarrow> string \<times> int" where
  "globalKey m = (gm_Address m, gm_Port m)"

interpretation global_member: member_identity globalKey checkIfPoolMemberExistByAddress
proof unfold_locales
  show "checkIfPoolMemberExistByAddress xs m \<longleftrightarrow> globalKey m \<in> globalKey ` set xs" for xs m
    unfolding checkIfPoolMemberExistByAddress_def list_ex_iff globalKey_def image_iff by (simp only: prod.inject) metis
qed

lemma glb_merge_mergeBy: "glb_mergePoolMembers = mergeBy checkIfPoolMemberExistByAddress"
proof -
  have "addBy checkIfPoolMemberExistByAddress
      = (\<lambda>member merged. if \<not> checkIfPoolMemberExistByAddress merged member then merged @ [member] else merged)"
    by (intro ext) (simp add: addBy_def)
  moreover have "(\<lambda>member. checkIfPoolMemberExistByAddress spec member \<or> \<not> checkIfPoolMemberExistByAddress created member)
      = keepBy checkIfPoolMemberExistByAddress created spec" for created spec
    by (intro ext) (simp add: keepBy_def)
  ultimately show ?thesis by (intro ext) (simp only: glb_mergePoolMembers_def mergeBy_def)
qed

lemma glb_compare_merge:
  "glb_comparePoolMembers (glb_mergePoolMembers created current spec) current
     \<longleftrightarrow> glb_mergePoolMembers created current spec = current"
proof
  assume cmp: "glb_comparePoolMembers (glb_mergePoolMembers created current spec) current"
  then have "globalKey ` set (glb_mergePoolMembers created current spec) \<subseteq> globalKey ` set current"
    by (auto simp: glb_comparePoolMembers_def glb_checkIfPoolMemberExist_def list_all_iff list_ex_iff globalKey_def)
      (metis (mono_tags, lifting) image_eqI)
  with cmp show "glb_mergePoolMembers created current spec = current"
    unfolding glb_merge_mergeBy by (intro global_member.exact_merge) (simp_all add: glb_comparePoolMembers_def)
next
  assume "glb_mergePoolMembers created current spec = current"
  then show "glb_comparePoolMembers (glb_mergePoolMembers created current spec) current"
    by (auto simp: glb_comparePoolMembers_def glb_checkIfPoolMemberExist_def list_all_iff list_ex_iff)
qed

lemma glb_merge_same_iff:
  "glb_mergePoolMembers created current spec = current \<longleftrightarrow>
     globalKey ` set current \<inter> globalKey ` set created \<subseteq> globalKey ` set spec
     \<and> globalKey ` set spec \<subseteq> globalKey ` set current"
proof
  assume "glb_mergePoolMembers created current spec = current"
  then have "globalKey ` set current = (globalKey ` set current - globalKey ` set created) \<union> globalKey ` set spec"
    using global_member.keys_of_merge[of created current spec] by (simp add: glb_merge_mergeBy)
  then show "globalKey ` set current \<inter> globalKey ` set created \<subseteq> globalKey ` set spec
     \<and> globalKey ` set spec \<subseteq> globalKey ` set current" by blast
next
  assume h: "globalKey ` set current \<inter> globalKey ` set created \<subseteq> globalKey ` set spec
     \<and> globalKey ` set spec \<subseteq> globalKey ` set current"
  then have "filter (keepBy checkIfPoolMemberExistByAddress created spec) current = current"
    by (auto simp: filter_id_conv keepBy_def global_member.ex_iff)
  with h show "glb_mergePoolMembers created current spec = current"
    by (simp add: glb_merge_mergeBy mergeBy_def global_member.fold_add_absorbed)
qed

definition requestKey :: "GlobalMemberRequest \<Rightarrow> string \<times> int" where
  "requestKey r = (gmr_Address r, gmr_Port r)"

lemma requestKey_New [simp]: "requestKey (NewGlobalMemberRequest m) = globalKey m"
  by (simp add: requestKey_def NewGlobalMemberRequest_def globalKey_def)

text \<open>The addresses and ports a listed group holds.\<close>

definition heldKeys :: "entity_GlobalPoolMemberDetail list option \<Rightarrow> (string \<times> int) set" where
  "heldKeys currentMembers = globalKey ` set (glb_convertMemberList currentMembers)"

text \<open>
  C17. The members of a group are pushed by identity. Of the addresses and ports the group holds
  (\<open>current\<close>), those on record as created by this config (\<open>ours\<close>), and those of the spec (\<open>wanted\<close>): nothing is
  pushed exactly when no member of ours is unwanted and no wanted one is missing; what is pushed otherwise
  has exactly the identities \<open>(current - ours) \<union> wanted\<close>, and holds every member that is not ours as it is.
\<close>

theorem buildGlobalMemberRequest_identities:
  "(buildGlobalMemberRequest currentMembers membersSpec createdMembers = None \<longleftrightarrow>
      heldKeys currentMembers \<inter> globalKey ` set createdMembers \<subseteq> globalKey ` set membersSpec
      \<and> globalKey ` set membersSpec \<subseteq> heldKeys currentMembers)
    \<and> (\<forall>ms. buildGlobalMemberRequest currentMembers membersSpec createdMembers = Some ms \<longrightarrow>
          requestKey ` set ms = (heldKeys currentMembers - globalKey ` set createdMembers) \<union> globalKey ` set membersSpec
          \<and> (\<forall>m \<in> set (glb_convertMemberList currentMembers).
               globalKey m \<notin> globalKey ` set createdMembers \<longrightarrow> NewGlobalMemberRequest m \<in> set ms))"
proof (intro conjI allI impI ballI)
  show "buildGlobalMemberRequest currentMembers membersSpec createdMembers = None \<longleftrightarrow>
      heldKeys currentMembers \<inter> globalKey ` set createdMembers \<subseteq> globalKey ` set membersSpec
      \<and> globalKey ` set membersSpec \<subseteq> heldKeys currentMembers"
    by (simp add: buildGlobalMemberRequest_def Let_def glb_compare_merge glb_merge_same_iff heldKeys_def)
  fix ms assume "buildGlobalMemberRequest currentMembers membersSpec createdMembers = Some ms"
  then have ms: "ms = map NewGlobalMemberRequest
      (mergeBy checkIfPoolMemberExistByAddress createdMembers (glb_convertMemberList currentMembers) membersSpec)"
    by (auto simp: buildGlobalMemberRequest_def Let_def glb_merge_mergeBy split: if_splits)
  show "requestKey ` set ms = (heldKeys currentMembers - globalKey ` set createdMembers) \<union> globalKey ` set membersSpec"
    by (simp add: ms image_image global_member.keys_of_merge heldKeys_def)
  fix m assume m: "m \<in> set (glb_convertMemberList currentMembers)" "globalKey m \<notin> globalKey ` set createdMembers"
  obtain new where "mergeBy checkIfPoolMemberExistByAddress createdMembers (glb_convertMemberList currentMembers) membersSpec
      = filter (keepBy checkIfPoolMemberExistByAddress createdMembers membersSpec) (glb_convertMemberList currentMembers) @ new"
    by (rule global_member.append_of_merge)
  with m show "NewGlobalMemberRequest m \<in> set ms"
    by (auto simp: ms keepBy_def global_member.ex_iff)
qed

definition ex_detail :: "string \<Rightarrow> entity_GlobalPoolMemberDetail" where
  "ex_detail a = \<lparr>egd_Name = ''m'', egd_Address = a, egd_Port = 80, egd_BackupRole = False, egd_Weight = 1,
     egd_MonitorPort = 80, egd_SubnetID = ''sub-1''\<rparr>"

text \<open>A group with one member of ours that is not wanted any more, a foreign one, and a new one to come.\<close>

theorem buildGlobalMemberRequest_identities_witness:
  "\<exists>ms. buildGlobalMemberRequest (Some [ex_detail ''10.0.0.1'', ex_detail ''10.0.0.2''])
            [glb_convertMember (ex_detail ''10.0.0.3'')] [glb_convertMember (ex_detail ''10.0.0.1'')] = Some ms
     \<and> requestKey ` set ms = {(''10.0.0.2'', 80), (''10.0.0.3'', 80)}"
proof -
  let ?cur = "Some [ex_detail ''10.0.0.1'', ex_detail ''10.0.0.2'']" and ?spec = "[glb_convertMember (ex_detail ''10.0.0.3'')]"
    and ?ours = "[glb_convertMember (ex_detail ''10.0.0.1'')]"
  have keys: "heldKeys ?cur = {(''10.0.0.1'', 80), (''10.0.0.2'', 80)}" "globalKey ` set ?spec = {(''10.0.0.3'', 80)}"
    "globalKey ` set ?ours = {(''10.0.0.1'', 80)}"
    by (simp_all add: heldKeys_def glb_convertMemberList_def glb_convertMember_def globalKey_def ex_detail_def)
  note pushed = buildGlobalMemberRequest_identities[of ?cur ?spec ?ours, unfolded keys]
  have "buildGlobalMemberRequest ?cur ?spec ?ours \<noteq> None"
    unfolding conjunct1[OF pushed] by simp
  then obtain ms where ms: "buildGlobalMemberRequest ?cur ?spec ?ours = Some ms" by blast
  from conjunct1[OF conjunct2[OF pushed, THEN spec, THEN mp, OF ms]]
  have "requestKey ` set ms = ({(''10.0.0.1'', 80), (''10.0.0.2'', 80)} - {(''10.0.0.1'', 80)}) \<union> {(''10.0.0.3'', 80)}" .
  then have "requestKey ` set ms = {(''10.0.0.2'', 80), (''10.0.0.3'', 80)}" by auto
  with ms show ?thesis by blast
qed

text \<open>
  Two changes of the spec that are never carried out. The weight, the backup role, the subnet and the
  monitor port of a member that is already there do not count; and a changed traffic dial makes a request
  go out which carries the current dial, so it goes out again in every run.
\<close>

lemma member_attributes_ignored:
  assumes "globalKey ` set membersSpec = globalKey ` set (glb_convertMemberList currentMembers)"
  shows "buildGlobalMemberRequest currentMembers membersSpec createdMembers = None"
  using assms by (simp add: glb_compare_merge glb_merge_same_iff buildGlobalMemberRequest_def Let_def)

lemma traffic_dial_not_sent:
  assumes "buildUpdateGlobalPoolMemberRequest lbId poolId cur spec created = Some r"
  shows "gur_TrafficDial r = egm_TrafficDial cur"
  using assms by (auto simp: buildUpdateGlobalPoolMemberRequest_def Let_def split: option.splits if_splits)

lemma traffic_dial_never_settles:
  assumes "differs (gpm_TrafficDial spec) (egm_TrafficDial cur)"
  shows "buildUpdateGlobalPoolMemberRequest lbId poolId cur spec created \<noteq> None"
  using assms by (auto simp: buildUpdateGlobalPoolMemberRequest_def Let_def split: option.splits)

end
