(* ===== verification/Glb_Pools.thy ===== *)
theory Glb_Pools
  imports Glb_Members
begin

text \<open>
  The pools of a global load balancer: \<^verbatim>\<open>internal/usecase/glbc_uc/deploy_pool.go\<close> and
  \<^verbatim>\<open>delete_pool.go\<close>.
\<close>

section \<open>Requests\<close>

definition glb_buildCreatePoolRequest :: "glbTask \<Rightarrow> string \<Rightarrow> GlobalPool \<Rightarrow> CreateGlobalPoolRequest" where
  "glb_buildCreatePoolRequest t lbId poolSpec =
     (let opts = gt_cfg t; hm = gp_HealthMonitor poolSpec;
          or_default = (\<lambda>p d. case p of None \<Rightarrow> d | Some v \<Rightarrow> v)
      in \<lparr>gcp_Name = gp_Name poolSpec,
          gcp_Protocol = gp_Protocol poolSpec,
          gcp_Algorithm = (if nonempty (gp_Algorithm poolSpec) then deref (gp_Algorithm poolSpec) else go_DefaultPoolAlgorithm opts),
          gcp_HealthMonitor =
            \<lparr>ghr_Protocol = ghm_Protocol hm,
             ghr_HealthyThreshold = or_default (ghm_HealthyThreshold hm) (go_DefaultHealthyThreshold opts),
             ghr_UnhealthyThreshold = or_default (ghm_UnhealthyThreshold hm) (go_DefaultUnhealthyThreshold opts),
             ghr_Interval = or_default (ghm_Interval hm) (go_DefaultInterval opts),
             ghr_Timeout = or_default (ghm_Timeout hm) (go_DefaultTimeout opts),
             ghr_HealthCheckMethod = ghm_HealthCheckMethod hm,
             ghr_HttpVersion = ghm_HttpVersion hm,
             ghr_Path = ghm_HealthCheckPath hm,
             ghr_SuccessCode = ghm_SuccessCode hm,
             ghr_DomainName = ghm_DomainName hm\<rparr>,
          gcp_Members = map buildCreatePoolMemberRequest (gp_PoolMembers poolSpec),
          gcp_LoadBalancerId = lbId\<rparr>)"

definition glbHttp :: "glbTask \<Rightarrow> string \<Rightarrow> bool" where
  "glbHttp t p \<longleftrightarrow> p = GlobalPoolHealthCheckProtocolHTTP (gt_sdk t) \<or> p = GlobalPoolHealthCheckProtocolHTTPs (gt_sdk t)"

text \<open>The request that repeats what the pool has, and a change of its health monitor.\<close>

definition currentHealthRequest :: "entity_GlobalHealth \<Rightarrow> GlobalHealthMonitorRequest" where
  "currentHealthRequest h =
     \<lparr>ghr_Protocol = egh_Protocol h, ghr_HealthyThreshold = egh_HealthyThreshold h,
      ghr_UnhealthyThreshold = egh_UnhealthyThreshold h, ghr_Interval = egh_IntervalTime h,
      ghr_Timeout = egh_Timeout h, ghr_HealthCheckMethod = egh_HTTPMethod h, ghr_HttpVersion = egh_HTTPVersion h,
      ghr_Path = egh_Path h, ghr_SuccessCode = egh_SuccessCode h, ghr_DomainName = egh_DomainName h\<rparr>"

definition thresholdUpdate ::
  "GlobalPoolHealthMonitor \<Rightarrow> entity_GlobalHealth \<Rightarrow> bool \<times> GlobalHealthMonitorRequest \<Rightarrow> bool \<times> GlobalHealthMonitorRequest" where
  "thresholdUpdate sp cur x0 =
     (let x1 = change (differs (ghm_HealthyThreshold sp) (egh_HealthyThreshold cur))
                 (\<lambda>h. h\<lparr>ghr_HealthyThreshold := the (ghm_HealthyThreshold sp)\<rparr>) x0;
          x2 = change (differs (ghm_UnhealthyThreshold sp) (egh_UnhealthyThreshold cur))
                 (\<lambda>h. h\<lparr>ghr_UnhealthyThreshold := the (ghm_UnhealthyThreshold sp)\<rparr>) x1;
          x3 = change (differs (ghm_Interval sp) (egh_IntervalTime cur))
                 (\<lambda>h. h\<lparr>ghr_Interval := the (ghm_Interval sp)\<rparr>) x2;
          x4 = change (differs (ghm_Timeout sp) (egh_Timeout cur))
                 (\<lambda>h. h\<lparr>ghr_Timeout := the (ghm_Timeout sp)\<rparr>) x3
      in change (ghm_Protocol sp \<noteq> egh_Protocol cur) (\<lambda>h. h\<lparr>ghr_Protocol := ghm_Protocol sp\<rparr>) x4)"

definition httpUpdate ::
  "GlobalPoolHealthMonitor \<Rightarrow> entity_GlobalHealth \<Rightarrow> bool \<times> GlobalHealthMonitorRequest \<Rightarrow> bool \<times> GlobalHealthMonitorRequest" where
  "httpUpdate sp cur x0 =
     (let x1 = change (differsPtr (ghm_HealthCheckMethod sp) (egh_HTTPMethod cur))
                 (\<lambda>h. h\<lparr>ghr_HealthCheckMethod := ghm_HealthCheckMethod sp\<rparr>) x0;
          x2 = change (differsPtr (ghm_HealthCheckPath sp) (egh_Path cur))
                 (\<lambda>h. h\<lparr>ghr_Path := ghm_HealthCheckPath sp\<rparr>) x1;
          x3 = change (differsPtr (ghm_SuccessCode sp) (egh_SuccessCode cur))
                 (\<lambda>h. h\<lparr>ghr_SuccessCode := ghm_SuccessCode sp\<rparr>) x2;
          x4 = change (differsPtr (ghm_HttpVersion sp) (egh_HTTPVersion cur))
                 (\<lambda>h. h\<lparr>ghr_HttpVersion := ghm_HttpVersion sp\<rparr>) x3
      in change (differsPtr (ghm_DomainName sp) (egh_DomainName cur)) (\<lambda>h. h\<lparr>ghr_DomainName := ghm_DomainName sp\<rparr>) x4)"

definition healthUpdate :: "glbTask \<Rightarrow> GlobalPoolHealthMonitor \<Rightarrow> entity_GlobalHealth \<Rightarrow> bool \<times> GlobalHealthMonitorRequest" where
  "healthUpdate t sp cur =
     (let x = thresholdUpdate sp cur (False, currentHealthRequest cur) in
      if glbHttp t (egh_Protocol cur) \<and> glbHttp t (ghm_Protocol sp) then httpUpdate sp cur x
      else if glbHttp t (egh_Protocol cur) \<and> ghm_Protocol sp = GlobalPoolHealthCheckProtocolTCP (gt_sdk t) then
        change True (\<lambda>h. h\<lparr>ghr_HealthCheckMethod := None, ghr_Path := None, ghr_SuccessCode := None,
                         ghr_HttpVersion := None, ghr_DomainName := None\<rparr>) x
      else if egh_Protocol cur = GlobalPoolHealthCheckProtocolTCP (gt_sdk t) \<and> glbHttp t (ghm_Protocol sp) then
        change True (\<lambda>h. h\<lparr>ghr_HealthCheckMethod := ghm_HealthCheckMethod sp, ghr_Path := ghm_HealthCheckPath sp,
                         ghr_SuccessCode := ghm_SuccessCode sp, ghr_HttpVersion := ghm_HttpVersion sp,
                         ghr_DomainName := ghm_DomainName sp\<rparr>) x
      else x)"

definition glb_buildPoolUpdateRequest ::
  "glbTask \<Rightarrow> string \<Rightarrow> GlobalPool \<Rightarrow> entity_GlobalPool \<Rightarrow> UpdateGlobalPoolRequest option" where
  "glb_buildPoolUpdateRequest t lbID poolSpec currentPool =
     (case healthUpdate t (gp_HealthMonitor poolSpec) (egp_Health currentPool) of (healthChanged, hm) \<Rightarrow>
        let algorithmChanged = (nonempty (gp_Algorithm poolSpec) \<and> deref (gp_Algorithm poolSpec) \<noteq> egp_Algorithm currentPool)
        in if \<not> (healthChanged \<or> algorithmChanged) then None
           else Some \<lparr>gup_LoadBalancerId = lbID, gup_PoolId = egp_ID currentPool, gup_HealthMonitor = hm,
                      gup_Algorithm = (if algorithmChanged then deref (gp_Algorithm poolSpec) else egp_Algorithm currentPool)\<rparr>)"

section \<open>Deploying\<close>

definition glb_createPool :: "glbTask \<Rightarrow> string \<Rightarrow> GlobalPool \<Rightarrow> CreatedGlobalPool B" where
  "glb_createPool t lbId poolSpec =
     andThen (CreateGlobalPool t lbId (glb_buildCreatePoolRequest t lbId poolSpec)) (\<lambda>p.
     andThen (glb_statusUpdatePoolMember t (egp_ID p) (gp_Name poolSpec) []) (\<lambda>_.
     andThen (WaitGlobalLoadBalancerActive t lbId) (\<lambda>_.
     andThen (deployPoolMembers t lbId (egp_ID p) (gp_Name poolSpec) (gp_PoolMembers poolSpec)) (\<lambda>createdPoolMembers.
       returnM \<lparr>cgp_Id = egp_ID p, cgp_Name = gp_Name poolSpec, cgp_CreatedPoolMembers = createdPoolMembers\<rparr>))))"

definition glb_updatePool :: "glbTask \<Rightarrow> string \<Rightarrow> GlobalPool \<Rightarrow> entity_GlobalPool \<Rightarrow> CreatedGlobalPool B" where
  "glb_updatePool t lbId poolSpec currentPool =
     andThen
       (case glb_buildPoolUpdateRequest t lbId poolSpec currentPool of
          None \<Rightarrow> returnM ()
        | Some updateOptions \<Rightarrow>
            andThen (wrapErr (errorf (''update pool '' @ egp_ID currentPool @ '' on LB '' @ lbId))
                       (UpdateGlobalPool t lbId (egp_ID currentPool) updateOptions)) (\<lambda>_.
            andThen (wrapErr (errorf (''wait LB '' @ lbId @ '' active after updating pool '' @ egp_ID currentPool))
                       (WaitGlobalLoadBalancerActive t lbId)) (\<lambda>_. returnM ()))) (\<lambda>_.
     andThen (deployPoolMembers t lbId (egp_ID currentPool) (egp_Name currentPool) (gp_PoolMembers poolSpec)) (\<lambda>createdPoolMembers.
       returnM \<lparr>cgp_Id = egp_ID currentPool, cgp_Name = egp_Name currentPool, cgp_CreatedPoolMembers = createdPoolMembers\<rparr>))"

definition glb_deployPool :: "glbTask \<Rightarrow> string \<Rightarrow> GlobalPool \<Rightarrow> entity_GlobalPool list \<Rightarrow> CreatedGlobalPool B" where
  "glb_deployPool t lbId poolSpec currentPools =
     (case find (\<lambda>p. egp_Name p = gp_Name poolSpec) currentPools of
        None \<Rightarrow> glb_createPool t lbId poolSpec
      | Some currentPool \<Rightarrow> glb_updatePool t lbId poolSpec currentPool)"

definition glb_deployPools :: "glbTask \<Rightarrow> string \<Rightarrow> CreatedGlobalPool list B" where
  "glb_deployPools t lbId =
     andThen (ListGlobalPools t lbId) (\<lambda>currentPools.
     andThen (collectFailures (\<lambda>pool. wrapErr (errorf (''pool '' @ gp_Name pool)) (glb_deployPool t lbId pool currentPools))
                (gsp_GlobalPools (gt_Spec t))) (\<lambda>(createdPools, failures).
       if failures \<noteq> [] then failM (errorf2 errPartialDeploy (errors_Join failures)) else returnM createdPools))"

section \<open>Deleting\<close>

text \<open>
  \<open>canDeleteWholePool\<close> on the listed groups: a group is kept when the new spec has it or it is not ours.
  The second component is the bulk request that deletes the others. When no group is kept the whole pool
  may go and there is no such request.
\<close>

definition keepGroup :: "CreatedGlobalPool \<Rightarrow> CreatedGlobalPool \<Rightarrow> entity_GlobalPoolMember \<Rightarrow> bool" where
  "keepGroup createdPool newCreatedPool pm \<longleftrightarrow>
     egm_Name pm \<in> cgm_Name ` set (cgp_CreatedPoolMembers newCreatedPool)
     \<or> egm_Name pm \<notin> cgm_Name ` set (cgp_CreatedPoolMembers createdPool)"

definition glb_canDeleteWholePool ::
  "entity_GlobalPoolMember list \<Rightarrow> CreatedGlobalPool \<Rightarrow> CreatedGlobalPool \<Rightarrow> bool \<times> BulkAction list option" where
  "glb_canDeleteWholePool currentPoolMembers createdPool newCreatedPool =
     (let poolMembersToKeep = filter (keepGroup createdPool newCreatedPool) currentPoolMembers;
          bulkRequests = map (\<lambda>pm. BulkDelete (egm_ID pm))
                           (filter (\<lambda>pm. \<not> keepGroup createdPool newCreatedPool pm) currentPoolMembers)
      in if poolMembersToKeep = [] then (True, None)
         else if length poolMembersToKeep < length currentPoolMembers \<and> bulkRequests \<noteq> [] then (False, Some bulkRequests)
         else (False, None))"

definition emptyCreatedPool :: CreatedGlobalPool where
  "emptyCreatedPool = \<lparr>cgp_Id = [], cgp_Name = [], cgp_CreatedPoolMembers = []\<rparr>"

definition createdPoolOf :: "CreatedGlobalPool list \<Rightarrow> string \<Rightarrow> CreatedGlobalPool" where
  "createdPoolOf pools i = (case find (\<lambda>m. cgp_Id m = i) pools of None \<Rightarrow> emptyCreatedPool | Some m \<Rightarrow> m)"

definition glb_cleanupPool ::
  "glbTask \<Rightarrow> string \<Rightarrow> CreatedGlobalPool list \<Rightarrow> entity_GlobalPool list \<Rightarrow> entity_GlobalListener list \<Rightarrow> string \<Rightarrow> unit B" where
  "glb_cleanupPool t lbId newCreatedPools currentPools currentListeners candidateId =
     (if \<not> list_ex (\<lambda>p. egp_ID p = candidateId) currentPools then returnM ()
      else
        andThen (wrapErr (errorf (''list members of pool '' @ candidateId @ '' on LB '' @ lbId))
                   (ListGlobalPoolMembers t lbId candidateId)) (\<lambda>currentPoolMembers.
          case glb_canDeleteWholePool currentPoolMembers (createdPoolOf (gst_CreatedPools (gt_Status t)) candidateId)
                 (createdPoolOf newCreatedPools candidateId) of (canDeleteWhole, updateMemberOption) \<Rightarrow>
          if \<not> list_ex (\<lambda>l. egl_GlobalPoolID l = candidateId) currentListeners \<and> canDeleteWhole then
            andThen (wrapErr (errorf (''delete pool '' @ candidateId @ '' on LB '' @ lbId)) (DeleteGlobalPool t lbId candidateId)) (\<lambda>_.
            andThen (wrapErr (errorf (''wait LB '' @ lbId @ '' active after deleting pool '' @ candidateId))
                       (WaitGlobalLoadBalancerActive t lbId)) (\<lambda>_. returnM ()))
          else (case updateMemberOption of
                  None \<Rightarrow> returnM ()
                | Some bulk \<Rightarrow>
                    andThen (wrapErr (errorf (''patch members of pool '' @ candidateId @ '' on LB '' @ lbId))
                               (PatchGlobalPoolMembers t lbId candidateId bulk)) (\<lambda>_.
                    andThen (wrapErr (errorf (''wait LB '' @ lbId @ '' active after patching members of pool '' @ candidateId))
                               (WaitGlobalLoadBalancerActive t lbId)) (\<lambda>_. returnM ())))))"

definition glb_deleteRedundantPools :: "glbTask \<Rightarrow> string \<Rightarrow> CreatedGlobalPool list \<Rightarrow> unit B" where
  "glb_deleteRedundantPools t lbId newCreatedPools =
     andThen (wrapErr (errorf (''list pools of LB '' @ lbId)) (ListGlobalPools t lbId)) (\<lambda>currentPools.
     andThen (wrapErr (errorf (''list listeners of LB '' @ lbId)) (ListGlobalListeners t lbId)) (\<lambda>currentListeners.
     andThen (mapM (glb_cleanupPool t lbId newCreatedPools currentPools currentListeners)
                (map cgp_Id (gst_CreatedPools (gt_Status t)))) (\<lambda>_. returnM ())))"

end
