(* ===== verification/Glb_Listeners.thy ===== *)
theory Glb_Listeners
  imports Glb_Pools
begin

text \<open>
  The listeners of a global load balancer: \<^verbatim>\<open>internal/usecase/glbc_uc/deploy_listener.go\<close> and
  \<^verbatim>\<open>delete_listener.go\<close>.
\<close>

section \<open>Requests\<close>

text \<open>The first created pool of this name; \<open>None\<close> is the \<open>nil\<close> of \<open>findCreatedPoolByName\<close>.\<close>

definition glb_findCreatedPoolByName :: "CreatedGlobalPool list \<Rightarrow> string \<Rightarrow> CreatedGlobalPool option" where
  "glb_findCreatedPoolByName newCreatedPools name = find (\<lambda>p. cgp_Name p = name) newCreatedPools"

definition glb_buildCreateListenerRequest ::
  "glbTask \<Rightarrow> string \<Rightarrow> GlobalListener \<Rightarrow> CreatedGlobalPool list \<Rightarrow> CreateGlobalListenerRequest" where
  "glb_buildCreateListenerRequest t lbId listenerSpec newCreatedPools =
     (let opts = gt_cfg t; or_default = (\<lambda>p d. case p of None \<Rightarrow> d | Some v \<Rightarrow> v)
      in \<lparr>gcl_LoadBalancerId = lbId,
          gcl_Name = gl_Name listenerSpec,
          gcl_Port = gl_ProtocolPort listenerSpec,
          gcl_AllowedCidrs = (case gl_AllowedCidrs listenerSpec of None \<Rightarrow> go_DefaultAllowedCidrs opts | Some c \<Rightarrow> c),
          gcl_TimeoutClient = or_default (gl_TimeoutClient listenerSpec) (go_DefaultTimeoutClient opts),
          gcl_TimeoutMember = or_default (gl_TimeoutMember listenerSpec) (go_DefaultTimeoutMember opts),
          gcl_TimeoutConnection = or_default (gl_TimeoutConnection listenerSpec) (go_DefaultTimeoutConnection opts),
          gcl_GlobalPoolId =
            (case gl_DefaultPoolName listenerSpec of
               None \<Rightarrow> None
             | Some name \<Rightarrow> map_option cgp_Id (glb_findCreatedPoolByName newCreatedPools name)),
          gcl_Headers = (if gl_Headers listenerSpec \<noteq> [] then Some (gl_Headers listenerSpec) else None)\<rparr>)"

text \<open>\<open>strings.ToLower\<close> on ASCII text.\<close>

definition lowerHeader :: "string \<Rightarrow> string" where
  "lowerHeader s = map to_lower_char s"

definition decodeHeaders :: "string option \<Rightarrow> string list" where
  "decodeHeaders h = (if nonempty h then map lowerHeader (Split (CHR '','') (deref h)) else [])"

definition wantedPoolId :: "GlobalListener \<Rightarrow> CreatedGlobalPool list \<Rightarrow> string" where
  "wantedPoolId listenerSpec newCreatedPools =
     (if nonempty (gl_DefaultPoolName listenerSpec)
      then (case glb_findCreatedPoolByName newCreatedPools (deref (gl_DefaultPoolName listenerSpec)) of
              None \<Rightarrow> [] | Some createdPool \<Rightarrow> cgp_Id createdPool)
      else [])"

definition glb_buildListenerUpdateRequest ::
  "string \<Rightarrow> GlobalListener \<Rightarrow> entity_GlobalListener \<Rightarrow> CreatedGlobalPool list \<Rightarrow> UpdateGlobalListenerRequest option" where
  "glb_buildListenerUpdateRequest lbId sp cur newCreatedPools =
     (let x0 = (False, \<lparr>gul_LoadBalancerId = lbId, gul_ListenerId = egl_ID cur, gul_AllowedCidrs = egl_AllowedCidrs cur,
                 gul_TimeoutClient = egl_TimeoutClient cur, gul_TimeoutMember = egl_TimeoutMember cur,
                 gul_TimeoutConnection = egl_TimeoutConnection cur, gul_GlobalPoolId = egl_GlobalPoolID cur,
                 gul_Headers = egl_Headers cur\<rparr>);
          x1 = change (nonempty (gl_AllowedCidrs sp) \<and> egl_AllowedCidrs cur \<noteq> deref (gl_AllowedCidrs sp))
                 (\<lambda>r. r\<lparr>gul_AllowedCidrs := deref (gl_AllowedCidrs sp)\<rparr>) x0;
          x2 = change (differs (gl_TimeoutClient sp) (egl_TimeoutClient cur))
                 (\<lambda>r. r\<lparr>gul_TimeoutClient := the (gl_TimeoutClient sp)\<rparr>) x1;
          x3 = change (differs (gl_TimeoutMember sp) (egl_TimeoutMember cur))
                 (\<lambda>r. r\<lparr>gul_TimeoutMember := the (gl_TimeoutMember sp)\<rparr>) x2;
          x4 = change (differs (gl_TimeoutConnection sp) (egl_TimeoutConnection cur))
                 (\<lambda>r. r\<lparr>gul_TimeoutConnection := the (gl_TimeoutConnection sp)\<rparr>) x3;
          defaultPoolId = wantedPoolId sp newCreatedPools;
          x5 = change (defaultPoolId \<noteq> egl_GlobalPoolID cur) (\<lambda>r. r\<lparr>gul_GlobalPoolId := defaultPoolId\<rparr>) x4;
          currentHeaders = decodeHeaders (egl_Headers cur);
          specHeaders = map lowerHeader (gl_Headers sp);
          x6 = change (\<not> stringSlicesEqualUnordered currentHeaders specHeaders)
                 (\<lambda>r. r\<lparr>gul_Headers := (if specHeaders \<noteq> [] then Some (Join [CHR '',''] specHeaders) else None)\<rparr>) x5
      in if \<not> fst x6 then None else Some (snd x6))"

section \<open>Deploying\<close>

definition glb_createListener ::
  "glbTask \<Rightarrow> string \<Rightarrow> GlobalListener \<Rightarrow> CreatedGlobalPool list \<Rightarrow> entity_GlobalListener B" where
  "glb_createListener t lbId listenerSpec newCreatedPools =
     andThen (wrapErr (errorf (''create listener port '' @ Itoa (gl_ProtocolPort listenerSpec) @ '' on LB '' @ lbId))
                (CreateGlobalListener t lbId (glb_buildCreateListenerRequest t lbId listenerSpec newCreatedPools))) (\<lambda>lis.
     andThen (glb_statusAddListener t (egl_ID lis) (gl_ProtocolPort listenerSpec) (gl_Name listenerSpec)) (\<lambda>_.
     andThen (wrapErr (errorf (''wait LB '' @ lbId @ '' active after creating listener '' @ egl_ID lis))
                (WaitGlobalLoadBalancerActive t lbId)) (\<lambda>_.
       GetGlobalListener t lbId (egl_ID lis))))"

definition glb_deployListener ::
  "glbTask \<Rightarrow> string \<Rightarrow> GlobalListener \<Rightarrow> entity_GlobalListener list \<Rightarrow> CreatedGlobalPool list \<Rightarrow> CreatedGlobalListener B" where
  "glb_deployListener t lbId listenerSpec currentListeners newCreatedPools =
     andThen
       (case find (\<lambda>l. egl_Port l = gl_ProtocolPort listenerSpec) currentListeners of
          None \<Rightarrow> glb_createListener t lbId listenerSpec newCreatedPools
        | Some l \<Rightarrow> returnM l) (\<lambda>currentListener.
     if egl_Protocol currentListener \<noteq> gl_Protocol listenerSpec then
       failM (ErrorString (''listener '' @ egl_ID currentListener @ '' port '' @ Itoa (gl_ProtocolPort listenerSpec)
         @ '' protocol mismatch (current '' @ egl_Protocol currentListener @ '', want '' @ gl_Protocol listenerSpec
         @ ''), please delete listener first in portal''))
     else
       andThen
         (case glb_buildListenerUpdateRequest lbId listenerSpec currentListener newCreatedPools of
            None \<Rightarrow> returnM ()
          | Some updateOptions \<Rightarrow>
              andThen (wrapErr (errorf (''update listener '' @ egl_ID currentListener @ '' on LB '' @ lbId))
                         (UpdateGlobalListener t lbId (egl_ID currentListener) updateOptions)) (\<lambda>_.
              andThen (glb_statusAddListener t (egl_ID currentListener) (egl_Port currentListener) (egl_Name currentListener)) (\<lambda>_.
              andThen (wrapErr (errorf (''wait LB '' @ lbId @ '' active after updating listener '' @ egl_ID currentListener))
                         (WaitGlobalLoadBalancerActive t lbId)) (\<lambda>_. returnM ())))) (\<lambda>_.
         returnM \<lparr>cgl_Id = egl_ID currentListener, cgl_Port = egl_Port currentListener, cgl_Name = egl_Name currentListener\<rparr>))"

definition glb_deployListeners :: "glbTask \<Rightarrow> string \<Rightarrow> CreatedGlobalPool list \<Rightarrow> CreatedGlobalListener list B" where
  "glb_deployListeners t lbId newCreatedPools =
     andThen (ListGlobalListeners t lbId) (\<lambda>currentListeners.
       mapM (\<lambda>listener. glb_deployListener t lbId listener currentListeners newCreatedPools) (gsp_GlobalListeners (gt_Spec t)))"

section \<open>Deleting\<close>

text \<open>
  \<open>ownedGroups\<close>: the addresses and ports on record for a group name, from the last record of that name
  (the map is filled in the order of the records).
\<close>

definition ownedGroups :: "CreatedGlobalPool \<Rightarrow> (string \<times> (string \<times> int) list) list" where
  "ownedGroups p =
     fold (\<lambda>pm m. AList.update (cgm_Name pm) (map (\<lambda>x. (gm_Address x, gm_Port x)) (cgm_CreatedMembers pm)) m)
       (cgp_CreatedPoolMembers p) []"

text \<open>All listed groups are on record, and all their members with them.\<close>

definition ownsGroups :: "CreatedGlobalPool \<Rightarrow> entity_GlobalPoolMember list \<Rightarrow> bool" where
  "ownsGroups p currentGroups \<longleftrightarrow>
     list_all (\<lambda>g. case map_of (ownedGroups p) (egm_Name g) of
         None \<Rightarrow> False
       | Some ownedMembers \<Rightarrow>
           (case egm_Members g of
              None \<Rightarrow> True
            | Some items \<Rightarrow> list_all (\<lambda>m. (egd_Address m, egd_Port m) \<in> set ownedMembers) items)) currentGroups"

definition glb_canDeleteWholeListener ::
  "glbTask \<Rightarrow> string \<Rightarrow> entity_GlobalListener \<Rightarrow> CreatedGlobalPool list \<Rightarrow> bool B" where
  "glb_canDeleteWholeListener t lbId listener newCreatedPools =
     (if egl_GlobalPoolID listener = [] then returnM True
      else if list_ex (\<lambda>p. cgp_Id p = egl_GlobalPoolID listener) newCreatedPools then returnM False
      else (case find (\<lambda>p. cgp_Id p = egl_GlobalPoolID listener) (gst_CreatedPools (gt_Status t)) of
              None \<Rightarrow> returnM False
            | Some statusPool \<Rightarrow>
                andThen (wrapErr (errorf (''list members of pool '' @ egl_GlobalPoolID listener @ '' on LB '' @ lbId))
                           (ListGlobalPoolMembers t lbId (egl_GlobalPoolID listener))) (\<lambda>currentPoolMembers.
                  returnM (ownsGroups statusPool currentPoolMembers))))"

definition glb_cleanupListener ::
  "glbTask \<Rightarrow> string \<Rightarrow> CreatedGlobalListener list \<Rightarrow> CreatedGlobalPool list \<Rightarrow> entity_GlobalListener list \<Rightarrow> string \<Rightarrow> unit B" where
  "glb_cleanupListener t lbId newCreatedListeners newCreatedPools currentListeners candidateId =
     (case find (\<lambda>l. egl_ID l = candidateId) currentListeners of
        None \<Rightarrow> returnM ()
      | Some listener \<Rightarrow>
          andThen (glb_canDeleteWholeListener t lbId listener newCreatedPools) (\<lambda>canDeleteWhole.
            if \<not> list_ex (\<lambda>l. cgl_Id l = candidateId) newCreatedListeners \<and> canDeleteWhole then
              andThen (wrapErr (errorf (''delete listener '' @ candidateId @ '' on LB '' @ lbId))
                         (DeleteGlobalListener t lbId candidateId)) (\<lambda>_.
              andThen (wrapErr (errorf (''wait LB '' @ lbId @ '' active after deleting listener '' @ candidateId))
                         (WaitGlobalLoadBalancerActive t lbId)) (\<lambda>_. returnM ()))
            else returnM ()))"

definition glb_deleteRedundantListeners ::
  "glbTask \<Rightarrow> string \<Rightarrow> CreatedGlobalListener list \<Rightarrow> CreatedGlobalPool list \<Rightarrow> unit B" where
  "glb_deleteRedundantListeners t lbId newCreatedListeners newCreatedPools =
     andThen (ListGlobalListeners t lbId) (\<lambda>currentListeners.
     andThen (mapM (glb_cleanupListener t lbId newCreatedListeners newCreatedPools currentListeners)
                (map cgl_Id (gst_CreatedListeners (gt_Status t)))) (\<lambda>_. returnM ()))"

end
