(* ===== verification/Glb_Deploy.thy ===== *)
theory Glb_Deploy
  imports Glb_Listeners
begin

text \<open>
  Deploying and tearing down a global load balancer: \<^verbatim>\<open>internal/usecase/glbc_uc/deploy_lb.go\<close>,
  \<^verbatim>\<open>delete_lb.go\<close> and \<^verbatim>\<open>validate.go\<close>.
\<close>

section \<open>The load balancer\<close>

text \<open>The VIPs that are there, and the host names that are not empty.\<close>

definition extractAddressInfo :: "entity_GlobalLoadBalancer \<Rightarrow> GlobalLoadBalancerVIPStatus list \<times> string list" where
  "extractAddressInfo lbEntity =
     (List.map_filter (map_option (\<lambda>vip.
        \<lparr>vip_Address = egv_Address vip, vip_Region = egv_Region vip, vip_Status = egv_Status vip\<rparr>)) (eglb_Vips lbEntity),
      List.map_filter (\<lambda>d. if nonempty d then d else None) (eglb_Domains lbEntity))"

definition glb_buildPackageId :: "glbTask \<Rightarrow> string B" where
  "glb_buildPackageId t =
     (if nonempty (gsp_PackageId (gt_Spec t)) then returnM (deref (gsp_PackageId (gt_Spec t)))
      else if go_DefaultL4PackageName (gt_cfg t) \<noteq> [] then
        andThen (ListGlobalPackages t) (\<lambda>listPackages.
          case find (\<lambda>pkg. egk_Name pkg = go_DefaultL4PackageName (gt_cfg t)) listPackages of
            Some pkg \<Rightarrow> returnM (egk_ID pkg)
          | None \<Rightarrow> failM (NewNoNeedRequeue (''cannot find default global load balancer package '' @ go_DefaultL4PackageName (gt_cfg t))))
      else returnM ''pkg-b02e62ab-a282-4faf-8732-a172ef497a7b'')"

text \<open>The first pool and the first listener go into the request only together.\<close>

definition glb_buildCreateLoadBalancerRequest :: "glbTask \<Rightarrow> CreateGlobalLoadBalancerRequest B" where
  "glb_buildCreateLoadBalancerRequest t =
     andThen (glb_buildPackageId t) (\<lambda>packageId.
       let first = (case (gsp_GlobalPools (gt_Spec t), gsp_GlobalListeners (gt_Spec t)) of
                      (poolSpec # _, listenerSpec # _) \<Rightarrow>
                        Some (glb_buildCreateListenerRequest t [] listenerSpec [], glb_buildCreatePoolRequest t [] poolSpec)
                    | _ \<Rightarrow> None)
       in returnM \<lparr>gcb_Name = gsp_Name (gt_Spec t), gcb_Package = packageId,
                   gcb_Type = GlobalLoadBalancerTypeLayer4 (gt_sdk t),
                   gcb_PaymentFlow = GlobalLoadBalancerPaymentFlowAutomated (gt_sdk t),
                   gcb_Description = gsp_Description (gt_Spec t),
                   gcb_GlobalListener = map_option fst first, gcb_GlobalPool = map_option snd first\<rparr>)"

definition glb_deployPackageId :: "glbTask \<Rightarrow> entity_GlobalLoadBalancer \<Rightarrow> unit B" where
  "glb_deployPackageId t lbEntity =
     (if \<not> nonempty (gsp_PackageId (gt_Spec t)) then returnM ()
      else if deref (gsp_PackageId (gt_Spec t)) = eglb_Package lbEntity then returnM ()
      else
        andThen (glb_ResizeLoadBalancer t (eglb_ID lbEntity) (deref (gsp_PackageId (gt_Spec t)))) (\<lambda>_.
        andThen (wrapErr (errorf (''wait LB '' @ eglb_ID lbEntity @ '' active after resize''))
                   (WaitGlobalLoadBalancerActive t (eglb_ID lbEntity))) (\<lambda>_. returnM ())))"

definition glb_ensureExistLoadBalancer :: "glbTask \<Rightarrow> string \<Rightarrow> entity_GlobalLoadBalancer option \<Rightarrow> string B" where
  "glb_ensureExistLoadBalancer t lbId lbEntity =
     (if lbId = [] then failM (ErrorString ''load balancer id is empty'')
      else
        andThen (if lbEntity = None then andThen (GetGlobalLoadBalancerByID t lbId) (\<lambda>_. returnM ()) else returnM ()) (\<lambda>_.
        andThen (WaitGlobalLoadBalancerActive t lbId) (\<lambda>lb.
          case extractAddressInfo lb of (vips, domains) \<Rightarrow>
        andThen (glb_statusAddLoadBalancerId t (Some lbId) vips domains) (\<lambda>_.
        andThen (glb_deployPackageId t lb) (\<lambda>_. returnM lbId)))))"

definition glb_awaitCreated :: "glbTask \<Rightarrow> string \<Rightarrow> unit B" where
  "glb_awaitCreated t i =
     andThen (attempt (WaitGlobalLoadBalancerActive t i)) (\<lambda>r. case r of
       Inr _ \<Rightarrow> returnM ()
     | Inl err \<Rightarrow>
         if err = ErrorLoadBalancerStatusError then
           andThen (glb_statusAddLoadBalancerId t None [] []) (\<lambda>_.
           andThen (wrapErr (errorf (''delete load balancer '' @ i @ '' after status error'')) (DeleteGlobalLoadBalancer t i)) (\<lambda>_.
             failM (RequeueNeeded ''loadbalancer status is error, delete and recreate'')))
         else failM (errorf (''wait LB '' @ i @ '' active after create'') err))"

definition glb_createLoadBalancer :: "glbTask \<Rightarrow> string B" where
  "glb_createLoadBalancer t =
     andThen (glb_buildCreateLoadBalancerRequest t) (\<lambda>createRequest.
     andThen (CreateGlobalLoadBalancer t createRequest) (\<lambda>created.
       case created of
         None \<Rightarrow> failM (ErrorString ''load balancer not have ID after create, need to retry'')
       | Some lbEntity \<Rightarrow>
           if eglb_ID lbEntity = [] then failM (ErrorString ''load balancer not have ID after create, need to retry'')
           else (case extractAddressInfo lbEntity of (vips, domains) \<Rightarrow>
             andThen (glb_statusAddLoadBalancerId t (Some (eglb_ID lbEntity)) vips domains) (\<lambda>_.
             andThen (glb_awaitCreated t (eglb_ID lbEntity)) (\<lambda>_.
               glb_ensureExistLoadBalancer t (eglb_ID lbEntity) None)))))"

definition glb_teardownOnLoadBalancer :: "glbTask \<Rightarrow> string \<Rightarrow> unit B" where
  "glb_teardownOnLoadBalancer t lbId =
     andThen (attempt (GetGlobalLoadBalancerByID t lbId)) (\<lambda>got. case got of
       Inl err \<Rightarrow> if IsGlobalLoadBalancerNotFound err then returnM () else failM err
     | Inr _ \<Rightarrow>
         andThen (glb_deleteRedundantListeners t lbId [] []) (\<lambda>_.
         andThen (glb_deleteRedundantPools t lbId []) (\<lambda>_.
           glb_statusClearCreatedResources t)))"

definition glb_migrateLoadBalancer :: "glbTask \<Rightarrow> string \<Rightarrow> string \<Rightarrow> string B" where
  "glb_migrateLoadBalancer t oldId newId =
     andThen (glb_teardownOnLoadBalancer t oldId) (\<lambda>_. glb_ensureExistLoadBalancer t newId None)"

definition glbNewLbIdObtained :: go_error where
  "glbNewLbIdObtained = RequeueNeeded ''new load balancer ID obtained, requeue needed''"

definition glb_deployLoadBalancer :: "glbTask \<Rightarrow> string B" where
  "glb_deployLoadBalancer t =
     (let specId = gsp_LoadBalancerId (gt_Spec t); statusId = gst_LoadBalancerId (gt_Status t);
          thenRequeue = (\<lambda>m. andThen m (\<lambda>_. failM glbNewLbIdObtained))
      in if nonempty statusId then
           if nonempty specId \<and> deref specId \<noteq> deref statusId
           then thenRequeue (glb_migrateLoadBalancer t (deref statusId) (deref specId))
           else glb_ensureExistLoadBalancer t (deref statusId) None
         else if nonempty specId then thenRequeue (glb_ensureExistLoadBalancer t (deref specId) None)
         else if gsp_Name (gt_Spec t) \<noteq> [] then
           andThen (GetGlobalLoadBalancerByName t (gsp_Name (gt_Spec t))) (\<lambda>lb. case lb of
             Some l \<Rightarrow> thenRequeue (glb_ensureExistLoadBalancer t (eglb_ID l) (Some l))
           | None \<Rightarrow> glb_createLoadBalancer t)
         else glb_createLoadBalancer t)"

section \<open>Deploying\<close>

definition glb_validateSelf :: "glbTask \<Rightarrow> unit B" where "glb_validateSelf t = returnM ()"
definition glb_validateCrossGLBCs :: "glbTask \<Rightarrow> string \<Rightarrow> unit B" where "glb_validateCrossGLBCs t lbId = returnM ()"

definition mutDeployed :: "CreatedGlobalListener list \<Rightarrow> CreatedGlobalPool list \<Rightarrow> glbMutation" where
  "mutDeployed newCreatedListeners newCreatedPools = (\<lambda>s.
     if createdGlobalListenersEqual (gst_CreatedListeners s) newCreatedListeners
        \<and> createdGlobalPoolsEqual (gst_CreatedPools s) newCreatedPools
     then (False, s)
     else (True, s\<lparr>gst_CreatedListeners := newCreatedListeners, gst_CreatedPools := newCreatedPools\<rparr>))"

definition glb_deploy :: "glbTask \<Rightarrow> unit B" where
  "glb_deploy t =
     andThen (glb_validateSelf t) (\<lambda>_.
     andThen (glb_deployLoadBalancer t) (\<lambda>lbId.
     andThen (glb_validateCrossGLBCs t lbId) (\<lambda>_.
     andThen (glb_deployPools t lbId) (\<lambda>newCreatedPools.
     andThen (glb_deployListeners t lbId newCreatedPools) (\<lambda>newCreatedListeners.
     andThen (glb_deleteRedundantListeners t lbId newCreatedListeners newCreatedPools) (\<lambda>_.
     andThen (glb_deleteRedundantPools t lbId newCreatedPools) (\<lambda>_.
       glbPatch t (mutDeployed newCreatedListeners newCreatedPools))))))))"

section \<open>Tearing down\<close>

text \<open>\<open>canCover\<close>: the loop stops at the first element that is not covered.\<close>

primrec canCoverM :: "('u \<Rightarrow> bool B) \<Rightarrow> 'u list \<Rightarrow> bool B" where
  "canCoverM isExist [] = returnM True"
| "canCoverM isExist (b # bs) =
     andThen (isExist b) (\<lambda>exist. if \<not> exist then returnM False else canCoverM isExist bs)"

definition glb_coverPool :: "glbTask \<Rightarrow> string \<Rightarrow> entity_GlobalPool \<Rightarrow> bool B" where
  "glb_coverPool t lbId b =
     (case find (\<lambda>oldP. cgp_Id oldP = egp_ID b) (gst_CreatedPools (gt_Status t)) of
        None \<Rightarrow> returnM False
      | Some createdPool \<Rightarrow>
          andThen (ListGlobalPoolMembers t lbId (egp_ID b)) (\<lambda>currentMembers. returnM (ownsGroups createdPool currentMembers)))"

definition glb_canDeleteWholeLoadBalancer :: "glbTask \<Rightarrow> string \<Rightarrow> bool B" where
  "glb_canDeleteWholeLoadBalancer t lbId =
     andThen (ListGlobalListeners t lbId) (\<lambda>listeners.
     andThen (canCoverM (\<lambda>b. returnM (list_ex (\<lambda>oldL. cgl_Id oldL = egl_ID b) (gst_CreatedListeners (gt_Status t)))) listeners) (\<lambda>coverListener.
       if \<not> coverListener then returnM False
       else
         andThen (ListGlobalPools t lbId) (\<lambda>pools. canCoverM (glb_coverPool t lbId) pools)))"

definition glb_isLoadBalancerEmpty :: "glbTask \<Rightarrow> string \<Rightarrow> bool B" where
  "glb_isLoadBalancerEmpty t lbId =
     andThen (ListGlobalListeners t lbId) (\<lambda>listeners.
       if listeners \<noteq> [] then returnM False
       else andThen (ListGlobalPools t lbId) (\<lambda>pools. returnM (pools = [])))"

definition glb_deleteLoadBalancerWhenNotEmpty :: "glbTask \<Rightarrow> string \<Rightarrow> unit B" where
  "glb_deleteLoadBalancerWhenNotEmpty t lbId =
     andThen (glb_deleteRedundantListeners t lbId [] []) (\<lambda>_.
     andThen (glb_deleteRedundantPools t lbId []) (\<lambda>_.
     andThen (glb_isLoadBalancerEmpty t lbId) (\<lambda>isEmpty.
       if isEmpty then DeleteGlobalLoadBalancer t lbId else returnM ())))"

definition glb_deleteLoadBalancer :: "glbTask \<Rightarrow> string \<Rightarrow> unit B" where
  "glb_deleteLoadBalancer t lbId =
     andThen (attempt (GetGlobalLoadBalancerByID t lbId)) (\<lambda>got. case got of
       Inl err \<Rightarrow> if IsGlobalLoadBalancerNotFound err then returnM () else failM err
     | Inr _ \<Rightarrow>
         andThen (glb_canDeleteWholeLoadBalancer t lbId) (\<lambda>canDelete.
           if canDelete then DeleteGlobalLoadBalancer t lbId
           else glb_deleteLoadBalancerWhenNotEmpty t lbId))"

definition glb_delete :: "glbTask \<Rightarrow> unit B" where
  "glb_delete t =
     (if \<not> nonempty (gst_LoadBalancerId (gt_Status t)) then returnM ()
      else glb_deleteLoadBalancer t (deref (gst_LoadBalancerId (gt_Status t))))"

end
