(* ===== verification/Glb_UseCase.thy ===== *)
theory Glb_UseCase
  imports Glb_Deploy
begin

text \<open>
  The use case of GlobalLoadBalancerConfigs and the controller in front of it:
  \<^verbatim>\<open>internal/usecase/glbc_uc/glbc_uc.go\<close>, \<^verbatim>\<open>internal/controller/glbc_controller/glbc_controller.go\<close>
  and \<^verbatim>\<open>pkg/glbc/glbc_utils.go\<close>. The mutexes of \<open>getLBLock\<close> are those of the LoadBalancerConfig use case
  (\<^verbatim>\<open>LB_Locks\<close>); here is the id they are taken for.
\<close>

record glbUseCase =
  gu_cfg :: GlobalLoadBalancerOpts
  gu_sdk :: global_consts
  gu_world :: glbWorld

definition glb_newTask :: "glbUseCase \<Rightarrow> GlobalLoadBalancerConfig \<Rightarrow> glbTask" where
  "glb_newTask uc lbConfig = \<lparr>gt_cfg = gu_cfg uc, gt_sdk = gu_sdk uc, gt_world = gu_world uc, gt_lbConfig = lbConfig\<rparr>"

definition glb_getLoadBalancerID :: "GlobalLoadBalancerConfig \<Rightarrow> string" where
  "glb_getLoadBalancerID lbConfig =
     (if nonempty (gsp_LoadBalancerId (glbc_Spec lbConfig)) then deref (gsp_LoadBalancerId (glbc_Spec lbConfig))
      else if nonempty (gst_LoadBalancerId (glbc_Status lbConfig)) then deref (gst_LoadBalancerId (glbc_Status lbConfig))
      else [])"

section \<open>Ensuring\<close>

definition glb_IgnoreNotFound :: "glbUseCase \<Rightarrow> go_error \<Rightarrow> unit B" where
  "glb_IgnoreNotFound uc err = (if c_IsNotFound (gu_world uc) err then returnM () else failM err)"

definition glb_outcomeOf :: "unit result \<Rightarrow> string \<times> bool \<times> string" where
  "glb_outcomeOf r =
     (case r of
        Inl err \<Rightarrow> (Error err, False, GLBCReasonReconcileFailed)
      | Inr _ \<Rightarrow> (''Successfully reconciled'', True, GLBCReasonReconcileSuccess))"

definition glb_trackOutcome :: "glbUseCase \<Rightarrow> int \<Rightarrow> int \<Rightarrow> string \<times> bool \<times> string \<Rightarrow> glbMutation" where
  "glb_trackOutcome uc generation now outcome = (\<lambda>status.
     case outcome of (message, conditionStatus, conditionReason) \<Rightarrow>
       let stale = gst_ObservedGeneration status \<noteq> Some generation \<or> gst_LastReconcileMessage status \<noteq> message;
           status1 = (if stale
                      then status\<lparr>gst_ObservedGeneration := Some generation, gst_LastReconcileMessage := message,
                                  gst_LastReconcileTime := Some now\<rparr>
                      else status);
           newCondition = \<lparr>cond_Type = GLBCConditionTypeReady, cond_Status = conditionStatus,
                           cond_ObservedGeneration = generation, cond_LastTransitionTime = now,
                           cond_Reason = conditionReason, cond_Message = message\<rparr>
       in case c_SetStatusCondition (gu_world uc) (gst_Conditions status1) newCondition of
            (changed, conditions) \<Rightarrow> (stale \<or> changed, status1\<lparr>gst_Conditions := conditions\<rparr>))"

text \<open>A failure to write the outcome is logged and does not change it.\<close>

definition EnsureGlobalLoadBalancerConfigUseCase :: "glbUseCase \<Rightarrow> string \<Rightarrow> string \<Rightarrow> unit B" where
  "EnsureGlobalLoadBalancerConfigUseCase uc ns n =
     andThen (attempt (GetGlobalLoadBalancerConfig (gu_world uc) ns n)) (\<lambda>got. case got of
       Inl err \<Rightarrow> glb_IgnoreNotFound uc err
     | Inr lbConfig \<Rightarrow>
         andThen (attempt (glb_deploy (glb_newTask uc lbConfig))) (\<lambda>r.
         andThen (getS (c_Now (gu_world uc))) (\<lambda>now.
         andThen (attempt (glbPatch (glb_newTask uc lbConfig)
                    (glb_trackOutcome uc (om_Generation (glbc_Meta lbConfig)) now (glb_outcomeOf r)))) (\<lambda>statusErr.
         case r of Inl err \<Rightarrow> failM err | Inr _ \<Rightarrow> returnM ()))))"

definition DeleteGlobalLoadBalancerConfigUseCase :: "glbUseCase \<Rightarrow> string \<Rightarrow> string \<Rightarrow> unit B" where
  "DeleteGlobalLoadBalancerConfigUseCase uc ns n =
     andThen (attempt (GetGlobalLoadBalancerConfig (gu_world uc) ns n)) (\<lambda>got. case got of
       Inl err \<Rightarrow> glb_IgnoreNotFound uc err
     | Inr lbConfig \<Rightarrow> glb_delete (glb_newTask uc lbConfig))"

section \<open>The controller\<close>

definition glb_HasFinalizer :: "GlobalLoadBalancerConfig \<Rightarrow> string \<Rightarrow> bool" where
  "glb_HasFinalizer obj finalizer \<longleftrightarrow> list_ex (\<lambda>e. e = finalizer) (om_Finalizers (glbc_Meta obj))"

definition glbc_IsPendingFinalization :: "GlobalLoadBalancerConfig \<Rightarrow> bool" where
  "glbc_IsPendingFinalization object = glb_HasFinalizer object GlbcFinalizer"

definition glbc_IsSupported :: "GlobalLoadBalancerConfig \<Rightarrow> bool" where
  "glbc_IsSupported object \<longleftrightarrow> om_DeletionTimestamp (glbc_Meta object) = None"

definition glb_AddFinalizers :: "glbUseCase \<Rightarrow> unit B" where
  "glb_AddFinalizers uc = askLog (GcAddFinalizers GlbcFinalizer) (\<lambda>h. c_AddFinalizers (gu_world uc) h GlbcFinalizer)"
definition glb_RemoveFinalizers :: "glbUseCase \<Rightarrow> unit B" where
  "glb_RemoveFinalizers uc = askLog (GcRemoveFinalizers GlbcFinalizer) (\<lambda>h. c_RemoveFinalizers (gu_world uc) h GlbcFinalizer)"

definition glb_record :: "string \<Rightarrow> string \<Rightarrow> string \<Rightarrow> unit B" where
  "glb_record eventtype reason message = askLog (\<lambda>_. GcRecord eventtype reason message) (\<lambda>_. Inr ())"

definition glb_withMetrics :: "go_error \<Rightarrow> go_error" where
  "glb_withMetrics err = fst (NewErrorWithMetrics err)"

definition glbReconcileEnsure :: "glbUseCase \<Rightarrow> string \<Rightarrow> string \<Rightarrow> unit B" where
  "glbReconcileEnsure uc ns n =
     andThen (wrapErr glb_withMetrics (glb_AddFinalizers uc)) (\<lambda>_.
       wrapErr glb_withMetrics (EnsureGlobalLoadBalancerConfigUseCase uc ns n))"

definition glbReconcileDelete :: "glbUseCase \<Rightarrow> string \<Rightarrow> string \<Rightarrow> GlobalLoadBalancerConfig \<Rightarrow> unit B" where
  "glbReconcileDelete uc ns n obj =
     (if \<not> glb_HasFinalizer obj GlbcFinalizer then returnM ()
      else andThen (wrapErr glb_withMetrics (DeleteGlobalLoadBalancerConfigUseCase uc ns n)) (\<lambda>_. glb_RemoveFinalizers uc))"

text \<open>The events recorded on the object after a step; those on its owner are not modelled.\<close>

definition glb_report :: "GlobalLoadBalancerConfig \<Rightarrow> string \<Rightarrow> string \<Rightarrow> unit B \<Rightarrow> unit B" where
  "glb_report object failed succeeded m =
     andThen (attempt m) (\<lambda>r. case r of
       Inl err \<Rightarrow> andThen (glb_record ''Warning'' failed (Error err)) (\<lambda>_. failM err)
     | Inr _ \<Rightarrow> glb_record ''Normal'' succeeded (om_Namespace (glbc_Meta object) @ ''/'' @ om_Name (glbc_Meta object)))"

definition glbReconcile :: "glbUseCase \<Rightarrow> string \<Rightarrow> string \<Rightarrow> unit B" where
  "glbReconcile uc ns n =
     andThen (attempt (GetGlobalLoadBalancerConfig (gu_world uc) ns n)) (\<lambda>got. case got of
       Inl err \<Rightarrow> glb_IgnoreNotFound uc err
     | Inr object \<Rightarrow>
         if \<not> glbc_IsSupported object then
           if glbc_IsPendingFinalization object
           then glb_report object ''FailedDelete'' ''Deleted'' (glbReconcileDelete uc ns n object)
           else returnM ()
         else glb_report object ''FailedEnsure'' ''Ensured'' (glbReconcileEnsure uc ns n))"

definition glb_Reconcile :: "(int \<Rightarrow> int) \<Rightarrow> glbUseCase \<Rightarrow> bool \<Rightarrow> string \<Rightarrow> string \<Rightarrow> glbHistory \<Rightarrow> (ctrl_result \<times> go_error option) \<times> glbHistory" where
  "glb_Reconcile rnd uc initDone ns n h =
     (if \<not> initDone then ((\<lparr>Requeue = False, RequeueAfter = Second\<rparr>, None), h)
      else (case glbReconcile uc ns n h of
              (Inl err, h') \<Rightarrow> (HandleReconcileError rnd (Some err), h')
            | (Inr _, h') \<Rightarrow> (HandleReconcileError rnd None, h')))"

end
