(* ===== verification/Glb_Safety.thy ===== *)
theory Glb_Safety
  imports Glb_UseCase
begin

text \<open>
  What a run for a GlobalLoadBalancerConfig may do to the cloud. A guard says of a call what the calls of
  the run before it must have shown; guards survive further calls, so each operation is shown once to make
  only guarded calls, from any point of a run.
\<close>

section \<open>Calls of a run\<close>

text \<open>The guard \<open>G\<close> holds of every call after the first \<open>k\<close> of the log.\<close>

abbreviation guarded :: "nat \<Rightarrow> (glbEvent list \<Rightarrow> glbEvent \<Rightarrow> bool) \<Rightarrow> glbHistory \<Rightarrow> glbHistory \<Rightarrow> bool" where
  "guarded k G \<equiv> addsR id (ofRun k G)"

lemma guarded_seen: "guarded k G h h' \<Longrightarrow> k \<le> length h \<Longrightarrow> e \<in> set (drop k h) \<Longrightarrow> e \<in> set (drop k h')"
  using addsR_keeps[of id "ofRun k G" h h' k e] by simp

lemma guarded_longer: "guarded k G h h' \<Longrightarrow> k \<le> length h \<Longrightarrow> k \<le> length h'"
  using addsR_longer[of id "ofRun k G" h h'] by simp

declare safe_adds_askLog [safe_intro del] safe_adds_wait [safe_intro del] safe_adds_glbPatch [safe_intro del]

lemma safe_guarded_ask [safe_intro]:
  "G (drop k h) (ev (f h)) \<Longrightarrow> safe (guarded k G) (askLog ev f) h"
  by (rule safe_adds_askLog) (simp add: ofRun_def)

lemma askLog_iff: "askLog ev f h = (r, h') \<longleftrightarrow> r = f h \<and> h' = h @ [ev r]"
  by auto

text \<open>A run all of whose calls are guarded by \<open>G\<close>, within a longer run.\<close>

lemma safe_guarded_weaken:
  assumes "safe (guarded k G) m h"
    and "\<And>es e. G (drop k (h @ es)) e \<Longrightarrow> G' (drop k' (h @ es)) e"
  shows "safe (guarded k' G') m h"
  using assms(1) by (rule safe_adds_from) (unfold ofRun_def id_apply, rule assms(2))

section \<open>Cleaning up\<close>

text \<open>
  The guard of the cleanups on the load balancer \<open>lb\<close> that keep the listeners \<open>newL\<close> and the pools
  \<open>newP\<close>. A listener that goes is on record, unwanted and listed in this run, and has no pool, or an unwanted pool
  on record in which this run has read nothing but groups and members on record. A pool that goes is on
  record, named by no listener listed in this run, and held only groups on record and not wanted. A bulk
  request only deletes such groups.
\<close>

definition listenerMayGo :: "glbTask \<Rightarrow> string \<Rightarrow> CreatedGlobalPool list \<Rightarrow> glbEvent list \<Rightarrow> string \<Rightarrow> bool" where
  "listenerMayGo t lb newP es i \<longleftrightarrow>
     (\<exists>ls x. GcListListeners lb (Inr ls) \<in> set es \<and> x \<in> set ls \<and> egl_ID x = i
        \<and> (egl_GlobalPoolID x = [] \<or>
            egl_GlobalPoolID x \<notin> cgp_Id ` set newP
            \<and> (\<exists>p ms. p \<in> set (gst_CreatedPools (gt_Status t)) \<and> cgp_Id p = egl_GlobalPoolID x
                 \<and> GcListMembers lb (egl_GlobalPoolID x) (Inr ms) \<in> set es \<and> ownsGroups p ms)))"

definition ourGroup :: "glbTask \<Rightarrow> CreatedGlobalPool list \<Rightarrow> string \<Rightarrow> entity_GlobalPoolMember \<Rightarrow> bool" where
  "ourGroup t newP i g \<longleftrightarrow>
     egm_Name g \<in> cgm_Name ` set (cgp_CreatedPoolMembers (createdPoolOf (gst_CreatedPools (gt_Status t)) i))
     \<and> egm_Name g \<notin> cgm_Name ` set (cgp_CreatedPoolMembers (createdPoolOf newP i))"

definition cleanupCall ::
  "glbTask \<Rightarrow> string \<Rightarrow> CreatedGlobalListener list \<Rightarrow> CreatedGlobalPool list \<Rightarrow> glbEvent list \<Rightarrow> glbEvent \<Rightarrow> bool" where
  "cleanupCall t lb newL newP es e \<longleftrightarrow>
     (case e of
        GcListListeners lb' _ \<Rightarrow> lb' = lb
      | GcListPools lb' _ \<Rightarrow> lb' = lb
      | GcListMembers lb' _ _ \<Rightarrow> lb' = lb
      | GcGetLB lb' _ \<Rightarrow> lb' = lb
      | GcDeleteListener lb' i _ \<Rightarrow> lb' = lb \<and> i \<in> cgl_Id ` set (gst_CreatedListeners (gt_Status t))
          \<and> i \<notin> cgl_Id ` set newL \<and> listenerMayGo t lb newP es i
      | GcDeletePool lb' i _ \<Rightarrow> lb' = lb \<and> i \<in> cgp_Id ` set (gst_CreatedPools (gt_Status t))
          \<and> (\<exists>ls. GcListListeners lb (Inr ls) \<in> set es \<and> i \<notin> egl_GlobalPoolID ` set ls)
          \<and> (\<exists>ms. GcListMembers lb i (Inr ms) \<in> set es \<and> (\<forall>g \<in> set ms. ourGroup t newP i g))
      | GcPatchMembers lb' i acts _ \<Rightarrow> lb' = lb \<and> i \<in> cgp_Id ` set (gst_CreatedPools (gt_Status t))
          \<and> (\<exists>ms. GcListMembers lb i (Inr ms) \<in> set es
               \<and> (\<forall>a \<in> set acts. \<exists>g \<in> set ms. a = BulkDelete (egm_ID g) \<and> ourGroup t newP i g))
      | _ \<Rightarrow> False)"

lemma listenerMayGo_more:
  "listenerMayGo t lb newP es i \<Longrightarrow> set es \<subseteq> set es' \<Longrightarrow> listenerMayGo t lb newP es' i"
  unfolding listenerMayGo_def by blast

lemma cleanupCall_more:
  assumes "cleanupCall t lb newL newP es e" and "set es \<subseteq> set es'"
  shows "cleanupCall t lb newL newP es' e"
  using assms by (cases e) (fastforce simp: cleanupCall_def intro: listenerMayGo_more)+

lemma keepGroup_our: "\<not> keepGroup (createdPoolOf (gst_CreatedPools (gt_Status t)) i) (createdPoolOf newP i) g \<longleftrightarrow> ourGroup t newP i g"
  by (auto simp: keepGroup_def ourGroup_def)

lemma glb_canDeleteWholePool_cases:
  assumes "glb_canDeleteWholePool ms (createdPoolOf (gst_CreatedPools (gt_Status t)) i) (createdPoolOf newP i) = (whole, acts)"
  shows "whole \<Longrightarrow> \<forall>g \<in> set ms. ourGroup t newP i g"
    and "acts = Some bulk \<Longrightarrow> a \<in> set bulk \<Longrightarrow> \<exists>g \<in> set ms. a = BulkDelete (egm_ID g) \<and> ourGroup t newP i g"
  using assms by (auto simp: glb_canDeleteWholePool_def Let_def filter_empty_conv keepGroup_our split: if_splits)

lemma safe_cleanup_wait:
  "safe (guarded k (cleanupCall t lb newL newP)) (WaitGlobalLoadBalancerActive t' lb) h"
  by (rule safe_adds_wait) (simp add: ofRun_def cleanupCall_def)

lemma safe_cleanupPoolCalls:
  assumes "i \<in> cgp_Id ` set (gst_CreatedPools (gt_Status t))" and "k \<le> length h"
    and "GcListListeners lb (Inr ls) \<in> set (drop k h)"
  shows "safe (guarded k (cleanupCall t lb newL newP)) (glb_cleanupPool t lb newP ps ls i) h"
  unfolding glb_cleanupPool_def ListGlobalPoolMembers_def DeleteGlobalPool_def PatchGlobalPoolMembers_def
proof (intro safe_intro safe_cleanup_wait)
  fix ms h1 whole acts
  assume g: "guarded k (cleanupCall t lb newL newP) h h1"
    and read: "wrapErr (errorf (''list members of pool '' @ i @ '' on LB '' @ lb))
      (askLog (GcListMembers lb i) (\<lambda>h. c_ListMembers (gt_world t) h lb i)) h = (Inr ms, h1)"
    and can: "glb_canDeleteWholePool ms (createdPoolOf (gst_CreatedPools (gt_Status t)) i) (createdPoolOf newP i) = (whole, acts)"
  from read assms(2) have ms: "GcListMembers lb i (Inr ms) \<in> set (drop k h1)" by (auto simp: askLog_iff)
  from guarded_seen[OF g assms(2,3)] have ls: "GcListListeners lb (Inr ls) \<in> set (drop k h1)" .
  show "cleanupCall t lb newL newP (drop k h1) (GcDeletePool lb i (c_DeletePool (gt_world t) h1 lb i))"
    if "\<not> list_ex (\<lambda>l. egl_GlobalPoolID l = i) ls \<and> whole"
  proof -
    from that have "i \<notin> egl_GlobalPoolID ` set ls" and whole by (auto simp: list_ex_iff)
    with ms ls assms(1) glb_canDeleteWholePool_cases(1)[OF can] show ?thesis unfolding cleanupCall_def by auto
  qed
  show "cleanupCall t lb newL newP (drop k h1) (GcPatchMembers lb i bulk (c_PatchMembers (gt_world t) h1 lb i bulk))"
    if "acts = Some bulk" for bulk
    using ms assms(1) glb_canDeleteWholePool_cases(2)[OF can that] by (auto simp: cleanupCall_def)
qed (simp add: cleanupCall_def)

lemma safe_deleteRedundantPoolsCalls:
  assumes "k \<le> length h"
  shows "safe (guarded k (cleanupCall t lb newL newP)) (glb_deleteRedundantPools t lb newP) h"
  unfolding glb_deleteRedundantPools_def ListGlobalPools_def ListGlobalListeners_def
proof (intro safe_intro)
  fix ps h1 ls h2 i h3
  assume g: "guarded k (cleanupCall t lb newL newP) h h1" "guarded k (cleanupCall t lb newL newP) h1 h2"
      "guarded k (cleanupCall t lb newL newP) h2 h3"
    and i: "i \<in> set (map cgp_Id (gst_CreatedPools (gt_Status t)))"
    and read: "wrapErr (errorf (''list listeners of LB '' @ lb))
      (askLog (GcListListeners lb) (\<lambda>h. c_ListListeners (gt_world t) h lb)) h1 = (Inr ls, h2)"
  from guarded_longer[OF g(1) assms] have k: "k \<le> length h1" .
  with read have ls: "GcListListeners lb (Inr ls) \<in> set (drop k h2)" by (auto simp: askLog_iff)
  from guarded_longer[OF g(2) k] have k2: "k \<le> length h2" .
  show "safe (guarded k (cleanupCall t lb newL newP)) (glb_cleanupPool t lb newP ps ls i) h3"
    using i by (intro safe_cleanupPoolCalls guarded_longer[OF g(3) k2] guarded_seen[OF g(3) k2 ls]) auto
qed (simp_all add: cleanupCall_def)

lemma safe_glb_canDeleteWholeListener:
  assumes "k \<le> length h"
  shows "safe (guarded k (cleanupCall t lb newL newP)) (glb_canDeleteWholeListener t lb x newP) h"
  unfolding glb_canDeleteWholeListener_def ListGlobalPoolMembers_def
  by (intro safe_intro) (simp add: cleanupCall_def)

lemma canDeleteWholeListener_may_go:
  assumes run: "glb_canDeleteWholeListener t lb x newP h = (Inr True, h')" and k: "k \<le> length h"
    and ls: "GcListListeners lb (Inr ls) \<in> set (drop k h)" "x \<in> set ls"
  shows "listenerMayGo t lb newP (drop k h') (egl_ID x)"
proof -
  have more: "set (drop k h) \<subseteq> set (drop k h')"
    using run k by (auto simp: glb_canDeleteWholeListener_def ListGlobalPoolMembers_def andThen_Inr_iff askLog_iff
        split: if_splits option.splits)
  show ?thesis
  proof (cases "egl_GlobalPoolID x = []")
    case True
    with more ls show ?thesis unfolding listenerMayGo_def by blast
  next
    case False
    with run have new: "egl_GlobalPoolID x \<notin> cgp_Id ` set newP"
      by (auto simp: glb_canDeleteWholeListener_def list_ex_iff split: if_splits)
    from False run obtain p ms where p: "find (\<lambda>p. cgp_Id p = egl_GlobalPoolID x) (gst_CreatedPools (gt_Status t)) = Some p"
      and ms: "h' = h @ [GcListMembers lb (egl_GlobalPoolID x) (Inr ms)]" "ownsGroups p ms"
      by (fastforce simp: glb_canDeleteWholeListener_def ListGlobalPoolMembers_def andThen_Inr_iff askLog_iff
          split: if_splits option.splits)
    from find_key_SomeD[OF p] ms k have "p \<in> set (gst_CreatedPools (gt_Status t))" "cgp_Id p = egl_GlobalPoolID x"
      "GcListMembers lb (egl_GlobalPoolID x) (Inr ms) \<in> set (drop k h')" by auto
    with more ls new ms(2) show ?thesis unfolding listenerMayGo_def by blast
  qed
qed

lemma safe_cleanupListenerCalls:
  assumes i: "i \<in> cgl_Id ` set (gst_CreatedListeners (gt_Status t))" and k: "k \<le> length h"
    and ls: "GcListListeners lb (Inr ls) \<in> set (drop k h)"
  shows "safe (guarded k (cleanupCall t lb newL newP)) (glb_cleanupListener t lb newL newP ls i) h"
  unfolding glb_cleanupListener_def DeleteGlobalListener_def
proof (intro safe_intro safe_cleanup_wait safe_glb_canDeleteWholeListener k)
  fix x can h1
  assume x: "find (\<lambda>l. egl_ID l = i) ls = Some x" and new: "\<not> list_ex (\<lambda>l. cgl_Id l = i) newL \<and> can"
    and run: "glb_canDeleteWholeListener t lb x newP h = (Inr can, h1)"
  from find_key_SomeD[OF x] run new canDeleteWholeListener_may_go[OF _ k ls, of t x newP h1]
  have "listenerMayGo t lb newP (drop k h1) i" by auto
  with i new show "cleanupCall t lb newL newP (drop k h1) (GcDeleteListener lb i (c_DeleteListener (gt_world t) h1 lb i))"
    by (auto simp: cleanupCall_def list_ex_iff)
qed

lemma safe_deleteRedundantListenersCalls:
  assumes "k \<le> length h"
  shows "safe (guarded k (cleanupCall t lb newL newP)) (glb_deleteRedundantListeners t lb newL newP) h"
  unfolding glb_deleteRedundantListeners_def ListGlobalListeners_def
proof (intro safe_intro)
  fix ls h1 i h2
  assume g: "guarded k (cleanupCall t lb newL newP) h1 h2"
    and i: "i \<in> set (map cgl_Id (gst_CreatedListeners (gt_Status t)))"
    and read: "askLog (GcListListeners lb) (\<lambda>h. c_ListListeners (gt_world t) h lb) h = (Inr ls, h1)"
  from read assms have ls: "GcListListeners lb (Inr ls) \<in> set (drop k h1)" and k: "k \<le> length h1" by (auto simp: askLog_iff)
  show "safe (guarded k (cleanupCall t lb newL newP)) (glb_cleanupListener t lb newL newP ls i) h2"
    using i by (intro safe_cleanupListenerCalls guarded_longer[OF g k] guarded_seen[OF g k ls]) auto
qed (simp_all add: cleanupCall_def)

text \<open>
  A listener on record that the spec no longer has is left alone as long as the spec still has its pool, in
  every run; the deploy then writes a record without it.
\<close>

lemma unwanted_listener_of_wanted_pool_stays:
  assumes "find (\<lambda>l. egl_ID l = i) ls = Some x" and "egl_GlobalPoolID x \<noteq> []" and "egl_GlobalPoolID x \<in> cgp_Id ` set newP"
  shows "glb_cleanupListener t lb newL newP ls i h = (Inr (), h)"
  using assms by (auto simp: glb_cleanupListener_def glb_canDeleteWholeListener_def andThen_simps list_ex_iff)

text \<open>A pool on record that a listener still names, and that is to go with all its groups, keeps them all.\<close>

lemma used_pool_keeps_its_groups:
  assumes "glb_canDeleteWholePool ms created newCreated = (True, acts)"
  shows "acts = None"
  using assms by (auto simp: glb_canDeleteWholePool_def Let_def split: if_splits)

section \<open>Tearing down\<close>

text \<open>
  The guard of a teardown: the load balancer goes only when it is the recorded one and, by the reads
  of this run, either everything on it is on record - listeners, pools, groups and members - or nothing is
  on it. All else is cleanup on it, with nothing wanted.
\<close>

definition poolOnRecord :: "glbTask \<Rightarrow> string \<Rightarrow> glbEvent list \<Rightarrow> entity_GlobalPool \<Rightarrow> bool" where
  "poolOnRecord t lb es p \<longleftrightarrow>
     (\<exists>cp ms. cp \<in> set (gst_CreatedPools (gt_Status t)) \<and> cgp_Id cp = egp_ID p
        \<and> GcListMembers lb (egp_ID p) (Inr ms) \<in> set es \<and> ownsGroups cp ms)"

definition allOnRecord :: "glbTask \<Rightarrow> string \<Rightarrow> glbEvent list \<Rightarrow> bool" where
  "allOnRecord t lb es \<longleftrightarrow>
     (\<exists>ls. GcListListeners lb (Inr ls) \<in> set es \<and> egl_ID ` set ls \<subseteq> cgl_Id ` set (gst_CreatedListeners (gt_Status t)))
     \<and> (\<exists>ps. GcListPools lb (Inr ps) \<in> set es \<and> (\<forall>p \<in> set ps. poolOnRecord t lb es p))"

definition glbDeleteCall :: "glbTask \<Rightarrow> glbEvent list \<Rightarrow> glbEvent \<Rightarrow> bool" where
  "glbDeleteCall t es e \<longleftrightarrow>
     nonempty (gst_LoadBalancerId (gt_Status t)) \<and>
     (case e of
        GcDeleteLB i _ \<Rightarrow> gst_LoadBalancerId (gt_Status t) = Some i
          \<and> (allOnRecord t i es \<or> GcListListeners i (Inr []) \<in> set es \<and> GcListPools i (Inr []) \<in> set es)
      | _ \<Rightarrow> cleanupCall t (deref (gst_LoadBalancerId (gt_Status t))) [] [] es e)"

lemma poolOnRecord_more: "poolOnRecord t lb es p \<Longrightarrow> set es \<subseteq> set es' \<Longrightarrow> poolOnRecord t lb es' p"
  unfolding poolOnRecord_def by blast

lemma allOnRecord_more: "allOnRecord t lb es \<Longrightarrow> set es \<subseteq> set es' \<Longrightarrow> allOnRecord t lb es'"
  unfolding allOnRecord_def by (meson poolOnRecord_more subsetD)

lemma glbDeleteCall_cleanup:
  assumes "nonempty (gst_LoadBalancerId (gt_Status t))"
    and "cleanupCall t (deref (gst_LoadBalancerId (gt_Status t))) [] [] es e"
  shows "glbDeleteCall t es e"
  using assms by (cases e) (simp_all add: glbDeleteCall_def cleanupCall_def)

lemma coverPool_true:
  assumes "glb_coverPool t lb p h = (Inr True, h')" and "k \<le> length h"
  shows "poolOnRecord t lb (drop k h') p"
proof -
  from assms(1) obtain cp ms where cp: "find (\<lambda>c. cgp_Id c = egp_ID p) (gst_CreatedPools (gt_Status t)) = Some cp"
    and h': "h' = h @ [GcListMembers lb (egp_ID p) (Inr ms)]" "ownsGroups cp ms"
    by (fastforce simp: glb_coverPool_def ListGlobalPoolMembers_def andThen_Inr_iff askLog_iff split: option.splits)
  from find_key_SomeD[OF cp] h' assms(2) show ?thesis unfolding poolOnRecord_def by auto
qed

lemma coverPool_grows: "glb_coverPool t lb p h = (r, h') \<Longrightarrow> \<exists>es. h' = h @ es"
  by (auto simp: glb_coverPool_def ListGlobalPoolMembers_def andThen_def split: option.splits sum.splits)

lemma canCover_pools:
  assumes "canCoverM (glb_coverPool t lb) ps h = (Inr True, h')" and "k \<le> length h"
  shows "(\<forall>p \<in> set ps. poolOnRecord t lb (drop k h') p) \<and> set (drop k h) \<subseteq> set (drop k h')"
  using assms
proof (induction ps arbitrary: h)
  case (Cons p ps)
  from Cons.prems(1) obtain h1 where p: "glb_coverPool t lb p h = (Inr True, h1)"
    and rest: "canCoverM (glb_coverPool t lb) ps h1 = (Inr True, h')"
    by (auto simp: andThen_Inr_iff split: if_splits)
  from coverPool_grows[OF p] obtain es where h1: "h1 = h @ es" ..
  with Cons.prems(2) have "k \<le> length h1" by simp
  from Cons.IH[OF rest this] have ih: "\<forall>p \<in> set ps. poolOnRecord t lb (drop k h') p" "set (drop k h1) \<subseteq> set (drop k h')"
    by auto
  from poolOnRecord_more[OF coverPool_true[OF p Cons.prems(2)] ih(2)] ih h1 Cons.prems(2) show ?case by auto
qed simp

lemma canCoverM_pure: "canCoverM (\<lambda>b. returnM (P b)) bs h = (Inr (list_all P bs), h)"
  by (induction bs) (simp_all add: andThen_simps)

lemma canDeleteWholeLoadBalancer_true:
  assumes run: "glb_canDeleteWholeLoadBalancer t lb h = (Inr True, h')" and k: "k \<le> length h"
  shows "allOnRecord t lb (drop k h')"
proof -
  from run obtain ls ps where cover: "list_all (\<lambda>b. list_ex (\<lambda>oldL. cgl_Id oldL = egl_ID b) (gst_CreatedListeners (gt_Status t))) ls"
    and pools: "canCoverM (glb_coverPool t lb) ps (h @ [GcListListeners lb (Inr ls), GcListPools lb (Inr ps)]) = (Inr True, h')"
    by (fastforce simp: glb_canDeleteWholeLoadBalancer_def ListGlobalListeners_def ListGlobalPools_def andThen_Inr_iff
        askLog_iff canCoverM_pure split: if_splits)
  from cover have "egl_ID ` set ls \<subseteq> cgl_Id ` set (gst_CreatedListeners (gt_Status t))"
    by (auto simp: list_all_iff list_ex_iff) (metis image_eqI)
  moreover from k have "k \<le> length (h @ [GcListListeners lb (Inr ls), GcListPools lb (Inr ps)])" by simp
  from canCover_pools[OF pools this] k have "\<forall>p \<in> set ps. poolOnRecord t lb (drop k h') p"
    "GcListListeners lb (Inr ls) \<in> set (drop k h')" "GcListPools lb (Inr ps) \<in> set (drop k h')" by auto
  ultimately show ?thesis unfolding allOnRecord_def by blast
qed

lemma isLoadBalancerEmpty_true:
  assumes "glb_isLoadBalancerEmpty t lb h = (Inr True, h')" and "k \<le> length h"
  shows "GcListListeners lb (Inr []) \<in> set (drop k h') \<and> GcListPools lb (Inr []) \<in> set (drop k h')"
  using assms by (auto simp: glb_isLoadBalancerEmpty_def ListGlobalListeners_def ListGlobalPools_def andThen_Inr_iff
      askLog_iff split: if_splits)

lemma safe_canCover:
  assumes "\<And>b h. safe (guarded k G) (f b) h"
  shows "safe (guarded k G) (canCoverM f bs) h"
proof (induction bs arbitrary: h)
  case (Cons b bs)
  show ?case unfolding canCoverM.simps by (intro adds.safe_andThen adds.safe_if adds.safe_returnM assms Cons.IH)
qed (simp add: adds.safe_returnM)

lemma glb_delete_guarded: "safe (addsR id (ofRun (length h) (glbDeleteCall t))) (glb_delete t) h"
proof (cases "nonempty (gst_LoadBalancerId (gt_Status t))")
  case some: True
  define lb where "lb = deref (gst_LoadBalancerId (gt_Status t))"
  have st: "gst_LoadBalancerId (gt_Status t) = Some lb" using some by (cases "gst_LoadBalancerId (gt_Status t)") (simp_all add: lb_def)
  let ?G = "guarded (length h) (glbDeleteCall t)"
  have clean: "safe ?G m h'" if "safe (guarded (length h) (cleanupCall t lb [] [])) m h'" for m :: "unit B" and h'
    using that by (rule safe_guarded_weaken) (rule glbDeleteCall_cleanup[OF some], simp add: lb_def)
  have listing: "glbDeleteCall t es (GcListListeners lb r)" "glbDeleteCall t es (GcListPools lb r')"
    "glbDeleteCall t es (GcListMembers lb p r'')" "glbDeleteCall t es (GcGetLB lb r3)" for es p r r' r'' r3
    using some by (simp_all add: glbDeleteCall_def cleanupCall_def lb_def)
  have empty: "safe ?G (glb_isLoadBalancerEmpty t lb) h'" for h'
    unfolding glb_isLoadBalancerEmpty_def ListGlobalListeners_def ListGlobalPools_def by (intro safe_intro listing)
  have whole: "safe ?G (glb_canDeleteWholeLoadBalancer t lb) h'" for h'
    unfolding glb_canDeleteWholeLoadBalancer_def glb_coverPool_def ListGlobalListeners_def ListGlobalPools_def ListGlobalPoolMembers_def
    by (intro safe_intro safe_canCover listing)
  have del: "glbDeleteCall t es (GcDeleteLB lb r)"
    if "allOnRecord t lb es \<or> GcListListeners lb (Inr []) \<in> set es \<and> GcListPools lb (Inr []) \<in> set es" for es r
    using that st some by (simp add: glbDeleteCall_def)
  have rest: "safe ?G (glb_deleteLoadBalancerWhenNotEmpty t lb) h'" if k: "length h \<le> length h'" for h'
    unfolding glb_deleteLoadBalancerWhenNotEmpty_def DeleteGlobalLoadBalancer_def
  proof (intro safe_intro clean safe_deleteRedundantListenersCalls safe_deleteRedundantPoolsCalls empty del disjI2)
    fix h1 h2 b h3
    assume g: "?G h' h1" "?G h1 h2" and run: "glb_isLoadBalancerEmpty t lb h2 = (Inr b, h3)" and b
    from isLoadBalancerEmpty_true[OF _ guarded_longer[OF g(2) guarded_longer[OF g(1) k]]] run \<open>b\<close>
    show "GcListListeners lb (Inr []) \<in> set (drop (length h) h3) \<and> GcListPools lb (Inr []) \<in> set (drop (length h) h3)"
      by simp
  qed (auto dest!: guarded_longer simp: k)
  have "safe ?G (glb_deleteLoadBalancer t lb) h"
    unfolding glb_deleteLoadBalancer_def GetGlobalLoadBalancerByID_def DeleteGlobalLoadBalancer_def
    by (intro safe_intro listing whole rest del disjI1) (auto dest!: guarded_longer canDeleteWholeLoadBalancer_true)
  then show ?thesis by (simp add: glb_delete_def some lb_def)
qed (simp add: glb_delete_def adds.safe_returnM)

text \<open>
  C15. What a teardown does to the cloud. The load balancer is deleted only when it is the recorded one and
  this run has read that everything on it is on record, or that nothing is on it; a listener only when
  it is on record and its pool holds nothing that is not; a pool only when it is on record, no listener
  names it and all its groups are ours; and of a pool that stays only our groups are taken. It creates and
  updates nothing.
\<close>

theorem glb_delete_calls: "safe (addsR id (ofRun (length h) (glbDeleteCall t))) (glb_delete t) h"
  by (rule glb_delete_guarded)

text \<open>
  Nothing asks whose load balancer it is: one that was given by the spec and holds nothing is deleted with the
  config.
\<close>

lemma glb_delete_empty_load_balancer:
  assumes "gst_LoadBalancerId (gt_Status t) = Some lb" and "lb \<noteq> []"
    and "c_GetLB (gt_world t) h lb = Inr g" and "\<And>h. c_ListListeners (gt_world t) h lb = Inr []"
    and "\<And>h. c_ListPools (gt_world t) h lb = Inr []"
  shows "\<exists>r. snd (glb_delete t h) = h @ [GcGetLB lb (Inr g), GcListListeners lb (Inr []), GcListPools lb (Inr []), GcDeleteLB lb r]"
  using assms
  by (simp add: glb_delete_def glb_deleteLoadBalancer_def glb_canDeleteWholeLoadBalancer_def andThen_def attempt_def
      GetGlobalLoadBalancerByID_def ListGlobalListeners_def ListGlobalPools_def DeleteGlobalLoadBalancer_def)

end
