(* ===== verification/Glb_Deploys.thy ===== *)
theory Glb_Deploys
  imports Glb_Safety
begin

text \<open>
  What a deploy of a GlobalLoadBalancerConfig may do to the cloud, and what it records.
\<close>

section \<open>The guard of a deploy\<close>

definition glb_ns :: "glbTask \<Rightarrow> string" where "glb_ns t = om_Namespace (glbc_Meta (gt_lbConfig t))"
definition glb_name :: "glbTask \<Rightarrow> string" where "glb_name t = om_Name (glbc_Meta (gt_lbConfig t))"

text \<open>The load balancer of the config: the recorded one, or one created in this run.\<close>

definition onLB :: "glbTask \<Rightarrow> glbEvent list \<Rightarrow> string \<Rightarrow> bool" where
  "onLB t es lb \<longleftrightarrow> gst_LoadBalancerId (gt_Status t) = Some lb
     \<or> (\<exists>r x. GcCreateLB r (Inr (Some x)) \<in> set es \<and> eglb_ID x = lb)"

text \<open>The pool of a name: listed under it, or created for it.\<close>

definition isPoolOf :: "glbEvent list \<Rightarrow> string \<Rightarrow> string \<Rightarrow> string \<Rightarrow> bool" where
  "isPoolOf es lb name i \<longleftrightarrow>
     (\<exists>ps p. GcListPools lb (Inr ps) \<in> set es \<and> p \<in> set ps \<and> egp_Name p = name \<and> egp_ID p = i)
     \<or> (\<exists>r p. GcCreatePool lb r (Inr p) \<in> set es \<and> gcp_Name r = name \<and> egp_ID p = i)"

text \<open>A listener as the cloud has shown it: listed under the port, or just created for it.\<close>

definition isListenerOn :: "glbEvent list \<Rightarrow> string \<Rightarrow> int \<Rightarrow> entity_GlobalListener \<Rightarrow> bool" where
  "isListenerOn es lb port x \<longleftrightarrow>
     (\<exists>ls. GcListListeners lb (Inr ls) \<in> set es \<and> x \<in> set ls \<and> egl_Port x = port)
     \<or> (\<exists>r y. GcCreateListener lb r (Inr y) \<in> set es \<and> gcl_Port r = port \<and> GcGetListener lb (egl_ID y) (Inr x) \<in> set es)"

definition brokenLB :: "glbEvent list \<Rightarrow> string \<Rightarrow> bool" where
  "brokenLB es i \<longleftrightarrow> GcGetLB i (Inl ErrorLoadBalancerStatusError) \<in> set es
     \<or> (\<exists>lb. GcGetLB i (Inr lb) \<in> set es \<and> ToUpper (eglb_Status lb) = ''ERROR'')"

definition deployCall :: "glbTask \<Rightarrow> glbEvent list \<Rightarrow> glbEvent \<Rightarrow> bool" where
  "deployCall t es e \<longleftrightarrow>
     (case e of
        GcGetGLBC ns n _ \<Rightarrow> ns = glb_ns t \<and> n = glb_name t
      | GcPatchStatus old new _ \<Rightarrow> GcGetGLBC (glb_ns t) (glb_name t) (Inr old) \<in> set es
          \<and> glbc_Meta new = glbc_Meta old \<and> glbc_Spec new = glbc_Spec old
      | GcCreateLB r _ \<Rightarrow> \<not> nonempty (gst_LoadBalancerId (gt_Status t)) \<and> \<not> nonempty (gsp_LoadBalancerId (gt_Spec t))
          \<and> gcb_Name r = gsp_Name (gt_Spec t)
          \<and> (gsp_Name (gt_Spec t) = [] \<or> (\<exists>lbs. GcListLBs (Inr lbs) \<in> set es \<and> gsp_Name (gt_Spec t) \<notin> eglb_Name ` set lbs))
      | GcDeleteLB i _ \<Rightarrow> (\<exists>r x. GcCreateLB r (Inr (Some x)) \<in> set es \<and> eglb_ID x = i) \<and> brokenLB es i
      | GcResizeLB i p _ \<Rightarrow> gsp_PackageId (gt_Spec t) = Some p \<and> (\<exists>j lb. GcGetLB j (Inr lb) \<in> set es \<and> eglb_ID lb = i \<and> eglb_Package lb \<noteq> p)
      | GcCreatePool lb r _ \<Rightarrow> onLB t es lb \<and> (\<exists>pool ps. pool \<in> set (gsp_GlobalPools (gt_Spec t))
          \<and> GcListPools lb (Inr ps) \<in> set es \<and> gp_Name pool \<notin> egp_Name ` set ps \<and> r = glb_buildCreatePoolRequest t lb pool)
      | GcUpdatePool lb i r _ \<Rightarrow> onLB t es lb \<and> (\<exists>pool ps p. pool \<in> set (gsp_GlobalPools (gt_Spec t))
          \<and> GcListPools lb (Inr ps) \<in> set es \<and> p \<in> set ps \<and> egp_Name p = gp_Name pool \<and> egp_ID p = i
          \<and> glb_buildPoolUpdateRequest t lb pool p = Some r)
      | GcPatchMembers lb i acts _ \<Rightarrow> onLB t es lb \<and> (\<exists>pool ms. pool \<in> set (gsp_GlobalPools (gt_Spec t))
          \<and> isPoolOf es lb (gp_Name pool) i \<and> GcListMembers lb i (Inr ms) \<in> set es
          \<and> buildPatchGlobalPoolMemberRequest t lb i ms (gp_PoolMembers pool) = Some acts)
      | GcCreateListener lb r _ \<Rightarrow> onLB t es lb \<and> (\<exists>l ls newP. l \<in> set (gsp_GlobalListeners (gt_Spec t))
          \<and> GcListListeners lb (Inr ls) \<in> set es \<and> gl_ProtocolPort l \<notin> egl_Port ` set ls
          \<and> r = glb_buildCreateListenerRequest t lb l newP)
      | GcUpdateListener lb i r _ \<Rightarrow> onLB t es lb \<and> (\<exists>l x newP. l \<in> set (gsp_GlobalListeners (gt_Spec t))
          \<and> isListenerOn es lb (gl_ProtocolPort l) x \<and> egl_ID x = i \<and> egl_Protocol x = gl_Protocol l
          \<and> glb_buildListenerUpdateRequest lb l x newP = Some r)
      | GcDeleteListener _ _ _ \<Rightarrow> False
      | GcDeletePool _ _ _ \<Rightarrow> False
      | GcAddFinalizers _ _ \<Rightarrow> False
      | GcRemoveFinalizers _ _ \<Rightarrow> False
      | GcRecord _ _ _ \<Rightarrow> False
      | _ \<Rightarrow> True)"

lemma onLB_more: "onLB t es lb \<Longrightarrow> set es \<subseteq> set es' \<Longrightarrow> onLB t es' lb"
  unfolding onLB_def by blast

lemma isPoolOf_more: "isPoolOf es lb n i \<Longrightarrow> set es \<subseteq> set es' \<Longrightarrow> isPoolOf es' lb n i"
  unfolding isPoolOf_def by blast

lemma guarded_more: "guarded k G h h' \<Longrightarrow> k \<le> length h \<Longrightarrow> set (drop k h) \<subseteq> set (drop k h')"
  using guarded_seen by blast

abbreviation depl :: "glbTask \<Rightarrow> nat \<Rightarrow> glbHistory \<Rightarrow> glbHistory \<Rightarrow> bool" where
  "depl t k \<equiv> guarded k (deployCall t)"

lemma deployCall_reads [simp]:
  "deployCall t es (GcListPackages r1)" "deployCall t es (GcListLBs r2)" "deployCall t es (GcGetLB i r3)"
  "deployCall t es (GcListPools i r4)" "deployCall t es (GcListMembers i p r5)" "deployCall t es (GcListListeners i r6)"
  "deployCall t es (GcGetListener i l r7)"
  by (simp_all add: deployCall_def)

section \<open>Each operation\<close>

lemma safe_depl_wait: "safe (depl t k) (WaitGlobalLoadBalancerActive t' i) h"
  by (rule safe_adds_wait) (simp add: ofRun_def)

lemma safe_depl_patch:
  assumes "k \<le> length h"
  shows "safe (depl t k) (glbPatch t mutate) h"
  unfolding glbPatch_def PatchMutateStatusGLBC_def GetGlobalLoadBalancerConfig_def glb_StatusPatch_def
proof (intro safe_intro)
  fix h' objGet h'' changed status
  assume "depl t k h h'" and get: "askLog (GcGetGLBC (om_Namespace (glbc_Meta (gt_lbConfig t))) (om_Name (glbc_Meta (gt_lbConfig t))))
     (\<lambda>h. c_GetGLBC (gt_world t) h (om_Namespace (glbc_Meta (gt_lbConfig t))) (om_Name (glbc_Meta (gt_lbConfig t)))) h' = (Inr objGet, h'')"
  from guarded_longer[OF this(1) assms] get
  show "deployCall t (drop k h'') (GcPatchStatus objGet (objGet\<lparr>glbc_Status := status\<rparr>)
      (c_PatchStatus (gt_world t) h'' objGet (objGet\<lparr>glbc_Status := status\<rparr>)))"
    by (auto simp: deployCall_def glb_ns_def glb_name_def askLog_iff)
qed (simp add: deployCall_def glb_ns_def glb_name_def)

lemma safe_depl_status:
  "k \<le> length h \<Longrightarrow> safe (depl t k) (glb_statusAddListener t i p n) h"
  "k \<le> length h \<Longrightarrow> safe (depl t k) (glb_statusUpdatePoolMember t i n ms) h"
  "k \<le> length h \<Longrightarrow> safe (depl t k) (glb_statusAddLoadBalancerId t lb vips domains) h"
  "k \<le> length h \<Longrightarrow> safe (depl t k) (glb_statusClearCreatedResources t) h"
  unfolding glb_statusAddListener_def glb_statusUpdatePoolMember_def glb_statusAddLoadBalancerId_def glb_statusClearCreatedResources_def
  by (auto intro!: adds.safe_if adds.safe_failM safe_depl_patch)

lemma safe_depl_createdGroup: "safe (depl t k) (createdGroupOf ms spec) h"
  unfolding createdGroupOf_def by (intro safe_intro)

lemma safe_depl_members:
  assumes lb: "onLB t (drop k h) lb" and pool: "pool \<in> set (gsp_GlobalPools (gt_Spec t))" "isPoolOf (drop k h) lb (gp_Name pool) i"
    and k: "k \<le> length h"
  shows "safe (depl t k) (deployPoolMembers t lb i n (gp_PoolMembers pool)) h"
  unfolding deployPoolMembers_def ListGlobalPoolMembers_def PatchGlobalPoolMembers_def
proof (intro safe_intro safe_depl_wait safe_depl_createdGroup safe_depl_status)
  fix ms h1 acts
  assume g: "depl t k h h1"
    and read: "wrapErr (errorf (''list members of pool '' @ i @ '' on LB '' @ lb))
      (askLog (GcListMembers lb i) (\<lambda>h. c_ListMembers (gt_world t) h lb i)) h = (Inr ms, h1)"
    and acts: "buildPatchGlobalPoolMemberRequest t lb i ms (gp_PoolMembers pool) = Some acts"
  from read k have "GcListMembers lb i (Inr ms) \<in> set (drop k h1)" by (auto simp: askLog_iff)
  with acts pool onLB_more[OF lb guarded_more[OF g k]] isPoolOf_more[OF pool(2) guarded_more[OF g k]]
  show "deployCall t (drop k h1) (GcPatchMembers lb i acts (c_PatchMembers (gt_world t) h1 lb i acts))"
    by (auto simp: deployCall_def)
next
  fix listed h1 u h2 h3 ms h4
  assume "depl t k h h1" "depl t k h1 h2" "depl t k h2 h3"
  then show "k \<le> length h3" by (meson guarded_longer k)
qed simp_all

lemma gcp_Name_build [simp]: "gcp_Name (glb_buildCreatePoolRequest t lb pool) = gp_Name pool"
  by (simp add: glb_buildCreatePoolRequest_def Let_def)

lemma safe_depl_createPool:
  assumes lb: "onLB t (drop k h) lb" and pool: "pool \<in> set (gsp_GlobalPools (gt_Spec t))"
    and ps: "GcListPools lb (Inr ps) \<in> set (drop k h)" "gp_Name pool \<notin> egp_Name ` set ps" and k: "k \<le> length h"
  shows "safe (depl t k) (glb_createPool t lb pool) h"
  unfolding glb_createPool_def CreateGlobalPool_def
proof (intro safe_intro safe_depl_wait)
  show "deployCall t (drop k h) (GcCreatePool lb (glb_buildCreatePoolRequest t lb pool)
      (c_CreatePool (gt_world t) h lb (glb_buildCreatePoolRequest t lb pool)))"
    using lb pool ps by (auto simp: deployCall_def)
  fix p h1
  assume g1: "depl t k h h1" and made: "askLog (GcCreatePool lb (glb_buildCreatePoolRequest t lb pool))
      (\<lambda>h. c_CreatePool (gt_world t) h lb (glb_buildCreatePoolRequest t lb pool)) h = (Inr p, h1)"
  from guarded_longer[OF g1 k] show "safe (depl t k) (glb_statusUpdatePoolMember t (egp_ID p) (gp_Name pool) []) h1"
    by (rule safe_depl_status)
  fix u h2 v h3
  assume g2: "depl t k h1 h2" and g3: "depl t k h2 h3"
  from made k have "GcCreatePool lb (glb_buildCreatePoolRequest t lb pool) (Inr p) \<in> set (drop k h1)" by (auto simp: askLog_iff)
  then have "isPoolOf (drop k h1) lb (gp_Name pool) (egp_ID p)" unfolding isPoolOf_def by fastforce
  moreover from g1 g2 g3 k have "set (drop k h1) \<subseteq> set (drop k h3)" "set (drop k h) \<subseteq> set (drop k h3)" "k \<le> length h3"
    using guarded_more guarded_longer by (meson subset_trans)+
  ultimately show "safe (depl t k) (deployPoolMembers t lb (egp_ID p) (gp_Name pool) (gp_PoolMembers pool)) h3"
    using lb pool by (intro safe_depl_members) (auto intro: onLB_more isPoolOf_more)
qed

lemma safe_depl_updatePool:
  assumes lb: "onLB t (drop k h) lb" and pool: "pool \<in> set (gsp_GlobalPools (gt_Spec t))"
    and p: "GcListPools lb (Inr ps) \<in> set (drop k h)" "p \<in> set ps" "egp_Name p = gp_Name pool" and k: "k \<le> length h"
  shows "safe (depl t k) (glb_updatePool t lb pool p) h"
  unfolding glb_updatePool_def UpdateGlobalPool_def
proof (intro safe_intro safe_depl_wait)
  show "deployCall t (drop k h) (GcUpdatePool lb (egp_ID p) r (c_UpdatePool (gt_world t) h lb (egp_ID p) r))"
    if "glb_buildPoolUpdateRequest t lb pool p = Some r" for r
    using that lb pool p by (auto simp: deployCall_def)
  fix h1
  assume g: "depl t k h h1"
  have "isPoolOf (drop k h) lb (gp_Name pool) (egp_ID p)" using p unfolding isPoolOf_def by blast
  with lb pool guarded_more[OF g k] guarded_longer[OF g k]
  show "safe (depl t k) (deployPoolMembers t lb (egp_ID p) (egp_Name p) (gp_PoolMembers pool)) h1"
    by (intro safe_depl_members) (auto intro: onLB_more isPoolOf_more)
qed

lemma find_name_None: "find (\<lambda>x. f x = n) xs = None \<longleftrightarrow> n \<notin> f ` set xs"
  by (auto simp: find_None_iff)

lemma safe_depl_pools:
  assumes lb: "onLB t (drop k h) lb" and k: "k \<le> length h"
  shows "safe (depl t k) (glb_deployPools t lb) h"
  unfolding glb_deployPools_def ListGlobalPools_def
proof (intro safe_intro)
  fix ps h1 pool h2
  assume g: "depl t k h h1" "depl t k h1 h2" and pool: "pool \<in> set (gsp_GlobalPools (gt_Spec t))"
    and read: "askLog (GcListPools lb) (\<lambda>h. c_ListPools (gt_world t) h lb) h = (Inr ps, h1)"
  from read k have "GcListPools lb (Inr ps) \<in> set (drop k h1)" by (auto simp: askLog_iff)
  with guarded_more[OF g(2) guarded_longer[OF g(1) k]] have ps: "GcListPools lb (Inr ps) \<in> set (drop k h2)" by auto
  have k2: "k \<le> length h2" by (meson g guarded_longer k)
  have lb2: "onLB t (drop k h2) lb" by (meson g guarded_longer guarded_more k lb onLB_more)
  show "safe (depl t k) (glb_deployPool t lb pool ps) h2"
    unfolding glb_deployPool_def
    by (intro adds.safe_case_option safe_depl_createPool[OF lb2 pool ps _ k2] safe_depl_updatePool[OF lb2 pool ps _ _ k2])
      (auto simp: find_name_None dest: find_key_SomeD)
qed simp_all

text \<open>Listeners.\<close>

lemma isListenerOn_more: "isListenerOn es lb port x \<Longrightarrow> set es \<subseteq> set es' \<Longrightarrow> isListenerOn es' lb port x"
  unfolding isListenerOn_def by blast

lemma gcl_Port_build [simp]: "gcl_Port (glb_buildCreateListenerRequest t lb l ps) = gl_ProtocolPort l"
  by (simp add: glb_buildCreateListenerRequest_def Let_def)

lemma safe_depl_createListener:
  assumes lb: "onLB t (drop k h) lb" and l: "l \<in> set (gsp_GlobalListeners (gt_Spec t))"
    and ls: "GcListListeners lb (Inr ls) \<in> set (drop k h)" "gl_ProtocolPort l \<notin> egl_Port ` set ls" and k: "k \<le> length h"
  shows "safe (depl t k) (glb_createListener t lb l newP) h"
  unfolding glb_createListener_def CreateGlobalListener_def GetGlobalListener_def
proof (intro safe_intro safe_depl_wait safe_depl_status)
  show "deployCall t (drop k h) (GcCreateListener lb (glb_buildCreateListenerRequest t lb l newP)
      (c_CreateListener (gt_world t) h lb (glb_buildCreateListenerRequest t lb l newP)))"
    using lb l ls by (auto simp: deployCall_def)
next
  fix h1 assume "depl t k h h1" then show "k \<le> length h1" by (rule guarded_longer[OF _ k])
qed simp

lemma createListener_result:
  assumes "glb_createListener t lb l newP h = (Inr x, h')" and k: "k \<le> length h"
  shows "isListenerOn (drop k h') lb (gl_ProtocolPort l) x"
proof -
  from assms obtain y h1 h2 h3 u v where made: "h1 = h @ [GcCreateListener lb (glb_buildCreateListenerRequest t lb l newP) (Inr y)]"
    and status: "glb_statusAddListener t (egl_ID y) (gl_ProtocolPort l) (gl_Name l) h1 = (Inr u, h2)"
    and wait: "WaitGlobalLoadBalancerActive t lb h2 = (Inr v, h3)"
    and got: "h' = h3 @ [GcGetListener lb (egl_ID y) (Inr x)]"
    by (auto simp: glb_createListener_def CreateGlobalListener_def GetGlobalListener_def andThen_Inr_iff askLog_iff)
  from made k have k1: "k \<le> length h1" by simp
  from adds.safeD[OF safe_depl_status(1)[OF k1] status] have g1: "depl t k h1 h2" .
  from adds.safeD[OF safe_depl_wait wait] have g2: "depl t k h2 h3" .
  from made k have "GcCreateListener lb (glb_buildCreateListenerRequest t lb l newP) (Inr y) \<in> set (drop k h1)" by simp
  with guarded_more[OF g1 k1] guarded_more[OF g2 guarded_longer[OF g1 k1]]
  have "GcCreateListener lb (glb_buildCreateListenerRequest t lb l newP) (Inr y) \<in> set (drop k h')"
    "GcGetListener lb (egl_ID y) (Inr x) \<in> set (drop k h')"
    using got guarded_longer[OF g2 guarded_longer[OF g1 k1]] by auto
  then show ?thesis unfolding isListenerOn_def by fastforce
qed

lemma safe_depl_listener:
  assumes lb: "onLB t (drop k h) lb" and l: "l \<in> set (gsp_GlobalListeners (gt_Spec t))"
    and ls: "GcListListeners lb (Inr ls) \<in> set (drop k h)" and k: "k \<le> length h"
  shows "safe (depl t k) (glb_deployListener t lb l ls newP) h"
  unfolding glb_deployListener_def UpdateGlobalListener_def
proof (intro safe_intro safe_depl_wait safe_depl_createListener[OF lb l ls _ k] safe_depl_status)
  show "gl_ProtocolPort l \<notin> egl_Port ` set ls" if "find (\<lambda>x. egl_Port x = gl_ProtocolPort l) ls = None"
    using that by (simp add: find_name_None)
next
  fix x h1 r
  assume run: "(case find (\<lambda>x. egl_Port x = gl_ProtocolPort l) ls of None \<Rightarrow> glb_createListener t lb l newP | Some x \<Rightarrow> returnM x) h = (Inr x, h1)"
    and g: "depl t k h h1" and same: "\<not> egl_Protocol x \<noteq> gl_Protocol l"
    and r: "glb_buildListenerUpdateRequest lb l x newP = Some r"
  have "isListenerOn (drop k h1) lb (gl_ProtocolPort l) x"
  proof (cases "find (\<lambda>x. egl_Port x = gl_ProtocolPort l) ls")
    case None
    with run k show ?thesis by (auto intro: createListener_result)
  next
    case (Some y)
    with run ls find_key_SomeD[OF Some] show ?thesis unfolding isListenerOn_def by auto
  qed
  with lb l same r onLB_more[OF lb guarded_more[OF g k]]
  show "deployCall t (drop k h1) (GcUpdateListener lb (egl_ID x) r (c_UpdateListener (gt_world t) h1 lb (egl_ID x) r))"
    by (auto simp: deployCall_def)
next
  fix h1 h2 assume "depl t k h h1" "depl t k h1 h2" then show "k \<le> length h2" by (meson guarded_longer k)
qed

lemma safe_depl_listeners:
  assumes lb: "onLB t (drop k h) lb" and k: "k \<le> length h"
  shows "safe (depl t k) (glb_deployListeners t lb newP) h"
  unfolding glb_deployListeners_def ListGlobalListeners_def
proof (intro safe_intro)
  fix ls h1 l h2
  assume g: "depl t k h h1" "depl t k h1 h2" and l: "l \<in> set (gsp_GlobalListeners (gt_Spec t))"
    and read: "askLog (GcListListeners lb) (\<lambda>h. c_ListListeners (gt_world t) h lb) h = (Inr ls, h1)"
  from read k have "GcListListeners lb (Inr ls) \<in> set (drop k h1)" by (auto simp: askLog_iff)
  with guarded_more[OF g(2) guarded_longer[OF g(1) k]] have ls: "GcListListeners lb (Inr ls) \<in> set (drop k h2)" by auto
  show "safe (depl t k) (glb_deployListener t lb l ls newP) h2"
    by (rule safe_depl_listener[OF _ l ls]) (meson g guarded_longer guarded_more k lb onLB_more)+
qed simp_all

section \<open>The load balancer\<close>

lemma wait_shows:
  assumes "WaitGlobalLoadBalancerActive t i h = (r, h')" and "k \<le> length h"
  shows "(\<forall>lb. r = Inr lb \<longrightarrow> GcGetLB i (Inr lb) \<in> set (drop k h'))
    \<and> (r = Inl ErrorLoadBalancerStatusError \<longrightarrow> brokenLB (drop k h') i)"
proof -
  have "(\<forall>lb. r = Inr lb \<longrightarrow> GcGetLB i (Inr lb) \<in> set (drop k h'))
    \<and> (r = Inl ErrorLoadBalancerStatusError \<longrightarrow> brokenLB (drop k h') i)"
    if "pollGlobalLoadBalancer t i n h = (r, h')" "k \<le> length h" for n
    using that
  proof (induction n arbitrary: h)
    case (Suc n)
    show ?case
    proof (cases "c_GetLB (gt_world t) h i")
      case (Inl err)
      with Suc.prems show ?thesis
        by (auto simp: andThen_def GetGlobalLoadBalancerByID_def brokenLB_def)
    next
      case (Inr lb)
      let ?h = "h @ [GcGetLB i (Inr lb)]"
      from Suc.prems(1) Inr have "(if ToUpper (eglb_Status lb) = ''ACTIVE'' then returnM lb
          else if ToUpper (eglb_Status lb) = ''ERROR'' then failM ErrorLoadBalancerStatusError
          else pollGlobalLoadBalancer t i n) ?h = (r, h')"
        by (simp add: andThen_def GetGlobalLoadBalancerByID_def)
      with Suc.prems(2) Suc.IH[of ?h] show ?thesis by (auto simp: brokenLB_def split: if_splits)
    qed
  qed auto
  with assms show ?thesis unfolding WaitGlobalLoadBalancerActive_def by blast
qed

lemma safe_depl_package:
  assumes "GcGetLB i (Inr lb) \<in> set (drop k h)"
  shows "safe (depl t k) (glb_deployPackageId t lb) h"
  unfolding glb_deployPackageId_def glb_ResizeLoadBalancer_def
proof (intro safe_intro safe_depl_wait)
  assume "\<not> \<not> nonempty (gsp_PackageId (gt_Spec t))" and differ: "deref (gsp_PackageId (gt_Spec t)) \<noteq> eglb_Package lb"
  then have "gsp_PackageId (gt_Spec t) = Some (deref (gsp_PackageId (gt_Spec t)))"
    by (cases "gsp_PackageId (gt_Spec t)") simp_all
  with differ assms
  show "deployCall t (drop k h) (GcResizeLB (eglb_ID lb) (deref (gsp_PackageId (gt_Spec t)))
      (c_ResizeLB (gt_world t) h (eglb_ID lb) (deref (gsp_PackageId (gt_Spec t)))))"
    unfolding deployCall_def by fastforce
qed

lemma safe_depl_ensureExist:
  assumes "k \<le> length h"
  shows "safe (depl t k) (glb_ensureExistLoadBalancer t i e) h"
  unfolding glb_ensureExistLoadBalancer_def GetGlobalLoadBalancerByID_def
proof (intro safe_intro safe_depl_wait safe_depl_status)
  fix h1 lb h2
  assume "depl t k h h1" and wait: "WaitGlobalLoadBalancerActive t i h1 = (Inr lb, h2)"
  from guarded_longer[OF this(1) assms] have k: "k \<le> length h1" .
  from wait_shows[OF wait k] have lb: "GcGetLB i (Inr lb) \<in> set (drop k h2)" by blast
  assume g: "depl t k h1 h2"
  from guarded_longer[OF g k] show k2: "k \<le> length h2" .
  fix h3 assume "depl t k h2 h3"
  from guarded_seen[OF this k2 lb] show "safe (depl t k) (glb_deployPackageId t lb) h3" by (rule safe_depl_package)
qed simp_all

lemma ensureExist_result: "glb_ensureExistLoadBalancer t i e h = (Inr x, h') \<Longrightarrow> x = i"
  by (auto simp: glb_ensureExistLoadBalancer_def andThen_Inr_iff case_prod_beta split: if_splits)

lemma createRequest_name: "glb_buildCreateLoadBalancerRequest t h = (Inr r, h') \<Longrightarrow> gcb_Name r = gsp_Name (gt_Spec t)"
  by (auto simp: glb_buildCreateLoadBalancerRequest_def andThen_Inr_iff Let_def)

lemma safe_depl_createRequest: "safe (depl t k) (glb_buildCreateLoadBalancerRequest t) h"
  unfolding glb_buildCreateLoadBalancerRequest_def glb_buildPackageId_def ListGlobalPackages_def
  by (intro safe_intro) simp_all

lemma safe_depl_awaitCreated:
  assumes made: "GcCreateLB r (Inr (Some x)) \<in> set (drop k h)" and k: "k \<le> length h"
  shows "safe (depl t k) (glb_awaitCreated t (eglb_ID x)) h"
  unfolding glb_awaitCreated_def DeleteGlobalLoadBalancer_def
proof (intro safe_intro safe_depl_wait safe_depl_status)
  fix res h1 err h2
  assume g: "depl t k h h1" and wait: "attempt (WaitGlobalLoadBalancerActive t (eglb_ID x)) h = (Inr res, h1)"
    and "res = Inl err" "err = ErrorLoadBalancerStatusError"
  then have broken: "brokenLB (drop k h1) (eglb_ID x)" using wait_shows[of t "eglb_ID x" h res h1 k] k by auto
  from guarded_longer[OF g k] show k1: "k \<le> length h1" .
  assume g2: "depl t k h1 h2"
  from broken guarded_more[OF g2 k1] have "brokenLB (drop k h2) (eglb_ID x)" unfolding brokenLB_def by blast
  moreover from guarded_seen[OF g2 k1 guarded_seen[OF g k made]]
  have "GcCreateLB r (Inr (Some x)) \<in> set (drop k h2)" .
  ultimately show "deployCall t (drop k h2) (GcDeleteLB (eglb_ID x) (c_DeleteLB (gt_world t) h2 (eglb_ID x)))"
    unfolding deployCall_def by auto
qed

lemma safe_depl_createLB:
  assumes none: "\<not> nonempty (gst_LoadBalancerId (gt_Status t))" "\<not> nonempty (gsp_LoadBalancerId (gt_Spec t))"
    and name: "gsp_Name (gt_Spec t) = [] \<or> (\<exists>lbs. GcListLBs (Inr lbs) \<in> set (drop k h) \<and> gsp_Name (gt_Spec t) \<notin> eglb_Name ` set lbs)"
    and k: "k \<le> length h"
  shows "safe (depl t k) (glb_createLoadBalancer t) h"
  unfolding glb_createLoadBalancer_def CreateGlobalLoadBalancer_def
proof (intro safe_intro safe_depl_createRequest safe_depl_status)
  fix r h1
  assume g: "depl t k h h1" and req: "glb_buildCreateLoadBalancerRequest t h = (Inr r, h1)"
  from guarded_more[OF g k] name
  have "gsp_Name (gt_Spec t) = [] \<or> (\<exists>lbs. GcListLBs (Inr lbs) \<in> set (drop k h1) \<and> gsp_Name (gt_Spec t) \<notin> eglb_Name ` set lbs)"
    by blast
  with none createRequest_name[OF req] show "deployCall t (drop k h1) (GcCreateLB r (c_CreateLB (gt_world t) h1 r))"
    by (simp add: deployCall_def)
  fix created h2 x h3
  assume g2: "depl t k h1 h2" and g3: "depl t k h2 h3" and created: "created = Some x"
    and made: "askLog (GcCreateLB r) (\<lambda>h. c_CreateLB (gt_world t) h r) h1 = (Inr created, h2)"
  have k1: "k \<le> length h1" and k2: "k \<le> length h2" using g g2 k by (meson guarded_longer)+
  from made created k1 have "GcCreateLB r (Inr (Some x)) \<in> set (drop k h2)" by (auto simp: askLog_iff)
  from guarded_seen[OF g3 k2 this] guarded_longer[OF g3 k2]
  show "safe (depl t k) (glb_awaitCreated t (eglb_ID x)) h3" by (rule safe_depl_awaitCreated)
next
  fix h1 h2 assume "depl t k h h1" "depl t k h1 h2" then show "k \<le> length h2" by (meson guarded_longer k)
next
  fix h1 h2 h3 h4 and x :: entity_GlobalLoadBalancer
  assume "depl t k h h1" "depl t k h1 h2" "depl t k h2 h3" "depl t k h3 h4"
  then have "k \<le> length h4" by (meson guarded_longer k)
  then show "safe (depl t k) (glb_ensureExistLoadBalancer t (eglb_ID x) None) h4" by (rule safe_depl_ensureExist)
qed

lemma createLB_result:
  assumes "glb_createLoadBalancer t h = (Inr lb, h')" and k: "k \<le> length h"
    and none: "\<not> nonempty (gst_LoadBalancerId (gt_Status t))" "\<not> nonempty (gsp_LoadBalancerId (gt_Spec t))"
  shows "onLB t (drop k h') lb"
proof -
  from assms(1) obtain r h1 x h2 u h3 v h4 vips domains where req: "glb_buildCreateLoadBalancerRequest t h = (Inr r, h1)"
    and h2: "h2 = h1 @ [GcCreateLB r (Inr (Some x))]"
    and st: "glb_statusAddLoadBalancerId t (Some (eglb_ID x)) vips domains h2 = (Inr u, h3)"
    and aw: "glb_awaitCreated t (eglb_ID x) h3 = (Inr v, h4)"
    and en: "glb_ensureExistLoadBalancer t (eglb_ID x) None h4 = (Inr lb, h')"
    by (auto simp: glb_createLoadBalancer_def CreateGlobalLoadBalancer_def andThen_Inr_iff askLog_iff case_prod_beta
        split: option.splits if_splits)
  from adds.safeD[OF safe_depl_createRequest req] have "depl t k h h1" .
  from guarded_longer[OF this k] have k1: "k \<le> length h1" .
  with h2 have made: "GcCreateLB r (Inr (Some x)) \<in> set (drop k h2)" and k2: "k \<le> length h2" by auto
  note g3 = adds.safeD[OF safe_depl_status(3)[OF k2] st]
  note k3 = guarded_longer[OF g3 k2]
  note made3 = guarded_seen[OF g3 k2 made]
  note g4 = adds.safeD[OF safe_depl_awaitCreated[OF made3 k3] aw]
  note k4 = guarded_longer[OF g4 k3]
  note g5 = adds.safeD[OF safe_depl_ensureExist[OF k4] en]
  from guarded_seen[OF g5 k4 guarded_seen[OF g4 k3 made3]] ensureExist_result[OF en]
  show ?thesis unfolding onLB_def by auto
qed

section \<open>A deploy\<close>

text \<open>
  The guard of a whole deploy that starts with the calls \<open>h0\<close> made: what it creates and updates follows
  \<open>deployCall\<close>. It cleans up in two places only: on the recorded load balancer when the spec names another one,
  with nothing wanted; and on the config's load balancer after every pool and every listener of the
  spec has been deployed there, with the deployed ones wanted.
\<close>

definition allDeployed ::
  "glbTask \<Rightarrow> string \<Rightarrow> CreatedGlobalPool list \<Rightarrow> CreatedGlobalListener list \<Rightarrow> glbHistory \<Rightarrow> glbHistory \<Rightarrow> bool" where
  "allDeployed t lb newP newL h0 es \<longleftrightarrow>
     (\<exists>es1 h2 h3 es2. glb_deployPools t lb (h0 @ es1) = (Inr newP, h2) \<and> glb_deployListeners t lb newP h2 = (Inr newL, h3)
        \<and> h0 @ es = h3 @ es2)"

definition migrating :: "glbTask \<Rightarrow> string \<Rightarrow> bool" where
  "migrating t lb \<longleftrightarrow> gst_LoadBalancerId (gt_Status t) = Some lb \<and> lb \<noteq> []
     \<and> nonempty (gsp_LoadBalancerId (gt_Spec t)) \<and> gsp_LoadBalancerId (gt_Spec t) \<noteq> Some lb"

definition glbDeployCall :: "glbTask \<Rightarrow> glbHistory \<Rightarrow> glbEvent list \<Rightarrow> glbEvent \<Rightarrow> bool" where
  "glbDeployCall t h0 es e \<longleftrightarrow>
     deployCall t es e
     \<or> (\<exists>lb. migrating t lb \<and> cleanupCall t lb [] [] es e)
     \<or> (\<exists>lb newP newL. onLB t es lb \<and> allDeployed t lb newP newL h0 es \<and> cleanupCall t lb newL newP es e)"

lemma grow_guarded: "guarded k G h h' \<Longrightarrow> \<exists>es. h' = h @ es"
  by (auto simp: addsR_def)

lemma allDeployed_more: "allDeployed t lb newP newL h0 es \<Longrightarrow> allDeployed t lb newP newL h0 (es @ es')"
  unfolding allDeployed_def by (metis append.assoc)

lemma safe_glbDeploy_deploy:
  "safe (depl t (length h0)) m h \<Longrightarrow> safe (guarded (length h0) (glbDeployCall t h0)) m h"
  by (erule safe_guarded_weaken) (simp add: glbDeployCall_def)

lemma safe_glbDeploy_migrate:
  assumes "migrating t lb" and "safe (guarded (length h0) (cleanupCall t lb [] [])) m h"
  shows "safe (guarded (length h0) (glbDeployCall t h0)) m h"
  using assms(2) by (rule safe_guarded_weaken) (use assms(1) in \<open>auto simp: glbDeployCall_def\<close>)

lemma safe_glbDeploy_cleanup:
  assumes "onLB t es lb" and "allDeployed t lb newP newL h0 es"
    and "safe (guarded (length h0) (cleanupCall t lb newL newP)) m (h0 @ es)"
  shows "safe (guarded (length h0) (glbDeployCall t h0)) m (h0 @ es)"
  using assms(3)
proof (rule safe_guarded_weaken)
  fix es' e assume "cleanupCall t lb newL newP (drop (length h0) ((h0 @ es) @ es')) e"
  moreover have "onLB t (es @ es') lb" using assms(1) by (rule onLB_more) auto
  moreover have "allDeployed t lb newP newL h0 (es @ es')" using assms(2) by (rule allDeployed_more)
  ultimately show "glbDeployCall t h0 (drop (length h0) ((h0 @ es) @ es')) e"
    unfolding glbDeployCall_def by auto
qed

lemma safe_glbDeploy_teardown:
  assumes mig: "migrating t lb" and k: "length h0 \<le> length h"
  shows "safe (guarded (length h0) (glbDeployCall t h0)) (glb_teardownOnLoadBalancer t lb) h"
  unfolding glb_teardownOnLoadBalancer_def GetGlobalLoadBalancerByID_def
proof (intro safe_intro safe_glbDeploy_migrate[OF mig safe_deleteRedundantListenersCalls]
    safe_glbDeploy_migrate[OF mig safe_deleteRedundantPoolsCalls] safe_glbDeploy_deploy[OF safe_depl_status(4)])
  fix h1 assume "guarded (length h0) (glbDeployCall t h0) h h1"
  from guarded_longer[OF this k] show k1: "length h0 \<le> length h1" .
  fix h2 assume "guarded (length h0) (glbDeployCall t h0) h1 h2"
  from guarded_longer[OF this k1] show k2: "length h0 \<le> length h2" .
  fix h3 assume "guarded (length h0) (glbDeployCall t h0) h2 h3"
  from guarded_longer[OF this k2] show "length h0 \<le> length h3" .
qed (simp add: glbDeployCall_def)

lemma safe_glbDeploy_loadBalancer:
  "safe (guarded (length h0) (glbDeployCall t h0)) (glb_deployLoadBalancer t) h0"
  unfolding glb_deployLoadBalancer_def glb_migrateLoadBalancer_def GetGlobalLoadBalancerByName_def ListGlobalLoadBalancers_def Let_def
proof (intro adds.safe_if adds.safe_andThen adds.safe_failM adds.safe_returnM adds.safe_case_option safe_glbDeploy_teardown
    safe_glbDeploy_deploy[OF safe_depl_ensureExist] safe_glbDeploy_deploy[OF safe_depl_createLB] safe_guarded_ask)
  assume "nonempty (gst_LoadBalancerId (gt_Status t))"
    and "nonempty (gsp_LoadBalancerId (gt_Spec t)) \<and> deref (gsp_LoadBalancerId (gt_Spec t)) \<noteq> deref (gst_LoadBalancerId (gt_Status t))"
  then show "migrating t (deref (gst_LoadBalancerId (gt_Status t)))"
    by (cases "gst_LoadBalancerId (gt_Status t)") (auto simp: migrating_def)
next
  fix lbs h1 found h2
  assume "andThen (askLog GcListLBs (c_ListLBs (gt_world t))) (\<lambda>allGLBs. returnM (find (\<lambda>glb. eglb_Name glb = gsp_Name (gt_Spec t)) allGLBs)) h0
      = (Inr found, h2)" and "found = None"
  then show "gsp_Name (gt_Spec t) = [] \<or> (\<exists>lbs. GcListLBs (Inr lbs) \<in> set (drop (length h0) h2) \<and> gsp_Name (gt_Spec t) \<notin> eglb_Name ` set lbs)"
    by (auto simp: andThen_Inr_iff askLog_iff find_name_None)
qed (auto simp: glbDeployCall_def dest: guarded_longer)

lemma deployLoadBalancer_result:
  assumes "glb_deployLoadBalancer t h0 = (Inr lb, h')"
  shows "onLB t (drop (length h0) h') lb"
proof (cases "nonempty (gst_LoadBalancerId (gt_Status t))")
  case True
  with assms have "glb_ensureExistLoadBalancer t (deref (gst_LoadBalancerId (gt_Status t))) None h0 = (Inr lb, h')"
    by (auto simp: glb_deployLoadBalancer_def Let_def andThen_Inr_iff split: if_splits)
  from ensureExist_result[OF this] True show ?thesis by (cases "gst_LoadBalancerId (gt_Status t)") (auto simp: onLB_def)
next
  case False
  with assms obtain h1 where none: "\<not> nonempty (gsp_LoadBalancerId (gt_Spec t))" and create: "glb_createLoadBalancer t h1 = (Inr lb, h')"
    and h1: "length h0 \<le> length h1"
    by (auto simp: glb_deployLoadBalancer_def Let_def andThen_Inr_iff GetGlobalLoadBalancerByName_def
        ListGlobalLoadBalancers_def askLog_iff split: if_splits option.splits)
  from createLB_result[OF create h1 False none] show ?thesis .
qed

lemma glb_deploy_guarded: "safe (addsR id (ofRun (length h0) (glbDeployCall t h0))) (glb_deploy t) h0"
  unfolding glb_deploy_def glb_validateSelf_def glb_validateCrossGLBCs_def
proof (intro adds.safe_andThen adds.safe_returnM)
  let ?G = "guarded (length h0) (glbDeployCall t h0)"
  fix u h01
  assume "returnM () h0 = (Inr u, h01)" then have h01 [simp]: "h01 = h0" by simp
  show "safe ?G (glb_deployLoadBalancer t) h01" by (simp add: safe_glbDeploy_loadBalancer)
  fix lb h1 v h11
  assume lb: "glb_deployLoadBalancer t h01 = (Inr lb, h1)" and g1: "?G h01 h1" and "returnM () h1 = (Inr v, h11)"
  then have h11 [simp]: "h11 = h1" by simp
  from grow_guarded[OF g1] obtain es1 where h1: "h1 = h0 @ es1" by auto
  from deployLoadBalancer_result[of t h0 lb h1] lb h1 have on1: "onLB t es1 lb" by simp
  show "safe ?G (glb_deployPools t lb) h11"
    using on1 h1 by (intro safe_glbDeploy_deploy safe_depl_pools) simp_all
  fix newP h2
  assume P: "glb_deployPools t lb h11 = (Inr newP, h2)" and g2: "?G h11 h2"
  from grow_guarded[OF g2] h1 obtain es2 where h2: "h2 = h0 @ es1 @ es2" by auto
  have on2: "onLB t (es1 @ es2) lb" using on1 by (rule onLB_more) auto
  show "safe ?G (glb_deployListeners t lb newP) h2"
    using on2 h2 by (intro safe_glbDeploy_deploy safe_depl_listeners) simp_all
  fix newL h3
  assume L: "glb_deployListeners t lb newP h2 = (Inr newL, h3)" and g3: "?G h2 h3"
  from grow_guarded[OF g3] h2 obtain es3 where h3: "h3 = h0 @ es1 @ es2 @ es3" by auto
  have on3: "onLB t (es1 @ es2 @ es3) lb" using on1 by (rule onLB_more) auto
  have all: "allDeployed t lb newP newL h0 (es1 @ es2 @ es3)"
    unfolding allDeployed_def using P L h1 h3 by (metis append.right_neutral h11)
  show "safe ?G (glb_deleteRedundantListeners t lb newL newP) h3"
    unfolding h3 by (rule safe_glbDeploy_cleanup[OF on3 all], rule safe_deleteRedundantListenersCalls) simp
  fix w h4
  assume "?G h3 h4"
  from grow_guarded[OF this] h3 obtain es4 where h4: "h4 = h0 @ (es1 @ es2 @ es3) @ es4" by auto
  have on4: "onLB t ((es1 @ es2 @ es3) @ es4) lb" using on3 by (rule onLB_more) auto
  show "safe ?G (glb_deleteRedundantPools t lb newP) h4"
    unfolding h4 by (rule safe_glbDeploy_cleanup[OF on4 allDeployed_more[OF all]], rule safe_deleteRedundantPoolsCalls) simp
  fix x h5
  assume "?G h4 h5"
  from grow_guarded[OF this] h4 obtain es5 where "h5 = h0 @ (es1 @ es2 @ es3) @ es4 @ es5" by auto
  then show "safe ?G (glbPatch t (mutDeployed newL newP)) h5"
    by (intro safe_glbDeploy_deploy safe_depl_patch) simp
qed


end
