(* ===== verification/Glb_Reconcile.thy ===== *)
theory Glb_Reconcile
  imports Glb_Deploys
begin

text \<open>
  A whole reconcile of a GlobalLoadBalancerConfig: the order of its calls, and what has to be seen before
  the finalizer goes.
\<close>

section \<open>The end of a teardown\<close>

text \<open>
  Nothing is left to do: no load balancer is on record, it is gone or was deleted in this run, or the
  last look at it, after the cleanup, found something on it that is not ours to take.
\<close>

definition tornDown :: "glbTask \<Rightarrow> glbEvent list \<Rightarrow> bool" where
  "tornDown t es \<longleftrightarrow>
     \<not> nonempty (gst_LoadBalancerId (gt_Status t))
     \<or> (\<exists>lb. gst_LoadBalancerId (gt_Status t) = Some lb
          \<and> ((\<exists>err. GcGetLB lb (Inl err) \<in> set es \<and> IsGlobalLoadBalancerNotFound err)
             \<or> GcDeleteLB lb (Inr ()) \<in> set es
             \<or> es \<noteq> [] \<and> ((\<exists>ls. last es = GcListListeners lb (Inr ls) \<and> ls \<noteq> [])
                          \<or> (\<exists>ps. last es = GcListPools lb (Inr ps) \<and> ps \<noteq> []))))"

lemma isLoadBalancerEmpty_false:
  assumes "glb_isLoadBalancerEmpty t lb h = (Inr False, h')"
  shows "h' \<noteq> h \<and> ((\<exists>ls. last h' = GcListListeners lb (Inr ls) \<and> ls \<noteq> []) \<or> (\<exists>ps. last h' = GcListPools lb (Inr ps) \<and> ps \<noteq> []))"
  using assms by (auto simp: glb_isLoadBalancerEmpty_def ListGlobalListeners_def ListGlobalPools_def andThen_Inr_iff
      askLog_iff split: if_splits)

lemma glb_delete_ends:
  assumes run: "glb_delete t h = (Inr (), h @ es)"
  shows "tornDown t es"
proof (cases "nonempty (gst_LoadBalancerId (gt_Status t))")
  case True
  then obtain lb where lb: "gst_LoadBalancerId (gt_Status t) = Some lb" by (cases "gst_LoadBalancerId (gt_Status t)") auto
  with run True have del: "glb_deleteLoadBalancer t lb h = (Inr (), h @ es)" by (simp add: glb_delete_def)
  have gone: "tornDown t es"
    if "GcDeleteLB lb (Inr ()) \<in> set es \<or> (\<exists>err. GcGetLB lb (Inl err) \<in> set es \<and> IsGlobalLoadBalancerNotFound err)"
    using that lb unfolding tornDown_def by blast
  show ?thesis
  proof (cases "c_GetLB (gt_world t) h lb")
    case (Inl err)
    with del have "IsGlobalLoadBalancerNotFound err" "es = [GcGetLB lb (Inl err)]"
      by (auto simp: glb_deleteLoadBalancer_def GetGlobalLoadBalancerByID_def andThen_def attempt_def split: if_splits)
    then show ?thesis by (intro gone) auto
  next
    case (Inr g)
    let ?h1 = "h @ [GcGetLB lb (Inr g)]"
    from del Inr obtain can h2 where can: "glb_canDeleteWholeLoadBalancer t lb ?h1 = (Inr can, h2)"
      and rest: "(if can then DeleteGlobalLoadBalancer t lb else glb_deleteLoadBalancerWhenNotEmpty t lb) h2 = (Inr (), h @ es)"
      by (auto simp: glb_deleteLoadBalancer_def GetGlobalLoadBalancerByID_def andThen_Inr_iff)
    have "safe (guarded (length ?h1) (\<lambda>_ _. True)) (glb_canDeleteWholeLoadBalancer t lb) ?h1"
      unfolding glb_canDeleteWholeLoadBalancer_def glb_coverPool_def ListGlobalListeners_def ListGlobalPools_def ListGlobalPoolMembers_def
      by (intro safe_intro safe_canCover TrueI)
    from grow_guarded[OF adds.safeD[OF this can]] obtain es2 where h2: "h2 = h @ GcGetLB lb (Inr g) # es2" by auto
    show ?thesis
    proof (cases can)
      case True
      with rest h2 have "es = GcGetLB lb (Inr g) # es2 @ [GcDeleteLB lb (Inr ())]"
        by (auto simp: DeleteGlobalLoadBalancer_def askLog_iff)
      then show ?thesis by (intro gone) auto
    next
      case False
      with rest obtain h3 h4 e h5 u v where L: "glb_deleteRedundantListeners t lb [] [] h2 = (Inr u, h3)"
        and P: "glb_deleteRedundantPools t lb [] h3 = (Inr v, h4)"
        and E: "glb_isLoadBalancerEmpty t lb h4 = (Inr e, h5)"
        and D: "(if e then DeleteGlobalLoadBalancer t lb else returnM ()) h5 = (Inr (), h @ es)"
        by (auto simp: glb_deleteLoadBalancerWhenNotEmpty_def andThen_Inr_iff)
      from grow_guarded[OF adds.safeD[OF safe_deleteRedundantListenersCalls[OF le_refl] L]]
        grow_guarded[OF adds.safeD[OF safe_deleteRedundantPoolsCalls[OF le_refl] P]] h2
      obtain es4 where h4: "h4 = h @ es4" by auto
      show ?thesis
      proof (cases e)
        case True
        from E h4 obtain es5 where "h5 = h @ es5"
          by (auto simp: glb_isLoadBalancerEmpty_def ListGlobalListeners_def ListGlobalPools_def andThen_Inr_iff askLog_iff
              split: if_splits)
        with D True have "es = es5 @ [GcDeleteLB lb (Inr ())]" by (auto simp: DeleteGlobalLoadBalancer_def askLog_iff)
        then show ?thesis by (intro gone) auto
      next
        case False
        with E h4 have "\<exists>es5. h5 = h @ es5 \<and> es5 \<noteq> []"
          by (auto simp: glb_isLoadBalancerEmpty_def ListGlobalListeners_def ListGlobalPools_def andThen_Inr_iff askLog_iff
              split: if_splits)
        with isLoadBalancerEmpty_false[of t lb h4 h5] E D False
        have "es \<noteq> [] \<and> ((\<exists>ls. last es = GcListListeners lb (Inr ls) \<and> ls \<noteq> []) \<or> (\<exists>ps. last es = GcListPools lb (Inr ps) \<and> ps \<noteq> []))"
          by auto
        with lb show ?thesis unfolding tornDown_def by blast
      qed
    qed
  qed
qed (simp add: tornDown_def)

section \<open>The calls of a reconcile\<close>

definition isRecord :: "glbEvent \<Rightarrow> bool" where
  "isRecord e \<longleftrightarrow> (case e of GcRecord _ _ _ \<Rightarrow> True | _ \<Rightarrow> False)"

text \<open>While the object is alive: the finalizer, then a fresh read, then the deploy of what was read.\<close>

definition ensureRunCall ::
  "glbUseCase \<Rightarrow> string \<Rightarrow> string \<Rightarrow> glbHistory \<Rightarrow> glbEvent list \<Rightarrow> glbEvent \<Rightarrow> bool" where
  "ensureRunCall uc ns n h1 es e \<longleftrightarrow>
     (es = [] \<and> (\<exists>r. e = GcAddFinalizers GlbcFinalizer r))
     \<or> (es = [GcAddFinalizers GlbcFinalizer (Inr ())] \<and> (\<exists>r. e = GcGetGLBC ns n r))
     \<or> (\<exists>cfg rest. es = GcAddFinalizers GlbcFinalizer (Inr ()) # GcGetGLBC ns n (Inr cfg) # rest
          \<and> glbDeployCall (glb_newTask uc cfg) (h1 @ [GcAddFinalizers GlbcFinalizer (Inr ()), GcGetGLBC ns n (Inr cfg)]) rest e)"

text \<open>Once it is marked for deletion: a fresh read, the teardown of what was read, then the finalizer.\<close>

definition deleteRunCall :: "glbUseCase \<Rightarrow> string \<Rightarrow> string \<Rightarrow> glbEvent list \<Rightarrow> glbEvent \<Rightarrow> bool" where
  "deleteRunCall uc ns n es e \<longleftrightarrow>
     (es = [] \<and> (\<exists>r. e = GcGetGLBC ns n r))
     \<or> (\<exists>err r. es = [GcGetGLBC ns n (Inl err)] \<and> c_IsNotFound (gu_world uc) err \<and> e = GcRemoveFinalizers GlbcFinalizer r)
     \<or> (\<exists>cfg rest. es = GcGetGLBC ns n (Inr cfg) # rest
          \<and> (glbDeleteCall (glb_newTask uc cfg) rest e
             \<or> tornDown (glb_newTask uc cfg) rest \<and> (\<exists>r. e = GcRemoveFinalizers GlbcFinalizer r)))"

definition glbRunCall ::
  "glbUseCase \<Rightarrow> string \<Rightarrow> string \<Rightarrow> glbHistory \<Rightarrow> glbEvent list \<Rightarrow> glbEvent \<Rightarrow> bool" where
  "glbRunCall uc ns n h0 es e \<longleftrightarrow>
     (es = [] \<and> (\<exists>r. e = GcGetGLBC ns n r))
     \<or> (\<exists>obj es1. es = GcGetGLBC ns n (Inr obj) # es1
          \<and> (isRecord e
             \<or> om_DeletionTimestamp (glbc_Meta obj) = None
                \<and> ensureRunCall uc ns n (h0 @ [GcGetGLBC ns n (Inr obj)]) es1 e
             \<or> om_DeletionTimestamp (glbc_Meta obj) \<noteq> None \<and> GlbcFinalizer \<in> set (om_Finalizers (glbc_Meta obj))
                \<and> deleteRunCall uc ns n es1 e))"

lemma isRecord_simp [simp]: "isRecord (GcRecord a b c)"
  by (simp add: isRecord_def)

lemma glb_HasFinalizer_iff: "glb_HasFinalizer obj f \<longleftrightarrow> f \<in> set (om_Finalizers (glbc_Meta obj))"
  by (auto simp: glb_HasFinalizer_def list_ex_iff)

text \<open>A part of a run, seen from its own start.\<close>

lemma safe_guarded_shift:
  assumes "safe (guarded (length (h @ pre)) G) m (h @ pre @ es0)"
    and "\<And>es e. G (es0 @ es) e \<Longrightarrow> G' (pre @ es0 @ es) e"
  shows "safe (guarded (length h) G') m (h @ pre @ es0)"
  using assms(1) by (rule safe_guarded_weaken) (use assms(2) in simp)

lemma safe_ensureRun:
  "safe (guarded (length h1) (ensureRunCall uc ns n h1)) (glbReconcileEnsure uc ns n) h1"
  unfolding glbReconcileEnsure_def EnsureGlobalLoadBalancerConfigUseCase_def glb_IgnoreNotFound_def
    glb_AddFinalizers_def GetGlobalLoadBalancerConfig_def
proof (intro safe_intro)
  let ?add = "GcAddFinalizers GlbcFinalizer (Inr ())"
  fix u h2
  assume add: "wrapErr glb_withMetrics (askLog (GcAddFinalizers GlbcFinalizer) (\<lambda>h. c_AddFinalizers (gu_world uc) h GlbcFinalizer)) h1 = (Inr u, h2)"
  then have h2: "h2 = h1 @ [?add]" by (auto simp: askLog_iff)
  then show "ensureRunCall uc ns n h1 (drop (length h1) h2) (GcGetGLBC ns n (c_GetGLBC (gu_world uc) h2 ns n))"
    by (simp add: ensureRunCall_def)
  fix got h3 cfg
  assume "attempt (askLog (GcGetGLBC ns n) (\<lambda>h. c_GetGLBC (gu_world uc) h ns n)) h2 = (Inr got, h3)" and "got = Inr cfg"
  with h2 have h3: "h3 = h1 @ [?add, GcGetGLBC ns n (Inr cfg)]" by auto
  let ?t = "glb_newTask uc cfg" and ?pre = "[?add, GcGetGLBC ns n (Inr cfg)]"
  have part: "safe (guarded (length h1) (ensureRunCall uc ns n h1)) m (h1 @ ?pre @ es0)"
    if "safe (guarded (length (h1 @ ?pre)) (glbDeployCall ?t (h1 @ ?pre))) m (h1 @ ?pre @ es0)" for m :: "unit B" and es0
    using that by (rule safe_guarded_shift) (simp add: ensureRunCall_def)
  show "safe (guarded (length h1) (ensureRunCall uc ns n h1)) (glb_deploy ?t) h3"
    unfolding h3 using part[of "glb_deploy ?t" "[]"] glb_deploy_guarded[of "h1 @ ?pre" ?t] by simp
  fix r h4 now h5 
  assume "guarded (length h1) (ensureRunCall uc ns n h1) h3 h4"
    and "getS (c_Now (gu_world uc)) h4 = (Inr now, h5)"
  with h3 obtain es where h5: "h5 = h1 @ ?pre @ es" using grow_guarded by fastforce
  let ?patch = "glbPatch ?t (glb_trackOutcome uc (om_Generation (glbc_Meta cfg)) now (glb_outcomeOf r))"
  have "safe (guarded (length (h1 @ ?pre)) (glbDeployCall ?t (h1 @ ?pre))) ?patch (h1 @ ?pre @ es)"
    by (intro safe_glbDeploy_deploy safe_depl_patch) simp
  from part[OF this] show "safe (guarded (length h1) (ensureRunCall uc ns n h1)) ?patch h5" by (simp only: h5)
qed (simp add: ensureRunCall_def)

lemma safe_deleteRun:
  assumes "glb_HasFinalizer obj GlbcFinalizer"
  shows "safe (guarded (length h1) (deleteRunCall uc ns n)) (glbReconcileDelete uc ns n obj) h1"
  unfolding glbReconcileDelete_def DeleteGlobalLoadBalancerConfigUseCase_def glb_IgnoreNotFound_def
    glb_RemoveFinalizers_def GetGlobalLoadBalancerConfig_def
proof (intro safe_intro)
  show "deleteRunCall uc ns n (drop (length h1) h1) (GcGetGLBC ns n (c_GetGLBC (gu_world uc) h1 ns n))"
    by (simp add: deleteRunCall_def)
next
  fix got h2 cfg
  assume "attempt (askLog (GcGetGLBC ns n) (\<lambda>h. c_GetGLBC (gu_world uc) h ns n)) h1 = (Inr got, h2)" and "got = Inr cfg"
  then have h2: "h2 = h1 @ [GcGetGLBC ns n (Inr cfg)] @ []" by auto
  show "safe (guarded (length h1) (deleteRunCall uc ns n)) (glb_delete (glb_newTask uc cfg)) h2"
    unfolding h2 by (rule safe_guarded_shift[where G = "glbDeleteCall (glb_newTask uc cfg)"])
      (use glb_delete_guarded[of "h1 @ [GcGetGLBC ns n (Inr cfg)]"] in \<open>simp_all add: deleteRunCall_def\<close>)
next
  fix u h2
  assume run: "wrapErr glb_withMetrics
      (andThen (attempt (askLog (GcGetGLBC ns n) (\<lambda>h. c_GetGLBC (gu_world uc) h ns n)))
        (\<lambda>got. case got of
            Inl err \<Rightarrow> if c_IsNotFound (gu_world uc) err then returnM () else failM err
          | Inr lbConfig \<Rightarrow> glb_delete (glb_newTask uc lbConfig))) h1 = (Inr u, h2)"
  show "deleteRunCall uc ns n (drop (length h1) h2) (GcRemoveFinalizers GlbcFinalizer (c_RemoveFinalizers (gu_world uc) h2 GlbcFinalizer))"
  proof (cases "c_GetGLBC (gu_world uc) h1 ns n")
    case (Inl err)
    with run show ?thesis by (auto simp: andThen_Inr_iff deleteRunCall_def split: if_splits)
  next
    case (Inr cfg)
    let ?h = "h1 @ [GcGetGLBC ns n (Inr cfg)]"
    from run Inr have del: "glb_delete (glb_newTask uc cfg) ?h = (Inr (), h2)" by (auto simp: andThen_Inr_iff)
    from grow_guarded[OF adds.safeD[OF glb_delete_guarded del]] obtain es where h2: "h2 = ?h @ es" by auto
    from glb_delete_ends[OF del[unfolded h2]] h2 show ?thesis by (auto simp: deleteRunCall_def)
  qed
qed

lemma safe_glb_report:
  assumes "safe (guarded (length h0) G) m h" and "\<And>h' a b c. guarded (length h0) G h h' \<Longrightarrow> G (drop (length h0) h') (GcRecord a b c)"
  shows "safe (guarded (length h0) G) (glb_report obj failed succeeded m) h"
  unfolding glb_report_def glb_record_def
  by (intro safe_intro assms) auto

text \<open>
  C14. A reconcile, call by call. It reads the object; a living one gets its finalizer first, is read again, and
  only then deployed, every call of the deploy being one that \<open>glbDeployCall\<close> allows for what was read; one marked for
  deletion is worked on only under our finalizer: it is read again and torn down, every call being one that
  \<open>glbDeleteCall\<close> allows for what was read, and the finalizer goes only when the teardown has come to its end - nothing on
  record, the load balancer gone or deleted, or the last look at it finding something left on it.
\<close>

theorem glbReconcile_calls: "safe (addsR id (ofRun (length h0) (glbRunCall uc ns n h0))) (glbReconcile uc ns n) h0"
  unfolding glbReconcile_def GetGlobalLoadBalancerConfig_def glb_IgnoreNotFound_def
proof (intro safe_intro)
  show "glbRunCall uc ns n h0 (drop (length h0) h0) (GcGetGLBC ns n (c_GetGLBC (gu_world uc) h0 ns n))"
    by (simp add: glbRunCall_def)
next
  fix got h1 obj
  assume "attempt (askLog (GcGetGLBC ns n) (\<lambda>h. c_GetGLBC (gu_world uc) h ns n)) h0 = (Inr got, h1)" and "got = Inr obj"
  then have h1: "h1 = h0 @ [GcGetGLBC ns n (Inr obj)] @ []" by auto
  let ?G = "guarded (length h0) (glbRunCall uc ns n h0)"
  have rec: "safe ?G (glb_report obj a b m) h1" if "safe ?G m h1" for a b m
    using that by (rule safe_glb_report) (auto simp: h1 glbRunCall_def dest!: grow_guarded)
  show "safe ?G (glb_report obj ''FailedDelete'' ''Deleted'' (glbReconcileDelete uc ns n obj)) h1"
    if "\<not> glbc_IsSupported obj" and "glbc_IsPendingFinalization obj"
  proof (rule rec)
    show "safe ?G (glbReconcileDelete uc ns n obj) h1"
      unfolding h1 by (rule safe_guarded_shift[where G = "deleteRunCall uc ns n"])
        (use that safe_deleteRun[of obj "h0 @ [GcGetGLBC ns n (Inr obj)]" uc ns n] in
          \<open>auto simp: glbRunCall_def glbc_IsSupported_def glbc_IsPendingFinalization_def glb_HasFinalizer_iff\<close>)
  qed
  show "safe ?G (glb_report obj ''FailedEnsure'' ''Ensured'' (glbReconcileEnsure uc ns n)) h1"
    if "\<not> \<not> glbc_IsSupported obj"
  proof (rule rec)
    show "safe ?G (glbReconcileEnsure uc ns n) h1"
      unfolding h1 by (rule safe_guarded_shift[where G = "ensureRunCall uc ns n (h0 @ [GcGetGLBC ns n (Inr obj)])"])
        (use that safe_ensureRun[of "h0 @ [GcGetGLBC ns n (Inr obj)]" uc ns n] in \<open>auto simp: glbRunCall_def glbc_IsSupported_def\<close>)
  qed
qed

end
