(* ===== verification/Spec2Isabelle.thy ===== *)
theory Spec2Isabelle
  imports LB_Locks Ttl_Cache Svc_Example Nsg_Reconcile Ing_UseCase Ing_Example Glb_Reconcile
begin

text \<open>
  The VNGCloud load balancer controller: a Kubernetes controller that keeps a cloud load balancer in
  the state a \<open>LoadBalancerConfig\<close> (LBC) describes, on load balancers it may share with other LBCs,
  other clusters and the user.

  \<^bold>\<open>The program.\<close> The Service controller turns a Service of type LoadBalancer into a LoadBalancerConfig
  and a NodeSecurityGroup, from its ports, annotations, endpoints and the network of the cluster, and
  deletes them when the Service goes. The Ingress controller does the same for an Ingress, with a policy
  for each of its paths. The NodeSecurityGroup controller keeps the rules of a security group
  and attaches it to the servers of the selected nodes. The GlobalLoadBalancerConfig controller keeps a global
  load balancer, whose pools have groups of members in several regions, in the state such an object describes. The LBC controller fetches an object, puts its finalizer on it and hands it to the use
  case, which builds a task and runs \<open>deploy\<close>, or \<open>delete\<close> for an object being deleted. A task talks to
  the cloud through \<open>VngCloudRepository\<close> and to the API server through \<open>K8sRepository\<close>, and records in
  the status of the object what it created, before and after it creates it, so that a later run - of
  this process or the next one - knows what it may change, put back or delete.

  \<^bold>\<open>How it is modelled.\<close> A Go method returning \<open>(T, error)\<close> is a function of type \<open>T M\<close>: from a state to
  an error or a value, and a state. The state has the in-memory status of the object and the history
  of all calls to the two repositories, each with its arguments and its answer. The answers come from
  parameters that see the whole history, so the cloud, the API server, other clusters and the user are
  arbitrary, and every theorem holds for all of them. Statements about what the controller does are
  statements about the calls it adds to the history and about what had been answered before each.

  \<^bold>\<open>The theories.\<close>
  \<^item> \<open>Prelude\<close>: Go's strings, slices and maps, with their lemmas.
  \<^item> \<open>Go_Errors\<close>: \<^verbatim>\<open>internal/domain/error.go\<close>, \<^verbatim>\<open>ratelimit.go\<close>, \<^verbatim>\<open>pkg/errs\<close>; error trees, what is
    requeued and when.
  \<^item> \<open>LBC_Types\<close>: \<^verbatim>\<open>api/v1alpha1/loadbalancerconfig_types.go\<close>, and what the code reads of the SDK's
    entities; the locales \<open>go_covered\<close> and \<open>go_equal\<close> state what the order-independent comparisons of
    recorded lists need of an \<open>Equal\<close> method, and are interpreted for each of them.
  \<^item> \<open>Runs\<close>: sequencing, error wrapping and loops for any state, and the program logic; the locale
    \<open>step_rel\<close> gives one rule per construct of the source language for any transitive relation between
    states. \<open>Cloud\<close>: the repositories, the history, the read-mutate-patch loop of \<^verbatim>\<open>k8s_repo.go\<close>.
    \<open>Effects\<close>: the locale interpreted for what a run calls, for what it keeps, and for both.
    \<open>Example_Env\<close>: the environment of the witnesses.
  \<^item> \<open>Net\<close>, \<open>Listener_Acl\<close>: CIDR parsing and \<^verbatim>\<open>listener_acl.go\<close>, the plan of what an LBC sets, leaves and
    puts back of a listener's access lists.
  \<^item> \<open>Pool_Members\<close>, \<open>Pools\<close>: \<^verbatim>\<open>deploy_pool.go\<close>, \<^verbatim>\<open>delete_pool.go\<close>, \<^verbatim>\<open>retry_not_ready.go\<close>; the locale
    \<open>member_identity\<close> states what the merge of member lists needs of the identity of a member.
  \<^item> \<open>Status_Ops\<close>: \<^verbatim>\<open>status.go\<close>. \<open>Tags\<close>: \<^verbatim>\<open>deploy_tag.go\<close>, \<^verbatim>\<open>delete_tag.go\<close>. \<open>Policies\<close>:
    \<^verbatim>\<open>deploy_policy.go\<close>, \<^verbatim>\<open>delete_policy.go\<close>. \<open>Validate\<close>: \<^verbatim>\<open>validate.go\<close>. \<open>Listeners\<close>:
    \<^verbatim>\<open>deploy_listener.go\<close>, \<^verbatim>\<open>delete_listener.go\<close>. \<open>Names\<close>: \<^verbatim>\<open>pkg/utils/name_helper.go\<close> and
    \<^verbatim>\<open>utils.go\<close>. \<open>Certs\<close>: \<^verbatim>\<open>deploy_cert.go\<close>.
  \<^item> \<open>LB_Deploy\<close>: \<^verbatim>\<open>deploy_lb.go\<close>. \<open>LB_Delete\<close>: \<^verbatim>\<open>delete_lb.go\<close>. \<open>LBC_UseCase\<close>: \<^verbatim>\<open>lbc_uc.go\<close>, the LBC
    controller and the finalizers. \<open>LB_Locks\<close>: the mutex per load balancer, under any interleaving of
    workers.
  \<^item> \<open>Ttl_Cache\<close>: \<^verbatim>\<open>ttl_cache.go\<close> and \<^verbatim>\<open>vngcloud_tags.go\<close>, the cache behind \<open>ListTags\<close>.
  \<^item> \<open>Annotations\<close>: \<^verbatim>\<open>pkg/annotations\<close> and \<^verbatim>\<open>usecase/listeneracl\<close>. \<open>K8s_Types\<close>: Services, nodes, endpoints
    and the types of \<^verbatim>\<open>nodesecuritygroup_types.go\<close>, with \<^verbatim>\<open>node_pick.go\<close> and \<^verbatim>\<open>provider_id.go\<close>.
  \<^item> \<open>Svc_World\<close>: the API server, the cloud reads and the CNI detector (\<^verbatim>\<open>cni_detector.go\<close>) as the Service
    controller sees them, with a history of its own. \<open>Endpoints\<close>: \<^verbatim>\<open>endpoint_resolver.go\<close>.
  \<^item> \<open>Service_Pools\<close>: \<^verbatim>\<open>service_uc/build_pool.go\<close>, \<^verbatim>\<open>build_listener.go\<close>, \<^verbatim>\<open>build_sec_group.go\<close>.
    \<open>Service_Build\<close>: \<^verbatim>\<open>build_lbc.go\<close> and \<^verbatim>\<open>pkg/service\<close>. \<open>Service_UseCase\<close>: \<^verbatim>\<open>service_uc.go\<close> and
    \<^verbatim>\<open>service_controller.go\<close>; the locale \<open>del_ops\<close> states what a goroutine that deletes objects relies
    on, and is interpreted for both kinds of objects. \<open>Svc_Example\<close>: a cluster with a Service, for the
    witnesses of this part.
  \<^item> \<open>Nsg_World\<close>: \<^verbatim>\<open>vngcloud_secgroup.go\<close>, \<^verbatim>\<open>vngcloud_server.go\<close> and the status patch of a NodeSecurityGroup.
    \<open>Nsg_UseCase\<close>: \<^verbatim>\<open>nsg_uc.go\<close>, \<^verbatim>\<open>deploy_managed_sg.go\<close>, \<^verbatim>\<open>status.go\<close>. \<open>Nsg_Safety\<close>: the merge of group lists
    and the plan of rules. \<open>Nsg_Reconcile\<close>: \<^verbatim>\<open>nsg_controller.go\<close>, and what a reconcile may do.
  \<^item> \<open>Json\<close>: \<^verbatim>\<open>encoding/json\<close> as the code uses it - the scanner and the decoding into structs, slices,
    maps and basic types - and \<open>ParseJSONAnnotation\<close>. \<open>Ing_Paths\<close>: \<^verbatim>\<open>ingress_uc/build_policy.go\<close>,
    \<^verbatim>\<open>build_listener.go\<close>, \<^verbatim>\<open>build_cert.go\<close>. \<open>Ing_Pools\<close>: \<^verbatim>\<open>build_pool.go\<close> and \<^verbatim>\<open>build_sec_group.go\<close>;
    \<open>Ing_Routes\<close> what they guarantee. \<open>Ing_Build\<close>: \<^verbatim>\<open>build_lbc.go\<close> and \<^verbatim>\<open>pkg/ingress\<close>; \<open>Ing_Index\<close>: the
    index of an Ingress and what a run asks for. \<open>Ing_UseCase\<close>: \<^verbatim>\<open>ingress_uc.go\<close> and
    \<^verbatim>\<open>ingress_controller.go\<close>. \<open>Ing_Example\<close>: an Ingress for the witnesses. The task of an Ingress has a view
    as one of a Service (\<open>asService\<close>); a method whose Go text is that of the Service's, with the ingress
    for the service, is defined by it.
  \<^item> \<open>Glb_Types\<close>: \<^verbatim>\<open>globalloadbalancerconfig_types.go\<close> and the comparisons of \<^verbatim>\<open>glbc_uc/status.go\<close>. \<open>Glb_World\<close>:
    \<^verbatim>\<open>vngcloud_global.go\<close> and the status patch of a GlobalLoadBalancerConfig, with a history of their own. Of
    \<^verbatim>\<open>usecase/glbc_uc\<close>: \<open>Glb_Members\<close> has \<^verbatim>\<open>status.go\<close> and \<^verbatim>\<open>deploy_pool_member.go\<close>; \<open>Glb_Pools\<close> \<^verbatim>\<open>deploy_pool.go\<close>
    and \<^verbatim>\<open>delete_pool.go\<close>; \<open>Glb_Listeners\<close> \<^verbatim>\<open>deploy_listener.go\<close> and \<^verbatim>\<open>delete_listener.go\<close>; \<open>Glb_Deploy\<close>
    \<^verbatim>\<open>deploy_lb.go\<close>, \<^verbatim>\<open>delete_lb.go\<close>, \<^verbatim>\<open>validate.go\<close>; \<open>Glb_UseCase\<close> \<^verbatim>\<open>glbc_uc.go\<close>, with \<^verbatim>\<open>glbc_controller.go\<close>. A method
    that has a namesake in the other use cases is prefixed \<open>glb_\<close>. \<open>Glb_Safety\<close>, \<open>Glb_Deploys\<close>, \<open>Glb_Reconcile\<close>:
    what a teardown, a deploy and a reconcile may call. In this use case a patch does not reach the object in
    memory, so the task is constant; its mutexes are those of \<open>LB_Locks\<close>.

  \<^bold>\<open>What is shown.\<close> Who may delete what: load balancers, listeners, pools, certificates and tags go only
  when the run's own reads and the record entitle this LBC to it, and what belongs to others is kept
  or put back. In which order: what is wanted is in place before anything is taken away, and records
  are written before what they are needed for can fail. That the plans converge, comparisons decide
  the equality they stand for, and failures of one item do not shield the others. The finalizer is on
  the object before anything is done for it and leaves only after the teardown came to an end.
  Of a Service: which objects a reconcile may write or delete, that each port gets its listener and its
  pool, that the security group rules are those the backends need, that the result does not depend on
  the order of lists the API server returns, and that a settled object is not written again. Of a
  NodeSecurityGroup: that the groups others put on a server stay there, that rules and groups go only
  when nobody needs them, and that no server is passed over. Of an Ingress: that a path is left out only
  when its backend was seen not to exist, that nothing else than a defect of the Ingress or a failed call
  fails a build, that no reference dangles, and that the Services it reads are those it is indexed by. Of a
  GlobalLoadBalancerConfig: the guard of every call of a reconcile, and that members are pushed by identity.

  \<^bold>\<open>Bounds and parameters.\<close> A created object is looked for three times, an update of a busy server is
  tried three times, and a server or a global load balancer is polled thirty times (the constants of the source). The
  schedule of the two goroutines of a deletion is an arbitrary function. A write to a busy load balancer is tried three times (the constant of the
  source). The number of retries of a conflicting patch and the number of looks at a removed
  finalizer are parameters: they are client-go's and the clock's. SHA-256 is written out; names are
  modelled on ASCII text, which Kubernetes names are.

  \<^bold>\<open>Not modelled.\<close> The SDK calls behind the repositories and their retries, which are I/O. The
  two controllers that build GlobalLoadBalancerConfigs, from a VngcloudGlobalLoadBalancer and from a Service: what they
  build is an arbitrary input here. Logging and metrics. The copies of events on owner objects. Watches and work queues.
\<close>

end
